(* ===== verification/Parp_Prelude.thy ===== *)
theory Parp_Prelude
  imports Main "HOL-Library.Word"
begin

unbundle bit_operations_syntax

text \<open>
  Shared vocabulary of the development. It names the machine integers of the kernel code, the
  arithmetic helpers the sources call (saturating addition, the 64 by 32 bit multiply-and-divide,
  C division, packed bit fields in the style of \<open>GENMASK\<close>, \<open>FIELD_GET\<close> and \<open>FIELD_PREP\<close>), and
  the contracts (locales) that several components provide or rely on:

  \<^item> \<open>smoothing\<close>: an exponential moving average that stays between its old value and its sample;
  \<^item> \<open>spending\<close>: an admission test that bounds what a ledger can have spent;
  \<^item> \<open>mode_switch\<close>: a mode setter that either reports an error and changes nothing or reports
    success and installs the requested mode.

  The signed \<open>s32\<close> and \<open>s64\<close> values of the sources are \<open>int\<close>: the theorems bound them inside
  their type. The unsigned values are words of their width, and wrap as the C values do.
\<close>

type_synonym u8 = "8 word"
type_synonym u16 = "16 word"
type_synonym u32 = "32 word"
type_synonym u64 = "64 word"

named_theorems parp_field "reading one packed field after writing another"
named_theorems parp_frame "state components an operation leaves alone"

abbreviation U8_MAX :: u8 where "U8_MAX \<equiv> 0xFF"
abbreviation U16_MAX :: u32 where "U16_MAX \<equiv> 0xFFFF"
abbreviation U32_MAX :: u32 where "U32_MAX \<equiv> 0xFFFFFFFF"
abbreviation U64_MAX :: u64 where "U64_MAX \<equiv> 0xFFFFFFFFFFFFFFFF"
abbreviation S32_MAX :: int where "S32_MAX \<equiv> 0x7FFFFFFF"
abbreviation S32_MIN :: int where "S32_MIN \<equiv> - 0x80000000"
abbreviation S64_MAX :: int where "S64_MAX \<equiv> 0x7FFFFFFFFFFFFFFF"
abbreviation S64_MIN :: int where "S64_MIN \<equiv> - 0x8000000000000000"

text \<open>The error numbers the operations return, with \<open>0\<close> for success.\<close>

datatype errno = EINVAL | ERANGE | EBUSY | EAGAIN | EPERM | ENOSPC | ENOMEM | EALREADY | ESTALE
  | EOPNOTSUPP | EOVERFLOW

type_synonym 'a result = "errno + 'a"

section \<open>Arithmetic the sources use\<close>

text \<open>C division truncates towards zero.\<close>

definition c_div :: "int \<Rightarrow> int \<Rightarrow> int" where
  "c_div a b = sgn a * sgn b * (\<bar>a\<bar> div \<bar>b\<bar>)"

lemma c_div_nonneg: "0 \<le> a \<Longrightarrow> 0 < b \<Longrightarrow> c_div a b = a div b"
  by (cases "a = 0") (auto simp: c_div_def)

lemma c_div_neg: "a < 0 \<Longrightarrow> 0 < b \<Longrightarrow> c_div a b = - ((- a) div b)"
  by (auto simp: c_div_def)

lemma c_div_bounds:
  assumes "0 < b"
  shows "c_div a b \<le> max a 0" and "min a 0 \<le> c_div a b"
proof -
  have div_le: "x div b \<le> x" if "0 \<le> x" for x :: int
    using zdiv_mono2 [of x 1 b] that assms by simp
  show "c_div a b \<le> max a 0" and "min a 0 \<le> c_div a b"
    using div_le [of a] div_le [of "- a"] assms
    by (cases "a < 0"; simp add: c_div_nonneg c_div_neg pos_imp_zdiv_nonneg_iff)+
qed

text \<open>\<open>div_u64 (ns, NSEC_PER_MSEC)\<close> and friends: plain division by a non-zero constant.\<close>

abbreviation NSEC_PER_MSEC :: u64 where "NSEC_PER_MSEC \<equiv> 1000000"
abbreviation NSEC_PER_SEC :: u64 where "NSEC_PER_SEC \<equiv> 1000000000"

text \<open>
  The kernel's \<open>mul_u64_u32_div (a, mul, divisor)\<close> computes \<open>a * mul / divisor\<close> through a wide
  intermediate product. Its contract (restated by the comment in
  \<open>mm/parp/core/scan_budget.c\<close>) is a non-zero divisor and a quotient that fits in 64 bits;
  \<open>mul_div_defined\<close> is that contract. A caller whose operands may break it returns an option
  below, with \<open>None\<close> for the divide error; every other caller has a lemma that discharges it.
\<close>

definition mul_div_defined :: "u64 \<Rightarrow> u64 \<Rightarrow> u64 \<Rightarrow> bool" where
  "mul_div_defined a m d \<longleftrightarrow> d \<noteq> 0 \<and> unat a * unat m div unat d < 2 ^ 64"

definition mul_u64_u64_div_u64 :: "u64 \<Rightarrow> u64 \<Rightarrow> u64 \<Rightarrow> u64" where
  "mul_u64_u64_div_u64 a m d = word_of_nat (unat a * unat m div unat d)"

definition mul_u64_u32_div :: "u64 \<Rightarrow> u32 \<Rightarrow> u32 \<Rightarrow> u64" where
  "mul_u64_u32_div a m d = mul_u64_u64_div_u64 a (ucast m) (ucast d)"

lemma unat_u64_bound: "unat (x :: u64) < 2 ^ 64"
  using unsigned_less [of x] by simp

lemma unat_u32_bound: "unat (x :: u32) < 2 ^ 32"
  using unsigned_less [of x] by simp

lemma unat_ucast_32_64 [simp]: "unat (ucast (x :: u32) :: u64) = unat x"
  using unat_u32_bound [of x] by (simp add: unsigned_ucast_eq take_bit_nat_eq_self)

lemma ucast_32_64_eq_0 [simp]: "(ucast (x :: u32) :: u64) = 0 \<longleftrightarrow> x = 0"
  by (metis unat_eq_zero unat_ucast_32_64)

lemma unat_mul_u64_u64_div_u64:
  "mul_div_defined a m d \<Longrightarrow> unat (mul_u64_u64_div_u64 a m d) = unat a * unat m div unat d"
  by (simp add: mul_div_defined_def mul_u64_u64_div_u64_def unat_of_nat)

lemma unat_mul_u64_u32_div:
  "mul_div_defined a (ucast m) (ucast d) \<Longrightarrow>
   unat (mul_u64_u32_div a m d) = unat a * unat m div unat d"
  by (simp add: mul_u64_u32_div_def unat_mul_u64_u64_div_u64)

lemma mul_div_defined_shrinking:
  assumes "d \<noteq> 0" and "unat m \<le> unat d"
  shows "mul_div_defined a m d"
proof -
  have "unat a * unat m div unat d \<le> unat a * unat d div unat d"
    using assms(2) by (intro div_le_mono mult_le_mono2)
  also have "\<dots> = unat a" using assms(1) by (simp add: unat_gt_0)
  also have "\<dots> < 2 ^ 64" using unat_u64_bound [of a] by simp
  finally show ?thesis using assms(1) by (simp add: mul_div_defined_def)
qed

lemma mul_u64_u32_div_shrinks:
  assumes "d \<noteq> 0" and "unat m \<le> unat d"
  shows "unat (mul_u64_u32_div a m d) = unat a * unat m div unat d"
    and "unat (mul_u64_u32_div a m d) \<le> unat a"
proof -
  show eq: "unat (mul_u64_u32_div a m d) = unat a * unat m div unat d"
    using assms by (intro unat_mul_u64_u32_div mul_div_defined_shrinking) auto
  have "unat a * unat m div unat d \<le> unat a * unat d div unat d"
    using assms(2) by (intro div_le_mono mult_le_mono2)
  also have "\<dots> = unat a" using assms(1) by (simp add: unat_gt_0)
  finally show "unat (mul_u64_u32_div a m d) \<le> unat a" using eq by simp
qed

text \<open>Saturating unsigned addition, \<open>left + min (right, MAX - left)\<close> in the sources.\<close>

definition sat_add :: "u64 \<Rightarrow> u64 \<Rightarrow> u64" where
  "sat_add a b = a + min b (U64_MAX - a)"

lemma unat_sat_add: "unat (sat_add a b) = min (unat a + unat b) (2 ^ 64 - 1)"
proof -
  have top: "unat (U64_MAX - a) = 2 ^ 64 - 1 - unat a"
    using unat_u64_bound [of a] by (subst unat_sub) (auto simp: word_le_nat_alt)
  have fits: "unat a + unat (min b (U64_MAX - a)) < 2 ^ 64"
    using unat_u64_bound [of a] top by (auto simp: min_def word_le_nat_alt)
  show ?thesis unfolding sat_add_def
    using unat_u64_bound [of a] top fits
    by (subst unat_add_lem [THEN iffD1]) (auto simp: min_def word_le_nat_alt)
qed

lemma sat_add_ge: "a \<le> sat_add a b"
  using unat_u64_bound [of a] by (simp add: word_le_nat_alt unat_sat_add)

text \<open>Unsigned addition that is known not to wrap, as the bounds below need it.\<close>

lemma unat_add_no_wrap: "unat (a :: u64) + unat b < 2 ^ 64 \<Longrightarrow> unat (a + b) = unat a + unat b"
  by (subst unat_add_lem [THEN iffD1]) auto

text \<open>\<open>fls64\<close>: the number of the highest set bit, counted from 1, and 0 for 0.\<close>

fun fls_nat :: "nat \<Rightarrow> nat" where
  "fls_nat n = (if n = 0 then 0 else Suc (fls_nat (n div 2)))"

declare fls_nat.simps [simp del]

definition fls64 :: "u64 \<Rightarrow> nat" where
  "fls64 v = fls_nat (unat v)"

lemma fls_nat_upper: "n < 2 ^ fls_nat n"
proof (induction n rule: fls_nat.induct)
  case (1 n)
  then show ?case by (cases "n = 0") (auto simp: fls_nat.simps [of n])
qed

lemma fls_nat_lower: "n \<noteq> 0 \<Longrightarrow> 2 ^ (fls_nat n - 1) \<le> n"
proof (induction n rule: fls_nat.induct)
  case (1 n)
  show ?case
  proof (cases "n div 2 = 0")
    case True
    then show ?thesis using 1(2) by (simp add: fls_nat.simps [of n] fls_nat.simps [of 0])
  next
    case False
    then have "2 ^ (fls_nat (n div 2) - 1) \<le> n div 2" using 1 by auto
    moreover have "fls_nat (n div 2) = Suc (fls_nat (n div 2) - 1)"
      using False by (simp add: fls_nat.simps [of "n div 2"])
    ultimately have "2 ^ fls_nat (n div 2) \<le> 2 * (n div 2)"
      by (metis mult_le_mono2 power_Suc)
    also have "\<dots> \<le> n" by simp
    finally show ?thesis using 1(2) by (simp add: fls_nat.simps [of n])
  qed
qed

section \<open>Packed bit fields\<close>

definition BIT :: "nat \<Rightarrow> u32" where
  "BIT n = push_bit n 1"

lemma bit_BIT: "bit (BIT n) m \<longleftrightarrow> m = n \<and> n < 32"
  by (auto simp: BIT_def bit_simps)

lemma and_BIT: "n < 32 \<Longrightarrow> w AND BIT n \<noteq> 0 \<longleftrightarrow> bit w n"
proof -
  assume n: "n < 32"
  have "w AND BIT n = (if bit w n then BIT n else 0)"
    by (rule bit_word_eqI) (auto simp: bit_simps bit_BIT)
  moreover have "BIT n \<noteq> 0" using bit_BIT [of n n] n by auto
  ultimately show ?thesis by simp
qed

definition GENMASK :: "nat \<Rightarrow> nat \<Rightarrow> u32" where
  "GENMASK h l = push_bit l (mask (Suc h - l))"

definition FIELD_GET :: "nat \<Rightarrow> nat \<Rightarrow> u32 \<Rightarrow> u32" where
  "FIELD_GET h l w = drop_bit l (w AND GENMASK h l)"

definition FIELD_PREP :: "nat \<Rightarrow> nat \<Rightarrow> u32 \<Rightarrow> u32" where
  "FIELD_PREP h l v = push_bit l v AND GENMASK h l"

text \<open>\<open>(w & ~mask) | FIELD_PREP (mask, v)\<close>, the read-modify-write of one field.\<close>

definition field_set :: "nat \<Rightarrow> nat \<Rightarrow> u32 \<Rightarrow> u32 \<Rightarrow> u32" where
  "field_set h l v w = (w AND NOT (GENMASK h l)) OR FIELD_PREP h l v"

lemma bit_GENMASK: "bit (GENMASK h l) n \<longleftrightarrow> l \<le> n \<and> n \<le> h \<and> n < 32"
  by (auto simp: GENMASK_def bit_simps)

lemma bit_FIELD_GET: "bit (FIELD_GET h l w) n \<longleftrightarrow> n + l \<le> h \<and> bit w (n + l)"
  by (auto simp: FIELD_GET_def bit_simps bit_GENMASK add.commute dest: bit_imp_le_length)

lemma bit_FIELD_PREP:
  "bit (FIELD_PREP h l v) n \<longleftrightarrow> l \<le> n \<and> n \<le> h \<and> n < 32 \<and> bit v (n - l)"
  by (auto simp: FIELD_PREP_def bit_simps bit_GENMASK)

lemma bit_field_set:
  "bit (field_set h l v w) n \<longleftrightarrow>
     (if l \<le> n \<and> n \<le> h then n < 32 \<and> bit v (n - l) else bit w n)"
  by (auto simp: field_set_def bit_simps bit_GENMASK bit_FIELD_PREP dest: bit_imp_le_length)

lemmas field_bits = bit_GENMASK bit_FIELD_GET bit_FIELD_PREP bit_field_set

lemma FIELD_GET_set_same [parp_field]:
  assumes "h < 32" and "l \<le> h"
  shows "FIELD_GET h l (field_set h l v w) = v AND mask (Suc h - l)"
  by (rule bit_word_eqI) (use assms in \<open>auto simp: field_bits bit_simps\<close>)

lemma FIELD_GET_set_other [parp_field]:
  assumes "h < l' \<or> h' < l"
  shows "FIELD_GET h l (field_set h' l' v w) = FIELD_GET h l w"
  by (rule bit_word_eqI) (use assms in \<open>auto simp: field_bits\<close>)

lemma field_set_id: "h < 32 \<Longrightarrow> l \<le> h \<Longrightarrow> field_set h l (FIELD_GET h l w) w = w"
  by (rule bit_word_eqI) (auto simp: field_bits)

lemma field_set_twice: "field_set h l v (field_set h l v' w) = field_set h l v w"
  by (rule bit_word_eqI) (auto simp: field_bits)

lemma field_set_commute:
  assumes "h < l' \<or> h' < l"
  shows "field_set h l v (field_set h' l' v' w) = field_set h' l' v' (field_set h l v w)"
  by (rule bit_word_eqI) (use assms in \<open>auto simp: field_bits\<close>)

lemma FIELD_GET_bound: "l \<le> h \<Longrightarrow> h < 32 \<Longrightarrow> unat (FIELD_GET h l w) < 2 ^ (Suc h - l)"
proof -
  assume *: "l \<le> h" "h < 32"
  have "FIELD_GET h l w = take_bit (Suc h - l) (FIELD_GET h l w)"
    by (rule bit_word_eqI) (auto simp: field_bits bit_simps)
  then have "unat (FIELD_GET h l w) = take_bit (Suc h - l) (unat (FIELD_GET h l w))"
    by (metis unsigned_take_bit_eq)
  then show ?thesis by (metis take_bit_nat_less_exp)
qed

lemma and_mask_small: "unat (v :: u32) < 2 ^ n \<Longrightarrow> v AND mask n = v"
proof -
  assume "unat v < 2 ^ n"
  then have "take_bit n (unat v) = unat v" by (simp add: take_bit_nat_eq_self)
  then have "unat (take_bit n v) = unat v" by (simp add: unsigned_take_bit_eq)
  then have "take_bit n v = v" by (rule unsigned_word_eqI)
  then show ?thesis by (simp add: take_bit_eq_mask)
qed

section \<open>Contracts shared by the components\<close>

text \<open>
  A smoothed value: each step moves the stored value towards the sample and never beyond it.
  The client lemma is that any number of samples from an interval that holds the start keeps the
  value in the interval.
\<close>

locale smoothing =
  fixes smooth :: "'a \<Rightarrow> 'a \<Rightarrow> 'a::linorder"
    and seeded :: "'a \<Rightarrow> bool"
  assumes smooth_upper: "seeded old \<Longrightarrow> smooth old s \<le> max old s"
    and smooth_lower: "seeded old \<Longrightarrow> min old s \<le> smooth old s"
    and smooth_seeded: "seeded old \<Longrightarrow> seeded (smooth old s)"
begin

lemma smooth_run_bounded:
  "seeded x \<Longrightarrow> lo \<le> x \<Longrightarrow> x \<le> hi \<Longrightarrow> \<forall>s \<in> set ss. lo \<le> s \<and> s \<le> hi \<Longrightarrow>
   lo \<le> foldl smooth x ss \<and> foldl smooth x ss \<le> hi"
proof (induction ss arbitrary: x)
  case Nil
  then show ?case by simp
next
  case (Cons s ss)
  have "lo \<le> smooth x s" and "smooth x s \<le> hi"
    using smooth_lower [of x s] smooth_upper [of x s] Cons.prems
    by (auto simp: min_def max_def split: if_splits)
  then show ?case using Cons by (simp add: smooth_seeded)
qed

lemma smooth_fixpoint: "seeded x \<Longrightarrow> smooth x x = x"
  using smooth_lower [of x x] smooth_upper [of x x] by simp

end

text \<open>
  A spending ledger: \<open>admit used pages\<close> is the test the code makes before it adds \<open>pages\<close> to
  \<open>used\<close>. The law is that what it admits stays within the limit, without wrapping.
\<close>

locale spending =
  fixes admit :: "u64 \<Rightarrow> u64 \<Rightarrow> bool"
    and limit :: u64
  assumes admit_bound: "admit used pages \<Longrightarrow> unat used + unat pages \<le> unat limit"
begin

definition spend :: "u64 \<Rightarrow> u64 \<Rightarrow> u64" where
  "spend used pages = (if admit used pages then used + pages else used)"

lemma spend_bound: "used \<le> limit \<Longrightarrow> spend used pages \<le> limit"
  using admit_bound [of used pages] unat_u64_bound [of limit]
  by (auto simp: spend_def word_le_nat_alt unat_add_no_wrap)

lemma spend_run_bound: "used \<le> limit \<Longrightarrow> foldl spend used ps \<le> limit"
  by (induction ps arbitrary: used) (auto simp: spend_bound)

end

text \<open>
  A mode switch: \<open>get\<close> reads the mode, \<open>put\<close> is the setter the control files call. The laws say
  that an error leaves the state as it was, and success installs what was asked for.
\<close>

locale mode_switch =
  fixes get :: "'s \<Rightarrow> 'm"
    and put :: "'m \<Rightarrow> 's \<Rightarrow> errno option \<times> 's"
    and ok :: "'s \<Rightarrow> bool"
  assumes put_success: "put m s = (None, s') \<Longrightarrow> get s' = m"
    and put_failure: "put m s = (Some e, s') \<Longrightarrow> s' = s"
    and put_ok: "ok s \<Longrightarrow> ok (snd (put m s))"
begin

lemma put_run_ok: "ok s \<Longrightarrow> ok (foldl (\<lambda>t m. snd (put m t)) s ms)"
  by (induction ms arbitrary: s) (auto simp: put_ok)

lemma put_changes_only_on_success: "get (snd (put m s)) \<noteq> get s \<Longrightarrow> fst (put m s) = None"
  using put_failure [of m s] by (cases "put m s"; cases "fst (put m s)") auto

end

end
