(* ===== verification/Tier_Types.thy ===== *)
theory Tier_Types
  imports Parp_Prelude
begin

text \<open>
  The data of the effective-tier module: the enumerations and structures of
  \<open>include/linux/parp.h\<close>, the per-lruvec ledger of \<open>include/linux/mmzone.h\<close>, and the structures
  private to \<open>mm/parp/core/effective_tier.c\<close>. Enumerations the code compares by value are
  instances of \<open>linorder\<close>, ordered as the C enumerators are numbered.

  Counters, page counts and identifiers are words of their C width. Tiers, tier indices and Q8
  tier values, which the code clamps before it stores them, are \<open>int\<close>. The LRU type (0 anonymous,
  1 file) is a \<open>bool\<close>.
\<close>

section \<open>Enumerations of the public header\<close>

datatype parp_rank_score_bin = PARP_RANK_SCORE_COLD | PARP_RANK_SCORE_NEUTRAL
  | PARP_RANK_SCORE_HOT_1 | PARP_RANK_SCORE_HOT_2 | PARP_RANK_SCORE_HOT_3
  | PARP_RANK_SCORE_INVALID

datatype parp_tier_scorer_kind = PARP_TIER_SCORER_PAIRWISE_LINEAR
  | PARP_TIER_SCORER_RECENCY_BASELINE | PARP_TIER_SCORER_RANDOM_BASELINE

datatype parp_effective_tier_mode = PARP_EFFECTIVE_TIER_OFF | PARP_EFFECTIVE_TIER_SHADOW
  | PARP_EFFECTIVE_TIER_PROTECT_ONLY | PARP_EFFECTIVE_TIER_BIDIRECTIONAL
  | PARP_EFFECTIVE_TIER_RANDOM_MATCHED | PARP_EFFECTIVE_TIER_RECENCY_BASELINE

datatype parp_tier_action = PARP_TIER_KEEP_RECLAIM | PARP_TIER_PREDICTIVE_UPGRADE
  | PARP_TIER_KEEP_PROTECT | PARP_TIER_PREDICTIVE_DOWNGRADE
  | PARP_TIER_SPECIAL_NATIVE_PROTECT

datatype parp_tier_bypass_reason = PARP_TIER_BYPASS_NONE | PARP_TIER_BYPASS_DISABLED
  | PARP_TIER_BYPASS_MODEL_INVALID | PARP_TIER_BYPASS_METADATA_MISSING
  | PARP_TIER_BYPASS_STATE_UNSTABLE | PARP_TIER_BYPASS_NOT_BOUNDARY
  | PARP_TIER_BYPASS_STRONG_NATIVE | PARP_TIER_BYPASS_UPGRADE_BUDGET
  | PARP_TIER_BYPASS_DOWNGRADE_BUDGET | PARP_TIER_BYPASS_REPEAT_UPGRADE
  | PARP_TIER_BYPASS_REPEAT_DOWNGRADE | PARP_TIER_BYPASS_PRESSURE
  | PARP_TIER_BYPASS_NO_PROGRESS | PARP_TIER_BYPASS_GENERATION_RACE
  | PARP_TIER_BYPASS_RANDOM_UNSELECTED

datatype parp_tier_reclaim_context = PARP_TIER_RECLAIM_UNKNOWN | PARP_TIER_RECLAIM_KSWAPD
  | PARP_TIER_RECLAIM_DIRECT | PARP_TIER_RECLAIM_MEMCG | PARP_TIER_RECLAIM_PROACTIVE_MEMCG

datatype parp_tier_outcome = PARP_TIER_OUTCOME_RECLAIMED | PARP_TIER_OUTCOME_PUTBACK
  | PARP_TIER_OUTCOME_ACTIVATED | PARP_TIER_OUTCOME_DEMOTE_ATTEMPT

datatype parp_access_event = PARP_ACCESS_PTE_YOUNG | PARP_ACCESS_MARK_ACCESSED
  | PARP_ACCESS_FD_REFERENCE | PARP_ACCESS_UNTRUSTED_MARK | PARP_ACCESS_POLICY_MARK
  | PARP_NATIVE_TIER_PROMOTION | PARP_NATIVE_GENERATION_MOVE | PARP_POLICY_PROMOTION
  | PARP_OTHER_MOVE | PARP_ACCESS_EVENT_NR

datatype parp_pressure_level = PARP_PRESSURE_LOW | PARP_PRESSURE_MEDIUM | PARP_PRESSURE_HIGH
  | PARP_PRESSURE_CRITICAL

fun mode_code :: "parp_effective_tier_mode \<Rightarrow> nat" where
  "mode_code PARP_EFFECTIVE_TIER_OFF = 0"
| "mode_code PARP_EFFECTIVE_TIER_SHADOW = 1"
| "mode_code PARP_EFFECTIVE_TIER_PROTECT_ONLY = 2"
| "mode_code PARP_EFFECTIVE_TIER_BIDIRECTIONAL = 3"
| "mode_code PARP_EFFECTIVE_TIER_RANDOM_MATCHED = 4"
| "mode_code PARP_EFFECTIVE_TIER_RECENCY_BASELINE = 5"

fun access_event_code :: "parp_access_event \<Rightarrow> nat" where
  "access_event_code PARP_ACCESS_PTE_YOUNG = 0"
| "access_event_code PARP_ACCESS_MARK_ACCESSED = 1"
| "access_event_code PARP_ACCESS_FD_REFERENCE = 2"
| "access_event_code PARP_ACCESS_UNTRUSTED_MARK = 3"
| "access_event_code PARP_ACCESS_POLICY_MARK = 4"
| "access_event_code PARP_NATIVE_TIER_PROMOTION = 5"
| "access_event_code PARP_NATIVE_GENERATION_MOVE = 6"
| "access_event_code PARP_POLICY_PROMOTION = 7"
| "access_event_code PARP_OTHER_MOVE = 8"
| "access_event_code PARP_ACCESS_EVENT_NR = 9"

fun pressure_code :: "parp_pressure_level \<Rightarrow> nat" where
  "pressure_code PARP_PRESSURE_LOW = 0"
| "pressure_code PARP_PRESSURE_MEDIUM = 1"
| "pressure_code PARP_PRESSURE_HIGH = 2"
| "pressure_code PARP_PRESSURE_CRITICAL = 3"

lemma mode_code_inj: "mode_code a = mode_code b \<Longrightarrow> a = b"
  by (cases a; cases b) auto

lemma access_event_code_inj: "access_event_code a = access_event_code b \<Longrightarrow> a = b"
  by (cases a; cases b) auto

lemma pressure_code_inj: "pressure_code a = pressure_code b \<Longrightarrow> a = b"
  by (cases a; cases b) auto

instantiation parp_effective_tier_mode :: linorder
begin
definition less_eq_parp_effective_tier_mode where
  "a \<le> b \<longleftrightarrow> mode_code a \<le> mode_code b"
definition less_parp_effective_tier_mode where
  "a < b \<longleftrightarrow> mode_code a < mode_code b"
instance
  by standard (auto simp: less_eq_parp_effective_tier_mode_def
      less_parp_effective_tier_mode_def intro: mode_code_inj)
end

instantiation parp_access_event :: linorder
begin
definition less_eq_parp_access_event where
  "a \<le> b \<longleftrightarrow> access_event_code a \<le> access_event_code b"
definition less_parp_access_event where
  "a < b \<longleftrightarrow> access_event_code a < access_event_code b"
instance
  by standard (auto simp: less_eq_parp_access_event_def
      less_parp_access_event_def intro: access_event_code_inj)
end

instantiation parp_pressure_level :: linorder
begin
definition less_eq_parp_pressure_level where
  "a \<le> b \<longleftrightarrow> pressure_code a \<le> pressure_code b"
definition less_parp_pressure_level where
  "a < b \<longleftrightarrow> pressure_code a < pressure_code b"
instance
  by standard (auto simp: less_eq_parp_pressure_level_def
      less_parp_pressure_level_def intro: pressure_code_inj)
end

lemmas enum_order_defs =
  less_eq_parp_effective_tier_mode_def less_parp_effective_tier_mode_def
  less_eq_parp_access_event_def less_parp_access_event_def
  less_eq_parp_pressure_level_def less_parp_pressure_level_def

section \<open>Structures\<close>

record parp_tier_policy =
  cold_threshold :: int
  hot_threshold_1 :: int
  hot_threshold_2 :: int
  hot_threshold_3 :: int
  max_upgrade_tiers :: u8
  max_downgrade_tiers :: u8
  require_two_cold :: bool

record parp_tier_decision =
  d_features :: "int list"
  d_reuse_score :: int
  d_raw_delta_tier_q8 :: int
  d_delta_tier_q8 :: int
  d_fixed_delta_q8 :: int
  d_binary_bypass_delta_q8 :: int
  d_pressure_aware_delta_q8 :: int
  d_effective_tier_q8 :: int
  d_cold_threshold :: int
  d_hot_threshold_1 :: int
  d_hot_threshold_2 :: int
  d_hot_threshold_3 :: int
  d_score_duration_ns :: u64
  d_decision_duration_ns :: u64
  d_folio_nr_pages :: u64
  d_native_tier :: int
  d_native_tier_idx :: int
  d_generation_index :: int
  d_action :: parp_tier_action
  d_bypass :: parp_tier_bypass_reason
  d_rank_score_bin :: parp_rank_score_bin
  d_scorer_kind :: parp_tier_scorer_kind
  d_pressure_level_kernel :: parp_pressure_level
  d_reclaim_context :: parp_tier_reclaim_context
  d_pressure_bypass_reason :: parp_tier_bypass_reason
  d_page_state_sequence :: u32
  d_pressure_policy_version :: u32
  d_evaluated :: bool
  d_model_valid :: bool
  d_features_valid :: bool
  d_native_protect :: bool
  d_effective_protect :: bool
  d_fixed_effective_protect :: bool
  d_pressure_aware_effective_protect :: bool
  d_special_native_protect :: bool
  d_actual_tier_protect :: bool
  d_reservation_active :: bool
  d_reservation_upgrade :: bool

text \<open>\<open>memset (decision, 0, sizeof (*decision))\<close>.\<close>

definition decision_zero :: parp_tier_decision where
  "decision_zero = \<lparr>
     d_features = replicate 6 0, d_reuse_score = 0, d_raw_delta_tier_q8 = 0,
     d_delta_tier_q8 = 0, d_fixed_delta_q8 = 0, d_binary_bypass_delta_q8 = 0,
     d_pressure_aware_delta_q8 = 0, d_effective_tier_q8 = 0,
     d_cold_threshold = 0, d_hot_threshold_1 = 0, d_hot_threshold_2 = 0, d_hot_threshold_3 = 0,
     d_score_duration_ns = 0, d_decision_duration_ns = 0, d_folio_nr_pages = 0,
     d_native_tier = 0, d_native_tier_idx = 0, d_generation_index = 0,
     d_action = PARP_TIER_KEEP_RECLAIM, d_bypass = PARP_TIER_BYPASS_NONE,
     d_rank_score_bin = PARP_RANK_SCORE_COLD, d_scorer_kind = PARP_TIER_SCORER_PAIRWISE_LINEAR,
     d_pressure_level_kernel = PARP_PRESSURE_LOW, d_reclaim_context = PARP_TIER_RECLAIM_UNKNOWN,
     d_pressure_bypass_reason = PARP_TIER_BYPASS_NONE, d_page_state_sequence = 0,
     d_pressure_policy_version = 0, d_evaluated = False, d_model_valid = False,
     d_features_valid = False, d_native_protect = False, d_effective_protect = False,
     d_fixed_effective_protect = False, d_pressure_aware_effective_protect = False,
     d_special_native_protect = False, d_actual_tier_protect = False,
     d_reservation_active = False, d_reservation_upgrade = False \<rparr>"

record parp_tier_scan_ctx =
  s_experiment_id :: u64
  s_session_id :: u64
  s_batch_id :: u64
  s_epoch_id :: u64
  s_memcg_id :: u64
  s_model_time_ns :: u64
  s_nr_to_reclaim :: u64
  s_nr_reclaimed_before :: u64
  s_epoch_reclaimed_pages :: u64
  s_source_seq :: u64
  s_candidate_pages :: u64
  s_upgrade_pages :: u64
  s_downgrade_pages :: u64
  s_batch_scanned_pages :: u64
  s_batch_isolated_pages :: u64
  s_batch_reclaimed_pages :: u64
  s_nid :: u32
  s_config_sequence :: u32
  s_reclaim_priority :: int
  s_epoch_tag :: u32
  s_type :: bool
  s_mode :: parp_effective_tier_mode
  s_run_epoch :: u8
  s_pressure_level_kernel :: parp_pressure_level
  s_reclaim_context :: parp_tier_reclaim_context
  s_pressure_bypass_reason :: parp_tier_bypass_reason
  s_consecutive_no_progress_batches :: u16
  s_enabled :: bool
  s_severe_pressure :: bool
  s_no_progress :: bool
  s_rcu_held :: bool

definition scan_ctx_zero :: parp_tier_scan_ctx where
  "scan_ctx_zero = \<lparr>
     s_experiment_id = 0, s_session_id = 0, s_batch_id = 0, s_epoch_id = 0, s_memcg_id = 0,
     s_model_time_ns = 0, s_nr_to_reclaim = 0, s_nr_reclaimed_before = 0,
     s_epoch_reclaimed_pages = 0, s_source_seq = 0, s_candidate_pages = 0, s_upgrade_pages = 0,
     s_downgrade_pages = 0, s_batch_scanned_pages = 0, s_batch_isolated_pages = 0,
     s_batch_reclaimed_pages = 0, s_nid = 0, s_config_sequence = 0, s_reclaim_priority = 0,
     s_epoch_tag = 0, s_type = False, s_mode = PARP_EFFECTIVE_TIER_OFF, s_run_epoch = 0,
     s_pressure_level_kernel = PARP_PRESSURE_LOW, s_reclaim_context = PARP_TIER_RECLAIM_UNKNOWN,
     s_pressure_bypass_reason = PARP_TIER_BYPASS_NONE, s_consecutive_no_progress_batches = 0,
     s_enabled = False, s_severe_pressure = False, s_no_progress = False, s_rcu_held = False \<rparr>"

record parp_tier_state_snapshot =
  n_last_access_ms :: u32
  n_previous_interval_ms :: u32
  n_reuse_interval_ema_ms :: u32
  n_generation_enter_ms :: u32
  n_last_upgrade_epoch :: u32
  n_last_downgrade_epoch :: u32
  n_lifetime_epoch :: u32
  n_access_ema_q8 :: u32
  n_consecutive_candidates :: u32
  n_generation :: u32
  n_pending_action :: u32
  n_state_epoch :: u32
  n_state_sequence :: u32
  n_uncertain :: bool

definition snapshot_zero :: parp_tier_state_snapshot where
  "snapshot_zero = \<lparr>
     n_last_access_ms = 0, n_previous_interval_ms = 0, n_reuse_interval_ema_ms = 0,
     n_generation_enter_ms = 0, n_last_upgrade_epoch = 0, n_last_downgrade_epoch = 0,
     n_lifetime_epoch = 0, n_access_ema_q8 = 0, n_consecutive_candidates = 0, n_generation = 0,
     n_pending_action = 0, n_state_epoch = 0, n_state_sequence = 0, n_uncertain = False \<rparr>"

text \<open>\<open>lruvec->lrugen.parp_effective_tier [type]\<close>, guarded by the lru lock.\<close>

record parp_tier_lru_state =
  l_epoch_id :: u64
  l_source_seq :: u64
  l_candidate_pages :: u64
  l_upgrade_pages :: u64
  l_downgrade_pages :: u64
  l_no_progress_rounds :: u16
  l_state_epoch :: u8

text \<open>The 24 bytes of metadata of a base page.\<close>

record parp_reuse_page_ext =
  ext_last_access_ms :: u32
  ext_previous_interval_ms :: u16
  ext_reuse_interval_ema_ms :: u16
  ext_generation_enter_ms :: u32
  ext_lifetime_epoch :: u32
  ext_state :: u32
  ext_decision_epochs :: u32

record parp_tier_runtime_config =
  c_sequence :: u32
  c_policy :: parp_tier_policy
  c_upgrade_batch_pages :: u64
  c_upgrade_epoch_pages :: u64
  c_downgrade_batch_pages :: u64
  c_downgrade_epoch_pages :: u64
  c_upgrade_ratio_permyriad :: u32
  c_downgrade_ratio_permyriad :: u32
  c_experiment_id :: u64
  c_session_id :: u64

record parp_tier_stats =
  t_candidates :: u64
  t_candidate_pages :: u64
  t_scores :: u64
  t_metadata_missing :: u64
  t_state_unstable :: u64
  t_model_invalid :: u64
  t_action_pages :: "parp_tier_action \<Rightarrow> u64"
  t_bypass :: "parp_tier_bypass_reason \<Rightarrow> u64"
  t_access_events :: "parp_access_event \<Rightarrow> u64"
  t_outcomes :: "parp_tier_outcome \<Rightarrow> u64"
  t_policy_promotions :: u64
  t_native_tier_promotions :: u64
  t_native_generation_moves :: u64
  t_score_time_total :: u64
  t_score_time_max :: u64
  t_score_hist :: "nat \<Rightarrow> u64"
  t_decision_time_total :: u64
  t_decision_time_max :: u64
  t_decision_hist :: "nat \<Rightarrow> u64"
  t_lock_time_total :: u64
  t_lock_time_max :: u64
  t_lock_hist :: "nat \<Rightarrow> u64"
  t_trace_decisions :: u64
  t_trace_accesses :: u64
  t_trace_outcomes :: u64
  t_trace_batches :: u64
  t_trace_locks :: u64

definition stats_zero :: parp_tier_stats where
  "stats_zero = \<lparr>
     t_candidates = 0, t_candidate_pages = 0, t_scores = 0, t_metadata_missing = 0,
     t_state_unstable = 0, t_model_invalid = 0, t_action_pages = (\<lambda>_. 0), t_bypass = (\<lambda>_. 0),
     t_access_events = (\<lambda>_. 0), t_outcomes = (\<lambda>_. 0), t_policy_promotions = 0,
     t_native_tier_promotions = 0, t_native_generation_moves = 0, t_score_time_total = 0,
     t_score_time_max = 0, t_score_hist = (\<lambda>_. 0), t_decision_time_total = 0,
     t_decision_time_max = 0, t_decision_hist = (\<lambda>_. 0), t_lock_time_total = 0,
     t_lock_time_max = 0, t_lock_hist = (\<lambda>_. 0), t_trace_decisions = 0, t_trace_accesses = 0,
     t_trace_outcomes = 0, t_trace_batches = 0, t_trace_locks = 0 \<rparr>"

text \<open>The file-scope variables of \<open>effective_tier.c\<close>. The two \<open>k_\<close> fields are the static keys.\<close>

record parp_tier_globals =
  g_config :: parp_tier_runtime_config
  g_stats :: parp_tier_stats
  g_mode :: parp_effective_tier_mode
  g_state_epoch :: u8
  g_state_fault :: bool
  g_batch_id :: u64
  g_trace_sequence :: u64
  g_metadata_requested :: bool
  g_metadata_ready :: bool
  k_enabled :: bool
  k_lock_observe :: bool

definition parp_tier_config_default :: parp_tier_runtime_config where
  "parp_tier_config_default = \<lparr>
     c_sequence = 0,
     c_policy = \<lparr> cold_threshold = -48, hot_threshold_1 = 48, hot_threshold_2 = 96,
       hot_threshold_3 = 144, max_upgrade_tiers = 2, max_downgrade_tiers = 1,
       require_two_cold = True \<rparr>,
     c_upgrade_batch_pages = 2, c_upgrade_epoch_pages = 8,
     c_downgrade_batch_pages = 1, c_downgrade_epoch_pages = 4,
     c_upgrade_ratio_permyriad = 100, c_downgrade_ratio_permyriad = 50,
     c_experiment_id = 0, c_session_id = 0 \<rparr>"

definition parp_tier_boot :: parp_tier_globals where
  "parp_tier_boot = \<lparr>
     g_config = parp_tier_config_default, g_stats = stats_zero,
     g_mode = PARP_EFFECTIVE_TIER_OFF, g_state_epoch = 0, g_state_fault = False,
     g_batch_id = 0, g_trace_sequence = 0, g_metadata_requested = False,
     g_metadata_ready = False, k_enabled = False, k_lock_observe = False \<rparr>"

end
