(* ===== verification/Tier_Score.thy ===== *)
theory Tier_Score
  imports Tier_Types
begin

text \<open>
  The pure part of \<open>mm/parp/core/effective_tier.c\<close>: the binned linear model, the translation of a
  score into a tier delta, the classification of a folio against the tier index, the pressure
  matrix, the budget test and the generation arithmetic. A policy pointer is an option (\<open>None\<close> is
  \<open>NULL\<close>).
\<close>

section \<open>The global reuse model\<close>

abbreviation PARP_TIER_SCALE :: int where "PARP_TIER_SCALE \<equiv> 256"
abbreviation PARP_MAX_TIER :: int where "PARP_MAX_TIER \<equiv> 3"
abbreviation MAX_NR_GENS :: int where "MAX_NR_GENS \<equiv> 4"

record parp_global_reuse_model =
  model_version :: u32
  feature_schema_version :: u32
  bias :: int
  bin_edges :: "int list list"
  weights :: "int list list"

definition parp_global_model :: parp_global_reuse_model where
  "parp_global_model = \<lparr>
     model_version = 1,
     feature_schema_version = 1,
     bias = 0,
     bin_edges = [
       [10, 100, 500, 2000, 10000],
       [10, 100, 500, 2000, 10000],
       [10, 100, 500, 2000, 10000],
       [0, 1, 2, 4, 8],
       [10, 100, 500, 2000, 10000],
       [8, 32, 96, 160, 224]],
     weights = [
       [64, 48, 24, 0, -32, -64],
       [32, 24, 12, 0, -12, -24],
       [32, 24, 12, 0, -12, -24],
       [24, 12, 0, -12, -24, -36],
       [16, 12, 8, 0, -8, -16],
       [-24, -12, 0, 12, 24, 36]] \<rparr>"

text \<open>\<open>while (bin < PARP_TIER_BINS - 1 && value > edges [bin]) bin++\<close>, over the row of edges.\<close>

fun parp_tier_bin :: "int list \<Rightarrow> int \<Rightarrow> nat" where
  "parp_tier_bin [] v = 0"
| "parp_tier_bin (e # es) v = (if v > e then Suc (parp_tier_bin es v) else 0)"

fun parp_score_features ::
  "parp_global_reuse_model \<Rightarrow> int list \<Rightarrow> nat list \<Rightarrow> int \<Rightarrow> int option" where
  "parp_score_features m values [] acc = Some acc"
| "parp_score_features m values (f # fs) acc =
     (if values ! f = S64_MIN then None
      else parp_score_features m values fs
             (acc + weights m ! f ! parp_tier_bin (bin_edges m ! f) (values ! f)))"

text \<open>\<open>None\<close> is the return value false.\<close>

definition parp_effective_tier_score_values :: "int list \<Rightarrow> int option" where
  "parp_effective_tier_score_values values =
     (if model_version parp_global_model \<noteq> 1 \<or> feature_schema_version parp_global_model \<noteq> 1
      then None
      else case parp_score_features parp_global_model values [0, 1, 2, 3, 4, 5]
                  (bias parp_global_model) of
        None \<Rightarrow> None
      | Some score \<Rightarrow> if score < S32_MIN \<or> score > S32_MAX then None else Some score)"

definition parp_feature_weight :: "nat \<Rightarrow> int \<Rightarrow> int" where
  "parp_feature_weight f v =
     weights parp_global_model ! f ! parp_tier_bin (bin_edges parp_global_model ! f) v"

lemma parp_score_features_eq:
  "parp_score_features parp_global_model values fs acc =
     (if \<exists>f \<in> set fs. values ! f = S64_MIN then None
      else Some (acc + (\<Sum>f \<leftarrow> fs. parp_feature_weight f (values ! f))))"
  by (induction fs arbitrary: acc) (auto simp: parp_feature_weight_def)

lemma parp_tier_bin_mono: "v \<le> w \<Longrightarrow> parp_tier_bin es v \<le> parp_tier_bin es w"
  by (induction es) auto

lemma parp_tier_bin_bound: "parp_tier_bin es v \<le> length es"
  by (induction es) auto

text \<open>The bin is the first whose edge is not below the value, so each value has one bin.\<close>

lemma parp_tier_bin_edges:
  assumes "sorted es"
  shows "parp_tier_bin es v = length (filter (\<lambda>e. e < v) es)"
  using assms
proof (induction es)
  case (Cons e es)
  then show ?case by (cases "e < v") (auto simp: filter_empty_conv)
qed simp

definition feature_weight_range :: "nat \<Rightarrow> int \<times> int" where
  "feature_weight_range f =
     [(- 64, 64), (- 24, 32), (- 24, 32), (- 36, 24), (- 16, 16), (- 24, 36)] ! f"

lemma less_6_cases: "f < 6 \<Longrightarrow> f = 0 \<or> f = 1 \<or> f = 2 \<or> f = 3 \<or> f = 4 \<or> f = (5 :: nat)"
  by arith

lemma parp_feature_weight_range:
  assumes "f < 6"
  shows "fst (feature_weight_range f) \<le> parp_feature_weight f v"
    and "parp_feature_weight f v \<le> snd (feature_weight_range f)"
  using less_6_cases [OF assms]
  by (elim disjE; simp add: parp_feature_weight_def parp_global_model_def feature_weight_range_def)+

text \<open>Ages and intervals (features 0 to 4) lower the score, the access average (feature 5) raises it.\<close>

lemma parp_feature_weight_antimono:
  assumes "f < 5" and "v \<le> w"
  shows "parp_feature_weight f w \<le> parp_feature_weight f v"
proof -
  have "f = 0 \<or> f = 1 \<or> f = 2 \<or> f = 3 \<or> f = 4" using assms(1) by arith
  then show ?thesis using assms(2)
    by (elim disjE; simp add: parp_feature_weight_def parp_global_model_def)
qed

lemma parp_feature_weight_mono:
  "v \<le> w \<Longrightarrow> parp_feature_weight 5 v \<le> parp_feature_weight 5 w"
  by (simp add: parp_feature_weight_def parp_global_model_def)

lemma parp_score_total:
  assumes "\<forall>f < 6. values ! f \<noteq> S64_MIN"
  shows "parp_effective_tier_score_values values =
           Some (\<Sum>f \<leftarrow> [0, 1, 2, 3, 4, 5]. parp_feature_weight f (values ! f))"
proof -
  have none: "\<not> (\<exists>f \<in> set [0, 1, 2, 3, 4, 5]. values ! f = S64_MIN)"
    using assms by auto
  have feats: "parp_score_features parp_global_model values [0, 1, 2, 3, 4, 5]
      (bias parp_global_model) =
      Some (0 + (\<Sum>f \<leftarrow> [0, 1, 2, 3, 4, 5]. parp_feature_weight f (values ! f)))"
    unfolding parp_score_features_eq if_not_P [OF none] by (simp add: parp_global_model_def)
  have "- 188 \<le> (\<Sum>f \<leftarrow> [0, 1, 2, 3, 4, 5]. parp_feature_weight f (values ! f)) \<and>
      (\<Sum>f \<leftarrow> [0, 1, 2, 3, 4, 5]. parp_feature_weight f (values ! f)) \<le> 204"
    using parp_feature_weight_range [of 0 "values ! 0"] parp_feature_weight_range [of 1 "values ! 1"]
      parp_feature_weight_range [of 2 "values ! 2"] parp_feature_weight_range [of 3 "values ! 3"]
      parp_feature_weight_range [of 4 "values ! 4"] parp_feature_weight_range [of 5 "values ! 5"]
    by (simp add: feature_weight_range_def)
  then show ?thesis
    unfolding parp_effective_tier_score_values_def feats
    by (simp add: parp_global_model_def)
qed

lemma parp_score_fails:
  assumes "f < 6" and "values ! f = S64_MIN"
  shows "parp_effective_tier_score_values values = None"
proof -
  have some: "\<exists>f \<in> set [0, 1, 2, 3, 4, 5]. values ! f = S64_MIN"
    using assms less_6_cases [OF assms(1)] by auto
  show ?thesis
    unfolding parp_effective_tier_score_values_def parp_score_features_eq if_P [OF some] by simp
qed

lemma parp_score_range:
  assumes "parp_effective_tier_score_values values = Some score"
  shows "- 188 \<le> score" and "score \<le> 204"
proof -
  have nomin: "\<forall>f < 6. values ! f \<noteq> S64_MIN"
    using assms parp_score_fails by fastforce
  show "- 188 \<le> score" and "score \<le> 204"
    using assms parp_score_total [OF nomin]
      parp_feature_weight_range [of 0 "values ! 0"] parp_feature_weight_range [of 1 "values ! 1"]
      parp_feature_weight_range [of 2 "values ! 2"] parp_feature_weight_range [of 3 "values ! 3"]
      parp_feature_weight_range [of 4 "values ! 4"] parp_feature_weight_range [of 5 "values ! 5"]
    by (simp_all add: feature_weight_range_def)
qed

section \<open>Policy, thresholds and tiers\<close>

definition parp_tier_policy_valid :: "parp_tier_policy option \<Rightarrow> bool" where
  "parp_tier_policy_valid policy =
     (case policy of
        None \<Rightarrow> False
      | Some p \<Rightarrow> \<not> (max_upgrade_tiers p < 1 \<or> max_upgrade_tiers p > 3 \<or>
                    max_downgrade_tiers p \<noteq> 1 \<or>
                    cold_threshold p \<ge> hot_threshold_1 p \<or>
                    hot_threshold_1 p \<ge> hot_threshold_2 p \<or>
                    hot_threshold_2 p \<ge> hot_threshold_3 p))"

definition parp_score_to_delta_q8 :: "int \<Rightarrow> parp_tier_policy option \<Rightarrow> int" where
  "parp_score_to_delta_q8 score policy =
     (case policy of
        None \<Rightarrow> 0
      | Some p \<Rightarrow>
          if \<not> parp_tier_policy_valid policy then 0
          else if score \<le> cold_threshold p then - PARP_TIER_SCALE
          else if score \<ge> hot_threshold_3 p \<and> max_upgrade_tiers p = 3 then 3 * PARP_TIER_SCALE
          else if score \<ge> hot_threshold_2 p
            then uint (min (max_upgrade_tiers p) 2) * PARP_TIER_SCALE
          else if score \<ge> hot_threshold_1 p then PARP_TIER_SCALE
          else 0)"

definition clamp :: "int \<Rightarrow> int \<Rightarrow> int \<Rightarrow> int" where
  "clamp v lo hi = min (max v lo) hi"

definition parp_effective_tier_q8 :: "int \<Rightarrow> int \<Rightarrow> int" where
  "parp_effective_tier_q8 native_tier delta =
     (if native_tier < 0 \<or> native_tier > PARP_MAX_TIER then 0
      else clamp (native_tier * PARP_TIER_SCALE + delta) 0 (PARP_MAX_TIER * PARP_TIER_SCALE))"

definition parp_rank_score_bin_of :: "bool \<Rightarrow> int \<Rightarrow> parp_tier_policy option \<Rightarrow> parp_rank_score_bin" where
  "parp_rank_score_bin_of valid score policy =
     (if \<not> valid then PARP_RANK_SCORE_INVALID
      else if score \<le> cold_threshold (the policy) then PARP_RANK_SCORE_COLD
      else if score < hot_threshold_1 (the policy) then PARP_RANK_SCORE_NEUTRAL
      else if score < hot_threshold_2 (the policy) then PARP_RANK_SCORE_HOT_1
      else if score < hot_threshold_3 (the policy) then PARP_RANK_SCORE_HOT_2
      else PARP_RANK_SCORE_HOT_3)"

definition parp_effective_tier_classify ::
  "int \<Rightarrow> bool \<Rightarrow> int \<Rightarrow> int \<Rightarrow> bool \<Rightarrow> parp_tier_policy option \<Rightarrow> parp_tier_decision" where
  "parp_effective_tier_classify score model_valid native_tier tier_idx special policy =
     (let valid = (model_valid \<and> parp_tier_policy_valid policy);
          delta = (if valid then parp_score_to_delta_q8 score policy else 0);
          tier = clamp native_tier 0 PARP_MAX_TIER;
          idx = clamp tier_idx 0 PARP_MAX_TIER;
          effective = parp_effective_tier_q8 tier delta;
          native_protect = (tier > idx);
          effective_protect = (effective > idx * PARP_TIER_SCALE);
          threshold = (\<lambda>sel. if valid then sel (the policy) else 0)
      in decision_zero \<lparr>
           d_evaluated := True,
           d_model_valid := valid,
           d_reuse_score := (if valid then score else 0),
           d_rank_score_bin := parp_rank_score_bin_of valid score policy,
           d_native_tier := tier,
           d_native_tier_idx := idx,
           d_special_native_protect := special,
           d_raw_delta_tier_q8 := delta,
           d_delta_tier_q8 := delta,
           d_effective_tier_q8 := effective,
           d_native_protect := native_protect,
           d_effective_protect := effective_protect,
           d_cold_threshold := threshold cold_threshold,
           d_hot_threshold_1 := threshold hot_threshold_1,
           d_hot_threshold_2 := threshold hot_threshold_2,
           d_hot_threshold_3 := threshold hot_threshold_3,
           d_action :=
             (if special then PARP_TIER_SPECIAL_NATIVE_PROTECT
              else if \<not> native_protect \<and> effective_protect then PARP_TIER_PREDICTIVE_UPGRADE
              else if native_protect \<and> \<not> effective_protect then PARP_TIER_PREDICTIVE_DOWNGRADE
              else if native_protect then PARP_TIER_KEEP_PROTECT
              else PARP_TIER_KEEP_RECLAIM),
           d_bypass := (if valid then PARP_TIER_BYPASS_NONE else PARP_TIER_BYPASS_MODEL_INVALID) \<rparr>)"

definition parp_effective_tier_actual_protect ::
  "parp_effective_tier_mode \<Rightarrow> parp_tier_decision \<Rightarrow> bool" where
  "parp_effective_tier_actual_protect mode d =
     (if d_special_native_protect d then True
      else case mode of
        PARP_EFFECTIVE_TIER_PROTECT_ONLY \<Rightarrow>
          d_native_protect d \<or> (\<not> d_native_protect d \<and> d_effective_protect d)
      | PARP_EFFECTIVE_TIER_BIDIRECTIONAL \<Rightarrow> d_effective_protect d
      | PARP_EFFECTIVE_TIER_RANDOM_MATCHED \<Rightarrow> d_effective_protect d
      | PARP_EFFECTIVE_TIER_RECENCY_BASELINE \<Rightarrow> d_effective_protect d
      | PARP_EFFECTIVE_TIER_OFF \<Rightarrow> d_native_protect d
      | PARP_EFFECTIVE_TIER_SHADOW \<Rightarrow> d_native_protect d)"

definition parp_decision_native_fallback ::
  "parp_tier_bypass_reason \<Rightarrow> parp_tier_decision \<Rightarrow> parp_tier_decision" where
  "parp_decision_native_fallback bypass d = d \<lparr>
     d_delta_tier_q8 := 0,
     d_effective_tier_q8 := d_native_tier d * PARP_TIER_SCALE,
     d_effective_protect := d_native_protect d,
     d_bypass := bypass,
     d_action :=
       (if d_special_native_protect d then PARP_TIER_SPECIAL_NATIVE_PROTECT
        else if d_native_protect d then PARP_TIER_KEEP_PROTECT
        else PARP_TIER_KEEP_RECLAIM) \<rparr>"

definition parp_effective_tier_action_applies ::
  "parp_effective_tier_mode \<Rightarrow> parp_tier_action \<Rightarrow> bool" where
  "parp_effective_tier_action_applies mode action =
     (if action = PARP_TIER_PREDICTIVE_UPGRADE
      then mode \<in> {PARP_EFFECTIVE_TIER_PROTECT_ONLY, PARP_EFFECTIVE_TIER_BIDIRECTIONAL,
                   PARP_EFFECTIVE_TIER_RANDOM_MATCHED, PARP_EFFECTIVE_TIER_RECENCY_BASELINE}
      else if action = PARP_TIER_PREDICTIVE_DOWNGRADE
      then mode \<in> {PARP_EFFECTIVE_TIER_BIDIRECTIONAL,
                   PARP_EFFECTIVE_TIER_RANDOM_MATCHED, PARP_EFFECTIVE_TIER_RECENCY_BASELINE}
      else False)"

definition parp_effective_tier_recency_score :: "u32 \<Rightarrow> parp_tier_policy option \<Rightarrow> int" where
  "parp_effective_tier_recency_score age policy =
     (case policy of
        None \<Rightarrow> 0
      | Some p \<Rightarrow>
          if age \<le> 100 then hot_threshold_2 p
          else if age \<le> 500 then hot_threshold_1 p
          else if age \<ge> 10000 then cold_threshold p
          else 0)"

text \<open>\<open>random\<close> is the value \<open>siphash_2u64\<close> returns for the folio cookie and the batch id.\<close>

definition parp_random_score ::
  "parp_tier_runtime_config \<Rightarrow> u64 \<Rightarrow> int \<Rightarrow> int \<Rightarrow> int" where
  "parp_random_score config random native_tier tier_idx =
     (let bucket = (ucast (random mod 10000) :: u32)
      in if native_tier = tier_idx + 1 \<and> bucket < c_downgrade_ratio_permyriad config
         then cold_threshold (c_policy config)
         else if native_tier \<le> tier_idx \<and> bucket < c_upgrade_ratio_permyriad config
         then hot_threshold_2 (c_policy config)
         else 0)"

section \<open>Pressure, budgets and generations\<close>

definition parp_effective_tier_pressure_level ::
  "int \<Rightarrow> bool \<Rightarrow> u64 \<Rightarrow> u64 \<Rightarrow> parp_pressure_level" where
  "parp_effective_tier_pressure_level reclaim_priority no_progress nr_to_reclaim nr_reclaimed =
     (if no_progress \<or> reclaim_priority \<le> 2 then PARP_PRESSURE_CRITICAL
      else if reclaim_priority \<le> 4 then PARP_PRESSURE_HIGH
      else if reclaim_priority \<le> 8 \<or> nr_to_reclaim > nr_reclaimed then PARP_PRESSURE_MEDIUM
      else PARP_PRESSURE_LOW)"

definition parp_tier_reclaim_context_of :: "bool \<Rightarrow> bool \<Rightarrow> bool \<Rightarrow> parp_tier_reclaim_context" where
  "parp_tier_reclaim_context_of is_kswapd is_memcg_reclaim proactive =
     (if is_kswapd then PARP_TIER_RECLAIM_KSWAPD
      else if proactive then PARP_TIER_RECLAIM_PROACTIVE_MEMCG
      else if is_memcg_reclaim then PARP_TIER_RECLAIM_MEMCG
      else PARP_TIER_RECLAIM_DIRECT)"

text \<open>The pair is \<open>(up_q8, down_q8)\<close>.\<close>

fun parp_pressure_policy_scales :: "parp_pressure_level \<Rightarrow> int \<times> int" where
  "parp_pressure_policy_scales PARP_PRESSURE_LOW = (256, 128)"
| "parp_pressure_policy_scales PARP_PRESSURE_MEDIUM = (192, 256)"
| "parp_pressure_policy_scales PARP_PRESSURE_HIGH = (64, 256)"
| "parp_pressure_policy_scales PARP_PRESSURE_CRITICAL = (0, 0)"

definition parp_pressure_scale_delta_q8 :: "int \<Rightarrow> int \<Rightarrow> int" where
  "parp_pressure_scale_delta_q8 delta scale = c_div (delta * scale) PARP_TIER_SCALE"

definition parp_effective_tier_pressure_delta_q8 :: "int \<Rightarrow> parp_pressure_level \<Rightarrow> int" where
  "parp_effective_tier_pressure_delta_q8 delta level =
     (let (up, down) = parp_pressure_policy_scales level
      in parp_pressure_scale_delta_q8 delta (if delta < 0 then down else up))"

definition parp_effective_tier_pressure_counterfactuals ::
  "parp_tier_scan_ctx \<Rightarrow> parp_tier_decision \<Rightarrow> parp_tier_decision" where
  "parp_effective_tier_pressure_counterfactuals ctx d =
     (let fixed0 = (if d_model_valid d \<and> \<not> d_special_native_protect d
                    then d_raw_delta_tier_q8 d else 0);
          fixed = (if fixed0 < 0 \<and> d_native_tier d \<noteq> d_native_tier_idx d + 1 then 0 else fixed0);
          pressure = parp_effective_tier_pressure_delta_q8 fixed (s_pressure_level_kernel ctx);
          line = d_native_tier_idx d * PARP_TIER_SCALE
      in d \<lparr>
           d_pressure_level_kernel := s_pressure_level_kernel ctx,
           d_reclaim_context := s_reclaim_context ctx,
           d_pressure_bypass_reason := s_pressure_bypass_reason ctx,
           d_pressure_policy_version := 1,
           d_fixed_delta_q8 := fixed,
           d_binary_bypass_delta_q8 :=
             (if s_pressure_level_kernel ctx = PARP_PRESSURE_CRITICAL then 0 else fixed),
           d_pressure_aware_delta_q8 := pressure,
           d_fixed_effective_protect := parp_effective_tier_q8 (d_native_tier d) fixed > line,
           d_pressure_aware_effective_protect :=
             parp_effective_tier_q8 (d_native_tier d) pressure > line \<rparr>)"

definition parp_effective_tier_budget_allows ::
  "u64 \<Rightarrow> u64 \<Rightarrow> u64 \<Rightarrow> u64 \<Rightarrow> u32 \<Rightarrow> bool" where
  "parp_effective_tier_budget_allows used candidates pages absolute_limit ratio =
     (if pages = 0 \<or> absolute_limit = 0 \<or> ratio = 0 \<or> ratio > 10000 \<or>
         used > U64_MAX - pages \<or> used + pages > absolute_limit
      then False
      else let ratio_limit0 = mul_u64_u32_div candidates ratio 10000;
               ratio_limit = (if candidates \<noteq> 0 \<and> ratio_limit0 = 0 then 1 else ratio_limit0)
           in used + pages \<le> ratio_limit)"

definition parp_effective_tier_random_claim ::
  "u64 \<Rightarrow> u64 \<Rightarrow> u64 \<Rightarrow> u64 \<Rightarrow> u64 \<Rightarrow> bool" where
  "parp_effective_tier_random_claim random_value selected target seen eligible =
     (if selected \<ge> target then False
      else if seen \<ge> eligible then False
      else let remaining_target = target - selected;
               remaining_eligible = eligible - seen
           in if remaining_target \<ge> remaining_eligible then True
              else random_value mod remaining_eligible < remaining_target)"

text \<open>The return value and \<open>*bypass\<close>.\<close>

definition parp_effective_tier_upgrade_gate :: "bool \<Rightarrow> bool \<Rightarrow> bool \<times> parp_tier_bypass_reason" where
  "parp_effective_tier_upgrade_gate severe_pressure no_progress =
     (if severe_pressure then (False, PARP_TIER_BYPASS_PRESSURE)
      else if no_progress then (False, PARP_TIER_BYPASS_NO_PROGRESS)
      else (True, PARP_TIER_BYPASS_NONE))"

definition parp_effective_tier_next_generation :: "int \<Rightarrow> int result" where
  "parp_effective_tier_next_generation generation =
     (if generation < 0 \<or> generation \<ge> MAX_NR_GENS then Inl EINVAL
      else Inr ((generation + 1) mod MAX_NR_GENS))"

text \<open>
  The position of the generation number in \<open>folio->flags\<close>, \<open>LRU_GEN_PGOFF\<close>, depends on the
  kernel configuration and is a parameter. \<open>LRU_GEN_WIDTH\<close> is 3, enough for \<open>MAX_NR_GENS + 1\<close>.
\<close>

definition LRU_GEN_MASK :: "nat \<Rightarrow> u64" where
  "LRU_GEN_MASK pgoff = push_bit pgoff (mask 3)"

definition parp_effective_tier_policy_flags :: "nat \<Rightarrow> u64 \<Rightarrow> int \<Rightarrow> u64" where
  "parp_effective_tier_policy_flags pgoff old_flags new_generation =
     (if new_generation < 0 \<or> new_generation \<ge> MAX_NR_GENS then old_flags
      else (old_flags AND NOT (LRU_GEN_MASK pgoff)) OR
           push_bit pgoff (word_of_int new_generation + 1))"

definition parp_folio_gen_from_flags :: "nat \<Rightarrow> u64 \<Rightarrow> int" where
  "parp_folio_gen_from_flags pgoff flags =
     uint (drop_bit pgoff (flags AND LRU_GEN_MASK pgoff)) - 1"

section \<open>Lemmas on thresholds and classification\<close>

lemma parp_tier_policy_validD:
  assumes "parp_tier_policy_valid (Some p)"
  shows "cold_threshold p < hot_threshold_1 p" and "hot_threshold_1 p < hot_threshold_2 p"
    and "hot_threshold_2 p < hot_threshold_3 p" and "max_downgrade_tiers p = 1"
    and "1 \<le> uint (max_upgrade_tiers p)" and "uint (max_upgrade_tiers p) \<le> 3"
  using assms by (auto simp: parp_tier_policy_valid_def not_le not_less word_le_def word_less_def)

lemma max_upgrade_cases:
  assumes "parp_tier_policy_valid (Some p)"
  shows "max_upgrade_tiers p = 1 \<or> max_upgrade_tiers p = 2 \<or> max_upgrade_tiers p = 3"
proof -
  have "uint (max_upgrade_tiers p) = 1 \<or> uint (max_upgrade_tiers p) = 2 \<or>
        uint (max_upgrade_tiers p) = 3"
    using parp_tier_policy_validD [OF assms] by arith
  then show ?thesis
    using unsigned_word_eqI [of "max_upgrade_tiers p" 1] unsigned_word_eqI [of "max_upgrade_tiers p" 2]
      unsigned_word_eqI [of "max_upgrade_tiers p" 3] by auto
qed

lemma parp_tier_config_default_valid: "parp_tier_policy_valid (Some (c_policy parp_tier_config_default))"
  by (simp add: parp_tier_policy_valid_def parp_tier_config_default_def)

lemma clamp_bounds: "lo \<le> hi \<Longrightarrow> lo \<le> clamp v lo hi \<and> clamp v lo hi \<le> hi"
  by (simp add: clamp_def)

lemma clamp_id [simp]: "lo \<le> v \<Longrightarrow> v \<le> hi \<Longrightarrow> clamp v lo hi = v"
  by (simp add: clamp_def)

lemma parp_effective_tier_q8_bounds:
  "0 \<le> parp_effective_tier_q8 t d \<and> parp_effective_tier_q8 t d \<le> 768"
  by (simp add: parp_effective_tier_q8_def clamp_def)

text \<open>The delta, for each size of the upgrade limit.\<close>

lemma parp_score_to_delta_cases:
  assumes "parp_tier_policy_valid (Some p)"
  shows "parp_score_to_delta_q8 score (Some p) =
    (if score \<le> cold_threshold p then - 256
     else if score < hot_threshold_1 p then 0
     else if score < hot_threshold_2 p then 256
     else if score < hot_threshold_3 p then 256 * min (uint (max_upgrade_tiers p)) 2
     else 256 * uint (max_upgrade_tiers p))"
  using max_upgrade_cases [OF assms] parp_tier_policy_validD [OF assms] assms
  by (auto simp: parp_score_to_delta_q8_def)

lemma parp_score_to_delta_mono:
  assumes "parp_tier_policy_valid (Some p)" and "score \<le> score'"
  shows "parp_score_to_delta_q8 score (Some p) \<le> parp_score_to_delta_q8 score' (Some p)"
  using assms(2) parp_tier_policy_validD [OF assms(1)]
  unfolding parp_score_to_delta_cases [OF assms(1)] by (auto simp: min_def)

lemma parp_score_to_delta_range:
  "parp_score_to_delta_q8 score policy \<in> {- 256, 0, 256, 512, 768}"
proof (cases policy)
  case (Some p)
  show ?thesis
  proof (cases "parp_tier_policy_valid (Some p)")
    case True
    then show ?thesis using max_upgrade_cases [OF True] Some
      by (auto simp: parp_score_to_delta_cases)
  qed (simp add: Some parp_score_to_delta_q8_def)
qed (simp add: parp_score_to_delta_q8_def)

lemma classify_tier_bounds:
  assumes d_def: "d = parp_effective_tier_classify score mv nt idx sp policy"
  shows "0 \<le> d_native_tier d" and "d_native_tier d \<le> 3"
    and "0 \<le> d_native_tier_idx d" and "d_native_tier_idx d \<le> 3"
  unfolding d_def parp_effective_tier_classify_def
  by (simp_all add: clamp_def Let_def)

text \<open>What \<open>classify\<close> leaves, field by field, for tiers the page flags can hold.\<close>

lemma classify_fields:
  assumes "parp_tier_policy_valid (Some p)" and "0 \<le> nt" "nt \<le> 3" and "0 \<le> idx" "idx \<le> 3"
    and "d = parp_effective_tier_classify score True nt idx sp (Some p)"
  shows "d_native_tier d = nt" and "d_native_tier_idx d = idx"
    and "d_native_protect d \<longleftrightarrow> nt > idx"
    and "d_effective_protect d \<longleftrightarrow>
           clamp (nt * 256 + parp_score_to_delta_q8 score (Some p)) 0 768 > idx * 256"
    and "d_special_native_protect d = sp"
  using assms by (simp_all add: parp_effective_tier_classify_def parp_effective_tier_q8_def Let_def)

lemma effective_protect_cases:
  assumes "parp_tier_policy_valid (Some p)" and "0 \<le> nt" "nt \<le> 3" and "0 \<le> idx" "idx \<le> 3"
  shows "clamp (nt * 256 + parp_score_to_delta_q8 score (Some p)) 0 768 > idx * 256 \<longleftrightarrow>
    (if score \<le> cold_threshold p then nt > idx + 1
     else idx < 3 \<and> nt + parp_score_to_delta_q8 score (Some p) div 256 > idx)"
  using max_upgrade_cases [OF assms(1)] assms(2-5) parp_tier_policy_validD(1-3) [OF assms(1)]
  unfolding parp_score_to_delta_cases [OF assms(1)] clamp_def
  by (auto simp: min_def max_def)

text \<open>The action is determined by the two protection bits, whatever the policy.\<close>

lemma classify_action_bits:
  assumes d_def: "d = parp_effective_tier_classify score mv nt idx sp policy"
  shows "d_action d =
    (if d_special_native_protect d then PARP_TIER_SPECIAL_NATIVE_PROTECT
     else if \<not> d_native_protect d \<and> d_effective_protect d then PARP_TIER_PREDICTIVE_UPGRADE
     else if d_native_protect d \<and> \<not> d_effective_protect d then PARP_TIER_PREDICTIVE_DOWNGRADE
     else if d_native_protect d then PARP_TIER_KEEP_PROTECT else PARP_TIER_KEEP_RECLAIM)"
  unfolding d_def parp_effective_tier_classify_def Let_def by simp

lemma classify_native_protect:
  "d_native_protect (parp_effective_tier_classify score mv nt idx sp policy) \<longleftrightarrow>
     clamp nt 0 3 > clamp idx 0 3"
  by (simp add: parp_effective_tier_classify_def Let_def)

lemma native_fallback_protect:
  "parp_effective_tier_actual_protect mode (parp_decision_native_fallback b d) \<longleftrightarrow>
     d_native_protect d \<or> d_special_native_protect d"
  by (cases mode) (auto simp: parp_effective_tier_actual_protect_def parp_decision_native_fallback_def)

section \<open>Lemmas on budgets, random claims and flags\<close>

definition parp_ratio_limit :: "u64 \<Rightarrow> u32 \<Rightarrow> u64" where
  "parp_ratio_limit candidates ratio =
     (let l = mul_u64_u32_div candidates ratio 10000 in if candidates \<noteq> 0 \<and> l = 0 then 1 else l)"

lemma parp_ratio_limit_le:
  assumes "ratio \<le> 10000"
  shows "parp_ratio_limit candidates ratio \<le> candidates"
    and "unat (parp_ratio_limit candidates ratio) \<le>
           max 1 (unat candidates * unat ratio div 10000)"
proof -
  have small: "unat ratio \<le> unat (10000 :: u32)"
    using assms by (simp add: word_le_nat_alt)
  note shrink = mul_u64_u32_div_shrinks [OF _ small, of candidates]
  show "parp_ratio_limit candidates ratio \<le> candidates"
    using shrink(2) by (auto simp: parp_ratio_limit_def Let_def word_le_nat_alt unat_gt_0 Suc_le_eq)
  show "unat (parp_ratio_limit candidates ratio) \<le>
      max 1 (unat candidates * unat ratio div 10000)"
    using shrink(1) by (auto simp: parp_ratio_limit_def Let_def)
qed

lemma budget_allows_iff:
  "parp_effective_tier_budget_allows used candidates pages limit ratio \<longleftrightarrow>
     pages \<noteq> 0 \<and> limit \<noteq> 0 \<and> ratio \<noteq> 0 \<and> ratio \<le> 10000 \<and>
     unat used + unat pages \<le> unat limit \<and>
     unat used + unat pages \<le> unat (parp_ratio_limit candidates ratio)"
proof -
  have top: "unat (U64_MAX - pages) = 2 ^ 64 - 1 - unat pages"
    using unat_u64_bound [of pages] by (subst unat_sub) (auto simp: word_le_nat_alt)
  have wrap: "\<not> used > U64_MAX - pages \<longleftrightarrow> unat used + unat pages < 2 ^ 64"
    using top unat_u64_bound [of pages] by (auto simp: word_less_nat_alt)
  have lim: "unat used + unat pages \<le> unat limit \<Longrightarrow> unat used + unat pages < 2 ^ 64"
    using unat_u64_bound [of limit] by simp
  have unfolded: "parp_effective_tier_budget_allows used candidates pages limit ratio \<longleftrightarrow>
      pages \<noteq> 0 \<and> limit \<noteq> 0 \<and> ratio \<noteq> 0 \<and> ratio \<le> 10000 \<and>
      \<not> used > U64_MAX - pages \<and> \<not> used + pages > limit \<and>
      used + pages \<le> parp_ratio_limit candidates ratio"
    by (auto simp: parp_effective_tier_budget_allows_def parp_ratio_limit_def Let_def not_le)
  show ?thesis
  proof (cases "unat used + unat pages < 2 ^ 64")
    case True
    note add = unat_add_no_wrap [OF True]
    have "\<not> used + pages > limit \<longleftrightarrow> unat used + unat pages \<le> unat limit"
      by (simp add: word_less_nat_alt add not_less)
    moreover have "used + pages \<le> parp_ratio_limit candidates ratio \<longleftrightarrow>
        unat used + unat pages \<le> unat (parp_ratio_limit candidates ratio)"
      by (simp add: word_le_nat_alt add)
    ultimately show ?thesis unfolding unfolded using True by (simp only: wrap) simp
  next
    case False
    then show ?thesis unfolding unfolded using lim by (simp only: wrap) blast
  qed
qed

text \<open>
  For a fixed number of candidates the budget test is a spending ledger, once for the absolute
  limit and once for the ratio limit.
\<close>

interpretation absolute_budget: spending
  "\<lambda>used pages. parp_effective_tier_budget_allows used candidates pages limit ratio" limit
  for candidates limit ratio
  by unfold_locales (simp add: budget_allows_iff)

interpretation ratio_budget: spending
  "\<lambda>used pages. parp_effective_tier_budget_allows used candidates pages limit ratio"
  "parp_ratio_limit candidates ratio"
  for candidates limit ratio
  by unfold_locales (simp add: budget_allows_iff)

text \<open>One pass over the eligible folios: \<open>rs\<close> are the random values drawn, in order.\<close>

fun parp_random_pass :: "u64 \<Rightarrow> u64 \<Rightarrow> u64 list \<Rightarrow> u64 \<Rightarrow> u64 \<Rightarrow> u64" where
  "parp_random_pass target eligible [] selected seen = selected"
| "parp_random_pass target eligible (r # rs) selected seen =
     parp_random_pass target eligible rs
       (if parp_effective_tier_random_claim r selected target seen eligible
        then selected + 1 else selected) (seen + 1)"

lemma random_claim_limits:
  "parp_effective_tier_random_claim r selected target seen eligible \<Longrightarrow>
     selected < target \<and> seen < eligible"
  by (simp add: parp_effective_tier_random_claim_def not_le split: if_splits)

lemma random_claim_forced:
  assumes "selected < target" "seen < eligible"
    and "unat eligible - unat seen \<le> unat target - unat selected"
  shows "parp_effective_tier_random_claim r selected target seen eligible"
proof -
  have "eligible - seen \<le> target - selected"
    using assms by (simp add: word_le_nat_alt word_less_nat_alt unat_sub)
  then show ?thesis using assms(1,2) by (simp add: parp_effective_tier_random_claim_def not_le)
qed

lemma unat_incr_below: "(x :: u64) < y \<Longrightarrow> unat (x + 1) = Suc (unat x)"
  using unat_u64_bound [of y] by (subst unat_add_no_wrap) (auto simp: word_less_nat_alt)

lemma random_pass_count:
  "unat seen + length rs = unat eligible \<Longrightarrow> selected \<le> target \<Longrightarrow>
   unat (parp_random_pass target eligible rs selected seen) =
     unat selected + min (unat target - unat selected) (length rs)"
proof (induction rs arbitrary: selected seen)
  case (Cons r rs)
  let ?claim = "parp_effective_tier_random_claim r selected target seen eligible"
  have seen: "seen < eligible" using Cons.prems(1) by (simp add: word_less_nat_alt)
  note next_seen = unat_incr_below [OF seen]
  show ?case
  proof (cases ?claim)
    case True
    then have lt: "selected < target" using random_claim_limits by blast
    then have "selected + 1 \<le> target"
      by (simp add: word_le_nat_alt unat_incr_below [OF lt] word_less_nat_alt)
    then show ?thesis
      using True Cons.IH [of "seen + 1" "selected + 1"] Cons.prems next_seen lt
        unat_incr_below [OF lt]
      by (auto simp: word_less_nat_alt min_def)
  next
    case False
    then have "unat target - unat selected \<le> length rs"
      using random_claim_forced [OF _ seen, of selected target r] Cons.prems
      by (cases "unat selected < unat target"; cases "unat target - unat selected \<le> length rs")
        (auto simp: word_less_nat_alt word_le_nat_alt)
    then show ?thesis
      using False Cons.IH [of "seen + 1" selected] Cons.prems next_seen by auto
  qed
qed simp

lemma bit_LRU_GEN_MASK: "bit (LRU_GEN_MASK pgoff) n \<longleftrightarrow> pgoff \<le> n \<and> n < pgoff + 3 \<and> n < 64"
  by (auto simp: LRU_GEN_MASK_def bit_simps)

section \<open>Properties\<close>

text \<open>The score of readable features is always produced and stays in \<open>-188 .. 204\<close>, far inside
  \<open>s32\<close>, so the range check of \<open>score_values\<close> never rejects; older or slower pages (features 0 to
  4 larger, access average smaller) never score higher.\<close>

theorem parp_score_bounded_monotone:
  assumes "\<forall>f < 6. v ! f \<noteq> S64_MIN" and "\<forall>f < 6. w ! f \<noteq> S64_MIN"
    and "\<forall>f < 5. v ! f \<le> w ! f" and "w ! 5 \<le> v ! 5"
  shows "\<exists>s t. parp_effective_tier_score_values v = Some s \<and>
    parp_effective_tier_score_values w = Some t \<and> - 188 \<le> t \<and> t \<le> s \<and> s \<le> 204"
proof -
  have "parp_feature_weight f (w ! f) \<le> parp_feature_weight f (v ! f)" if "f < 5" for f
    using that assms(3) parp_feature_weight_antimono by blast
  from this [of 0] this [of 1] this [of 2] this [of 3] this [of 4]
    parp_feature_weight_mono [OF assms(4)]
  show ?thesis
    using parp_score_total [OF assms(1)] parp_score_total [OF assms(2)]
      parp_score_range(1) [of w] parp_score_range(2) [of v]
    by simp
qed

text \<open>An instance: a page used 5 ms ago and the same page left for three seconds.\<close>

theorem parp_score_bounded_monotone_witness:
  "\<exists>s t. parp_effective_tier_score_values [5, 90, 90, 1, 400, 200] = Some s \<and>
     parp_effective_tier_score_values [3000, 90, 90, 2, 3000, 100] = Some t \<and>
     - 188 \<le> t \<and> t \<le> s \<and> s \<le> 204"
  by (rule parp_score_bounded_monotone)
    (auto simp: numeral_eq_Suc less_Suc_eq)

text \<open>For a valid policy and tiers the page flags can hold, \<open>classify\<close> upgrades exactly a folio
  the native test would reclaim whose hot score lifts it over the tier index (never at the top
  index), and downgrades exactly a cold folio one tier above the index; nothing else changes.\<close>

theorem parp_classify_action:
  assumes "parp_tier_policy_valid (Some p)" and "0 \<le> nt" "nt \<le> 3" and "0 \<le> idx" "idx \<le> 3"
    and "d = parp_effective_tier_classify score True nt idx False (Some p)"
  shows "(d_action d = PARP_TIER_PREDICTIVE_UPGRADE \<longleftrightarrow>
            nt \<le> idx \<and> idx < 3 \<and> score > cold_threshold p \<and>
            idx - nt < parp_score_to_delta_q8 score (Some p) div 256) \<and>
         (d_action d = PARP_TIER_PREDICTIVE_DOWNGRADE \<longleftrightarrow>
            nt = idx + 1 \<and> score \<le> cold_threshold p)"
proof -
  note f = classify_fields [OF assms(1-5), of _ score False]
  have act: "d_action d =
    (if \<not> nt > idx \<and> d_effective_protect d then PARP_TIER_PREDICTIVE_UPGRADE
     else if nt > idx \<and> \<not> d_effective_protect d then PARP_TIER_PREDICTIVE_DOWNGRADE
     else if nt > idx then PARP_TIER_KEEP_PROTECT else PARP_TIER_KEEP_RECLAIM)"
    using classify_action_bits [OF assms(6)] f [OF assms(6)] by simp
  have "parp_score_to_delta_q8 score (Some p) div 256 \<ge> 0" if "score > cold_threshold p"
    using parp_score_to_delta_range [of score "Some p"] that
      parp_score_to_delta_cases [OF assms(1), of score] by auto
  then show ?thesis
    unfolding act f(4) [OF assms(6)] effective_protect_cases [OF assms(1-5)]
    using assms(2-5) by (cases "score \<le> cold_threshold p") (auto split: if_splits)
qed

text \<open>An instance with the default policy: a hot unprotected folio is upgraded.\<close>

theorem parp_classify_action_witness:
  "d_action (parp_effective_tier_classify 100 True 0 1 False
     (Some (c_policy parp_tier_config_default))) = PARP_TIER_PREDICTIVE_UPGRADE"
  using parp_classify_action [OF parp_tier_config_default_valid, of 0 1 _ 100]
  by (simp add: parp_tier_config_default_valid parp_score_to_delta_cases)
    (simp add: parp_tier_config_default_def)

text \<open>In every mode the protection that is applied differs from the native protection exactly
  when \<open>action_applies\<close> says that the mode applies the predicted action; in particular OFF and
  SHADOW leave native behaviour and PROTECT_ONLY never removes a protection.\<close>

theorem parp_actual_protect_matches_action:
  "(parp_effective_tier_actual_protect mode
      (parp_effective_tier_classify score mv nt idx sp policy) \<noteq> (sp \<or> clamp nt 0 3 > clamp idx 0 3))
   \<longleftrightarrow> parp_effective_tier_action_applies mode
         (d_action (parp_effective_tier_classify score mv nt idx sp policy))"
proof -
  define d where "d = parp_effective_tier_classify score mv nt idx sp policy"
  have sp: "d_special_native_protect d = sp"
    by (simp add: d_def parp_effective_tier_classify_def Let_def)
  have np: "clamp nt 0 3 > clamp idx 0 3 \<longleftrightarrow> d_native_protect d"
    by (simp add: d_def classify_native_protect)
  show ?thesis
    unfolding d_def [symmetric] np classify_action_bits [OF d_def]
    by (cases mode) (auto simp: parp_effective_tier_actual_protect_def sp
        parp_effective_tier_action_applies_def)
qed

lemma pressure_delta_between:
  "min delta 0 \<le> parp_effective_tier_pressure_delta_q8 delta level \<and>
   parp_effective_tier_pressure_delta_q8 delta level \<le> max delta 0"
proof -
  have scale: "0 \<le> s \<Longrightarrow> s \<le> 256 \<Longrightarrow>
      min delta 0 \<le> parp_pressure_scale_delta_q8 delta s \<and>
      parp_pressure_scale_delta_q8 delta s \<le> max delta 0" for s
  proof (cases "delta < 0 \<and> s \<noteq> 0")
    case True
    assume s: "0 \<le> s" "s \<le> 256"
    have pos: "delta * s < 0" using True s by (simp add: mult_neg_pos)
    have "- delta * s \<le> - delta * 256" using True s by (intro mult_left_mono) auto
    then have "(- (delta * s)) div 256 \<le> - delta"
      using zdiv_mono1 [of "- delta * s" "- delta * 256" 256] by simp
    moreover have "0 \<le> (- (delta * s)) div 256" using pos by simp
    ultimately show ?thesis
      using True c_div_neg [OF pos, of 256] by (simp add: parp_pressure_scale_delta_q8_def)
  next
    case False
    assume s: "0 \<le> s" "s \<le> 256"
    have nonneg: "0 \<le> delta * s" using False s by auto
    have "delta * s \<le> max delta 0 * 256"
      using False s by (auto simp: max_def intro: mult_left_mono)
    then have "delta * s div 256 \<le> max delta 0"
      using zdiv_mono1 [of "delta * s" "max delta 0 * 256" 256] by simp
    moreover have "0 \<le> delta * s div 256" using nonneg by simp
    ultimately show ?thesis
      using c_div_nonneg [OF nonneg, of 256] by (simp add: parp_pressure_scale_delta_q8_def)
  qed
  show ?thesis
    by (cases level)
      (simp_all add: parp_effective_tier_pressure_delta_q8_def scale)
qed

text \<open>A higher score never lowers the delta of a valid policy; the delta stays between one tier
  down and \<open>max_upgrade_tiers\<close> tiers up, and the pressure matrix only shrinks it towards zero, to
  exactly zero under critical pressure.\<close>

theorem parp_delta_monotone_and_damped:
  assumes "parp_tier_policy_valid (Some p)" and "score \<le> score'"
  shows "parp_score_to_delta_q8 score (Some p) \<le> parp_score_to_delta_q8 score' (Some p) \<and>
    - 256 \<le> parp_score_to_delta_q8 score (Some p) \<and>
    parp_score_to_delta_q8 score' (Some p) \<le> 256 * uint (max_upgrade_tiers p) \<and>
    (\<forall>level. let delta = parp_score_to_delta_q8 score (Some p);
                 damped = parp_effective_tier_pressure_delta_q8 delta level
             in min delta 0 \<le> damped \<and> damped \<le> max delta 0) \<and>
    parp_effective_tier_pressure_delta_q8 (parp_score_to_delta_q8 score (Some p))
      PARP_PRESSURE_CRITICAL = 0"
proof -
  have "parp_score_to_delta_q8 score' (Some p) \<le> 256 * uint (max_upgrade_tiers p)"
    using parp_tier_policy_validD(5) [OF assms(1)]
    by (auto simp: parp_score_to_delta_cases [OF assms(1)])
  moreover have "- 256 \<le> parp_score_to_delta_q8 score (Some p)"
    using parp_score_to_delta_range [of score "Some p"] by auto
  moreover have "parp_effective_tier_pressure_delta_q8 x PARP_PRESSURE_CRITICAL = 0" for x
    by (simp add: parp_effective_tier_pressure_delta_q8_def parp_pressure_scale_delta_q8_def
        c_div_nonneg)
  ultimately show ?thesis
    using parp_score_to_delta_mono [OF assms] pressure_delta_between by (simp add: Let_def)
qed

text \<open>An instance with the default policy.\<close>

theorem parp_delta_monotone_and_damped_witness:
  "parp_score_to_delta_q8 (- 50) (Some (c_policy parp_tier_config_default)) \<le>
     parp_score_to_delta_q8 60 (Some (c_policy parp_tier_config_default))"
  using parp_delta_monotone_and_damped [OF parp_tier_config_default_valid, of "- 50" 60] by simp

text \<open>However many folios ask for the budget of one epoch, the pages granted never exceed the
  absolute limit, and never exceed the share \<open>ratio / 10000\<close> of the candidate pages (one page where
  that share rounds to zero).\<close>

theorem parp_budget_never_overspent:
  "unat (foldl (\<lambda>used pages. if parp_effective_tier_budget_allows used candidates pages limit ratio
                             then used + pages else used) 0 requests)
     \<le> min (unat limit) (max 1 (unat candidates * unat ratio div 10000))"
proof -
  define run where "run = foldl (absolute_budget.spend candidates limit ratio) 0 requests"
  have run: "foldl (\<lambda>used pages. if parp_effective_tier_budget_allows used candidates pages limit ratio
      then used + pages else used) 0 requests = run"
    unfolding run_def by (simp only: absolute_budget.spend_def [abs_def])
  have absolute: "run \<le> limit"
    unfolding run_def by (rule absolute_budget.spend_run_bound) simp
  show ?thesis
  proof (cases "ratio \<le> 10000")
    case True
    have "run \<le> parp_ratio_limit candidates ratio"
      unfolding run_def
      by (rule ratio_budget.spend_run_bound) simp
    then have "unat run \<le> max 1 (unat candidates * unat ratio div 10000)"
      using parp_ratio_limit_le(2) [OF True, of candidates]
      unfolding word_le_nat_alt by (rule le_trans)
    then show ?thesis unfolding run using absolute by (simp only: word_le_nat_alt min.bounded_iff)
  next
    case False
    have idle: "absolute_budget.spend candidates limit ratio u pages = u" for u pages
      unfolding absolute_budget.spend_def unfolding budget_allows_iff using False by simp
    have "foldl (absolute_budget.spend candidates limit ratio) u requests = u" for u
      by (induction requests arbitrary: u) (simp_all only: foldl.simps idle)
    then show ?thesis unfolding run run_def by simp
  qed
qed

text \<open>Over one pass of exactly \<open>eligible\<close> folios the random claim selects exactly
  \<open>min target eligible\<close> of them, whatever random values are drawn.\<close>

theorem parp_random_claim_exact:
  assumes "length rs = unat eligible"
  shows "unat (parp_random_pass target eligible rs 0 0) = min (unat target) (unat eligible)"
  using random_pass_count [of 0 rs eligible 0 target] assms by simp

text \<open>An instance: two of three folios are claimed.\<close>

theorem parp_random_claim_exact_witness:
  "unat (parp_random_pass 2 3 [7, 10, 4] 0 0) = 2"
  using parp_random_claim_exact [of "[7, 10, 4]" 3 2] by simp

text \<open>Writing the next generation into the folio flags and reading it back gives the generation
  the policy asked for, and every other flag bit is kept.\<close>

theorem parp_policy_flags_roundtrip:
  assumes "0 \<le> gen" "gen < 4" and "pgoff + 3 \<le> 64"
  shows "\<exists>gen'. parp_effective_tier_next_generation gen = Inr gen' \<and> gen' = (gen + 1) mod 4 \<and>
    parp_folio_gen_from_flags pgoff (parp_effective_tier_policy_flags pgoff flags gen') = gen' \<and>
    parp_effective_tier_policy_flags pgoff flags gen' AND NOT (LRU_GEN_MASK pgoff) =
      flags AND NOT (LRU_GEN_MASK pgoff)"
proof -
  define gen' where "gen' = (gen + 1) mod 4"
  have g: "gen' = 0 \<or> gen' = 1 \<or> gen' = 2 \<or> gen' = 3" unfolding gen'_def by presburger
  define v where "v = (word_of_int gen' + 1 :: u64)"
  have small: "take_bit 3 v = v" and uv: "uint v = gen' + 1"
    using g by (auto simp: v_def)
  have bits: "bit v n \<Longrightarrow> n < 3" for n
    using small by (metis bit_take_bit_iff)
  have flags: "parp_effective_tier_policy_flags pgoff flags gen' =
      (flags AND NOT (LRU_GEN_MASK pgoff)) OR push_bit pgoff v"
    using g by (auto simp: parp_effective_tier_policy_flags_def v_def)
  have "drop_bit pgoff (((flags AND NOT (LRU_GEN_MASK pgoff)) OR push_bit pgoff v) AND
      LRU_GEN_MASK pgoff) = v"
    by (rule bit_word_eqI) (use assms(3) in
      \<open>auto simp: bit_simps bit_LRU_GEN_MASK add.commute dest: bits\<close>)
  moreover have "((flags AND NOT (LRU_GEN_MASK pgoff)) OR push_bit pgoff v) AND
      NOT (LRU_GEN_MASK pgoff) = flags AND NOT (LRU_GEN_MASK pgoff)"
    by (rule bit_word_eqI) (auto simp: bit_simps bit_LRU_GEN_MASK dest: bits)
  ultimately have readback: "parp_folio_gen_from_flags pgoff
        (parp_effective_tier_policy_flags pgoff flags gen') = gen'"
    and others: "parp_effective_tier_policy_flags pgoff flags gen' AND NOT (LRU_GEN_MASK pgoff) =
        flags AND NOT (LRU_GEN_MASK pgoff)"
    unfolding parp_folio_gen_from_flags_def flags using uv by simp_all
  have "parp_effective_tier_next_generation gen = Inr gen'"
    using assms(1,2) by (simp add: parp_effective_tier_next_generation_def gen'_def)
  then show ?thesis using readback others gen'_def by blast
qed

text \<open>An instance: generation 3 wraps to generation 0.\<close>

theorem parp_policy_flags_roundtrip_witness:
  "\<exists>gen'. parp_effective_tier_next_generation 3 = Inr gen' \<and> gen' = 0 \<and>
     parp_folio_gen_from_flags 53 (parp_effective_tier_policy_flags 53 0xFFFF gen') = gen'"
  using parp_policy_flags_roundtrip [of 3 53 "0xFFFF"] by simp

end
