(* ===== verification/Tier_State.thy ===== *)
theory Tier_State
  imports Tier_Score
begin

text \<open>
  The per-page metadata of \<open>mm/parp/core/effective_tier.c\<close>: the packed state word with its sequence
  counter, the writer section (\<open>parp_state_write_begin\<close> and \<open>parp_state_write_end\<close>), the averages,
  and every operation that reads or updates a page's 24 bytes.

  An operation works on one page's metadata, an option (\<open>None\<close> when the page has no extension).
  What other CPUs do to the metadata while the writer section is being entered is a parameter,
  \<open>interference\<close>: point \<open>2 * k\<close> is before the read of attempt \<open>k\<close>, point \<open>2 * k + 1\<close> is between
  the read and the \<open>cmpxchg\<close>. A section that has been entered is exclusive; that the protocol makes
  it so is the subject of the theory \<open>Tier_Seqlock\<close>. Time, the run epoch (part of the globals), the
  folio's generation and whether a tracepoint is on are arguments; a tracepoint changes its counters
  and the trace sequence, its payload is output.
\<close>

section \<open>The state word\<close>

abbreviation PARP_TIER_STATE_TRIES :: nat where "PARP_TIER_STATE_TRIES \<equiv> 4"

definition PARP_STATE_INITIALIZED :: u32 where "PARP_STATE_INITIALIZED = BIT 19"
definition PARP_STATE_UNCERTAIN :: u32 where "PARP_STATE_UNCERTAIN = BIT 20"
abbreviation PARP_STATE_ACCESS_MASK :: u32 where "PARP_STATE_ACCESS_MASK \<equiv> GENMASK 7 0"
abbreviation PARP_STATE_CANDIDATE_MASK :: u32 where "PARP_STATE_CANDIDATE_MASK \<equiv> GENMASK 13 8"
abbreviation PARP_STATE_GENERATION_MASK :: u32 where "PARP_STATE_GENERATION_MASK \<equiv> GENMASK 15 14"
abbreviation PARP_STATE_ACTION_MASK :: u32 where "PARP_STATE_ACTION_MASK \<equiv> GENMASK 18 16"
abbreviation PARP_STATE_SEQ_MASK :: u32 where "PARP_STATE_SEQ_MASK \<equiv> GENMASK 31 21"
abbreviation PARP_STATE_SEQ_MAX :: u32 where "PARP_STATE_SEQ_MAX \<equiv> 0x7FF"
abbreviation PARP_TIER_EPOCH_MASK :: u32 where "PARP_TIER_EPOCH_MASK \<equiv> 0xFFF"

definition parp_state_seq :: "u32 \<Rightarrow> u32" where
  "parp_state_seq state = FIELD_GET 31 21 state"

abbreviation state_access :: "u32 \<Rightarrow> u32" where "state_access \<equiv> FIELD_GET 7 0"
abbreviation state_candidates :: "u32 \<Rightarrow> u32" where "state_candidates \<equiv> FIELD_GET 13 8"
abbreviation state_generation :: "u32 \<Rightarrow> u32" where "state_generation \<equiv> FIELD_GET 15 14"
abbreviation state_action :: "u32 \<Rightarrow> u32" where "state_action \<equiv> FIELD_GET 18 16"
abbreviation epochs_upgrade :: "u32 \<Rightarrow> u32" where "epochs_upgrade \<equiv> FIELD_GET 11 0"
abbreviation epochs_downgrade :: "u32 \<Rightarrow> u32" where "epochs_downgrade \<equiv> FIELD_GET 23 12"
abbreviation epochs_run :: "u32 \<Rightarrow> u32" where "epochs_run \<equiv> FIELD_GET 31 24"

definition parp_state_locked :: "u32 \<Rightarrow> u32" where
  "parp_state_locked old = (old AND NOT PARP_STATE_SEQ_MASK) OR
     FIELD_PREP 31 21 ((parp_state_seq old + 1) AND PARP_STATE_SEQ_MAX)"

definition parp_state_released :: "u32 \<Rightarrow> u32 \<Rightarrow> u32" where
  "parp_state_released old_state new_state = (new_state AND NOT PARP_STATE_SEQ_MASK) OR
     FIELD_PREP 31 21 ((parp_state_seq old_state + 2) AND PARP_STATE_SEQ_MAX)"

section \<open>The writer section\<close>

type_synonym interference = "nat \<Rightarrow> parp_reuse_page_ext \<Rightarrow> parp_reuse_page_ext"

definition quiet :: interference where "quiet k ext = ext"

text \<open>\<open>n\<close> attempts are left, \<open>k\<close> have been made. \<open>Some old\<close> is success with \<open>*stable_state = old\<close>.\<close>

fun parp_state_write_try ::
  "interference \<Rightarrow> nat \<Rightarrow> nat \<Rightarrow> parp_reuse_page_ext \<Rightarrow> u32 option \<times> parp_reuse_page_ext" where
  "parp_state_write_try env 0 k ext = (None, ext)"
| "parp_state_write_try env (Suc n) k ext =
     (let seen = env (2 * k) ext; old = ext_state seen
      in if parp_state_seq old AND 1 \<noteq> 0 then parp_state_write_try env n (Suc k) seen
         else let now = env (2 * k + 1) seen
              in if ext_state now = old
                 then (Some old, now \<lparr> ext_state := parp_state_locked old \<rparr>)
                 else parp_state_write_try env n (Suc k) now)"

definition parp_state_write_begin ::
  "interference \<Rightarrow> parp_reuse_page_ext \<Rightarrow> u32 option \<times> parp_reuse_page_ext" where
  "parp_state_write_begin env ext = parp_state_write_try env PARP_TIER_STATE_TRIES 0 ext"

definition parp_state_write_end ::
  "u32 \<Rightarrow> u32 \<Rightarrow> parp_reuse_page_ext \<Rightarrow> parp_reuse_page_ext" where
  "parp_state_write_end old_state new_state ext =
     ext \<lparr> ext_state := parp_state_released old_state new_state \<rparr>"

fun parp_state_mark_try ::
  "interference \<Rightarrow> nat \<Rightarrow> nat \<Rightarrow> parp_reuse_page_ext \<Rightarrow> parp_reuse_page_ext" where
  "parp_state_mark_try env 0 k ext = ext"
| "parp_state_mark_try env (Suc n) k ext =
     (let seen = env (2 * k) ext; old = ext_state seen
      in if parp_state_seq old AND 1 \<noteq> 0 then parp_state_mark_try env n (Suc k) seen
         else if old AND PARP_STATE_UNCERTAIN \<noteq> 0 then seen
         else let now = env (2 * k + 1) seen
              in if ext_state now = old
                 then now \<lparr> ext_state := old OR PARP_STATE_UNCERTAIN \<rparr>
                 else parp_state_mark_try env n (Suc k) now)"

text \<open>The marking follows a failed entry, so its interference points come after those of the entry.\<close>

definition parp_state_mark_uncertain ::
  "interference \<Rightarrow> parp_reuse_page_ext \<Rightarrow> parp_reuse_page_ext" where
  "parp_state_mark_uncertain env ext =
     parp_state_mark_try env PARP_TIER_STATE_TRIES PARP_TIER_STATE_TRIES ext"

section \<open>Averages, identity and accounting\<close>

definition parp_sat_u16 :: "u32 \<Rightarrow> u16" where
  "parp_sat_u16 value = ucast (min value U16_MAX)"

definition parp_interval_ema :: "u16 \<Rightarrow> u32 \<Rightarrow> u16" where
  "parp_interval_ema old sample0 =
     (let sample = min sample0 U16_MAX
      in if old = 0 then ucast sample
         else let delta = uint sample - uint old;
                  next_value = word_of_int (uint old + c_div delta 4)
              in parp_sat_u16 next_value)"

definition parp_access_ema_on_access :: "u8 \<Rightarrow> u8" where
  "parp_access_ema_on_access old =
     (if old = 0 then U8_MAX
      else let delta = (U8_MAX - old) div 4
           in word_of_int (min (uint old + uint (max delta 1)) 255))"

definition parp_access_ema_on_candidate :: "u8 \<Rightarrow> u8" where
  "parp_access_ema_on_candidate old = old - old div 4"

text \<open>\<open>siphash_2u64\<close> under the boot-time key is the parameter \<open>hash\<close>.\<close>

definition parp_folio_cookie :: "(u64 \<Rightarrow> u64 \<Rightarrow> u64) \<Rightarrow> u64 \<Rightarrow> u32 \<Rightarrow> u64" where
  "parp_folio_cookie hash pfn lifetime = hash pfn (ucast lifetime)"

definition parp_effective_tier_identity ::
  "(u64 \<Rightarrow> u64 \<Rightarrow> u64) \<Rightarrow> u64 \<Rightarrow> parp_reuse_page_ext option \<Rightarrow> bool \<times> u32 \<times> u64" where
  "parp_effective_tier_identity hash pfn page =
     (case page of
        None \<Rightarrow> (False, 0, 0)
      | Some ext \<Rightarrow> (True, ext_lifetime_epoch ext,
                      parp_folio_cookie hash pfn (ext_lifetime_epoch ext)))"

definition parp_access_event_is_real :: "parp_access_event \<Rightarrow> bool" where
  "parp_access_event_is_real event \<longleftrightarrow>
     event = PARP_ACCESS_PTE_YOUNG \<or> event = PARP_ACCESS_MARK_ACCESSED \<or>
     event = PARP_ACCESS_FD_REFERENCE"

text \<open>The elapsed time and \<open>*valid\<close>: a clock that seems to have gone back is not valid.\<close>

definition parp_effective_tier_elapsed_ms :: "u32 \<Rightarrow> u32 \<Rightarrow> u32 \<times> bool" where
  "parp_effective_tier_elapsed_ms now_ms then_ms =
     (let elapsed = now_ms - then_ms in (elapsed, elapsed \<le> 0x7FFFFFFF))"

definition parp_runtime_config_read :: "parp_tier_globals \<Rightarrow> parp_tier_runtime_config option" where
  "parp_runtime_config_read g =
     (if c_sequence (g_config g) AND 1 \<noteq> 0 then None else Some (g_config g))"

definition inc64 :: "('a \<Rightarrow> u64) \<Rightarrow> 'a \<Rightarrow> 'a \<Rightarrow> u64" where
  "inc64 counters k = counters (k := counters k + 1)"

text \<open>
  One update of a maximum. The code tries a compare-and-exchange up to four times; when nothing runs in
  between the first attempt succeeds. (Under constant interference all four can fail and the maximum
  then misses the value; a maximum is not part of any property.)
\<close>

definition parp_account_max :: "u64 \<Rightarrow> u64 \<Rightarrow> u64" where
  "parp_account_max maximum value = (if value > maximum then value else maximum)"

definition parp_latency_bin :: "u64 \<Rightarrow> nat" where
  "parp_latency_bin value = min (if value \<noteq> 0 then fls64 value - 1 else 0) 31"

text \<open>\<open>(total, maximum, histogram)\<close> after one sample.\<close>

definition parp_account_latency ::
  "u64 \<Rightarrow> u64 \<times> u64 \<times> (nat \<Rightarrow> u64) \<Rightarrow> u64 \<times> u64 \<times> (nat \<Rightarrow> u64)" where
  "parp_account_latency value acc =
     (let (sum_ns, maximum, histogram) = acc
      in (sum_ns + value, parp_account_max maximum value,
          inc64 histogram (parp_latency_bin value)))"

definition parp_set_state_fault :: "parp_tier_globals \<Rightarrow> parp_tier_globals" where
  "parp_set_state_fault g = g \<lparr> g_state_fault := True \<rparr>"

definition parp_count_unstable :: "parp_tier_globals \<Rightarrow> parp_tier_globals" where
  "parp_count_unstable g =
     g \<lparr> g_stats := (g_stats g) \<lparr> t_state_unstable := t_state_unstable (g_stats g) + 1 \<rparr> \<rparr>"

definition parp_effective_tier_mglru_state_change :: "parp_tier_globals \<Rightarrow> parp_tier_globals" where
  "parp_effective_tier_mglru_state_change g = parp_set_state_fault g"

section \<open>Access and move events\<close>

type_synonym page = "parp_reuse_page_ext option"

definition parp_effective_tier_page_reset :: "parp_reuse_page_ext \<Rightarrow> parp_reuse_page_ext" where
  "parp_effective_tier_page_reset ext =
     (let lifetime0 = ext_lifetime_epoch ext + 1;
          lifetime = (if lifetime0 = 0 then 1 else lifetime0)
      in \<lparr> ext_last_access_ms = 0, ext_previous_interval_ms = 0, ext_reuse_interval_ema_ms = 0,
           ext_generation_enter_ms = 0, ext_lifetime_epoch = lifetime, ext_state = 0,
           ext_decision_epochs = 0 \<rparr>)"

text \<open>\<open>pages\<close> are the pages from the allocated one on; the first \<open>2 ^ order\<close> are reset.\<close>

definition parp_effective_tier_page_alloc :: "page list \<Rightarrow> nat \<Rightarrow> page list" where
  "parp_effective_tier_page_alloc pages order =
     map (map_option parp_effective_tier_page_reset) (take (2 ^ order) pages) @
     drop (2 ^ order) pages"

definition parp_candidate_access_trace_eligible :: "bool \<Rightarrow> u32 \<Rightarrow> bool" where
  "parp_candidate_access_trace_eligible real_access candidate_count =
     (real_access \<and> candidate_count \<noteq> 0)"

definition parp_emit_access :: "bool \<Rightarrow> bool \<Rightarrow> u32 \<Rightarrow> parp_tier_globals \<Rightarrow> parp_tier_globals" where
  "parp_emit_access trace_on real_access candidate_count g =
     (if \<not> trace_on \<or> \<not> parp_candidate_access_trace_eligible real_access candidate_count then g
      else g \<lparr> g_trace_sequence := g_trace_sequence g + 1,
               g_stats := (g_stats g) \<lparr> t_trace_accesses := t_trace_accesses (g_stats g) + 1 \<rparr> \<rparr>)"

text \<open>
  The body of \<open>__parp_effective_tier_note_access\<close> inside the writer section, for a real access:
  the updated metadata (its state word still locked) and the new state word.
\<close>

definition parp_real_access_update ::
  "u8 \<Rightarrow> u32 \<Rightarrow> u32 \<Rightarrow> parp_reuse_page_ext \<Rightarrow> parp_reuse_page_ext \<times> u32" where
  "parp_real_access_update current_epoch now_ms old_state ext =
     (let initialized = (old_state AND PARP_STATE_INITIALIZED \<noteq> 0);
          epochs = ext_decision_epochs ext;
          new_run = (epochs_run epochs \<noteq> ucast current_epoch);
          (interval, valid) =
            (if initialized \<and> epochs_run epochs = ucast current_epoch
             then parp_effective_tier_elapsed_ms now_ms (ext_last_access_ms ext)
             else (0, False));
          access_ema = (if valid then ucast (state_access old_state) else 0);
          state1 = (old_state AND
              NOT (PARP_STATE_ACCESS_MASK OR PARP_STATE_CANDIDATE_MASK OR PARP_STATE_UNCERTAIN))
            OR ucast (parp_access_ema_on_access access_ema) OR PARP_STATE_INITIALIZED;
          state2 = (if new_run then state1 AND NOT PARP_STATE_ACTION_MASK else state1)
      in (ext \<lparr>
            ext_previous_interval_ms := (if valid then parp_sat_u16 interval else 0),
            ext_reuse_interval_ema_ms :=
              (if valid then parp_interval_ema (ext_reuse_interval_ema_ms ext) interval else 0),
            ext_last_access_ms := now_ms,
            ext_decision_epochs :=
              (if new_run then FIELD_PREP 31 24 (ucast current_epoch) else epochs) \<rparr>,
          state2))"

definition parp_count_access :: "parp_access_event \<Rightarrow> parp_tier_globals \<Rightarrow> parp_tier_globals" where
  "parp_count_access event g =
     g \<lparr> g_stats := (g_stats g) \<lparr> t_access_events := inc64 (t_access_events (g_stats g)) event \<rparr> \<rparr>"

definition parp_effective_tier_note_access ::
  "interference \<Rightarrow> bool \<Rightarrow> u32 \<Rightarrow> parp_access_event \<Rightarrow> parp_tier_globals \<times> page \<Rightarrow>
   parp_tier_globals \<times> page" where
  "parp_effective_tier_note_access env trace_on now_ms event gp =
     (let (g0, page) = gp
      in if event \<ge> PARP_ACCESS_EVENT_NR then (g0, page)
         else let g = parp_count_access event g0; real_access = parp_access_event_is_real event
              in case page of
                None \<Rightarrow> (g, None)
              | Some ext \<Rightarrow>
                  (case parp_state_write_begin env ext of
                     (None, ext1) \<Rightarrow>
                       (parp_emit_access trace_on real_access 0
                          (parp_set_state_fault (parp_count_unstable g)),
                        Some (parp_state_mark_uncertain env ext1))
                   | (Some old_state, ext1) \<Rightarrow>
                       if real_access then
                         let (ext2, new_state) =
                               parp_real_access_update (g_state_epoch g) now_ms old_state ext1
                         in (parp_emit_access trace_on real_access (state_candidates old_state) g,
                             Some (parp_state_write_end old_state new_state ext2))
                       else
                         let new_state =
                               (if old_state AND PARP_STATE_INITIALIZED \<noteq> 0
                                then old_state OR PARP_STATE_UNCERTAIN else old_state)
                         in (parp_emit_access trace_on real_access 0 g,
                             Some (parp_state_write_end old_state new_state ext1))))"

definition parp_count_move :: "parp_access_event \<Rightarrow> parp_tier_globals \<Rightarrow> parp_tier_globals" where
  "parp_count_move event g =
     (let st = g_stats (parp_count_access event g)
      in g \<lparr> g_stats :=
           (if event = PARP_POLICY_PROMOTION
            then st \<lparr> t_policy_promotions := t_policy_promotions st + 1 \<rparr>
            else if event = PARP_NATIVE_TIER_PROMOTION
            then st \<lparr> t_native_tier_promotions := t_native_tier_promotions st + 1 \<rparr>
            else if event = PARP_NATIVE_GENERATION_MOVE
            then st \<lparr> t_native_generation_moves := t_native_generation_moves st + 1 \<rparr>
            else st) \<rparr>)"

definition parp_effective_tier_note_move ::
  "interference \<Rightarrow> bool \<Rightarrow> u32 \<Rightarrow> parp_access_event \<Rightarrow> int \<Rightarrow> parp_tier_globals \<times> page \<Rightarrow>
   parp_tier_globals \<times> page" where
  "parp_effective_tier_note_move env trace_on now_ms event generation gp =
     (let (g0, page) = gp
      in if event < PARP_NATIVE_TIER_PROMOTION \<or> event \<ge> PARP_ACCESS_EVENT_NR \<or>
            generation < 0 \<or> generation > PARP_MAX_TIER
         then (g0, page)
         else let g = parp_count_move event g0
              in case page of
                None \<Rightarrow> (g, None)
              | Some ext \<Rightarrow>
                  (case parp_state_write_begin env ext of
                     (None, ext1) \<Rightarrow>
                       (parp_emit_access trace_on False 0
                          (parp_set_state_fault (parp_count_unstable g)),
                        Some (parp_state_mark_uncertain env ext1))
                   | (Some old_state, ext1) \<Rightarrow>
                       let old_generation = state_generation old_state;
                           new_state = (old_state AND NOT PARP_STATE_GENERATION_MASK) OR
                             FIELD_PREP 15 14 (word_of_int generation);
                           ext2 = (if ext_generation_enter_ms ext1 = 0 \<or>
                                      uint old_generation \<noteq> generation
                                   then ext1 \<lparr> ext_generation_enter_ms := now_ms \<rparr> else ext1)
                       in (parp_emit_access trace_on False 0 g,
                           Some (parp_state_write_end old_state new_state ext2))))"

section \<open>Readers\<close>

text \<open>
  \<open>later\<close> is the metadata's state word at the second read. The payload the reader copied may be
  torn only if the two words differ (theory \<open>Tier_Seqlock\<close>). The result is the return value and
  the snapshot, which keeps its old content in the fields not reached.
\<close>

definition parp_effective_tier_state_snapshot ::
  "u32 \<Rightarrow> page \<Rightarrow> parp_tier_state_snapshot \<Rightarrow> bool \<times> parp_tier_state_snapshot" where
  "parp_effective_tier_state_snapshot later page snap =
     (case page of
        None \<Rightarrow> (False, snap)
      | Some ext \<Rightarrow>
          let first = ext_state ext; epochs = ext_decision_epochs ext
          in if parp_state_seq first AND 1 \<noteq> 0 then (False, snap)
             else
               let copied = snap \<lparr>
                     n_last_access_ms := ext_last_access_ms ext,
                     n_previous_interval_ms := ucast (ext_previous_interval_ms ext),
                     n_reuse_interval_ema_ms := ucast (ext_reuse_interval_ema_ms ext),
                     n_generation_enter_ms := ext_generation_enter_ms ext,
                     n_lifetime_epoch := ext_lifetime_epoch ext \<rparr>
               in if first \<noteq> later \<or> parp_state_seq later AND 1 \<noteq> 0 then (False, copied)
                  else (first AND PARP_STATE_INITIALIZED \<noteq> 0, copied \<lparr>
                     n_last_upgrade_epoch := epochs AND PARP_TIER_EPOCH_MASK,
                     n_last_downgrade_epoch := drop_bit 12 epochs AND PARP_TIER_EPOCH_MASK,
                     n_state_epoch := epochs_run epochs,
                     n_state_sequence := parp_state_seq first,
                     n_access_ema_q8 := state_access first,
                     n_consecutive_candidates := state_candidates first,
                     n_generation := state_generation first,
                     n_pending_action := state_action first,
                     n_uncertain := first AND PARP_STATE_UNCERTAIN \<noteq> 0 \<rparr>))"

definition parp_effective_tier_revalidate :: "u8 \<Rightarrow> u32 \<Rightarrow> page \<Rightarrow> u32 \<Rightarrow> bool" where
  "parp_effective_tier_revalidate state_epoch later page state_sequence =
     (case page of
        None \<Rightarrow> False
      | Some ext \<Rightarrow>
          let first = ext_state ext
          in if parp_state_seq first AND 1 \<noteq> 0 then False
             else first = later \<and> \<not> (parp_state_seq later AND 1 \<noteq> 0) \<and>
                  parp_state_seq later = state_sequence \<and>
                  \<not> (later AND PARP_STATE_UNCERTAIN \<noteq> 0) \<and>
                  epochs_run (ext_decision_epochs ext) = ucast state_epoch)"

definition parp_effective_tier_commit_revalidate ::
  "parp_tier_globals \<Rightarrow> parp_tier_scan_ctx \<Rightarrow> u32 \<Rightarrow> page \<Rightarrow> u32 \<Rightarrow> bool" where
  "parp_effective_tier_commit_revalidate g ctx later page state_sequence =
     (if g_state_fault g \<or> g_mode g \<noteq> s_mode ctx then False
      else case parp_runtime_config_read g of
        None \<Rightarrow> False
      | Some config \<Rightarrow>
          if c_sequence config \<noteq> s_config_sequence ctx then False
          else parp_effective_tier_revalidate (g_state_epoch g) later page state_sequence)"

section \<open>Candidate features\<close>

text \<open>
  The part of \<open>parp_candidate_features\<close> inside the writer section: the return value, the feature
  values, the snapshot, and the new state word. \<open>folio_gen\<close> is \<open>folio_lru_gen (folio)\<close>.
\<close>

definition parp_candidate_update ::
  "u8 \<Rightarrow> u32 \<Rightarrow> int \<Rightarrow> u32 \<Rightarrow> parp_reuse_page_ext \<Rightarrow> parp_tier_state_snapshot \<Rightarrow>
   bool \<times> int list \<times> parp_tier_state_snapshot \<times> u32" where
  "parp_candidate_update state_epoch now_ms folio_gen old_state ext snap =
     (let epochs = ext_decision_epochs ext;
          (access_age, access_valid) = parp_effective_tier_elapsed_ms now_ms (ext_last_access_ms ext);
          (generation_age, generation_valid) =
            parp_effective_tier_elapsed_ms now_ms (ext_generation_enter_ms ext);
          candidates = min (state_candidates old_state + 1) 63;
          access_ema = parp_access_ema_on_candidate (ucast (state_access old_state));
          new_state = (old_state AND NOT (PARP_STATE_ACCESS_MASK OR PARP_STATE_CANDIDATE_MASK))
            OR ucast access_ema OR FIELD_PREP 13 8 candidates;
          valid = (old_state AND PARP_STATE_INITIALIZED \<noteq> 0 \<and>
            \<not> (old_state AND PARP_STATE_UNCERTAIN \<noteq> 0) \<and>
            access_valid \<and> generation_valid \<and>
            ext_last_access_ms ext \<noteq> 0 \<and> ext_generation_enter_ms ext \<noteq> 0 \<and>
            epochs_run epochs = ucast state_epoch);
          values = [uint access_age, uint (ext_previous_interval_ms ext),
            uint (ext_reuse_interval_ema_ms ext), uint candidates, uint generation_age,
            uint access_ema];
          snap1 = snap \<lparr>
            n_last_access_ms := ext_last_access_ms ext,
            n_previous_interval_ms := ucast (ext_previous_interval_ms ext),
            n_reuse_interval_ema_ms := ucast (ext_reuse_interval_ema_ms ext),
            n_generation_enter_ms := ext_generation_enter_ms ext,
            n_lifetime_epoch := ext_lifetime_epoch ext,
            n_last_upgrade_epoch := epochs AND PARP_TIER_EPOCH_MASK,
            n_last_downgrade_epoch := drop_bit 12 epochs AND PARP_TIER_EPOCH_MASK,
            n_state_epoch := epochs_run epochs,
            n_state_sequence := (parp_state_seq old_state + 2) AND PARP_STATE_SEQ_MAX,
            n_access_ema_q8 := ucast access_ema,
            n_consecutive_candidates := candidates,
            n_generation := state_generation old_state,
            n_pending_action := state_action old_state,
            n_uncertain := old_state AND PARP_STATE_UNCERTAIN \<noteq> 0 \<rparr>
      in if uint (state_generation old_state) \<noteq> folio_gen
         then (False, values, snap1 \<lparr> n_uncertain := True \<rparr>, new_state OR PARP_STATE_UNCERTAIN)
         else (valid, values, snap1, new_state))"

definition parp_candidate_features ::
  "interference \<Rightarrow> u8 \<Rightarrow> u32 \<Rightarrow> int \<Rightarrow> page \<Rightarrow> int list \<Rightarrow> parp_tier_state_snapshot \<Rightarrow>
   bool \<times> int list \<times> parp_tier_state_snapshot \<times> page" where
  "parp_candidate_features env state_epoch now_ms folio_gen page values snap =
     (case page of
        None \<Rightarrow> (False, values, snap, None)
      | Some ext \<Rightarrow>
          (case parp_state_write_begin env ext of
             (None, ext1) \<Rightarrow> (False, values, snap \<lparr> n_uncertain := True \<rparr>, Some ext1)
           | (Some old_state, ext1) \<Rightarrow>
               let (valid, values1, snap1, new_state) =
                     parp_candidate_update state_epoch now_ms folio_gen old_state ext1 snap
               in (valid, values1, snap1, Some (parp_state_write_end old_state new_state ext1))))"

section \<open>Epoch claims\<close>

definition epochs_previous :: "bool \<Rightarrow> u32 \<Rightarrow> u32" where
  "epochs_previous upgrade epochs =
     (if upgrade then epochs AND PARP_TIER_EPOCH_MASK
      else drop_bit 12 epochs AND PARP_TIER_EPOCH_MASK)"

definition epochs_with :: "bool \<Rightarrow> u32 \<Rightarrow> u32 \<Rightarrow> u32" where
  "epochs_with upgrade tag epochs =
     (if upgrade then (epochs AND NOT PARP_TIER_EPOCH_MASK) OR tag
      else (epochs AND NOT (push_bit 12 PARP_TIER_EPOCH_MASK)) OR push_bit 12 tag)"

text \<open>
  The result is \<open>Inl bypass\<close> (return value false) or \<open>Inr sequence\<close> with the claimed sequence.
  \<open>expected\<close> is \<open>None\<close> for a negative \<open>expected_sequence\<close>.
\<close>

definition parp_effective_tier_claim_epoch_sequence ::
  "interference \<Rightarrow> u8 \<Rightarrow> bool \<Rightarrow> u32 \<Rightarrow> u32 option \<Rightarrow> page \<Rightarrow>
   (parp_tier_bypass_reason + u32) \<times> page" where
  "parp_effective_tier_claim_epoch_sequence env state_epoch upgrade tag expected page =
     (case page of
        None \<Rightarrow> (Inl PARP_TIER_BYPASS_METADATA_MISSING, None)
      | Some ext \<Rightarrow>
          (case parp_state_write_begin env ext of
             (None, ext1) \<Rightarrow> (Inl PARP_TIER_BYPASS_STATE_UNSTABLE, Some ext1)
           | (Some old_state, ext1) \<Rightarrow>
               let epochs = ext_decision_epochs ext1;
                   undo = Some (parp_state_write_end old_state old_state ext1)
               in if expected \<noteq> None \<and> parp_state_seq old_state \<noteq> the expected
                  then (Inl PARP_TIER_BYPASS_GENERATION_RACE, undo)
                  else if epochs_run epochs \<noteq> ucast state_epoch
                  then (Inl PARP_TIER_BYPASS_STATE_UNSTABLE, undo)
                  else if epochs_previous upgrade epochs = tag
                  then (Inl (if upgrade then PARP_TIER_BYPASS_REPEAT_UPGRADE
                             else PARP_TIER_BYPASS_REPEAT_DOWNGRADE), undo)
                  else (Inr ((parp_state_seq old_state + 2) AND PARP_STATE_SEQ_MAX),
                        Some (parp_state_write_end old_state old_state
                          (ext1 \<lparr> ext_decision_epochs := epochs_with upgrade tag epochs \<rparr>)))))"

definition parp_effective_tier_claim_epoch ::
  "interference \<Rightarrow> u8 \<Rightarrow> bool \<Rightarrow> u32 \<Rightarrow> page \<Rightarrow> (parp_tier_bypass_reason + u32) \<times> page" where
  "parp_effective_tier_claim_epoch env state_epoch upgrade tag page =
     parp_effective_tier_claim_epoch_sequence env state_epoch upgrade tag None page"

definition parp_effective_tier_release_epoch ::
  "interference \<Rightarrow> bool \<Rightarrow> u32 \<Rightarrow> parp_tier_globals \<times> page \<Rightarrow> bool \<times> parp_tier_globals \<times> page" where
  "parp_effective_tier_release_epoch env upgrade tag gp =
     (let (g, page) = gp
      in case page of
        None \<Rightarrow> (False, g, None)
      | Some ext \<Rightarrow>
          (case parp_state_write_begin env ext of
             (None, ext1) \<Rightarrow>
               (False, parp_set_state_fault (parp_count_unstable g),
                Some (parp_state_mark_uncertain env ext1))
           | (Some old_state, ext1) \<Rightarrow>
               let epochs = ext_decision_epochs ext1;
                   ext2 = (if epochs_run epochs = ucast (g_state_epoch g) \<and>
                              epochs_previous upgrade epochs = tag
                           then ext1 \<lparr> ext_decision_epochs := epochs_with upgrade 0 epochs \<rparr>
                           else ext1)
               in (True, g, Some (parp_state_write_end old_state old_state ext2))))"

section \<open>Pending action and outcome\<close>

fun tier_action_code :: "parp_tier_action \<Rightarrow> u32" where
  "tier_action_code PARP_TIER_KEEP_RECLAIM = 0"
| "tier_action_code PARP_TIER_PREDICTIVE_UPGRADE = 1"
| "tier_action_code PARP_TIER_KEEP_PROTECT = 2"
| "tier_action_code PARP_TIER_PREDICTIVE_DOWNGRADE = 3"
| "tier_action_code PARP_TIER_SPECIAL_NATIVE_PROTECT = 4"

definition parp_set_pending_action ::
  "interference \<Rightarrow> parp_tier_action \<Rightarrow> page \<Rightarrow> bool \<times> page" where
  "parp_set_pending_action env action page =
     (case page of
        None \<Rightarrow> (False, None)
      | Some ext \<Rightarrow>
          (case parp_state_write_begin env ext of
             (None, ext1) \<Rightarrow> (False, Some (parp_state_mark_uncertain env ext1))
           | (Some old_state, ext1) \<Rightarrow>
               (True, Some (parp_state_write_end old_state
                  ((old_state AND NOT PARP_STATE_ACTION_MASK) OR
                   FIELD_PREP 18 16 (tier_action_code action + 1)) ext1))))"

definition parp_effective_tier_outcome ::
  "interference \<Rightarrow> bool \<Rightarrow> parp_tier_outcome \<Rightarrow> parp_tier_globals \<times> page \<Rightarrow>
   parp_tier_globals \<times> page" where
  "parp_effective_tier_outcome env trace_on outcome gp =
     (let (g, page) = gp
      in case page of
        None \<Rightarrow> (g, None)
      | Some ext \<Rightarrow>
          (case parp_state_write_begin env ext of
             (None, ext1) \<Rightarrow>
               (parp_set_state_fault (parp_count_unstable g),
                Some (parp_state_mark_uncertain env ext1))
           | (Some old_state, ext1) \<Rightarrow>
               let pending = state_action old_state;
                   epochs = ext_decision_epochs ext1;
                   page1 = Some (parp_state_write_end old_state
                             (old_state AND NOT PARP_STATE_ACTION_MASK) ext1)
               in if pending = 0 \<or> epochs_run epochs \<noteq> ucast (g_state_epoch g)
                  then (g, page1)
                  else let st = (g_stats g) \<lparr> t_outcomes := inc64 (t_outcomes (g_stats g)) outcome \<rparr>
                       in if trace_on
                          then (g \<lparr> g_trace_sequence := g_trace_sequence g + 1,
                                    g_stats := st \<lparr> t_trace_outcomes := t_trace_outcomes st + 1 \<rparr> \<rparr>,
                                page1)
                          else (g \<lparr> g_stats := st \<rparr>, page1)))"

section \<open>Lemmas on the state word\<close>

lemma epoch_mask_eq: "(0xFFF :: u32) = mask 12"
  by (simp add: mask_eq_exp_minus_1)

lemma seq_max_eq: "(0x7FF :: u32) = mask 11"
  by (simp add: mask_eq_exp_minus_1)

lemma bit_seq: "bit (parp_state_seq w) n \<longleftrightarrow> n < 11 \<and> bit w (n + 21)"
  by (auto simp: parp_state_seq_def field_bits)

lemma and_1_bit: "(w :: u32) AND 1 \<noteq> 0 \<longleftrightarrow> bit w 0"
  by (simp add: and_one_eq odd_iff_mod_2_eq_one bit_0)

lemma seq_odd [simp]: "parp_state_seq w AND 1 \<noteq> 0 \<longleftrightarrow> bit w 21"
  unfolding and_1_bit by (simp add: bit_seq)

lemma seq_even [simp]: "parp_state_seq w AND 1 = 0 \<longleftrightarrow> \<not> bit w 21"
  using seq_odd [of w] by blast

lemma flag_bit:
  "w AND PARP_STATE_INITIALIZED \<noteq> 0 \<longleftrightarrow> bit w 19"
  "w AND PARP_STATE_UNCERTAIN \<noteq> 0 \<longleftrightarrow> bit w 20"
  by (simp_all add: PARP_STATE_INITIALIZED_def PARP_STATE_UNCERTAIN_def and_BIT)

lemma bit_flags:
  "bit PARP_STATE_INITIALIZED n \<longleftrightarrow> n = 19"
  "bit PARP_STATE_UNCERTAIN n \<longleftrightarrow> n = 20"
  by (auto simp: PARP_STATE_INITIALIZED_def PARP_STATE_UNCERTAIN_def bit_BIT)

lemma bit_released_low: "n < 21 \<Longrightarrow> bit (parp_state_released old new) n = bit new n"
  by (auto simp: parp_state_released_def bit_simps field_bits)

lemma bit_locked_low: "n < 21 \<Longrightarrow> bit (parp_state_locked old) n = bit old n"
  by (auto simp: parp_state_locked_def bit_simps field_bits)

lemma seq_released:
  "parp_state_seq (parp_state_released old new) = (parp_state_seq old + 2) AND mask 11"
  by (rule bit_word_eqI)
    (auto simp: bit_seq parp_state_released_def bit_simps field_bits seq_max_eq)

lemma seq_locked:
  "parp_state_seq (parp_state_locked old) = (parp_state_seq old + 1) AND mask 11"
  by (rule bit_word_eqI)
    (auto simp: bit_seq parp_state_locked_def bit_simps field_bits seq_max_eq)

lemma bit_0_add_2: "bit (w + 2 :: u32) 0 = bit w 0"
  by (simp add: bit_0)

lemma bit_0_add_1: "bit (w + 1 :: u32) 0 = (\<not> bit w 0)"
  by (simp add: bit_0)

lemma released_even: "bit (parp_state_released old new) 21 = bit old 21"
proof -
  have "bit (parp_state_released old new) 21 = bit (parp_state_seq (parp_state_released old new)) 0"
    by (simp add: bit_seq)
  also have "\<dots> = bit (parp_state_seq old) 0"
    by (simp add: seq_released bit_simps bit_0_add_2)
  also have "\<dots> = bit old 21" by (simp add: bit_seq)
  finally show ?thesis .
qed

lemma locked_odd: "bit (parp_state_locked old) 21 = (\<not> bit old 21)"
proof -
  have "bit (parp_state_locked old) 21 = bit (parp_state_seq (parp_state_locked old)) 0"
    by (simp add: bit_seq)
  also have "\<dots> = (\<not> bit (parp_state_seq old) 0)"
    by (simp add: seq_locked bit_simps bit_0_add_1)
  finally show ?thesis by (simp add: bit_seq)
qed

lemma seq_released_neq: "parp_state_seq (parp_state_released old new) \<noteq> parp_state_seq old"
proof
  assume *: "parp_state_seq (parp_state_released old new) = parp_state_seq old"
  define x where "x = unat (parp_state_seq old)"
  have b: "x < 2 ^ 11"
    unfolding x_def parp_state_seq_def using FIELD_GET_bound [of 21 31 old] by simp
  have two: "unat (2 :: u32) = 2" by simp
  have "unat (parp_state_seq old + 2) = x + 2"
    using b unat_add_lem [of "parp_state_seq old" 2] unfolding two x_def [symmetric] by simp
  moreover have "take_bit 11 (parp_state_seq old + 2) = parp_state_seq old"
    by (simp only: take_bit_eq_mask seq_released [of old new, symmetric] *)
  then have "x = take_bit 11 (unat (parp_state_seq old + 2))"
    unfolding x_def by (simp only: unsigned_take_bit_eq [symmetric])
  ultimately have "x = (x + 2) mod 2048"
    by (simp only: take_bit_eq_mod) simp
  then show False using b by (cases "x < 2046"; cases "x = 2046") (auto simp: mod_if split: if_splits)
qed

lemma FIELD_GET_released [parp_field]:
  "h < 21 \<Longrightarrow> FIELD_GET h l (parp_state_released old new) = FIELD_GET h l new"
  by (rule bit_word_eqI) (auto simp: field_bits bit_released_low)

lemma FIELD_GET_locked [parp_field]:
  "h < 21 \<Longrightarrow> FIELD_GET h l (parp_state_locked old) = FIELD_GET h l old"
  by (rule bit_word_eqI) (auto simp: field_bits bit_locked_low)

text \<open>Entering the section.\<close>

lemma write_try_enters:
  "parp_state_write_try env n k ext = (Some old, ext1) \<Longrightarrow>
   \<not> bit old 21 \<and> ext_state ext1 = parp_state_locked old"
  by (induction env n k ext rule: parp_state_write_try.induct)
    (auto simp: Let_def split: if_splits)

lemma write_begin_enters:
  assumes "parp_state_write_begin env ext = (Some old, ext1)"
  shows "\<not> bit old 21" and "ext_state ext1 = parp_state_locked old"
  using assms write_try_enters unfolding parp_state_write_begin_def by blast+

lemma write_try_quiet:
  "\<not> bit (ext_state ext) 21 \<Longrightarrow>
   parp_state_write_try quiet (Suc n) k ext =
     (Some (ext_state ext), ext \<lparr> ext_state := parp_state_locked (ext_state ext) \<rparr>)"
  by (simp add: quiet_def Let_def)

lemma write_begin_quiet:
  "\<not> bit (ext_state ext) 21 \<Longrightarrow>
   parp_state_write_begin quiet ext =
     (Some (ext_state ext), ext \<lparr> ext_state := parp_state_locked (ext_state ext) \<rparr>)"
  using write_try_quiet [of ext 3 0] by (simp add: parp_state_write_begin_def)

lemma write_try_quiet_busy:
  "bit (ext_state ext) 21 \<Longrightarrow> parp_state_write_try quiet n k ext = (None, ext)"
  by (induction n arbitrary: k) (simp_all add: quiet_def Let_def)

lemma write_begin_quiet_busy:
  "bit (ext_state ext) 21 \<Longrightarrow> parp_state_write_begin quiet ext = (None, ext)"
  by (simp only: parp_state_write_begin_def write_try_quiet_busy)

section \<open>Lemmas on the operations\<close>

lemma flags_released [parp_field]:
  "bit (parp_state_released old new) 19 = bit new 19"
  "bit (parp_state_released old new) 20 = bit new 20"
  by (simp_all add: bit_released_low)

lemma ucast_8_bits: "bit (ucast (w :: u8) :: u32) n \<longleftrightarrow> bit w n"
  by (auto simp: bit_simps dest: bit_imp_le_length)

lemma bit_u8: "bit (w :: u8) n \<Longrightarrow> n < 8"
  by (auto dest: bit_imp_le_length)

lemma elapsed_valid:
  "parp_effective_tier_elapsed_ms a b = (e, v) \<longleftrightarrow> e = a - b \<and> v = (a - b \<le> 0x7FFFFFFF)"
  by (auto simp: parp_effective_tier_elapsed_ms_def Let_def)

text \<open>The new state word of a real access, field by field.\<close>

lemma real_access_update_state:
  assumes "parp_real_access_update epoch now_ms old ext = (ext2, new_state)"
  shows "bit new_state 19" and "\<not> bit new_state 20" and "state_candidates new_state = 0"
    and "state_generation new_state = state_generation old"
    and "state_action new_state =
           (if epochs_run (ext_decision_epochs ext) = ucast epoch then state_action old else 0)"
    and "ext_last_access_ms ext2 = now_ms"
    and "epochs_run (ext_decision_epochs ext2) = ucast epoch"
    and "ext_generation_enter_ms ext2 = ext_generation_enter_ms ext"
    and "ext_lifetime_epoch ext2 = ext_lifetime_epoch ext"
    and "ext_state ext2 = ext_state ext"
proof -
  define ema where "ema = (if bit old 19 \<and> epochs_run (ext_decision_epochs ext) = ucast epoch \<and>
      now_ms - ext_last_access_ms ext \<le> 0x7FFFFFFF then ucast (state_access old) else 0 :: u8)"
  define new_run where "new_run = (epochs_run (ext_decision_epochs ext) \<noteq> ucast epoch)"
  define s1 where "s1 = (old AND
      NOT (PARP_STATE_ACCESS_MASK OR PARP_STATE_CANDIDATE_MASK OR PARP_STATE_UNCERTAIN))
      OR ucast (parp_access_ema_on_access ema) OR PARP_STATE_INITIALIZED"
  have new: "new_state = (if new_run then s1 AND NOT PARP_STATE_ACTION_MASK else s1)"
    using assms unfolding parp_real_access_update_def flag_bit
    by (auto simp: Let_def s1_def ema_def new_run_def elapsed_valid split: if_splits prod.splits)
  have bits: "bit s1 n \<longleftrightarrow> (bit old n \<and> \<not> n \<le> 13 \<and> n \<noteq> 20) \<or>
      bit (parp_access_ema_on_access ema) n \<or> n = 19" for n
    by (auto simp: s1_def bit_simps field_bits bit_flags dest: bit_imp_le_length)
  note b = bits bit_simps field_bits
  show "bit new_state 19" and "\<not> bit new_state 20"
    unfolding new by (auto simp: b dest: bit_u8)
  show "state_candidates new_state = 0" "state_generation new_state = state_generation old"
    unfolding new by (rule bit_word_eqI; auto simp: b dest: bit_u8)+
  show "state_action new_state =
      (if epochs_run (ext_decision_epochs ext) = ucast epoch then state_action old else 0)"
    unfolding new new_run_def by (rule bit_word_eqI) (auto simp: b dest: bit_u8)
  have run: "FIELD_GET 31 24 (FIELD_PREP 31 24 (ucast epoch)) = ucast epoch"
    by (rule bit_word_eqI) (auto simp: field_bits ucast_8_bits dest: bit_u8)
  show "ext_last_access_ms ext2 = now_ms" "epochs_run (ext_decision_epochs ext2) = ucast epoch"
    "ext_generation_enter_ms ext2 = ext_generation_enter_ms ext"
    "ext_lifetime_epoch ext2 = ext_lifetime_epoch ext" "ext_state ext2 = ext_state ext"
    using assms run unfolding parp_real_access_update_def
    by (auto simp: Let_def split: if_splits prod.splits)
qed

lemma note_access_real_quiet:
  assumes "\<not> bit (ext_state ext) 21" and "parp_access_event_is_real event"
    and "parp_real_access_update (g_state_epoch g) now_ms (ext_state ext)
      (ext \<lparr> ext_state := parp_state_locked (ext_state ext) \<rparr>) = (ext2, new_state)"
  shows "snd (parp_effective_tier_note_access quiet trace_on now_ms event (g, Some ext)) =
    Some (parp_state_write_end (ext_state ext) new_state ext2)"
proof -
  have "event < PARP_ACCESS_EVENT_NR"
    using assms(2) by (auto simp: parp_access_event_is_real_def less_parp_access_event_def)
  moreover have "g_state_epoch (parp_count_access event g) = g_state_epoch g"
    by (simp add: parp_count_access_def)
  ultimately show ?thesis
    using assms by (simp add: parp_effective_tier_note_access_def write_begin_quiet Let_def not_le)
qed

text \<open>A stable page is read back as it is.\<close>

lemma snapshot_stable:
  assumes "\<not> bit (ext_state ext) 21"
  shows "parp_effective_tier_state_snapshot (ext_state ext) (Some ext) snap =
    (bit (ext_state ext) 19, \<lparr>
       n_last_access_ms = ext_last_access_ms ext,
       n_previous_interval_ms = ucast (ext_previous_interval_ms ext),
       n_reuse_interval_ema_ms = ucast (ext_reuse_interval_ema_ms ext),
       n_generation_enter_ms = ext_generation_enter_ms ext,
       n_last_upgrade_epoch = ext_decision_epochs ext AND PARP_TIER_EPOCH_MASK,
       n_last_downgrade_epoch = drop_bit 12 (ext_decision_epochs ext) AND PARP_TIER_EPOCH_MASK,
       n_lifetime_epoch = ext_lifetime_epoch ext,
       n_access_ema_q8 = state_access (ext_state ext),
       n_consecutive_candidates = state_candidates (ext_state ext),
       n_generation = state_generation (ext_state ext),
       n_pending_action = state_action (ext_state ext),
       n_state_epoch = epochs_run (ext_decision_epochs ext),
       n_state_sequence = parp_state_seq (ext_state ext),
       n_uncertain = bit (ext_state ext) 20 \<rparr>)"
  using assms by (simp add: parp_effective_tier_state_snapshot_def Let_def flag_bit)

lemma revalidate_stable:
  assumes "\<not> bit (ext_state ext) 21"
  shows "parp_effective_tier_revalidate epoch (ext_state ext) (Some ext) sequence \<longleftrightarrow>
    parp_state_seq (ext_state ext) = sequence \<and> \<not> bit (ext_state ext) 20 \<and>
    epochs_run (ext_decision_epochs ext) = ucast epoch"
  using assms by (simp add: parp_effective_tier_revalidate_def Let_def flag_bit)

text \<open>The new state word of a candidate scan.\<close>

lemma candidate_update_state:
  assumes "parp_candidate_update epoch now_ms folio_gen old ext snap = (valid, values, snap', st)"
  shows "state_generation st = state_generation old" and "state_action st = state_action old"
    and "bit st 19 = bit old 19"
    and "bit st 20 \<longleftrightarrow> bit old 20 \<or> uint (state_generation old) \<noteq> folio_gen"
    and "state_candidates st = min (state_candidates old + 1) 63"
    and "n_state_sequence snap' = (parp_state_seq old + 2) AND PARP_STATE_SEQ_MAX"
    and "valid \<longleftrightarrow> bit old 19 \<and> \<not> bit old 20 \<and>
      now_ms - ext_last_access_ms ext \<le> 0x7FFFFFFF \<and>
      now_ms - ext_generation_enter_ms ext \<le> 0x7FFFFFFF \<and>
      ext_last_access_ms ext \<noteq> 0 \<and> ext_generation_enter_ms ext \<noteq> 0 \<and>
      epochs_run (ext_decision_epochs ext) = ucast epoch \<and>
      uint (state_generation old) = folio_gen"
    and "\<forall>f < 6. 0 \<le> values ! f \<and> values ! f < 2 ^ 32"
proof -
  define ema where "ema = parp_access_ema_on_candidate (ucast (state_access old))"
  define c where "c = min (state_candidates old + 1) 63"
  define s1 where "s1 = (old AND NOT (PARP_STATE_ACCESS_MASK OR PARP_STATE_CANDIDATE_MASK))
      OR ucast ema OR FIELD_PREP 13 8 c"
  have new: "st = (if uint (state_generation old) \<noteq> folio_gen
      then s1 OR PARP_STATE_UNCERTAIN else s1)"
    using assms unfolding parp_candidate_update_def
    by (auto simp: Let_def s1_def ema_def c_def split: if_splits prod.splits)
  have bits: "bit s1 n \<longleftrightarrow> (bit old n \<and> \<not> n \<le> 13) \<or> bit ema n \<or>
      (8 \<le> n \<and> n \<le> 13 \<and> bit c (n - 8))" for n
    by (auto simp: s1_def bit_simps field_bits dest: bit_imp_le_length)
  note b = bits bit_simps field_bits bit_flags
  show "state_generation st = state_generation old" and "state_action st = state_action old"
    unfolding new by (rule bit_word_eqI; auto simp: b dest: bit_u8)+
  show "bit st 19 = bit old 19"
    and "bit st 20 \<longleftrightarrow> bit old 20 \<or> uint (state_generation old) \<noteq> folio_gen"
    unfolding new by (auto simp: b dest: bit_u8)
  have small: "c AND mask 6 = c"
  proof (rule and_mask_small)
    have "c \<le> 63" by (simp add: c_def)
    then show "unat c < 2 ^ 6" by (simp add: word_le_nat_alt)
  qed
  have c6: "bit c n \<Longrightarrow> n < 6" for n
    using small by (metis bit_and_iff bit_mask_iff)
  show "state_candidates st = min (state_candidates old + 1) 63"
    unfolding new c_def [symmetric]
    by (rule bit_word_eqI) (auto simp: b dest: bit_u8 c6)
  show "n_state_sequence snap' = (parp_state_seq old + 2) AND PARP_STATE_SEQ_MAX"
    using assms unfolding parp_candidate_update_def
    by (auto simp: Let_def split: if_splits prod.splits)
  show "valid \<longleftrightarrow> bit old 19 \<and> \<not> bit old 20 \<and>
      now_ms - ext_last_access_ms ext \<le> 0x7FFFFFFF \<and>
      now_ms - ext_generation_enter_ms ext \<le> 0x7FFFFFFF \<and>
      ext_last_access_ms ext \<noteq> 0 \<and> ext_generation_enter_ms ext \<noteq> 0 \<and>
      epochs_run (ext_decision_epochs ext) = ucast epoch \<and>
      uint (state_generation old) = folio_gen"
    using assms unfolding parp_candidate_update_def flag_bit
    by (auto simp: Let_def elapsed_valid split: if_splits prod.splits)
  have w32: "uint (w :: u32) < 2 ^ 32" "uint (h :: u16) < 2 ^ 32" "uint (q :: u8) < 2 ^ 32" for w h q
    using uint_lt2p [of w] uint_lt2p [of h] uint_lt2p [of q] by auto
  have vals: "\<exists>a h1 h2 d e q. values =
      [uint (a :: u32), uint (h1 :: u16), uint (h2 :: u16), uint (d :: u32), uint (e :: u32),
       uint (q :: u8)]"
    using assms unfolding parp_candidate_update_def
    by (auto simp: Let_def split: if_splits prod.splits)
  show "\<forall>f < 6. 0 \<le> values ! f \<and> values ! f < 2 ^ 32"
  proof (intro allI impI)
    fix f :: nat
    assume "f < 6"
    obtain a h1 h2 d e q where v: "values =
      [uint (a :: u32), uint (h1 :: u16), uint (h2 :: u16), uint (d :: u32), uint (e :: u32),
       uint (q :: u8)]" using vals by blast
    show "0 \<le> values ! f \<and> values ! f < 2 ^ 32"
      using less_6_cases [OF \<open>f < 6\<close>] w32 unfolding v by (elim disjE) simp_all
  qed
qed

lemma epochs_previous_field:
  "epochs_previous upgrade e = (if upgrade then epochs_upgrade e else epochs_downgrade e)"
  unfolding epochs_previous_def epoch_mask_eq
  by (auto intro!: bit_word_eqI simp: field_bits bit_simps add.commute)

lemma epochs_with_fields:
  assumes "tag AND mask 12 = tag"
  shows "epochs_previous upgrade (epochs_with upgrade tag e) = tag"
    and "epochs_previous (\<not> upgrade) (epochs_with upgrade tag e) = epochs_previous (\<not> upgrade) e"
    and "epochs_run (epochs_with upgrade tag e) = epochs_run e"
proof -
  have t: "bit tag n \<Longrightarrow> n < 12" for n
    using assms by (metis bit_and_iff bit_mask_iff)
  show "epochs_previous upgrade (epochs_with upgrade tag e) = tag"
    unfolding epochs_previous_field epochs_with_def epoch_mask_eq
    by (rule bit_word_eqI) (auto simp: field_bits bit_simps dest: t)
  show "epochs_previous (\<not> upgrade) (epochs_with upgrade tag e) = epochs_previous (\<not> upgrade) e"
    "epochs_run (epochs_with upgrade tag e) = epochs_run e"
    unfolding epochs_previous_field epochs_with_def epoch_mask_eq
    by (rule bit_word_eqI; auto simp: field_bits bit_simps dest: t)+
qed

section \<open>The averages\<close>

lemma interval_ema_value:
  assumes "old \<noteq> 0"
  shows "uint (parp_interval_ema old (ucast (s :: u16))) =
    uint old + c_div (uint s - uint old) 4"
proof -
  have b: "uint old < 65536" "uint s < 65536"
    using uint_lt2p [of old] uint_lt2p [of s] by auto
  have us: "uint (ucast s :: u32) = uint s"
    using b by (simp add: unsigned_ucast_eq take_bit_int_eq_self)
  have le: "(ucast s :: u32) \<le> U16_MAX" using b us by (simp add: word_le_def)
  define x where "x = uint old + c_div (uint s - uint old) 4"
  have x: "0 \<le> x" "x < 65536"
    using c_div_bounds [of 4 "uint s - uint old"] b uint_ge_0 [of old] uint_ge_0 [of s]
    unfolding x_def by linarith+
  have ux: "uint (word_of_int x :: u32) = x"
    using x by (simp add: unsigned_of_int take_bit_int_eq_self)
  have lex: "(word_of_int x :: u32) \<le> U16_MAX" using x ux by (simp add: word_le_def)
  have "parp_interval_ema old (ucast s) = ucast (word_of_int x :: u32)"
    using assms le lex by (simp add: parp_interval_ema_def parp_sat_u16_def Let_def us x_def min_def)
  moreover have "uint (ucast (word_of_int x :: u32) :: u16) = x"
    using x ux by (simp add: unsigned_ucast_eq take_bit_int_eq_self)
  ultimately show ?thesis by (simp add: x_def)
qed

text \<open>A page interval average that has been seeded is a smoothed value.\<close>

interpretation interval: smoothing "\<lambda>old s. parp_interval_ema old (ucast s)" "\<lambda>old. old \<noteq> 0"
proof
  fix old s :: u16
  assume old: "old \<noteq> 0"
  have pos: "0 < uint old" using old uint_ge_0 [of old] unsigned_eq_0_iff [of old, where 'a = int]
    by linarith
  let ?d = "uint s - uint old"
  note v = interval_ema_value [OF old, of s]
  have q: "c_div ?d 4 \<le> max ?d 0" "min ?d 0 \<le> c_div ?d 4"
    using c_div_bounds [of 4 ?d] by auto
  show "parp_interval_ema old (ucast s) \<le> max old s" "min old s \<le> parp_interval_ema old (ucast s)"
    using q v by (auto simp: word_le_def max_def min_def split: if_splits)
  have "c_div ?d 4 > - uint old"
  proof (cases "?d < 0")
    case True
    have "(- ?d) div 4 \<le> uint old div 4" using uint_ge_0 [of s] by (intro zdiv_mono1) auto
    also have "\<dots> < uint old" using pos by (intro int_div_less_self) auto
    finally show ?thesis using True by (simp add: c_div_neg)
  next
    case False
    then have "0 \<le> c_div ?d 4" using q by auto
    then show ?thesis using pos by simp
  qed
  then have "uint (parp_interval_ema old (ucast s)) \<noteq> 0" using v by simp
  then show "parp_interval_ema old (ucast s) \<noteq> 0" by auto
qed

section \<open>Properties\<close>

text \<open>C9. Whatever other CPUs do while it is entered, a writer section that is entered started from
  an even sequence, holds an odd one, and leaves the next even one (modulo the 11 bits) with exactly
  the low fields of the new word; a decision that carries the old sequence no longer revalidates.\<close>

theorem parp_write_section:
  assumes "parp_state_write_begin env ext = (Some old, ext1)"
    and "ext2 = parp_state_write_end old new_state ext1'"
  shows "\<not> bit old 21 \<and> bit (ext_state ext1) 21 \<and> \<not> bit (ext_state ext2) 21 \<and>
    parp_state_seq (ext_state ext2) = (parp_state_seq old + 2) AND PARP_STATE_SEQ_MAX \<and>
    (\<forall>n. n < 21 \<longrightarrow> bit (ext_state ext1) n = bit old n) \<and>
    (\<forall>n. n < 21 \<longrightarrow> bit (ext_state ext2) n = bit new_state n) \<and>
    (\<forall>epoch later. \<not> parp_effective_tier_revalidate epoch later (Some ext2) (parp_state_seq old))"
proof -
  note enter = write_begin_enters [OF assms(1)]
  have state: "ext_state ext2 = parp_state_released old new_state"
    by (simp add: assms(2) parp_state_write_end_def)
  have "\<not> parp_effective_tier_revalidate epoch later (Some ext2) (parp_state_seq old)" for epoch later
    using seq_released_neq [of old new_state]
    by (auto simp: parp_effective_tier_revalidate_def Let_def state)
  then show ?thesis
    using enter by (auto simp: state released_even locked_odd bit_released_low bit_locked_low
        seq_released seq_max_eq)
qed

text \<open>Witness of C9: entering over one conflicting update of another CPU between the read and the
  compare-and-exchange of the first attempt.\<close>

theorem parp_write_section_witness:
  "\<exists>old ext1. parp_state_write_begin
       (\<lambda>k e. if k = 1 then e \<lparr> ext_state := 0x400000 \<rparr> else e)
       (parp_effective_tier_page_reset \<lparr> ext_last_access_ms = 1, ext_previous_interval_ms = 0,
          ext_reuse_interval_ema_ms = 0, ext_generation_enter_ms = 0, ext_lifetime_epoch = 0,
          ext_state = 0, ext_decision_epochs = 0 \<rparr>) = (Some old, ext1) \<and>
     old = 0x400000 \<and> \<not> bit (ext_state (parp_state_write_end old 7 ext1)) 21"
proof -
  let ?env = "\<lambda>k e. if k = 1 then e \<lparr> ext_state := 0x400000 \<rparr> else (e :: parp_reuse_page_ext)"
  let ?ext = "parp_effective_tier_page_reset \<lparr> ext_last_access_ms = 1, ext_previous_interval_ms = 0,
     ext_reuse_interval_ema_ms = 0, ext_generation_enter_ms = 0, ext_lifetime_epoch = 0,
     ext_state = 0, ext_decision_epochs = 0 \<rparr>"
  have b: "\<not> bit (0 :: u32) 21" "\<not> bit (0x400000 :: u32) 21" by simp_all
  have four: "4 = Suc (Suc 2)" by simp
  have enter: "fst (parp_state_write_begin ?env ?ext) = Some 0x400000"
    unfolding parp_state_write_begin_def four parp_state_write_try.simps seq_odd
    by (simp add: parp_effective_tier_page_reset_def Let_def b)
  obtain ext1 where ext1: "parp_state_write_begin ?env ?ext = (Some 0x400000, ext1)"
    using enter by (cases "parp_state_write_begin ?env ?ext") auto
  show ?thesis using parp_write_section [OF ext1 refl] ext1 by blast
qed

text \<open>A real access recorded on a stable page is what the next reader sees: the time of the
  access, no candidate streak, no uncertainty, the current run epoch, the same generation and
  lifetime; a pending action survives only within the same run.\<close>

theorem parp_note_access_read_back:
  assumes "\<not> bit (ext_state ext) 21" and "parp_access_event_is_real event"
    and "parp_effective_tier_note_access quiet trace_on now_ms event (g, Some ext) = (g', Some ext')"
    and "parp_effective_tier_state_snapshot (ext_state ext') (Some ext') snap = (ok, snap')"
  shows "ok \<and> n_last_access_ms snap' = now_ms \<and> n_consecutive_candidates snap' = 0 \<and>
    \<not> n_uncertain snap' \<and> n_state_epoch snap' = ucast (g_state_epoch g) \<and>
    n_generation snap' = state_generation (ext_state ext) \<and>
    n_lifetime_epoch snap' = ext_lifetime_epoch ext \<and>
    n_pending_action snap' =
      (if epochs_run (ext_decision_epochs ext) = ucast (g_state_epoch g)
       then state_action (ext_state ext) else 0) \<and>
    n_state_sequence snap' = (parp_state_seq (ext_state ext) + 2) AND PARP_STATE_SEQ_MAX"
proof -
  let ?locked = "ext \<lparr> ext_state := parp_state_locked (ext_state ext) \<rparr>"
  obtain ext2 st where upd:
    "parp_real_access_update (g_state_epoch g) now_ms (ext_state ext) ?locked = (ext2, st)"
    by (cases "parp_real_access_update (g_state_epoch g) now_ms (ext_state ext) ?locked")
  note f = real_access_update_state [OF upd]
  have ext': "ext' = parp_state_write_end (ext_state ext) st ext2"
    using note_access_real_quiet [OF assms(1,2) upd, of trace_on] assms(3) by simp
  then have state: "ext_state ext' = parp_state_released (ext_state ext) st"
    by (simp add: parp_state_write_end_def)
  have even: "\<not> bit (ext_state ext') 21" using state released_even assms(1) by simp
  have snap': "snap' = snd (parp_effective_tier_state_snapshot (ext_state ext') (Some ext') snap)"
    "ok = fst (parp_effective_tier_state_snapshot (ext_state ext') (Some ext') snap)"
    using assms(4) by simp_all
  have payload: "ext_last_access_ms ext' = ext_last_access_ms ext2"
    "ext_decision_epochs ext' = ext_decision_epochs ext2"
    "ext_lifetime_epoch ext' = ext_lifetime_epoch ext2"
    by (simp_all add: ext' parp_state_write_end_def)
  show ?thesis
    unfolding snap' snapshot_stable [OF even] using f
    by (simp add: payload state parp_field seq_released seq_max_eq)
qed

text \<open>An instance: the first access of a freshly allocated page at 1234 ms.\<close>

theorem parp_note_access_read_back_witness:
  "\<exists>g' ext' snap'. parp_effective_tier_note_access quiet False 1234 PARP_ACCESS_PTE_YOUNG
       (parp_tier_boot, Some \<lparr> ext_last_access_ms = 0, ext_previous_interval_ms = 0,
          ext_reuse_interval_ema_ms = 0, ext_generation_enter_ms = 0, ext_lifetime_epoch = 1,
          ext_state = 0, ext_decision_epochs = 0 \<rparr>) = (g', Some ext') \<and>
     parp_effective_tier_state_snapshot (ext_state ext') (Some ext') snapshot_zero = (True, snap') \<and>
     n_last_access_ms snap' = 1234"
proof -
  let ?ext = "\<lparr> ext_last_access_ms = 0, ext_previous_interval_ms = 0,
     ext_reuse_interval_ema_ms = 0, ext_generation_enter_ms = 0, ext_lifetime_epoch = 1,
     ext_state = 0, ext_decision_epochs = 0 \<rparr> :: parp_reuse_page_ext"
  let ?run = "parp_effective_tier_note_access quiet False 1234 PARP_ACCESS_PTE_YOUNG
     (parp_tier_boot, Some ?ext)"
  have even: "\<not> bit (ext_state ?ext) 21" by simp
  have real: "parp_access_event_is_real PARP_ACCESS_PTE_YOUNG"
    by (simp add: parp_access_event_is_real_def)
  obtain ext2 st where upd: "parp_real_access_update (g_state_epoch parp_tier_boot) 1234
      (ext_state ?ext) (?ext \<lparr> ext_state := parp_state_locked (ext_state ?ext) \<rparr>) = (ext2, st)"
    by fastforce
  obtain g' ext' where run: "?run = (g', Some ext')"
    using note_access_real_quiet [OF even real upd, of False] by (cases ?run) simp
  obtain ok snap' where read:
    "parp_effective_tier_state_snapshot (ext_state ext') (Some ext') snapshot_zero = (ok, snap')"
    by fastforce
  show ?thesis using parp_note_access_read_back [OF even real run read] run read by auto
qed

text \<open>A candidate scan that reports valid features took them from an initialised, certain page
  of the current run whose recorded generation is the folio's; the features can be scored, and until
  another writer gets in, the snapshot's sequence revalidates.\<close>

theorem parp_candidate_valid_scores_and_revalidates:
  assumes "parp_candidate_features env epoch now_ms folio_gen (Some ext) values0 snap0 =
             (True, values, snap, page)"
  shows "\<exists>ext2 score. page = Some ext2 \<and>
    parp_effective_tier_score_values values = Some score \<and>
    parp_effective_tier_revalidate epoch (ext_state ext2) page (n_state_sequence snap) \<and>
    uint (state_generation (ext_state ext2)) = folio_gen \<and>
    bit (ext_state ext2) 19 \<and> \<not> bit (ext_state ext2) 20 \<and> 1 \<le> state_candidates (ext_state ext2)"
proof -
  obtain old ext1 where enter: "parp_state_write_begin env ext = (Some old, ext1)"
    using assms by (auto simp: parp_candidate_features_def split: prod.splits option.splits)
  obtain st where upd: "parp_candidate_update epoch now_ms folio_gen old ext1 snap0 =
      (True, values, snap, st)" and page: "page = Some (parp_state_write_end old st ext1)"
    using assms enter by (auto simp: parp_candidate_features_def split: prod.splits)
  note f = candidate_update_state [OF upd]
  let ?ext2 = "parp_state_write_end old st ext1"
  have state: "ext_state ?ext2 = parp_state_released old st"
    and epochs: "ext_decision_epochs ?ext2 = ext_decision_epochs ext1"
    by (simp_all add: parp_state_write_end_def)
  have even: "\<not> bit (ext_state ?ext2) 21"
    using write_begin_enters(1) [OF enter] by (simp add: state released_even)
  have nomin: "\<forall>f < 6. values ! f \<noteq> S64_MIN" using f(8) by fastforce
  have "parp_effective_tier_revalidate epoch (ext_state ?ext2) page (n_state_sequence snap)"
    unfolding page revalidate_stable [OF even] using f
    by (simp add: state epochs parp_field seq_released seq_max_eq)
  moreover have "1 \<le> state_candidates (ext_state ?ext2)"
  proof -
    have "unat (state_candidates old) < 2 ^ 6" using FIELD_GET_bound [of 8 13 old] by simp
    then have "unat (state_candidates old + 1) = unat (state_candidates old) + 1"
      by (subst unat_add_lem [THEN iffD1]) auto
    then show ?thesis using f(5) by (simp add: state parp_field word_le_nat_alt min_def)
  qed
  ultimately show ?thesis
    using parp_score_total [OF nomin] f(1,3,4,7) page by (simp add: state parp_field)
qed

text \<open>An instance: a page accessed 50 ms ago that entered its generation 100 ms ago.\<close>

theorem parp_candidate_valid_scores_and_revalidates_witness:
  "\<exists>values snap page ext2 score. parp_candidate_features quiet 0 1000 0
      (Some \<lparr> ext_last_access_ms = 950, ext_previous_interval_ms = 20,
         ext_reuse_interval_ema_ms = 30, ext_generation_enter_ms = 900, ext_lifetime_epoch = 1,
         ext_state = PARP_STATE_INITIALIZED, ext_decision_epochs = 0 \<rparr>) [] snapshot_zero =
      (True, values, snap, page) \<and> page = Some ext2 \<and>
    parp_effective_tier_score_values values = Some score \<and>
    parp_effective_tier_revalidate 0 (ext_state ext2) page (n_state_sequence snap)"
proof -
  let ?ext = "\<lparr> ext_last_access_ms = 950, ext_previous_interval_ms = 20,
     ext_reuse_interval_ema_ms = 30, ext_generation_enter_ms = 900, ext_lifetime_epoch = 1,
     ext_state = PARP_STATE_INITIALIZED, ext_decision_epochs = 0 \<rparr> :: parp_reuse_page_ext"
  let ?locked = "?ext \<lparr> ext_state := parp_state_locked (ext_state ?ext) \<rparr>"
  have even: "\<not> bit (ext_state ?ext) 21" by (simp add: bit_flags)
  have gen: "uint (state_generation PARP_STATE_INITIALIZED) = 0"
  proof -
    have "state_generation PARP_STATE_INITIALIZED = 0"
      by (rule bit_word_eqI) (auto simp: field_bits bit_flags)
    then show ?thesis by simp
  qed
  have run: "epochs_run 0 = (0 :: u32)"
    by (rule bit_word_eqI) (auto simp: field_bits)
  obtain valid vals snap st where upd:
    "parp_candidate_update 0 1000 0 (ext_state ?ext) ?locked snapshot_zero = (valid, vals, snap, st)"
    by (cases "parp_candidate_update 0 1000 0 (ext_state ?ext) ?locked snapshot_zero")
  have "valid" using candidate_update_state(7) [OF upd] gen run by (simp add: bit_flags)
  then have features: "parp_candidate_features quiet 0 1000 0 (Some ?ext) [] snapshot_zero =
      (True, vals, snap, Some (parp_state_write_end (ext_state ?ext) st ?locked))"
    using upd by (simp add: parp_candidate_features_def write_begin_quiet [OF even])
  show ?thesis using parp_candidate_valid_scores_and_revalidates [OF features] features by blast
qed

text \<open>C24. An epoch claim that succeeds can not be repeated with the same tag (the second answer is
  the repeat bypass of that direction), leaves the claim of the other direction and the run epoch
  alone, and after a release the same tag can be claimed again.\<close>

theorem parp_claim_once_per_epoch:
  assumes "parp_effective_tier_claim_epoch_sequence env epoch upgrade tag expected (Some ext) =
             (Inr sequence, page)"
    and "unat tag < 2 ^ 12" and "tag \<noteq> 0" and "g_state_epoch g = epoch"
  shows "\<exists>ext2 ext3. page = Some ext2 \<and> parp_state_seq (ext_state ext2) = sequence \<and>
    fst (parp_effective_tier_claim_epoch quiet epoch upgrade tag page) =
      Inl (if upgrade then PARP_TIER_BYPASS_REPEAT_UPGRADE else PARP_TIER_BYPASS_REPEAT_DOWNGRADE) \<and>
    parp_effective_tier_release_epoch quiet upgrade tag (g, page) = (True, g, Some ext3) \<and>
    epochs_previous (\<not> upgrade) (ext_decision_epochs ext3) =
      epochs_previous (\<not> upgrade) (ext_decision_epochs ext2) \<and>
    (\<exists>seq' page'. parp_effective_tier_claim_epoch quiet epoch upgrade tag (Some ext3) =
       (Inr seq', page'))"
proof -
  obtain old ext1 where enter: "parp_state_write_begin env ext = (Some old, ext1)"
    using assms(1)
    by (auto simp: parp_effective_tier_claim_epoch_sequence_def split: prod.splits option.splits)
  define ext2 where "ext2 = parp_state_write_end old old
    (ext1 \<lparr> ext_decision_epochs := epochs_with upgrade tag (ext_decision_epochs ext1) \<rparr>)"
  have run: "epochs_run (ext_decision_epochs ext1) = ucast epoch" and page: "page = Some ext2"
    and sequence: "sequence = (parp_state_seq old + 2) AND PARP_STATE_SEQ_MAX"
    using assms(1) enter
    by (auto simp: parp_effective_tier_claim_epoch_sequence_def ext2_def Let_def
        split: if_splits)
  have tag: "tag AND mask 12 = tag" using assms(2) by (rule and_mask_small)
  note w = epochs_with_fields [OF tag, of upgrade "ext_decision_epochs ext1"]
  have ext2: "ext_state ext2 = parp_state_released old old"
    "ext_decision_epochs ext2 = epochs_with upgrade tag (ext_decision_epochs ext1)"
    by (simp_all add: ext2_def parp_state_write_end_def)
  have even2: "\<not> bit (ext_state ext2) 21"
    using write_begin_enters(1) [OF enter] by (simp add: ext2 released_even)
  define ext3 where "ext3 = parp_state_write_end (ext_state ext2) (ext_state ext2)
    (ext2 \<lparr> ext_state := parp_state_locked (ext_state ext2),
       ext_decision_epochs := epochs_with upgrade 0 (ext_decision_epochs ext2) \<rparr>)"
  have ext3: "ext_state ext3 = parp_state_released (ext_state ext2) (ext_state ext2)"
    "ext_decision_epochs ext3 = epochs_with upgrade 0 (ext_decision_epochs ext2)"
    by (simp_all add: ext3_def parp_state_write_end_def)
  note z = epochs_with_fields [of 0 upgrade "ext_decision_epochs ext2"]
  have even3: "\<not> bit (ext_state ext3) 21" using even2 by (simp add: ext3 released_even)
  have repeat: "fst (parp_effective_tier_claim_epoch quiet epoch upgrade tag page) =
      Inl (if upgrade then PARP_TIER_BYPASS_REPEAT_UPGRADE else PARP_TIER_BYPASS_REPEAT_DOWNGRADE)"
    using w run by (simp add: parp_effective_tier_claim_epoch_def page
        parp_effective_tier_claim_epoch_sequence_def write_begin_quiet [OF even2] ext2 Let_def)
  have release: "parp_effective_tier_release_epoch quiet upgrade tag (g, page) = (True, g, Some ext3)"
    using w run assms(4) by (simp add: parp_effective_tier_release_epoch_def page
        write_begin_quiet [OF even2] ext2 ext3_def Let_def)
  have "epochs_previous (\<not> upgrade) (ext_decision_epochs ext3) =
      epochs_previous (\<not> upgrade) (ext_decision_epochs ext2)"
    using z(2) by (simp add: ext3)
  moreover have "\<exists>seq' page'. parp_effective_tier_claim_epoch quiet epoch upgrade tag (Some ext3) =
      (Inr seq', page')"
    using z(1,3) w(3) run assms(3) by (simp add: parp_effective_tier_claim_epoch_def
        parp_effective_tier_claim_epoch_sequence_def write_begin_quiet [OF even3] ext3 ext2 Let_def)
  moreover have "parp_state_seq (ext_state ext2) = sequence"
    by (simp add: ext2 sequence seq_released seq_max_eq)
  ultimately show ?thesis using page repeat release by blast
qed

text \<open>Witness of C24: an upgrade claim with tag 9 in run 0.\<close>

theorem parp_claim_once_per_epoch_witness:
  "\<exists>sequence page. parp_effective_tier_claim_epoch_sequence quiet 0 True 9 (Some 0)
      (Some \<lparr> ext_last_access_ms = 1, ext_previous_interval_ms = 0,
         ext_reuse_interval_ema_ms = 0, ext_generation_enter_ms = 1, ext_lifetime_epoch = 1,
         ext_state = 0, ext_decision_epochs = 0 \<rparr>) = (Inr sequence, page) \<and>
    fst (parp_effective_tier_claim_epoch quiet 0 True 9 page) = Inl PARP_TIER_BYPASS_REPEAT_UPGRADE"
proof -
  let ?ext = "\<lparr> ext_last_access_ms = 1, ext_previous_interval_ms = 0,
     ext_reuse_interval_ema_ms = 0, ext_generation_enter_ms = 1, ext_lifetime_epoch = 1,
     ext_state = 0, ext_decision_epochs = 0 \<rparr> :: parp_reuse_page_ext"
  have even: "\<not> bit (ext_state ?ext) 21" by simp
  have zero: "epochs_run 0 = (0 :: u32)" "parp_state_seq 0 = 0"
    by (rule bit_word_eqI; simp add: field_bits parp_state_seq_def)+
  obtain page where claim: "parp_effective_tier_claim_epoch_sequence quiet 0 True 9 (Some 0)
      (Some ?ext) = (Inr (0 + 2 AND PARP_STATE_SEQ_MAX), page)"
    using zero by (simp add: parp_effective_tier_claim_epoch_sequence_def write_begin_quiet [OF even]
        Let_def epochs_previous_def)
  have "unat (9 :: u32) < 2 ^ 12" and "(9 :: u32) \<noteq> 0" and "g_state_epoch parp_tier_boot = 0"
    by (simp_all add: parp_tier_boot_def)
  from parp_claim_once_per_epoch [OF claim this] claim show ?thesis by auto
qed

lemma pending_code_field:
  "FIELD_GET 18 16 ((old AND NOT PARP_STATE_ACTION_MASK) OR FIELD_PREP 18 16 v) = v AND mask 3"
  by (rule bit_word_eqI) (auto simp: field_bits bit_simps)

lemma pending_code_nonzero: "(tier_action_code action + 1) AND mask 3 \<noteq> 0"
  by (cases action) (simp_all add: mask_eq_exp_minus_1)

lemma cleared_action: "state_action (old AND NOT PARP_STATE_ACTION_MASK) = 0"
  by (rule bit_word_eqI) (auto simp: field_bits bit_simps)

lemma outcome_quiet:
  assumes "\<not> bit (ext_state ext) 21"
  shows "parp_effective_tier_outcome quiet trace_on outcome (g, Some ext) =
    (let counted = (g_stats g) \<lparr> t_outcomes := inc64 (t_outcomes (g_stats g)) outcome \<rparr> in
      (if state_action (ext_state ext) = 0 \<or>
          epochs_run (ext_decision_epochs ext) \<noteq> ucast (g_state_epoch g) then g
       else if trace_on
       then g \<lparr> g_trace_sequence := g_trace_sequence g + 1,
                g_stats := counted \<lparr> t_trace_outcomes := t_trace_outcomes counted + 1 \<rparr> \<rparr>
       else g \<lparr> g_stats := counted \<rparr>),
     Some (ext \<lparr> ext_state := parp_state_released (ext_state ext)
        (ext_state ext AND NOT PARP_STATE_ACTION_MASK) \<rparr>))"
  by (simp add: parp_effective_tier_outcome_def write_begin_quiet [OF assms] Let_def
      parp_state_write_end_def)

text \<open>An action stored on a page of the current run is counted by the first outcome of the page
  and by no later one: the outcome consumes it.\<close>

theorem parp_pending_counted_once:
  assumes "parp_set_pending_action env action (Some ext) = (True, page)"
    and "page = Some ext1" and "epochs_run (ext_decision_epochs ext1) = ucast (g_state_epoch g)"
    and "parp_effective_tier_outcome quiet trace_on o1 (g, page) = (g1, page1)"
    and "parp_effective_tier_outcome quiet trace_on o2 (g1, page1) = (g2, page2)"
  shows "t_outcomes (g_stats g1) = inc64 (t_outcomes (g_stats g)) o1 \<and> g2 = g1"
proof -
  obtain old ext0 where enter: "parp_state_write_begin env ext = (Some old, ext0)"
    using assms(1) by (auto simp: parp_set_pending_action_def split: prod.splits option.splits)
  have ext1: "ext1 = parp_state_write_end old
      ((old AND NOT PARP_STATE_ACTION_MASK) OR FIELD_PREP 18 16 (tier_action_code action + 1)) ext0"
    using assms(1,2) enter by (simp add: parp_set_pending_action_def)
  have state1: "ext_state ext1 = parp_state_released old
      ((old AND NOT PARP_STATE_ACTION_MASK) OR FIELD_PREP 18 16 (tier_action_code action + 1))"
    by (simp add: ext1 parp_state_write_end_def)
  have even1: "\<not> bit (ext_state ext1) 21"
    using write_begin_enters(1) [OF enter] by (simp add: state1 released_even)
  have pending: "state_action (ext_state ext1) \<noteq> 0"
    using pending_code_nonzero by (simp add: state1 parp_field pending_code_field)
  define ext2 where "ext2 = ext1 \<lparr> ext_state := parp_state_released (ext_state ext1)
    (ext_state ext1 AND NOT PARP_STATE_ACTION_MASK) \<rparr>"
  have page1: "page1 = Some ext2"
    and g1: "t_outcomes (g_stats g1) = inc64 (t_outcomes (g_stats g)) o1"
    using assms(2-4) pending outcome_quiet [OF even1, of trace_on o1 g]
    by (auto simp: ext2_def Let_def split: if_splits)
  have even2: "\<not> bit (ext_state ext2) 21" using even1 by (simp add: ext2_def released_even)
  have "state_action (ext_state ext2) = 0" by (simp add: ext2_def parp_field cleared_action)
  then have "g2 = g1"
    using assms(5) outcome_quiet [OF even2, of trace_on o2 g1] by (simp add: page1 Let_def)
  then show ?thesis using g1 by simp
qed

text \<open>An instance: an upgrade is stored, the folio is reclaimed, then put back.\<close>

theorem parp_pending_counted_once_witness:
  "\<exists>page g1 page1. parp_set_pending_action quiet PARP_TIER_PREDICTIVE_UPGRADE
      (Some \<lparr> ext_last_access_ms = 1, ext_previous_interval_ms = 0,
         ext_reuse_interval_ema_ms = 0, ext_generation_enter_ms = 1, ext_lifetime_epoch = 1,
         ext_state = 0, ext_decision_epochs = 0 \<rparr>) = (True, page) \<and>
    parp_effective_tier_outcome quiet False PARP_TIER_OUTCOME_RECLAIMED (parp_tier_boot, page) =
      (g1, page1) \<and> t_outcomes (g_stats g1) PARP_TIER_OUTCOME_RECLAIMED = 1"
proof -
  let ?ext = "\<lparr> ext_last_access_ms = 1, ext_previous_interval_ms = 0,
     ext_reuse_interval_ema_ms = 0, ext_generation_enter_ms = 1, ext_lifetime_epoch = 1,
     ext_state = 0, ext_decision_epochs = 0 \<rparr> :: parp_reuse_page_ext"
  have even: "\<not> bit (ext_state ?ext) 21" by simp
  obtain page where set: "parp_set_pending_action quiet PARP_TIER_PREDICTIVE_UPGRADE (Some ?ext) =
      (True, page)"
    by (simp add: parp_set_pending_action_def write_begin_quiet [OF even])
  then obtain ext1 where page: "page = Some ext1"
    and e: "ext_decision_epochs ext1 = 0"
    by (auto simp: parp_set_pending_action_def write_begin_quiet [OF even] parp_state_write_end_def)
  have "epochs_run 0 = (0 :: u32)" by (rule bit_word_eqI) (auto simp: field_bits)
  then have run: "epochs_run (ext_decision_epochs ext1) = ucast (g_state_epoch parp_tier_boot)"
    by (simp add: e parp_tier_boot_def)
  obtain g1 page1 where first: "parp_effective_tier_outcome quiet False
      PARP_TIER_OUTCOME_RECLAIMED (parp_tier_boot, page) = (g1, page1)" by fastforce
  obtain g2 page2 where second: "parp_effective_tier_outcome quiet False
      PARP_TIER_OUTCOME_PUTBACK (g1, page1) = (g2, page2)" by fastforce
  show ?thesis
    using parp_pending_counted_once [OF set page run first second] set first
    by (auto simp: inc64_def parp_tier_boot_def stats_zero_def)
qed

text \<open>A seeded reuse interval average never leaves an interval that holds its start and all the
  samples that follow, and is a fixed point of its own value.\<close>

theorem parp_interval_ema_bounded:
  assumes "start \<noteq> 0" and "lo \<le> start" "start \<le> hi" and "\<forall>s \<in> set samples. lo \<le> s \<and> s \<le> hi"
  shows "lo \<le> foldl (\<lambda>old s. parp_interval_ema old (ucast s)) start samples \<and>
    foldl (\<lambda>old s. parp_interval_ema old (ucast s)) start samples \<le> hi \<and>
    parp_interval_ema start (ucast start) = start"
  using interval.smooth_run_bounded [OF assms] interval.smooth_fixpoint [OF assms(1)] by blast

text \<open>An instance.\<close>

theorem parp_interval_ema_bounded_witness:
  "50 \<le> foldl (\<lambda>old s. parp_interval_ema old (ucast (s :: u16))) 100 [60, 400, 50]"
  using parp_interval_ema_bounded [of 100 50 400 "[60, 400, 50]"] by simp

lemma page_reset_state: "ext_state (parp_effective_tier_page_reset ext) = 0"
  by (simp add: parp_effective_tier_page_reset_def Let_def)

text \<open>Allocation starts a new life for each of its \<open>2 ^ order\<close> pages and no other: the lifetime
  number changes and is never zero, and in an active run (a non-zero run epoch) nothing decided
  before the allocation revalidates, and no features are valid before a real access.\<close>

theorem parp_page_alloc_new_life:
  assumes "i < length pages" and "pages ! i = Some ext" and "epoch \<noteq> 0"
  shows "if i < 2 ^ order
    then \<exists>ext'. parp_effective_tier_page_alloc pages order ! i = Some ext' \<and>
      ext_lifetime_epoch ext' \<noteq> ext_lifetime_epoch ext \<and> ext_lifetime_epoch ext' \<noteq> 0 \<and>
      (\<forall>later sequence. \<not> parp_effective_tier_revalidate epoch later (Some ext') sequence) \<and>
      (\<forall>now_ms gen vals snap.
         \<not> fst (parp_candidate_features quiet epoch now_ms gen (Some ext') vals snap))
    else parp_effective_tier_page_alloc pages order ! i = pages ! i"
proof (cases "i < 2 ^ order")
  case True
  define ext' where "ext' = parp_effective_tier_page_reset ext"
  have at: "parp_effective_tier_page_alloc pages order ! i = Some ext'"
    using True assms by (simp add: parp_effective_tier_page_alloc_def nth_append ext'_def)
  have run: "epochs_run (ext_decision_epochs ext') = 0" and state: "ext_state ext' = 0"
    and access: "ext_last_access_ms ext' = 0"
    by (simp_all add: ext'_def parp_effective_tier_page_reset_def Let_def bit_word_eqI field_bits)
  have epoch: "(ucast epoch :: u32) \<noteq> 0"
  proof
    assume z: "(ucast epoch :: u32) = 0"
    have "epoch = 0"
      by (rule bit_word_eqI) (metis z bit_0_eq bot_apply ucast_8_bits bot_bool_def)
    with assms(3) show False ..
  qed
  have life: "ext_lifetime_epoch ext' \<noteq> ext_lifetime_epoch ext" "ext_lifetime_epoch ext' \<noteq> 0"
    by (auto simp: ext'_def parp_effective_tier_page_reset_def Let_def)
  have "\<not> parp_effective_tier_revalidate epoch later (Some ext') sequence" for later sequence
    using run epoch by (simp add: parp_effective_tier_revalidate_def Let_def state)
  moreover have "\<not> fst (parp_candidate_features quiet epoch now_ms gen (Some ext') vals snap)"
    for now_ms gen vals snap
  proof -
    let ?locked = "ext' \<lparr> ext_state := parp_state_locked (ext_state ext') \<rparr>"
    obtain valid v s st where upd: "parp_candidate_update epoch now_ms gen (ext_state ext') ?locked
        snap = (valid, v, s, st)"
      by (cases "parp_candidate_update epoch now_ms gen (ext_state ext') ?locked snap")
    have "\<not> bit (ext_state ext') 21" by (simp add: state)
    then show ?thesis using candidate_update_state(7) [OF upd] upd
      by (simp add: parp_candidate_features_def write_begin_quiet state access)
  qed
  ultimately show ?thesis using True at life by simp
next
  case False
  then show ?thesis using assms by (simp add: parp_effective_tier_page_alloc_def nth_append)
qed

text \<open>An instance: the second page of an order-0 allocation is left alone, the first is reset.\<close>

theorem parp_page_alloc_new_life_witness:
  "\<exists>ext'. parp_effective_tier_page_alloc [Some \<lparr> ext_last_access_ms = 1,
       ext_previous_interval_ms = 0, ext_reuse_interval_ema_ms = 0, ext_generation_enter_ms = 1,
       ext_lifetime_epoch = 0xFFFFFFFF, ext_state = 0, ext_decision_epochs = 0 \<rparr>, None] 0 ! 0 =
     Some ext' \<and> ext_lifetime_epoch ext' \<noteq> 0"
  using parp_page_alloc_new_life [of 0 "[Some \<lparr> ext_last_access_ms = 1,
       ext_previous_interval_ms = 0, ext_reuse_interval_ema_ms = 0, ext_generation_enter_ms = 1,
       ext_lifetime_epoch = 0xFFFFFFFF, ext_state = 0, ext_decision_epochs = 0 \<rparr>, None]" _ 1 0]
  by auto

end
