(* ===== verification/Tier_Config.thy ===== *)
theory Tier_Config
  imports Tier_State
begin

text \<open>
  The control side of \<open>mm/parp/core/effective_tier.c\<close>: the boot parameter, the mode switch, the
  configuration writer, the fault latch and the lock-hold measurements. The setters return
  \<open>None\<close> for 0. \<open>apply\<close> stands for \<open>CONFIG_PARP_EFFECTIVE_TIER_EXPERIMENTAL_APPLY\<close>. The argument of
  the configuration writer is what \<open>sscanf\<close> matched, \<open>None\<close> when it matched fewer than 14 fields.
\<close>

section \<open>Boot\<close>

text \<open>\<open>reserve\<close> is the parsed boolean of the early parameter, \<open>None\<close> if missing or malformed.\<close>

definition parp_effective_tier_reserve_setup ::
  "bool option \<Rightarrow> parp_tier_globals \<Rightarrow> parp_tier_globals" where
  "parp_effective_tier_reserve_setup reserve g =
     (case reserve of None \<Rightarrow> g | Some r \<Rightarrow> g \<lparr> g_metadata_requested := r \<rparr>)"

definition parp_effective_tier_page_ext_needed :: "parp_tier_globals \<Rightarrow> bool" where
  "parp_effective_tier_page_ext_needed g = g_metadata_requested g"

definition parp_effective_tier_page_ext_init :: "parp_tier_globals \<Rightarrow> parp_tier_globals" where
  "parp_effective_tier_page_ext_init g = g \<lparr> g_metadata_ready := True \<rparr>"

definition parp_effective_tier_metadata_ready :: "parp_tier_globals \<Rightarrow> bool" where
  "parp_effective_tier_metadata_ready g = g_metadata_ready g"

section \<open>Mode\<close>

definition parp_effective_tier_get_mode :: "parp_tier_globals \<Rightarrow> parp_effective_tier_mode" where
  "parp_effective_tier_get_mode g = g_mode g"

definition parp_effective_tier_set_mode ::
  "bool \<Rightarrow> parp_effective_tier_mode \<Rightarrow> parp_tier_globals \<Rightarrow> errno option \<times> parp_tier_globals" where
  "parp_effective_tier_set_mode apply_built mode g =
     (if mode > PARP_EFFECTIVE_TIER_RECENCY_BASELINE then (Some EINVAL, g)
      else if mode \<ge> PARP_EFFECTIVE_TIER_PROTECT_ONLY \<and> \<not> apply_built then (Some EOPNOTSUPP, g)
      else if mode = PARP_EFFECTIVE_TIER_SHADOW \<and> \<not> parp_effective_tier_metadata_ready g
      then (Some EOPNOTSUPP, g)
      else if mode \<ge> PARP_EFFECTIVE_TIER_PROTECT_ONLY \<and>
              (case parp_runtime_config_read g of
                 None \<Rightarrow> True
               | Some config \<Rightarrow> max_upgrade_tiers (c_policy config) > 2)
      then (Some ERANGE, g)
      else if g_mode g = mode then (None, g)
      else if g_mode g = PARP_EFFECTIVE_TIER_OFF \<and> mode \<noteq> PARP_EFFECTIVE_TIER_OFF
      then if g_state_epoch g = U8_MAX then (Some EOVERFLOW, g)
           else (None, g \<lparr> g_state_epoch := g_state_epoch g + 1, g_state_fault := False,
                           g_mode := mode, k_enabled := True \<rparr>)
      else if mode = PARP_EFFECTIVE_TIER_OFF
      then (None, g \<lparr> k_enabled := False, g_mode := mode \<rparr>)
      else (Some EBUSY, g))"

section \<open>Configuration\<close>

record parp_tier_config_input =
  i_cold :: int
  i_hot_1 :: int
  i_hot_2 :: int
  i_hot_3 :: int
  i_max_upgrade :: u32
  i_require_two_cold :: u32
  i_upgrade_batch :: u64
  i_upgrade_epoch :: u64
  i_upgrade_ratio :: u32
  i_downgrade_batch :: u64
  i_downgrade_epoch :: u64
  i_downgrade_ratio :: u32
  i_experiment :: u64
  i_session :: u64

definition parp_tier_config_input_ok :: "parp_tier_config_input \<Rightarrow> bool" where
  "parp_tier_config_input_ok i \<longleftrightarrow>
     \<not> (i_cold i \<ge> i_hot_1 i \<or> i_hot_1 i \<ge> i_hot_2 i \<or> i_hot_2 i \<ge> i_hot_3 i \<or>
        i_max_upgrade i < 1 \<or> i_max_upgrade i > 3 \<or> i_require_two_cold i > 1 \<or>
        i_upgrade_batch i = 0 \<or> i_upgrade_epoch i = 0 \<or>
        i_downgrade_batch i = 0 \<or> i_downgrade_epoch i = 0 \<or>
        i_upgrade_ratio i = 0 \<or> i_upgrade_ratio i > 10000 \<or>
        i_downgrade_ratio i = 0 \<or> i_downgrade_ratio i > 10000)"

definition parp_tier_config_of ::
  "parp_tier_config_input \<Rightarrow> parp_tier_runtime_config \<Rightarrow> parp_tier_runtime_config" where
  "parp_tier_config_of i c = c \<lparr>
     c_policy := \<lparr> cold_threshold = i_cold i, hot_threshold_1 = i_hot_1 i,
       hot_threshold_2 = i_hot_2 i, hot_threshold_3 = i_hot_3 i,
       max_upgrade_tiers = ucast (i_max_upgrade i), max_downgrade_tiers = 1,
       require_two_cold = (i_require_two_cold i \<noteq> 0) \<rparr>,
     c_upgrade_batch_pages := i_upgrade_batch i, c_upgrade_epoch_pages := i_upgrade_epoch i,
     c_downgrade_batch_pages := i_downgrade_batch i, c_downgrade_epoch_pages := i_downgrade_epoch i,
     c_upgrade_ratio_permyriad := i_upgrade_ratio i,
     c_downgrade_ratio_permyriad := i_downgrade_ratio i,
     c_experiment_id := i_experiment i, c_session_id := i_session i \<rparr>"

definition parp_effective_tier_set_config ::
  "parp_tier_config_input option \<Rightarrow> parp_tier_globals \<Rightarrow> errno option \<times> parp_tier_globals" where
  "parp_effective_tier_set_config input g =
     (case parp_runtime_config_read g of
        None \<Rightarrow> (Some EAGAIN, g)
      | Some next_config \<Rightarrow>
          (case input of
             None \<Rightarrow> (Some EINVAL, g)
           | Some i \<Rightarrow>
               if \<not> parp_tier_config_input_ok i then (Some ERANGE, g)
               else if g_mode g \<noteq> PARP_EFFECTIVE_TIER_OFF then (Some EBUSY, g)
               else let sequence = c_sequence (g_config g)
                    in (None, g \<lparr> g_config :=
                         (parp_tier_config_of i next_config) \<lparr> c_sequence := sequence + 2 \<rparr> \<rparr>)))"

section \<open>Lock measurements\<close>

datatype parp_tier_lock_scope = PARP_TIER_LOCK_SCAN_FOLIOS | PARP_TIER_LOCK_BATCH

record parp_tier_lock_measurement =
  m_irq_disabled_started_ns :: u64
  m_lock_attempt_started_ns :: u64
  m_acquired_ns :: u64
  m_releasing_ns :: u64
  m_irq_disabled_ended_ns :: u64
  m_experiment_id :: u64
  m_session_id :: u64
  m_mode :: parp_effective_tier_mode
  m_irq_disabled_measured :: bool

definition parp_effective_tier_lock_start ::
  "u64 \<Rightarrow> u64 \<Rightarrow> parp_tier_globals \<Rightarrow> parp_tier_lock_measurement" where
  "parp_effective_tier_lock_start irq_ns attempt_ns g =
     (let config = parp_runtime_config_read g
      in \<lparr> m_irq_disabled_started_ns = irq_ns, m_lock_attempt_started_ns = attempt_ns,
           m_acquired_ns = 0, m_releasing_ns = 0, m_irq_disabled_ended_ns = 0,
           m_experiment_id = (case config of None \<Rightarrow> 0 | Some c \<Rightarrow> c_experiment_id c),
           m_session_id = (case config of None \<Rightarrow> 0 | Some c \<Rightarrow> c_session_id c),
           m_mode = g_mode g, m_irq_disabled_measured = False \<rparr>)"

definition parp_effective_tier_lock_acquired ::
  "u64 \<Rightarrow> parp_tier_lock_measurement \<Rightarrow> parp_tier_lock_measurement" where
  "parp_effective_tier_lock_acquired now_ns m = m \<lparr> m_acquired_ns := now_ns \<rparr>"

definition parp_effective_tier_lock_releasing ::
  "u64 \<Rightarrow> parp_tier_lock_measurement \<Rightarrow> parp_tier_lock_measurement" where
  "parp_effective_tier_lock_releasing now_ns m = m \<lparr> m_releasing_ns := now_ns \<rparr>"

definition parp_effective_tier_lock_unlocked ::
  "u64 \<Rightarrow> parp_tier_lock_measurement \<Rightarrow> parp_tier_lock_measurement" where
  "parp_effective_tier_lock_unlocked now_ns m = m \<lparr> m_irq_disabled_ended_ns := now_ns \<rparr>"

text \<open>The wait, hold and interrupt-off times that \<open>lock_finish\<close> reports.\<close>

definition parp_lock_times :: "parp_tier_lock_measurement \<Rightarrow> u64 \<times> u64 \<times> u64" where
  "parp_lock_times m =
     (m_acquired_ns m - m_lock_attempt_started_ns m, m_releasing_ns m - m_acquired_ns m,
      if m_irq_disabled_measured m then m_irq_disabled_ended_ns m - m_irq_disabled_started_ns m
      else 0)"

definition parp_effective_tier_lock_finish ::
  "bool \<Rightarrow> parp_tier_lock_measurement \<Rightarrow> parp_tier_globals \<Rightarrow> parp_tier_globals" where
  "parp_effective_tier_lock_finish trace_on m g =
     (let st = g_stats g; duration = m_releasing_ns m - m_acquired_ns m;
          (sum_ns, maximum, hist) = parp_account_latency duration
            (t_lock_time_total st, t_lock_time_max st, t_lock_hist st);
          st1 = st \<lparr> t_lock_time_total := sum_ns, t_lock_time_max := maximum, t_lock_hist := hist \<rparr>
      in if trace_on
         then g \<lparr> g_trace_sequence := g_trace_sequence g + 1,
                  g_stats := st1 \<lparr> t_trace_locks := t_trace_locks st1 + 1 \<rparr> \<rparr>
         else g \<lparr> g_stats := st1 \<rparr>)"

definition parp_effective_tier_get_lock_observe :: "parp_tier_globals \<Rightarrow> bool" where
  "parp_effective_tier_get_lock_observe g = k_lock_observe g"

definition parp_effective_tier_set_lock_observe ::
  "bool \<Rightarrow> parp_tier_globals \<Rightarrow> errno option \<times> parp_tier_globals" where
  "parp_effective_tier_set_lock_observe enabled g =
     (None, if enabled \<noteq> parp_effective_tier_get_lock_observe g
            then g \<lparr> k_lock_observe := enabled \<rparr> else g)"

section \<open>The control invariant\<close>

definition parp_config_ok :: "parp_tier_runtime_config \<Rightarrow> bool" where
  "parp_config_ok c \<longleftrightarrow>
     \<not> bit (c_sequence c) 0 \<and> parp_tier_policy_valid (Some (c_policy c)) \<and>
     c_upgrade_batch_pages c \<noteq> 0 \<and> c_upgrade_epoch_pages c \<noteq> 0 \<and>
     c_downgrade_batch_pages c \<noteq> 0 \<and> c_downgrade_epoch_pages c \<noteq> 0 \<and>
     c_upgrade_ratio_permyriad c \<noteq> 0 \<and> c_upgrade_ratio_permyriad c \<le> 10000 \<and>
     c_downgrade_ratio_permyriad c \<noteq> 0 \<and> c_downgrade_ratio_permyriad c \<le> 10000"

definition parp_control_ok :: "bool \<Rightarrow> parp_tier_globals \<Rightarrow> bool" where
  "parp_control_ok apply_built g \<longleftrightarrow>
     parp_config_ok (g_config g) \<and>
     k_enabled g = (g_mode g \<noteq> PARP_EFFECTIVE_TIER_OFF) \<and>
     (g_mode g \<noteq> PARP_EFFECTIVE_TIER_OFF \<longrightarrow> g_state_epoch g \<noteq> 0) \<and>
     (g_mode g \<ge> PARP_EFFECTIVE_TIER_PROTECT_ONLY \<longrightarrow>
        apply_built \<and> max_upgrade_tiers (c_policy (g_config g)) \<le> 2)"

text \<open>
  One control event: a mode write, a configuration write, a change of the MGLRU state, or a fault
  raised by an operation on a page.
\<close>

inductive parp_control_step :: "bool \<Rightarrow> parp_tier_globals \<Rightarrow> parp_tier_globals \<Rightarrow> bool"
  for apply_built where
  mode: "parp_control_step apply_built g (snd (parp_effective_tier_set_mode apply_built m g))"
| config: "parp_control_step apply_built g (snd (parp_effective_tier_set_config input g))"
| lru_state: "parp_control_step apply_built g (parp_effective_tier_mglru_state_change g)"
| fault: "parp_control_step apply_built g (parp_set_state_fault (parp_count_unstable g))"
| ready: "parp_control_step apply_built g (parp_effective_tier_page_ext_init g)"

inductive parp_control_reach :: "bool \<Rightarrow> parp_tier_globals \<Rightarrow> parp_tier_globals \<Rightarrow> bool"
  for apply_built where
  here: "parp_control_reach apply_built g g"
| step: "parp_control_reach apply_built g g' \<Longrightarrow> parp_control_step apply_built g' g'' \<Longrightarrow>
    parp_control_reach apply_built g g''"

inductive_cases parp_control_stepE: "parp_control_step apply_built g g'"

lemma mode_le_recency: "\<not> mode > PARP_EFFECTIVE_TIER_RECENCY_BASELINE"
  by (cases mode) (simp_all add: less_parp_effective_tier_mode_def)

lemma off_not_apply: "\<not> PARP_EFFECTIVE_TIER_OFF \<ge> PARP_EFFECTIVE_TIER_PROTECT_ONLY"
  by (simp add: less_eq_parp_effective_tier_mode_def)

lemma config_read_iff: "parp_runtime_config_read g =
    (if bit (c_sequence (g_config g)) 0 then None else Some (g_config g))"
  unfolding parp_runtime_config_read_def and_1_bit by (rule refl)

lemma epoch_next_nonzero: "e \<noteq> U8_MAX \<Longrightarrow> e + 1 \<noteq> (0 :: u8)"
proof
  assume "e \<noteq> U8_MAX" and "e + 1 = 0"
  then have "e = - 1" by (simp add: eq_neg_iff_add_eq_0)
  with \<open>e \<noteq> U8_MAX\<close> show False by simp
qed

lemma set_mode_ok:
  assumes "parp_control_ok apply_built g"
  shows "parp_control_ok apply_built (snd (parp_effective_tier_set_mode apply_built mode g))"
  using assms
  by (auto simp: parp_control_ok_def parp_effective_tier_set_mode_def config_read_iff off_not_apply
      epoch_next_nonzero parp_config_ok_def not_less split: option.splits)

interpretation tier_mode: mode_switch g_mode "parp_effective_tier_set_mode apply_built"
  "parp_control_ok apply_built" for apply_built
proof
  show "g_mode s' = m" if "parp_effective_tier_set_mode apply_built m s = (None, s')" for m s s'
    using that by (auto simp: parp_effective_tier_set_mode_def split: if_splits)
  show "s' = s" if "parp_effective_tier_set_mode apply_built m s = (Some e, s')" for m s e s'
    using that by (auto simp: parp_effective_tier_set_mode_def split: if_splits)
qed (rule set_mode_ok)

interpretation lock_observe: mode_switch parp_effective_tier_get_lock_observe
  parp_effective_tier_set_lock_observe "parp_control_ok apply_built" for apply_built
  by unfold_locales
    (auto simp: parp_effective_tier_set_lock_observe_def parp_effective_tier_get_lock_observe_def
      parp_control_ok_def)

lemma input_policy_valid:
  assumes "parp_tier_config_input_ok i"
  shows "parp_tier_policy_valid (Some (c_policy (parp_tier_config_of i c)))"
proof -
  have "uint (i_max_upgrade i) = 1 \<or> uint (i_max_upgrade i) = 2 \<or> uint (i_max_upgrade i) = 3"
    using assms by (auto simp: parp_tier_config_input_ok_def word_less_def word_le_def not_less)
  then have "i_max_upgrade i = 1 \<or> i_max_upgrade i = 2 \<or> i_max_upgrade i = 3"
    using unsigned_word_eqI [of "i_max_upgrade i" 1] unsigned_word_eqI [of "i_max_upgrade i" 2]
      unsigned_word_eqI [of "i_max_upgrade i" 3] by auto
  then show ?thesis using assms
    by (elim disjE)
      (simp_all add: parp_tier_config_input_ok_def parp_tier_policy_valid_def parp_tier_config_of_def)
qed

lemma set_config_success:
  assumes "parp_effective_tier_set_config input g = (None, g')"
  shows "\<exists>i. input = Some i \<and> parp_tier_config_input_ok i \<and> g_mode g = PARP_EFFECTIVE_TIER_OFF \<and>
    g' = g \<lparr> g_config := (parp_tier_config_of i (g_config g))
                \<lparr> c_sequence := c_sequence (g_config g) + 2 \<rparr> \<rparr>"
  using assms by (auto simp: parp_effective_tier_set_config_def config_read_iff Let_def
      split: if_splits option.splits)

lemma set_config_failure:
  "parp_effective_tier_set_config input g = (Some e, g') \<Longrightarrow> g' = g"
  by (auto simp: parp_effective_tier_set_config_def Let_def split: if_splits option.splits)

lemma set_config_ok:
  assumes "parp_control_ok apply_built g"
  shows "parp_control_ok apply_built (snd (parp_effective_tier_set_config input g))"
proof (cases "parp_effective_tier_set_config input g")
  case (Pair r g')
  show ?thesis
  proof (cases r)
    case None
    then obtain i where i: "parp_tier_config_input_ok i" and off: "g_mode g = PARP_EFFECTIVE_TIER_OFF"
      and g': "g' = g \<lparr> g_config := (parp_tier_config_of i (g_config g))
                \<lparr> c_sequence := c_sequence (g_config g) + 2 \<rparr> \<rparr>"
      using set_config_success Pair by blast
    have "parp_config_ok (g_config g')"
      using i assms input_policy_valid [OF i, of "g_config g"]
      by (auto simp: g' parp_config_ok_def parp_control_ok_def parp_tier_config_of_def
          parp_tier_config_input_ok_def bit_0_add_2 not_less)
    then show ?thesis using assms off Pair
      by (simp add: parp_control_ok_def g' off_not_apply)
  next
    case (Some e)
    then show ?thesis using Pair set_config_failure assms by auto
  qed
qed

lemma control_step_ok:
  "parp_control_step apply_built g g' \<Longrightarrow> parp_control_ok apply_built g \<Longrightarrow>
   parp_control_ok apply_built g'"
proof (induction rule: parp_control_step.induct)
  case (mode g m)
  then show ?case by (rule set_mode_ok)
next
  case (config g input)
  then show ?case by (rule set_config_ok)
qed (auto simp: parp_effective_tier_mglru_state_change_def parp_set_state_fault_def
    parp_count_unstable_def parp_effective_tier_page_ext_init_def parp_control_ok_def)

lemma boot_ok: "parp_control_ok apply_built parp_tier_boot"
  by (simp add: parp_control_ok_def parp_config_ok_def parp_tier_boot_def off_not_apply
      parp_tier_policy_valid_def parp_tier_config_default_def)

lemma set_mode_epoch:
  "g' = snd (parp_effective_tier_set_mode apply_built m g) \<Longrightarrow>
   (g_state_epoch g' = g_state_epoch g \<and> g_state_fault g' = g_state_fault g) \<or>
   (g_mode g = PARP_EFFECTIVE_TIER_OFF \<and> g_mode g' \<noteq> PARP_EFFECTIVE_TIER_OFF \<and>
    g_state_epoch g < g_state_epoch g' \<and> \<not> g_state_fault g')"
proof -
  have inc: "e < e + 1" if "e \<noteq> U8_MAX" for e :: u8
  proof -
    have "unat e \<noteq> 255" using that unsigned_word_eqI [of e "U8_MAX", where 'a = nat] by auto
    then have "unat e + unat (1 :: u8) < 2 ^ 8" using unsigned_less [of e, where 'a = nat] by simp
    then have "unat (e + 1) = unat e + 1" by (subst unat_add_lem [THEN iffD1]) simp_all
    then show ?thesis by (simp add: word_less_nat_alt)
  qed
  assume "g' = snd (parp_effective_tier_set_mode apply_built m g)"
  then show ?thesis
    by (auto simp: parp_effective_tier_set_mode_def inc)
qed

lemma set_mode_shape:
  assumes "g' = snd (parp_effective_tier_set_mode apply_built m g)"
  shows "g_state_epoch g < g_state_epoch g' \<or> g' = g \<or>
    (g_mode g' = PARP_EFFECTIVE_TIER_OFF \<and> g_state_epoch g' = g_state_epoch g)"
proof -
  have "g' = g \<or> g_mode g = PARP_EFFECTIVE_TIER_OFF \<and> g_mode g' \<noteq> PARP_EFFECTIVE_TIER_OFF \<and>
        g_state_epoch g' \<noteq> g_state_epoch g \<or>
      g_mode g' = PARP_EFFECTIVE_TIER_OFF \<and> g_state_epoch g' = g_state_epoch g"
    unfolding assms parp_effective_tier_set_mode_def by simp
  then show ?thesis using set_mode_epoch [OF assms] by auto
qed

lemma control_step_epoch:
  assumes "parp_control_step apply_built g g'"
  shows "g_state_epoch g < g_state_epoch g' \<or>
    (g_state_epoch g' = g_state_epoch g \<and> (g_state_fault g \<longrightarrow> g_state_fault g'))"
  using assms
proof (cases rule: parp_control_step.cases)
  case (mode m)
  then show ?thesis using set_mode_epoch [OF mode] by auto
next
  case (config input)
  then show ?thesis
    by (auto simp: parp_effective_tier_set_config_def Let_def split: if_splits option.splits)
qed (auto simp: parp_effective_tier_mglru_state_change_def parp_set_state_fault_def
    parp_count_unstable_def parp_effective_tier_page_ext_init_def)

lemma control_reach_epoch:
  "parp_control_reach apply_built g g' \<Longrightarrow>
    g_state_epoch g < g_state_epoch g' \<or>
    (g_state_epoch g' = g_state_epoch g \<and> (g_state_fault g \<longrightarrow> g_state_fault g'))"
proof (induction rule: parp_control_reach.induct)
  case (step g g' g'')
  then show ?case using control_step_epoch [OF step.hyps(2)] by auto
qed simp

lemma control_reach_ok:
  "parp_control_reach apply_built g g' \<Longrightarrow> parp_control_ok apply_built g \<Longrightarrow>
   parp_control_ok apply_built g'"
  by (induction rule: parp_control_reach.induct) (auto intro: control_step_ok)

section \<open>Properties\<close>

text \<open>In every state reachable from boot by mode writes, configuration writes, faults and MGLRU
  state changes: the configuration is valid and its sequence even, the static key is on exactly when
  the mode is not OFF, an active mode has a non-zero run epoch, and an applying mode was built in
  and upgrades by at most two tiers.\<close>

theorem parp_control_reachable_ok:
  assumes "parp_control_reach apply_built parp_tier_boot g"
  shows "parp_config_ok (g_config g) \<and> k_enabled g = (g_mode g \<noteq> PARP_EFFECTIVE_TIER_OFF) \<and>
    (g_mode g \<noteq> PARP_EFFECTIVE_TIER_OFF \<longrightarrow> g_state_epoch g \<noteq> 0) \<and>
    (g_mode g \<ge> PARP_EFFECTIVE_TIER_PROTECT_ONLY \<longrightarrow>
       apply_built \<and> max_upgrade_tiers (c_policy (g_config g)) \<le> 2)"
  using control_reach_ok [OF assms boot_ok] by (simp add: parp_control_ok_def)

text \<open>An instance: the BIDIRECTIONAL mode is reached from boot.\<close>

theorem parp_control_reachable_ok_witness:
  "\<exists>g. parp_control_reach True parp_tier_boot g \<and> g_mode g = PARP_EFFECTIVE_TIER_BIDIRECTIONAL \<and>
     k_enabled g \<and> g_state_epoch g \<noteq> 0"
proof -
  define g where
    "g = snd (parp_effective_tier_set_mode True PARP_EFFECTIVE_TIER_BIDIRECTIONAL parp_tier_boot)"
  have reach: "parp_control_reach True parp_tier_boot g"
    unfolding g_def by (rule parp_control_reach.step [OF parp_control_reach.here
          parp_control_step.mode])
  have "g_mode g = PARP_EFFECTIVE_TIER_BIDIRECTIONAL"
    by (simp add: g_def parp_effective_tier_set_mode_def config_read_iff parp_tier_boot_def
        parp_tier_config_default_def mode_le_recency less_eq_parp_effective_tier_mode_def)
  then show ?thesis using parp_control_reachable_ok [OF reach] reach by auto
qed

text \<open>C26. The fault latch is only cleared by a new run: along any control history that starts with
  the latch set and ends with it clear, the run epoch has grown, so page metadata of the run epoch
  of before the fault never revalidates again.\<close>

theorem parp_fault_cleared_only_by_new_run:
  assumes "parp_control_reach apply_built g g'" and "g_state_fault g" and "\<not> g_state_fault g'"
  shows "g_state_epoch g < g_state_epoch g' \<and>
    (\<forall>ext later sequence. epochs_run (ext_decision_epochs ext) = ucast (g_state_epoch g) \<longrightarrow>
       \<not> parp_effective_tier_revalidate (g_state_epoch g') later (Some ext) sequence)"
proof -
  have less: "g_state_epoch g < g_state_epoch g'"
    using control_reach_epoch [OF assms(1)] assms(2,3) by auto
  have inj: "a = b" if "(ucast a :: u32) = ucast b" for a b :: u8
    by (rule bit_word_eqI) (metis that ucast_8_bits)
  have "(ucast (g_state_epoch g) :: u32) \<noteq> ucast (g_state_epoch g')"
    using less inj [of "g_state_epoch g" "g_state_epoch g'"] by force
  then show ?thesis using less by (auto simp: parp_effective_tier_revalidate_def Let_def)
qed

text \<open>Witness of C26: a fault in SHADOW, then OFF and SHADOW again.\<close>

theorem parp_fault_cleared_only_by_new_run_witness:
  "\<exists>g g'. parp_control_reach False g g' \<and> g_state_fault g \<and> \<not> g_state_fault g' \<and>
     g_state_epoch g < g_state_epoch g'"
proof -
  define g where "g = parp_tier_boot \<lparr> g_metadata_ready := True, g_state_fault := True \<rparr>"
  define g' where "g' = snd (parp_effective_tier_set_mode False PARP_EFFECTIVE_TIER_SHADOW g)"
  have reach: "parp_control_reach False g g'"
    unfolding g'_def by (rule parp_control_reach.step [OF parp_control_reach.here
          parp_control_step.mode])
  have "g_state_fault g" and "\<not> g_state_fault g'"
    by (simp_all add: g'_def g_def parp_effective_tier_set_mode_def mode_le_recency
        parp_effective_tier_metadata_ready_def parp_tier_boot_def
        less_eq_parp_effective_tier_mode_def)
  then show ?thesis using parp_fault_cleared_only_by_new_run [OF reach] reach by blast
qed

text \<open>Mode and configuration writes are atomic and never switch between two active modes: an
  error changes nothing; success installs the requested mode; a change from one active mode to
  another is refused with EBUSY, and so is a configuration write while a mode is active.\<close>

theorem parp_control_writes_atomic:
  "(\<forall>e g'. parp_effective_tier_set_mode apply_built m g = (Some e, g') \<longrightarrow> g' = g) \<and>
   (\<forall>g'. parp_effective_tier_set_mode apply_built m g = (None, g') \<longrightarrow>
      g_mode g' = m \<and>
      (g_mode g = m \<or> g_mode g = PARP_EFFECTIVE_TIER_OFF \<or> m = PARP_EFFECTIVE_TIER_OFF)) \<and>
   (\<forall>e g'. parp_effective_tier_set_config input g = (Some e, g') \<longrightarrow> g' = g) \<and>
   (\<forall>g'. parp_effective_tier_set_config input g = (None, g') \<longrightarrow>
      g_mode g = PARP_EFFECTIVE_TIER_OFF \<and>
      c_sequence (g_config g') = c_sequence (g_config g) + 2)"
proof (intro conjI allI impI)
  fix e g'
  assume "parp_effective_tier_set_mode apply_built m g = (Some e, g')"
  then show "g' = g" by (rule tier_mode.put_failure)
next
  fix g'
  assume "parp_effective_tier_set_mode apply_built m g = (None, g')"
  then show "g_mode g' = m" by (rule tier_mode.put_success)
next
  fix g'
  assume "parp_effective_tier_set_mode apply_built m g = (None, g')"
  then show "g_mode g = m \<or> g_mode g = PARP_EFFECTIVE_TIER_OFF \<or> m = PARP_EFFECTIVE_TIER_OFF"
    by (auto simp: parp_effective_tier_set_mode_def split: if_splits)
next
  fix e g'
  assume "parp_effective_tier_set_config input g = (Some e, g')"
  then show "g' = g" by (rule set_config_failure)
qed (use set_config_success in \<open>fastforce simp: parp_tier_config_of_def\<close>)+

text \<open>An instance: the hypotheses of the implications hold for a configuration write at boot.\<close>

theorem parp_control_writes_atomic_witness:
  "\<exists>i g'. parp_effective_tier_set_config (Some i) parp_tier_boot = (None, g') \<and>
     c_sequence (g_config g') = 2"
proof -
  define i where "i = \<lparr> i_cold = - 10, i_hot_1 = 10, i_hot_2 = 20, i_hot_3 = 30,
     i_max_upgrade = 2, i_require_two_cold = 1, i_upgrade_batch = 4, i_upgrade_epoch = 16,
     i_upgrade_ratio = 100, i_downgrade_batch = 1, i_downgrade_epoch = 4, i_downgrade_ratio = 50,
     i_experiment = 7, i_session = 8 \<rparr>"
  have "fst (parp_effective_tier_set_config (Some i) parp_tier_boot) = None"
    by (simp add: parp_effective_tier_set_config_def config_read_iff parp_tier_boot_def i_def
        parp_tier_config_default_def parp_tier_config_input_ok_def Let_def)
  then obtain g' where
    set: "parp_effective_tier_set_config (Some i) parp_tier_boot = (None, g')"
    by (cases "parp_effective_tier_set_config (Some i) parp_tier_boot") auto
  have "c_sequence (g_config parp_tier_boot) = 0"
    by (simp add: parp_tier_boot_def parp_tier_config_default_def)
  moreover have "c_sequence (g_config g') = c_sequence (g_config parp_tier_boot) + 2"
    using parp_control_writes_atomic [of False PARP_EFFECTIVE_TIER_OFF parp_tier_boot "Some i"] set
    by blast
  ultimately have "c_sequence (g_config g') = 2" by simp
  with set show ?thesis by blast
qed

end
