(* ===== verification/Tier_Gate.thy ===== *)
theory Tier_Gate
  imports Tier_Config
begin

text \<open>
  The decision path of \<open>mm/parp/core/effective_tier.c\<close>: \<open>prepare\<close> opens a scan batch, \<open>decide\<close>
  classifies one folio and reserves budget for it, \<open>finish\<close> keeps or cancels the reservation,
  \<open>batch_finish\<close>, \<open>batch_reclaim\<close> and \<open>feedback\<close> close the batch. They work on the globals, the
  scan context, the two per-type ledgers of the lruvec and the metadata of the folio at hand; the
  record \<open>parp_tier_world\<close> holds these. Facts about the folio and the clock readings come in the
  record \<open>parp_folio_view\<close>; \<open>v_hash\<close> is siphash under the boot key.
\<close>

record parp_tier_world =
  w_globals :: parp_tier_globals
  w_ctx :: parp_tier_scan_ctx
  w_lru :: "bool \<Rightarrow> parp_tier_lru_state"
  w_page :: page

record parp_folio_view =
  v_pages :: u64
  v_gen :: int
  v_pfn :: u64
  v_hash :: "u64 \<Rightarrow> u64 \<Rightarrow> u64"
  v_now_ms :: u32
  v_decision_start_ns :: u64
  v_score_start_ns :: u64
  v_score_end_ns :: u64
  v_decision_end_ns :: u64
  v_env_features :: interference
  v_env_claim :: interference

section \<open>Opening a batch\<close>

text \<open>What \<open>prepare\<close> reads from the lruvec and the reclaim request.\<close>

record parp_prepare_request =
  r_nid :: u32
  r_memcg_id :: u64
  r_min_seq :: u64
  r_priority :: int
  r_nr_to_reclaim :: u64
  r_nr_reclaimed :: u64
  r_is_kswapd :: bool
  r_is_memcg :: bool
  r_proactive :: bool

definition parp_tier_epoch_reset ::
  "u8 \<Rightarrow> u64 \<Rightarrow> parp_tier_lru_state \<Rightarrow> parp_tier_lru_state" where
  "parp_tier_epoch_reset run_epoch source_seq st =
     (if l_epoch_id st = 0 \<or> l_source_seq st \<noteq> source_seq \<or> l_state_epoch st \<noteq> run_epoch
      then let id1 = l_epoch_id st + 1; id2 = (if id1 = 0 then id1 + 1 else id1)
           in \<lparr> l_epoch_id = id2, l_source_seq = source_seq, l_candidate_pages = 0,
                l_upgrade_pages = 0, l_downgrade_pages = 0, l_no_progress_rounds = 0,
                l_state_epoch = run_epoch \<rparr>
      else st)"

definition parp_epoch_tag_of :: "u64 \<Rightarrow> u32" where
  "parp_epoch_tag_of epoch_id = ucast (epoch_id AND 0xFFF)"

text \<open>A tag of zero means "never", so the epoch number skips the values whose low bits are zero.\<close>

definition parp_tier_tag_step :: "parp_tier_lru_state \<Rightarrow> parp_tier_lru_state" where
  "parp_tier_tag_step st =
     (if parp_epoch_tag_of (l_epoch_id st) = 0 then st \<lparr> l_epoch_id := l_epoch_id st + 1 \<rparr> else st)"

definition parp_effective_tier_prepare ::
  "bool \<Rightarrow> parp_prepare_request \<Rightarrow> parp_tier_world \<Rightarrow> parp_tier_world" where
  "parp_effective_tier_prepare lru_type r w =
     (let g = w_globals w; ctx0 = scan_ctx_zero \<lparr> s_mode := g_mode g \<rparr>
      in case parp_runtime_config_read g of
        None \<Rightarrow> w \<lparr> w_ctx := ctx0 \<rparr>
      | Some config \<Rightarrow>
          if g_mode g = PARP_EFFECTIVE_TIER_OFF \<or> g_state_fault g then w \<lparr> w_ctx := ctx0 \<rparr>
          else
            let st = parp_tier_tag_step
                  (parp_tier_epoch_reset (g_state_epoch g) (r_min_seq r) (w_lru w lru_type));
                batch = g_batch_id g + 1;
                no_progress = (l_no_progress_rounds st \<ge> 3);
                level = parp_effective_tier_pressure_level (r_priority r) no_progress
                  (r_nr_to_reclaim r) (r_nr_reclaimed r)
            in w \<lparr>
                 w_globals := g \<lparr> g_batch_id := batch \<rparr>,
                 w_lru := (w_lru w) (lru_type := st),
                 w_ctx := ctx0 \<lparr>
                   s_rcu_held := True, s_enabled := True, s_type := lru_type, s_nid := r_nid r,
                   s_memcg_id := r_memcg_id r, s_reclaim_priority := r_priority r,
                   s_nr_to_reclaim := r_nr_to_reclaim r,
                   s_nr_reclaimed_before := r_nr_reclaimed r,
                   s_epoch_reclaimed_pages := r_nr_reclaimed r,
                   s_reclaim_context :=
                     parp_tier_reclaim_context_of (r_is_kswapd r) (r_is_memcg r) (r_proactive r),
                   s_source_seq := r_min_seq r, s_batch_id := batch,
                   s_experiment_id := c_experiment_id config, s_session_id := c_session_id config,
                   s_config_sequence := c_sequence config, s_run_epoch := g_state_epoch g,
                   s_severe_pressure := (r_priority r \<le> 2), s_no_progress := no_progress,
                   s_consecutive_no_progress_batches := l_no_progress_rounds st,
                   s_epoch_id := l_epoch_id st,
                   s_epoch_tag := parp_epoch_tag_of (l_epoch_id st),
                   s_pressure_level_kernel := level,
                   s_pressure_bypass_reason :=
                     (if level = PARP_PRESSURE_CRITICAL
                      then (if no_progress then PARP_TIER_BYPASS_NO_PROGRESS
                            else PARP_TIER_BYPASS_PRESSURE)
                      else PARP_TIER_BYPASS_NONE) \<rparr> \<rparr>)"

section \<open>Deciding about a folio\<close>

text \<open>The ledgers, by direction.\<close>

definition ctx_used :: "bool \<Rightarrow> parp_tier_scan_ctx \<Rightarrow> u64" where
  "ctx_used up ctx = (if up then s_upgrade_pages ctx else s_downgrade_pages ctx)"

definition ctx_set_used :: "bool \<Rightarrow> u64 \<Rightarrow> parp_tier_scan_ctx \<Rightarrow> parp_tier_scan_ctx" where
  "ctx_set_used up n ctx =
     (if up then ctx \<lparr> s_upgrade_pages := n \<rparr> else ctx \<lparr> s_downgrade_pages := n \<rparr>)"

definition lru_used :: "bool \<Rightarrow> parp_tier_lru_state \<Rightarrow> u64" where
  "lru_used up st = (if up then l_upgrade_pages st else l_downgrade_pages st)"

definition lru_set_used :: "bool \<Rightarrow> u64 \<Rightarrow> parp_tier_lru_state \<Rightarrow> parp_tier_lru_state" where
  "lru_set_used up n st =
     (if up then st \<lparr> l_upgrade_pages := n \<rparr> else st \<lparr> l_downgrade_pages := n \<rparr>)"

definition batch_limit :: "bool \<Rightarrow> parp_tier_runtime_config \<Rightarrow> u64" where
  "batch_limit up c = (if up then c_upgrade_batch_pages c else c_downgrade_batch_pages c)"

definition epoch_limit :: "bool \<Rightarrow> parp_tier_runtime_config \<Rightarrow> u64" where
  "epoch_limit up c = (if up then c_upgrade_epoch_pages c else c_downgrade_epoch_pages c)"

definition budget_ratio :: "bool \<Rightarrow> parp_tier_runtime_config \<Rightarrow> u32" where
  "budget_ratio up c = (if up then c_upgrade_ratio_permyriad c else c_downgrade_ratio_permyriad c)"

text \<open>
  The branch of \<open>decide\<close> for a predicted upgrade (\<open>up\<close>) or downgrade: budget test, epoch claim,
  reservation. \<open>seq\<close> is the snapshot's state sequence, which a claim advances.
\<close>

definition parp_decide_reserve ::
  "bool \<Rightarrow> parp_tier_runtime_config \<Rightarrow> parp_folio_view \<Rightarrow> u32 \<Rightarrow>
   parp_tier_world \<times> parp_tier_decision \<Rightarrow> parp_tier_world \<times> parp_tier_decision \<times> u32" where
  "parp_decide_reserve up config f seq wd =
     (let (w, d) = wd; ctx = w_ctx w; st = w_lru w (s_type ctx); pages = v_pages f;
          applies = parp_effective_tier_action_applies (s_mode ctx) (d_action d);
          allowed =
            (parp_effective_tier_budget_allows (ctx_used up ctx) (s_candidate_pages ctx) pages
               (batch_limit up config) (budget_ratio up config) \<and>
             (\<not> applies \<or>
              parp_effective_tier_budget_allows (lru_used up st) (l_candidate_pages st) pages
                (epoch_limit up config) (budget_ratio up config)));
          ctx1 = ctx_set_used up (ctx_used up ctx + pages) ctx
      in if \<not> allowed
         then (w, parp_decision_native_fallback
                 (if up then PARP_TIER_BYPASS_UPGRADE_BUDGET
                  else PARP_TIER_BYPASS_DOWNGRADE_BUDGET) d, seq)
         else if applies then
           (case parp_effective_tier_claim_epoch_sequence (v_env_claim f)
                   (g_state_epoch (w_globals w)) up (s_epoch_tag ctx) (Some seq) (w_page w) of
              (Inl bypass, page1) \<Rightarrow>
                (w \<lparr> w_page := page1 \<rparr>, parp_decision_native_fallback bypass d, seq)
            | (Inr seq1, page1) \<Rightarrow>
                (w \<lparr> w_page := page1, w_ctx := ctx1,
                     w_lru := (w_lru w)
                       (s_type ctx := lru_set_used up (lru_used up st + pages) st) \<rparr>,
                 d \<lparr> d_reservation_active := True, d_reservation_upgrade := up \<rparr>, seq1))
         else (w \<lparr> w_ctx := ctx1 \<rparr>, d, seq))"

text \<open>The counters at the head of \<open>decide\<close>.\<close>

definition parp_decide_count :: "u64 \<Rightarrow> parp_tier_world \<Rightarrow> parp_tier_world" where
  "parp_decide_count pages w =
     (let g = w_globals w; t = g_stats g; ctx = w_ctx w;
          st = w_lru w (s_type ctx)
      in w \<lparr>
        w_globals := g \<lparr> g_stats := t \<lparr> t_candidates := t_candidates t + 1,
                                       t_candidate_pages := t_candidate_pages t + pages \<rparr> \<rparr>,
        w_ctx := ctx \<lparr> s_candidate_pages := sat_add (s_candidate_pages ctx) pages \<rparr>,
        w_lru := (if s_mode ctx \<noteq> PARP_EFFECTIVE_TIER_SHADOW
                  then (w_lru w) (s_type ctx :=
                         st \<lparr> l_candidate_pages := sat_add (l_candidate_pages st) pages \<rparr>)
                  else w_lru w) \<rparr>)"

definition parp_stats_update ::
  "(parp_tier_stats \<Rightarrow> parp_tier_stats) \<Rightarrow> parp_tier_world \<Rightarrow> parp_tier_world" where
  "parp_stats_update f w =
     w \<lparr> w_globals := (w_globals w) \<lparr> g_stats := f (g_stats (w_globals w)) \<rparr> \<rparr>"

definition count_model_invalid :: "parp_tier_stats \<Rightarrow> parp_tier_stats" where
  "count_model_invalid t = t \<lparr> t_model_invalid := t_model_invalid t + 1 \<rparr>"

definition account_score :: "u64 \<Rightarrow> bool \<Rightarrow> parp_tier_stats \<Rightarrow> parp_tier_stats" where
  "account_score duration valid t =
     (let (sum_ns, maximum, hist) =
            parp_account_latency duration (t_score_time_total t, t_score_time_max t, t_score_hist t);
          t1 = t \<lparr> t_score_time_total := sum_ns, t_score_time_max := maximum, t_score_hist := hist \<rparr>
      in if valid then t1 \<lparr> t_scores := t_scores t1 + 1 \<rparr> else count_model_invalid t1)"

definition account_decision :: "u64 \<Rightarrow> parp_tier_stats \<Rightarrow> parp_tier_stats" where
  "account_decision duration t =
     (let (sum_ns, maximum, hist) = parp_account_latency duration
            (t_decision_time_total t, t_decision_time_max t, t_decision_hist t)
      in t \<lparr> t_decision_time_total := sum_ns, t_decision_time_max := maximum,
             t_decision_hist := hist \<rparr>)"

text \<open>The score of a mode: the recency baseline, the random baseline or the model.\<close>

definition parp_decide_score ::
  "parp_tier_runtime_config \<Rightarrow> parp_folio_view \<Rightarrow> parp_tier_scan_ctx \<Rightarrow> int \<Rightarrow> int \<Rightarrow>
   int list \<Rightarrow> parp_tier_state_snapshot \<Rightarrow> int option" where
  "parp_decide_score config f ctx native_tier tier_idx values snap =
     (if s_mode ctx = PARP_EFFECTIVE_TIER_RECENCY_BASELINE
      then Some (parp_effective_tier_recency_score (word_of_int (values ! 0))
                   (Some (c_policy config)))
      else if s_mode ctx = PARP_EFFECTIVE_TIER_RANDOM_MATCHED
      then Some (parp_random_score config
             (v_hash f (parp_folio_cookie (v_hash f) (v_pfn f) (n_lifetime_epoch snap))
                (s_batch_id ctx)) native_tier tier_idx)
      else parp_effective_tier_score_values values)"

text \<open>The tests between classification and reservation, then the reservation.\<close>

definition parp_decide_gate ::
  "parp_tier_runtime_config \<Rightarrow> parp_folio_view \<Rightarrow> int \<Rightarrow> int \<Rightarrow> parp_tier_state_snapshot \<Rightarrow>
   parp_tier_world \<times> parp_tier_decision \<Rightarrow> parp_tier_world \<times> parp_tier_decision \<times> u32" where
  "parp_decide_gate config f native_tier tier_idx snap wd =
     (let (w, d) = wd; ctx = w_ctx w; seq = n_state_sequence snap;
          predicted = (d_action d = PARP_TIER_PREDICTIVE_UPGRADE \<or>
                       d_action d = PARP_TIER_PREDICTIVE_DOWNGRADE);
          (open_gate, bypass) = parp_effective_tier_upgrade_gate (s_severe_pressure ctx)
                                  (s_no_progress ctx)
      in if d_raw_delta_tier_q8 d < 0 \<and> native_tier \<noteq> tier_idx + 1
         then (w, parp_decision_native_fallback
                 (if native_tier \<ge> tier_idx + 2 then PARP_TIER_BYPASS_STRONG_NATIVE
                  else PARP_TIER_BYPASS_NOT_BOUNDARY) d, seq)
         else if d_action d = PARP_TIER_PREDICTIVE_DOWNGRADE \<and>
                 require_two_cold (c_policy config) \<and> n_consecutive_candidates snap < 2
         then (w, parp_decision_native_fallback PARP_TIER_BYPASS_STATE_UNSTABLE d, seq)
         else if predicted \<and> \<not> open_gate
         then (w, parp_decision_native_fallback bypass d, seq)
         else if d_action d = PARP_TIER_PREDICTIVE_UPGRADE
         then parp_decide_reserve True config f seq (w, d)
         else if d_action d = PARP_TIER_PREDICTIVE_DOWNGRADE
         then parp_decide_reserve False config f seq (w, d)
         else (w, d, seq))"

record parp_decide_locals =
  o_values :: "int list"
  o_metadata_valid :: bool
  o_score_duration :: u64
  o_sequence :: u32

text \<open>\<open>decide\<close> from the fault test to the label \<open>copy_features\<close>.\<close>

definition parp_decide_body ::
  "parp_folio_view \<Rightarrow> int \<Rightarrow> int \<Rightarrow> bool \<Rightarrow> parp_tier_world \<Rightarrow>
   parp_tier_world \<times> parp_tier_decision \<times> parp_decide_locals" where
  "parp_decide_body f native_tier tier_idx special w =
     (let g = w_globals w; ctx = w_ctx w; values0 = replicate 6 0;
          native = (\<lambda>policy. parp_effective_tier_classify 0 False native_tier tier_idx special policy);
          early = \<lparr> o_values = values0, o_metadata_valid = False, o_score_duration = 0,
                    o_sequence = 0 \<rparr>
      in if g_state_fault g
         then (w, (native None) \<lparr> d_bypass := PARP_TIER_BYPASS_STATE_UNSTABLE \<rparr>, early)
         else case parp_runtime_config_read g of
           None \<Rightarrow> (parp_stats_update count_model_invalid w,
                    (native None) \<lparr> d_bypass := PARP_TIER_BYPASS_MODEL_INVALID \<rparr>, early)
         | Some config \<Rightarrow>
             if c_sequence config \<noteq> s_config_sequence ctx
             then (parp_stats_update count_model_invalid w,
                   (native None) \<lparr> d_bypass := PARP_TIER_BYPASS_MODEL_INVALID \<rparr>, early)
             else
               let (valid, values, snap, page1) =
                     parp_candidate_features (v_env_features f) (g_state_epoch g) (v_now_ms f)
                       (v_gen f) (w_page w) values0 snapshot_zero;
                   w1 = w \<lparr> w_page := page1 \<rparr>;
                   locals = \<lparr> o_values = values, o_metadata_valid = valid, o_score_duration = 0,
                              o_sequence = n_state_sequence snap \<rparr>
               in if \<not> valid
                  then (if n_uncertain snap
                        then (parp_stats_update
                                (\<lambda>t. t \<lparr> t_state_unstable := t_state_unstable t + 1 \<rparr>) w1,
                              (native (Some (c_policy config)))
                                \<lparr> d_bypass := PARP_TIER_BYPASS_STATE_UNSTABLE \<rparr>, locals)
                        else (parp_stats_update
                                (\<lambda>t. t \<lparr> t_metadata_missing := t_metadata_missing t + 1 \<rparr>) w1,
                              (native (Some (c_policy config)))
                                \<lparr> d_bypass := PARP_TIER_BYPASS_METADATA_MISSING \<rparr>, locals))
                  else
                    let score = parp_decide_score config f ctx native_tier tier_idx values snap;
                        duration = v_score_end_ns f - v_score_start_ns f;
                        w2 = parp_stats_update (account_score duration (score \<noteq> None))
                          (w1 \<lparr> w_ctx := ctx \<lparr> s_model_time_ns := s_model_time_ns ctx + duration \<rparr> \<rparr>);
                        d = parp_effective_tier_classify (case score of None \<Rightarrow> 0 | Some v \<Rightarrow> v)
                          (score \<noteq> None) native_tier tier_idx special (Some (c_policy config));
                        locals1 = locals \<lparr> o_score_duration := duration \<rparr>
                    in if score = None \<or> special then (w2, d, locals1)
                       else
                         let (w3, d3, seq) = parp_decide_gate config f native_tier tier_idx snap (w2, d)
                         in (w3, d3, locals1 \<lparr> o_sequence := seq \<rparr>))"

definition parp_effective_tier_decide ::
  "parp_folio_view \<Rightarrow> int \<Rightarrow> int \<Rightarrow> bool \<Rightarrow> parp_tier_world \<Rightarrow>
   parp_tier_world \<times> parp_tier_decision" where
  "parp_effective_tier_decide f native_tier tier_idx special w0 =
     (let (w, d, locals) = parp_decide_body f native_tier tier_idx special
            (parp_decide_count (v_pages f) w0);
          ctx = w_ctx w;
          d1 = (parp_effective_tier_pressure_counterfactuals ctx d) \<lparr>
            d_scorer_kind :=
              (if s_mode ctx = PARP_EFFECTIVE_TIER_RECENCY_BASELINE
               then PARP_TIER_SCORER_RECENCY_BASELINE
               else if s_mode ctx = PARP_EFFECTIVE_TIER_RANDOM_MATCHED
               then PARP_TIER_SCORER_RANDOM_BASELINE else PARP_TIER_SCORER_PAIRWISE_LINEAR),
            d_features := o_values locals,
            d_features_valid := o_metadata_valid locals,
            d_folio_nr_pages := v_pages f,
            d_generation_index := v_gen f,
            d_page_state_sequence := o_sequence locals,
            d_score_duration_ns := o_score_duration locals \<rparr>;
          duration = v_decision_end_ns f - v_decision_start_ns f
      in (parp_stats_update (account_decision duration) w,
          d1 \<lparr> d_actual_tier_protect := parp_effective_tier_actual_protect (s_mode ctx) d1,
               d_decision_duration_ns := duration \<rparr>))"

section \<open>Finishing\<close>

definition parp_effective_tier_cancel_reservation ::
  "interference \<Rightarrow> parp_tier_world \<times> parp_tier_decision \<Rightarrow> parp_tier_world \<times> parp_tier_decision" where
  "parp_effective_tier_cancel_reservation env wd =
     (let (w, d) = wd; ctx = w_ctx w; pages = d_folio_nr_pages d; up = d_reservation_upgrade d;
          closed = d \<lparr> d_reservation_active := False \<rparr>
      in if \<not> d_reservation_active d then (w, d)
         else
           let (released, g1, page1) = parp_effective_tier_release_epoch env up (s_epoch_tag ctx)
                 (w_globals w, w_page w);
               w1 = w \<lparr> w_globals := g1, w_page := page1 \<rparr>;
               fault = w1 \<lparr> w_globals := parp_set_state_fault g1 \<rparr>;
               st = w_lru w1 (s_type ctx)
           in if \<not> released then (fault, closed)
              else if ctx_used up ctx < pages \<or> lru_used up st < pages then (fault, closed)
              else (w1 \<lparr>
                      w_ctx := ctx_set_used up (ctx_used up ctx - pages) ctx,
                      w_lru := (w_lru w1)
                        (s_type ctx := lru_set_used up (lru_used up st - pages) st) \<rparr>, closed))"

definition parp_reservation_committed :: "bool \<Rightarrow> parp_tier_decision \<Rightarrow> bool" where
  "parp_reservation_committed sort_result d \<longleftrightarrow>
     d_reservation_active d \<and>
     ((d_reservation_upgrade d \<and> sort_result \<and> d_action d = PARP_TIER_PREDICTIVE_UPGRADE) \<or>
      (\<not> d_reservation_upgrade d \<and> d_action d = PARP_TIER_PREDICTIVE_DOWNGRADE))"

definition add64 :: "('a \<Rightarrow> u64) \<Rightarrow> 'a \<Rightarrow> u64 \<Rightarrow> 'a \<Rightarrow> u64" where
  "add64 counters k n = counters (k := counters k + n)"

text \<open>The tracepoint of \<open>finish\<close> also faults when the folio has lost its metadata.\<close>

definition parp_finish_trace :: "bool \<Rightarrow> parp_tier_world \<Rightarrow> parp_tier_world" where
  "parp_finish_trace trace_on w =
     (if \<not> trace_on then w
      else let g = w_globals w;
               g1 = (if w_page w = None then parp_set_state_fault g else g)
           in w \<lparr> w_globals := g1 \<lparr> g_trace_sequence := g_trace_sequence g1 + 1,
                g_stats := (g_stats g1) \<lparr> t_trace_decisions := t_trace_decisions (g_stats g1) + 1 \<rparr> \<rparr> \<rparr>)"

definition parp_effective_tier_finish ::
  "interference \<Rightarrow> interference \<Rightarrow> bool \<Rightarrow> bool \<Rightarrow> bool \<Rightarrow>
   parp_tier_world \<times> parp_tier_decision \<Rightarrow> parp_tier_world \<times> parp_tier_decision" where
  "parp_effective_tier_finish env_cancel env_pending trace_on sort_result isolate_result wd =
     (let (w, d) = (if d_reservation_active (snd wd) \<and>
                       \<not> parp_reservation_committed sort_result (snd wd)
                    then parp_effective_tier_cancel_reservation env_cancel wd else wd);
          w1 = parp_stats_update (\<lambda>t. t \<lparr>
                 t_action_pages := add64 (t_action_pages t) (d_action d) (d_folio_nr_pages d),
                 t_bypass := add64 (t_bypass t) (d_bypass d) (d_folio_nr_pages d) \<rparr>) w;
          w2 = (if isolate_result
                then let (stored, page1) = parp_set_pending_action env_pending (d_action d) (w_page w1);
                         w1' = w1 \<lparr> w_page := page1 \<rparr>
                     in if stored then w1'
                        else w1' \<lparr> w_globals := parp_set_state_fault
                                     (parp_count_unstable (w_globals w1')) \<rparr>
                else w1)
      in (parp_finish_trace trace_on w2, d))"

definition parp_effective_tier_trace_batch :: "bool \<Rightarrow> parp_tier_globals \<Rightarrow> parp_tier_globals" where
  "parp_effective_tier_trace_batch trace_on g =
     (if trace_on
      then g \<lparr> g_trace_sequence := g_trace_sequence g + 1,
               g_stats := (g_stats g) \<lparr> t_trace_batches := t_trace_batches (g_stats g) + 1 \<rparr> \<rparr>
      else g)"

definition parp_effective_tier_batch_finish :: "bool \<Rightarrow> parp_tier_world \<Rightarrow> parp_tier_world" where
  "parp_effective_tier_batch_finish trace_on w =
     w \<lparr> w_globals := parp_effective_tier_trace_batch trace_on (w_globals w),
         w_ctx := (w_ctx w) \<lparr> s_rcu_held := False \<rparr> \<rparr>"

definition parp_effective_tier_batch_reclaim ::
  "bool \<Rightarrow> u64 \<Rightarrow> parp_tier_world \<Rightarrow> parp_tier_world" where
  "parp_effective_tier_batch_reclaim trace_on reclaimed w =
     (let ctx = w_ctx w; batch = sat_add (s_batch_reclaimed_pages ctx) reclaimed
      in w \<lparr> w_ctx := ctx \<lparr> s_batch_reclaimed_pages := batch,
               s_epoch_reclaimed_pages := sat_add (s_nr_reclaimed_before ctx) batch \<rparr>,
             w_globals := parp_effective_tier_trace_batch trace_on (w_globals w) \<rparr>)"

definition parp_effective_tier_feedback ::
  "bool \<Rightarrow> u8 \<Rightarrow> u64 \<Rightarrow> u64 \<Rightarrow> parp_tier_world \<Rightarrow> parp_tier_world" where
  "parp_effective_tier_feedback lru_type run_epoch isolated reclaimed w =
     (let st = w_lru w lru_type
      in if run_epoch = 0 \<or> run_epoch \<noteq> g_state_epoch (w_globals w) \<or>
            l_state_epoch st \<noteq> run_epoch \<or> isolated = 0 then w
         else if reclaimed \<noteq> 0
         then w \<lparr> w_lru := (w_lru w) (lru_type := st \<lparr> l_no_progress_rounds := 0 \<rparr>) \<rparr>
         else if l_no_progress_rounds st < 0xFFFF
         then w \<lparr> w_lru := (w_lru w) (lru_type := st \<lparr>
                    l_no_progress_rounds := l_no_progress_rounds st + 1 \<rparr>) \<rparr>
         else w)"

section \<open>What a decision is\<close>

text \<open>The action of a decision says how its two protection bits differ.\<close>

definition action_bits :: "parp_tier_decision \<Rightarrow> bool" where
  "action_bits d \<longleftrightarrow> d_action d =
    (if d_special_native_protect d then PARP_TIER_SPECIAL_NATIVE_PROTECT
     else if \<not> d_native_protect d \<and> d_effective_protect d then PARP_TIER_PREDICTIVE_UPGRADE
     else if d_native_protect d \<and> \<not> d_effective_protect d then PARP_TIER_PREDICTIVE_DOWNGRADE
     else if d_native_protect d then PARP_TIER_KEEP_PROTECT else PARP_TIER_KEEP_RECLAIM)"

definition predicted :: "parp_tier_decision \<Rightarrow> bool" where
  "predicted d \<longleftrightarrow> d_action d = PARP_TIER_PREDICTIVE_UPGRADE \<or>
     d_action d = PARP_TIER_PREDICTIVE_DOWNGRADE"

lemma classify_bits: "action_bits (parp_effective_tier_classify score mv nt idx sp policy)"
  unfolding action_bits_def using classify_action_bits [OF refl] .

lemma fallback_bits: "action_bits (parp_decision_native_fallback b d)"
  by (simp add: action_bits_def parp_decision_native_fallback_def)

lemma fallback_fields:
  "\<not> predicted (parp_decision_native_fallback b d)"
  "d_native_protect (parp_decision_native_fallback b d) = d_native_protect d"
  "d_special_native_protect (parp_decision_native_fallback b d) = d_special_native_protect d"
  "d_reservation_active (parp_decision_native_fallback b d) = d_reservation_active d"
  by (simp_all add: predicted_def parp_decision_native_fallback_def)

lemma classify_unpredicted:
  "\<not> mv \<Longrightarrow> \<not> predicted (parp_effective_tier_classify score mv nt idx sp policy)"
proof -
  assume mv: "\<not> mv"
  define t where "t = clamp nt 0 3"
  define i where "i = clamp idx 0 3"
  have t: "0 \<le> t" "t \<le> 3" using clamp_bounds [of 0 3 nt] by (simp_all add: t_def)
  have "parp_effective_tier_q8 t 0 = t * 256" using t by (simp add: parp_effective_tier_q8_def)
  then show ?thesis using mv
    by (simp add: predicted_def parp_effective_tier_classify_def Let_def flip: t_def i_def)
qed

lemma classify_native:
  "d_special_native_protect (parp_effective_tier_classify score mv nt idx sp policy) = sp"
  "\<not> d_reservation_active (parp_effective_tier_classify score mv nt idx sp policy)"
  by (simp_all add: parp_effective_tier_classify_def Let_def decision_zero_def)

lemma applies_predicted: "parp_effective_tier_action_applies mode (d_action d) \<Longrightarrow> predicted d"
  by (auto simp: parp_effective_tier_action_applies_def predicted_def split: if_splits)

lemma actual_protect_bits:
  "action_bits d \<Longrightarrow>
   (parp_effective_tier_actual_protect mode d \<noteq>
      (d_special_native_protect d \<or> d_native_protect d)) \<longleftrightarrow>
   parp_effective_tier_action_applies mode (d_action d)"
  by (cases mode) (auto simp: action_bits_def parp_effective_tier_actual_protect_def
      parp_effective_tier_action_applies_def)

lemma used_simps [simp]:
  "ctx_used up (ctx_set_used up n ctx) = n"
  "ctx_used (\<not> up) (ctx_set_used up n ctx) = ctx_used (\<not> up) ctx"
  "lru_used up (lru_set_used up n st) = n"
  "lru_used (\<not> up) (lru_set_used up n st) = lru_used (\<not> up) st"
  "s_type (ctx_set_used up n ctx) = s_type ctx" "s_mode (ctx_set_used up n ctx) = s_mode ctx"
  "s_enabled (ctx_set_used up n ctx) = s_enabled ctx"
  "s_rcu_held (ctx_set_used up n ctx) = s_rcu_held ctx"
  "s_epoch_tag (ctx_set_used up n ctx) = s_epoch_tag ctx"
  "s_config_sequence (ctx_set_used up n ctx) = s_config_sequence ctx"
  "s_candidate_pages (ctx_set_used up n ctx) = s_candidate_pages ctx"
  "l_state_epoch (lru_set_used up n st) = l_state_epoch st"
  "l_candidate_pages (lru_set_used up n st) = l_candidate_pages st"
  by (simp_all add: ctx_used_def ctx_set_used_def lru_used_def lru_set_used_def)

text \<open>
  \<open>spent\<close> relates the ledgers before and after the reservation of a decision: nothing moved; or the
  batch ledger of the decision's direction grew by the folio within its budget and, when the
  reservation is real, the epoch ledger too.
\<close>

definition spent ::
  "parp_tier_runtime_config \<Rightarrow> u64 \<Rightarrow> parp_tier_world \<Rightarrow> parp_tier_world \<Rightarrow> parp_tier_decision \<Rightarrow> bool"
where
  "spent config pages w w' d \<longleftrightarrow>
    (let ctx = w_ctx w; ctx' = w_ctx w'; t = s_type ctx; st = w_lru w t; st' = w_lru w' t
     in (ctx' = ctx \<and> w_lru w' = w_lru w \<and> \<not> d_reservation_active d) \<or>
        (\<exists>up. ctx' = ctx_set_used up (ctx_used up ctx + pages) ctx \<and>
           parp_effective_tier_budget_allows (ctx_used up ctx) (s_candidate_pages ctx) pages
             (batch_limit up config) (budget_ratio up config) \<and>
           ((w_lru w' = w_lru w \<and> \<not> d_reservation_active d) \<or>
            (d_reservation_active d \<and> d_reservation_upgrade d = up \<and>
             d_action d = (if up then PARP_TIER_PREDICTIVE_UPGRADE
                           else PARP_TIER_PREDICTIVE_DOWNGRADE) \<and>
             parp_effective_tier_action_applies (s_mode ctx) (d_action d) \<and>
             w_lru w' = (w_lru w) (t := lru_set_used up (lru_used up st + pages) st) \<and>
             parp_effective_tier_budget_allows (lru_used up st) (l_candidate_pages st) pages
               (epoch_limit up config) (budget_ratio up config)))))"

definition decision_ok :: "bool \<Rightarrow> bool \<Rightarrow> parp_effective_tier_mode \<Rightarrow> parp_tier_decision \<Rightarrow> bool"
where
  "decision_ok native sp mode d \<longleftrightarrow> action_bits d \<and> d_native_protect d = native \<and>
     d_special_native_protect d = sp \<and>
     (parp_effective_tier_action_applies mode (d_action d) \<longrightarrow> d_reservation_active d)"

lemma reserve_result:
  assumes "parp_decide_reserve up config f seq (w, d) = (w', d', seq')"
    and "action_bits d" "\<not> d_reservation_active d"
    and "d_action d = (if up then PARP_TIER_PREDICTIVE_UPGRADE else PARP_TIER_PREDICTIVE_DOWNGRADE)"
  shows "spent config (v_pages f) w w' d'" and "w_globals w' = w_globals w"
    and "decision_ok (d_native_protect d) (d_special_native_protect d) (s_mode (w_ctx w)) d'"
proof -
  have fb: "decision_ok (d_native_protect d) (d_special_native_protect d) (s_mode (w_ctx w))
      (parp_decision_native_fallback b d)" for b
    using fallback_bits [of b d] fallback_fields [of b d] applies_predicted
    by (auto simp: decision_ok_def)
  have bits: "action_bits (d \<lparr> d_reservation_active := x, d_reservation_upgrade := y \<rparr>)" for x y
    using assms(2) by (simp add: action_bits_def)
  show "spent config (v_pages f) w w' d'"
    using assms(1,3,4) fallback_fields
    by (auto simp: parp_decide_reserve_def spent_def Let_def split: if_splits sum.splits prod.splits)
  show "w_globals w' = w_globals w"
    using assms(1) by (auto simp: parp_decide_reserve_def Let_def
        split: if_splits sum.splits prod.splits)
  show "decision_ok (d_native_protect d) (d_special_native_protect d) (s_mode (w_ctx w)) d'"
    using assms(1-3) fb bits
    by (auto simp: parp_decide_reserve_def Let_def decision_ok_def
        split: if_splits sum.splits prod.splits)
qed

lemma fallback_ok:
  "decision_ok (d_native_protect d) (d_special_native_protect d) mode
     (parp_decision_native_fallback b d)"
  using fallback_bits [of b d] fallback_fields [of b d] applies_predicted
  by (auto simp: decision_ok_def)

lemma unpredicted_ok:
  "action_bits d \<Longrightarrow> \<not> predicted d \<Longrightarrow>
   decision_ok (d_native_protect d) (d_special_native_protect d) mode d"
  using applies_predicted by (auto simp: decision_ok_def)

lemma spent_nothing: "\<not> d_reservation_active d \<Longrightarrow> spent config pages w w d"
  by (simp add: spent_def Let_def)

lemma gate_result:
  assumes "parp_decide_gate config f nt idx snap (w, d) = (w', d', seq')"
    and "action_bits d" "\<not> d_reservation_active d"
  shows "spent config (v_pages f) w w' d'" and "w_globals w' = w_globals w"
    and "decision_ok (d_native_protect d) (d_special_native_protect d) (s_mode (w_ctx w)) d'"
    and "s_severe_pressure (w_ctx w) \<or> s_no_progress (w_ctx w) \<Longrightarrow> \<not> predicted d'"
proof -
  have cases: "(w' = w \<and> (\<exists>b. d' = parp_decision_native_fallback b d)) \<or>
      (w' = w \<and> d' = d \<and> \<not> predicted d) \<or>
      (\<not> (s_severe_pressure (w_ctx w) \<or> s_no_progress (w_ctx w)) \<and>
       (\<exists>up seq. d_action d = (if up then PARP_TIER_PREDICTIVE_UPGRADE
                                else PARP_TIER_PREDICTIVE_DOWNGRADE) \<and>
          parp_decide_reserve up config f seq (w, d) = (w', d', seq')))"
    using assms(1)
    by (auto simp: parp_decide_gate_def parp_effective_tier_upgrade_gate_def predicted_def Let_def
        split: if_splits)
  show "spent config (v_pages f) w w' d'" "w_globals w' = w_globals w"
    "decision_ok (d_native_protect d) (d_special_native_protect d) (s_mode (w_ctx w)) d'"
    using cases reserve_result [OF _ assms(2,3)] fallback_ok unpredicted_ok [OF assms(2)]
      spent_nothing assms(3) fallback_fields(4) by metis+
  show "\<not> predicted d'" if "s_severe_pressure (w_ctx w) \<or> s_no_progress (w_ctx w)"
    using cases that fallback_fields(1) by metis
qed

text \<open>What the body of \<open>decide\<close> does between the counters and the label.\<close>

definition stats_only :: "parp_tier_globals \<Rightarrow> parp_tier_globals \<Rightarrow> bool" where
  "stats_only g g' \<longleftrightarrow> g' = g \<lparr> g_stats := g_stats g' \<rparr>"

definition body_ok ::
  "parp_folio_view \<Rightarrow> int \<Rightarrow> int \<Rightarrow> bool \<Rightarrow> parp_tier_world \<Rightarrow> parp_tier_world \<Rightarrow>
   parp_tier_decision \<Rightarrow> bool" where
  "body_ok f nt idx sp w w' d \<longleftrightarrow>
     (\<exists>wm ns. w_lru wm = w_lru w \<and> w_ctx wm = (w_ctx w) \<lparr> s_model_time_ns := ns \<rparr> \<and>
        spent (g_config (w_globals w)) (v_pages f) wm w' d) \<and>
     stats_only (w_globals w) (w_globals w') \<and>
     decision_ok (clamp nt 0 3 > clamp idx 0 3) sp (s_mode (w_ctx w)) d \<and>
     (s_severe_pressure (w_ctx w) \<or> s_no_progress (w_ctx w) \<longrightarrow> \<not> predicted d \<or> sp)"

lemma stats_update_simps [simp]:
  "w_lru (parp_stats_update h w) = w_lru w" "w_ctx (parp_stats_update h w) = w_ctx w"
  "w_page (parp_stats_update h w) = w_page w"
  "w_globals (parp_stats_update h w) = (w_globals w) \<lparr> g_stats := h (g_stats (w_globals w)) \<rparr>"
  by (simp_all add: parp_stats_update_def)

lemma body_native:
  assumes "w_lru w' = w_lru w" "w_ctx w' = w_ctx w" "stats_only (w_globals w) (w_globals w')"
    and "d = parp_effective_tier_classify score False nt idx sp policy \<lparr> d_bypass := b \<rparr>"
  shows "body_ok f nt idx sp w w' d"
proof -
  let ?c = "parp_effective_tier_classify score False nt idx sp policy"
  have c: "action_bits ?c" "\<not> predicted ?c" "d_special_native_protect ?c = sp"
    "d_native_protect ?c = (clamp nt 0 3 > clamp idx 0 3)" "\<not> d_reservation_active ?c"
    by (simp_all add: classify_bits classify_unpredicted classify_native classify_native_protect)
  have d: "action_bits d" "\<not> predicted d" "d_special_native_protect d = sp"
    "d_native_protect d = (clamp nt 0 3 > clamp idx 0 3)" "\<not> d_reservation_active d"
    using c by (simp_all add: assms(4) action_bits_def predicted_def)
  have "spent (g_config (w_globals w)) (v_pages f) w' w' d" using d(5) by (rule spent_nothing)
  moreover have "w_ctx w' = (w_ctx w) \<lparr> s_model_time_ns := s_model_time_ns (w_ctx w) \<rparr>"
    using assms(2) by simp
  ultimately have "\<exists>wm ns. w_lru wm = w_lru w \<and> w_ctx wm = (w_ctx w) \<lparr> s_model_time_ns := ns \<rparr> \<and>
      spent (g_config (w_globals w)) (v_pages f) wm w' d"
    using assms(1) by blast
  then show ?thesis
    unfolding body_ok_def using assms(3) d unpredicted_ok [OF d(1,2), of "s_mode (w_ctx w)"] by simp
qed

text \<open>A folio whose features were scored.\<close>

lemma body_scored:
  assumes "w2 = parp_stats_update h (w1 \<lparr> w_ctx := (w_ctx w) \<lparr> s_model_time_ns := ns \<rparr> \<rparr>)"
    and "w1 = w \<lparr> w_page := page1 \<rparr>"
    and "d = parp_effective_tier_classify score mv nt idx sp policy"
    and "(w' = w2 \<and> d' = d \<and> (\<not> mv \<or> sp)) \<or>
         parp_decide_gate (g_config (w_globals w)) f nt idx snap (w2, d) = (w', d', seq)"
  shows "body_ok f nt idx sp w w' d'"
proof -
  let ?config = "g_config (w_globals w)"
  have d: "action_bits d" "\<not> d_reservation_active d" "d_special_native_protect d = sp"
    "d_native_protect d = (clamp nt 0 3 > clamp idx 0 3)"
    by (simp_all add: assms(3) classify_bits classify_native classify_native_protect)
  have w2: "w_lru w2 = w_lru w" "w_ctx w2 = (w_ctx w) \<lparr> s_model_time_ns := ns \<rparr>"
    "stats_only (w_globals w) (w_globals w2)"
    by (simp_all add: assms(1,2) stats_only_def)
  have quiet_case: "\<not> predicted d" if "\<not> mv \<or> sp"
    using that d(1,3) classify_unpredicted [of mv score nt idx sp policy]
    by (auto simp: assms(3) predicted_def action_bits_def)
  have res: "spent ?config (v_pages f) w2 w' d'" "stats_only (w_globals w) (w_globals w')"
    "decision_ok (clamp nt 0 3 > clamp idx 0 3) sp (s_mode (w_ctx w)) d'"
    "s_severe_pressure (w_ctx w) \<or> s_no_progress (w_ctx w) \<Longrightarrow> \<not> predicted d'"
    using assms(4) gate_result [of ?config f nt idx snap w2 d w' d' seq, OF _ d(1,2)]
      quiet_case unpredicted_ok [OF d(1), of "s_mode (w_ctx w)"] spent_nothing [OF d(2)] w2 d
    by auto
  have "\<exists>wm ns. w_lru wm = w_lru w \<and> w_ctx wm = (w_ctx w) \<lparr> s_model_time_ns := ns \<rparr> \<and>
      spent ?config (v_pages f) wm w' d'"
    using w2 res(1) by blast
  then show ?thesis unfolding body_ok_def using res by simp
qed

lemma config_read_some: "parp_runtime_config_read g = Some c \<Longrightarrow> c = g_config g"
  by (simp add: config_read_iff split: if_splits)

lemma body_result:
  assumes "parp_decide_body f nt idx sp w = (w', d, loc)"
  shows "body_ok f nt idx sp w w' d"
proof -
  let ?g = "w_globals w"
  let ?native = "\<lambda>policy b.
    parp_effective_tier_classify 0 False nt idx sp policy \<lparr> d_bypass := b \<rparr>"
  let ?config = "g_config ?g"
  obtain valid vals snap page1 where feats:
    "parp_candidate_features (v_env_features f) (g_state_epoch ?g) (v_now_ms f) (v_gen f)
       (w_page w) (replicate 6 0) snapshot_zero = (valid, vals, snap, page1)"
    by (cases "parp_candidate_features (v_env_features f) (g_state_epoch ?g) (v_now_ms f) (v_gen f)
       (w_page w) (replicate 6 0) snapshot_zero")
  let ?score = "parp_decide_score ?config f (w_ctx w) nt idx vals snap"
  let ?w1 = "w \<lparr> w_page := page1 \<rparr>"
  let ?ns = "s_model_time_ns (w_ctx w) + (v_score_end_ns f - v_score_start_ns f)"
  let ?w2 = "parp_stats_update (account_score (v_score_end_ns f - v_score_start_ns f) (?score \<noteq> None))
    (?w1 \<lparr> w_ctx := (w_ctx w) \<lparr> s_model_time_ns := ?ns \<rparr> \<rparr>)"
  let ?d = "parp_effective_tier_classify (case ?score of None \<Rightarrow> 0 | Some v \<Rightarrow> v) (?score \<noteq> None)
    nt idx sp (Some (c_policy ?config))"
  have "(\<exists>h b p. (w' = w \<or> w' = parp_stats_update h w \<or> w' = parp_stats_update h ?w1) \<and>
           d = ?native p b) \<or>
      (w' = ?w2 \<and> d = ?d \<and> (?score = None \<or> sp)) \<or>
      (\<exists>seq. parp_decide_gate ?config f nt idx snap (?w2, ?d) = (w', d, seq))"
    using assms feats
    by (auto simp: parp_decide_body_def Let_def dest!: config_read_some
        split: if_splits option.splits prod.splits)
  then show ?thesis
  proof (elim disjE exE conjE)
    fix h b p
    assume d: "d = ?native p b"
    have s: "stats_only ?g ?g" "stats_only ?g (?g \<lparr> g_stats := x \<rparr>)" for x
      by (simp_all add: stats_only_def)
    { assume "w' = w" then show ?thesis using s by (intro body_native [OF _ _ _ d]) auto }
    { assume "w' = parp_stats_update h w"
      then show ?thesis using s by (intro body_native [OF _ _ _ d]) auto }
    { assume "w' = parp_stats_update h ?w1"
      then show ?thesis using s by (intro body_native [OF _ _ _ d]) auto }
  next
    assume "w' = ?w2" "d = ?d" "?score = None"
    then show ?thesis by (intro body_scored [OF refl refl refl]) auto
  next
    assume "w' = ?w2" "d = ?d" "sp"
    then show ?thesis by (intro body_scored [OF refl refl refl]) auto
  next
    fix seq
    assume "parp_decide_gate ?config f nt idx snap (?w2, ?d) = (w', d, seq)"
    then show ?thesis by (intro body_scored [OF refl refl refl] disjI2)
  qed
qed

lemma count_simps:
  "s_type (w_ctx (parp_decide_count n w)) = s_type (w_ctx w)"
  "s_mode (w_ctx (parp_decide_count n w)) = s_mode (w_ctx w)"
  "s_severe_pressure (w_ctx (parp_decide_count n w)) = s_severe_pressure (w_ctx w)"
  "s_no_progress (w_ctx (parp_decide_count n w)) = s_no_progress (w_ctx w)"
  "s_enabled (w_ctx (parp_decide_count n w)) = s_enabled (w_ctx w)"
  "s_rcu_held (w_ctx (parp_decide_count n w)) = s_rcu_held (w_ctx w)"
  "ctx_used up (w_ctx (parp_decide_count n w)) = ctx_used up (w_ctx w)"
  "lru_used up (w_lru (parp_decide_count n w) t) = lru_used up (w_lru w t)"
  "l_state_epoch (w_lru (parp_decide_count n w) t) = l_state_epoch (w_lru w t)"
  "stats_only (w_globals w) (w_globals (parp_decide_count n w))"
  "s_mode (w_ctx w) = PARP_EFFECTIVE_TIER_SHADOW \<Longrightarrow> w_lru (parp_decide_count n w) = w_lru w"
  by (simp_all add: parp_decide_count_def Let_def ctx_used_def lru_used_def stats_only_def)

lemma counterfactual_simps [simp]:
  "d_action (parp_effective_tier_pressure_counterfactuals ctx d) = d_action d"
  "d_native_protect (parp_effective_tier_pressure_counterfactuals ctx d) = d_native_protect d"
  "d_effective_protect (parp_effective_tier_pressure_counterfactuals ctx d) = d_effective_protect d"
  "d_special_native_protect (parp_effective_tier_pressure_counterfactuals ctx d) =
     d_special_native_protect d"
  "d_reservation_active (parp_effective_tier_pressure_counterfactuals ctx d) =
     d_reservation_active d"
  "d_reservation_upgrade (parp_effective_tier_pressure_counterfactuals ctx d) =
     d_reservation_upgrade d"
  by (simp_all add: parp_effective_tier_pressure_counterfactuals_def Let_def)

text \<open>\<open>decide\<close> from start to end: its body between two steps that touch no ledger.\<close>

lemma decide_result:
  assumes "parp_effective_tier_decide f nt idx sp w = (w', d)"
  obtains wb db where
    "body_ok f nt idx sp (parp_decide_count (v_pages f) w) wb db"
    and "w_lru w' = w_lru wb" "w_ctx w' = w_ctx wb" "stats_only (w_globals wb) (w_globals w')"
    and "w_page w' = w_page wb"
    and "d_action d = d_action db" "d_reservation_active d = d_reservation_active db"
    "d_reservation_upgrade d = d_reservation_upgrade db" "d_folio_nr_pages d = v_pages f"
    and "d_actual_tier_protect d = parp_effective_tier_actual_protect (s_mode (w_ctx wb)) db"
proof -
  obtain wb db loc where body: "parp_decide_body f nt idx sp (parp_decide_count (v_pages f) w) =
      (wb, db, loc)"
    by (cases "parp_decide_body f nt idx sp (parp_decide_count (v_pages f) w)")
  have actual: "parp_effective_tier_actual_protect mode
      ((parp_effective_tier_pressure_counterfactuals ctx db) \<lparr> d_scorer_kind := k, d_features := v,
         d_features_valid := b, d_folio_nr_pages := n, d_generation_index := gi,
         d_page_state_sequence := sq, d_score_duration_ns := du \<rparr>) =
      parp_effective_tier_actual_protect mode db" for mode ctx k v b n gi sq du
    by (simp add: parp_effective_tier_actual_protect_def split: parp_effective_tier_mode.splits)
  show ?thesis
    by (rule that [OF body_result [OF body]])
      (use assms body in \<open>auto simp: parp_effective_tier_decide_def Let_def actual stats_only_def\<close>)
qed

lemma stats_only_simps:
  "stats_only g g' \<Longrightarrow> g_config g' = g_config g \<and> g_mode g' = g_mode g \<and>
     g_state_epoch g' = g_state_epoch g \<and> g_state_fault g' = g_state_fault g \<and>
     k_enabled g' = k_enabled g"
  unfolding stats_only_def by (metis parp_tier_globals.select_convs(1,3,4,5,10)
      parp_tier_globals.surjective parp_tier_globals.update_convs(2))

lemma used_if:
  "ctx_used b (ctx_set_used up n ctx) = (if b = up then n else ctx_used b ctx)"
  "lru_used b (lru_set_used up n st) = (if b = up then n else lru_used b st)"
  by (simp_all add: ctx_used_def ctx_set_used_def lru_used_def lru_set_used_def)

lemma allows_sum:
  assumes "parp_effective_tier_budget_allows used cand pages limit ratio"
  shows "used + pages \<le> limit" and "unat (used + pages) = unat used + unat pages"
proof -
  have *: "unat used + unat pages \<le> unat limit" using assms by (simp add: budget_allows_iff)
  then show eq: "unat (used + pages) = unat used + unat pages"
    using unat_u64_bound [of limit] by (intro unat_add_no_wrap) simp
  show "used + pages \<le> limit" using * eq by (simp add: word_le_nat_alt)
qed

lemma ctx_set_used_frame:
  "s_severe_pressure (ctx_set_used up n ctx) = s_severe_pressure ctx"
  "s_no_progress (ctx_set_used up n ctx) = s_no_progress ctx"
  by (simp_all add: ctx_set_used_def)

lemma body_frame:
  assumes "body_ok f nt idx sp w w' d"
  shows "s_type (w_ctx w') = s_type (w_ctx w)" "s_mode (w_ctx w') = s_mode (w_ctx w)"
    "s_enabled (w_ctx w') = s_enabled (w_ctx w)" "s_rcu_held (w_ctx w') = s_rcu_held (w_ctx w)"
    "l_state_epoch (w_lru w' t) = l_state_epoch (w_lru w t)"
    "t \<noteq> s_type (w_ctx w) \<Longrightarrow> w_lru w' t = w_lru w t"
    "stats_only (w_globals w) (w_globals w')"
  using assms by (auto simp: body_ok_def spent_def Let_def)

lemma body_ledgers:
  assumes "body_ok f nt idx sp w w' d"
  shows "ctx_used up (w_ctx w') = ctx_used up (w_ctx w) \<or>
      ctx_used up (w_ctx w') \<le> batch_limit up (g_config (w_globals w))"
    and "lru_used up (w_lru w' t) = lru_used up (w_lru w t) \<or>
      lru_used up (w_lru w' t) \<le> epoch_limit up (g_config (w_globals w))"
proof -
  obtain wm ns where wm: "w_lru wm = w_lru w" "w_ctx wm = (w_ctx w) \<lparr> s_model_time_ns := ns \<rparr>"
    and sp: "spent (g_config (w_globals w)) (v_pages f) wm w' d"
    using assms by (auto simp: body_ok_def)
  have same: "ctx_used b (w_ctx wm) = ctx_used b (w_ctx w)" for b
    by (simp add: wm ctx_used_def)
  show "ctx_used up (w_ctx w') = ctx_used up (w_ctx w) \<or>
      ctx_used up (w_ctx w') \<le> batch_limit up (g_config (w_globals w))"
    using sp same allows_sum(1) by (auto simp: spent_def Let_def used_if)
  show "lru_used up (w_lru w' t) = lru_used up (w_lru w t) \<or>
      lru_used up (w_lru w' t) \<le> epoch_limit up (g_config (w_globals w))"
    using sp wm allows_sum(1) by (auto simp: spent_def Let_def used_if)
qed

section \<open>The gate as a transition system\<close>

text \<open>
  One lruvec, one batch at a time (the lru lock), any folio. Control writes wait for the batch:
  \<open>set_mode\<close> and \<open>set_config\<close> exclude each other by the mode mutex, and a switch to OFF, which may
  happen in the middle of a batch, keeps the mutex until \<open>synchronize_rcu\<close> has seen the batch end.
\<close>

inductive parp_gate_step :: "bool \<Rightarrow> parp_tier_world \<Rightarrow> parp_tier_world \<Rightarrow> bool"
  for apply_built where
  prepare: "\<not> s_rcu_held (w_ctx w) \<Longrightarrow>
    parp_gate_step apply_built w (parp_effective_tier_prepare lru_type r w)"
| folio: "parp_gate_step apply_built w (w \<lparr> w_page := p \<rparr>)"
| decide: "s_enabled (w_ctx w) \<Longrightarrow> s_rcu_held (w_ctx w) \<Longrightarrow>
    parp_gate_step apply_built w (fst (parp_effective_tier_decide f nt idx sp w))"
| finish: "s_enabled (w_ctx w) \<Longrightarrow> s_rcu_held (w_ctx w) \<Longrightarrow> parp_gate_step apply_built w
    (fst (parp_effective_tier_finish env1 env2 trace_on sort_result isolate_result (w, d)))"
| batch_finish: "parp_gate_step apply_built w (parp_effective_tier_batch_finish trace_on w)"
| batch_reclaim: "parp_gate_step apply_built w
    (parp_effective_tier_batch_reclaim trace_on reclaimed w)"
| feedback: "parp_gate_step apply_built w
    (parp_effective_tier_feedback lru_type run_epoch isolated reclaimed w)"
| switch_off: "parp_gate_step apply_built w (w \<lparr> w_globals :=
    snd (parp_effective_tier_set_mode apply_built PARP_EFFECTIVE_TIER_OFF (w_globals w)) \<rparr>)"
| fault: "parp_gate_step apply_built w (w \<lparr> w_globals := parp_set_state_fault (w_globals w) \<rparr>)"
| control: "\<not> s_rcu_held (w_ctx w) \<Longrightarrow> parp_control_step apply_built (w_globals w) g \<Longrightarrow>
    parp_gate_step apply_built w (w \<lparr> w_globals := g \<rparr>)"

inductive parp_gate_reach :: "bool \<Rightarrow> parp_tier_world \<Rightarrow> parp_tier_world \<Rightarrow> bool"
  for apply_built where
  here: "parp_gate_reach apply_built w w"
| step: "parp_gate_reach apply_built w w' \<Longrightarrow> parp_gate_step apply_built w' w'' \<Longrightarrow>
    parp_gate_reach apply_built w w''"

text \<open>The state at boot: \<open>lru_gen_init_lruvec\<close> leaves zeroed ledgers, no batch is open.\<close>

definition parp_gate_boot :: parp_tier_world where
  "parp_gate_boot = \<lparr> w_globals = parp_tier_boot, w_ctx = scan_ctx_zero,
     w_lru = (\<lambda>_. \<lparr> l_epoch_id = 0, l_source_seq = 0, l_candidate_pages = 0, l_upgrade_pages = 0,
                    l_downgrade_pages = 0, l_no_progress_rounds = 0, l_state_epoch = 0 \<rparr>),
     w_page = None \<rparr>"

definition gate_ok :: "bool \<Rightarrow> parp_tier_world \<Rightarrow> bool" where
  "gate_ok apply_built w \<longleftrightarrow>
    (let g = w_globals w; c = g_config g; ctx = w_ctx w
     in parp_control_ok apply_built g \<and>
        (\<forall>t. l_state_epoch (w_lru w t) \<le> g_state_epoch g) \<and>
        (\<forall>t. l_state_epoch (w_lru w t) = g_state_epoch g \<longrightarrow>
             g_mode g \<noteq> PARP_EFFECTIVE_TIER_OFF \<or> s_rcu_held ctx \<longrightarrow>
             (\<forall>up. lru_used up (w_lru w t) \<le> epoch_limit up c)) \<and>
        (s_rcu_held ctx \<longrightarrow>
             l_state_epoch (w_lru w (s_type ctx)) = g_state_epoch g \<and>
             (\<forall>up. ctx_used up ctx \<le> batch_limit up c)))"

text \<open>Steps that keep the control state and never push a ledger over its limit.\<close>

definition gate_frame :: "parp_tier_world \<Rightarrow> parp_tier_world \<Rightarrow> bool" where
  "gate_frame w w' \<longleftrightarrow>
    (let g = w_globals w; g' = w_globals w'; c = g_config g
     in g_config g' = c \<and> g_mode g' = g_mode g \<and> g_state_epoch g' = g_state_epoch g \<and>
        k_enabled g' = k_enabled g \<and>
        s_type (w_ctx w') = s_type (w_ctx w) \<and>
        (s_rcu_held (w_ctx w') \<longrightarrow> s_rcu_held (w_ctx w)) \<and>
        (\<forall>t. l_state_epoch (w_lru w' t) = l_state_epoch (w_lru w t)) \<and>
        (\<forall>t up. lru_used up (w_lru w' t) \<le> lru_used up (w_lru w t) \<or>
                lru_used up (w_lru w' t) \<le> epoch_limit up c) \<and>
        (\<forall>up. ctx_used up (w_ctx w') \<le> ctx_used up (w_ctx w) \<or>
              ctx_used up (w_ctx w') \<le> batch_limit up c))"

lemma gate_frame_ok:
  assumes "gate_frame w w'" and "gate_ok apply_built w"
  shows "gate_ok apply_built w'"
proof -
  have lru: "lru_used up (w_lru w' t) \<le> epoch_limit up (g_config (w_globals w))"
    if "l_state_epoch (w_lru w t) = g_state_epoch (w_globals w)"
      "g_mode (w_globals w) \<noteq> PARP_EFFECTIVE_TIER_OFF \<or> s_rcu_held (w_ctx w)" for up t
    using assms that unfolding gate_frame_def gate_ok_def Let_def by (metis order_trans)
  have ctx: "ctx_used up (w_ctx w') \<le> batch_limit up (g_config (w_globals w))"
    if "s_rcu_held (w_ctx w)" for up
    using assms that unfolding gate_frame_def gate_ok_def Let_def by (metis order_trans)
  show ?thesis
    using assms lru ctx unfolding gate_ok_def gate_frame_def parp_control_ok_def Let_def
    by auto
qed

lemma gate_frame_refl: "gate_frame w w"
  by (simp add: gate_frame_def)

lemma gate_frame_trans:
  assumes "gate_frame w w'" and "gate_frame w' w''"
  shows "gate_frame w w''"
proof -
  have le: "(a :: u64) \<le> c \<or> a \<le> l" if "a \<le> b \<or> a \<le> l" "b \<le> c \<or> b \<le> l" for a b c l
    using that by (auto intro: order_trans)
  have "lru_used up (w_lru w'' t) \<le> lru_used up (w_lru w t) \<or>
      lru_used up (w_lru w'' t) \<le> epoch_limit up (g_config (w_globals w))" for t up
    by (rule le [of _ "lru_used up (w_lru w' t)"]) (use assms in \<open>simp_all add: gate_frame_def Let_def\<close>)
  moreover have "ctx_used up (w_ctx w'') \<le> ctx_used up (w_ctx w) \<or>
      ctx_used up (w_ctx w'') \<le> batch_limit up (g_config (w_globals w))" for up
    by (rule le [of _ "ctx_used up (w_ctx w')"]) (use assms in \<open>simp_all add: gate_frame_def Let_def\<close>)
  ultimately show ?thesis using assms by (simp add: gate_frame_def Let_def)
qed

lemma frame_count: "gate_frame w (parp_decide_count n w)"
  using stats_only_simps [OF count_simps(10) [of w n]]
  by (simp add: gate_frame_def count_simps Let_def)

lemma frame_body: "body_ok f nt idx sp w w' d \<Longrightarrow> gate_frame w w'"
  unfolding gate_frame_def Let_def
  using body_frame [of f nt idx sp w w' d] body_ledgers [of f nt idx sp w w' d]
    stats_only_simps [of "w_globals w" "w_globals w'"]
  by (metis order_refl)

lemma frame_globals:
  "g_config g = g_config (w_globals w) \<Longrightarrow> g_mode g = g_mode (w_globals w) \<Longrightarrow>
   g_state_epoch g = g_state_epoch (w_globals w) \<Longrightarrow> k_enabled g = k_enabled (w_globals w) \<Longrightarrow>
   gate_frame w (w \<lparr> w_globals := g, w_page := p \<rparr>)"
  by (simp add: gate_frame_def)

lemma frame_decide:
  assumes "parp_effective_tier_decide f nt idx sp w = (w', d)"
  shows "gate_frame w w'"
proof -
  obtain wb db where b: "body_ok f nt idx sp (parp_decide_count (v_pages f) w) wb db"
    and w': "w_lru w' = w_lru wb" "w_ctx w' = w_ctx wb" "stats_only (w_globals wb) (w_globals w')"
    using decide_result [OF assms] by metis
  have "gate_frame wb w'"
    using stats_only_simps [OF w'(3)] by (simp add: gate_frame_def w' Let_def)
  then show ?thesis
    using gate_frame_trans [OF frame_count gate_frame_trans [OF frame_body [OF b]]] by blast
qed

lemma release_globals:
  assumes "parp_effective_tier_release_epoch env up tag (g, page) = (r, g', page')"
  shows "g_config g' = g_config g \<and> g_mode g' = g_mode g \<and> g_state_epoch g' = g_state_epoch g \<and>
    k_enabled g' = k_enabled g"
  using assms by (auto simp: parp_effective_tier_release_epoch_def parp_set_state_fault_def
      parp_count_unstable_def Let_def split: option.splits prod.splits if_splits)

lemma sub_le: "\<not> (a :: u64) < b \<Longrightarrow> a - b \<le> a"
  by (simp add: word_le_nat_alt word_less_nat_alt unat_sub not_less)

lemma frame_cancel:
  assumes "parp_effective_tier_cancel_reservation env (w, d) = (w', d')"
  shows "gate_frame w w'"
proof (cases "d_reservation_active d")
  case True
  obtain r g1 page1 where rel: "parp_effective_tier_release_epoch env (d_reservation_upgrade d)
      (s_epoch_tag (w_ctx w)) (w_globals w, w_page w) = (r, g1, page1)"
    by (cases "parp_effective_tier_release_epoch env (d_reservation_upgrade d)
      (s_epoch_tag (w_ctx w)) (w_globals w, w_page w)")
  note g = release_globals [OF rel]
  show ?thesis
    using assms True rel g
    by (auto simp: parp_effective_tier_cancel_reservation_def gate_frame_def Let_def used_if sub_le
        parp_set_state_fault_def split: if_splits)
next
  case False
  then show ?thesis using assms
    by (simp add: parp_effective_tier_cancel_reservation_def gate_frame_refl)
qed

lemma frame_finish:
  "gate_frame w (fst (parp_effective_tier_finish env1 env2 trace_on sort_result isolate_result (w, d)))"
proof -
  obtain wc dc where c: "(if d_reservation_active d \<and> \<not> parp_reservation_committed sort_result d
      then parp_effective_tier_cancel_reservation env1 (w, d) else (w, d)) = (wc, dc)"
    by fastforce
  have cancel: "gate_frame w wc"
    using c frame_cancel [of env1 w d wc dc] by (auto simp: gate_frame_refl split: if_splits)
  have rest: "gate_frame wc
    (fst (parp_effective_tier_finish env1 env2 trace_on sort_result isolate_result (w, d)))"
    using c by (auto simp: parp_effective_tier_finish_def Let_def gate_frame_def
        parp_finish_trace_def parp_set_state_fault_def parp_count_unstable_def
        split: prod.splits)
  show ?thesis by (rule gate_frame_trans [OF cancel rest])
qed

lemma frame_batch:
  "gate_frame w (parp_effective_tier_batch_finish trace_on w)"
  "gate_frame w (parp_effective_tier_batch_reclaim trace_on reclaimed w)"
  "gate_frame w (parp_effective_tier_feedback lru_type run_epoch isolated reclaimed w)"
  by (simp_all add: gate_frame_def parp_effective_tier_batch_finish_def Let_def ctx_used_def
      parp_effective_tier_trace_batch_def parp_effective_tier_batch_reclaim_def lru_used_def
      parp_effective_tier_feedback_def)

lemma gate_prepare_ok:
  assumes "gate_ok apply_built w" and "\<not> s_rcu_held (w_ctx w)"
  shows "gate_ok apply_built (parp_effective_tier_prepare lru_type r w)"
proof (cases "g_mode (w_globals w) = PARP_EFFECTIVE_TIER_OFF \<or> g_state_fault (w_globals w) \<or>
    parp_runtime_config_read (w_globals w) = None")
  case True
  then have "\<exists>ctx. parp_effective_tier_prepare lru_type r w = w \<lparr> w_ctx := ctx \<rparr> \<and> \<not> s_rcu_held ctx"
    by (auto simp: parp_effective_tier_prepare_def Let_def scan_ctx_zero_def split: option.splits)
  then show ?thesis using assms by (auto simp: gate_ok_def Let_def)
next
  case False
  define w' where "w' = parp_effective_tier_prepare lru_type r w"
  define st where "st = parp_tier_tag_step (parp_tier_epoch_reset (g_state_epoch (w_globals w))
    (r_min_seq r) (w_lru w lru_type))"
  have w': "w_lru w' = (w_lru w) (lru_type := st)" "s_type (w_ctx w') = lru_type"
    "ctx_used up (w_ctx w') = 0"
    "w_globals w' = (w_globals w) \<lparr> g_batch_id := g_batch_id (w_globals w) + 1 \<rparr>" for up
    using False by (auto simp: w'_def st_def parp_effective_tier_prepare_def Let_def
        scan_ctx_zero_def ctx_used_def)
  have st: "l_state_epoch st = g_state_epoch (w_globals w)"
    "lru_used up st = 0 \<or> (lru_used up st = lru_used up (w_lru w lru_type) \<and>
       l_state_epoch (w_lru w lru_type) = g_state_epoch (w_globals w))" for up
    by (auto simp: st_def parp_tier_tag_step_def parp_tier_epoch_reset_def Let_def lru_used_def)
  have "lru_used up st \<le> epoch_limit up (g_config (w_globals w))" for up
    using st(2) [of up] assms(1) False unfolding gate_ok_def Let_def by auto
  then show ?thesis
    using assms(1) st(1) False unfolding w'_def [symmetric] gate_ok_def Let_def w'
    by (auto simp: parp_control_ok_def)
qed

lemma gate_control_ok:
  assumes "gate_ok apply_built w" and "\<not> s_rcu_held (w_ctx w)"
    and step: "parp_control_step apply_built (w_globals w) g"
  shows "gate_ok apply_built (w \<lparr> w_globals := g \<rparr>)"
proof -
  have ok: "parp_control_ok apply_built g"
    using control_step_ok [OF step] assms(1) by (simp add: gate_ok_def Let_def)
  have kept: "g_state_epoch (w_globals w) < g_state_epoch g \<or>
      (g_state_epoch g = g_state_epoch (w_globals w) \<and>
       (g_mode g = PARP_EFFECTIVE_TIER_OFF \<or>
        (g_mode (w_globals w) \<noteq> PARP_EFFECTIVE_TIER_OFF \<and> g_config g = g_config (w_globals w))))"
    using step
  proof (cases rule: parp_control_step.cases)
    case (mode m)
    then show ?thesis using set_mode_shape [OF mode] by auto
  next
    case (config input)
    then show ?thesis
      by (auto simp: parp_effective_tier_set_config_def Let_def split: if_splits option.splits)
  qed (auto simp: parp_effective_tier_mglru_state_change_def parp_set_state_fault_def
      parp_count_unstable_def parp_effective_tier_page_ext_init_def)
  have epochs: "l_state_epoch (w_lru w t) \<le> g_state_epoch (w_globals w)" for t
    using assms(1) by (simp add: gate_ok_def Let_def)
  then have le: "l_state_epoch (w_lru w t) \<le> g_state_epoch g" for t
    using kept order_trans [of "l_state_epoch (w_lru w t)" "g_state_epoch (w_globals w)"
      "g_state_epoch g"] by auto
  have lim: "lru_used up (w_lru w t) \<le> epoch_limit up (g_config g)"
    if "l_state_epoch (w_lru w t) = g_state_epoch g" "g_mode g \<noteq> PARP_EFFECTIVE_TIER_OFF" for t up
  proof -
    have "\<not> g_state_epoch (w_globals w) < g_state_epoch g" using epochs [of t] that(1) by auto
    then have "g_state_epoch g = g_state_epoch (w_globals w)"
      "g_mode (w_globals w) \<noteq> PARP_EFFECTIVE_TIER_OFF" "g_config g = g_config (w_globals w)"
      using kept that(2) by auto
    then show ?thesis using assms(1) that(1) by (simp add: gate_ok_def Let_def)
  qed
  show ?thesis using ok le lim assms(2) by (simp add: gate_ok_def Let_def)
qed

lemma gate_switch_off_ok:
  assumes "gate_ok apply_built w"
  shows "gate_ok apply_built (w \<lparr> w_globals :=
    snd (parp_effective_tier_set_mode apply_built PARP_EFFECTIVE_TIER_OFF (w_globals w)) \<rparr>)"
proof -
  let ?g = "snd (parp_effective_tier_set_mode apply_built PARP_EFFECTIVE_TIER_OFF (w_globals w))"
  have "parp_control_ok apply_built ?g"
    using assms set_mode_ok by (simp add: gate_ok_def Let_def)
  moreover have "g_config ?g = g_config (w_globals w) \<and>
      g_state_epoch ?g = g_state_epoch (w_globals w) \<and> g_mode ?g = PARP_EFFECTIVE_TIER_OFF"
    by (simp add: parp_effective_tier_set_mode_def mode_le_recency off_not_apply)
  ultimately show ?thesis using assms by (simp add: gate_ok_def Let_def)
qed

lemma gate_step_ok:
  "parp_gate_step apply_built w w' \<Longrightarrow> gate_ok apply_built w \<Longrightarrow> gate_ok apply_built w'"
proof (induction rule: parp_gate_step.induct)
  case (decide w f nt idx sp)
  then show ?case
    using frame_decide [of f nt idx sp w] gate_frame_ok
    by (cases "parp_effective_tier_decide f nt idx sp w") auto
next
  case (folio w p)
  then show ?case by (simp add: gate_ok_def Let_def)
next
  case (fault w)
  then show ?case by (simp add: gate_ok_def Let_def parp_set_state_fault_def parp_control_ok_def)
qed (blast intro: gate_prepare_ok gate_frame_ok frame_finish frame_batch gate_switch_off_ok
    gate_control_ok)+

lemma gate_boot_ok: "gate_ok apply_built parp_gate_boot"
  using boot_ok by (simp add: gate_ok_def parp_gate_boot_def parp_tier_boot_def scan_ctx_zero_def
      Let_def)

lemma gate_reach_ok:
  "parp_gate_reach apply_built w w' \<Longrightarrow> gate_ok apply_built w \<Longrightarrow> gate_ok apply_built w'"
  by (induction rule: parp_gate_reach.induct) (auto intro: gate_step_ok)

section \<open>Properties\<close>

text \<open>C5. Through any interleaving of batches, decisions, cancellations, feedback, faults and
  control writes since boot, no ledger of the running epoch exceeds its configured limit: while a
  mode is active, every per-type epoch ledger of the current run, and in an open batch also the
  batch ledgers, stay within the upgrade and downgrade page limits.\<close>

theorem parp_gate_budgets_hold:
  assumes "parp_gate_reach apply_built parp_gate_boot w"
  shows "(g_mode (w_globals w) \<noteq> PARP_EFFECTIVE_TIER_OFF \<longrightarrow>
      (\<forall>t. l_state_epoch (w_lru w t) = g_state_epoch (w_globals w) \<longrightarrow>
         l_upgrade_pages (w_lru w t) \<le> c_upgrade_epoch_pages (g_config (w_globals w)) \<and>
         l_downgrade_pages (w_lru w t) \<le> c_downgrade_epoch_pages (g_config (w_globals w)))) \<and>
    (s_rcu_held (w_ctx w) \<longrightarrow>
       s_upgrade_pages (w_ctx w) \<le> c_upgrade_batch_pages (g_config (w_globals w)) \<and>
       s_downgrade_pages (w_ctx w) \<le> c_downgrade_batch_pages (g_config (w_globals w)))"
proof -
  have ok: "gate_ok apply_built w" by (rule gate_reach_ok [OF assms gate_boot_ok])
  have lru: "lru_used up (w_lru w t) \<le> epoch_limit up (g_config (w_globals w))"
    if "g_mode (w_globals w) \<noteq> PARP_EFFECTIVE_TIER_OFF"
      "l_state_epoch (w_lru w t) = g_state_epoch (w_globals w)" for up t
    using ok that by (simp add: gate_ok_def Let_def)
  have ctx: "ctx_used up (w_ctx w) \<le> batch_limit up (g_config (w_globals w))"
    if "s_rcu_held (w_ctx w)" for up
    using ok that by (simp add: gate_ok_def Let_def)
  show ?thesis
    using lru [of _ True] lru [of _ False] ctx [of True] ctx [of False]
    by (simp add: lru_used_def epoch_limit_def ctx_used_def batch_limit_def)
qed

text \<open>Witness of C5: BIDIRECTIONAL is switched on and a batch is opened for file folios.\<close>

theorem parp_gate_budgets_hold_witness:
  "\<exists>w. parp_gate_reach True parp_gate_boot w \<and> s_rcu_held (w_ctx w) \<and>
     s_upgrade_pages (w_ctx w) \<le> c_upgrade_batch_pages (g_config (w_globals w))"
proof -
  define g where
    "g = snd (parp_effective_tier_set_mode True PARP_EFFECTIVE_TIER_BIDIRECTIONAL parp_tier_boot)"
  define w1 where "w1 = parp_gate_boot \<lparr> w_globals := g \<rparr>"
  define r where "r = \<lparr> r_nid = 0, r_memcg_id = 1, r_min_seq = 5, r_priority = 12,
    r_nr_to_reclaim = 32, r_nr_reclaimed = 0, r_is_kswapd = True, r_is_memcg = False,
    r_proactive = False \<rparr>"
  define w where "w = parp_effective_tier_prepare True r w1"
  have g: "g_mode g = PARP_EFFECTIVE_TIER_BIDIRECTIONAL" "\<not> g_state_fault g"
    "parp_runtime_config_read g = Some (g_config g)"
    by (simp_all add: g_def parp_effective_tier_set_mode_def config_read_iff parp_tier_boot_def
        parp_tier_config_default_def mode_le_recency less_eq_parp_effective_tier_mode_def)
  have "parp_gate_step True parp_gate_boot w1"
    unfolding w1_def g_def
    by (rule parp_gate_step.control)
      (simp_all add: parp_gate_boot_def scan_ctx_zero_def parp_control_step.mode)
  moreover have "parp_gate_step True w1 w"
    unfolding w_def by (rule parp_gate_step.prepare)
      (simp add: w1_def parp_gate_boot_def scan_ctx_zero_def)
  ultimately have reach: "parp_gate_reach True parp_gate_boot w"
    by (blast intro: parp_gate_reach.intros)
  have "s_rcu_held (w_ctx w)"
    using g by (simp add: w_def w1_def parp_effective_tier_prepare_def Let_def)
  then show ?thesis using parp_gate_budgets_hold [OF reach] reach by blast
qed

text \<open>C6. A decision deviates from the native protection only when its mode applies the predicted
  action, the gate is open and budget was reserved: the epoch ledger of its direction has grown by
  exactly the folio's pages, without wrapping and within the epoch limit. In SHADOW mode the answer
  is the native one and the lruvec's ledgers are untouched.\<close>

theorem parp_decide_deviates_only_with_reservation:
  assumes "parp_effective_tier_decide f nt idx sp w = (w', d)"
  shows "(d_actual_tier_protect d \<noteq> (sp \<or> clamp nt 0 3 > clamp idx 0 3) \<longrightarrow>
      d_reservation_active d \<and> \<not> sp \<and>
      \<not> s_severe_pressure (w_ctx w) \<and> \<not> s_no_progress (w_ctx w) \<and>
      parp_effective_tier_action_applies (s_mode (w_ctx w)) (d_action d) \<and>
      (let up = d_reservation_upgrade d; t = s_type (w_ctx w)
       in d_action d = (if up then PARP_TIER_PREDICTIVE_UPGRADE
                        else PARP_TIER_PREDICTIVE_DOWNGRADE) \<and>
          unat (lru_used up (w_lru w' t)) = unat (lru_used up (w_lru w t)) + unat (v_pages f) \<and>
          lru_used up (w_lru w' t) \<le> epoch_limit up (g_config (w_globals w)))) \<and>
    (s_mode (w_ctx w) = PARP_EFFECTIVE_TIER_SHADOW \<longrightarrow>
       d_actual_tier_protect d = (sp \<or> clamp nt 0 3 > clamp idx 0 3) \<and> w_lru w' = w_lru w)"
proof -
  define wc where "wc = parp_decide_count (v_pages f) w"
  obtain wb db where body: "body_ok f nt idx sp wc wb db"
    and w': "w_lru w' = w_lru wb"
    and d: "d_action d = d_action db" "d_reservation_active d = d_reservation_active db"
      "d_reservation_upgrade d = d_reservation_upgrade db"
      "d_actual_tier_protect d = parp_effective_tier_actual_protect (s_mode (w_ctx wb)) db"
    using decide_result [OF assms] unfolding wc_def by metis
  have mode: "s_mode (w_ctx wb) = s_mode (w_ctx w)"
    using body_frame(2) [OF body] by (simp add: wc_def count_simps)
  have config: "g_config (w_globals wc) = g_config (w_globals w)"
    using stats_only_simps [OF count_simps(10) [of w "v_pages f"]] by (simp add: wc_def)
  obtain wm ns where wm: "w_lru wm = w_lru wc" "w_ctx wm = (w_ctx wc) \<lparr> s_model_time_ns := ns \<rparr>"
    and spent: "spent (g_config (w_globals w)) (v_pages f) wm wb db"
    and ok: "decision_ok (clamp nt 0 3 > clamp idx 0 3) sp (s_mode (w_ctx w)) db"
    and shut: "s_severe_pressure (w_ctx w) \<or> s_no_progress (w_ctx w) \<longrightarrow> \<not> predicted db \<or> sp"
    using body by (auto simp: body_ok_def config) (auto simp: wc_def count_simps)
  have deviates: "d_actual_tier_protect d \<noteq> (sp \<or> clamp nt 0 3 > clamp idx 0 3) \<longleftrightarrow>
      parp_effective_tier_action_applies (s_mode (w_ctx w)) (d_action db)"
    using ok actual_protect_bits [of db "s_mode (w_ctx w)"] by (simp add: d mode decision_ok_def)
  have applied: "d_reservation_active d \<and> \<not> sp \<and>
      \<not> s_severe_pressure (w_ctx w) \<and> \<not> s_no_progress (w_ctx w)"
    if "parp_effective_tier_action_applies (s_mode (w_ctx w)) (d_action db)"
  proof -
    have "predicted db" using that by (rule applies_predicted)
    moreover from this have "\<not> sp"
      using ok by (auto simp: decision_ok_def action_bits_def predicted_def)
    ultimately show ?thesis using ok that shut by (auto simp: decision_ok_def d)
  qed
  have ledger: "d_action d = (if up then PARP_TIER_PREDICTIVE_UPGRADE
        else PARP_TIER_PREDICTIVE_DOWNGRADE) \<and>
      unat (lru_used up (w_lru w' t)) = unat (lru_used up (w_lru w t)) + unat (v_pages f) \<and>
      lru_used up (w_lru w' t) \<le> epoch_limit up (g_config (w_globals w))"
    if "d_reservation_active db" "up = d_reservation_upgrade d" "t = s_type (w_ctx w)" for up t
  proof -
    have ty: "s_type (w_ctx wm) = t" using that(3) by (simp add: wm wc_def count_simps)
    have "lru_used up (w_lru wm t) = lru_used up (w_lru w t)"
      by (simp add: wm wc_def count_simps)
    then show ?thesis
      using spent that(1,2) allows_sum ty unfolding spent_def Let_def
      by (auto simp: d w' used_if)
  qed
  have shadow: "w_lru w' = w_lru w" if "s_mode (w_ctx w) = PARP_EFFECTIVE_TIER_SHADOW"
  proof -
    have "w_lru wm = w_lru w" using that by (simp add: wm wc_def count_simps)
    moreover have "s_mode (w_ctx wm) = PARP_EFFECTIVE_TIER_SHADOW"
      using that by (simp add: wm wc_def count_simps)
    ultimately show ?thesis
      using spent unfolding spent_def Let_def
      by (auto simp: w' parp_effective_tier_action_applies_def split: if_splits)
  qed
  have "\<not> parp_effective_tier_action_applies PARP_EFFECTIVE_TIER_SHADOW a" for a
    by (simp add: parp_effective_tier_action_applies_def)
  then show ?thesis using deviates applied ledger shadow d(1,2) by (auto simp: Let_def)
qed

text \<open>
  A concrete world for the witnesses: BIDIRECTIONAL mode, one open batch for file folios, and a page
  accessed 5 ms ago with two short intervals behind it.
\<close>

definition sample_folio :: parp_folio_view where
  "sample_folio = \<lparr> v_pages = 1, v_gen = 0, v_pfn = 7, v_hash = (\<lambda>_ _. 0), v_now_ms = 1000,
     v_decision_start_ns = 0, v_score_start_ns = 10, v_score_end_ns = 20, v_decision_end_ns = 50,
     v_env_features = quiet, v_env_claim = quiet \<rparr>"

definition sample_page :: parp_reuse_page_ext where
  "sample_page = \<lparr> ext_last_access_ms = 995, ext_previous_interval_ms = 5,
     ext_reuse_interval_ema_ms = 5, ext_generation_enter_ms = 990, ext_lifetime_epoch = 1,
     ext_state = 0x80000 OR 0xF0, ext_decision_epochs = 0x1000000 \<rparr>"

definition sample_request :: parp_prepare_request where
  "sample_request = \<lparr> r_nid = 0, r_memcg_id = 1, r_min_seq = 5, r_priority = 12,
     r_nr_to_reclaim = 32, r_nr_reclaimed = 0, r_is_kswapd = True, r_is_memcg = False,
     r_proactive = False \<rparr>"

definition sample_world :: parp_tier_world where
  "sample_world = (parp_effective_tier_prepare True sample_request
     (parp_gate_boot \<lparr> w_globals := snd (parp_effective_tier_set_mode True
        PARP_EFFECTIVE_TIER_BIDIRECTIONAL parp_tier_boot) \<rparr>)) \<lparr> w_page := Some sample_page \<rparr>"

lemma sample_decided:
  "case parp_effective_tier_decide sample_folio 0 1 False sample_world of
     (w', d) \<Rightarrow> d_actual_tier_protect d \<and> d_reservation_active d \<and> d_reservation_upgrade d"
  by code_simp

text \<open>Witness of C6: the hot sample folio is upgraded although its native tier would reclaim it.\<close>

theorem parp_decide_deviates_only_with_reservation_witness:
  "\<exists>w' d. parp_effective_tier_decide sample_folio 0 1 False sample_world = (w', d) \<and>
     d_actual_tier_protect d \<and> d_reservation_active d \<and>
     d_action d = PARP_TIER_PREDICTIVE_UPGRADE"
proof -
  obtain w' d where run: "parp_effective_tier_decide sample_folio 0 1 False sample_world = (w', d)"
    by fastforce
  have "d_actual_tier_protect d" "d_reservation_upgrade d"
    using sample_decided by (simp_all only: run prod.case)
  then show ?thesis
    using parp_decide_deviates_only_with_reservation [OF run] run by (auto simp: Let_def clamp_def)
qed

end
