(* ===== verification/Tier_Batch.thy ===== *)
theory Tier_Batch
  imports Tier_Gate
begin

text \<open>
  Properties of whole batches of the effective tier: a cancelled reservation leaves no trace in the
  ledgers or in the page's claim, and three batches without progress close the gate.
\<close>

text \<open>A real reservation is backed by a claim in the page's metadata.\<close>

definition claimed :: "parp_tier_world \<Rightarrow> parp_tier_decision \<Rightarrow> bool" where
  "claimed w d \<longleftrightarrow> (d_reservation_active d \<longrightarrow>
     (\<exists>ext. w_page w = Some ext \<and> \<not> bit (ext_state ext) 21 \<and>
        epochs_run (ext_decision_epochs ext) = ucast (g_state_epoch (w_globals w)) \<and>
        epochs_previous (d_reservation_upgrade d) (ext_decision_epochs ext) =
          s_epoch_tag (w_ctx w)))"

lemma claim_leaves:
  assumes "parp_effective_tier_claim_epoch_sequence env epoch up tag expected page = (Inr seq, page1)"
    and "unat tag < 2 ^ 12"
  shows "\<exists>ext. page1 = Some ext \<and> \<not> bit (ext_state ext) 21 \<and>
    epochs_run (ext_decision_epochs ext) = ucast epoch \<and>
    epochs_previous up (ext_decision_epochs ext) = tag"
proof -
  have tag: "tag AND mask 12 = tag" using assms(2) by (rule and_mask_small)
  obtain ext where page: "page = Some ext"
    using assms(1) by (cases page) (auto simp: parp_effective_tier_claim_epoch_sequence_def)
  obtain old ext1 where enter: "parp_state_write_begin env ext = (Some old, ext1)"
    using assms(1) page
    by (auto simp: parp_effective_tier_claim_epoch_sequence_def split: prod.splits option.splits)
  have run: "epochs_run (ext_decision_epochs ext1) = ucast epoch"
    and page1: "page1 = Some (parp_state_write_end old old
      (ext1 \<lparr> ext_decision_epochs := epochs_with up tag (ext_decision_epochs ext1) \<rparr>))"
    using assms(1) enter page
    by (auto simp: parp_effective_tier_claim_epoch_sequence_def Let_def split: if_splits)
  show ?thesis
    using write_begin_enters(1) [OF enter] epochs_with_fields [OF tag] run
    by (simp add: page1 parp_state_write_end_def released_even)
qed

lemma reserve_claims:
  assumes "parp_decide_reserve up config f seq (w, d) = (w', d', seq')"
    and "\<not> d_reservation_active d" and "unat (s_epoch_tag (w_ctx w)) < 2 ^ 12"
  shows "claimed w' d'"
  using assms claim_leaves fallback_fields(4)
  by (auto simp: parp_decide_reserve_def claimed_def Let_def
      split: if_splits sum.splits prod.splits)

lemma gate_claims:
  assumes "parp_decide_gate config f nt idx snap (w, d) = (w', d', seq')"
    and "\<not> d_reservation_active d" and "unat (s_epoch_tag (w_ctx w)) < 2 ^ 12"
  shows "claimed w' d'"
proof -
  have "\<not> d_reservation_active d' \<or>
      (\<exists>up seq. parp_decide_reserve up config f seq (w, d) = (w', d', seq'))"
    using assms(1,2) fallback_fields(4)
    by (auto simp: parp_decide_gate_def parp_effective_tier_upgrade_gate_def Let_def
        split: if_splits)
  then show ?thesis using reserve_claims assms(2,3) by (auto simp: claimed_def)
qed

lemma body_claims:
  assumes "parp_decide_body f nt idx sp w = (w', d, loc)" and "unat (s_epoch_tag (w_ctx w)) < 2 ^ 12"
  shows "claimed w' d"
proof -
  let ?g = "w_globals w"
  let ?config = "g_config ?g"
  let ?native = "\<lambda>policy b.
    parp_effective_tier_classify 0 False nt idx sp policy \<lparr> d_bypass := b \<rparr>"
  obtain valid vals snap page1 where feats:
    "parp_candidate_features (v_env_features f) (g_state_epoch ?g) (v_now_ms f) (v_gen f)
       (w_page w) (replicate 6 0) snapshot_zero = (valid, vals, snap, page1)"
    by (cases "parp_candidate_features (v_env_features f) (g_state_epoch ?g) (v_now_ms f) (v_gen f)
       (w_page w) (replicate 6 0) snapshot_zero")
  let ?score = "parp_decide_score ?config f (w_ctx w) nt idx vals snap"
  let ?ns = "s_model_time_ns (w_ctx w) + (v_score_end_ns f - v_score_start_ns f)"
  let ?w2 = "parp_stats_update (account_score (v_score_end_ns f - v_score_start_ns f) (?score \<noteq> None))
    (w \<lparr> w_page := page1, w_ctx := (w_ctx w) \<lparr> s_model_time_ns := ?ns \<rparr> \<rparr>)"
  let ?d = "parp_effective_tier_classify (case ?score of None \<Rightarrow> 0 | Some v \<Rightarrow> v) (?score \<noteq> None)
    nt idx sp (Some (c_policy ?config))"
  have "(\<exists>b p. d = ?native p b) \<or> d = ?d \<or>
      (\<exists>seq. parp_decide_gate ?config f nt idx snap (?w2, ?d) = (w', d, seq))"
    using assms(1) feats
    by (auto simp: parp_decide_body_def Let_def dest!: config_read_some
        split: if_splits option.splits prod.splits)
  moreover have "unat (s_epoch_tag (w_ctx ?w2)) < 2 ^ 12" using assms(2) by simp
  ultimately show ?thesis
    using gate_claims [of ?config f nt idx snap ?w2 ?d w' d] classify_native(2)
    by (auto simp: claimed_def)
qed

lemma decide_claims:
  assumes "parp_effective_tier_decide f nt idx sp w = (w', d)" and "unat (s_epoch_tag (w_ctx w)) < 2 ^ 12"
  shows "claimed w' d"
proof -
  obtain wb db loc where body: "parp_decide_body f nt idx sp (parp_decide_count (v_pages f) w) =
      (wb, db, loc)"
    by (cases "parp_decide_body f nt idx sp (parp_decide_count (v_pages f) w)")
  have "claimed wb db"
    using body_claims [OF body] assms(2) by (simp add: parp_decide_count_def Let_def)
  then show ?thesis
    using assms(1) body by (auto simp: parp_effective_tier_decide_def Let_def claimed_def)
qed

lemma release_quiet:
  assumes "\<not> bit (ext_state ext) 21"
    and "epochs_run (ext_decision_epochs ext) = ucast (g_state_epoch g)"
    and "epochs_previous up (ext_decision_epochs ext) = tag"
  shows "parp_effective_tier_release_epoch quiet up tag (g, Some ext) =
    (True, g, Some (parp_state_write_end (ext_state ext) (ext_state ext)
       (ext \<lparr> ext_state := parp_state_locked (ext_state ext),
              ext_decision_epochs := epochs_with up 0 (ext_decision_epochs ext) \<rparr>)))"
  using assms by (simp add: parp_effective_tier_release_epoch_def write_begin_quiet Let_def)

lemma unat_sub_add: "unat (a + n) = unat a + unat n \<Longrightarrow> (a + n) - n = (a :: u64) \<and> \<not> a + n < n"
  by (simp add: word_less_nat_alt)

text \<open>The ledgers after a decision that reserved.\<close>

lemma decide_reserved_ledgers:
  assumes "parp_effective_tier_decide f nt idx sp w = (w', d)" and "d_reservation_active d"
  defines "up \<equiv> d_reservation_upgrade d" and "ty \<equiv> s_type (w_ctx w)"
  shows "ctx_used b (w_ctx w') = ctx_used b (w_ctx w) + (if b = up then v_pages f else 0)"
    and "lru_used b (w_lru w' t) =
      lru_used b (w_lru w t) + (if b = up \<and> t = ty then v_pages f else 0)"
    and "unat (ctx_used up (w_ctx w')) = unat (ctx_used up (w_ctx w)) + unat (v_pages f)"
    and "unat (lru_used up (w_lru w' ty)) = unat (lru_used up (w_lru w ty)) + unat (v_pages f)"
    and "s_type (w_ctx w') = ty" and "d_folio_nr_pages d = v_pages f"
    and "g_state_fault (w_globals w') = g_state_fault (w_globals w)"
proof -
  define wc where "wc = parp_decide_count (v_pages f) w"
  obtain wb db where body: "body_ok f nt idx sp wc wb db"
    and w': "w_lru w' = w_lru wb" "w_ctx w' = w_ctx wb" "stats_only (w_globals wb) (w_globals w')"
    and d: "d_reservation_active db" "up = d_reservation_upgrade db" "d_folio_nr_pages d = v_pages f"
    using decide_result [OF assms(1)] assms(2) unfolding wc_def up_def by metis
  obtain wm ns where wm: "w_lru wm = w_lru wc" "w_ctx wm = (w_ctx wc) \<lparr> s_model_time_ns := ns \<rparr>"
    and spent: "spent (g_config (w_globals wc)) (v_pages f) wm wb db"
    using body by (auto simp: body_ok_def)
  have "ctx_used b (w_ctx wm) = ctx_used b (w_ctx wc)" for b
    by (simp add: wm ctx_used_def)
  then have base: "ctx_used b (w_ctx wm) = ctx_used b (w_ctx w)"
    "lru_used b (w_lru wm t) = lru_used b (w_lru w t)" "s_type (w_ctx wm) = ty" for b t
    by (simp_all add: wm wc_def count_simps ty_def)
  have eq: "w_ctx w' = ctx_set_used up (ctx_used up (w_ctx wm) + v_pages f) (w_ctx wm)"
    "w_lru w' = (w_lru wm) (ty := lru_set_used up (lru_used up (w_lru wm ty) + v_pages f) (w_lru wm ty))"
    "unat (ctx_used up (w_ctx wm) + v_pages f) = unat (ctx_used up (w_ctx wm)) + unat (v_pages f)"
    "unat (lru_used up (w_lru wm ty) + v_pages f) =
       unat (lru_used up (w_lru wm ty)) + unat (v_pages f)"
    using spent d(1,2) allows_sum(2) base(3) unfolding spent_def Let_def w' by auto
  show "ctx_used b (w_ctx w') = ctx_used b (w_ctx w) + (if b = up then v_pages f else 0)"
    "lru_used b (w_lru w' t) = lru_used b (w_lru w t) + (if b = up \<and> t = ty then v_pages f else 0)"
    using base by (auto simp: eq used_if)
  show "unat (ctx_used up (w_ctx w')) = unat (ctx_used up (w_ctx w)) + unat (v_pages f)"
    "unat (lru_used up (w_lru w' ty)) = unat (lru_used up (w_lru w ty)) + unat (v_pages f)"
    using eq base by (auto simp: used_if)
  show "s_type (w_ctx w') = ty" using base(3) by (simp add: eq)
  show "d_folio_nr_pages d = v_pages f" by (rule d(3))
  show "g_state_fault (w_globals w') = g_state_fault (w_globals w)"
    using stats_only_simps [OF w'(3)] stats_only_simps [OF body_frame(7) [OF body]]
      stats_only_simps [OF count_simps(10) [of w "v_pages f"]] by (simp add: wc_def)
qed

section \<open>Properties\<close>

text \<open>C25. Cancelling the reservation of a decision, undisturbed, undoes it completely: every batch
  and epoch ledger is back to its value before the decision, no fault is raised, the page no longer
  carries the claim, and the decision holds no reservation.\<close>

theorem parp_cancel_restores_ledgers:
  assumes "parp_effective_tier_decide f nt idx sp w = (w', d)" and "d_reservation_active d"
    and "unat (s_epoch_tag (w_ctx w)) < 2 ^ 12"
    and "parp_effective_tier_cancel_reservation quiet (w', d) = (w'', d'')"
  shows "(\<forall>up. ctx_used up (w_ctx w'') = ctx_used up (w_ctx w)) \<and>
    (\<forall>up t. lru_used up (w_lru w'' t) = lru_used up (w_lru w t)) \<and>
    g_state_fault (w_globals w'') = g_state_fault (w_globals w) \<and>
    (\<exists>ext. w_page w'' = Some ext \<and>
       epochs_previous (d_reservation_upgrade d) (ext_decision_epochs ext) = 0) \<and>
    \<not> d_reservation_active d''"
proof -
  define up where "up = d_reservation_upgrade d"
  define ty where "ty = s_type (w_ctx w)"
  note led = decide_reserved_ledgers [OF assms(1,2), folded up_def ty_def]
  obtain ext where page: "w_page w' = Some ext" and even: "\<not> bit (ext_state ext) 21"
    and run: "epochs_run (ext_decision_epochs ext) = ucast (g_state_epoch (w_globals w'))"
    and tag: "epochs_previous up (ext_decision_epochs ext) = s_epoch_tag (w_ctx w')"
    using decide_claims [OF assms(1,3)] assms(2) by (auto simp: claimed_def up_def)
  define ext2 where "ext2 = parp_state_write_end (ext_state ext) (ext_state ext)
    (ext \<lparr> ext_state := parp_state_locked (ext_state ext),
       ext_decision_epochs := epochs_with up 0 (ext_decision_epochs ext) \<rparr>)"
  note release = release_quiet [OF even run tag, folded ext2_def]
  have enough: "\<not> ctx_used up (w_ctx w') < v_pages f" "\<not> lru_used up (w_lru w' ty) < v_pages f"
    using led(3,4) by (simp_all add: word_less_nat_alt)
  have w'': "w'' = w' \<lparr> w_page := Some ext2,
      w_ctx := ctx_set_used up (ctx_used up (w_ctx w') - v_pages f) (w_ctx w'),
      w_lru := (w_lru w') (ty := lru_set_used up (lru_used up (w_lru w' ty) - v_pages f) (w_lru w' ty)) \<rparr>"
    and d'': "\<not> d_reservation_active d''"
    using assms(2,4) release page enough led(5,6)
    by (auto simp: parp_effective_tier_cancel_reservation_def Let_def up_def)
  have "epochs_previous up (ext_decision_epochs ext2) = 0"
    using epochs_with_fields(1) [of 0 up] by (simp add: ext2_def parp_state_write_end_def)
  then show ?thesis
    using led(1,2,7) d'' by (simp add: w'' used_if up_def)
qed

text \<open>Witness of C25: the upgrade of the sample folio is cancelled.\<close>

theorem parp_cancel_restores_ledgers_witness:
  "\<exists>w' d w'' d''. parp_effective_tier_decide sample_folio 0 1 False sample_world = (w', d) \<and>
     d_reservation_active d \<and>
     parp_effective_tier_cancel_reservation quiet (w', d) = (w'', d'') \<and>
     s_upgrade_pages (w_ctx w'') = s_upgrade_pages (w_ctx sample_world)"
proof -
  obtain w' d where run: "parp_effective_tier_decide sample_folio 0 1 False sample_world = (w', d)"
    by (cases "parp_effective_tier_decide sample_folio 0 1 False sample_world")
  obtain w'' d'' where cancel: "parp_effective_tier_cancel_reservation quiet (w', d) = (w'', d'')"
    by (cases "parp_effective_tier_cancel_reservation quiet (w', d)")
  have tag: "unat (s_epoch_tag (w_ctx sample_world)) < 2 ^ 12"
    by code_simp
  have active: "d_reservation_active d"
    using sample_decided by (simp only: run prod.case)
  have "ctx_used True (w_ctx w'') = ctx_used True (w_ctx sample_world)"
    using parp_cancel_restores_ledgers [OF run active tag cancel] by (elim conjE allE)
  then show ?thesis using run cancel active unfolding ctx_used_def if_True by blast
qed

lemma feedback_step:
  assumes "run_epoch \<noteq> 0" "run_epoch = g_state_epoch (w_globals w)"
    "l_state_epoch (w_lru w ty) = run_epoch" "isolated \<noteq> 0"
  shows "parp_effective_tier_feedback ty run_epoch isolated 0 w =
    w \<lparr> w_lru := (w_lru w) (ty := (w_lru w ty) \<lparr> l_no_progress_rounds :=
          (if l_no_progress_rounds (w_lru w ty) < 0xFFFF then l_no_progress_rounds (w_lru w ty) + 1
           else l_no_progress_rounds (w_lru w ty)) \<rparr>) \<rparr>"
  using assms by (auto simp: parp_effective_tier_feedback_def Let_def)

text \<open>The rounds after one batch that isolated folios and reclaimed none.\<close>

definition next_rounds :: "u16 \<Rightarrow> u16" where
  "next_rounds n = (if n < 0xFFFF then n + 1 else n)"

lemma unat_next_rounds: "unat (next_rounds n) = min (unat n + 1) 0xFFFF"
proof (cases "n < 0xFFFF")
  case True
  then have "unat n < 0xFFFF" by (simp add: word_less_nat_alt)
  then have "unat (n + 1) = unat n + 1" by (subst unat_add_lem [THEN iffD1]) simp_all
  then show ?thesis using True \<open>unat n < 0xFFFF\<close> by (simp add: next_rounds_def)
next
  case False
  then have "0xFFFF \<le> unat n" by (simp add: word_less_nat_alt)
  moreover have "unat n < 0x10000" using unsigned_less [of n, where 'a = nat] by simp
  ultimately show ?thesis using False by (simp add: next_rounds_def)
qed

text \<open>Three batches of the current run that isolate folios and reclaim none close the gate: the
  next batch on the same source generation is opened under critical pressure, and every decision in
  it keeps the native protection and reserves nothing.\<close>

theorem parp_no_progress_closes_gate:
  assumes "g_mode (w_globals w) \<noteq> PARP_EFFECTIVE_TIER_OFF" "\<not> g_state_fault (w_globals w)"
    and "parp_runtime_config_read (w_globals w) \<noteq> None"
    and "run = g_state_epoch (w_globals w)" "run \<noteq> 0" "l_state_epoch (w_lru w ty) = run"
    and "l_epoch_id (w_lru w ty) \<noteq> 0" "l_source_seq (w_lru w ty) = r_min_seq r"
    and "i1 \<noteq> 0" "i2 \<noteq> 0" "i3 \<noteq> 0"
    and "w3 = parp_effective_tier_feedback ty run i3 0
           (parp_effective_tier_feedback ty run i2 0 (parp_effective_tier_feedback ty run i1 0 w))"
    and "w4 = parp_effective_tier_prepare ty r w3"
    and "parp_effective_tier_decide f nt idx sp (w4 \<lparr> w_page := p \<rparr>) = (w5, d)"
  shows "s_enabled (w_ctx w4) \<and> s_pressure_level_kernel (w_ctx w4) = PARP_PRESSURE_CRITICAL \<and>
    d_actual_tier_protect d = (sp \<or> clamp nt 0 3 > clamp idx 0 3) \<and> \<not> d_reservation_active d"
proof -
  let ?n = "l_no_progress_rounds (w_lru w ty)"
  have w3: "w3 = w \<lparr> w_lru := (w_lru w) (ty := (w_lru w ty) \<lparr>
      l_no_progress_rounds := next_rounds (next_rounds (next_rounds ?n)) \<rparr>) \<rparr>"
    using assms(4-6,9-11) by (simp add: assms(12) feedback_step next_rounds_def)
  have rounds: "next_rounds (next_rounds (next_rounds ?n)) \<ge> 3"
    by (simp add: word_le_nat_alt unat_next_rounds)
  have keep: "parp_tier_epoch_reset (g_state_epoch (w_globals w3)) (r_min_seq r) (w_lru w3 ty) =
      w_lru w3 ty"
    using assms(4-8) by (simp add: w3 parp_tier_epoch_reset_def)
  have "l_no_progress_rounds (parp_tier_tag_step st) = l_no_progress_rounds st" for st
    by (simp add: parp_tier_tag_step_def)
  then have w4: "s_enabled (w_ctx w4)" "s_no_progress (w_ctx w4)"
    "s_pressure_level_kernel (w_ctx w4) = PARP_PRESSURE_CRITICAL"
    using assms(1-3) rounds keep
    by (auto simp: assms(13) parp_effective_tier_prepare_def w3 Let_def
        parp_effective_tier_pressure_level_def)
  have shut: "s_no_progress (w_ctx (w4 \<lparr> w_page := p \<rparr>))" using w4 by simp
  obtain wb db where body: "body_ok f nt idx sp (parp_decide_count (v_pages f)
      (w4 \<lparr> w_page := p \<rparr>)) wb db"
    and d: "d_reservation_active d = d_reservation_active db"
      "d_actual_tier_protect d = parp_effective_tier_actual_protect (s_mode (w_ctx wb)) db"
    using decide_result [OF assms(14)] by metis
  have quiet: "\<not> predicted db"
    using body shut by (auto simp: body_ok_def count_simps decision_ok_def action_bits_def
        predicted_def split: if_splits)
  have "\<not> d_reservation_active db"
    using body quiet by (auto simp: body_ok_def spent_def Let_def predicted_def split: if_splits)
  moreover have "d_actual_tier_protect d = (sp \<or> clamp nt 0 3 > clamp idx 0 3)"
    using body quiet actual_protect_bits [of db "s_mode (w_ctx wb)"] applies_predicted
    by (auto simp: body_ok_def decision_ok_def d)
  ultimately show ?thesis using w4 d by simp
qed

text \<open>An instance: the sample world after three fruitless batches.\<close>

theorem parp_no_progress_closes_gate_witness:
  "\<exists>w3 w5 d. w3 = parp_effective_tier_feedback True 1 5 0 (parp_effective_tier_feedback True 1 5 0
       (parp_effective_tier_feedback True 1 5 0 sample_world)) \<and>
     parp_effective_tier_decide sample_folio 0 1 False
       ((parp_effective_tier_prepare True sample_request w3) \<lparr> w_page := Some sample_page \<rparr>) =
       (w5, d) \<and> \<not> d_actual_tier_protect d"
proof -
  define w3 where "w3 = parp_effective_tier_feedback True 1 5 0 (parp_effective_tier_feedback True 1 5 0
       (parp_effective_tier_feedback True 1 5 0 sample_world))"
  define w4 where "w4 = parp_effective_tier_prepare True sample_request w3"
  obtain w5 d where run: "parp_effective_tier_decide sample_folio 0 1 False
      (w4 \<lparr> w_page := Some sample_page \<rparr>) = (w5, d)"
    by (cases "parp_effective_tier_decide sample_folio 0 1 False (w4 \<lparr> w_page := Some sample_page \<rparr>)")
  have facts: "g_mode (w_globals sample_world) \<noteq> PARP_EFFECTIVE_TIER_OFF"
    "\<not> g_state_fault (w_globals sample_world)"
    "parp_runtime_config_read (w_globals sample_world) \<noteq> None"
    "1 = g_state_epoch (w_globals sample_world)" "(1 :: u8) \<noteq> 0"
    "l_state_epoch (w_lru sample_world True) = 1" "l_epoch_id (w_lru sample_world True) \<noteq> 0"
    "l_source_seq (w_lru sample_world True) = r_min_seq sample_request" "(5 :: u64) \<noteq> 0"
    by code_simp+
  show ?thesis
    using parp_no_progress_closes_gate [OF facts(1-9,9,9) w3_def w4_def run] run
    unfolding w3_def w4_def by (auto simp: clamp_def)
qed

end
