(* ===== verification/Tier_Seqlock.thy ===== *)
theory Tier_Seqlock
  imports Tier_State
begin

text \<open>
  The sequence-lock protocol of \<open>mm/parp/core/effective_tier.c\<close> on one page's metadata, with any
  number of CPUs interleaving at the level of single memory accesses: \<open>parp_state_write_begin\<close> (read,
  compare-and-exchange, four attempts), the payload stores of a section, \<open>parp_state_write_end\<close>,
  \<open>parp_state_mark_uncertain\<close>, and the optimistic readers (\<open>parp_effective_tier_state_snapshot\<close> and
  \<open>parp_effective_tier_revalidate\<close>). Memory is sequentially consistent here: the acquire, release and
  \<open>smp_rmb\<close> of the source order the accesses the protocol relies on.

  The payload is the six fields beside the state word, numbered in the order the reader copies them.
  Ghost components: \<open>q_commits\<close> counts finished sections, and a reader remembers that count and the
  payload at its first read.
\<close>

type_synonym payload = "nat \<Rightarrow> u32"

abbreviation PAYLOAD_FIELDS :: nat where "PAYLOAD_FIELDS \<equiv> 6"

datatype seq_pc =
    Idle
  | Try nat
  | Seen nat u32
  | Inside u32 "(nat \<times> u32) list" u32
  | Copying u32 nat payload nat payload
  | Read bool payload nat payload

record seq_world =
  q_state :: u32
  q_mem :: payload
  q_commits :: nat
  q_pc :: "nat \<Rightarrow> seq_pc"

definition seq_boot :: seq_world where
  "seq_boot = \<lparr> q_state = 0, q_mem = (\<lambda>_. 0), q_commits = 0, q_pc = (\<lambda>_. Idle) \<rparr>"

definition set_pc :: "nat \<Rightarrow> seq_pc \<Rightarrow> seq_world \<Rightarrow> seq_world" where
  "set_pc p pc s = s \<lparr> q_pc := (q_pc s) (p := pc) \<rparr>"

text \<open>One access of CPU \<open>p\<close>. \<open>stores\<close> and \<open>new_state\<close> are what the caller's section writes.\<close>

inductive seq_step :: "seq_world \<Rightarrow> seq_world \<Rightarrow> bool" where
  write_start: "q_pc s p = Idle \<Longrightarrow> seq_step s (set_pc p (Try 0) s)"
| write_busy: "q_pc s p = Try k \<Longrightarrow> k < PARP_TIER_STATE_TRIES \<Longrightarrow> bit (q_state s) 21 \<Longrightarrow>
    seq_step s (set_pc p (Try (Suc k)) s)"
| write_seen: "q_pc s p = Try k \<Longrightarrow> k < PARP_TIER_STATE_TRIES \<Longrightarrow> \<not> bit (q_state s) 21 \<Longrightarrow>
    seq_step s (set_pc p (Seen k (q_state s)) s)"
| write_fail: "q_pc s p = Try k \<Longrightarrow> \<not> k < PARP_TIER_STATE_TRIES \<Longrightarrow> seq_step s (set_pc p Idle s)"
| exchange: "q_pc s p = Seen k old \<Longrightarrow> q_state s = old \<Longrightarrow>
    seq_step s (set_pc p (Inside old stores new_state) (s \<lparr> q_state := parp_state_locked old \<rparr>))"
| exchange_lost: "q_pc s p = Seen k old \<Longrightarrow> q_state s \<noteq> old \<Longrightarrow>
    seq_step s (set_pc p (Try (Suc k)) s)"
| store: "q_pc s p = Inside old ((f, v) # stores) new_state \<Longrightarrow>
    seq_step s (set_pc p (Inside old stores new_state) (s \<lparr> q_mem := (q_mem s) (f := v) \<rparr>))"
| release: "q_pc s p = Inside old [] new_state \<Longrightarrow>
    seq_step s (set_pc p Idle (s \<lparr> q_state := parp_state_released old new_state,
                                  q_commits := q_commits s + 1 \<rparr>))"
| mark: "q_pc s p = Idle \<Longrightarrow> \<not> bit (q_state s) 21 \<Longrightarrow>
    seq_step s (s \<lparr> q_state := q_state s OR PARP_STATE_UNCERTAIN \<rparr>)"
| read_start: "q_pc s p = Idle \<Longrightarrow> \<not> bit (q_state s) 21 \<Longrightarrow>
    seq_step s (set_pc p (Copying (q_state s) 0 (\<lambda>_. 0) (q_commits s) (q_mem s)) s)"
| read_copy: "q_pc s p = Copying first i c n m \<Longrightarrow> i < PAYLOAD_FIELDS \<Longrightarrow>
    seq_step s (set_pc p (Copying first (Suc i) (c (i := q_mem s i)) n m) s)"
| read_check: "q_pc s p = Copying first i c n m \<Longrightarrow> i = PAYLOAD_FIELDS \<Longrightarrow>
    seq_step s (set_pc p (Read (first = q_state s) c n m) s)"
| read_done: "q_pc s p = Read ok c n m \<Longrightarrow> seq_step s (set_pc p Idle s)"

inductive seq_reach :: "seq_world \<Rightarrow> bool" where
  boot: "seq_reach seq_boot"
| step: "seq_reach s \<Longrightarrow> seq_step s s' \<Longrightarrow> seq_reach s'"

inductive_cases seq_stepE: "seq_step s s'"

definition inside :: "seq_pc \<Rightarrow> bool" where
  "inside pc \<longleftrightarrow> (\<exists>old stores new_state. pc = Inside old stores new_state)"

lemma inside_simps [simp]:
  "\<not> inside Idle" "\<not> inside (Try k)" "\<not> inside (Seen k w)" "inside (Inside w st ns)"
  "\<not> inside (Copying w i c n m)" "\<not> inside (Read ok c n m)"
  by (simp_all add: inside_def)

lemma set_pc_simps [simp]:
  "q_pc (set_pc p pc s) q = (if q = p then pc else q_pc s q)"
  "q_state (set_pc p pc s) = q_state s" "q_mem (set_pc p pc s) = q_mem s"
  "q_commits (set_pc p pc s) = q_commits s"
  by (simp_all add: set_pc_def)

text \<open>The sequence in the state word counts the finished sections, twice, plus one for an open one.\<close>

definition seq_nat :: "u32 \<Rightarrow> nat" where
  "seq_nat w = unat (parp_state_seq w)"

lemma seq_nat_bound: "seq_nat w < 2048"
  unfolding seq_nat_def parp_state_seq_def using FIELD_GET_bound [of 21 31 w] by simp

lemma seq_nat_released: "seq_nat (parp_state_released old new) = (seq_nat old + 2) mod 2048"
proof -
  have "unat (parp_state_seq old + 2) = seq_nat old + 2"
    using seq_nat_bound [of old] unfolding seq_nat_def
    by (subst unat_add_lem [THEN iffD1]) simp_all
  moreover have "seq_nat (parp_state_released old new) = take_bit 11 (unat (parp_state_seq old + 2))"
    unfolding seq_nat_def by (simp only: seq_released take_bit_eq_mask [symmetric] unsigned_take_bit_eq)
  ultimately show ?thesis by (simp only: take_bit_eq_mod) simp
qed

lemma seq_nat_mark: "seq_nat (w OR PARP_STATE_UNCERTAIN) = seq_nat w"
proof -
  have "parp_state_seq (w OR PARP_STATE_UNCERTAIN) = parp_state_seq w"
    by (rule bit_word_eqI) (auto simp: bit_seq bit_simps bit_flags)
  then show ?thesis by (simp add: seq_nat_def)
qed

definition seq_inv :: "seq_world \<Rightarrow> bool" where
  "seq_inv s \<longleftrightarrow>
     (\<forall>p q. inside (q_pc s p) \<longrightarrow> inside (q_pc s q) \<longrightarrow> p = q) \<and>
     ((\<exists>p. inside (q_pc s p)) \<longleftrightarrow> bit (q_state s) 21) \<and>
     (\<forall>p old st ns. q_pc s p = Inside old st ns \<longrightarrow>
        \<not> bit old 21 \<and> q_state s = parp_state_locked old \<and> seq_nat old = 2 * q_commits s mod 2048) \<and>
     (\<forall>p k old. q_pc s p = Seen k old \<longrightarrow> \<not> bit old 21) \<and>
     (\<not> bit (q_state s) 21 \<longrightarrow> seq_nat (q_state s) = 2 * q_commits s mod 2048) \<and>
     (\<forall>p first i c n m. q_pc s p = Copying first i c n m \<longrightarrow>
        \<not> bit first 21 \<and> seq_nat first = 2 * n mod 2048 \<and> n \<le> q_commits s \<and> i \<le> PAYLOAD_FIELDS \<and>
        (n = q_commits s \<and> \<not> bit (q_state s) 21 \<longrightarrow> m = q_mem s \<and> (\<forall>j < i. c j = m j)))"

lemma seq_invI:
  assumes "\<And>p q. inside (q_pc s p) \<Longrightarrow> inside (q_pc s q) \<Longrightarrow> p = q"
    and "(\<exists>p. inside (q_pc s p)) \<longleftrightarrow> bit (q_state s) 21"
    and "\<And>p old st ns. q_pc s p = Inside old st ns \<Longrightarrow>
        \<not> bit old 21 \<and> q_state s = parp_state_locked old \<and> seq_nat old = 2 * q_commits s mod 2048"
    and "\<And>p k old. q_pc s p = Seen k old \<Longrightarrow> \<not> bit old 21"
    and "\<not> bit (q_state s) 21 \<Longrightarrow> seq_nat (q_state s) = 2 * q_commits s mod 2048"
    and "\<And>p first i c n m. q_pc s p = Copying first i c n m \<Longrightarrow>
        \<not> bit first 21 \<and> seq_nat first = 2 * n mod 2048 \<and> n \<le> q_commits s \<and> i \<le> PAYLOAD_FIELDS \<and>
        (n = q_commits s \<and> \<not> bit (q_state s) 21 \<longrightarrow> m = q_mem s \<and> (\<forall>j < i. c j = m j))"
  shows "seq_inv s"
  unfolding seq_inv_def using assms by blast

lemma seq_invD:
  assumes "seq_inv s"
  shows "inside (q_pc s p) \<Longrightarrow> inside (q_pc s q) \<Longrightarrow> p = q"
    and "(\<exists>p. inside (q_pc s p)) \<longleftrightarrow> bit (q_state s) 21"
    and "q_pc s p = Inside old st ns \<Longrightarrow>
        \<not> bit old 21 \<and> q_state s = parp_state_locked old \<and> seq_nat old = 2 * q_commits s mod 2048"
    and "q_pc s p = Seen k old \<Longrightarrow> \<not> bit old 21"
    and "\<not> bit (q_state s) 21 \<Longrightarrow> seq_nat (q_state s) = 2 * q_commits s mod 2048"
    and "q_pc s p = Copying first i c n m \<Longrightarrow>
        \<not> bit first 21 \<and> seq_nat first = 2 * n mod 2048 \<and> n \<le> q_commits s \<and> i \<le> PAYLOAD_FIELDS \<and>
        (n = q_commits s \<and> \<not> bit (q_state s) 21 \<longrightarrow> m = q_mem s \<and> (\<forall>j < i. c j = m j))"
proof -
  note c = assms [unfolded seq_inv_def]
  note c2 = c [THEN conjunct2] and c3 = c [THEN conjunct2, THEN conjunct2]
  note c5 = c3 [THEN conjunct2, THEN conjunct2]
  show "inside (q_pc s p) \<Longrightarrow> inside (q_pc s q) \<Longrightarrow> p = q"
    by (rule c [THEN conjunct1, rule_format])
  show "(\<exists>p. inside (q_pc s p)) \<longleftrightarrow> bit (q_state s) 21"
    by (rule c2 [THEN conjunct1])
  show "q_pc s p = Inside old st ns \<Longrightarrow>
      \<not> bit old 21 \<and> q_state s = parp_state_locked old \<and> seq_nat old = 2 * q_commits s mod 2048"
    by (rule c3 [THEN conjunct1, rule_format])
  show "q_pc s p = Seen k old \<Longrightarrow> \<not> bit old 21"
    by (rule c3 [THEN conjunct2, THEN conjunct1, rule_format])
  show "\<not> bit (q_state s) 21 \<Longrightarrow> seq_nat (q_state s) = 2 * q_commits s mod 2048"
    by (rule c5 [THEN conjunct1, rule_format])
  show "q_pc s p = Copying first i c n m \<Longrightarrow>
      \<not> bit first 21 \<and> seq_nat first = 2 * n mod 2048 \<and> n \<le> q_commits s \<and> i \<le> PAYLOAD_FIELDS \<and>
      (n = q_commits s \<and> \<not> bit (q_state s) 21 \<longrightarrow> m = q_mem s \<and> (\<forall>j < i. c j = m j))"
    using c5 [THEN conjunct2] by (elim allE impE) assumption+
qed

text \<open>A step of a CPU that neither enters nor leaves a section and leaves memory alone.\<close>

lemma seq_inv_local:
  assumes inv: "seq_inv s" and "\<not> inside (q_pc s p)" "\<not> inside pc"
    and "\<And>k old. pc = Seen k old \<Longrightarrow> \<not> bit old 21"
    and "\<And>first i c n m. pc = Copying first i c n m \<Longrightarrow>
        \<not> bit first 21 \<and> seq_nat first = 2 * n mod 2048 \<and> n \<le> q_commits s \<and> i \<le> PAYLOAD_FIELDS \<and>
        (n = q_commits s \<and> \<not> bit (q_state s) 21 \<longrightarrow> m = q_mem s \<and> (\<forall>j < i. c j = m j))"
  shows "seq_inv (set_pc p pc s)"
proof (rule seq_invI)
  show "(\<exists>q. inside (q_pc (set_pc p pc s) q)) \<longleftrightarrow> bit (q_state (set_pc p pc s)) 21"
    using seq_invD(2) [OF inv] assms(2,3) by auto
qed (use seq_invD [OF inv] assms(2-) in \<open>auto split: if_splits\<close>)

lemma seq_inv_boot: "seq_inv seq_boot"
proof -
  have "parp_state_seq 0 = 0" by (rule bit_word_eqI) (simp add: bit_seq)
  then show ?thesis by (auto simp: seq_inv_def seq_boot_def seq_nat_def)
qed

lemma seq_inv_enter:
  assumes inv: "seq_inv s" and pc: "q_pc s p = Seen k (q_state s)"
  shows "seq_inv (set_pc p (Inside (q_state s) stores ns)
    (s \<lparr> q_state := parp_state_locked (q_state s) \<rparr>))"
proof -
  have even: "\<not> bit (q_state s) 21" using seq_invD(4) [OF inv pc] .
  then have none: "\<not> inside (q_pc s q)" for q using seq_invD(2) [OF inv] by blast
  show ?thesis
  proof (rule seq_invI)
    show "(\<exists>q. inside (q_pc (set_pc p (Inside (q_state s) stores ns)
        (s \<lparr> q_state := parp_state_locked (q_state s) \<rparr>)) q)) \<longleftrightarrow>
      bit (q_state (set_pc p (Inside (q_state s) stores ns)
        (s \<lparr> q_state := parp_state_locked (q_state s) \<rparr>))) 21"
      using even by (auto simp: locked_odd intro: exI [of _ p])
  qed (use seq_invD(4-6) [OF inv] even none in \<open>auto simp: locked_odd inside_def split: if_splits\<close>)
qed

lemma seq_inv_store:
  assumes inv: "seq_inv s" and pc: "q_pc s p = Inside old ((f, v) # stores) ns"
  shows "seq_inv (set_pc p (Inside old stores ns) (s \<lparr> q_mem := (q_mem s) (f := v) \<rparr>))"
proof -
  have odd: "bit (q_state s) 21" using seq_invD(2) [OF inv] pc by (metis inside_simps(4))
  have me: "inside (q_pc s q) \<Longrightarrow> q = p" for q using seq_invD(1) [OF inv] pc by simp
  show ?thesis
  proof (rule seq_invI)
    show "(\<exists>q. inside (q_pc (set_pc p (Inside old stores ns)
        (s \<lparr> q_mem := (q_mem s) (f := v) \<rparr>)) q)) \<longleftrightarrow>
      bit (q_state (set_pc p (Inside old stores ns) (s \<lparr> q_mem := (q_mem s) (f := v) \<rparr>))) 21"
      using odd by (auto intro: exI [of _ p])
  qed (use seq_invD(3-6) [OF inv] pc me odd in \<open>auto split: if_splits\<close>)
qed

lemma seq_inv_release:
  assumes inv: "seq_inv s" and pc: "q_pc s p = Inside old [] ns"
  shows "seq_inv (set_pc p Idle (s \<lparr> q_state := parp_state_released old ns,
    q_commits := q_commits s + 1 \<rparr>))"
proof -
  have old: "\<not> bit old 21" "seq_nat old = 2 * q_commits s mod 2048"
    using seq_invD(3) [OF inv pc] by auto
  have me: "inside (q_pc s q) \<Longrightarrow> q = p" for q using seq_invD(1) [OF inv] pc by simp
  have seq: "seq_nat (parp_state_released old ns) = 2 * (q_commits s + 1) mod 2048"
    unfolding seq_nat_released old(2) by (simp add: mod_simps)
  show ?thesis
  proof (rule seq_invI)
    fix q first i c n m
    assume "q_pc (set_pc p Idle (s \<lparr> q_state := parp_state_released old ns,
      q_commits := q_commits s + 1 \<rparr>)) q = Copying first i c n m"
    then have "q_pc s q = Copying first i c n m" by (auto split: if_splits)
    from seq_invD(6) [OF inv this]
    show "\<not> bit first 21 \<and> seq_nat first = 2 * n mod 2048 \<and>
      n \<le> q_commits (set_pc p Idle (s \<lparr> q_state := parp_state_released old ns,
        q_commits := q_commits s + 1 \<rparr>)) \<and> i \<le> PAYLOAD_FIELDS \<and>
      (n = q_commits (set_pc p Idle (s \<lparr> q_state := parp_state_released old ns,
        q_commits := q_commits s + 1 \<rparr>)) \<and> \<not> bit (q_state (set_pc p Idle
        (s \<lparr> q_state := parp_state_released old ns, q_commits := q_commits s + 1 \<rparr>))) 21 \<longrightarrow>
       m = q_mem (set_pc p Idle (s \<lparr> q_state := parp_state_released old ns,
        q_commits := q_commits s + 1 \<rparr>)) \<and> (\<forall>j < i. c j = m j))"
      by simp
  qed (use me old seq seq_invD(4) [OF inv] in \<open>auto simp: released_even inside_def split: if_splits\<close>)
qed

lemma seq_inv_mark:
  assumes inv: "seq_inv s" and even: "\<not> bit (q_state s) 21"
  shows "seq_inv (s \<lparr> q_state := q_state s OR PARP_STATE_UNCERTAIN \<rparr>)"
proof -
  have bit: "\<not> bit (q_state s OR PARP_STATE_UNCERTAIN) 21"
    using even by (simp add: bit_simps bit_flags)
  have none: "\<not> inside (q_pc s q)" for q using seq_invD(2) [OF inv] even by blast
  show ?thesis
    by (rule seq_invI)
      (use none bit even seq_invD(4-6) [OF inv] in \<open>auto simp: seq_nat_mark inside_def\<close>)
qed

lemma seq_step_inv: "seq_step s s' \<Longrightarrow> seq_inv s \<Longrightarrow> seq_inv s'"
proof (induction rule: seq_step.induct)
  case (exchange s p k old stores ns)
  then show ?case using seq_inv_enter [of s p k stores ns] by simp
next
  case (store s p old f v stores ns)
  then show ?case by (simp add: seq_inv_store)
next
  case (release s p old ns)
  then show ?case using seq_inv_release [of s p old ns] by simp
next
  case (mark s p)
  then show ?case by (simp add: seq_inv_mark)
next
  case (read_start s p)
  then show ?case
    using seq_invD(5) [OF read_start(3)] by (intro seq_inv_local) auto
next
  case (read_copy s p first i c n m)
  then show ?case
    using seq_invD(6) [OF read_copy(3,1)] by (intro seq_inv_local) (auto simp: less_Suc_eq)
qed (auto intro!: seq_inv_local)

lemma seq_reach_inv: "seq_reach s \<Longrightarrow> seq_inv s"
  by (induction rule: seq_reach.induct) (auto intro: seq_inv_boot seq_step_inv)

text \<open>Fewer than 1024 sections between two reads of the same even word means none at all.\<close>

lemma no_wrap:
  assumes "2 * n mod 2048 = 2 * k mod (2048 :: nat)" and "n \<le> k" and "k - n < 1024"
  shows "n = k"
proof -
  have "2 * (k - n) mod 2048 = 0"
    using assms(1,2) by (metis diff_mult_distrib2 mod_eq_dvd_iff_nat mod_0_imp_dvd dvd_imp_mod_0
        mult_le_mono2)
  then show ?thesis using assms(2,3) by simp
qed

section \<open>Properties\<close>

text \<open>However the accesses of any number of CPUs interleave, at most one CPU is inside a writer
  section of a page, and the published sequence is odd exactly while one is.\<close>

theorem parp_seqlock_mutual_exclusion:
  assumes "seq_reach s"
  shows "(inside (q_pc s p) \<and> inside (q_pc s q) \<longrightarrow> p = q) \<and>
    (bit (q_state s) 21 \<longleftrightarrow> (\<exists>r. inside (q_pc s r))) \<and>
    parp_state_seq (q_state s) AND 1 = (if \<exists>r. inside (q_pc s r) then 1 else 0)"
proof -
  note inv = seq_reach_inv [OF assms]
  have "parp_state_seq (q_state s) AND 1 = (if bit (q_state s) 21 then 1 else 0)"
    using seq_odd [of "q_state s"] by (simp add: and_one_eq mod_2_eq_odd)
  then show ?thesis using seq_invD(1,2) [OF inv] by simp
qed

text \<open>An instance: CPU 3 enters a section from boot.\<close>

theorem parp_seqlock_mutual_exclusion_witness:
  "\<exists>s. seq_reach s \<and> inside (q_pc s 3) \<and> bit (q_state s) 21"
proof -
  define s1 where "s1 = set_pc 3 (Try 0) seq_boot"
  define s2 where "s2 = set_pc 3 (Seen 0 (q_state s1)) s1"
  define s3 where "s3 = set_pc 3 (Inside 0 [(0, 9)] 1) (s2 \<lparr> q_state := parp_state_locked 0 \<rparr>)"
  have z: "q_state s1 = 0" by (simp add: s1_def seq_boot_def)
  have "seq_step seq_boot s1" unfolding s1_def by (rule seq_step.write_start) (simp add: seq_boot_def)
  moreover have "seq_step s1 s2" unfolding s2_def
    by (rule seq_step.write_seen [of _ _ 0]) (simp_all add: z, simp add: s1_def)
  moreover have "seq_step s2 s3" unfolding s3_def
    by (rule seq_step.exchange [of _ _ 0]) (simp_all add: s2_def z)
  ultimately have reach: "seq_reach s3" by (blast intro: seq_reach.intros)
  have "inside (q_pc s3 3)" by (simp add: s3_def)
  then show ?thesis using parp_seqlock_mutual_exclusion [OF reach, of 3 3] reach by blast
qed

text \<open>C8. A reader whose two reads of the state word agree has copied, field by field, the payload
  that was published when it started, provided fewer than 1024 sections (half the range of the 11-bit
  sequence) completed in between; the bound is the protocol's wrap-around limit.\<close>

theorem parp_seqlock_snapshot_consistent:
  assumes "seq_reach s" and "q_pc s p = Copying first PAYLOAD_FIELDS c n m"
    and "q_state s = first" and "q_commits s - n < 1024"
  shows "(\<forall>j < PAYLOAD_FIELDS. c j = m j) \<and> q_mem s = m \<and> q_commits s = n \<and>
    seq_step s (set_pc p (Read True c n m) s)"
proof -
  note inv = seq_reach_inv [OF assms(1)]
  note cp = seq_invD(6) [OF inv assms(2)]
  have "seq_nat first = 2 * q_commits s mod 2048"
    using seq_invD(5) [OF inv] cp assms(3) by simp
  then have "n = q_commits s" using no_wrap [of n "q_commits s"] cp assms(4) by simp
  moreover have "seq_step s (set_pc p (Read (first = q_state s) c n m) s)"
    by (rule seq_step.read_check [OF assms(2) refl])
  ultimately show ?thesis using cp assms(3) by simp
qed

text \<open>Witness of C8: a reader alone copies six fields from boot.\<close>

theorem parp_seqlock_snapshot_consistent_witness:
  "\<exists>s c. seq_reach s \<and> q_pc s 0 = Copying 0 6 c 0 (\<lambda>_. 0) \<and> (\<forall>j < 6. c j = 0)"
proof -
  define c where "c i = foldr (\<lambda>j f. f (j := 0)) (rev [0..<i]) (\<lambda>_. 0 :: u32)" for i
  define st where "st i = set_pc 0 (Copying 0 i (c i) 0 (\<lambda>_. 0)) seq_boot" for i
  have "seq_step seq_boot (set_pc 0 (Copying (q_state seq_boot) 0 (\<lambda>_. 0) (q_commits seq_boot)
      (q_mem seq_boot)) seq_boot)"
    by (rule seq_step.read_start) (simp_all add: seq_boot_def)
  then have start: "seq_step seq_boot (st 0)"
    by (simp add: st_def c_def seq_boot_def)
  have next_step: "seq_step (st i) (st (Suc i))" if "i < 6" for i
  proof -
    have "seq_step (st i) (set_pc 0 (Copying 0 (Suc i) ((c i) (i := q_mem (st i) i)) 0 (\<lambda>_. 0)) (st i))"
      by (rule seq_step.read_copy) (use that in \<open>simp_all add: st_def\<close>)
    moreover have "(c i) (i := q_mem (st i) i) = c (Suc i)"
      by (simp add: c_def st_def seq_boot_def)
    moreover have "set_pc 0 pc (st i) = set_pc 0 pc seq_boot" for pc
      by (simp add: st_def set_pc_def)
    ultimately show ?thesis by (simp add: st_def)
  qed
  have reach: "i \<le> 6 \<Longrightarrow> seq_reach (st i)" for i
  proof (induction i)
    case 0
    then show ?case using start by (blast intro: seq_reach.intros)
  next
    case (Suc i)
    then show ?case using next_step [of i] by (simp add: seq_reach.step)
  qed
  have pc: "q_pc (st 6) 0 = Copying 0 6 (c 6) 0 (\<lambda>_. 0)" by (simp add: st_def)
  have "q_state (st 6) = 0" "q_commits (st 6) - 0 < 1024" by (simp_all add: st_def seq_boot_def)
  then show ?thesis
    using parp_seqlock_snapshot_consistent [OF reach [of 6] pc] reach [of 6] pc by auto
qed

section \<open>Progress\<close>

text \<open>Memory after the stores of a section.\<close>

fun run_stores :: "payload \<Rightarrow> (nat \<times> u32) list \<Rightarrow> payload" where
  "run_stores m [] = m"
| "run_stores m ((f, v) # stores) = run_stores (m (f := v)) stores"

text \<open>A section that is open can be finished by its own CPU alone.\<close>

lemma drain:
  "q_pc s p = Inside old stores new_state \<Longrightarrow>
   \<exists>s'. seq_step\<^sup>*\<^sup>* s s' \<and> q_pc s' = (q_pc s) (p := Idle) \<and> q_commits s' = q_commits s + 1 \<and>
        q_mem s' = run_stores (q_mem s) stores"
proof (induction stores arbitrary: s)
  case Nil
  from seq_step.release [OF Nil] show ?case
    by (intro exI conjI, rule r_into_rtranclp) (auto simp: set_pc_def)
next
  case (Cons fv stores)
  obtain f v where fv: "fv = (f, v)" by force
  let ?s = "set_pc p (Inside old stores new_state) (s \<lparr> q_mem := (q_mem s) (f := v) \<rparr>)"
  have step: "seq_step s ?s" using seq_step.store Cons.prems unfolding fv .
  have "q_pc ?s p = Inside old stores new_state" by simp
  from Cons.IH [OF this] obtain s' where "seq_step\<^sup>*\<^sup>* ?s s'" "q_pc s' = (q_pc ?s) (p := Idle)"
    "q_commits s' = q_commits ?s + 1" "q_mem s' = run_stores (q_mem ?s) stores"
    by blast
  then show ?case using step by (intro exI [of _ s']) (auto simp: fv set_pc_def)
qed

text \<open>On a free word an idle CPU can run a whole section.\<close>

lemma fresh_section:
  assumes idle: "q_pc s p = Idle" and free: "\<not> bit (q_state s) 21"
  shows "\<exists>s'. seq_step\<^sup>*\<^sup>* s s' \<and> q_pc s' = q_pc s \<and> q_commits s' = q_commits s + 1 \<and>
    q_mem s' = run_stores (q_mem s) stores"
proof -
  let ?s1 = "set_pc p (Try 0) s" and ?s2 = "set_pc p (Seen 0 (q_state s)) (set_pc p (Try 0) s)"
  let ?s3 = "set_pc p (Inside (q_state s) stores 0) (?s2 \<lparr> q_state := parp_state_locked (q_state s) \<rparr>)"
  have "seq_step s ?s1" by (rule seq_step.write_start [OF idle])
  moreover have "seq_step ?s1 ?s2" using seq_step.write_seen [of ?s1 p 0] free by simp
  moreover have "seq_step ?s2 ?s3" by (rule seq_step.exchange) simp_all
  ultimately have steps: "seq_step\<^sup>*\<^sup>* s ?s3" by (meson converse_rtranclp_into_rtranclp r_into_rtranclp)
  have "q_pc ?s3 p = Inside (q_state s) stores 0" by simp
  from drain [OF this] obtain s' where "seq_step\<^sup>*\<^sup>* ?s3 s'" "q_pc s' = (q_pc ?s3) (p := Idle)"
    "q_commits s' = q_commits ?s3 + 1" "q_mem s' = run_stores (q_mem ?s3) stores"
    by blast
  then show ?thesis using steps idle
    by (intro exI [of _ s']) (auto simp: set_pc_def intro: rtranclp_trans)
qed

lemma seq_reach_steps: "seq_step\<^sup>*\<^sup>* s s' \<Longrightarrow> seq_reach s \<Longrightarrow> seq_reach s'"
  by (induction rule: rtranclp_induct) (auto intro: seq_reach.step)

text \<open>No writer can be shut out for good. From every reachable state an idle CPU can reach the end
  of a section of its own, with its stores on top of memory: at most one other section, the one that
  is open, has to finish first, no third CPU has to move, and the word is left unlocked.\<close>

theorem parp_seqlock_writer_can_commit:
  assumes "seq_reach s" and "q_pc s p = Idle"
  shows "\<exists>mid s'. seq_step\<^sup>*\<^sup>* s mid \<and> seq_step\<^sup>*\<^sup>* mid s' \<and>
     q_commits s' = q_commits mid + 1 \<and> q_commits mid \<le> q_commits s + 1 \<and>
     q_mem s' = run_stores (q_mem mid) stores \<and>
     q_pc s' = (\<lambda>q. if inside (q_pc s q) then Idle else q_pc s q) \<and> \<not> bit (q_state s') 21"
proof -
  note inv = seq_reach_inv [OF assms(1)]
  let ?pc = "\<lambda>q. if inside (q_pc s q) then Idle else q_pc s q"
  obtain mid where mid: "seq_step\<^sup>*\<^sup>* s mid" "q_commits mid \<le> q_commits s + 1" "q_pc mid = ?pc"
  proof (cases "\<exists>q. inside (q_pc s q)")
    case True
    then obtain q old st ns where q: "q_pc s q = Inside old st ns" by (auto simp: inside_def)
    have "(q_pc s) (q := Idle) = ?pc" using seq_invD(1) [OF inv, of q] q by auto
    then show ?thesis using that drain [OF q] by auto
  next
    case False
    then show ?thesis using that [of s] by auto
  qed
  have free: "\<not> bit (q_state t) 21" if "seq_reach t" "q_pc t = ?pc" for t
    using seq_invD(2) [OF seq_reach_inv [OF that(1)]] that(2) by (auto split: if_splits)
  have "q_pc mid p = Idle" using mid(3) assms(2) by simp
  from fresh_section [OF this free [OF seq_reach_steps [OF mid(1) assms(1)] mid(3)], of stores]
  obtain s' where "seq_step\<^sup>*\<^sup>* mid s'" "q_pc s' = q_pc mid" "q_commits s' = q_commits mid + 1"
    "q_mem s' = run_stores (q_mem mid) stores" by blast
  then show ?thesis
    using mid free [of s'] seq_reach_steps [of s mid] seq_reach_steps [of mid s'] assms(1) by auto
qed

text \<open>An instance: CPU 3 writes field 2 at boot.\<close>

theorem parp_seqlock_writer_can_commit_witness:
  "\<exists>mid s'. seq_step\<^sup>*\<^sup>* seq_boot mid \<and> seq_step\<^sup>*\<^sup>* mid s' \<and> q_mem s' 2 = 9 \<and> \<not> bit (q_state s') 21"
proof -
  have "q_pc seq_boot 3 = Idle" by (simp add: seq_boot_def)
  from parp_seqlock_writer_can_commit [OF seq_reach.boot this, of "[(2, 9)]"] show ?thesis by force
qed

end
