(* ===== verification/App_Snapshot.thy ===== *)
theory App_Snapshot
  imports Tier_Types
begin

text \<open>
  \<open>mm/parp/core/snapshot.c\<close>: the published snapshot of application bindings and priors. An update
  clones the active snapshot, changes the clone and publishes it under \<open>parp_snapshot_update_lock\<close>,
  so updates are serial and readers (under RCU) see one snapshot. The state is the active snapshot,
  \<open>None\<close> before the first update. The arrays with their counters \<open>nr_bindings\<close> and \<open>nr_priors\<close>
  are the lists of the entries in use. The clock and the result of the allocation are arguments.
\<close>

abbreviation PARP_Q15_ONE :: u16 where "PARP_Q15_ONE \<equiv> 32767"
abbreviation PARP_MAX_APPS :: nat where "PARP_MAX_APPS \<equiv> 32"
abbreviation PARP_MAX_DOMAINS :: nat where "PARP_MAX_DOMAINS \<equiv> 64"
abbreviation PARP_APP_PRIOR_MAX_TTL_NS :: u64 where
  "PARP_APP_PRIOR_MAX_TTL_NS \<equiv> 600000000000"
abbreviation PARP_APP_PRIOR_MAX_HORIZON_NS :: u64 where
  "PARP_APP_PRIOR_MAX_HORIZON_NS \<equiv> 3600000000000"

section \<open>Data\<close>

record parp_app_prior =
  p_app_id :: u32
  p_use_score_q15 :: u16
  p_rank :: u16
  p_horizon_ms :: u32
  p_updated_ns :: u64
  p_expires_ns :: u64
  p_model_version :: u64
  p_prediction_generation :: u32
  p_flags :: u32
  p_foreground :: bool
  p_valid :: bool

record parp_app_prior_batch =
  b_schema_version :: u32
  b_model_version :: u32
  b_prediction_generation :: u32
  b_timestamp_ns :: u64
  b_horizon_ns :: u64
  b_expiry_ns :: u64
  b_entries :: "parp_app_prior list"

record parp_binding =
  bd_domain_id :: u64
  bd_app_id :: u32
  bd_generation :: u32
  bd_updated_ns :: u64
  bd_expires_ns :: u64
  bd_epoch_id :: u64
  bd_model_version :: u64
  bd_active :: bool

record parp_snapshot =
  x_version :: u64
  x_created_ns :: u64
  x_expires_ns :: u64
  x_schema_version :: u32
  x_model_version :: u32
  x_generation :: u32
  x_timestamp_ns :: u64
  x_horizon_ns :: u64
  x_expiry_ns :: u64
  x_priors :: "parp_app_prior list"
  x_bindings :: "parp_binding list"

definition parp_snapshot_zero :: parp_snapshot where
  "parp_snapshot_zero = \<lparr> x_version = 0, x_created_ns = 0, x_expires_ns = 0,
     x_schema_version = 0, x_model_version = 0, x_generation = 0, x_timestamp_ns = 0,
     x_horizon_ns = 0, x_expiry_ns = 0, x_priors = [], x_bindings = [] \<rparr>"

record parp_app_context =
  ac_domain_id :: u64
  ac_app_id :: u32
  ac_bind_generation :: u32
  ac_foreground_epoch_id :: u64
  ac_bind_expiry_ns :: u64
  ac_model_version :: u64
  ac_app_prior_q15 :: u16
  ac_owner_confidence_q15 :: u16
  ac_owner_source :: u32

datatype parp_reclaim_scope = PARP_RECLAIM_SCOPE_UNKNOWN | PARP_RECLAIM_SCOPE_GLOBAL_KSWAPD
  | PARP_RECLAIM_SCOPE_GLOBAL_DIRECT | PARP_RECLAIM_SCOPE_TARGET_MEMCG
  | PARP_RECLAIM_SCOPE_PROACTIVE_MEMCG | PARP_RECLAIM_SCOPE_MEMCG_HIGH

text \<open>The names the scan-budget path uses for the pressure levels.\<close>

abbreviation PARP_PRESSURE_NORMAL :: parp_pressure_level where
  "PARP_PRESSURE_NORMAL \<equiv> PARP_PRESSURE_LOW"
abbreviation PARP_PRESSURE_ELEVATED :: parp_pressure_level where
  "PARP_PRESSURE_ELEVATED \<equiv> PARP_PRESSURE_MEDIUM"
abbreviation PARP_PRESSURE_EMERGENCY :: parp_pressure_level where
  "PARP_PRESSURE_EMERGENCY \<equiv> PARP_PRESSURE_CRITICAL"

text \<open>The flag word of an input, bits \<open>0 .. 6\<close>.\<close>

abbreviation PARP_SCAN_INPUT_BIND_PRESENT :: u32 where "PARP_SCAN_INPUT_BIND_PRESENT \<equiv> BIT 0"
abbreviation PARP_SCAN_INPUT_BIND_VALID :: u32 where "PARP_SCAN_INPUT_BIND_VALID \<equiv> BIT 1"
abbreviation PARP_SCAN_INPUT_PRIOR_PRESENT :: u32 where "PARP_SCAN_INPUT_PRIOR_PRESENT \<equiv> BIT 2"
abbreviation PARP_SCAN_INPUT_PRIOR_VALID :: u32 where "PARP_SCAN_INPUT_PRIOR_VALID \<equiv> BIT 3"
abbreviation PARP_SCAN_INPUT_GENERATION_VALID :: u32 where
  "PARP_SCAN_INPUT_GENERATION_VALID \<equiv> BIT 4"
abbreviation PARP_SCAN_INPUT_MODEL_COMPATIBLE :: u32 where
  "PARP_SCAN_INPUT_MODEL_COMPATIBLE \<equiv> BIT 5"
abbreviation PARP_SCAN_INPUT_CIRCUIT_OK :: u32 where "PARP_SCAN_INPUT_CIRCUIT_OK \<equiv> BIT 6"

record parp_scan_budget_input =
  in_domain_id :: u64
  in_app_id :: u32
  in_reclaim_scope :: parp_reclaim_scope
  in_pressure :: parp_pressure_level
  in_native_nr_to_scan :: u64
  in_foreground :: bool
  in_app_use_score_q15 :: u16
  in_app_rank :: u16
  in_foreground_epoch_id :: u64
  in_bind_generation :: u64
  in_bind_expiry_ns :: u64
  in_prediction_timestamp_ns :: u64
  in_prediction_expiry_ns :: u64
  in_prediction_generation :: u32
  in_model_version :: u32
  in_reclaim_priority :: int
  in_now_ns :: u64
  in_flags :: u32

section \<open>Tables keyed by an identifier\<close>

text \<open>
  The contract of the binding and prior tables: an entry is found under its key after it was written,
  and entries under other keys survive unless the table is full and the key is new.
\<close>

locale keyed_table =
  fixes upsert :: "'a \<Rightarrow> 't \<Rightarrow> 't"
    and entry :: "'k \<Rightarrow> 't \<Rightarrow> 'a option"
    and key :: "'a \<Rightarrow> 'k"
    and ok :: "'t \<Rightarrow> bool"
    and full :: "'t \<Rightarrow> bool"
  assumes entry_same: "ok t \<Longrightarrow> entry (key x) (upsert x t) = Some x"
    and entry_other: "ok t \<Longrightarrow> \<not> full t \<or> entry (key x) t \<noteq> None \<Longrightarrow> k \<noteq> key x \<Longrightarrow>
      entry k (upsert x t) = entry k t"
    and ok_upsert: "ok t \<Longrightarrow> ok (upsert x t)"
begin

lemma ok_run: "ok t \<Longrightarrow> ok (foldl (\<lambda>t x. upsert x t) t xs)"
  by (induction xs arbitrary: t) (auto simp: ok_upsert)

text \<open>Rewriting entries that exist never loses another entry.\<close>

lemma entry_rewrites:
  assumes "ok t" and "\<forall>x \<in> set xs. key x \<noteq> k \<and> entry (key x) t \<noteq> None"
  shows "entry k (foldl (\<lambda>t x. upsert x t) t xs) = entry k t"
  using assms
proof (induction xs arbitrary: t)
  case (Cons x xs)
  have kept: "entry (key y) (upsert x t) \<noteq> None" if "y \<in> set xs" for y
  proof (cases "key y = key x")
    case True
    then show ?thesis using Cons.prems(1) by (simp add: entry_same)
  next
    case False
    then show ?thesis using Cons.prems that by (simp add: entry_other)
  qed
  have "entry k (upsert x t) = entry k t" using Cons.prems by (intro entry_other) auto
  then show ?case using Cons.IH [of "upsert x t"] Cons.prems kept ok_upsert by simp
qed simp

end

text \<open>
  The slot search of \<open>update_binding\<close> and \<open>update_prior\<close>: the entry with the same key, else the next
  free slot, else the last slot.
\<close>

fun table_slot :: "('a \<Rightarrow> 'k) \<Rightarrow> 'k \<Rightarrow> 'a list \<Rightarrow> nat option" where
  "table_slot key k [] = None"
| "table_slot key k (y # ys) =
     (if key y = k then Some 0 else map_option Suc (table_slot key k ys))"

definition table_upsert :: "nat \<Rightarrow> ('a \<Rightarrow> 'k) \<Rightarrow> 'a \<Rightarrow> 'a list \<Rightarrow> 'a list" where
  "table_upsert capacity key x ys =
     (case table_slot key (key x) ys of
        Some i \<Rightarrow> ys [i := x]
      | None \<Rightarrow> if length ys < capacity then ys @ [x] else ys [capacity - 1 := x])"

definition table_entry :: "('a \<Rightarrow> 'k) \<Rightarrow> 'k \<Rightarrow> 'a list \<Rightarrow> 'a option" where
  "table_entry key k ys = find (\<lambda>y. key y = k) ys"

definition table_ok :: "nat \<Rightarrow> ('a \<Rightarrow> 'k) \<Rightarrow> 'a list \<Rightarrow> bool" where
  "table_ok capacity key ys \<longleftrightarrow> length ys \<le> capacity \<and> distinct (map key ys)"

lemma table_slot_None: "table_slot key k ys = None \<longleftrightarrow> k \<notin> key ` set ys"
  by (induction ys) auto

lemma table_slot_Some: "table_slot key k ys = Some i \<Longrightarrow> i < length ys \<and> key (ys ! i) = k"
  by (induction ys arbitrary: i) (auto split: if_splits)

lemma table_entry_None: "table_entry key k ys = None \<longleftrightarrow> k \<notin> key ` set ys"
  by (auto simp: table_entry_def find_None_iff)

lemma table_entry_iff:
  "distinct (map key ys) \<Longrightarrow> table_entry key k ys = Some y \<longleftrightarrow> y \<in> set ys \<and> key y = k"
proof (induction ys)
  case (Cons z zs)
  then show ?case by (force simp: table_entry_def)
qed (simp add: table_entry_def)

lemma upsert_members:
  assumes "table_ok capacity key ys" and "0 < capacity"
  shows "y \<in> set (table_upsert capacity key x ys) \<longleftrightarrow>
    y = x \<or> (y \<in> set ys \<and> key y \<noteq> key x \<and>
      (length ys < capacity \<or> key x \<in> key ` set ys \<or> y \<noteq> ys ! (capacity - 1)))"
proof (cases "table_slot key (key x) ys")
  case None
  then have new: "key x \<notin> key ` set ys" by (simp add: table_slot_None)
  show ?thesis
  proof (cases "length ys < capacity")
    case True
    have "key y \<noteq> key x" if "y \<in> set ys" using that new by (metis imageI)
    then show ?thesis using None new True by (auto simp: table_upsert_def)
  next
    case False
    have "key y \<noteq> key x" if "y \<in> set ys" for y using that new by (metis imageI)
    moreover have len: "length ys = capacity" using False assms(1) by (simp add: table_ok_def)
    moreover have dist: "distinct ys" using assms(1) by (auto simp: table_ok_def distinct_map)
    moreover have "set (ys [capacity - 1 := x]) = insert x (set ys - {ys ! (capacity - 1)})"
      using dist len assms(2) by (subst set_update_distinct) auto
    ultimately show ?thesis using None new False by (auto simp: table_upsert_def)
  qed
next
  case (Some i)
  note i = table_slot_Some [OF Some]
  have dist: "distinct (map key ys)" using assms(1) by (simp add: table_ok_def)
  have "set (ys [i := x]) = insert x (set ys - {ys ! i})"
    using dist i by (subst set_update_distinct) (auto simp: distinct_map)
  moreover have "y = ys ! i \<longleftrightarrow> key y = key x" if "y \<in> set ys"
    using that i dist by (metis distinct_map inj_on_def nth_mem)
  moreover have "key x \<in> key ` set ys" using i by (metis image_eqI nth_mem)
  ultimately show ?thesis using Some by (auto simp: table_upsert_def)
qed

lemma upsert_ok:
  assumes "table_ok capacity key ys" and "0 < capacity"
  shows "table_ok capacity key (table_upsert capacity key x ys)"
proof (cases "table_slot key (key x) ys")
  case None
  then have new: "key x \<notin> key ` set ys" by (simp add: table_slot_None)
  then show ?thesis
    using None assms
    by (auto simp: table_upsert_def table_ok_def map_update intro: distinct_list_update)
next
  case (Some i)
  note i = table_slot_Some [OF Some]
  have "map key (ys [i := x]) = map key ys"
    using i by (simp add: map_update) (metis list_update_id nth_map)
  then show ?thesis using Some assms by (simp add: table_upsert_def table_ok_def)
qed

lemma table_entry_other:
  assumes "table_ok capacity key ys" and "0 < capacity"
    and "\<not> \<not> length ys < capacity \<or> table_entry key (key x) ys \<noteq> None" and "k \<noteq> key x"
  shows "table_entry key k (table_upsert capacity key x ys) = table_entry key k ys"
proof -
  have mem: "y \<in> set (table_upsert capacity key x ys) \<longleftrightarrow> y = x \<or> (y \<in> set ys \<and> key y \<noteq> key x)" for y
    using upsert_members [OF assms(1,2), of y x] assms(3) by (auto simp: table_entry_None)
  have dist: "distinct (map key ys)" "distinct (map key (table_upsert capacity key x ys))"
    using assms(1) upsert_ok [OF assms(1,2)] by (simp_all add: table_ok_def)
  show ?thesis
  proof (cases "table_entry key k ys")
    case None
    then have "k \<notin> key ` set (table_upsert capacity key x ys)"
      using mem assms(4) by (auto simp: table_entry_None)
    then show ?thesis using None by (simp add: table_entry_None [symmetric])
  next
    case (Some y)
    then have "y \<in> set ys" "key y = k" using table_entry_iff [OF dist(1)] by auto
    then have "table_entry key k (table_upsert capacity key x ys) = Some y"
      using mem assms(4) table_entry_iff [OF dist(2)] by auto
    then show ?thesis using Some by simp
  qed
qed

lemma table_entry_same:
  assumes "table_ok capacity key ys" and "0 < capacity"
  shows "table_entry key (key x) (table_upsert capacity key x ys) = Some x"
proof -
  have "distinct (map key (table_upsert capacity key x ys))"
    using upsert_ok [OF assms] by (simp add: table_ok_def)
  then show ?thesis using upsert_members [OF assms, of x x] by (simp add: table_entry_iff)
qed

interpretation binding_table: keyed_table "table_upsert PARP_MAX_DOMAINS bd_domain_id"
  "table_entry bd_domain_id" bd_domain_id "table_ok PARP_MAX_DOMAINS bd_domain_id"
  "\<lambda>t. \<not> length t < PARP_MAX_DOMAINS"
  by (unfold_locales; rule table_entry_same table_entry_other upsert_ok; (assumption | simp))

interpretation prior_table: keyed_table "table_upsert PARP_MAX_APPS p_app_id"
  "table_entry p_app_id" p_app_id "table_ok PARP_MAX_APPS p_app_id"
  "\<lambda>t. \<not> length t < PARP_MAX_APPS"
  by (unfold_locales; rule table_entry_same table_entry_other upsert_ok; (assumption | simp))

section \<open>Updates\<close>

definition parp_clone_snapshot :: "u64 \<Rightarrow> parp_snapshot option \<Rightarrow> parp_snapshot" where
  "parp_clone_snapshot now_ns old =
     (let base = (case old of None \<Rightarrow> parp_snapshot_zero | Some s \<Rightarrow> s)
      in base \<lparr>
        x_version := x_version base + 1,
        x_created_ns := now_ns,
        x_expires_ns := (if old = None \<or> x_expires_ns base = 0
                         then now_ns + 300 * NSEC_PER_SEC else x_expires_ns base) \<rparr>)"

text \<open>Each update returns its error and the active snapshot after it.\<close>

definition parp_snapshot_update_binding ::
  "bool \<Rightarrow> u64 \<Rightarrow> parp_binding \<Rightarrow> parp_snapshot option \<Rightarrow> errno option \<times> parp_snapshot option" where
  "parp_snapshot_update_binding alloc_ok now_ns binding active =
     (if \<not> alloc_ok then (Some ENOMEM, active)
      else let new_snapshot = parp_clone_snapshot now_ns active
           in (None, Some (new_snapshot \<lparr> x_bindings :=
                table_upsert PARP_MAX_DOMAINS bd_domain_id binding (x_bindings new_snapshot) \<rparr>)))"

definition parp_snapshot_update_prior ::
  "bool \<Rightarrow> u64 \<Rightarrow> parp_app_prior \<Rightarrow> parp_snapshot option \<Rightarrow> errno option \<times> parp_snapshot option" where
  "parp_snapshot_update_prior alloc_ok now_ns prior active =
     (if (case active of None \<Rightarrow> False | Some s \<Rightarrow> x_generation s \<noteq> 0) then (Some EBUSY, active)
      else if \<not> alloc_ok then (Some ENOMEM, active)
      else let new_snapshot = parp_clone_snapshot now_ns active
           in (None, Some (new_snapshot \<lparr> x_priors :=
                table_upsert PARP_MAX_APPS p_app_id prior (x_priors new_snapshot) \<rparr>)))"

text \<open>
  The loop of \<open>parp_validate_prior_batch\<close>: \<open>seen\<close> are the entries before the current one, the result
  is the count of foreground entries, \<open>None\<close> for the early return.
\<close>

fun parp_validate_entries ::
  "nat \<Rightarrow> parp_app_prior list \<Rightarrow> parp_app_prior list \<Rightarrow> nat \<Rightarrow> nat option" where
  "parp_validate_entries n seen [] foreground = Some foreground"
| "parp_validate_entries n seen (e # es) foreground =
     (if \<not> p_valid e \<or> p_app_id e = 0 \<or> p_use_score_q15 e > PARP_Q15_ONE \<or>
         p_rank e = 0 \<or> unat (p_rank e) > n
      then None
      else if \<exists>s \<in> set seen. p_app_id s = p_app_id e \<or> p_rank s = p_rank e then None
      else parp_validate_entries n (seen @ [e]) es
             (foreground + (if p_foreground e then 1 else 0)))"

definition parp_validate_prior_batch :: "parp_app_prior_batch \<Rightarrow> u64 \<Rightarrow> errno option" where
  "parp_validate_prior_batch b now_ns =
     (let n = length (b_entries b)
      in if b_schema_version b \<noteq> 1 \<or> b_model_version b = 0 \<or> b_prediction_generation b = 0 \<or>
            n = 0 \<or> n > PARP_MAX_APPS
         then Some EINVAL
         else if b_timestamp_ns b = 0 \<or> b_timestamp_ns b > now_ns + 5 * NSEC_PER_SEC \<or>
            b_expiry_ns b \<le> b_timestamp_ns b \<or>
            b_expiry_ns b - b_timestamp_ns b > PARP_APP_PRIOR_MAX_TTL_NS \<or>
            b_horizon_ns b = 0 \<or> b_horizon_ns b > PARP_APP_PRIOR_MAX_HORIZON_NS
         then Some ERANGE
         else case parp_validate_entries n [] (b_entries b) 0 of
             None \<Rightarrow> Some EINVAL
           | Some foreground \<Rightarrow> if foreground > 1 then Some EINVAL else None)"

definition parp_batch_prior :: "parp_app_prior_batch \<Rightarrow> parp_app_prior \<Rightarrow> parp_app_prior" where
  "parp_batch_prior b e = e \<lparr>
     p_updated_ns := b_timestamp_ns b,
     p_expires_ns := b_expiry_ns b,
     p_horizon_ms := ucast (b_horizon_ns b div NSEC_PER_MSEC),
     p_model_version := ucast (b_model_version b),
     p_prediction_generation := b_prediction_generation b \<rparr>"

text \<open>The pair of counters is \<open>(invalid_batch, stale_batch)\<close>.\<close>

definition parp_snapshot_replace_prior_batch ::
  "bool \<Rightarrow> u64 \<Rightarrow> parp_app_prior_batch \<Rightarrow> parp_snapshot option \<times> u64 \<times> u64 \<Rightarrow>
   errno option \<times> parp_snapshot option \<times> u64 \<times> u64" where
  "parp_snapshot_replace_prior_batch alloc_ok now_ns b st =
     (let (active, invalid, stale) = st
      in case parp_validate_prior_batch b now_ns of
        Some e \<Rightarrow> (Some e, active, invalid + 1, stale)
      | None \<Rightarrow>
          if (case active of None \<Rightarrow> False
              | Some s \<Rightarrow> b_prediction_generation b \<le> x_generation s)
          then (Some (if b_prediction_generation b = x_generation (the active)
                      then EALREADY else ESTALE), active, invalid, stale + 1)
          else if \<not> alloc_ok then (Some ENOMEM, active, invalid, stale)
          else (None, Some ((parp_clone_snapshot now_ns active) \<lparr>
                  x_priors := map (parp_batch_prior b) (b_entries b),
                  x_schema_version := b_schema_version b,
                  x_model_version := b_model_version b,
                  x_generation := b_prediction_generation b,
                  x_timestamp_ns := b_timestamp_ns b,
                  x_horizon_ns := b_horizon_ns b,
                  x_expiry_ns := b_expiry_ns b,
                  x_expires_ns := b_expiry_ns b \<rparr>), invalid, stale))"

section \<open>Readers\<close>

definition active_binding :: "u64 \<Rightarrow> parp_snapshot \<Rightarrow> parp_binding option" where
  "active_binding domain_id s = find (\<lambda>b. bd_active b \<and> bd_domain_id b = domain_id) (x_bindings s)"

definition set_flag :: "u32 \<Rightarrow> bool \<Rightarrow> parp_scan_budget_input \<Rightarrow> parp_scan_budget_input" where
  "set_flag flag c i = (if c then i \<lparr> in_flags := in_flags i OR flag \<rparr> else i)"

definition parp_snapshot_fill_scan_budget_input ::
  "parp_snapshot option \<Rightarrow> u64 \<Rightarrow> u64 \<Rightarrow> parp_scan_budget_input \<Rightarrow> parp_scan_budget_input" where
  "parp_snapshot_fill_scan_budget_input active domain_id now_ns input =
     (case active of
        None \<Rightarrow> input
      | Some s \<Rightarrow>
          (case active_binding domain_id s of
             None \<Rightarrow> input
           | Some b \<Rightarrow>
               let i1 = set_flag PARP_SCAN_INPUT_BIND_PRESENT True input;
                   i2 = i1 \<lparr> in_app_id := bd_app_id b,
                     in_bind_generation := ucast (bd_generation b),
                     in_bind_expiry_ns := bd_expires_ns b,
                     in_foreground_epoch_id := bd_epoch_id b \<rparr>;
                   i3 = set_flag PARP_SCAN_INPUT_BIND_VALID
                     (bd_generation b \<noteq> 0 \<and> now_ns < bd_expires_ns b) i2;
                   prior = find (\<lambda>p. p_app_id p = bd_app_id b) (x_priors s);
                   i4 = (case prior of
                       None \<Rightarrow> i3
                     | Some p \<Rightarrow>
                         set_flag PARP_SCAN_INPUT_PRIOR_VALID
                           (p_valid p \<and> now_ns < x_expiry_ns s \<and>
                            p_prediction_generation p = x_generation s)
                           ((set_flag PARP_SCAN_INPUT_PRIOR_PRESENT True i3) \<lparr>
                             in_foreground := p_foreground p,
                             in_app_use_score_q15 := p_use_score_q15 p,
                             in_app_rank := p_rank p \<rparr>));
                   i5 = i4 \<lparr> in_prediction_timestamp_ns := x_timestamp_ns s,
                     in_prediction_expiry_ns := x_expiry_ns s,
                     in_prediction_generation := x_generation s,
                     in_model_version := x_model_version s \<rparr>
               in set_flag PARP_SCAN_INPUT_MODEL_COMPATIBLE
                    (case prior of None \<Rightarrow> False
                     | Some p \<Rightarrow> bd_model_version b = ucast (x_model_version s) \<and>
                                 p_model_version p = ucast (x_model_version s))
                    (set_flag PARP_SCAN_INPUT_GENERATION_VALID (x_generation s \<noteq> 0) i5)))"

text \<open>
  The domain a memory cgroup stands for (\<open>adapter/memcg_adapter.c\<close>). A cgroup other than the root is
  \<open>Some\<close> of its inode number.
\<close>

definition parp_memcg_domain_id :: "u64 option \<Rightarrow> u64" where
  "parp_memcg_domain_id memcg = (case memcg of None \<Rightarrow> 0 | Some ino \<Rightarrow> ino)"

definition parp_context_lookup ::
  "parp_snapshot option \<Rightarrow> u64 \<Rightarrow> u64 \<Rightarrow> parp_app_context option" where
  "parp_context_lookup active domain_id now_ns =
     (case active of
        None \<Rightarrow> None
      | Some s \<Rightarrow>
          if now_ns \<ge> x_expires_ns s then None
          else case active_binding domain_id s of
            None \<Rightarrow> None
          | Some b \<Rightarrow>
              if now_ns \<ge> bd_expires_ns b then None
              else case find (\<lambda>p. p_valid p \<and> p_app_id p = bd_app_id b) (x_priors s) of
                None \<Rightarrow> None
              | Some p \<Rightarrow>
                  if now_ns \<ge> p_expires_ns p \<or> p_model_version p \<noteq> bd_model_version b then None
                  else Some \<lparr> ac_domain_id = domain_id, ac_app_id = bd_app_id b,
                         ac_bind_generation = bd_generation b,
                         ac_foreground_epoch_id = bd_epoch_id b,
                         ac_bind_expiry_ns = bd_expires_ns b,
                         ac_model_version = bd_model_version b,
                         ac_app_prior_q15 = p_use_score_q15 p,
                         ac_owner_confidence_q15 = PARP_Q15_ONE, ac_owner_source = 1 \<rparr>)"

section \<open>Lemmas\<close>

lemma validate_entries_spec:
  "parp_validate_entries n seen es fg = Some fg' \<Longrightarrow>
   (\<forall>e \<in> set es. p_valid e \<and> p_app_id e \<noteq> 0 \<and> p_use_score_q15 e \<le> PARP_Q15_ONE \<and>
      1 \<le> unat (p_rank e) \<and> unat (p_rank e) \<le> n) \<and>
   (\<forall>e \<in> set es. \<forall>s \<in> set seen. p_app_id s \<noteq> p_app_id e \<and> p_rank s \<noteq> p_rank e) \<and>
   distinct (map p_app_id es) \<and> distinct (map p_rank es) \<and>
   fg' = fg + length (filter p_foreground es)"
proof (induction n seen es fg rule: parp_validate_entries.induct)
  case (2 n seen e es fg)
  have rec: "parp_validate_entries n (seen @ [e]) es (fg + (if p_foreground e then 1 else 0)) = Some fg'"
    and e: "p_valid e" "p_app_id e \<noteq> 0" "p_use_score_q15 e \<le> PARP_Q15_ONE" "p_rank e \<noteq> 0"
      "unat (p_rank e) \<le> n"
    and new: "\<not> (\<exists>s \<in> set seen. p_app_id s = p_app_id e \<or> p_rank s = p_rank e)"
    using 2(2) by (auto simp: not_less split: if_splits)
  have "1 \<le> unat (p_rank e)" using e(4) by (simp add: Suc_le_eq unat_gt_0)
  then show ?case using 2(1) [OF _ new rec] e new
    by (auto simp: not_less)
qed simp

lemma validate_batch_entries:
  assumes "parp_validate_prior_batch b now_ns = None"
  shows "parp_validate_entries (length (b_entries b)) [] (b_entries b) 0 =
      Some (length (filter p_foreground (b_entries b)))"
    and "length (filter p_foreground (b_entries b)) \<le> 1"
    and "b_entries b \<noteq> []" and "length (b_entries b) \<le> PARP_MAX_APPS"
    and "b_prediction_generation b \<noteq> 0"
proof -
  obtain fg where fg: "parp_validate_entries (length (b_entries b)) [] (b_entries b) 0 = Some fg"
    and one: "fg \<le> 1"
    using assms by (auto simp: parp_validate_prior_batch_def Let_def split: if_splits option.splits)
  moreover have "fg = length (filter p_foreground (b_entries b))"
    using validate_entries_spec [OF fg] by simp
  ultimately show "parp_validate_entries (length (b_entries b)) [] (b_entries b) 0 =
      Some (length (filter p_foreground (b_entries b)))"
    "length (filter p_foreground (b_entries b)) \<le> 1" by simp_all
  show "b_entries b \<noteq> []" "length (b_entries b) \<le> PARP_MAX_APPS" "b_prediction_generation b \<noteq> 0"
    using assms by (auto simp: parp_validate_prior_batch_def Let_def split: if_splits)
qed

lemma ranks_cover:
  assumes "distinct (map p_rank es)"
    and "\<forall>e \<in> set es. 1 \<le> unat (p_rank e) \<and> unat (p_rank e) \<le> length es"
  shows "(\<lambda>e. unat (p_rank e)) ` set es = {1 .. length es}"
proof (rule card_subset_eq)
  show "(\<lambda>e. unat (p_rank e)) ` set es \<subseteq> {1 .. length es}" using assms(2) by auto
  have inj: "inj_on (\<lambda>e. unat (p_rank e)) (set es)"
  proof (rule inj_onI)
    fix x y
    assume "x \<in> set es" "y \<in> set es" "unat (p_rank x) = unat (p_rank y)"
    then have "p_rank x = p_rank y" using unsigned_word_eqI by blast
    then show "x = y" using assms(1) \<open>x \<in> set es\<close> \<open>y \<in> set es\<close>
      by (metis distinct_map inj_onD)
  qed
  have "distinct es" using assms(1) by (simp add: distinct_map)
  then show "card ((\<lambda>e. unat (p_rank e)) ` set es) = card {1 .. length es}"
    by (simp add: card_image [OF inj] distinct_card)
qed simp

text \<open>A complete ranking: the entries of one batch.\<close>

definition complete_ranking :: "parp_app_prior list \<Rightarrow> bool" where
  "complete_ranking ps \<longleftrightarrow> ps \<noteq> [] \<and> distinct (map p_app_id ps) \<and>
     (\<lambda>p. unat (p_rank p)) ` set ps = {1 .. length ps} \<and> distinct (map p_rank ps) \<and>
     length (filter p_foreground ps) \<le> 1 \<and>
     (\<forall>p \<in> set ps. p_valid p \<and> p_app_id p \<noteq> 0 \<and> p_use_score_q15 p \<le> PARP_Q15_ONE)"

lemma validate_batch_ranking:
  assumes "parp_validate_prior_batch b now_ns = None"
  shows "complete_ranking (map (parp_batch_prior b) (b_entries b))"
proof -
  note v = validate_batch_entries [OF assms]
  note spec = validate_entries_spec [OF v(1)]
  have same: "p_app_id (parp_batch_prior b e) = p_app_id e" "p_rank (parp_batch_prior b e) = p_rank e"
    "p_foreground (parp_batch_prior b e) = p_foreground e" "p_valid (parp_batch_prior b e) = p_valid e"
    "p_use_score_q15 (parp_batch_prior b e) = p_use_score_q15 e" for e
    by (simp_all add: parp_batch_prior_def)
  have maps: "map p_app_id (map (parp_batch_prior b) es) = map p_app_id es"
    "map p_rank (map (parp_batch_prior b) es) = map p_rank es"
    "length (filter p_foreground (map (parp_batch_prior b) es)) = length (filter p_foreground es)" for es
    by (simp_all add: same comp_def filter_map)
  have "(\<lambda>p. unat (p_rank p)) ` set (map (parp_batch_prior b) (b_entries b)) =
      (\<lambda>e. unat (p_rank e)) ` set (b_entries b)"
    by (simp add: image_image same)
  then show ?thesis
    unfolding complete_ranking_def maps using v spec ranks_cover [of "b_entries b"]
    by (simp add: same)
qed

text \<open>One update of the active snapshot, and what updates keep.\<close>

inductive parp_snapshot_step :: "parp_snapshot option \<Rightarrow> parp_snapshot option \<Rightarrow> bool" where
  binding: "parp_snapshot_step a (snd (parp_snapshot_update_binding alloc_ok now_ns binding a))"
| prior: "parp_snapshot_step a (snd (parp_snapshot_update_prior alloc_ok now_ns prior a))"
| batch: "parp_snapshot_step a
    (fst (snd (parp_snapshot_replace_prior_batch alloc_ok now_ns b (a, invalid, stale))))"

inductive parp_snapshot_reach :: "parp_snapshot option \<Rightarrow> bool" where
  empty: "parp_snapshot_reach None"
| step: "parp_snapshot_reach a \<Longrightarrow> parp_snapshot_step a a' \<Longrightarrow> parp_snapshot_reach a'"

definition snapshot_ok :: "parp_snapshot \<Rightarrow> bool" where
  "snapshot_ok s \<longleftrightarrow>
     table_ok PARP_MAX_DOMAINS bd_domain_id (x_bindings s) \<and>
     table_ok PARP_MAX_APPS p_app_id (x_priors s) \<and>
     (x_generation s \<noteq> 0 \<longrightarrow> complete_ranking (x_priors s) \<and>
        (\<forall>p \<in> set (x_priors s). p_prediction_generation p = x_generation s \<and>
           p_model_version p = ucast (x_model_version s) \<and> p_expires_ns p = x_expiry_ns s))"

definition generation_of :: "parp_snapshot option \<Rightarrow> u32" where
  "generation_of a = (case a of None \<Rightarrow> 0 | Some s \<Rightarrow> x_generation s)"

lemma clone_fields [simp]:
  "x_bindings (parp_clone_snapshot now_ns a) = (case a of None \<Rightarrow> [] | Some s \<Rightarrow> x_bindings s)"
  "x_priors (parp_clone_snapshot now_ns a) = (case a of None \<Rightarrow> [] | Some s \<Rightarrow> x_priors s)"
  "x_generation (parp_clone_snapshot now_ns a) = generation_of a"
  "x_model_version (parp_clone_snapshot now_ns a) = (case a of None \<Rightarrow> 0 | Some s \<Rightarrow> x_model_version s)"
  "x_expiry_ns (parp_clone_snapshot now_ns a) = (case a of None \<Rightarrow> 0 | Some s \<Rightarrow> x_expiry_ns s)"
  by (simp_all add: parp_clone_snapshot_def parp_snapshot_zero_def generation_of_def Let_def
      split: option.splits)

lemma table_ok_empty: "table_ok n key []"
  by (simp add: table_ok_def)

lemma clone_ok: "(\<And>s. a = Some s \<Longrightarrow> snapshot_ok s) \<Longrightarrow> snapshot_ok (parp_clone_snapshot now_ns a)"
  by (cases a) (auto simp: snapshot_ok_def generation_of_def table_ok_empty)

lemma snapshot_step_ok:
  assumes "parp_snapshot_step a a'" and "\<And>s. a = Some s \<Longrightarrow> snapshot_ok s"
  shows "(\<forall>s. a' = Some s \<longrightarrow> snapshot_ok s) \<and> generation_of a \<le> generation_of a'"
  using assms(1)
proof (cases rule: parp_snapshot_step.cases)
  case (binding alloc_ok now_ns bd)
  define c where "c = parp_clone_snapshot now_ns a"
  have "snapshot_ok c" unfolding c_def using assms(2) by (rule clone_ok)
  then have "snapshot_ok (c \<lparr> x_bindings :=
      table_upsert PARP_MAX_DOMAINS bd_domain_id bd (x_bindings c) \<rparr>)"
    using binding_table.ok_upsert [of "x_bindings c" bd] by (simp add: snapshot_ok_def)
  moreover have "x_generation c = generation_of a" by (simp add: c_def)
  ultimately show ?thesis using binding assms(2)
    by (cases alloc_ok)
      (simp_all add: parp_snapshot_update_binding_def Let_def generation_of_def c_def [symmetric])
next
  case (prior alloc_ok now_ns pr)
  define c where "c = parp_clone_snapshot now_ns a"
  have ok: "snapshot_ok c" unfolding c_def using assms(2) by (rule clone_ok)
  have gen: "x_generation c = generation_of a" by (simp add: c_def)
  have "snapshot_ok (c \<lparr> x_priors :=
      table_upsert PARP_MAX_APPS p_app_id pr (x_priors c) \<rparr>)" if "x_generation c = 0"
    using ok prior_table.ok_upsert [of "x_priors c" pr] that by (simp add: snapshot_ok_def)
  then show ?thesis using prior assms(2) gen
    by (auto simp: parp_snapshot_update_prior_def Let_def generation_of_def c_def [symmetric]
        split: if_splits option.splits)
next
  case (batch alloc_ok now_ns b invalid stale)
  show ?thesis
  proof (cases "parp_validate_prior_batch b now_ns")
    case None
    note v = validate_batch_entries [OF None] and rank = validate_batch_ranking [OF None]
    have "snapshot_ok (parp_clone_snapshot now_ns a)" using assms(2) by (rule clone_ok)
    moreover have "table_ok PARP_MAX_APPS p_app_id (map (parp_batch_prior b) (b_entries b))"
      using rank v(4) by (simp add: complete_ranking_def table_ok_def)
    ultimately show ?thesis
      using batch None rank assms(2)
      by (auto simp: parp_snapshot_replace_prior_batch_def generation_of_def snapshot_ok_def
          parp_batch_prior_def not_le split: if_splits option.splits)
  next
    case (Some e)
    then show ?thesis using batch assms(2) by (simp add: parp_snapshot_replace_prior_batch_def)
  qed
qed

lemma snapshot_reach_ok: "parp_snapshot_reach a \<Longrightarrow> a = Some s \<Longrightarrow> snapshot_ok s"
proof (induction arbitrary: s rule: parp_snapshot_reach.induct)
  case (step a a')
  then show ?case using snapshot_step_ok [OF step.hyps(2)] by blast
qed simp


section \<open>Replacing the prior batch\<close>

lemma replace_None:
  assumes "parp_snapshot_replace_prior_batch alloc_ok now_ns b (a, invalid, stale) = (None, a', c)"
  shows "parp_validate_prior_batch b now_ns = None"
    and "generation_of a < b_prediction_generation b" and "c = (invalid, stale)"
    and "a' = Some ((parp_clone_snapshot now_ns a) \<lparr>
                  x_priors := map (parp_batch_prior b) (b_entries b),
                  x_schema_version := b_schema_version b,
                  x_model_version := b_model_version b,
                  x_generation := b_prediction_generation b,
                  x_timestamp_ns := b_timestamp_ns b,
                  x_horizon_ns := b_horizon_ns b,
                  x_expiry_ns := b_expiry_ns b,
                  x_expires_ns := b_expiry_ns b \<rparr>)"
proof -
  show v: "parp_validate_prior_batch b now_ns = None"
    using assms by (cases "parp_validate_prior_batch b now_ns")
      (auto simp: parp_snapshot_replace_prior_batch_def)
  have "b_prediction_generation b \<noteq> 0" using validate_batch_entries(5) [OF v] .
  then have pos: "0 < b_prediction_generation b" by (simp add: word_gt_0)
  show "generation_of a < b_prediction_generation b"
    using assms v pos by (auto simp: parp_snapshot_replace_prior_batch_def generation_of_def
        not_le split: if_splits option.splits)
  show "c = (invalid, stale)"
    using assms v by (auto simp: parp_snapshot_replace_prior_batch_def split: if_splits option.splits)
  show "a' = Some ((parp_clone_snapshot now_ns a) \<lparr>
                  x_priors := map (parp_batch_prior b) (b_entries b),
                  x_schema_version := b_schema_version b,
                  x_model_version := b_model_version b,
                  x_generation := b_prediction_generation b,
                  x_timestamp_ns := b_timestamp_ns b,
                  x_horizon_ns := b_horizon_ns b,
                  x_expiry_ns := b_expiry_ns b,
                  x_expires_ns := b_expiry_ns b \<rparr>)"
    using assms v by (auto simp: parp_snapshot_replace_prior_batch_def split: if_splits option.splits)
qed

lemma replace_Some:
  assumes "parp_snapshot_replace_prior_batch alloc_ok now_ns b (a, invalid, stale) = (Some e, a', c)"
  shows "a' = a \<and> c = (if e = EINVAL \<or> e = ERANGE then (invalid + 1, stale)
                      else if e = EALREADY \<or> e = ESTALE then (invalid, stale + 1)
                      else (invalid, stale))"
proof (cases "parp_validate_prior_batch b now_ns")
  case None
  then show ?thesis using assms
    by (auto simp: parp_snapshot_replace_prior_batch_def split: if_splits option.splits)
next
  case (Some e')
  then have "e' = EINVAL \<or> e' = ERANGE"
    by (auto simp: parp_validate_prior_batch_def Let_def split: if_splits option.splits)
  then show ?thesis using assms Some by (auto simp: parp_snapshot_replace_prior_batch_def)
qed

text \<open>C13. Replacing the prior batch is all or nothing. On success the published priors are a complete
  ranking (distinct applications, the ranks exactly \<open>1 .. n\<close>, at most one foreground, every score in
  Q15), the prediction generation has strictly grown and no binding changed; on an error the active
  snapshot is the old one and exactly the counter of that error moved.\<close>

theorem parp_prior_batch_all_or_nothing:
  assumes "parp_snapshot_replace_prior_batch alloc_ok now_ns b (a, invalid, stale) = (err, a', c)"
  shows "(err = None \<longrightarrow> (\<exists>s. a' = Some s \<and> complete_ranking (x_priors s) \<and>
            generation_of a < x_generation s \<and> c = (invalid, stale) \<and>
            x_bindings s = (case a of None \<Rightarrow> [] | Some old \<Rightarrow> x_bindings old))) \<and>
         (err \<noteq> None \<longrightarrow> a' = a \<and>
            c = (if err = Some EINVAL \<or> err = Some ERANGE then (invalid + 1, stale)
                 else if err = Some EALREADY \<or> err = Some ESTALE then (invalid, stale + 1)
                 else (invalid, stale)))"
proof (cases err)
  case None
  note r = replace_None [OF assms [unfolded None]]
  show ?thesis using None r(2,3) validate_batch_ranking [OF r(1)] by (simp add: r(4))
next
  case (Some e)
  show ?thesis using replace_Some [OF assms [unfolded Some]] Some by simp
qed

definition sample_prior :: "u32 \<Rightarrow> u16 \<Rightarrow> u16 \<Rightarrow> bool \<Rightarrow> parp_app_prior" where
  "sample_prior app score rank fg = \<lparr> p_app_id = app, p_use_score_q15 = score, p_rank = rank,
     p_horizon_ms = 0, p_updated_ns = 0, p_expires_ns = 0, p_model_version = 0,
     p_prediction_generation = 0, p_flags = 0, p_foreground = fg, p_valid = True \<rparr>"

definition sample_batch :: parp_app_prior_batch where
  "sample_batch = \<lparr> b_schema_version = 1, b_model_version = 3, b_prediction_generation = 7,
     b_timestamp_ns = 1000, b_horizon_ns = 2000000, b_expiry_ns = 5000,
     b_entries = [sample_prior 10 30000 1 True, sample_prior 11 20000 2 False] \<rparr>"

text \<open>Witness of C13: a batch of two applications after boot.\<close>

theorem parp_prior_batch_all_or_nothing_witness:
  "\<exists>s c. parp_snapshot_replace_prior_batch True 2000 sample_batch (None, 0, 0) = (None, Some s, c) \<and>
     complete_ranking (x_priors s) \<and> 0 < x_generation s"
proof -
  obtain err a' c where r: "parp_snapshot_replace_prior_batch True 2000 sample_batch (None, 0, 0) =
      (err, a', c)" by (metis surj_pair)
  moreover have "fst (parp_snapshot_replace_prior_batch True 2000 sample_batch (None, 0, 0)) = None"
    by code_simp
  ultimately have "err = None" by simp
  then show ?thesis using parp_prior_batch_all_or_nothing [OF r] r by (auto simp: generation_of_def)
qed


section \<open>Reachable snapshots\<close>

text \<open>C30. In every snapshot that updates can publish, in any order and with any failures, a domain is
  bound at most once and an application has at most one prior, in at most 64 and 32 slots; and once
  a batch was accepted the priors are its complete ranking, all of the snapshot's generation, model
  and expiry. The next update never lowers the generation.\<close>

theorem parp_snapshot_reachable_ok:
  assumes "parp_snapshot_reach (Some s)" and "parp_snapshot_step (Some s) a'"
  shows "distinct (map bd_domain_id (x_bindings s)) \<and> length (x_bindings s) \<le> 64 \<and>
         distinct (map p_app_id (x_priors s)) \<and> length (x_priors s) \<le> 32 \<and>
         (x_generation s \<noteq> 0 \<longrightarrow> complete_ranking (x_priors s) \<and>
            (\<forall>p \<in> set (x_priors s). p_prediction_generation p = x_generation s \<and>
               p_model_version p = ucast (x_model_version s) \<and> p_expires_ns p = x_expiry_ns s)) \<and>
         x_generation s \<le> generation_of a'"
proof -
  have ok: "snapshot_ok s" using snapshot_reach_ok [OF assms(1)] by simp
  have "generation_of (Some s) \<le> generation_of a'"
    using snapshot_step_ok [OF assms(2)] ok by auto
  then show ?thesis using ok by (auto simp: snapshot_ok_def table_ok_def generation_of_def)
qed

definition sample_binding :: parp_binding where
  "sample_binding = \<lparr> bd_domain_id = 5, bd_app_id = 10, bd_generation = 1, bd_updated_ns = 1000,
     bd_expires_ns = 9000, bd_epoch_id = 2, bd_model_version = 3, bd_active = True \<rparr>"

definition sample_snapshot :: parp_snapshot where
  "sample_snapshot = the (snd (parp_snapshot_update_binding True 2500 sample_binding
     (fst (snd (parp_snapshot_replace_prior_batch True 2000 sample_batch (None, 0, 0))))))"

lemma sample_snapshot_eq:
  "snd (parp_snapshot_update_binding True 2500 sample_binding
     (fst (snd (parp_snapshot_replace_prior_batch True 2000 sample_batch (None, 0, 0))))) =
   Some sample_snapshot"
  by (simp add: sample_snapshot_def parp_snapshot_update_binding_def Let_def)

lemma sample_snapshot_reach: "parp_snapshot_reach (Some sample_snapshot)"
proof -
  have "parp_snapshot_reach (fst (snd (parp_snapshot_replace_prior_batch True 2000 sample_batch
      (None, 0, 0))))"
    using parp_snapshot_reach.empty parp_snapshot_step.batch by (rule parp_snapshot_reach.step)
  from parp_snapshot_reach.step [OF this
      parp_snapshot_step.binding [of _ True 2500 sample_binding]]
  show ?thesis by (simp only: sample_snapshot_eq)
qed

text \<open>Witness of C30: a batch, then a binding, then a batch that is too old.\<close>

theorem parp_snapshot_reachable_ok_witness:
  "length (x_bindings sample_snapshot) \<le> 64 \<and> x_generation sample_snapshot \<le>
     generation_of (fst (snd (parp_snapshot_replace_prior_batch True 3000 sample_batch
       (Some sample_snapshot, 0, 0))))"
  using parp_snapshot_reachable_ok [OF sample_snapshot_reach parp_snapshot_step.batch] by blast

section \<open>Readers agree\<close>

lemma find_Some_iff_set: "find P xs = Some x \<Longrightarrow> x \<in> set xs \<and> P x"
  by (induction xs) (auto split: if_splits)

lemma find_key:
  assumes "distinct (map key xs)" and "x \<in> set xs" and "key x = k" and "Q x"
  shows "find (\<lambda>y. Q y \<and> key y = k) xs = Some x"
  using assms
proof (induction xs)
  case (Cons y ys)
  then show ?case by (cases "y = x") force+
qed simp

lemma fill_bound:
  assumes "active_binding did s = Some b"
  shows "in_app_id (parp_snapshot_fill_scan_budget_input (Some s) did now_ns i) = bd_app_id b"
    and "in_bind_generation (parp_snapshot_fill_scan_budget_input (Some s) did now_ns i) =
      ucast (bd_generation b)"
    and "in_bind_expiry_ns (parp_snapshot_fill_scan_budget_input (Some s) did now_ns i) = bd_expires_ns b"
    and "in_foreground_epoch_id (parp_snapshot_fill_scan_budget_input (Some s) did now_ns i) = bd_epoch_id b"
    and "in_prediction_generation (parp_snapshot_fill_scan_budget_input (Some s) did now_ns i) =
      x_generation s"
  using assms by (auto simp: parp_snapshot_fill_scan_budget_input_def set_flag_def Let_def split: option.splits)

text \<open>The flags a filled input carries, when it came in without flags.\<close>

lemma fill_flags:
  fixes s :: parp_snapshot and did now_ns :: u64
  assumes "in_flags i = 0"
  defines "flags \<equiv> in_flags (parp_snapshot_fill_scan_budget_input (Some s) did now_ns i)"
  defines "prior \<equiv> (case active_binding did s of None \<Rightarrow> None
      | Some b \<Rightarrow> find (\<lambda>p. p_app_id p = bd_app_id b) (x_priors s))"
  shows "bit flags 0 = (active_binding did s \<noteq> None)"
    and "bit flags 1 = (\<exists>b. active_binding did s = Some b \<and> bd_generation b \<noteq> 0 \<and> now_ns < bd_expires_ns b)"
    and "bit flags 2 = (prior \<noteq> None)"
    and "bit flags 3 = (\<exists>p. prior = Some p \<and> p_valid p \<and> now_ns < x_expiry_ns s \<and>
      p_prediction_generation p = x_generation s)"
    and "bit flags 4 = (active_binding did s \<noteq> None \<and> x_generation s \<noteq> 0)"
    and "bit flags 5 = (\<exists>b p. active_binding did s = Some b \<and> prior = Some p \<and>
      bd_model_version b = ucast (x_model_version s) \<and> p_model_version p = ucast (x_model_version s))"
    and "\<not> bit flags 6"
  using assms(1) unfolding flags_def prior_def
  by (auto simp: parp_snapshot_fill_scan_budget_input_def set_flag_def Let_def bit_or_iff
      bit_BIT split: option.splits)


lemma active_binding_entry:
  assumes "distinct (map bd_domain_id (x_bindings s))"
  shows "active_binding did s = Option.bind (table_entry bd_domain_id did (x_bindings s))
    (\<lambda>b. if bd_active b then Some b else None)"
proof (cases "table_entry bd_domain_id did (x_bindings s)")
  case None
  then have "did \<notin> bd_domain_id ` set (x_bindings s)" by (simp add: table_entry_None)
  then have "active_binding did s = None" by (auto simp: active_binding_def find_None_iff)
  then show ?thesis using None by simp
next
  case (Some b)
  then have b: "b \<in> set (x_bindings s)" "bd_domain_id b = did"
    using table_entry_iff [OF assms] by auto
  show ?thesis
  proof (cases "bd_active b")
    case True
    then show ?thesis using Some find_key [OF assms b] by (simp add: active_binding_def)
  next
    case False
    have "y = b" if "y \<in> set (x_bindings s)" "bd_domain_id y = did" for y
      using that b assms by (metis distinct_map inj_onD)
    then have "find (\<lambda>y. bd_active y \<and> bd_domain_id y = did) (x_bindings s) = None"
      using False by (auto simp: find_None_iff)
    then show ?thesis using Some False by (simp add: active_binding_def)
  qed
qed

definition sample_input :: parp_scan_budget_input where
  "sample_input = \<lparr> in_domain_id = 5, in_app_id = 0,
     in_reclaim_scope = PARP_RECLAIM_SCOPE_TARGET_MEMCG, in_pressure = PARP_PRESSURE_LOW,
     in_native_nr_to_scan = 64, in_foreground = False, in_app_use_score_q15 = 0, in_app_rank = 0,
     in_foreground_epoch_id = 0, in_bind_generation = 0, in_bind_expiry_ns = 0,
     in_prediction_timestamp_ns = 0, in_prediction_expiry_ns = 0, in_prediction_generation = 0,
     in_model_version = 0, in_reclaim_priority = 12, in_now_ns = 3000, in_flags = 0 \<rparr>"

text \<open>Binding a domain is read back: after a successful update every reader finds exactly the
  written binding under its domain (none when it was written inactive), and any other domain keeps
  what it had as long as the table has a free slot or the domain was already in it.\<close>

theorem parp_binding_read_back:
  assumes "parp_snapshot_reach (Some s)"
    and "parp_snapshot_update_binding alloc_ok now_ns b (Some s) = (None, Some s')"
  shows "active_binding (bd_domain_id b) s' = (if bd_active b then Some b else None) \<and>
         (did \<noteq> bd_domain_id b \<and>
          (length (x_bindings s) < 64 \<or> bd_domain_id b \<in> bd_domain_id ` set (x_bindings s)) \<longrightarrow>
          active_binding did s' = active_binding did s)"
proof -
  have ok: "table_ok PARP_MAX_DOMAINS bd_domain_id (x_bindings s)"
    using snapshot_reach_ok [OF assms(1)] by (simp add: snapshot_ok_def)
  have b': "x_bindings s' = table_upsert PARP_MAX_DOMAINS bd_domain_id b (x_bindings s)"
    using assms(2) by (auto simp: parp_snapshot_update_binding_def Let_def split: if_splits)
  have ok': "table_ok PARP_MAX_DOMAINS bd_domain_id (x_bindings s')"
    using binding_table.ok_upsert [OF ok] by (simp add: b')
  have dist: "distinct (map bd_domain_id (x_bindings s))" "distinct (map bd_domain_id (x_bindings s'))"
    using ok ok' by (simp_all add: table_ok_def)
  have same: "table_entry bd_domain_id (bd_domain_id b) (x_bindings s') = Some b"
    unfolding b' using binding_table.entry_same [OF ok] .
  have other: "table_entry bd_domain_id did (x_bindings s') = table_entry bd_domain_id did (x_bindings s)"
    if "did \<noteq> bd_domain_id b"
      "length (x_bindings s) < 64 \<or> bd_domain_id b \<in> bd_domain_id ` set (x_bindings s)"
    unfolding b' using binding_table.entry_other [OF ok _ that(1)] that(2)
    by (auto simp: table_entry_None)
  show ?thesis
    unfolding active_binding_entry [OF dist(1)] active_binding_entry [OF dist(2)]
    using same other by auto
qed

text \<open>An instance: a second domain is bound, the first one stays.\<close>

theorem parp_binding_read_back_witness:
  "\<exists>s'. parp_snapshot_update_binding True 3000 (sample_binding \<lparr> bd_domain_id := 6 \<rparr>)
       (Some sample_snapshot) = (None, Some s') \<and>
     active_binding 5 s' = active_binding 5 sample_snapshot \<and> active_binding 6 s' \<noteq> None"
proof -
  let ?b = "sample_binding \<lparr> bd_domain_id := 6 \<rparr>"
  obtain s' where u: "parp_snapshot_update_binding True 3000 ?b (Some sample_snapshot) = (None, Some s')"
    by (simp add: parp_snapshot_update_binding_def Let_def)
  have "length (x_bindings sample_snapshot) < 64" by code_simp
  then show ?thesis
    using parp_binding_read_back [OF sample_snapshot_reach u, of 5] u
    by (auto simp: sample_binding_def)
qed

text \<open>The two readers of one snapshot agree. When the context lookup finds an owner of a domain,
  the scan-budget reader fills in the same application, binding generation, foreground epoch, binding
  expiry and score, and reports the binding and the prior as present; and neither expiry has passed.\<close>

theorem parp_snapshot_readers_agree:
  assumes "parp_snapshot_reach (Some s)" and "parp_context_lookup (Some s) did now_ns = Some c"
    and "in_flags i = 0"
  defines "j \<equiv> parp_snapshot_fill_scan_budget_input (Some s) did now_ns i"
  shows "in_app_id j = ac_app_id c \<and> in_bind_generation j = ucast (ac_bind_generation c) \<and>
         in_foreground_epoch_id j = ac_foreground_epoch_id c \<and>
         in_bind_expiry_ns j = ac_bind_expiry_ns c \<and>
         in_app_use_score_q15 j = ac_app_prior_q15 c \<and>
         in_flags j AND PARP_SCAN_INPUT_BIND_PRESENT \<noteq> 0 \<and>
         in_flags j AND PARP_SCAN_INPUT_PRIOR_PRESENT \<noteq> 0 \<and>
         now_ns < x_expires_ns s \<and> now_ns < ac_bind_expiry_ns c"
proof -
  obtain b p where b: "active_binding did s = Some b"
    and p: "find (\<lambda>p. p_valid p \<and> p_app_id p = bd_app_id b) (x_priors s) = Some p"
    and t: "now_ns < x_expires_ns s" "now_ns < bd_expires_ns b"
    and c: "ac_app_id c = bd_app_id b" "ac_bind_generation c = bd_generation b"
      "ac_foreground_epoch_id c = bd_epoch_id b" "ac_bind_expiry_ns c = bd_expires_ns b"
      "ac_app_prior_q15 c = p_use_score_q15 p"
    using assms(2) by (auto simp: parp_context_lookup_def not_le split: option.splits if_splits)
  have dist: "distinct (map p_app_id (x_priors s))"
    using snapshot_reach_ok [OF assms(1)] by (simp add: snapshot_ok_def table_ok_def)
  have q: "find (\<lambda>p. p_app_id p = bd_app_id b) (x_priors s) = Some p"
    using find_key [OF dist, of p "bd_app_id b" "\<lambda>_. True"] find_Some_iff_set [OF p] by simp
  have score: "in_app_use_score_q15 j = p_use_score_q15 p"
    using b q by (simp add: j_def parp_snapshot_fill_scan_budget_input_def set_flag_def Let_def)
  show ?thesis
    using fill_bound [OF b] fill_flags [OF assms(3), of s did now_ns] b q t c score
    by (simp add: j_def and_BIT)
qed

text \<open>An instance: domain 5 is owned by application 10 at time 3000.\<close>

theorem parp_snapshot_readers_agree_witness:
  "\<exists>c. parp_context_lookup (Some sample_snapshot) 5 3000 = Some c \<and>
     in_app_id (parp_snapshot_fill_scan_budget_input (Some sample_snapshot) 5 3000 sample_input) =
     ac_app_id c"
proof -
  have "parp_context_lookup (Some sample_snapshot) 5 3000 \<noteq> None" by code_simp
  then obtain c where c: "parp_context_lookup (Some sample_snapshot) 5 3000 = Some c" by blast
  moreover have "in_flags sample_input = 0" by (simp add: sample_input_def)
  ultimately show ?thesis using parp_snapshot_readers_agree [OF sample_snapshot_reach c] by blast
qed

end
