(* ===== verification/Scan_Budget.thy ===== *)
theory Scan_Budget
  imports App_Snapshot "HOL-Library.Multiset"
begin

text \<open>
  \<open>mm/parp/core/scan_budget.c\<close> and \<open>mm/parp/adapter/scan_budget_adapter.c\<close>: the scan budget of a
  memory cgroup. \<open>parp_scan_state\<close> is the file-scope state: the module parameters (writable at run
  time, so arbitrary), the mode, the domain that may be applied, the table of circuit-breaker guards,
  the counters and the budget sequence of the adapter.

  The table \<open>parp_scan_guards\<close> always has \<open>PARP_MAX_DOMAINS\<close> slots, a free one has domain 0. The
  guard operations are refined against a finite map from domains to guards.
\<close>

section \<open>Data\<close>

abbreviation PARP_Q15_SCALE :: u32 where "PARP_Q15_SCALE \<equiv> 32768"
abbreviation PARP_SCAN_GUARD_FAILURES :: u32 where "PARP_SCAN_GUARD_FAILURES \<equiv> 3"

datatype parp_scan_budget_mode = PARP_SCAN_BUDGET_DISABLED | PARP_SCAN_BUDGET_OBSERVE
  | PARP_SCAN_BUDGET_APPLY

datatype parp_scan_budget_reason = PARP_SCAN_REASON_NATIVE | PARP_SCAN_REASON_FOREGROUND
  | PARP_SCAN_REASON_HIGH_PRIOR | PARP_SCAN_REASON_MEDIUM_PRIOR | PARP_SCAN_REASON_LOW_PRIOR
  | PARP_SCAN_REASON_NO_BIND | PARP_SCAN_REASON_STALE_BIND | PARP_SCAN_REASON_NO_PRIOR
  | PARP_SCAN_REASON_EXPIRED_PRIOR | PARP_SCAN_REASON_STALE_GENERATION
  | PARP_SCAN_REASON_MODEL_VERSION | PARP_SCAN_REASON_NOT_TARGET_MEMCG
  | PARP_SCAN_REASON_PRESSURE_BYPASS | PARP_SCAN_REASON_CIRCUIT_BREAKER
  | PARP_SCAN_REASON_CLAMP_MIN | PARP_SCAN_REASON_CLAMP_MAX | PARP_SCAN_REASON_APPLY_DOMAIN
  | PARP_SCAN_REASON_DISABLED

text \<open>\<open>BIT (reason)\<close> of the three reasons that are also flags.\<close>

abbreviation FLAG_CLAMP_MIN :: u32 where "FLAG_CLAMP_MIN \<equiv> BIT 14"
abbreviation FLAG_CLAMP_MAX :: u32 where "FLAG_CLAMP_MAX \<equiv> BIT 15"
abbreviation FLAG_APPLY_DOMAIN :: u32 where "FLAG_APPLY_DOMAIN \<equiv> BIT 16"

record parp_scan_budget_decision =
  sd_valid :: bool
  sd_native_nr_to_scan :: u64
  sd_proposed_nr_to_scan :: u64
  sd_applied_nr_to_scan :: u64
  sd_multiplier_q15 :: u32
  sd_confidence_q15 :: u16
  sd_reason :: parp_scan_budget_reason
  sd_reason_flags :: u32
  sd_budget_sequence :: u64

definition scan_decision_zero :: parp_scan_budget_decision where
  "scan_decision_zero = \<lparr> sd_valid = False, sd_native_nr_to_scan = 0, sd_proposed_nr_to_scan = 0,
     sd_applied_nr_to_scan = 0, sd_multiplier_q15 = 0, sd_confidence_q15 = 0,
     sd_reason = PARP_SCAN_REASON_NATIVE, sd_reason_flags = 0, sd_budget_sequence = 0 \<rparr>"

record parp_scan_params =
  foreground_multiplier_q15 :: u32
  high_probability_multiplier_q15 :: u32
  medium_probability_multiplier_q15 :: u32
  low_probability_multiplier_q15 :: u32
  minimum_multiplier_q15 :: u32
  maximum_multiplier_q15 :: u32
  high_probability_threshold_q15 :: u32
  medium_probability_threshold_q15 :: u32
  minimum_scan_units :: u64
  maximum_extra_scan_units :: u64

definition parp_scan_params_default :: parp_scan_params where
  "parp_scan_params_default = \<lparr> foreground_multiplier_q15 = 16384,
     high_probability_multiplier_q15 = 19661, medium_probability_multiplier_q15 = 26214,
     low_probability_multiplier_q15 = 39321, minimum_multiplier_q15 = 16384,
     maximum_multiplier_q15 = 49152, high_probability_threshold_q15 = 24576,
     medium_probability_threshold_q15 = 12288, minimum_scan_units = 1,
     maximum_extra_scan_units = 4096 \<rparr>"

record parp_scan_guard =
  sg_domain_id :: u64
  sg_generation :: u32
  sg_failures :: u32
  sg_tripped :: bool

definition scan_guard_zero :: parp_scan_guard where
  "scan_guard_zero = \<lparr> sg_domain_id = 0, sg_generation = 0, sg_failures = 0, sg_tripped = False \<rparr>"

record parp_scan_budget_stats =
  b_queries :: u64
  b_target :: u64
  b_kswapd :: u64
  b_direct :: u64
  b_unknown :: u64
  b_reason :: "parp_scan_budget_reason \<Rightarrow> u64"
  b_clamp_min :: u64
  b_clamp_max :: u64
  b_observe :: u64
  b_apply :: u64
  b_apply_domain_bypass :: u64
  b_native_units :: u64
  b_proposed_units :: u64
  b_applied_units :: u64
  b_circuit_breaker :: u64

record parp_scan_state =
  sb_params :: parp_scan_params
  sb_mode :: parp_scan_budget_mode
  sb_apply_domain :: u64
  sb_guards :: "parp_scan_guard list"
  sb_stats :: parp_scan_budget_stats
  sb_sequence :: u64

definition parp_scan_boot :: parp_scan_state where
  "parp_scan_boot = \<lparr> sb_params = parp_scan_params_default, sb_mode = PARP_SCAN_BUDGET_OBSERVE,
     sb_apply_domain = 0, sb_guards = replicate PARP_MAX_DOMAINS scan_guard_zero,
     sb_stats = \<lparr> b_queries = 0, b_target = 0, b_kswapd = 0, b_direct = 0, b_unknown = 0,
       b_reason = (\<lambda>_. 0), b_clamp_min = 0, b_clamp_max = 0, b_observe = 0, b_apply = 0,
       b_apply_domain_bypass = 0, b_native_units = 0, b_proposed_units = 0, b_applied_units = 0,
       b_circuit_breaker = 0 \<rparr>,
     sb_sequence = 0 \<rparr>"

section \<open>Mode\<close>

text \<open>The argument of the setter is an enum, so any integer; its codes are \<open>0\<close>, \<open>1\<close> and \<open>2\<close>.\<close>

definition scan_mode_of_code :: "int \<Rightarrow> parp_scan_budget_mode option" where
  "scan_mode_of_code code =
     (if code = 0 then Some PARP_SCAN_BUDGET_DISABLED
      else if code = 1 then Some PARP_SCAN_BUDGET_OBSERVE
      else if code = 2 then Some PARP_SCAN_BUDGET_APPLY else None)"

fun scan_mode_code :: "parp_scan_budget_mode \<Rightarrow> int" where
  "scan_mode_code PARP_SCAN_BUDGET_DISABLED = 0"
| "scan_mode_code PARP_SCAN_BUDGET_OBSERVE = 1"
| "scan_mode_code PARP_SCAN_BUDGET_APPLY = 2"

text \<open>
  The setters take no lock: each tests the other variable and then stores its own. The tests are
  definitions of their own, so that the state machine below can run other code between test and store;
  the setters as one caller sees them are test and store in a row.
\<close>

definition parp_scan_mode_check :: "int \<Rightarrow> parp_scan_state \<Rightarrow> errno + parp_scan_budget_mode" where
  "parp_scan_mode_check code st =
     (case scan_mode_of_code code of
        None \<Rightarrow> Inl EINVAL
      | Some mode \<Rightarrow>
          if mode = PARP_SCAN_BUDGET_APPLY \<and> sb_apply_domain st = 0 then Inl EPERM else Inr mode)"

definition parp_set_scan_budget_mode ::
  "int \<Rightarrow> parp_scan_state \<Rightarrow> errno option \<times> parp_scan_state" where
  "parp_set_scan_budget_mode code st =
     (case parp_scan_mode_check code st of
        Inl e \<Rightarrow> (Some e, st)
      | Inr mode \<Rightarrow> (None, st \<lparr> sb_mode := mode \<rparr>))"

definition parp_scan_domain_check :: "parp_scan_state \<Rightarrow> errno option" where
  "parp_scan_domain_check st = (if sb_mode st = PARP_SCAN_BUDGET_APPLY then Some EBUSY else None)"

definition parp_set_scan_budget_apply_domain ::
  "u64 \<Rightarrow> parp_scan_state \<Rightarrow> errno option \<times> parp_scan_state" where
  "parp_set_scan_budget_apply_domain domain_id st =
     (case parp_scan_domain_check st of
        Some e \<Rightarrow> (Some e, st)
      | None \<Rightarrow> (None, st \<lparr> sb_apply_domain := domain_id \<rparr>))"

text \<open>What the tests are for; kept by each setter on its own, but not when they overlap.\<close>

definition parp_scan_mode_ok :: "parp_scan_state \<Rightarrow> bool" where
  "parp_scan_mode_ok st \<longleftrightarrow> (sb_mode st = PARP_SCAN_BUDGET_APPLY \<longrightarrow> sb_apply_domain st \<noteq> 0)"

lemma scan_mode_code_inverse [simp]: "scan_mode_of_code (scan_mode_code m) = Some m"
  by (cases m) (simp_all add: scan_mode_of_code_def)

interpretation scan_mode: mode_switch sb_mode
  "\<lambda>m. parp_set_scan_budget_mode (scan_mode_code m)" parp_scan_mode_ok
  by unfold_locales
    (auto simp: parp_set_scan_budget_mode_def parp_scan_mode_check_def parp_scan_mode_ok_def
      split: if_splits)

interpretation apply_domain: mode_switch sb_apply_domain
  parp_set_scan_budget_apply_domain parp_scan_mode_ok
  by unfold_locales
    (auto simp: parp_set_scan_budget_apply_domain_def parp_scan_domain_check_def
      parp_scan_mode_ok_def split: if_splits)

section \<open>Computing a budget\<close>

definition parp_scan_config_valid :: "parp_scan_params \<Rightarrow> bool" where
  "parp_scan_config_valid p \<longleftrightarrow>
     minimum_multiplier_q15 p \<le> maximum_multiplier_q15 p \<and>
     maximum_multiplier_q15 p \<le> 2 * PARP_Q15_SCALE \<and>
     foreground_multiplier_q15 p \<le> maximum_multiplier_q15 p \<and>
     high_probability_multiplier_q15 p \<le> maximum_multiplier_q15 p \<and>
     medium_probability_multiplier_q15 p \<le> maximum_multiplier_q15 p \<and>
     low_probability_multiplier_q15 p \<le> maximum_multiplier_q15 p \<and>
     high_probability_threshold_q15 p \<le> ucast PARP_Q15_ONE \<and>
     medium_probability_threshold_q15 p \<le> high_probability_threshold_q15 p"

definition parp_scale_scan_units :: "u64 \<Rightarrow> u32 \<Rightarrow> u64" where
  "parp_scale_scan_units native multiplier =
     (if multiplier > PARP_Q15_SCALE \<and>
         native > mul_u64_u32_div U64_MAX PARP_Q15_SCALE multiplier
      then U64_MAX
      else let floor_units = mul_u64_u32_div native multiplier PARP_Q15_SCALE;
               remainder = ((native AND 0x7FFF) * ucast multiplier) AND 0x7FFF;
               scaled = (if remainder \<ge> 16384 \<and> floor_units \<noteq> U64_MAX then floor_units + 1
                         else floor_units)
           in if multiplier > PARP_Q15_SCALE \<and> scaled < native then U64_MAX else scaled)"

definition parp_native_decision ::
  "parp_scan_budget_input \<Rightarrow> parp_scan_budget_reason \<Rightarrow> parp_scan_budget_decision \<Rightarrow>
   parp_scan_budget_decision" where
  "parp_native_decision input reason d = d \<lparr>
     sd_valid := False,
     sd_native_nr_to_scan := in_native_nr_to_scan input,
     sd_proposed_nr_to_scan := in_native_nr_to_scan input,
     sd_applied_nr_to_scan := in_native_nr_to_scan input,
     sd_multiplier_q15 := PARP_Q15_SCALE,
     sd_reason := reason \<rparr>"

definition parp_validate_scan_input ::
  "parp_scan_state \<Rightarrow> parp_scan_budget_input \<Rightarrow> parp_scan_budget_reason" where
  "parp_validate_scan_input st i =
     (if sb_mode st = PARP_SCAN_BUDGET_DISABLED then PARP_SCAN_REASON_DISABLED
      else if in_reclaim_scope i \<noteq> PARP_RECLAIM_SCOPE_TARGET_MEMCG \<and>
              in_reclaim_scope i \<noteq> PARP_RECLAIM_SCOPE_PROACTIVE_MEMCG
      then PARP_SCAN_REASON_NOT_TARGET_MEMCG
      else if \<not> in_flags i AND PARP_SCAN_INPUT_CIRCUIT_OK \<noteq> 0
      then PARP_SCAN_REASON_CIRCUIT_BREAKER
      else if \<not> in_flags i AND PARP_SCAN_INPUT_BIND_PRESENT \<noteq> 0 then PARP_SCAN_REASON_NO_BIND
      else if \<not> in_flags i AND PARP_SCAN_INPUT_BIND_VALID \<noteq> 0 \<or> in_now_ns i \<ge> in_bind_expiry_ns i
      then PARP_SCAN_REASON_STALE_BIND
      else if \<not> in_flags i AND PARP_SCAN_INPUT_PRIOR_PRESENT \<noteq> 0 then PARP_SCAN_REASON_NO_PRIOR
      else if \<not> in_flags i AND PARP_SCAN_INPUT_PRIOR_VALID \<noteq> 0 \<or>
              in_now_ns i \<ge> in_prediction_expiry_ns i
      then PARP_SCAN_REASON_EXPIRED_PRIOR
      else if \<not> in_flags i AND PARP_SCAN_INPUT_GENERATION_VALID \<noteq> 0
      then PARP_SCAN_REASON_STALE_GENERATION
      else if \<not> in_flags i AND PARP_SCAN_INPUT_MODEL_COMPATIBLE \<noteq> 0
      then PARP_SCAN_REASON_MODEL_VERSION
      else if \<not> parp_scan_config_valid (sb_params st) then PARP_SCAN_REASON_CIRCUIT_BREAKER
      else PARP_SCAN_REASON_NATIVE)"

text \<open>The multiplier of the application before the pressure is taken into account.\<close>

definition parp_app_multiplier ::
  "parp_scan_params \<Rightarrow> parp_scan_budget_input \<Rightarrow> u32 \<times> parp_scan_budget_reason" where
  "parp_app_multiplier p i =
     (if in_foreground i then (foreground_multiplier_q15 p, PARP_SCAN_REASON_FOREGROUND)
      else if ucast (in_app_use_score_q15 i) \<ge> high_probability_threshold_q15 p
      then (high_probability_multiplier_q15 p, PARP_SCAN_REASON_HIGH_PRIOR)
      else if ucast (in_app_use_score_q15 i) \<ge> medium_probability_threshold_q15 p
      then (medium_probability_multiplier_q15 p, PARP_SCAN_REASON_MEDIUM_PRIOR)
      else (low_probability_multiplier_q15 p, PARP_SCAN_REASON_LOW_PRIOR))"

text \<open>\<open>clamp\<close> between the configured limits, then the pressure adjustment.\<close>

definition parp_pressure_multiplier ::
  "parp_scan_params \<Rightarrow> parp_pressure_level \<Rightarrow> u32 \<Rightarrow> u32" where
  "parp_pressure_multiplier p pressure m0 =
     (let m = (if m0 \<le> minimum_multiplier_q15 p then minimum_multiplier_q15 p
               else if m0 \<ge> maximum_multiplier_q15 p then maximum_multiplier_q15 p else m0)
      in if pressure = PARP_PRESSURE_ELEVATED then (m + PARP_Q15_SCALE + 1) div 2
         else if pressure = PARP_PRESSURE_HIGH then max m 24576 else m)"

definition parp_scan_limits ::
  "parp_scan_params \<Rightarrow> u64 \<Rightarrow> parp_scan_budget_decision \<Rightarrow> parp_scan_budget_decision" where
  "parp_scan_limits p native d =
     (let d1 = (if sd_proposed_nr_to_scan d < minimum_scan_units p
                then d \<lparr> sd_proposed_nr_to_scan := min native (minimum_scan_units p),
                         sd_reason_flags := sd_reason_flags d OR FLAG_CLAMP_MIN \<rparr>
                else d);
          max_units = sat_add native (maximum_extra_scan_units p)
      in if sd_proposed_nr_to_scan d1 > max_units
         then d1 \<lparr> sd_proposed_nr_to_scan := max_units,
                   sd_reason_flags := sd_reason_flags d1 OR FLAG_CLAMP_MAX \<rparr>
         else d1)"

definition parp_scan_apply ::
  "parp_scan_state \<Rightarrow> parp_scan_budget_input \<Rightarrow> parp_scan_budget_decision \<Rightarrow>
   parp_scan_budget_decision" where
  "parp_scan_apply st i d =
     (let d1 = d \<lparr> sd_applied_nr_to_scan := in_native_nr_to_scan i \<rparr>
      in if sb_mode st = PARP_SCAN_BUDGET_APPLY
         then if in_domain_id i = sb_apply_domain st
              then d1 \<lparr> sd_applied_nr_to_scan := sd_proposed_nr_to_scan d1 \<rparr>
              else d1 \<lparr> sd_reason_flags := sd_reason_flags d1 OR FLAG_APPLY_DOMAIN \<rparr>
         else d1)"

text \<open>\<open>parp_compute_scan_budget\<close> for non-null pointers; it reads the state only.\<close>

definition parp_scan_budget_of ::
  "parp_scan_state \<Rightarrow> parp_scan_budget_input \<Rightarrow> parp_scan_budget_decision" where
  "parp_scan_budget_of st i =
     (let p = sb_params st; native = in_native_nr_to_scan i; d0 = scan_decision_zero;
          invalid = parp_validate_scan_input st i
      in if invalid \<noteq> PARP_SCAN_REASON_NATIVE then parp_native_decision i invalid d0
         else if native = 0
         then (parp_native_decision i PARP_SCAN_REASON_NATIVE d0) \<lparr> sd_valid := True \<rparr>
         else if in_pressure i = PARP_PRESSURE_EMERGENCY
         then parp_native_decision i PARP_SCAN_REASON_PRESSURE_BYPASS d0
         else
           let (m0, reason) = parp_app_multiplier p i;
               m = parp_pressure_multiplier p (in_pressure i) m0
           in parp_scan_apply st i (parp_scan_limits p native
                (d0 \<lparr> sd_reason := reason, sd_valid := True, sd_native_nr_to_scan := native,
                      sd_multiplier_q15 := m, sd_confidence_q15 := PARP_Q15_ONE,
                      sd_proposed_nr_to_scan := parp_scale_scan_units native m \<rparr>)))"

definition parp_compute_scan_budget ::
  "parp_scan_state \<Rightarrow> parp_scan_budget_input option \<Rightarrow> parp_scan_budget_decision option \<Rightarrow>
   errno option \<times> parp_scan_budget_decision option" where
  "parp_compute_scan_budget st input decision =
     (case (input, decision) of
        (Some i, Some _) \<Rightarrow> (None, Some (parp_scan_budget_of st i))
      | _ \<Rightarrow> (Some EINVAL, decision))"

section \<open>The circuit breaker\<close>

text \<open>The index of the guard of a domain, else of the first free slot.\<close>

fun guard_slot :: "u64 \<Rightarrow> nat \<Rightarrow> nat option \<Rightarrow> parp_scan_guard list \<Rightarrow> nat option" where
  "guard_slot domain_id i free [] = free"
| "guard_slot domain_id i free (g # gs) =
     (if sg_domain_id g = domain_id then Some i
      else guard_slot domain_id (Suc i)
             (if sg_domain_id g = 0 \<and> free = None then Some i else free) gs)"

definition parp_scan_guard_find :: "u64 \<Rightarrow> parp_scan_guard list \<Rightarrow> nat option" where
  "parp_scan_guard_find domain_id gs = guard_slot domain_id 0 None gs"

text \<open>The report of one guard, and whether it trips now.\<close>

definition guard_report ::
  "u32 \<Rightarrow> bool \<Rightarrow> parp_scan_guard \<Rightarrow> parp_scan_guard \<times> bool" where
  "guard_report generation valid g =
     (if valid \<and> generation > sg_generation g
      then (g \<lparr> sg_generation := generation, sg_failures := 0, sg_tripped := False \<rparr>, False)
      else if \<not> valid \<and> \<not> sg_tripped g
      then let f = sg_failures g + 1
           in if f \<ge> PARP_SCAN_GUARD_FAILURES
              then (g \<lparr> sg_failures := f, sg_tripped := True \<rparr>, True)
              else (g \<lparr> sg_failures := f \<rparr>, False)
      else (g, False))"

text \<open>The result is the return value, the table, and whether \<open>circuit_breaker_count\<close> moved.\<close>

definition parp_scan_budget_guard ::
  "u64 \<Rightarrow> u32 \<Rightarrow> bool \<Rightarrow> parp_scan_guard list \<Rightarrow> bool \<times> parp_scan_guard list \<times> bool" where
  "parp_scan_budget_guard domain_id generation valid gs =
     (if domain_id = 0 then (False, gs, False)
      else case parp_scan_guard_find domain_id gs of
        None \<Rightarrow> (False, gs, False)
      | Some i \<Rightarrow>
          let g0 = gs ! i;
              g1 = (if sg_domain_id g0 = 0 then g0 \<lparr> sg_domain_id := domain_id \<rparr> else g0);
              (g2, trips) = guard_report generation valid g1
          in (\<not> sg_tripped g2, gs [i := g2], trips))"

definition parp_scan_budget_guard_clear :: "u64 \<Rightarrow> parp_scan_guard list \<Rightarrow> parp_scan_guard list" where
  "parp_scan_budget_guard_clear domain_id gs =
     (case parp_scan_guard_find domain_id gs of
        None \<Rightarrow> gs
      | Some i \<Rightarrow> if sg_domain_id (gs ! i) = domain_id then gs [i := scan_guard_zero] else gs)"

definition parp_scan_budget_guard_snapshot :: "nat \<Rightarrow> parp_scan_guard list \<Rightarrow> parp_scan_guard list" where
  "parp_scan_budget_guard_snapshot max_views gs = take max_views (filter (\<lambda>g. sg_domain_id g \<noteq> 0) gs)"

definition parp_scan_budget_guard_reset_all_for_test ::
  "parp_scan_guard list \<Rightarrow> parp_scan_guard list" where
  "parp_scan_budget_guard_reset_all_for_test gs = replicate (length gs) scan_guard_zero"

section \<open>Accounting\<close>

definition counted_reason :: "parp_scan_budget_reason \<Rightarrow> bool" where
  "counted_reason r \<longleftrightarrow> r \<in> {PARP_SCAN_REASON_FOREGROUND, PARP_SCAN_REASON_HIGH_PRIOR,
     PARP_SCAN_REASON_MEDIUM_PRIOR, PARP_SCAN_REASON_LOW_PRIOR, PARP_SCAN_REASON_NO_BIND,
     PARP_SCAN_REASON_STALE_BIND, PARP_SCAN_REASON_NO_PRIOR, PARP_SCAN_REASON_EXPIRED_PRIOR,
     PARP_SCAN_REASON_STALE_GENERATION, PARP_SCAN_REASON_MODEL_VERSION,
     PARP_SCAN_REASON_PRESSURE_BYPASS}"

definition count_scope :: "parp_reclaim_scope \<Rightarrow> parp_scan_budget_stats \<Rightarrow> parp_scan_budget_stats" where
  "count_scope scope t =
     (if scope = PARP_RECLAIM_SCOPE_TARGET_MEMCG \<or> scope = PARP_RECLAIM_SCOPE_PROACTIVE_MEMCG
      then t \<lparr> b_target := b_target t + 1 \<rparr>
      else if scope = PARP_RECLAIM_SCOPE_GLOBAL_KSWAPD then t \<lparr> b_kswapd := b_kswapd t + 1 \<rparr>
      else if scope = PARP_RECLAIM_SCOPE_GLOBAL_DIRECT then t \<lparr> b_direct := b_direct t + 1 \<rparr>
      else t \<lparr> b_unknown := b_unknown t + 1 \<rparr>)"

definition count_flags :: "u32 \<Rightarrow> parp_scan_budget_stats \<Rightarrow> parp_scan_budget_stats" where
  "count_flags flags t = t \<lparr>
     b_clamp_min := (if flags AND FLAG_CLAMP_MIN \<noteq> 0 then b_clamp_min t + 1 else b_clamp_min t),
     b_clamp_max := (if flags AND FLAG_CLAMP_MAX \<noteq> 0 then b_clamp_max t + 1 else b_clamp_max t),
     b_apply_domain_bypass :=
       (if flags AND FLAG_APPLY_DOMAIN \<noteq> 0 then b_apply_domain_bypass t + 1
        else b_apply_domain_bypass t) \<rparr>"

definition parp_scan_budget_account ::
  "parp_scan_budget_mode \<Rightarrow> parp_scan_budget_input \<Rightarrow> parp_scan_budget_decision \<Rightarrow>
   parp_scan_budget_stats \<Rightarrow> parp_scan_budget_stats" where
  "parp_scan_budget_account mode i d t0 =
     (let t1 = count_scope (in_reclaim_scope i) (t0 \<lparr> b_queries := b_queries t0 + 1 \<rparr>);
          t2 = (if counted_reason (sd_reason d)
                then t1 \<lparr> b_reason := (b_reason t1) (sd_reason d := b_reason t1 (sd_reason d) + 1) \<rparr>
                else t1);
          t3 = count_flags (sd_reason_flags d) t2;
          t4 = (if mode = PARP_SCAN_BUDGET_APPLY \<and>
                   sd_applied_nr_to_scan d \<noteq> sd_native_nr_to_scan d
                then t3 \<lparr> b_apply := b_apply t3 + 1 \<rparr>
                else t3 \<lparr> b_observe := b_observe t3 + 1 \<rparr>)
      in t4 \<lparr>
        b_native_units := b_native_units t4 + sd_native_nr_to_scan d,
        b_proposed_units := b_proposed_units t4 + sd_proposed_nr_to_scan d,
        b_applied_units := b_applied_units t4 + sd_applied_nr_to_scan d \<rparr>)"

section \<open>The adapter\<close>

definition parp_reclaim_scope_of :: "u64 option \<Rightarrow> bool \<Rightarrow> bool \<Rightarrow> parp_reclaim_scope" where
  "parp_reclaim_scope_of memcg global_kswapd proactive =
     (if memcg = None
      then if global_kswapd then PARP_RECLAIM_SCOPE_GLOBAL_KSWAPD
           else PARP_RECLAIM_SCOPE_GLOBAL_DIRECT
      else if proactive then PARP_RECLAIM_SCOPE_PROACTIVE_MEMCG
      else PARP_RECLAIM_SCOPE_TARGET_MEMCG)"

definition parp_pressure_from_priority :: "int \<Rightarrow> parp_pressure_level" where
  "parp_pressure_from_priority priority =
     (if priority \<le> 1 then PARP_PRESSURE_EMERGENCY
      else if priority \<le> 4 then PARP_PRESSURE_HIGH
      else if priority \<le> 8 then PARP_PRESSURE_ELEVATED else PARP_PRESSURE_NORMAL)"

text \<open>The input of one query.\<close>

definition parp_scan_query ::
  "parp_snapshot option \<Rightarrow> u64 \<Rightarrow> u64 option \<Rightarrow> bool \<Rightarrow> bool \<Rightarrow> int \<Rightarrow> u64 \<Rightarrow>
   parp_scan_budget_input" where
  "parp_scan_query active now_ns memcg global_kswapd proactive priority native =
     (let domain_id = parp_memcg_domain_id memcg
      in parp_snapshot_fill_scan_budget_input active domain_id now_ns
           \<lparr> in_domain_id = domain_id, in_app_id = 0,
             in_reclaim_scope = parp_reclaim_scope_of memcg global_kswapd proactive,
             in_pressure = parp_pressure_from_priority priority,
             in_native_nr_to_scan = native, in_foreground = False, in_app_use_score_q15 = 0,
             in_app_rank = 0, in_foreground_epoch_id = 0, in_bind_generation = 0,
             in_bind_expiry_ns = 0, in_prediction_timestamp_ns = 0, in_prediction_expiry_ns = 0,
             in_prediction_generation = 0, in_model_version = 0, in_reclaim_priority = priority,
             in_now_ns = now_ns, in_flags = 0 \<rparr>)"

definition context_flags :: u32 where
  "context_flags = PARP_SCAN_INPUT_BIND_VALID OR PARP_SCAN_INPUT_PRIOR_VALID OR
     PARP_SCAN_INPUT_GENERATION_VALID OR PARP_SCAN_INPUT_MODEL_COMPATIBLE"

definition parp_guard_update ::
  "u64 \<Rightarrow> u32 \<Rightarrow> bool \<Rightarrow> parp_scan_state \<Rightarrow> bool \<times> parp_scan_state" where
  "parp_guard_update domain_id generation valid st =
     (let (allowed, gs, trips) = parp_scan_budget_guard domain_id generation valid (sb_guards st);
          t = sb_stats st
      in (allowed, st \<lparr> sb_guards := gs,
            sb_stats := (if trips then t \<lparr> b_circuit_breaker := b_circuit_breaker t + 1 \<rparr> else t) \<rparr>))"

text \<open>
  A query in its three parts: the decision, with the guard; the sequence number; the counters, for which
  the mode is read again.
\<close>

definition parp_scan_decide ::
  "parp_snapshot option \<Rightarrow> u64 \<Rightarrow> u64 option \<Rightarrow> bool \<Rightarrow> bool \<Rightarrow> int \<Rightarrow> u64 \<Rightarrow> parp_scan_state \<Rightarrow>
   parp_scan_budget_input \<times> parp_scan_budget_decision \<times> parp_scan_state" where
  "parp_scan_decide active now_ns memcg global_kswapd proactive priority native st =
     (let i0 = parp_scan_query active now_ns memcg global_kswapd proactive priority native;
          context_valid = (in_flags i0 AND context_flags = context_flags);
          (allowed, st1) = parp_guard_update (in_domain_id i0) (in_prediction_generation i0)
                             context_valid st;
          i = set_flag PARP_SCAN_INPUT_CIRCUIT_OK allowed i0;
          d = parp_scan_budget_of st1 i;
          st2 = (if sd_reason d = PARP_SCAN_REASON_CIRCUIT_BREAKER \<and>
                    in_flags i AND PARP_SCAN_INPUT_CIRCUIT_OK \<noteq> 0
                 then snd (parp_guard_update (in_domain_id i) (in_prediction_generation i) False st1)
                 else st1)
      in (i, d, st2))"

definition parp_scan_number ::
  "parp_scan_budget_decision \<Rightarrow> parp_scan_state \<Rightarrow> parp_scan_budget_decision \<times> parp_scan_state" where
  "parp_scan_number d st =
     (let seq = sb_sequence st + 1 in (d \<lparr> sd_budget_sequence := seq \<rparr>, st \<lparr> sb_sequence := seq \<rparr>))"

definition parp_scan_account ::
  "parp_scan_budget_input \<Rightarrow> parp_scan_budget_decision \<Rightarrow> parp_scan_state \<Rightarrow> parp_scan_state" where
  "parp_scan_account i d st =
     st \<lparr> sb_stats := parp_scan_budget_account (sb_mode st) i d (sb_stats st) \<rparr>"

definition parp_adapter_prepare_scan_budget ::
  "parp_snapshot option \<Rightarrow> u64 \<Rightarrow> u64 option \<Rightarrow> bool \<Rightarrow> bool \<Rightarrow> int \<Rightarrow> u64 \<Rightarrow> parp_scan_state \<Rightarrow>
   bool \<times> parp_scan_budget_decision \<times> parp_scan_state" where
  "parp_adapter_prepare_scan_budget active now_ns memcg global_kswapd proactive priority native st =
     (let (i, d, st1) = parp_scan_decide active now_ns memcg global_kswapd proactive priority native st;
          (d1, st2) = parp_scan_number d st1
      in (sd_valid d1, d1, parp_scan_account i d1 st2))"

definition parp_adapter_apply_scan_budget :: "parp_scan_budget_decision \<Rightarrow> u64" where
  "parp_adapter_apply_scan_budget d = min (sd_applied_nr_to_scan d) U64_MAX"


section \<open>Scaling\<close>

lemma round_half_up:
  fixes x :: nat
  shows "(x + 16384) div 32768 = x div 32768 + (if 16384 \<le> x mod 32768 then 1 else 0)"
proof -
  define q r where "q = x div 32768" and "r = x mod 32768"
  have x: "x = 32768 * q + r" and r: "r < 32768" by (simp_all add: q_def r_def)
  have "(x + 16384) div 32768 = q + (if 16384 \<le> r then 1 else 0)"
    using r unfolding x by (cases "16384 \<le> r") (simp_all add: div_nat_eqI)
  then show ?thesis by (simp only: q_def r_def)
qed

lemma unat_and_7FFF: "unat ((w :: u64) AND 0x7FFF) = unat w mod 32768"
proof -
  have "w AND 0x7FFF = take_bit 15 w" by (simp add: take_bit_eq_mask mask_eq_exp_minus_1)
  then have "unat (w AND 0x7FFF) = take_bit 15 (unat w)" by (simp only: unsigned_take_bit_eq)
  then show ?thesis by (simp add: take_bit_eq_mod)
qed

lemma scale_remainder:
  "unat (((native AND 0x7FFF) * ucast multiplier) AND 0x7FFF :: u64) =
   unat native * unat (multiplier :: u32) mod 32768"
proof -
  have "unat ((native AND 0x7FFF) * ucast multiplier :: u64) =
      unat native mod 32768 * unat multiplier mod 2 ^ 64"
    by (simp add: unat_word_ariths(2) unat_and_7FFF)
  moreover have "(x mod 2 ^ 64) mod 32768 = x mod (32768 :: nat)" for x
    by (rule mod_mod_cancel) (simp add: dvd_def exI [of _ "2 ^ 49"])
  ultimately show ?thesis by (simp only: unat_and_7FFF mod_mult_left_eq)
qed

lemma scale_guard:
  assumes "PARP_Q15_SCALE < multiplier"
  shows "mul_div_defined U64_MAX (ucast PARP_Q15_SCALE) (ucast multiplier)"
    and "unat (mul_u64_u32_div U64_MAX PARP_Q15_SCALE multiplier) =
      (2 ^ 64 - 1) * 32768 div unat multiplier"
proof -
  have m: "multiplier \<noteq> 0" "unat PARP_Q15_SCALE \<le> unat multiplier"
    using assms by (auto simp: word_le_nat_alt word_less_nat_alt)
  show "mul_div_defined U64_MAX (ucast PARP_Q15_SCALE) (ucast multiplier)"
    using m by (intro mul_div_defined_shrinking) auto
  show "unat (mul_u64_u32_div U64_MAX PARP_Q15_SCALE multiplier) =
      (2 ^ 64 - 1) * 32768 div unat multiplier"
    using mul_u64_u32_div_shrinks(1) [OF m, of U64_MAX] by simp
qed

lemma scale_product_fits:
  assumes "\<not> (PARP_Q15_SCALE < multiplier \<and>
      mul_u64_u32_div U64_MAX PARP_Q15_SCALE multiplier < native)"
  shows "unat native * unat multiplier \<le> (2 ^ 64 - 1) * 32768"
proof (cases "PARP_Q15_SCALE < multiplier")
  case True
  then have "unat native \<le> (2 ^ 64 - 1) * 32768 div unat multiplier"
    using assms scale_guard(2) [OF True] by (simp add: word_less_nat_alt)
  then have "unat native * unat multiplier \<le>
      (2 ^ 64 - 1) * 32768 div unat multiplier * unat multiplier" by (rule mult_le_mono1)
  also have "\<dots> \<le> (2 ^ 64 - 1) * 32768" by (rule div_times_less_eq_dividend)
  finally show ?thesis .
next
  case False
  then have "unat multiplier \<le> 32768" by (simp add: word_less_nat_alt)
  moreover have "unat native \<le> 2 ^ 64 - 1" using unat_u64_bound [of native] by simp
  ultimately show ?thesis by (rule mult_le_mono [rotated])
qed

lemma scale_overflow:
  assumes "PARP_Q15_SCALE < multiplier"
    and "mul_u64_u32_div U64_MAX PARP_Q15_SCALE multiplier < native"
  shows "2 ^ 64 - 1 \<le> (unat native * unat multiplier + 16384) div 32768"
proof -
  have pos: "0 < unat multiplier" using assms(1) by (simp add: word_less_nat_alt)
  have "(2 ^ 64 - 1) * 32768 div unat multiplier < unat native"
    using assms(2) scale_guard(2) [OF assms(1)] by (simp add: word_less_nat_alt)
  then have "(2 ^ 64 - 1) * 32768 < unat native * unat multiplier"
    using pos by (simp add: div_less_iff_less_mult)
  then show ?thesis by simp
qed

lemma scale_exact:
  "unat (parp_scale_scan_units native multiplier) =
   min (2 ^ 64 - 1) ((unat native * unat multiplier + 16384) div 32768)"
proof (cases "PARP_Q15_SCALE < multiplier \<and>
    mul_u64_u32_div U64_MAX PARP_Q15_SCALE multiplier < native")
  case True
  then show ?thesis using scale_overflow [of multiplier native]
    by (simp add: parp_scale_scan_units_def min_def)
next
  case False
  define x where "x = unat native * unat multiplier"
  define f where "f = mul_u64_u32_div native multiplier PARP_Q15_SCALE"
  have x: "x \<le> (2 ^ 64 - 1) * 32768" unfolding x_def using scale_product_fits [OF False] .
  then have q: "x div 32768 \<le> 2 ^ 64 - 1" by simp
  have "mul_div_defined native (ucast multiplier) (ucast PARP_Q15_SCALE)"
    using q by (simp add: mul_div_defined_def x_def)
  from unat_mul_u64_u32_div [OF this] have f: "unat f = x div 32768" by (simp add: f_def x_def)
  define up where "up = (16384 \<le> x mod 32768 \<and> f \<noteq> U64_MAX)"
  define scaled where "scaled = (if up then f + 1 else f)"
  have "unat U64_MAX = 2 ^ 64 - 1" by simp
  then have max: "f = U64_MAX \<longleftrightarrow> x div 32768 = 2 ^ 64 - 1"
    using f by (simp only: word_unat_eq_iff)
  have sum: "unat (f + 1) = x div 32768 + 1" if "f \<noteq> U64_MAX"
    using that max q f by (subst unat_add_no_wrap) auto
  have scaled: "unat scaled = min (2 ^ 64 - 1) ((x + 16384) div 32768)"
    unfolding round_half_up scaled_def up_def using q f max sum by (auto simp: min_def)
  have grows: "\<not> (PARP_Q15_SCALE < multiplier \<and> scaled < native)"
  proof
    assume *: "PARP_Q15_SCALE < multiplier \<and> scaled < native"
    then have "unat native * 32768 \<le> x" by (simp add: x_def word_less_nat_alt)
    then have "unat native \<le> (x + 16384) div 32768" by simp
    moreover have "unat native \<le> 2 ^ 64 - 1" using unat_u64_bound [of native] by simp
    ultimately have "unat native \<le> unat scaled" using scaled by simp
    then show False using * by (simp add: word_less_nat_alt)
  qed
  have rem: "((native AND 0x7FFF) * ucast multiplier AND 0x7FFF \<ge> (16384 :: u64)) =
      (16384 \<le> x mod 32768)"
    using scale_remainder [of native multiplier] by (simp add: word_le_nat_alt x_def)
  have "parp_scale_scan_units native multiplier = scaled"
    unfolding parp_scale_scan_units_def Let_def if_not_P [OF False] rem f_def [symmetric]
      up_def [symmetric] scaled_def [symmetric] if_not_P [OF grows] ..
  then show ?thesis using scaled by (simp add: x_def)
qed

lemma scale_small:
  assumes "unat multiplier \<le> 32768"
  shows "parp_scale_scan_units native multiplier \<le> native"
proof -
  have "(unat native * unat multiplier + 16384) div 32768 \<le> (unat native * 32768 + 16384) div 32768"
    using assms by (intro div_le_mono add_le_mono1 mult_le_mono2)
  also have "\<dots> = unat native" by simp
  finally show ?thesis by (simp add: word_le_nat_alt scale_exact)
qed

text \<open>The scaled budget is the exact product \<open>native * multiplier / 32768\<close> rounded half up and
  saturated at the top of \<open>u64\<close>, for every native count and every 32-bit multiplier; neither of the
  two wide divisions the code makes can leave its contract.\<close>

theorem parp_scale_exact:
  "unat (parp_scale_scan_units native multiplier) =
     min (2 ^ 64 - 1) ((unat native * unat multiplier + 16384) div 32768) \<and>
   (\<not> PARP_Q15_SCALE < multiplier \<or>
     mul_div_defined U64_MAX (ucast PARP_Q15_SCALE) (ucast multiplier)) \<and>
   ((PARP_Q15_SCALE < multiplier \<and>
      mul_u64_u32_div U64_MAX PARP_Q15_SCALE multiplier < native) \<or>
     mul_div_defined native (ucast multiplier) (ucast PARP_Q15_SCALE))"
proof -
  have "mul_div_defined native (ucast multiplier) (ucast PARP_Q15_SCALE)"
    if "\<not> (PARP_Q15_SCALE < multiplier \<and>
      mul_u64_u32_div U64_MAX PARP_Q15_SCALE multiplier < native)"
    using scale_product_fits [OF that] by (simp add: mul_div_defined_def)
  then show ?thesis using scale_exact scale_guard(1) by blast
qed

text \<open>An instance: three units scaled by one and a half are four and a half, rounded to five.\<close>

theorem parp_scale_exact_witness:
  "unat (parp_scale_scan_units 3 49152) = 5 \<and>
   mul_div_defined U64_MAX (ucast PARP_Q15_SCALE) (ucast (49152 :: u32))"
  using parp_scale_exact [of 3 49152] by simp

section \<open>The decision\<close>

lemma set_flag_fields [simp]:
  "in_domain_id (set_flag flag c i) = in_domain_id i"
  "in_now_ns (set_flag flag c i) = in_now_ns i"
  "in_pressure (set_flag flag c i) = in_pressure i"
  "in_reclaim_scope (set_flag flag c i) = in_reclaim_scope i"
  "in_native_nr_to_scan (set_flag flag c i) = in_native_nr_to_scan i"
  "in_bind_expiry_ns (set_flag flag c i) = in_bind_expiry_ns i"
  "in_prediction_expiry_ns (set_flag flag c i) = in_prediction_expiry_ns i"
  "in_prediction_generation (set_flag flag c i) = in_prediction_generation i"
  by (simp_all add: set_flag_def)

lemma validate_native:
  assumes "parp_validate_scan_input st i = PARP_SCAN_REASON_NATIVE"
  shows "sb_mode st \<noteq> PARP_SCAN_BUDGET_DISABLED"
    and "in_reclaim_scope i = PARP_RECLAIM_SCOPE_TARGET_MEMCG \<or>
      in_reclaim_scope i = PARP_RECLAIM_SCOPE_PROACTIVE_MEMCG"
    and "bit (in_flags i) 6" "bit (in_flags i) 0" "bit (in_flags i) 1" "bit (in_flags i) 2"
      "bit (in_flags i) 3" "bit (in_flags i) 4" "bit (in_flags i) 5"
    and "in_now_ns i < in_bind_expiry_ns i" "in_now_ns i < in_prediction_expiry_ns i"
    and "parp_scan_config_valid (sb_params st)"
  using assms by (simp_all add: parp_validate_scan_input_def and_BIT not_le split: if_splits)

lemma limits_fields:
  "sd_valid (parp_scan_limits p native d) = sd_valid d"
  "sd_multiplier_q15 (parp_scan_limits p native d) = sd_multiplier_q15 d"
  "sd_native_nr_to_scan (parp_scan_limits p native d) = sd_native_nr_to_scan d"
  by (simp_all add: parp_scan_limits_def Let_def)

lemma apply_fields:
  "sd_valid (parp_scan_apply st i d) = sd_valid d"
  "sd_multiplier_q15 (parp_scan_apply st i d) = sd_multiplier_q15 d"
  "sd_native_nr_to_scan (parp_scan_apply st i d) = sd_native_nr_to_scan d"
  "sd_proposed_nr_to_scan (parp_scan_apply st i d) = sd_proposed_nr_to_scan d"
  "sd_applied_nr_to_scan (parp_scan_apply st i d) =
     (if sb_mode st = PARP_SCAN_BUDGET_APPLY \<and> in_domain_id i = sb_apply_domain st
      then sd_proposed_nr_to_scan d else in_native_nr_to_scan i)"
  by (simp_all add: parp_scan_apply_def Let_def)

lemma limits_proposed:
  "sd_proposed_nr_to_scan (parp_scan_limits p native d) =
   min (if sd_proposed_nr_to_scan d < minimum_scan_units p then min native (minimum_scan_units p)
        else sd_proposed_nr_to_scan d) (sat_add native (maximum_extra_scan_units p))"
proof -
  define d1 where "d1 = (if sd_proposed_nr_to_scan d < minimum_scan_units p
      then d \<lparr> sd_proposed_nr_to_scan := min native (minimum_scan_units p),
               sd_reason_flags := sd_reason_flags d OR FLAG_CLAMP_MIN \<rparr>
      else d)"
  define t where "t = sat_add native (maximum_extra_scan_units p)"
  have "sd_proposed_nr_to_scan (parp_scan_limits p native d) =
      (if t < sd_proposed_nr_to_scan d1 then t else sd_proposed_nr_to_scan d1)"
    unfolding parp_scan_limits_def Let_def d1_def [symmetric] t_def [symmetric] by simp
  also have "\<dots> = min (sd_proposed_nr_to_scan d1) t" by (auto simp: min_def)
  also have "sd_proposed_nr_to_scan d1 = (if sd_proposed_nr_to_scan d < minimum_scan_units p
      then min native (minimum_scan_units p) else sd_proposed_nr_to_scan d)"
    by (simp add: d1_def)
  finally show ?thesis unfolding t_def .
qed

lemma limits_bounds:
  fixes p :: parp_scan_params and native :: u64 and d :: parp_scan_budget_decision
  defines "n \<equiv> sd_proposed_nr_to_scan (parp_scan_limits p native d)"
  shows "min native (minimum_scan_units p) \<le> n" and "n \<le> sat_add native (maximum_extra_scan_units p)"
    and "sd_proposed_nr_to_scan d \<le> native \<Longrightarrow> n \<le> native"
proof -
  define x where "x = sd_proposed_nr_to_scan d"
  define m where "m = minimum_scan_units p"
  define top where "top = sat_add native (maximum_extra_scan_units p)"
  have n: "n = min (if x < m then min native m else x) top"
    by (simp add: n_def limits_proposed x_def m_def top_def)
  have top: "min native m \<le> top"
    using sat_add_ge [of native] unfolding top_def by (rule min.coboundedI1)
  have low: "min native m \<le> (if x < m then min native m else x)"
    by (simp add: min.coboundedI2)
  show "min native m \<le> n" unfolding n using low top by (rule min.boundedI)
  show "n \<le> top" unfolding n by (rule min.cobounded2)
  show "n \<le> native" if "x \<le> native"
    using that unfolding n by (cases "x < m") (simp_all add: min.coboundedI1)
qed

text \<open>Either the decision is native, or it went through scaling, limits and application.\<close>

lemma budget_cases:
  obtains reason where "parp_scan_budget_of st i = parp_native_decision i reason scan_decision_zero"
      "reason = parp_validate_scan_input st i \<or> reason = PARP_SCAN_REASON_PRESSURE_BYPASS"
      "reason \<noteq> PARP_SCAN_REASON_NATIVE"
    | "parp_scan_budget_of st i =
        (parp_native_decision i PARP_SCAN_REASON_NATIVE scan_decision_zero) \<lparr> sd_valid := True \<rparr>"
      "in_native_nr_to_scan i = 0"
    | m reason where "parp_validate_scan_input st i = PARP_SCAN_REASON_NATIVE"
      "in_pressure i \<noteq> PARP_PRESSURE_EMERGENCY" "in_native_nr_to_scan i \<noteq> 0"
      "counted_reason reason" "reason \<noteq> PARP_SCAN_REASON_CIRCUIT_BREAKER"
      "m = parp_pressure_multiplier (sb_params st) (in_pressure i)
         (fst (parp_app_multiplier (sb_params st) i))"
      "parp_scan_budget_of st i = parp_scan_apply st i (parp_scan_limits (sb_params st)
         (in_native_nr_to_scan i) (scan_decision_zero \<lparr> sd_reason := reason, sd_valid := True,
            sd_native_nr_to_scan := in_native_nr_to_scan i, sd_multiplier_q15 := m,
            sd_confidence_q15 := PARP_Q15_ONE,
            sd_proposed_nr_to_scan := parp_scale_scan_units (in_native_nr_to_scan i) m \<rparr>))"
proof -
  consider "parp_validate_scan_input st i \<noteq> PARP_SCAN_REASON_NATIVE"
    | "parp_validate_scan_input st i = PARP_SCAN_REASON_NATIVE" "in_native_nr_to_scan i = 0"
    | "parp_validate_scan_input st i = PARP_SCAN_REASON_NATIVE" "in_native_nr_to_scan i \<noteq> 0"
      "in_pressure i = PARP_PRESSURE_EMERGENCY"
    | "parp_validate_scan_input st i = PARP_SCAN_REASON_NATIVE" "in_native_nr_to_scan i \<noteq> 0"
      "in_pressure i \<noteq> PARP_PRESSURE_EMERGENCY" by blast
  then show ?thesis
  proof cases
    case 4
    obtain m0 reason where mr: "parp_app_multiplier (sb_params st) i = (m0, reason)" by force
    then have "counted_reason reason" "reason \<noteq> PARP_SCAN_REASON_CIRCUIT_BREAKER"
      by (auto simp: parp_app_multiplier_def counted_reason_def split: if_splits)
    then show ?thesis using 4 mr that(3) [of reason "parp_pressure_multiplier (sb_params st)
        (in_pressure i) m0"] by (simp add: parp_scan_budget_of_def Let_def)
  qed (use that(1,2) in \<open>auto simp: parp_scan_budget_of_def Let_def\<close>)
qed


text \<open>Whatever the configuration and the input, a proposed budget never leaves
  \<open>min (native, minimum_scan_units) .. native + maximum_extra_scan_units\<close> (the sum saturated); a
  multiplier of at most one never raises it; and what is applied is the native count or, only in
  APPLY mode, for the enabled domain and a valid decision, the proposal.\<close>

theorem parp_scan_budget_bounds:
  fixes st i
  defines "d \<equiv> parp_scan_budget_of st i"
  shows "sd_native_nr_to_scan d = in_native_nr_to_scan i \<and>
         min (in_native_nr_to_scan i) (minimum_scan_units (sb_params st)) \<le> sd_proposed_nr_to_scan d \<and>
         sd_proposed_nr_to_scan d \<le>
           sat_add (in_native_nr_to_scan i) (maximum_extra_scan_units (sb_params st)) \<and>
         (sd_multiplier_q15 d \<le> PARP_Q15_SCALE \<longrightarrow>
            sd_proposed_nr_to_scan d \<le> in_native_nr_to_scan i) \<and>
         (sd_applied_nr_to_scan d = in_native_nr_to_scan i \<or>
          sd_applied_nr_to_scan d = sd_proposed_nr_to_scan d \<and> sd_valid d \<and>
          sb_mode st = PARP_SCAN_BUDGET_APPLY \<and> in_domain_id i = sb_apply_domain st)"
proof (cases rule: budget_cases [of st i])
  case (1 reason)
  then show ?thesis using sat_add_ge [of "in_native_nr_to_scan i"]
    by (simp add: d_def parp_native_decision_def)
next
  case 2
  then show ?thesis using sat_add_ge [of "in_native_nr_to_scan i"]
    by (simp add: d_def parp_native_decision_def)
next
  case (3 m reason)
  have "sd_multiplier_q15 d = m" using 3(7) by (simp add: d_def apply_fields limits_fields)
  then have "sd_multiplier_q15 d \<le> PARP_Q15_SCALE \<Longrightarrow>
      parp_scale_scan_units (in_native_nr_to_scan i) m \<le> in_native_nr_to_scan i"
    by (intro scale_small) (simp add: word_le_nat_alt)
  then show ?thesis
    using 3(7) limits_bounds by (auto simp: d_def apply_fields limits_fields)
qed

definition sample_scan_input :: parp_scan_budget_input where
  "sample_scan_input = set_flag PARP_SCAN_INPUT_CIRCUIT_OK True
     (parp_scan_query (Some sample_snapshot) 3000 (Some 5) False False 12 64)"

lemma sample_scan_input_eq:
  "sample_scan_input = \<lparr> in_domain_id = 5, in_app_id = 10,
     in_reclaim_scope = PARP_RECLAIM_SCOPE_TARGET_MEMCG, in_pressure = PARP_PRESSURE_LOW,
     in_native_nr_to_scan = 64, in_foreground = True, in_app_use_score_q15 = 30000, in_app_rank = 1,
     in_foreground_epoch_id = 2, in_bind_generation = 1, in_bind_expiry_ns = 9000,
     in_prediction_timestamp_ns = 1000, in_prediction_expiry_ns = 5000, in_prediction_generation = 7,
     in_model_version = 3, in_reclaim_priority = 12, in_now_ns = 3000, in_flags = 127 \<rparr>"
  by code_simp

definition sample_scan_state :: parp_scan_state where
  "sample_scan_state = parp_scan_boot \<lparr> sb_mode := PARP_SCAN_BUDGET_APPLY, sb_apply_domain := 5 \<rparr>"

lemma sample_scan_state_fields:
  "sb_mode sample_scan_state = PARP_SCAN_BUDGET_APPLY" "sb_apply_domain sample_scan_state = 5"
  "sb_params sample_scan_state = parp_scan_params_default"
  "sb_guards sample_scan_state = replicate PARP_MAX_DOMAINS scan_guard_zero"
  by (simp_all add: sample_scan_state_def parp_scan_boot_def)

lemma params_default_valid: "parp_scan_config_valid parp_scan_params_default"
  by code_simp

lemma sample_flags:
  "(127 :: u32) AND BIT 0 \<noteq> 0" "(127 :: u32) AND BIT 1 \<noteq> 0" "(127 :: u32) AND BIT 2 \<noteq> 0"
  "(127 :: u32) AND BIT 3 \<noteq> 0" "(127 :: u32) AND BIT 4 \<noteq> 0" "(127 :: u32) AND BIT 5 \<noteq> 0"
  "(127 :: u32) AND BIT 6 \<noteq> 0" "(127 :: u32) AND BIT (Suc 0) \<noteq> 0"
  by code_simp+

lemma scale_half: "parp_scale_scan_units 64 16384 = 32"
  by (simp add: word_unat_eq_iff scale_exact)

lemma sample_budget:
  assumes "sb_mode st = PARP_SCAN_BUDGET_APPLY" and "sb_apply_domain st = 5"
    and "sb_params st = parp_scan_params_default"
  shows "parp_scan_budget_of st sample_scan_input = \<lparr> sd_valid = True, sd_native_nr_to_scan = 64,
    sd_proposed_nr_to_scan = 32, sd_applied_nr_to_scan = 32, sd_multiplier_q15 = 16384,
    sd_confidence_q15 = PARP_Q15_ONE, sd_reason = PARP_SCAN_REASON_FOREGROUND,
    sd_reason_flags = 0, sd_budget_sequence = 0 \<rparr>"
proof -
  have v: "parp_validate_scan_input st sample_scan_input = PARP_SCAN_REASON_NATIVE"
    using assms params_default_valid
    by (simp add: parp_validate_scan_input_def sample_scan_input_eq sample_flags)
  have m: "parp_app_multiplier parp_scan_params_default sample_scan_input =
      (16384, PARP_SCAN_REASON_FOREGROUND)"
    by (simp add: parp_app_multiplier_def sample_scan_input_eq parp_scan_params_default_def)
  have p: "parp_pressure_multiplier parp_scan_params_default PARP_PRESSURE_LOW 16384 = 16384"
    by code_simp
  have top: "sat_add 64 4096 = 4160" by code_simp
  have lim: "parp_scan_limits parp_scan_params_default 64 d = d"
    if "sd_proposed_nr_to_scan d = 32" for d
    using that by (simp add: parp_scan_limits_def parp_scan_params_default_def top)
  show ?thesis
    unfolding parp_scan_budget_of_def Let_def v assms(3) m
    by (simp add: sample_scan_input_eq p scale_half lim parp_scan_apply_def Let_def assms(1,2)
        scan_decision_zero_def)
qed

text \<open>An instance: the foreground application of the sample snapshot gets half the budget.\<close>

theorem parp_scan_budget_bounds_witness:
  "sd_proposed_nr_to_scan (parp_scan_budget_of sample_scan_state sample_scan_input) \<le> 64 \<and>
   sd_applied_nr_to_scan (parp_scan_budget_of sample_scan_state sample_scan_input) = 32"
proof -
  have n: "in_native_nr_to_scan sample_scan_input = 64" by (simp add: sample_scan_input_eq)
  show ?thesis
    using parp_scan_budget_bounds [of sample_scan_state sample_scan_input]
    by (simp add: sample_budget sample_scan_state_fields n)
qed

section \<open>The breaker table as a map\<close>

definition guard_of :: "parp_scan_guard list \<Rightarrow> u64 \<Rightarrow> parp_scan_guard option" where
  "guard_of gs d = (if d = 0 then None else table_entry sg_domain_id d gs)"

definition guards_ok :: "parp_scan_guard list \<Rightarrow> bool" where
  "guards_ok gs \<longleftrightarrow> length gs = PARP_MAX_DOMAINS \<and>
     (\<forall>i < length gs. \<forall>j < length gs. sg_domain_id (gs ! i) = sg_domain_id (gs ! j) \<and>
        sg_domain_id (gs ! i) \<noteq> 0 \<longrightarrow> i = j) \<and>
     (\<forall>g \<in> set gs. (sg_domain_id g = 0 \<longrightarrow> g = scan_guard_zero) \<and>
        sg_tripped g = (sg_failures g \<ge> 3) \<and> sg_failures g \<le> 3)"

text \<open>The specification: a finite map from domains to guards, of at most 64 domains.\<close>

definition guard_spec ::
  "u64 \<Rightarrow> u32 \<Rightarrow> bool \<Rightarrow> (u64 \<Rightarrow> parp_scan_guard option) \<Rightarrow>
   bool \<times> (u64 \<Rightarrow> parp_scan_guard option) \<times> bool" where
  "guard_spec d generation valid m =
     (if d = 0 \<or> (m d = None \<and> \<not> card (dom m) < PARP_MAX_DOMAINS) then (False, m, False)
      else let (g, trips) = guard_report generation valid
                 (case m d of None \<Rightarrow> scan_guard_zero \<lparr> sg_domain_id := d \<rparr> | Some g \<Rightarrow> g)
           in (\<not> sg_tripped g, m (d \<mapsto> g), trips))"

lemma guard_slot_eq:
  "guard_slot d i free gs = (case table_slot sg_domain_id d gs of Some j \<Rightarrow> Some (i + j)
     | None \<Rightarrow> (case free of Some k \<Rightarrow> Some k
               | None \<Rightarrow> map_option (\<lambda>j. i + j) (table_slot sg_domain_id 0 gs)))"
proof (induction d i free gs rule: guard_slot.induct)
  case (2 d i free g gs)
  have shift: "(\<lambda>j. Suc (i + j)) = (+) (Suc i)" by (rule ext) simp
  show ?case using 2
    by (auto simp: option.map_comp comp_def shift split: option.splits)
qed (simp split: option.splits)

lemma find_guard:
  "parp_scan_guard_find d gs = (case table_slot sg_domain_id d gs of Some j \<Rightarrow> Some j
     | None \<Rightarrow> table_slot sg_domain_id 0 gs)"
proof -
  have "(+) (0 :: nat) = id" by (rule ext) simp
  then show ?thesis
    by (simp add: parp_scan_guard_find_def guard_slot_eq option.map_id split: option.splits)
qed

lemma guards_ok_nth:
  assumes "guards_ok gs" and "i < length gs"
  shows "sg_domain_id (gs ! i) = 0 \<Longrightarrow> gs ! i = scan_guard_zero"
    and "sg_tripped (gs ! i) = (sg_failures (gs ! i) \<ge> 3)" and "sg_failures (gs ! i) \<le> 3"
  using assms by (auto simp: guards_ok_def)

lemma guards_ok_unique:
  "guards_ok gs \<Longrightarrow> i < length gs \<Longrightarrow> j < length gs \<Longrightarrow>
   sg_domain_id (gs ! i) = sg_domain_id (gs ! j) \<Longrightarrow> sg_domain_id (gs ! i) \<noteq> 0 \<Longrightarrow> i = j"
  by (auto simp: guards_ok_def)

lemma guard_of_nth:
  assumes "guards_ok gs" and "i < length gs" and "sg_domain_id (gs ! i) = d" and "d \<noteq> 0"
  shows "guard_of gs d = Some (gs ! i)"
proof (cases "table_entry sg_domain_id d gs")
  case None
  then show ?thesis using assms(2,3) by (auto simp: table_entry_None)
next
  case (Some g)
  then have "g \<in> set gs" "sg_domain_id g = d"
    using find_Some_iff_set [of "\<lambda>y. sg_domain_id y = d" gs g] by (auto simp: table_entry_def)
  then obtain j where "j < length gs" "g = gs ! j" by (auto simp: in_set_conv_nth)
  then show ?thesis
    using Some guards_ok_unique [OF assms(1,2), of j] assms \<open>sg_domain_id g = d\<close>
    by (simp add: guard_of_def)
qed

lemma guard_of_None:
  "d \<noteq> 0 \<Longrightarrow> guard_of gs d = None \<longleftrightarrow> (\<forall>i < length gs. sg_domain_id (gs ! i) \<noteq> d)"
  by (auto simp: guard_of_def table_entry_None image_iff all_set_conv_all_nth)


lemma guard_of_domain: "guard_of gs d = Some g \<Longrightarrow> sg_domain_id g = d \<and> d \<noteq> 0 \<and> g \<in> set gs"
  using find_Some_iff_set [of "\<lambda>y. sg_domain_id y = d" gs g]
  by (auto simp: guard_of_def table_entry_def split: if_splits)

text \<open>Writing a slot with a guard whose domain no other slot has.\<close>

lemma guard_of_set:
  assumes ok: "guards_ok gs" and i: "i < length gs"
    and zero: "sg_domain_id g = 0 \<longrightarrow> g = scan_guard_zero"
    and good: "sg_tripped g = (sg_failures g \<ge> 3)" "sg_failures g \<le> 3"
    and other: "\<And>j. j < length gs \<Longrightarrow> j \<noteq> i \<Longrightarrow> sg_domain_id g \<noteq> 0 \<Longrightarrow>
      sg_domain_id (gs ! j) \<noteq> sg_domain_id g"
  shows "guards_ok (gs [i := g])"
    and "k \<noteq> 0 \<Longrightarrow> guard_of (gs [i := g]) k =
      (if k = sg_domain_id g then Some g else if k = sg_domain_id (gs ! i) then None else guard_of gs k)"
proof -
  have uniq: "j = k" if "j < length gs" "k < length gs"
      "sg_domain_id (gs [i := g] ! j) = sg_domain_id (gs [i := g] ! k)"
      "sg_domain_id (gs [i := g] ! j) \<noteq> 0" for j k
    using that other [of j] other [of k] guards_ok_unique [OF ok that(1,2)]
    by (cases "j = i"; cases "k = i"; auto)
  show ok': "guards_ok (gs [i := g])"
    using uniq ok good zero by (auto simp: guards_ok_def dest!: set_update_subset_insert [THEN subsetD])
  show "guard_of (gs [i := g]) k =
      (if k = sg_domain_id g then Some g else if k = sg_domain_id (gs ! i) then None else guard_of gs k)"
    if k: "k \<noteq> 0"
  proof (cases "k = sg_domain_id g")
    case True
    then show ?thesis using guard_of_nth [OF ok', of i k] i k by simp
  next
    case False
    show ?thesis
    proof (cases "\<exists>j < length gs. j \<noteq> i \<and> sg_domain_id (gs ! j) = k")
      case True
      then obtain j where j: "j < length gs" "j \<noteq> i" "sg_domain_id (gs ! j) = k" by blast
      moreover have "k \<noteq> sg_domain_id (gs ! i)" using guards_ok_unique [OF ok j(1) i] j k by auto
      ultimately show ?thesis
        using False guard_of_nth [OF ok', of j k] guard_of_nth [OF ok, of j k] k by simp
    next
      case none: False
      then have "sg_domain_id (gs [i := g] ! j) \<noteq> k" if "j < length gs" for j
        using that False by (cases "j = i") auto
      then have "guard_of (gs [i := g]) k = None"
        using guard_of_None [OF k, of "gs [i := g]"] by simp
      moreover have "guard_of gs k = None" if "k \<noteq> sg_domain_id (gs ! i)"
        using that none guard_of_None [OF k, of gs] by auto
      ultimately show ?thesis using False by auto
    qed
  qed
qed

lemma guard_of_0: "guard_of gs 0 = None"
  by (simp add: guard_of_def)

lemma guard_of_update:
  assumes ok: "guards_ok gs" and i: "i < length gs" and d: "sg_domain_id g = d" "d \<noteq> 0"
    and slot: "sg_domain_id (gs ! i) = d \<or> (sg_domain_id (gs ! i) = 0 \<and> guard_of gs d = None)"
    and good: "sg_tripped g = (sg_failures g \<ge> 3)" "sg_failures g \<le> 3"
  shows "guards_ok (gs [i := g])" and "guard_of (gs [i := g]) = (guard_of gs) (d \<mapsto> g)"
proof -
  have other: "sg_domain_id (gs ! j) \<noteq> sg_domain_id g" if "j < length gs" "j \<noteq> i" for j
    using slot guards_ok_unique [OF ok i that(1)] that d guard_of_None [OF d(2), of gs] by auto
  note set = guard_of_set [OF ok i _ good other]
  show "guards_ok (gs [i := g])" using set(1) d by blast
  have "guard_of (gs [i := g]) k = ((guard_of gs) (d \<mapsto> g)) k" for k
    using set(2) [of k] d slot by (cases "k = 0") (auto simp: guard_of_0)
  then show "guard_of (gs [i := g]) = (guard_of gs) (d \<mapsto> g)" by (rule ext)
qed

lemma guard_report_good:
  assumes "sg_tripped g = (sg_failures g \<ge> 3)" and "sg_failures g \<le> 3"
  shows "sg_tripped (fst (guard_report generation valid g)) =
      (sg_failures (fst (guard_report generation valid g)) \<ge> 3)"
    and "sg_failures (fst (guard_report generation valid g)) \<le> 3"
    and "sg_domain_id (fst (guard_report generation valid g)) = sg_domain_id g"
proof -
  have "sg_failures g + 1 \<le> 3" if "\<not> 3 \<le> sg_failures g"
    using that by (simp add: not_le inc_le)
  then show "sg_tripped (fst (guard_report generation valid g)) =
      (sg_failures (fst (guard_report generation valid g)) \<ge> 3)"
    "sg_failures (fst (guard_report generation valid g)) \<le> 3"
    "sg_domain_id (fst (guard_report generation valid g)) = sg_domain_id g"
    using assms by (auto simp: guard_report_def Let_def)
qed

lemma guard_card:
  assumes "guards_ok gs"
  shows "card (dom (guard_of gs)) < PARP_MAX_DOMAINS \<longleftrightarrow> (\<exists>i < length gs. sg_domain_id (gs ! i) = 0)"
proof -
  define I where "I = {i. i < length gs \<and> sg_domain_id (gs ! i) \<noteq> 0}"
  have "dom (guard_of gs) = (\<lambda>i. sg_domain_id (gs ! i)) ` I"
  proof (intro set_eqI iffI)
    fix d
    assume "d \<in> dom (guard_of gs)"
    then show "d \<in> (\<lambda>i. sg_domain_id (gs ! i)) ` I"
      using guard_of_domain [of gs d] by (fastforce simp: I_def in_set_conv_nth)
  next
    fix d
    assume "d \<in> (\<lambda>i. sg_domain_id (gs ! i)) ` I"
    then show "d \<in> dom (guard_of gs)" using guard_of_nth [OF assms] by (auto simp: I_def)
  qed
  moreover have "inj_on (\<lambda>i. sg_domain_id (gs ! i)) I"
    using guards_ok_unique [OF assms] by (auto simp: I_def intro!: inj_onI)
  ultimately have card: "card (dom (guard_of gs)) = card I" by (simp add: card_image)
  have len: "length gs = PARP_MAX_DOMAINS" using assms by (simp add: guards_ok_def)
  have sub: "I \<subseteq> {..< length gs}" by (auto simp: I_def)
  show ?thesis
  proof
    assume "card (dom (guard_of gs)) < PARP_MAX_DOMAINS"
    then have "I \<noteq> {..< length gs}" using card len by auto
    then show "\<exists>i < length gs. sg_domain_id (gs ! i) = 0" using sub by (auto simp: I_def)
  next
    assume "\<exists>i < length gs. sg_domain_id (gs ! i) = 0"
    then have "I \<subset> {..< length gs}" using sub by (auto simp: I_def)
    then have "card I < card {..< length gs}" by (intro psubset_card_mono) auto
    then show "card (dom (guard_of gs)) < PARP_MAX_DOMAINS" using card len by simp
  qed
qed


lemma find_guard_cases:
  assumes ok: "guards_ok gs" and d: "d \<noteq> 0"
  obtains i g where "parp_scan_guard_find d gs = Some i" "i < length gs" "guard_of gs d = Some g"
      "gs ! i = g" "sg_domain_id g = d"
    | i where "parp_scan_guard_find d gs = Some i" "i < length gs" "guard_of gs d = None"
      "gs ! i = scan_guard_zero" "card (dom (guard_of gs)) < PARP_MAX_DOMAINS"
    | "parp_scan_guard_find d gs = None" "guard_of gs d = None"
      "\<not> card (dom (guard_of gs)) < PARP_MAX_DOMAINS"
proof (cases "table_slot sg_domain_id d gs")
  case (Some i)
  note i = table_slot_Some [OF Some]
  then show ?thesis using that(1) [of i "gs ! i"] Some guard_of_nth [OF ok _ _ d] by (simp add: find_guard)
next
  case None
  then have no: "guard_of gs d = None" using d by (simp add: guard_of_def table_entry_None table_slot_None)
  show ?thesis
  proof (cases "table_slot sg_domain_id 0 gs")
    case (Some i)
    note i = table_slot_Some [OF Some]
    then show ?thesis
      using that(2) [of i] Some None no guards_ok_nth(1) [OF ok] guard_card [OF ok]
      by (auto simp: find_guard)
  next
    case none: None
    then have "\<forall>i < length gs. sg_domain_id (gs ! i) \<noteq> 0"
      by (auto simp: table_slot_None image_iff all_set_conv_all_nth)
    then show ?thesis using that(3) None none no guard_card [OF ok] by (auto simp: find_guard)
  qed
qed

lemma guard_refines:
  assumes ok: "guards_ok gs"
    and run: "parp_scan_budget_guard d generation valid gs = (allowed, gs', trips)"
  shows "guards_ok gs' \<and> guard_spec d generation valid (guard_of gs) = (allowed, guard_of gs', trips)"
proof (cases "d = 0")
  case True
  then show ?thesis using ok run by (simp add: parp_scan_budget_guard_def guard_spec_def)
next
  case d: False
  obtain g t where r: "guard_report generation valid
      (case guard_of gs d of None \<Rightarrow> scan_guard_zero \<lparr> sg_domain_id := d \<rparr> | Some g \<Rightarrow> g) = (g, t)"
    by force
  show ?thesis
  proof (cases rule: find_guard_cases [OF ok d])
    case (1 i h)
    have h: "guard_report generation valid h = (g, t)" using r 1(3) by simp
    have good: "sg_tripped g = (sg_failures g \<ge> 3)" "sg_failures g \<le> 3" "sg_domain_id g = d"
      using guard_report_good [of h generation valid] guards_ok_nth(2,3) [OF ok 1(2)] 1(4,5) h
      by simp_all
    note upd = guard_of_update [OF ok 1(2) good(3) d _ good(1,2)]
    show ?thesis
      using run 1 d h upd by (auto simp: parp_scan_budget_guard_def guard_spec_def)
  next
    case (2 i)
    have h: "guard_report generation valid (scan_guard_zero \<lparr> sg_domain_id := d \<rparr>) = (g, t)"
      using r 2(3) by simp
    have good: "sg_tripped g = (sg_failures g \<ge> 3)" "sg_failures g \<le> 3" "sg_domain_id g = d"
      using guard_report_good [of "scan_guard_zero \<lparr> sg_domain_id := d \<rparr>" generation valid] h
      by (simp_all add: scan_guard_zero_def)
    have zero: "sg_domain_id scan_guard_zero = 0" by (simp add: scan_guard_zero_def)
    note upd = guard_of_update [OF ok 2(2) good(3) d _ good(1,2)]
    show ?thesis
      using run 2 d h upd zero by (auto simp: parp_scan_budget_guard_def guard_spec_def)
  next
    case 3
    then show ?thesis using ok run d by (simp add: parp_scan_budget_guard_def guard_spec_def)
  qed
qed

lemma guard_clear_refines:
  assumes ok: "guards_ok gs"
  shows "guards_ok (parp_scan_budget_guard_clear d gs)"
    and "guard_of (parp_scan_budget_guard_clear d gs) = (guard_of gs) (d := None)"
proof -
  have zero: "sg_domain_id scan_guard_zero = 0" "sg_failures scan_guard_zero = 0"
    "\<not> sg_tripped scan_guard_zero" by (simp_all add: scan_guard_zero_def)
  have "guards_ok (parp_scan_budget_guard_clear d gs) \<and>
    guard_of (parp_scan_budget_guard_clear d gs) = (guard_of gs) (d := None)"
  proof (cases "\<exists>i < length gs. sg_domain_id (gs ! i) = d \<and> d \<noteq> 0")
    case True
    then obtain i where i: "table_slot sg_domain_id d gs = Some i" and d: "d \<noteq> 0"
      by (cases "table_slot sg_domain_id d gs") (auto simp: table_slot_None)
    note slot = table_slot_Some [OF i]
    note set = guard_of_set [OF ok, of i scan_guard_zero]
    have "guard_of (gs [i := scan_guard_zero]) k = ((guard_of gs) (d := None)) k" for k
      using set(2) [of k] slot zero by (cases "k = 0") (auto simp: guard_of_0)
    then show ?thesis
      using set(1) slot zero i by (auto simp: parp_scan_budget_guard_clear_def find_guard)
  next
    case False
    then have none: "guard_of gs d = None" using guard_of_None [of d gs] guard_of_0 by (cases "d = 0") auto
    have "parp_scan_budget_guard_clear d gs = gs"
    proof (cases "parp_scan_guard_find d gs")
      case (Some i)
      then have i: "i < length gs"
        by (auto simp: find_guard dest: table_slot_Some split: option.splits)
      show ?thesis
      proof (cases "sg_domain_id (gs ! i) = d")
        case True
        then have "gs ! i = scan_guard_zero" using False i guards_ok_nth(1) [OF ok i] by blast
        then have "gs [i := scan_guard_zero] = gs" using i by (metis list_update_id)
        then show ?thesis using Some by (simp add: parp_scan_budget_guard_clear_def)
      qed (use Some in \<open>simp add: parp_scan_budget_guard_clear_def\<close>)
    qed (simp add: parp_scan_budget_guard_clear_def)
    then show ?thesis using ok none by (simp add: fun_upd_idem)
  qed
  then show "guards_ok (parp_scan_budget_guard_clear d gs)"
    and "guard_of (parp_scan_budget_guard_clear d gs) = (guard_of gs) (d := None)" by simp_all
qed

lemma guards_ok_boot: "guards_ok (sb_guards parp_scan_boot)"
  by (auto simp: guards_ok_def parp_scan_boot_def scan_guard_zero_def nth_replicate)

text \<open>C27. The breaker table refines a finite map from domains to guards: from a well-formed table a
  report answers what the map's report answers and leaves a well-formed table that stands for the
  map's next state, and clearing removes exactly the domain. A report of a new domain is refused only
  when the map already has 64 domains.\<close>

theorem parp_scan_guard_refines_map:
  assumes "guards_ok gs" and "parp_scan_budget_guard d generation valid gs = (allowed, gs', trips)"
  shows "guards_ok gs' \<and>
         guard_spec d generation valid (guard_of gs) = (allowed, guard_of gs', trips) \<and>
         guards_ok (parp_scan_budget_guard_clear e gs) \<and>
         guard_of (parp_scan_budget_guard_clear e gs) = (guard_of gs) (e := None)"
  using guard_refines [OF assms] guard_clear_refines [OF assms(1)] by simp

text \<open>Witness of C27: the first invalid report of domain 5 after boot.\<close>

theorem parp_scan_guard_refines_map_witness:
  "\<exists>allowed gs' trips. parp_scan_budget_guard 5 7 False (sb_guards parp_scan_boot) = (allowed, gs', trips) \<and>
     guards_ok gs' \<and> guard_spec 5 7 False (guard_of (sb_guards parp_scan_boot)) = (allowed, guard_of gs', trips)"
proof -
  obtain allowed gs' trips where
    r: "parp_scan_budget_guard 5 7 False (sb_guards parp_scan_boot) = (allowed, gs', trips)"
    by (metis surj_pair)
  then show ?thesis using parp_scan_guard_refines_map [OF guards_ok_boot r] by blast
qed


section \<open>Tripping and re-arming\<close>

type_synonym guard_op = "u64 \<times> u32 \<times> bool"

definition guard_run :: "guard_op list \<Rightarrow> parp_scan_guard list \<Rightarrow> parp_scan_guard list" where
  "guard_run ops gs = foldl (\<lambda>gs (d, generation, valid).
     fst (snd (parp_scan_budget_guard d generation valid gs))) gs ops"

text \<open>How many invalid reports of a domain a sequence holds.\<close>

definition invalid_reports :: "u64 \<Rightarrow> guard_op list \<Rightarrow> nat" where
  "invalid_reports d ops = length (filter (\<lambda>(e, generation, valid). e = d \<and> \<not> valid) ops)"

lemma guard_spec_entry:
  "m d = Some g \<Longrightarrow> d \<noteq> 0 \<Longrightarrow> fst (snd (guard_spec e generation valid m)) d =
     Some (if e = d then fst (guard_report generation valid g) else g)"
  "m d = Some g \<Longrightarrow> d \<noteq> 0 \<Longrightarrow> fst (guard_spec d generation valid m) =
     (\<not> sg_tripped (fst (guard_report generation valid g)))"
  by (auto simp: guard_spec_def case_prod_unfold Let_def)

lemma guard_step:
  assumes "guards_ok gs"
  shows "guards_ok (fst (snd (parp_scan_budget_guard e generation valid gs)))"
    and "guard_of gs d = Some g \<Longrightarrow>
      guard_of (fst (snd (parp_scan_budget_guard e generation valid gs))) d =
      Some (if e = d then fst (guard_report generation valid g) else g)"
    and "guard_of gs d = Some g \<Longrightarrow>
      fst (parp_scan_budget_guard d generation valid gs) =
      (\<not> sg_tripped (fst (guard_report generation valid g)))"
proof -
  obtain al gs' tr where r: "parp_scan_budget_guard e generation valid gs = (al, gs', tr)"
    by (metis surj_pair)
  note ref = guard_refines [OF assms r]
  show "guards_ok (fst (snd (parp_scan_budget_guard e generation valid gs)))" using ref r by simp
  show "guard_of (fst (snd (parp_scan_budget_guard e generation valid gs))) d =
      Some (if e = d then fst (guard_report generation valid g) else g)" if "guard_of gs d = Some g"
    using guard_spec_entry(1) [of "guard_of gs", OF that, of e generation valid] ref r
      guard_of_domain [OF that] by simp
  obtain al2 gs2 tr2 where r2: "parp_scan_budget_guard d generation valid gs = (al2, gs2, tr2)"
    by (metis surj_pair)
  show "fst (parp_scan_budget_guard d generation valid gs) =
      (\<not> sg_tripped (fst (guard_report generation valid g)))" if "guard_of gs d = Some g"
    using guard_spec_entry(2) [of "guard_of gs", OF that, of generation valid]
      guard_refines [OF assms r2] r2 guard_of_domain [OF that] by simp
qed

text \<open>Reports that do not re-arm the guard only add their failures, up to three.\<close>

lemma guard_run_failures:
  assumes "guards_ok gs" and "guard_of gs d = Some g"
    and "\<forall>(e, generation, valid) \<in> set ops. e = d \<longrightarrow> \<not> valid \<or> generation \<le> sg_generation g"
  shows "\<exists>h. guards_ok (guard_run ops gs) \<and> guard_of (guard_run ops gs) d = Some h \<and>
    sg_generation h = sg_generation g \<and>
    unat (sg_failures h) = min 3 (unat (sg_failures g) + invalid_reports d ops)"
  using assms
proof (induction ops arbitrary: gs g)
  case Nil
  then have "sg_failures g \<le> 3" using guard_of_domain [of gs d g] by (auto simp: guards_ok_def)
  then show ?case using Nil by (simp add: guard_run_def invalid_reports_def word_le_nat_alt)
next
  case (Cons op ops)
  obtain e generation valid where op: "op = (e, generation, valid)" by (metis surj_pair)
  define gs1 where "gs1 = fst (snd (parp_scan_budget_guard e generation valid gs))"
  define g1 where "g1 = (if e = d then fst (guard_report generation valid g) else g)"
  have ok: "guards_ok gs1" and g1: "guard_of gs1 d = Some g1"
    unfolding gs1_def g1_def using guard_step(1,2) [OF Cons.prems(1)] Cons.prems(2) by blast+
  have good: "sg_tripped g = (sg_failures g \<ge> 3)" "sg_failures g \<le> 3"
    using Cons.prems(1,2) guard_of_domain [of gs d g] by (auto simp: guards_ok_def)
  have noarm: "e = d \<Longrightarrow> \<not> valid \<or> generation \<le> sg_generation g" using Cons.prems(3) op by auto
  have gen: "sg_generation g1 = sg_generation g"
    using noarm by (auto simp: g1_def guard_report_def Let_def)
  have fails: "unat (sg_failures g1) = min 3 (unat (sg_failures g) + invalid_reports d [op])"
  proof (cases "e = d \<and> \<not> valid")
    case True
    then have "g1 = fst (guard_report generation False g)" by (simp add: g1_def)
    moreover have "unat (sg_failures g + 1) = unat (sg_failures g) + 1" if "\<not> 3 \<le> sg_failures g"
      using that by (simp add: unat_word_ariths(1) word_le_nat_alt)
    ultimately show ?thesis using True op good
      by (auto simp: guard_report_def Let_def invalid_reports_def word_le_nat_alt)
  next
    case False
    then have "sg_failures g1 = sg_failures g"
      using noarm by (auto simp: g1_def guard_report_def)
    then show ?thesis using False op good by (auto simp: invalid_reports_def word_le_nat_alt)
  qed
  have "invalid_reports d (op # ops) = invalid_reports d [op] + invalid_reports d ops"
    by (simp add: invalid_reports_def)
  moreover have "guard_run (op # ops) gs = guard_run ops gs1"
    by (simp add: guard_run_def gs1_def op)
  moreover have "\<forall>(e, generation, valid) \<in> set ops. e = d \<longrightarrow> \<not> valid \<or> generation \<le> sg_generation g1"
    using Cons.prems(3) gen by auto
  ultimately show ?case using Cons.IH [OF ok g1] gen fails by (auto simp: min_def)
qed

text \<open>The breaker of a known domain trips after exactly three failures. Whatever is reported in
  between for other domains, and however many valid reports repeat a generation already accepted,
  the next report that does not re-arm is allowed exactly while the failures so far are fewer than
  three; a valid report of a newer generation is always allowed.\<close>

theorem parp_scan_guard_trips_after_three:
  assumes "guards_ok gs" and "guard_of gs d = Some g"
    and "\<forall>(e, generation, valid) \<in> set ops. e = d \<longrightarrow> \<not> valid \<or> generation \<le> sg_generation g"
  shows "(fst (parp_scan_budget_guard d (sg_generation g) True (guard_run ops gs)) \<longleftrightarrow>
            unat (sg_failures g) + invalid_reports d ops < 3) \<and>
         (fst (parp_scan_budget_guard d generation False (guard_run ops gs)) \<longleftrightarrow>
            unat (sg_failures g) + invalid_reports d ops < 2) \<and>
         (sg_generation g < generation \<longrightarrow>
            fst (parp_scan_budget_guard d generation True (guard_run ops gs)))"
proof -
  obtain h where ok: "guards_ok (guard_run ops gs)" and h: "guard_of (guard_run ops gs) d = Some h"
    and gen: "sg_generation h = sg_generation g"
    and fails: "unat (sg_failures h) = min 3 (unat (sg_failures g) + invalid_reports d ops)"
    using guard_run_failures [OF assms] by blast
  have good: "sg_tripped h = (sg_failures h \<ge> 3)"
    using ok guard_of_domain [OF h] by (auto simp: guards_ok_def)
  have three: "sg_failures h \<ge> 3 \<longleftrightarrow> \<not> unat (sg_failures g) + invalid_reports d ops < 3"
    using fails by (auto simp: word_le_nat_alt min_def)
  have next_fail: "unat (sg_failures h + 1) = unat (sg_failures h) + 1" if "\<not> 3 \<le> sg_failures h"
    using that by (simp add: unat_word_ariths(1) word_le_nat_alt)
  have two: "\<not> sg_tripped (fst (guard_report generation False h)) \<longleftrightarrow>
      unat (sg_failures g) + invalid_reports d ops < 2"
    using good three fails next_fail
    by (cases "3 \<le> sg_failures h") (auto simp: guard_report_def Let_def word_le_nat_alt min_def)
  show ?thesis
    using guard_step(3) [OF ok h, of "sg_generation g" True] guard_step(3) [OF ok h, of generation False]
      guard_step(3) [OF ok h, of generation True] good three two gen
    by (auto simp: guard_report_def)
qed

text \<open>An instance: a generation is accepted for domain 5, then it fails twice.\<close>

definition sample_guards :: "parp_scan_guard list" where
  "sample_guards = scan_guard_zero \<lparr> sg_domain_id := 5, sg_generation := 7 \<rparr> #
     replicate 63 scan_guard_zero"

lemma sample_guards_eq:
  "fst (snd (parp_scan_budget_guard 5 7 True (sb_guards parp_scan_boot))) = sample_guards"
  by code_simp

theorem parp_scan_guard_trips_after_three_witness:
  "fst (parp_scan_budget_guard 5 7 True (guard_run [(5, 7, False), (5, 7, False)] sample_guards)) \<and>
   \<not> fst (parp_scan_budget_guard 5 7 False (guard_run [(5, 7, False), (5, 7, False)] sample_guards))"
proof -
  have ok: "guards_ok sample_guards"
    unfolding sample_guards_eq [symmetric] by (rule guard_step(1) [OF guards_ok_boot])
  have g: "guard_of sample_guards 5 = Some (scan_guard_zero \<lparr> sg_domain_id := 5, sg_generation := 7 \<rparr>)"
    by (simp add: guard_of_def table_entry_def sample_guards_def)
  show ?thesis
    using parp_scan_guard_trips_after_three [OF ok g, of "[(5, 7, False), (5, 7, False)]" 7]
    by (simp add: scan_guard_zero_def invalid_reports_def)
qed


section \<open>The adapter\<close>

text \<open>
  What is under way: a setter between its test and its store, and a query between its parts. Everything
  else runs in between. (The counters of one query are atomic increments, which commute; they are one
  step.)
\<close>

datatype scan_task = Scan_mode parp_scan_budget_mode | Scan_domain u64
  | Scan_number parp_scan_budget_input parp_scan_budget_decision
  | Scan_account parp_scan_budget_input parp_scan_budget_decision

inductive parp_scan_step ::
  "parp_scan_state \<times> scan_task multiset \<Rightarrow> parp_scan_state \<times> scan_task multiset \<Rightarrow> bool" where
  test_mode: "parp_scan_mode_check code st = Inr mode \<Longrightarrow>
    parp_scan_step (st, tasks) (st, add_mset (Scan_mode mode) tasks)"
| store_mode: "parp_scan_step (st, add_mset (Scan_mode mode) tasks) (st \<lparr> sb_mode := mode \<rparr>, tasks)"
| test_domain: "parp_scan_domain_check st = None \<Longrightarrow>
    parp_scan_step (st, tasks) (st, add_mset (Scan_domain d) tasks)"
| store_domain: "parp_scan_step (st, add_mset (Scan_domain d) tasks) (st \<lparr> sb_apply_domain := d \<rparr>, tasks)"
| set_params: "parp_scan_step (st, tasks) (st \<lparr> sb_params := p \<rparr>, tasks)"
| clear: "parp_scan_step (st, tasks)
    (st \<lparr> sb_guards := parp_scan_budget_guard_clear d (sb_guards st) \<rparr>, tasks)"
| query: "parp_scan_decide active now_ns memcg global_kswapd proactive priority native st = (i, d, st') \<Longrightarrow>
    parp_scan_step (st, tasks) (st', add_mset (Scan_number i d) tasks)"
| number: "parp_scan_number d st = (d', st') \<Longrightarrow>
    parp_scan_step (st, add_mset (Scan_number i d) tasks) (st', add_mset (Scan_account i d') tasks)"
| account: "parp_scan_step (st, add_mset (Scan_account i d) tasks) (parp_scan_account i d st, tasks)"

inductive parp_scan_reach :: "parp_scan_state \<Rightarrow> scan_task multiset \<Rightarrow> bool" where
  boot: "parp_scan_reach parp_scan_boot {#}"
| step: "parp_scan_reach st tasks \<Longrightarrow> parp_scan_step (st, tasks) (st', tasks') \<Longrightarrow>
    parp_scan_reach st' tasks'"

fun scan_uncounted :: "scan_task \<Rightarrow> bool" where
  "scan_uncounted (Scan_account i d) = True"
| "scan_uncounted _ = False"

text \<open>
  Every query that was counted is counted under one scope and as applied or observed; \<open>n\<close> queries have
  a sequence number and are not counted yet.
\<close>

definition counts_balanced :: "parp_scan_budget_stats \<Rightarrow> u64 \<Rightarrow> nat \<Rightarrow> bool" where
  "counts_balanced t seq n \<longleftrightarrow> b_queries t = b_target t + b_kswapd t + b_direct t + b_unknown t \<and>
     b_queries t = b_observe t + b_apply t \<and> b_queries t + word_of_nat n = seq"

definition scan_balanced :: "nat \<Rightarrow> parp_scan_state \<Rightarrow> bool" where
  "scan_balanced n st \<longleftrightarrow> counts_balanced (sb_stats st) (sb_sequence st) n"

definition scan_ok :: "nat \<Rightarrow> parp_scan_state \<Rightarrow> bool" where
  "scan_ok n st \<longleftrightarrow> guards_ok (sb_guards st) \<and> scan_balanced n st"

lemma guard_update_fields:
  "sb_mode (snd (parp_guard_update d generation valid st)) = sb_mode st"
  "sb_apply_domain (snd (parp_guard_update d generation valid st)) = sb_apply_domain st"
  "sb_params (snd (parp_guard_update d generation valid st)) = sb_params st"
  "sb_sequence (snd (parp_guard_update d generation valid st)) = sb_sequence st"
  "sb_guards (snd (parp_guard_update d generation valid st)) =
     fst (snd (parp_scan_budget_guard d generation valid (sb_guards st)))"
  "fst (parp_guard_update d generation valid st) =
     fst (parp_scan_budget_guard d generation valid (sb_guards st))"
  by (simp_all add: parp_guard_update_def case_prod_unfold Let_def)

lemma guard_update_balanced:
  "scan_balanced n (snd (parp_guard_update d generation valid st)) = scan_balanced n st"
  by (simp add: parp_guard_update_def scan_balanced_def counts_balanced_def case_prod_unfold Let_def)

lemma guard_update_ok: "scan_ok n st \<Longrightarrow> scan_ok n (snd (parp_guard_update d generation valid st))"
  by (simp add: scan_ok_def guard_update_fields guard_update_balanced guard_step(1))

lemma account_sums:
  fixes t
  assumes "t' = parp_scan_budget_account mode i d t"
  shows "b_queries t' = b_queries t + 1"
    and "b_target t' + b_kswapd t' + b_direct t' + b_unknown t' =
      b_target t + b_kswapd t + b_direct t + b_unknown t + 1"
    and "b_observe t' + b_apply t' = b_observe t + b_apply t + 1"
  unfolding assms parp_scan_budget_account_def
  by (simp_all add: count_scope_def count_flags_def Let_def)

lemma account_balanced:
  assumes "counts_balanced t seq (Suc n)"
  shows "counts_balanced (parp_scan_budget_account mode i d t) seq n"
proof -
  note sums = account_sums [OF refl, of mode i d t]
  have "b_queries t + word_of_nat (Suc n) = seq" using assms unfolding counts_balanced_def by blast
  then have "b_queries t + 1 + word_of_nat n = seq" by (simp add: ac_simps)
  then show ?thesis using assms sums unfolding counts_balanced_def by metis
qed

lemma account_ok: "scan_ok (Suc n) st \<Longrightarrow> scan_ok n (parp_scan_account i d st)"
  by (simp add: scan_ok_def scan_balanced_def parp_scan_account_def account_balanced)

lemma number_ok: "scan_ok n st \<Longrightarrow> parp_scan_number d st = (d', st') \<Longrightarrow> scan_ok (Suc n) st'"
  by (auto simp: scan_ok_def scan_balanced_def counts_balanced_def parp_scan_number_def Let_def ac_simps)

lemma decide_query_ok:
  assumes "scan_ok n st"
    and "parp_scan_decide active now_ns memcg global_kswapd proactive priority native st = (i, d, st')"
  shows "scan_ok n st'"
proof -
  have "scan_ok n (snd (snd (parp_scan_decide active now_ns memcg global_kswapd proactive priority native st)))"
    unfolding parp_scan_decide_def Let_def
    using assms(1) by (simp add: case_prod_unfold guard_update_ok)
  then show ?thesis using assms(2) by simp
qed

lemma scan_step_ok:
  assumes "parp_scan_step (st, tasks) (st', tasks')" and ok: "scan_ok (size {# t \<in># tasks. scan_uncounted t #}) st"
  shows "scan_ok (size {# t \<in># tasks'. scan_uncounted t #}) st'"
  using assms(1)
proof (cases rule: parp_scan_step.cases)
  case (clear d)
  then show ?thesis using ok by (simp add: scan_ok_def scan_balanced_def guard_clear_refines(1))
next
  case (query active now_ns memcg global_kswapd proactive priority native i d)
  then show ?thesis using decide_query_ok [OF ok] by simp
next
  case (number d d' i tasks0)
  then show ?thesis using number_ok [OF ok, of d d' st'] by simp
next
  case (account i d)
  then show ?thesis using ok by (simp add: account_ok)
qed (use ok in \<open>simp_all add: scan_ok_def scan_balanced_def\<close>)

lemma scan_reach_ok:
  "parp_scan_reach st tasks \<Longrightarrow> scan_ok (size {# t \<in># tasks. scan_uncounted t #}) st"
proof (induction rule: parp_scan_reach.induct)
  case boot
  show ?case using guards_ok_boot
    by (simp add: scan_ok_def scan_balanced_def counts_balanced_def parp_scan_boot_def)
next
  case (step st tasks st' tasks')
  then show ?case using scan_step_ok by blast
qed

text \<open>C31. Mode writes, domain writes, parameter writes, guard clears and budget queries interleave, a setter
  being interrupted between its test and its store and a query between its decision, its sequence number
  and its counters. In every reachable state the breaker table is well formed and the counters balance:
  each counted query is counted under exactly one scope, and as exactly one of applied and observed; and
  the sequence numbers given out are the queries counted and those still to be counted. (That APPLY mode
  has a domain is not claimed: overlapping setters break it.)\<close>

theorem parp_scan_reachable_balanced:
  assumes "parp_scan_reach st tasks"
  shows "guards_ok (sb_guards st) \<and>
         b_queries (sb_stats st) = b_target (sb_stats st) + b_kswapd (sb_stats st) +
           b_direct (sb_stats st) + b_unknown (sb_stats st) \<and>
         b_queries (sb_stats st) = b_observe (sb_stats st) + b_apply (sb_stats st) \<and>
         b_queries (sb_stats st) + word_of_nat (size {# t \<in># tasks. scan_uncounted t #}) = sb_sequence st"
  using scan_reach_ok [OF assms]
  unfolding scan_ok_def scan_balanced_def counts_balanced_def by blast

text \<open>A setter that nothing interrupts.\<close>

lemma reach_set_mode:
  assumes "parp_scan_reach st tasks"
  shows "parp_scan_reach (snd (parp_set_scan_budget_mode code st)) tasks"
proof (cases "parp_scan_mode_check code st")
  case (Inl e)
  then show ?thesis using assms by (simp add: parp_set_scan_budget_mode_def)
next
  case (Inr mode)
  have "parp_scan_reach (st \<lparr> sb_mode := mode \<rparr>) tasks"
    by (rule parp_scan_reach.step [OF parp_scan_reach.step [OF assms parp_scan_step.test_mode [OF Inr]]
      parp_scan_step.store_mode])
  then show ?thesis using Inr by (simp add: parp_set_scan_budget_mode_def)
qed

lemma reach_set_domain:
  assumes "parp_scan_reach st tasks"
  shows "parp_scan_reach (snd (parp_set_scan_budget_apply_domain d st)) tasks"
proof (cases "parp_scan_domain_check st")
  case (Some e)
  then show ?thesis using assms by (simp add: parp_set_scan_budget_apply_domain_def)
next
  case None
  have "parp_scan_reach (st \<lparr> sb_apply_domain := d \<rparr>) tasks"
    by (rule parp_scan_reach.step [OF parp_scan_reach.step [OF assms parp_scan_step.test_domain [OF None]]
      parp_scan_step.store_domain])
  then show ?thesis using None by (simp add: parp_set_scan_budget_apply_domain_def)
qed

lemma sample_domain_reach: "parp_scan_reach (parp_scan_boot \<lparr> sb_apply_domain := 5 \<rparr>) {#}"
  using reach_set_domain [OF parp_scan_reach.boot, of 5]
  by (simp add: parp_set_scan_budget_apply_domain_def parp_scan_domain_check_def parp_scan_boot_def)

lemma sample_scan_state_reach: "parp_scan_reach sample_scan_state {#}"
  using reach_set_mode [OF sample_domain_reach, of 2]
  by (simp add: parp_set_scan_budget_mode_def parp_scan_mode_check_def scan_mode_of_code_def
      sample_scan_state_def parp_scan_boot_def)

text \<open>
  The overlap: APPLY is asked for while domain 5 is set, and before the mode is stored the domain is
  cleared, which the mode still allows. APPLY mode then stands with domain 0. (It applies nothing: the
  guard refuses domain 0.)
\<close>

lemma parp_scan_apply_without_domain:
  "\<exists>st. parp_scan_reach st {#} \<and> sb_mode st = PARP_SCAN_BUDGET_APPLY \<and> sb_apply_domain st = 0"
proof -
  let ?st = "parp_scan_boot \<lparr> sb_apply_domain := 5 \<rparr>"
  note step = parp_scan_reach.step
  have m: "parp_scan_mode_check 2 ?st = Inr PARP_SCAN_BUDGET_APPLY"
    by (simp add: parp_scan_mode_check_def scan_mode_of_code_def)
  have d: "parp_scan_domain_check ?st = None"
    by (simp add: parp_scan_domain_check_def parp_scan_boot_def)
  note 1 = step [OF step [OF sample_domain_reach parp_scan_step.test_mode [OF m]]
    parp_scan_step.test_domain [OF d, where d = 0]]
  note 2 = step [OF step [OF 1 parp_scan_step.store_domain], of _ "{#}"]
  have "parp_scan_reach (?st \<lparr> sb_apply_domain := 0, sb_mode := PARP_SCAN_BUDGET_APPLY \<rparr>) {#}"
    by (rule 2) (rule parp_scan_step.store_mode)
  then show ?thesis by (intro exI [of _ "?st \<lparr> sb_apply_domain := 0, sb_mode := PARP_SCAN_BUDGET_APPLY \<rparr>"]) simp
qed

text \<open>Witness of C31: APPLY mode for domain 5.\<close>

theorem parp_scan_reachable_balanced_witness:
  "sb_mode sample_scan_state = PARP_SCAN_BUDGET_APPLY \<and>
   b_queries (sb_stats sample_scan_state) + word_of_nat (size {# t \<in># {#}. scan_uncounted t #}) =
     sb_sequence sample_scan_state \<and> guards_ok (sb_guards sample_scan_state)"
  using parp_scan_reachable_balanced [OF sample_scan_state_reach] sample_scan_state_fields(1) by blast

lemma bit_set_flag:
  "n < 32 \<Longrightarrow> bit (in_flags (set_flag (BIT n) c i)) m \<longleftrightarrow> bit (in_flags i) m \<or> (c \<and> m = n)"
  by (auto simp: set_flag_def bit_or_iff bit_BIT)

lemma fill_fields [simp]:
  "in_domain_id (parp_snapshot_fill_scan_budget_input a did now_ns i) = in_domain_id i"
  "in_now_ns (parp_snapshot_fill_scan_budget_input a did now_ns i) = in_now_ns i"
  "in_pressure (parp_snapshot_fill_scan_budget_input a did now_ns i) = in_pressure i"
  "in_reclaim_scope (parp_snapshot_fill_scan_budget_input a did now_ns i) = in_reclaim_scope i"
  "in_native_nr_to_scan (parp_snapshot_fill_scan_budget_input a did now_ns i) = in_native_nr_to_scan i"
  by (simp_all add: parp_snapshot_fill_scan_budget_input_def Let_def set_flag_def split: option.splits)

lemma query_fields:
  fixes active now_ns memcg global_kswapd proactive priority native q
  assumes "q = parp_scan_query active now_ns memcg global_kswapd proactive priority native"
  shows "in_domain_id q = parp_memcg_domain_id memcg" and "in_now_ns q = now_ns"
    and "in_pressure q = parp_pressure_from_priority priority"
    and "in_reclaim_scope q = parp_reclaim_scope_of memcg global_kswapd proactive"
    and "in_native_nr_to_scan q = native"
  by (simp_all add: assms parp_scan_query_def Let_def)

text \<open>What the flags of a query say about the snapshot.\<close>

lemma query_context:
  fixes active now_ns memcg global_kswapd proactive priority native q
  assumes q: "q = parp_scan_query active now_ns memcg global_kswapd proactive priority native"
    and flags: "bit (in_flags q) 0" "bit (in_flags q) 1" "bit (in_flags q) 3" "bit (in_flags q) 4"
      "bit (in_flags q) 5"
  shows "\<not> bit (in_flags q) 6" and
    "\<exists>s b p. active = Some s \<and> active_binding (parp_memcg_domain_id memcg) s = Some b \<and>
       find (\<lambda>p. p_app_id p = bd_app_id b) (x_priors s) = Some p \<and>
       bd_generation b \<noteq> 0 \<and> now_ns < bd_expires_ns b \<and> x_generation s \<noteq> 0 \<and>
       p_valid p \<and> now_ns < x_expiry_ns s \<and> p_prediction_generation p = x_generation s \<and>
       bd_model_version b = ucast (x_model_version s) \<and> p_model_version p = ucast (x_model_version s) \<and>
       in_prediction_generation q = x_generation s"
proof -
  obtain i where i: "in_flags i = 0"
    and qi: "q = parp_snapshot_fill_scan_budget_input active (parp_memcg_domain_id memcg) now_ns i"
    by (rule that, rule_tac [2] trans [OF q]) (simp_all add: parp_scan_query_def Let_def)
  obtain s where s: "active = Some s"
    using flags(1) i by (cases active) (auto simp: qi parp_snapshot_fill_scan_budget_input_def)
  note ff = fill_flags [OF i, of s "parp_memcg_domain_id memcg" now_ns]
  show "\<not> bit (in_flags q) 6" using ff(7) by (simp add: qi s)
  obtain b where b: "active_binding (parp_memcg_domain_id memcg) s = Some b"
    "bd_generation b \<noteq> 0" "now_ns < bd_expires_ns b"
    using flags(2) ff(2) by (auto simp: qi s)
  show "\<exists>s b p. active = Some s \<and> active_binding (parp_memcg_domain_id memcg) s = Some b \<and>
       find (\<lambda>p. p_app_id p = bd_app_id b) (x_priors s) = Some p \<and>
       bd_generation b \<noteq> 0 \<and> now_ns < bd_expires_ns b \<and> x_generation s \<noteq> 0 \<and>
       p_valid p \<and> now_ns < x_expiry_ns s \<and> p_prediction_generation p = x_generation s \<and>
       bd_model_version b = ucast (x_model_version s) \<and> p_model_version p = ucast (x_model_version s) \<and>
       in_prediction_generation q = x_generation s"
    using flags(3-5) ff(4-6) b fill_bound(5) [OF b(1), of now_ns i] by (auto simp: qi s)
qed


lemma apply_scan_budget [simp]: "parp_adapter_apply_scan_budget d = sd_applied_nr_to_scan d"
  using unat_u64_bound [of "sd_applied_nr_to_scan d"]
  by (simp add: parp_adapter_apply_scan_budget_def min_def word_le_nat_alt)

lemma budget_deviates:
  fixes st i
  defines "d \<equiv> parp_scan_budget_of st i"
  assumes "sd_applied_nr_to_scan d \<noteq> in_native_nr_to_scan i"
  shows "parp_validate_scan_input st i = PARP_SCAN_REASON_NATIVE"
    and "in_pressure i \<noteq> PARP_PRESSURE_EMERGENCY" and "sd_valid d"
    and "sb_mode st = PARP_SCAN_BUDGET_APPLY" and "in_domain_id i = sb_apply_domain st"
    and "sd_applied_nr_to_scan d \<le>
      sat_add (in_native_nr_to_scan i) (maximum_extra_scan_units (sb_params st))"
  using assms(2) limits_bounds(2) unfolding d_def
  by (cases rule: budget_cases [of st i];
      auto simp: parp_native_decision_def apply_fields limits_fields split: if_splits)+

text \<open>C7. A budget query deviates from the native scan count only when everything the policy needs
  is in place: APPLY mode for this very memory cgroup, a priority above 1, an unexpired binding with a
  generation in the published snapshot, a valid unexpired prior of the bound application that belongs
  to the snapshot's current prediction generation and model, and a breaker that has not tripped. The
  count applied is then the proposal, within the configured extra.\<close>

theorem parp_scan_deviation_justified:
  assumes run: "parp_adapter_prepare_scan_budget active now_ns memcg global_kswapd proactive priority
      native st = (ret, d, st')"
    and "parp_adapter_apply_scan_budget d \<noteq> native"
  shows "ret \<and> memcg = Some (sb_apply_domain st) \<and> sb_mode st = PARP_SCAN_BUDGET_APPLY \<and>
    sb_apply_domain st \<noteq> 0 \<and> 1 < priority \<and>
    parp_adapter_apply_scan_budget d \<le> sat_add native (maximum_extra_scan_units (sb_params st)) \<and>
    (\<exists>s b p. active = Some s \<and> active_binding (sb_apply_domain st) s = Some b \<and>
       find (\<lambda>p. p_app_id p = bd_app_id b) (x_priors s) = Some p \<and>
       bd_generation b \<noteq> 0 \<and> now_ns < bd_expires_ns b \<and> x_generation s \<noteq> 0 \<and>
       p_valid p \<and> now_ns < x_expiry_ns s \<and> p_prediction_generation p = x_generation s \<and>
       bd_model_version b = ucast (x_model_version s) \<and> p_model_version p = ucast (x_model_version s) \<and>
       fst (parp_scan_budget_guard (sb_apply_domain st) (x_generation s) True (sb_guards st)))"
proof -
  define q where "q = parp_scan_query active now_ns memcg global_kswapd proactive priority native"
  define valid where "valid = (in_flags q AND context_flags = context_flags)"
  define u where "u = parp_guard_update (in_domain_id q) (in_prediction_generation q) valid st"
  define i where "i = set_flag PARP_SCAN_INPUT_CIRCUIT_OK (fst u) q"
  define b where "b = parp_scan_budget_of (snd u) i"
  note q = query_fields [OF q_def]
  have d: "sd_applied_nr_to_scan d = sd_applied_nr_to_scan b" and ret: "ret = sd_valid b"
    using run unfolding parp_adapter_prepare_scan_budget_def parp_scan_decide_def parp_scan_number_def
      Let_def case_prod_unfold
    by (auto simp: b_def i_def u_def q_def valid_def)
  have native: "in_native_nr_to_scan i = native" by (simp add: i_def q)
  have b: "sd_applied_nr_to_scan b \<noteq> in_native_nr_to_scan i"
    using assms(2) d native by simp
  have same: "sb_mode (snd u) = sb_mode st" "sb_apply_domain (snd u) = sb_apply_domain st"
    "sb_params (snd u) = sb_params st" by (simp_all add: u_def guard_update_fields)
  note dev = budget_deviates [of "snd u" i, folded b_def, OF b, unfolded same native]
  note v = validate_native [OF dev(1)]
  have old: "bit (in_flags q) n" if "bit (in_flags i) n" "n \<noteq> 6" for n
    using that by (simp add: i_def bit_set_flag)
  note ctx = query_context [OF q_def, OF old [OF v(4)] old [OF v(5)] old [OF v(7)] old [OF v(8)]
      old [OF v(9)], simplified]
  have allowed: "fst u" using v(3) ctx(1) by (simp add: i_def bit_set_flag)
  have memcg: "memcg = Some (sb_apply_domain st)"
    using dev(5) v(2) by (auto simp: i_def q parp_memcg_domain_id_def parp_reclaim_scope_of_def
        split: option.splits if_splits)
  have prio: "1 < priority"
    using dev(2) by (auto simp: i_def q parp_pressure_from_priority_def split: if_splits)
  have did: "in_domain_id q = sb_apply_domain st" "parp_memcg_domain_id memcg = sb_apply_domain st"
    by (simp_all add: q memcg parp_memcg_domain_id_def)
  have full: "valid"
    using old [OF v(5)] old [OF v(7)] old [OF v(8)] old [OF v(9)]
    by (auto simp: valid_def context_flags_def intro!: bit_word_eqI simp: bit_and_iff bit_or_iff bit_BIT)
  have guard: "fst (parp_scan_budget_guard (sb_apply_domain st) (in_prediction_generation q) True
      (sb_guards st))"
    using allowed full by (simp add: u_def guard_update_fields did)
  have "sb_apply_domain st \<noteq> 0"
    using guard by (auto simp: parp_scan_budget_guard_def)
  then show ?thesis
    using dev(3,4,6) ret d memcg prio ctx(2) guard unfolding did(2)
    by auto
qed

text \<open>Witness of C7: half of the native 64 for the foreground application of domain 5.\<close>

theorem parp_scan_deviation_justified_witness:
  "\<exists>ret d st'. parp_adapter_prepare_scan_budget (Some sample_snapshot) 3000 (Some 5) False False 12 64
       sample_scan_state = (ret, d, st') \<and> parp_adapter_apply_scan_budget d = 32 \<and> ret \<and>
     (12 :: int) > 1"
proof -
  define q where "q = parp_scan_query (Some sample_snapshot) 3000 (Some 5) False False 12 64"
  have q: "in_flags q AND context_flags = context_flags" "in_domain_id q = 5"
    "in_prediction_generation q = 7" unfolding q_def by code_simp+
  have i: "set_flag PARP_SCAN_INPUT_CIRCUIT_OK True q = sample_scan_input"
    by (simp add: q_def sample_scan_input_def)
  have "fst (parp_scan_budget_guard 5 7 True (sb_guards parp_scan_boot))" by code_simp
  then have u: "fst (parp_guard_update 5 7 True sample_scan_state)"
    by (simp add: guard_update_fields sample_scan_state_def)
  have b: "parp_scan_budget_of (snd (parp_guard_update 5 7 True sample_scan_state)) sample_scan_input =
      parp_scan_budget_of sample_scan_state sample_scan_input"
    by (simp add: sample_budget guard_update_fields sample_scan_state_fields)
  obtain ret d st' where run: "parp_adapter_prepare_scan_budget (Some sample_snapshot) 3000 (Some 5)
      False False 12 64 sample_scan_state = (ret, d, st')" by (metis surj_pair)
  then have "sd_applied_nr_to_scan d = 32"
    unfolding parp_adapter_prepare_scan_budget_def parp_scan_decide_def parp_scan_number_def
      q_def [symmetric] Let_def case_prod_unfold q
    by (auto simp: u i b sample_budget sample_scan_state_fields)
  then have a: "parp_adapter_apply_scan_budget d = 32" by simp
  then have "parp_adapter_apply_scan_budget d \<noteq> 64" by simp
  then show ?thesis
    using parp_scan_deviation_justified [OF run] run a by blast
qed

end
