(* ===== verification/Watermark.thy ===== *)
theory Watermark
  imports Parp_Prelude "HOL-Library.Multiset"
begin

text \<open>
  \<open>mm/parp/core/watermark.c\<close> and \<open>include/linux/parp_tier2.h\<close>: the secondary watermarks of a memory
  cgroup and the prediction of when its headroom falls to them. The state is the structure embedded
  in the cgroup, with the armed timer of its delayed work as one more field (\<open>None\<close> when not
  pending, else the delay it was armed with). What the code reads of the cgroup itself
  (\<open>memory.max\<close>, its usage, the clock, the root and online tests) is the argument \<open>memcg_view\<close>; the
  sysctls are \<open>parp_tier2_sysctl\<close>. \<open>try_to_free_mem_cgroup_pages\<close> belongs to the kernel's reclaim: its
  result is an argument. Parsing of the control files is an argument too.

  The spin lock of the structure makes one step of what is done under it. The timer calls made after
  the unlock (\<open>mod_delayed_work\<close>, \<open>cancel_delayed_work\<close>, \<open>cancel_delayed_work_sync\<close>) are steps of their
  own: a locked part returns the call its caller has yet to make, and the state machine below makes the
  pending calls in any order. A routine as its caller sees it, when nothing runs in between, is the
  composition of its parts.

  A sample is an option: \<open>None\<close> stands for the divide error of \<open>mul_u64_u64_div_u64\<close>, whose quotient
  must fit in 64 bits.
\<close>

section \<open>Data\<close>

abbreviation PARP_TIER2_SCALE_BASE :: u32 where "PARP_TIER2_SCALE_BASE \<equiv> 10000"
abbreviation PARP_TIER2_MAX_RECLAIM_PAGES :: u64 where "PARP_TIER2_MAX_RECLAIM_PAGES \<equiv> 4096"
abbreviation SWAP_CLUSTER_MAX :: u64 where "SWAP_CLUSTER_MAX \<equiv> 32"
abbreviation PAGE_SIZE :: u64 where "PAGE_SIZE \<equiv> 4096"
abbreviation PAGE_COUNTER_MAX :: u64 where "PAGE_COUNTER_MAX \<equiv> 0x7FFFFFFFFFFFF"

record parp_tier2_memcg =
  m_online :: bool
  m_enabled :: bool
  m_ewma_valid :: bool
  m_alloc_scale :: u32
  m_demote_scale :: u32
  m_limit_bytes :: u64
  m_alloc_wmark_bytes :: u64
  m_demote_wmark_bytes :: u64
  m_headroom_bytes :: u64
  m_ewma_headroom_bytes :: u64
  m_previous_ewma_headroom_bytes :: u64
  m_last_sample_ns :: u64
  m_scheduled_for_ns :: u64
  m_predicted_ms :: int
  m_samples :: u64
  m_below_alloc :: u64
  m_below_demote :: u64
  m_predict_scheduled :: u64
  m_predict_executed :: u64
  m_predict_cancelled :: u64
  m_reclaim_invocations :: u64
  m_reclaim_pages :: u64
  m_timer :: "u64 option"

record memcg_view =
  q_root :: bool
  q_css_online :: bool
  q_max_pages :: u64
  q_usage_pages :: u64
  q_now_ns :: u64

record parp_tier2_sysctl =
  y_predict_enabled :: bool
  y_predict_latency_ms :: int
  y_predict_horizon_ratio :: int

section \<open>Watermarks and prediction\<close>

definition parp_tier2_scaled_wmark :: "u64 \<Rightarrow> u32 \<Rightarrow> u64 \<Rightarrow> u64" where
  "parp_tier2_scaled_wmark limit_bytes scale floor_bytes =
     (if limit_bytes = 0 \<or> scale = 0 then 0
      else max (mul_u64_u32_div limit_bytes scale PARP_TIER2_SCALE_BASE) floor_bytes)"

definition parp_tier2_ewma_next :: "u64 \<Rightarrow> u64 \<Rightarrow> u64" where
  "parp_tier2_ewma_next previous sample =
     (let quotient = drop_bit 4 previous * 15 + drop_bit 4 sample;
          remainder = (previous AND 15) * 15 + (sample AND 15)
      in quotient + drop_bit 4 remainder)"

definition parp_tier2_predict_ms :: "u64 \<Rightarrow> u64 \<Rightarrow> u64 \<Rightarrow> u64 \<Rightarrow> u64 \<Rightarrow> int option" where
  "parp_tier2_predict_ms previous_ewma ewma headroom demote_wmark elapsed_ms =
     (if headroom \<le> demote_wmark then Some 0
      else if elapsed_ms = 0 \<or> ewma \<ge> previous_ewma then Some (- 1)
      else let delta = previous_ewma - ewma; remaining = headroom - demote_wmark
           in if \<not> mul_div_defined remaining elapsed_ms delta then None
              else Some (min (uint (mul_u64_u64_div_u64 remaining elapsed_ms delta)) S64_MAX))"

text \<open>\<open>U64_MAX >> PAGE_SHIFT\<close> is \<open>0xFFFFFFFFFFFFF\<close>.\<close>

definition parp_tier2_limit_bytes :: "memcg_view \<Rightarrow> u64" where
  "parp_tier2_limit_bytes v =
     (if q_max_pages v = PAGE_COUNTER_MAX \<or> q_max_pages v > 0xFFFFFFFFFFFFF then U64_MAX
      else push_bit 12 (q_max_pages v))"

definition parp_tier2_usage_bytes :: "memcg_view \<Rightarrow> u64" where
  "parp_tier2_usage_bytes v =
     (if q_usage_pages v > 0xFFFFFFFFFFFFF then U64_MAX else push_bit 12 (q_usage_pages v))"

definition parp_tier2_headroom :: "u64 \<Rightarrow> u64 \<Rightarrow> u64" where
  "parp_tier2_headroom limit usage =
     (if limit = U64_MAX then U64_MAX else if usage \<ge> limit then 0 else limit - usage)"

definition parp_tier2_watermarks :: "u64 \<Rightarrow> u32 \<Rightarrow> u32 \<Rightarrow> u64 \<times> u64" where
  "parp_tier2_watermarks limit alloc_scale demote_scale =
     (if limit = 0 \<or> limit = U64_MAX then (0, 0)
      else let alloc = parp_tier2_scaled_wmark limit alloc_scale PAGE_SIZE
           in (alloc, max alloc (parp_tier2_scaled_wmark limit demote_scale PAGE_SIZE)))"

section \<open>Sampling\<close>

text \<open>The call made after the unlock: none, arm the timer with a delay, or cancel it.\<close>

datatype timer_call = Timer_keep | Timer_arm u64 | Timer_cancel

definition timer_finish :: "u64 option \<Rightarrow> bool \<Rightarrow> timer_call" where
  "timer_finish schedule cancel =
     (case schedule of
        Some delay_ms \<Rightarrow> Timer_arm delay_ms
      | None \<Rightarrow> if cancel then Timer_cancel else Timer_keep)"

definition timer_apply :: "timer_call \<Rightarrow> parp_tier2_memcg \<Rightarrow> parp_tier2_memcg" where
  "timer_apply call st =
     (case call of
        Timer_keep \<Rightarrow> st
      | Timer_arm delay_ms \<Rightarrow> st \<lparr> m_timer := Some delay_ms \<rparr>
      | Timer_cancel \<Rightarrow> st \<lparr> m_timer := None \<rparr>)"

text \<open>The delay the prediction asks for, if any.\<close>

definition parp_tier2_delay :: "parp_tier2_sysctl \<Rightarrow> int \<Rightarrow> u64 option" where
  "parp_tier2_delay y predicted =
     (let threshold_ms = word_of_int (y_predict_latency_ms y) * word_of_int (y_predict_horizon_ratio y)
      in if predicted = 0 then Some 1
         else if predicted > 0 \<and> word_of_int predicted \<le> (threshold_ms :: u64)
         then Some (if predicted > y_predict_latency_ms y
                    then word_of_int (predicted - y_predict_latency_ms y) else 1)
         else None)"

text \<open>The label \<open>decide\<close> of the sampling routine.\<close>

definition parp_tier2_decide ::
  "parp_tier2_sysctl \<Rightarrow> u64 \<Rightarrow> u64 \<Rightarrow> u64 \<Rightarrow> u64 \<Rightarrow> bool \<Rightarrow> parp_tier2_memcg \<Rightarrow> timer_call \<times> parp_tier2_memcg" where
  "parp_tier2_decide y now_ns headroom alloc demote cancel st0 =
     (let st = st0 \<lparr>
            m_below_alloc := (if headroom < alloc then m_below_alloc st0 + 1 else m_below_alloc st0),
            m_below_demote :=
              (if headroom < demote then m_below_demote st0 + 1 else m_below_demote st0) \<rparr>
      in case parp_tier2_delay y (m_predicted_ms st) of
           Some delay_ms \<Rightarrow>
             let due_ns = now_ns + delay_ms * NSEC_PER_MSEC
             in if m_scheduled_for_ns st = 0 \<or> due_ns < m_scheduled_for_ns st
                then (timer_finish (Some delay_ms) cancel, st \<lparr> m_scheduled_for_ns := due_ns,
                       m_predict_scheduled := m_predict_scheduled st + 1 \<rparr>)
                else (timer_finish None cancel, st)
         | None \<Rightarrow>
             if m_scheduled_for_ns st \<noteq> 0
             then (timer_finish None True, st \<lparr> m_scheduled_for_ns := 0,
                    m_predict_cancelled := m_predict_cancelled st + 1 \<rparr>)
             else (timer_finish None cancel, st))"

text \<open>The sample up to its unlock; \<open>v\<close> is what was read of the cgroup before the lock was taken.\<close>

definition parp_tier2_sample_locked ::
  "parp_tier2_sysctl \<Rightarrow> memcg_view \<Rightarrow> parp_tier2_memcg \<Rightarrow> (timer_call \<times> parp_tier2_memcg) option" where
  "parp_tier2_sample_locked y v st =
     (if q_root v \<or> \<not> y_predict_enabled y \<or> \<not> m_enabled st \<or> \<not> m_online st then Some (Timer_keep, st)
      else
        let limit = parp_tier2_limit_bytes v;
            headroom = parp_tier2_headroom limit (parp_tier2_usage_bytes v);
            now_ns = q_now_ns v;
            (alloc, demote) = parp_tier2_watermarks limit (m_alloc_scale st) (m_demote_scale st);
            changed = (m_limit_bytes st \<noteq> 0 \<and> m_limit_bytes st \<noteq> limit);
            cancel = (changed \<and> m_scheduled_for_ns st \<noteq> 0);
            st1 = (if changed
                   then st \<lparr> m_ewma_valid := False, m_predicted_ms := - 1, m_scheduled_for_ns := 0 \<rparr>
                   else st)
                  \<lparr> m_limit_bytes := limit, m_alloc_wmark_bytes := alloc,
                    m_demote_wmark_bytes := demote, m_headroom_bytes := headroom \<rparr>
        in if demote = 0 \<or> headroom = U64_MAX
           then Some (timer_finish None (m_scheduled_for_ns st1 \<noteq> 0),
                  st1 \<lparr> m_ewma_valid := False, m_predicted_ms := - 1, m_scheduled_for_ns := 0 \<rparr>)
           else if \<not> m_ewma_valid st1
           then Some (parp_tier2_decide y now_ns headroom alloc demote cancel
                  (st1 \<lparr> m_ewma_valid := True, m_previous_ewma_headroom_bytes := headroom,
                         m_ewma_headroom_bytes := headroom, m_last_sample_ns := now_ns,
                         m_predicted_ms := (if headroom \<le> demote then 0 else - 1),
                         m_samples := m_samples st1 + 1 \<rparr>))
           else if headroom > demote \<and> now_ns - m_last_sample_ns st1 < NSEC_PER_MSEC
           then Some (timer_finish None cancel, st1)
           else
             let previous = m_ewma_headroom_bytes st1;
                 ewma = parp_tier2_ewma_next previous headroom;
                 elapsed_ms = (now_ns - m_last_sample_ns st1) div NSEC_PER_MSEC
             in case parp_tier2_predict_ms previous ewma headroom demote elapsed_ms of
                  None \<Rightarrow> None
                | Some predicted \<Rightarrow>
                    Some (parp_tier2_decide y now_ns headroom alloc demote cancel
                      (st1 \<lparr> m_previous_ewma_headroom_bytes := previous,
                             m_ewma_headroom_bytes := ewma, m_last_sample_ns := now_ns,
                             m_predicted_ms := predicted, m_samples := m_samples st1 + 1 \<rparr>)))"

definition parp_tier2_memcg_sample ::
  "parp_tier2_sysctl \<Rightarrow> memcg_view \<Rightarrow> parp_tier2_memcg \<Rightarrow> parp_tier2_memcg option" where
  "parp_tier2_memcg_sample y v st =
     map_option (\<lambda>(call, st'). timer_apply call st') (parp_tier2_sample_locked y v st)"

text \<open>A charge samples the chain from the charged cgroup up to, not including, the root.\<close>

fun parp_tier2_memcg_charge ::
  "parp_tier2_sysctl \<Rightarrow> (memcg_view \<times> parp_tier2_memcg) list \<Rightarrow>
   (memcg_view \<times> parp_tier2_memcg) list option" where
  "parp_tier2_memcg_charge y [] = Some []"
| "parp_tier2_memcg_charge y ((v, st) # ancestors) =
     (if \<not> y_predict_enabled y \<or> q_root v then Some ((v, st) # ancestors)
      else case parp_tier2_memcg_sample y v st of
        None \<Rightarrow> None
      | Some st' \<Rightarrow> map_option (\<lambda>rest. (v, st') # rest) (parp_tier2_memcg_charge y ancestors))"

section \<open>The delayed work\<close>

text \<open>How many pages the work asks for, \<open>None\<close> when it returns without reclaiming.\<close>

definition parp_tier2_request ::
  "memcg_view \<Rightarrow> u64 \<Rightarrow> int \<Rightarrow> u64 \<Rightarrow> u64 option" where
  "parp_tier2_request v demote predicted ewma =
     (let limit = parp_tier2_limit_bytes v;
          headroom = parp_tier2_headroom limit (parp_tier2_usage_bytes v)
      in if demote = 0 \<or> headroom = U64_MAX then None
         else if headroom > demote \<and> (predicted < 0 \<or> headroom > ewma) then None
         else let gap = (if headroom < demote then demote - headroom else 0);
                  nr = (if gap \<noteq> 0 then (gap + PAGE_SIZE - 1) div PAGE_SIZE else SWAP_CLUSTER_MAX)
              in Some (if nr \<le> SWAP_CLUSTER_MAX then SWAP_CLUSTER_MAX
                       else if nr \<ge> PARP_TIER2_MAX_RECLAIM_PAGES then PARP_TIER2_MAX_RECLAIM_PAGES
                       else nr))"

text \<open>
  The work function, part by part: what it reads and writes under the lock, what it decides to ask for
  (it reads the average again, without the lock), and its counters after the reclaim.
\<close>

definition parp_tier2_work_begin ::
  "parp_tier2_sysctl \<Rightarrow> parp_tier2_memcg \<Rightarrow> bool \<times> u64 \<times> int \<times> parp_tier2_memcg" where
  "parp_tier2_work_begin y st =
     (m_online st \<and> m_enabled st \<and> y_predict_enabled y, m_demote_wmark_bytes st, m_predicted_ms st,
      st \<lparr> m_scheduled_for_ns := 0 \<rparr>)"

definition parp_tier2_work_decide ::
  "memcg_view \<Rightarrow> u64 \<Rightarrow> int \<Rightarrow> parp_tier2_memcg \<Rightarrow> u64 option \<times> parp_tier2_memcg" where
  "parp_tier2_work_decide v demote predicted st =
     (if q_root v \<or> \<not> q_css_online v then (None, st)
      else (parp_tier2_request v demote predicted (m_ewma_headroom_bytes st),
            st \<lparr> m_predict_executed := m_predict_executed st + 1 \<rparr>))"

definition parp_tier2_work_done :: "u64 \<Rightarrow> parp_tier2_memcg \<Rightarrow> parp_tier2_memcg" where
  "parp_tier2_work_done reclaimed st =
     st \<lparr> m_reclaim_invocations := m_reclaim_invocations st + 1,
          m_reclaim_pages := m_reclaim_pages st + reclaimed \<rparr>"

text \<open>
  The whole of it, the timer having expired: \<open>v\<close> is the cgroup when it runs, \<open>reclaimed\<close> the result of
  the reclaim and \<open>v'\<close> the cgroup after it. The result is the number of pages asked for and the state.
\<close>

definition parp_tier2_predict_work ::
  "parp_tier2_sysctl \<Rightarrow> memcg_view \<Rightarrow> u64 \<Rightarrow> memcg_view \<Rightarrow> parp_tier2_memcg \<Rightarrow>
   (u64 option \<times> parp_tier2_memcg) option" where
  "parp_tier2_predict_work y v reclaimed v' st0 =
     (let (active, demote, predicted, st) = parp_tier2_work_begin y (st0 \<lparr> m_timer := None \<rparr>)
      in if \<not> active then Some (None, st)
         else case parp_tier2_work_decide v demote predicted st of
                (None, st1) \<Rightarrow> Some (None, st1)
              | (Some nr, st1) \<Rightarrow>
                  map_option (\<lambda>st3. (Some nr, st3))
                    (parp_tier2_memcg_sample y v' (parp_tier2_work_done reclaimed st1)))"

section \<open>Life cycle and control files\<close>

definition parp_tier2_memcg_init :: "parp_tier2_memcg \<Rightarrow> parp_tier2_memcg" where
  "parp_tier2_memcg_init st = st \<lparr> m_online := True, m_enabled := False, m_alloc_scale := 100,
     m_demote_scale := 300, m_predicted_ms := - 1, m_samples := 0, m_below_alloc := 0,
     m_below_demote := 0, m_predict_scheduled := 0, m_predict_executed := 0,
     m_predict_cancelled := 0, m_reclaim_invocations := 0, m_reclaim_pages := 0, m_timer := None \<rparr>"

text \<open>The structure is embedded in a zeroed allocation.\<close>

definition parp_tier2_zero :: parp_tier2_memcg where
  "parp_tier2_zero = \<lparr> m_online = False, m_enabled = False, m_ewma_valid = False, m_alloc_scale = 0,
     m_demote_scale = 0, m_limit_bytes = 0, m_alloc_wmark_bytes = 0, m_demote_wmark_bytes = 0,
     m_headroom_bytes = 0, m_ewma_headroom_bytes = 0, m_previous_ewma_headroom_bytes = 0,
     m_last_sample_ns = 0, m_scheduled_for_ns = 0, m_predicted_ms = 0, m_samples = 0,
     m_below_alloc = 0, m_below_demote = 0, m_predict_scheduled = 0, m_predict_executed = 0,
     m_predict_cancelled = 0, m_reclaim_invocations = 0, m_reclaim_pages = 0, m_timer = None \<rparr>"

definition parp_tier2_memcg_online :: "parp_tier2_memcg \<Rightarrow> parp_tier2_memcg" where
  "parp_tier2_memcg_online st = st \<lparr> m_online := True, m_ewma_valid := False, m_predicted_ms := - 1 \<rparr>"

text \<open>Each of these three cancels the timer after its locked part, if it has one.\<close>

definition parp_tier2_offline_locked :: "parp_tier2_memcg \<Rightarrow> parp_tier2_memcg" where
  "parp_tier2_offline_locked st = st \<lparr> m_online := False, m_scheduled_for_ns := 0 \<rparr>"

definition parp_tier2_memcg_offline :: "parp_tier2_memcg \<Rightarrow> parp_tier2_memcg" where
  "parp_tier2_memcg_offline st = timer_apply Timer_cancel (parp_tier2_offline_locked st)"

definition parp_tier2_reset_locked :: "parp_tier2_memcg \<Rightarrow> parp_tier2_memcg" where
  "parp_tier2_reset_locked st = st \<lparr> m_enabled := False, m_ewma_valid := False,
     m_predicted_ms := - 1, m_scheduled_for_ns := 0 \<rparr>"

definition parp_tier2_memcg_reset :: "parp_tier2_memcg \<Rightarrow> parp_tier2_memcg" where
  "parp_tier2_memcg_reset st = timer_apply Timer_cancel (parp_tier2_reset_locked st)"

definition parp_tier2_memcg_destroy :: "parp_tier2_memcg \<Rightarrow> parp_tier2_memcg" where
  "parp_tier2_memcg_destroy st = timer_apply Timer_cancel st"

text \<open>
  The writers take the parsed value, and return the error or the new state (as an option). The first
  definition of each is its locked part.
\<close>

definition parp_tier2_enabled_set :: "bool \<Rightarrow> parp_tier2_memcg \<Rightarrow> parp_tier2_memcg" where
  "parp_tier2_enabled_set enabled st = st \<lparr> m_enabled := enabled, m_ewma_valid := False,
     m_predicted_ms := - 1, m_scheduled_for_ns := 0 \<rparr>"

definition parp_tier2_enabled_write ::
  "parp_tier2_sysctl \<Rightarrow> memcg_view \<Rightarrow> errno + bool \<Rightarrow> parp_tier2_memcg \<Rightarrow>
   (errno option \<times> parp_tier2_memcg) option" where
  "parp_tier2_enabled_write y v parsed st =
     (case parsed of
        Inl e \<Rightarrow> Some (Some e, st)
      | Inr enabled \<Rightarrow>
          let st1 = parp_tier2_enabled_set enabled st
          in if \<not> enabled then Some (None, timer_apply Timer_cancel st1)
             else map_option (\<lambda>st2. (None, st2)) (parp_tier2_memcg_sample y v st1))"

definition parp_tier2_scale_set :: "u32 \<Rightarrow> bool \<Rightarrow> parp_tier2_memcg \<Rightarrow> parp_tier2_memcg" where
  "parp_tier2_scale_set scale demote st =
     (if demote then st \<lparr> m_demote_scale := scale \<rparr> else st \<lparr> m_alloc_scale := scale \<rparr>)
       \<lparr> m_ewma_valid := False \<rparr>"

definition parp_tier2_scale_write ::
  "parp_tier2_sysctl \<Rightarrow> memcg_view \<Rightarrow> errno + u32 \<Rightarrow> bool \<Rightarrow> parp_tier2_memcg \<Rightarrow>
   (errno option \<times> parp_tier2_memcg) option" where
  "parp_tier2_scale_write y v parsed demote st =
     (case parsed of
        Inl e \<Rightarrow> Some (Some e, st)
      | Inr scale \<Rightarrow>
          if scale > PARP_TIER2_SCALE_BASE then Some (Some ERANGE, st)
          else map_option (\<lambda>st2. (None, st2))
                 (parp_tier2_memcg_sample y v (parp_tier2_scale_set scale demote st)))"

text \<open>\<open>(limit, usage, headroom, alloc, demote)\<close>, and what the value and below files print of it.\<close>

definition parp_tier2_live_values ::
  "memcg_view \<Rightarrow> parp_tier2_memcg \<Rightarrow> u64 \<times> u64 \<times> u64 \<times> u64 \<times> u64" where
  "parp_tier2_live_values v st =
     (let limit = parp_tier2_limit_bytes v; usage = parp_tier2_usage_bytes v;
          (alloc, demote) = parp_tier2_watermarks limit (m_alloc_scale st) (m_demote_scale st)
      in (limit, usage, parp_tier2_headroom limit usage, alloc, demote))"

definition parp_tier2_value_show :: "memcg_view \<Rightarrow> parp_tier2_memcg \<Rightarrow> nat \<Rightarrow> u64" where
  "parp_tier2_value_show v st which =
     (let (limit, usage, headroom, alloc, demote) = parp_tier2_live_values v st;
          value = (if which = 0 then alloc else if which = 1 then demote else headroom)
      in if value = U64_MAX then 0 else value)"

definition parp_tier2_below_show :: "memcg_view \<Rightarrow> parp_tier2_memcg \<Rightarrow> bool \<times> bool" where
  "parp_tier2_below_show v st =
     (let (limit, usage, headroom, alloc, demote) = parp_tier2_live_values v st
      in (alloc \<noteq> 0 \<and> headroom < alloc, demote \<noteq> 0 \<and> headroom < demote))"


section \<open>The moving average\<close>

lemma unat_drop_bit_4: "unat (drop_bit 4 (w :: u64)) = unat w div 16"
  by (simp add: drop_bit_eq_div unat_div)

lemma unat_and_15: "unat ((w :: u64) AND 15) = unat w mod 16"
proof -
  have "w AND 15 = take_bit 4 w" by (simp add: take_bit_eq_mask mask_eq_exp_minus_1)
  then have "unat (w AND 15) = take_bit 4 (unat w)" by (simp only: unsigned_take_bit_eq)
  then show ?thesis by (simp add: take_bit_eq_mod)
qed

lemma div_16_split:
  fixes p s :: nat
  shows "(15 * p + s) div 16 = p div 16 * 15 + s div 16 + (p mod 16 * 15 + s mod 16) div 16"
proof -
  have "(15 * (16 * a + b) + (16 * c + d)) div 16 = a * 15 + c + (b * 15 + d) div 16"
    for a b c d :: nat
  proof -
    have "15 * (16 * a + b) + (16 * c + d) = b * 15 + d + (a * 15 + c) * 16" by simp
    then show ?thesis by simp
  qed
  from this [of "p div 16" "p mod 16" "s div 16" "s mod 16"] show ?thesis by simp
qed

lemma ewma_exact: "unat (parp_tier2_ewma_next p s) = (15 * unat p + unat s) div 16"
proof -
  have p: "unat p div 16 < 2 ^ 60" "unat s div 16 < 2 ^ 60"
    using unat_u64_bound [of p] unat_u64_bound [of s] by (simp_all add: div_less_iff_less_mult)
  have q: "unat (drop_bit 4 p * 15 + drop_bit 4 s) = unat p div 16 * 15 + unat s div 16"
    using p by (simp add: unat_word_ariths unat_drop_bit_4)
  have m: "unat p mod 16 \<le> 15" "unat s mod 16 \<le> 15" by simp_all
  have r: "unat ((p AND 15) * 15 + (s AND 15)) = unat p mod 16 * 15 + unat s mod 16"
    using m by (simp add: unat_word_ariths unat_and_15)
  have top: "unat p div 16 * 15 + unat s div 16 + (unat p mod 16 * 15 + unat s mod 16) div 16 < 2 ^ 64"
    using p m by simp
  have "unat (parp_tier2_ewma_next p s) =
      (unat p div 16 * 15 + unat s div 16 + (unat p mod 16 * 15 + unat s mod 16) div 16) mod 2 ^ 64"
    unfolding parp_tier2_ewma_next_def Let_def
    by (subst unat_word_ariths(1)) (simp add: q r unat_drop_bit_4)
  then show ?thesis using top by (simp add: div_16_split)
qed

lemma ewma_between: "min p s \<le> parp_tier2_ewma_next p s" "parp_tier2_ewma_next p s \<le> max p s"
proof -
  have "min (unat p) (unat s) \<le> (15 * unat p + unat s) div 16"
    "(15 * unat p + unat s) div 16 \<le> max (unat p) (unat s)" by linarith+
  then show "min p s \<le> parp_tier2_ewma_next p s" "parp_tier2_ewma_next p s \<le> max p s"
    by (auto simp: word_le_nat_alt ewma_exact min_def max_def split: if_splits)
qed

lemma ewma_falls: "parp_tier2_ewma_next p s < p \<longleftrightarrow> s < p"
  by (simp add: word_less_nat_alt ewma_exact) linarith

interpretation headroom_ewma: smoothing parp_tier2_ewma_next "\<lambda>_. True"
  by unfold_locales (use ewma_between in auto)

text \<open>The headroom average is exactly \<open>(15 * previous + sample) / 16\<close> rounded down, with no
  overflow for any two 64-bit values; it falls exactly when the sample is below it; and over any run
  of samples it stays inside every interval that holds its start and the samples.\<close>

theorem parp_tier2_ewma_exact_bounded:
  assumes "lo \<le> start" "start \<le> hi" "\<forall>s \<in> set samples. lo \<le> s \<and> s \<le> hi"
  shows "unat (parp_tier2_ewma_next p s) = (15 * unat p + unat s) div 16 \<and>
         (parp_tier2_ewma_next p s < p \<longleftrightarrow> s < p) \<and>
         lo \<le> foldl parp_tier2_ewma_next start samples \<and>
         foldl parp_tier2_ewma_next start samples \<le> hi"
  using headroom_ewma.smooth_run_bounded [OF _ assms] ewma_exact ewma_falls by simp

text \<open>An instance.\<close>

theorem parp_tier2_ewma_exact_bounded_witness:
  "100 \<le> foldl parp_tier2_ewma_next 200 [100, 300, 250] \<and>
   foldl parp_tier2_ewma_next 200 [100, 300, 250] \<le> 300"
  using parp_tier2_ewma_exact_bounded [of 100 200 300 "[100, 300, 250]"] by simp

section \<open>The prediction\<close>

lemma predict_exact:
  "parp_tier2_predict_ms previous (parp_tier2_ewma_next previous headroom) headroom demote elapsed =
   (if headroom \<le> demote then Some 0
    else if elapsed = 0 \<or> previous \<le> headroom then Some (- 1)
    else let fall = unat previous - (15 * unat previous + unat headroom) div 16;
             ms = (unat headroom - unat demote) * unat elapsed div fall
         in if ms < 2 ^ 64 then Some (min (int ms) S64_MAX) else None)"
proof (cases "headroom \<le> demote \<or> elapsed = 0 \<or> previous \<le> headroom")
  case True
  then show ?thesis using ewma_falls [of previous headroom]
    by (auto simp: parp_tier2_predict_ms_def not_less)
next
  case False
  define ewma where "ewma = parp_tier2_ewma_next previous headroom"
  have falls: "ewma < previous" using False ewma_falls by (simp add: ewma_def not_le)
  then have delta: "unat (previous - ewma) = unat previous - unat ewma" "previous - ewma \<noteq> 0"
    by (simp_all add: unat_sub)
  have e: "unat ewma = (15 * unat previous + unat headroom) div 16"
    by (simp add: ewma_def ewma_exact)
  have rem: "unat (headroom - demote) = unat headroom - unat demote"
    using False by (intro unat_sub) (simp add: not_le less_imp_le)
  show ?thesis
    using False falls [unfolded not_le [symmetric]] delta rem
    by (simp add: parp_tier2_predict_ms_def Let_def mul_div_defined_def uint_nat
        unat_mul_u64_u64_div_u64 e del: not_le not_less flip: ewma_def)
qed


text \<open>What the predictor answers after a sample. It is 0 exactly at or below the demotion
  watermark; it is \<open>-1\<close> above it when no whole millisecond has passed or the sample has not fallen
  below the average; otherwise it is the time to the watermark at the rate the average falls, capped
  at the largest \<open>s64\<close>, unless the quotient does not fit in 64 bits, where the division faults.\<close>

theorem parp_tier2_predict_exact:
  "parp_tier2_predict_ms previous (parp_tier2_ewma_next previous headroom) headroom demote elapsed =
   (if headroom \<le> demote then Some 0
    else if elapsed = 0 \<or> previous \<le> headroom then Some (- 1)
    else let fall = unat previous - (15 * unat previous + unat headroom) div 16;
             ms = (unat headroom - unat demote) * unat elapsed div fall
         in if ms < 2 ^ 64 then Some (min (int ms) S64_MAX) else None)"
  by (rule predict_exact)

text \<open>
  The fault is within reach of the callers: a cgroup limited to 4 EiB that loses one page of headroom
  over two days.
\<close>

lemma predict_faults:
  "parp_tier2_predict_ms 0x4000000000000000
     (parp_tier2_ewma_next 0x4000000000000000 0x3FFFFFFFFFFFF000) 0x3FFFFFFFFFFFF000 4096 172800000 = None"
  by (simp add: predict_exact)

section \<open>Watermarks\<close>

lemma scaled_wmark_bounds:
  assumes "scale \<le> PARP_TIER2_SCALE_BASE"
  shows "mul_div_defined limit (ucast scale) (ucast PARP_TIER2_SCALE_BASE)"
    and "parp_tier2_scaled_wmark limit scale floor_bytes \<le> max limit floor_bytes"
proof -
  have m: "PARP_TIER2_SCALE_BASE \<noteq> 0" "unat scale \<le> unat PARP_TIER2_SCALE_BASE"
    using assms by (simp_all add: word_le_nat_alt)
  show "mul_div_defined limit (ucast scale) (ucast PARP_TIER2_SCALE_BASE)"
    using m by (intro mul_div_defined_shrinking) auto
  have "mul_u64_u32_div limit scale PARP_TIER2_SCALE_BASE \<le> limit"
    using mul_u64_u32_div_shrinks(2) [OF m] by (simp add: word_le_nat_alt)
  then show "parp_tier2_scaled_wmark limit scale floor_bytes \<le> max limit floor_bytes"
    by (auto simp: parp_tier2_scaled_wmark_def max_def)
qed

lemma watermarks_ordered:
  "parp_tier2_watermarks limit a d = (alloc, demote) \<Longrightarrow> alloc \<le> demote"
  by (auto simp: parp_tier2_watermarks_def Let_def split: if_splits)

lemma watermarks_limit:
  "parp_tier2_watermarks limit a d = (alloc, demote) \<Longrightarrow> demote \<noteq> 0 \<Longrightarrow> limit \<noteq> 0 \<and> limit \<noteq> U64_MAX"
  by (auto simp: parp_tier2_watermarks_def split: if_splits)

lemma limit_bytes_top:
  "parp_tier2_limit_bytes v \<noteq> U64_MAX \<Longrightarrow> parp_tier2_limit_bytes v \<le> 0xFFFFFFFFFFFFF000"
proof -
  assume "parp_tier2_limit_bytes v \<noteq> U64_MAX"
  then have p: "unat (q_max_pages v) \<le> 0xFFFFFFFFFFFFF"
    and l: "parp_tier2_limit_bytes v = q_max_pages v * 4096"
    by (auto simp: parp_tier2_limit_bytes_def word_le_nat_alt not_less push_bit_eq_mult mult.commute
        split: if_splits)
  have "unat (parp_tier2_limit_bytes v) = unat (q_max_pages v) * 4096"
    unfolding l using p by (simp add: unat_word_ariths)
  then show ?thesis using p by (simp add: word_le_nat_alt)
qed

lemma watermarks_top:
  assumes "parp_tier2_watermarks (parp_tier2_limit_bytes v) a d = (alloc, demote)"
    and "a \<le> PARP_TIER2_SCALE_BASE" "d \<le> PARP_TIER2_SCALE_BASE"
  shows "demote \<le> 0xFFFFFFFFFFFFF000"
proof (cases "parp_tier2_limit_bytes v = 0 \<or> parp_tier2_limit_bytes v = U64_MAX")
  case True
  then show ?thesis using assms(1) by (auto simp: parp_tier2_watermarks_def)
next
  case False
  then have top: "max (parp_tier2_limit_bytes v) PAGE_SIZE \<le> 0xFFFFFFFFFFFFF000"
    using limit_bytes_top [of v] by (simp add: max_def)
  show ?thesis
    using assms(1) False order.trans [OF scaled_wmark_bounds(2) [OF assms(2)] top]
      order.trans [OF scaled_wmark_bounds(2) [OF assms(3)] top]
    by (auto simp: parp_tier2_watermarks_def Let_def)
qed

lemma headroom_le: "parp_tier2_headroom limit usage \<le> limit"
proof (cases "usage < limit")
  case True
  then have "limit - usage \<le> limit" by (simp add: word_sub_le less_imp_le)
  then show ?thesis by (simp add: parp_tier2_headroom_def)
qed (simp add: parp_tier2_headroom_def not_less)

section \<open>The state machine\<close>

definition tier2_static :: "parp_tier2_memcg \<Rightarrow> bool" where
  "tier2_static st \<longleftrightarrow>
     m_alloc_scale st \<le> PARP_TIER2_SCALE_BASE \<and> m_demote_scale st \<le> PARP_TIER2_SCALE_BASE \<and>
     m_alloc_wmark_bytes st \<le> m_demote_wmark_bytes st \<and>
     m_demote_wmark_bytes st \<le> 0xFFFFFFFFFFFFF000 \<and> - 1 \<le> m_predicted_ms st \<and>
     m_predicted_ms st \<le> S64_MAX \<and>
     (m_ewma_valid st \<longrightarrow> m_limit_bytes st \<noteq> 0 \<and> m_ewma_headroom_bytes st \<le> m_limit_bytes st)"

text \<open>A cgroup that is offline or disabled has no deadline.\<close>

definition tier2_idle :: "parp_tier2_memcg \<Rightarrow> bool" where
  "tier2_idle st \<longleftrightarrow> (\<not> m_online st \<or> \<not> m_enabled st \<longrightarrow> m_scheduled_for_ns st = 0)"

definition tier2_ok :: "parp_tier2_memcg \<Rightarrow> bool" where
  "tier2_ok st \<longleftrightarrow> tier2_static st \<and> tier2_idle st"

text \<open>A deadline has a timer: not an invariant, but kept by every sample that makes its own timer call.\<close>

definition tier2_armed :: "parp_tier2_memcg \<Rightarrow> bool" where
  "tier2_armed st \<longleftrightarrow> (m_scheduled_for_ns st \<noteq> 0 \<longrightarrow> m_timer st \<noteq> None)"

lemma timer_apply_simps [simp]:
  "timer_apply Timer_keep st = st"
  "timer_apply (Timer_arm d) st = st \<lparr> m_timer := Some d \<rparr>"
  "timer_apply Timer_cancel st = st \<lparr> m_timer := None \<rparr>"
  by (simp_all add: timer_apply_def)

lemma timer_apply_ok [simp]:
  "tier2_static (st \<lparr> m_timer := t \<rparr>) = tier2_static st" "tier2_idle (st \<lparr> m_timer := t \<rparr>) = tier2_idle st"
  "tier2_ok (timer_apply call st) = tier2_ok st"
  by (cases call; simp add: tier2_ok_def tier2_static_def tier2_idle_def)+

lemma decide_fields:
  fixes y now_ns headroom alloc demote cancel st st' call
  assumes "parp_tier2_decide y now_ns headroom alloc demote cancel st = (call, st')"
  shows "m_online st' = m_online st" "m_enabled st' = m_enabled st"
    "m_ewma_valid st' = m_ewma_valid st" "m_alloc_scale st' = m_alloc_scale st"
    "m_demote_scale st' = m_demote_scale st" "m_limit_bytes st' = m_limit_bytes st"
    "m_alloc_wmark_bytes st' = m_alloc_wmark_bytes st"
    "m_demote_wmark_bytes st' = m_demote_wmark_bytes st"
    "m_ewma_headroom_bytes st' = m_ewma_headroom_bytes st" "m_predicted_ms st' = m_predicted_ms st"
    "m_timer st' = m_timer st"
  using assms unfolding parp_tier2_decide_def Let_def
  by (auto split: option.splits if_splits)

lemma decide_timer:
  fixes y now_ns headroom alloc demote cancel st st' call
  assumes "parp_tier2_decide y now_ns headroom alloc demote cancel st = (call, st')"
    and "m_scheduled_for_ns st \<noteq> 0 \<longrightarrow> \<not> cancel"
  shows "tier2_armed st \<longrightarrow> tier2_armed (timer_apply call st')"
    and "m_scheduled_for_ns st \<noteq> 0 \<longrightarrow> m_scheduled_for_ns st' \<le> m_scheduled_for_ns st"
  using assms unfolding parp_tier2_decide_def Let_def timer_finish_def tier2_armed_def
  by (auto split: option.splits if_splits)

lemma predict_range:
  "parp_tier2_predict_ms p e h d t = Some ms \<Longrightarrow> - 1 \<le> ms \<and> ms \<le> S64_MAX"
  by (auto simp: parp_tier2_predict_ms_def Let_def intro: order.trans [of _ 0] split: if_splits)

lemma decide_ok:
  assumes "parp_tier2_decide y now_ns headroom alloc demote cancel st = (call, st')"
    and "tier2_static st" and "m_online st" "m_enabled st"
  shows "tier2_ok st'"
  using assms(2-4) by (simp add: tier2_ok_def tier2_static_def tier2_idle_def decide_fields [OF assms(1)])

text \<open>
  The state after the head of the sampling routine, and the four ways it goes on.
\<close>

lemma sample_cases:
  assumes "parp_tier2_sample_locked y v st = Some res"
  obtains "res = (Timer_keep, st)"
  | st1 limit headroom alloc demote cancel where
      "m_online st" "m_enabled st"
      "limit = parp_tier2_limit_bytes v"
      "headroom = parp_tier2_headroom limit (parp_tier2_usage_bytes v)"
      "parp_tier2_watermarks limit (m_alloc_scale st) (m_demote_scale st) = (alloc, demote)"
      "cancel = ((m_limit_bytes st \<noteq> 0 \<and> m_limit_bytes st \<noteq> limit) \<and> m_scheduled_for_ns st \<noteq> 0)"
      "st1 = (if m_limit_bytes st \<noteq> 0 \<and> m_limit_bytes st \<noteq> limit
         then st \<lparr> m_ewma_valid := False, m_predicted_ms := - 1, m_scheduled_for_ns := 0 \<rparr>
         else st)
        \<lparr> m_limit_bytes := limit, m_alloc_wmark_bytes := alloc,
          m_demote_wmark_bytes := demote, m_headroom_bytes := headroom \<rparr>"
      "(\<exists>c. res = (timer_finish None c,
          st1 \<lparr> m_ewma_valid := False, m_predicted_ms := - 1, m_scheduled_for_ns := 0 \<rparr>)) \<or>
       (demote \<noteq> 0 \<and> (\<exists>n. res = parp_tier2_decide y (q_now_ns v) headroom alloc demote cancel
          (st1 \<lparr> m_ewma_valid := True, m_previous_ewma_headroom_bytes := headroom,
             m_ewma_headroom_bytes := headroom, m_last_sample_ns := q_now_ns v,
             m_predicted_ms := (if headroom \<le> demote then 0 else - 1), m_samples := n \<rparr>))) \<or>
       res = (timer_finish None cancel, st1) \<or>
       (m_ewma_valid st1 \<and> (\<exists>t n ms. parp_tier2_predict_ms (m_ewma_headroom_bytes st1)
            (parp_tier2_ewma_next (m_ewma_headroom_bytes st1) headroom) headroom demote t = Some ms \<and>
          res = parp_tier2_decide y (q_now_ns v) headroom alloc demote cancel
            (st1 \<lparr> m_previous_ewma_headroom_bytes := m_ewma_headroom_bytes st1,
               m_ewma_headroom_bytes := parp_tier2_ewma_next (m_ewma_headroom_bytes st1) headroom,
               m_last_sample_ns := q_now_ns v, m_predicted_ms := ms, m_samples := n \<rparr>)))"
proof (cases "q_root v \<or> \<not> y_predict_enabled y \<or> \<not> m_enabled st \<or> \<not> m_online st")
  case True
  then show ?thesis using assms that(1) by (simp add: parp_tier2_sample_locked_def)
next
  case False
  define limit where "limit = parp_tier2_limit_bytes v"
  define headroom where "headroom = parp_tier2_headroom limit (parp_tier2_usage_bytes v)"
  obtain alloc demote where w: "parp_tier2_watermarks limit (m_alloc_scale st) (m_demote_scale st) =
      (alloc, demote)" by force
  define changed where "changed = (m_limit_bytes st \<noteq> 0 \<and> m_limit_bytes st \<noteq> limit)"
  define cancel where "cancel = (changed \<and> m_scheduled_for_ns st \<noteq> 0)"
  define st1 where "st1 = (if changed
         then st \<lparr> m_ewma_valid := False, m_predicted_ms := - 1, m_scheduled_for_ns := 0 \<rparr>
         else st)
        \<lparr> m_limit_bytes := limit, m_alloc_wmark_bytes := alloc,
          m_demote_wmark_bytes := demote, m_headroom_bytes := headroom \<rparr>"
  note run = assms [unfolded parp_tier2_sample_locked_def if_not_P [OF False] Let_def,
      folded limit_def, folded headroom_def, unfolded w prod.case, folded changed_def,
      folded cancel_def, folded st1_def]
  note rule = that(2) [OF _ _ limit_def headroom_def w cancel_def [unfolded changed_def]
      st1_def [unfolded changed_def]]
  have on: "m_online st" "m_enabled st" using False by simp_all
  show ?thesis
  proof (rule rule [OF on])
    consider "demote = 0 \<or> headroom = U64_MAX"
      | "\<not> (demote = 0 \<or> headroom = U64_MAX)" "\<not> m_ewma_valid st1"
      | "\<not> (demote = 0 \<or> headroom = U64_MAX)" "\<not> \<not> m_ewma_valid st1"
        "headroom > demote \<and> q_now_ns v - m_last_sample_ns st1 < NSEC_PER_MSEC"
      | "\<not> (demote = 0 \<or> headroom = U64_MAX)" "\<not> \<not> m_ewma_valid st1"
        "\<not> (headroom > demote \<and> q_now_ns v - m_last_sample_ns st1 < NSEC_PER_MSEC)" by blast
    then show "(\<exists>c. res = (timer_finish None c,
          st1 \<lparr> m_ewma_valid := False, m_predicted_ms := - 1, m_scheduled_for_ns := 0 \<rparr>)) \<or>
       (demote \<noteq> 0 \<and> (\<exists>n. res = parp_tier2_decide y (q_now_ns v) headroom alloc demote cancel
          (st1 \<lparr> m_ewma_valid := True, m_previous_ewma_headroom_bytes := headroom,
             m_ewma_headroom_bytes := headroom, m_last_sample_ns := q_now_ns v,
             m_predicted_ms := (if headroom \<le> demote then 0 else - 1), m_samples := n \<rparr>))) \<or>
       res = (timer_finish None cancel, st1) \<or>
       (m_ewma_valid st1 \<and> (\<exists>t n ms. parp_tier2_predict_ms (m_ewma_headroom_bytes st1)
            (parp_tier2_ewma_next (m_ewma_headroom_bytes st1) headroom) headroom demote t = Some ms \<and>
          res = parp_tier2_decide y (q_now_ns v) headroom alloc demote cancel
            (st1 \<lparr> m_previous_ewma_headroom_bytes := m_ewma_headroom_bytes st1,
               m_ewma_headroom_bytes := parp_tier2_ewma_next (m_ewma_headroom_bytes st1) headroom,
               m_last_sample_ns := q_now_ns v, m_predicted_ms := ms, m_samples := n \<rparr>)))"
    proof cases
      case 1
      show ?thesis using run [unfolded if_P [OF 1]] by blast
    next
      case 2
      show ?thesis using run [unfolded if_not_P [OF 2(1)] if_P [OF 2(2)]] 2(1) by blast
    next
      case 3
      show ?thesis using run [unfolded if_not_P [OF 3(1)] if_not_P [OF 3(2)] if_P [OF 3(3)]] by blast
    next
      case 4
      note r = run [unfolded if_not_P [OF 4(1)] if_not_P [OF 4(2)] if_not_P [OF 4(3)]]
      obtain ms where ms: "parp_tier2_predict_ms (m_ewma_headroom_bytes st1)
          (parp_tier2_ewma_next (m_ewma_headroom_bytes st1) headroom) headroom demote
          ((q_now_ns v - m_last_sample_ns st1) div NSEC_PER_MSEC) = Some ms"
        using r by (auto split: option.splits)
      have "res = parp_tier2_decide y (q_now_ns v) headroom alloc demote cancel
          (st1 \<lparr> m_previous_ewma_headroom_bytes := m_ewma_headroom_bytes st1,
             m_ewma_headroom_bytes := parp_tier2_ewma_next (m_ewma_headroom_bytes st1) headroom,
             m_last_sample_ns := q_now_ns v, m_predicted_ms := ms, m_samples := m_samples st1 + 1 \<rparr>)"
        using r [unfolded ms option.case] by simp
      then show ?thesis using ms 4(2) by blast
    qed
  qed
qed

text \<open>
  A sample keeps the invariant, never postpones a deadline unless the limit changed, and, followed by its
  own timer call, keeps a deadline armed.
\<close>

lemma sample_ok:
  assumes ok: "tier2_ok st" and run: "parp_tier2_sample_locked y v st = Some (call, st')"
  shows "tier2_ok st' \<and>
    (m_scheduled_for_ns st \<noteq> 0 \<and> m_limit_bytes st' = m_limit_bytes st \<longrightarrow>
     m_scheduled_for_ns st' \<le> m_scheduled_for_ns st) \<and>
    (tier2_armed st \<longrightarrow> tier2_armed (timer_apply call st'))"
  using run
proof (cases rule: sample_cases)
  case 1
  then show ?thesis using ok by simp
next
  case (2 st1 limit headroom alloc demote cancel)
  have hl: "headroom \<le> limit" using 2(4) headroom_le by simp
  have timer: "m_scheduled_for_ns st1 \<noteq> 0 \<longrightarrow> \<not> cancel" using 2(6,7) by auto
  have armed: "tier2_armed st \<longrightarrow> tier2_armed st1" using 2(7) by (auto simp: tier2_armed_def)
  have on: "m_online st1" "m_enabled st1" and lim: "m_limit_bytes st1 = limit"
    using 2(1,2,7) by auto
  have static: "tier2_static st1"
    using ok watermarks_ordered [OF 2(5)] watermarks_top [OF 2(5) [unfolded 2(3)]] 2(7)
    by (auto simp: tier2_ok_def tier2_static_def)
  have same: "m_scheduled_for_ns st1 = m_scheduled_for_ns st" if "limit = m_limit_bytes st"
    using that 2(7) by auto
  have go: ?thesis
    if d: "parp_tier2_decide y (q_now_ns v) headroom alloc demote cancel s = (call, st')"
      and s: "tier2_static s" "m_online s" "m_enabled s" "m_limit_bytes s = limit"
        "m_scheduled_for_ns s = m_scheduled_for_ns st1" "m_timer s = m_timer st1" for s
  proof -
    have "m_scheduled_for_ns s \<noteq> 0 \<longrightarrow> \<not> cancel" using timer s(5) by simp
    note t = decide_timer [OF d this]
    have "tier2_armed st1 \<longrightarrow> tier2_armed s" using s(5,6) by (simp add: tier2_armed_def)
    then have "tier2_armed st \<longrightarrow> tier2_armed (timer_apply call st')" using t(1) armed by blast
    moreover have "m_scheduled_for_ns st' \<le> m_scheduled_for_ns st"
      if "m_scheduled_for_ns st \<noteq> 0" "m_limit_bytes st' = m_limit_bytes st"
    proof -
      have "m_limit_bytes st = limit" using that(2) decide_fields(6) [OF d] s(4) by simp
      then show ?thesis using same s(5) t(2) that(1) by simp
    qed
    ultimately show ?thesis using decide_ok [OF d s(1-3)] by blast
  qed
  from 2(8) show ?thesis
  proof (elim disjE exE conjE)
    fix c
    assume "(call, st') = (timer_finish None c,
        st1 \<lparr> m_ewma_valid := False, m_predicted_ms := - 1, m_scheduled_for_ns := 0 \<rparr>)"
    then show ?thesis using static on
      by (auto simp: timer_finish_def tier2_ok_def tier2_static_def tier2_idle_def tier2_armed_def)
  next
    fix n
    assume "demote \<noteq> 0"
      and res: "(call, st') = parp_tier2_decide y (q_now_ns v) headroom alloc demote cancel
        (st1 \<lparr> m_ewma_valid := True, m_previous_ewma_headroom_bytes := headroom,
          m_ewma_headroom_bytes := headroom, m_last_sample_ns := q_now_ns v,
          m_predicted_ms := (if headroom \<le> demote then 0 else - 1), m_samples := n \<rparr>)"
    have "limit \<noteq> 0" using watermarks_limit [OF 2(5) \<open>demote \<noteq> 0\<close>] by simp
    then show ?thesis
      by (intro go [OF res [symmetric]]) (use static on lim hl in \<open>auto simp: tier2_static_def\<close>)
  next
    assume "(call, st') = (timer_finish None cancel, st1)"
    then show ?thesis using static on same lim timer armed
      by (auto simp: timer_finish_def tier2_ok_def tier2_idle_def tier2_armed_def)
  next
    fix t n ms
    assume valid: "m_ewma_valid st1" and ms: "parp_tier2_predict_ms (m_ewma_headroom_bytes st1)
        (parp_tier2_ewma_next (m_ewma_headroom_bytes st1) headroom) headroom demote t = Some ms"
      and res: "(call, st') = parp_tier2_decide y (q_now_ns v) headroom alloc demote cancel
        (st1 \<lparr> m_previous_ewma_headroom_bytes := m_ewma_headroom_bytes st1,
          m_ewma_headroom_bytes := parp_tier2_ewma_next (m_ewma_headroom_bytes st1) headroom,
          m_last_sample_ns := q_now_ns v, m_predicted_ms := ms, m_samples := n \<rparr>)"
    have "m_ewma_headroom_bytes st1 \<le> limit" using static valid lim by (simp add: tier2_static_def)
    then have "parp_tier2_ewma_next (m_ewma_headroom_bytes st1) headroom \<le> limit"
      using ewma_between(2) [of "m_ewma_headroom_bytes st1" headroom] hl by (simp add: max_def split: if_splits)
    then show ?thesis
      by (intro go [OF res [symmetric]])
        (use static on lim valid predict_range [OF ms] in \<open>auto simp: tier2_static_def\<close>)
  qed
qed

text \<open>
  The cgroup and the tasks under way: timer calls not yet made, expired work before its locked part,
  work between that and its decision, and reclaims. A sample that a task makes at its end is a sample
  like any other.
\<close>

datatype tier2_task = Task_timer timer_call | Task_work | Task_decide u64 int | Task_reclaim u64

inductive parp_tier2_step ::
  "parp_tier2_memcg \<times> tier2_task multiset \<Rightarrow> parp_tier2_memcg \<times> tier2_task multiset \<Rightarrow> bool" where
  sample: "parp_tier2_sample_locked y v st = Some (call, st') \<Longrightarrow>
    parp_tier2_step (st, tasks) (st', add_mset (Task_timer call) tasks)"
| timer: "parp_tier2_step (st, add_mset (Task_timer call) tasks) (timer_apply call st, tasks)"
| expire: "m_timer st \<noteq> None \<Longrightarrow>
    parp_tier2_step (st, tasks) (st \<lparr> m_timer := None \<rparr>, add_mset Task_work tasks)"
| begin_work: "parp_tier2_work_begin y st = (active, demote, predicted, st') \<Longrightarrow>
    parp_tier2_step (st, add_mset Task_work tasks)
      (st', if active then add_mset (Task_decide demote predicted) tasks else tasks)"
| decide_work: "parp_tier2_work_decide v demote predicted st = (request, st') \<Longrightarrow>
    parp_tier2_step (st, add_mset (Task_decide demote predicted) tasks)
      (st', case request of None \<Rightarrow> tasks | Some nr \<Rightarrow> add_mset (Task_reclaim nr) tasks)"
| end_work: "parp_tier2_step (st, add_mset (Task_reclaim nr) tasks) (parp_tier2_work_done reclaimed st, tasks)"
| online: "parp_tier2_step (st, tasks) (parp_tier2_memcg_online st, tasks)"
| offline: "parp_tier2_step (st, tasks)
    (parp_tier2_offline_locked st, add_mset (Task_timer Timer_cancel) tasks)"
| reset: "parp_tier2_step (st, tasks)
    (parp_tier2_reset_locked st, add_mset (Task_timer Timer_cancel) tasks)"
| destroy: "parp_tier2_step (st, tasks) (st, add_mset (Task_timer Timer_cancel) tasks)"
| enable: "parp_tier2_step (st, tasks) (parp_tier2_enabled_set enabled st,
    if enabled then tasks else add_mset (Task_timer Timer_cancel) tasks)"
| scale: "scale \<le> PARP_TIER2_SCALE_BASE \<Longrightarrow>
    parp_tier2_step (st, tasks) (parp_tier2_scale_set scale demote st, tasks)"

inductive parp_tier2_reach :: "parp_tier2_memcg \<Rightarrow> tier2_task multiset \<Rightarrow> bool" where
  boot: "parp_tier2_reach (parp_tier2_memcg_init parp_tier2_zero) {#}"
| step: "parp_tier2_reach st tasks \<Longrightarrow> parp_tier2_step (st, tasks) (st', tasks') \<Longrightarrow>
    parp_tier2_reach st' tasks'"

text \<open>What a routine does when nothing runs in between is among the steps.\<close>

lemma reach_sample:
  assumes "parp_tier2_reach st tasks" and "parp_tier2_memcg_sample y v st = Some st'"
  shows "parp_tier2_reach st' tasks"
proof -
  obtain call s where s: "parp_tier2_sample_locked y v st = Some (call, s)" "st' = timer_apply call s"
    using assms(2) by (auto simp: parp_tier2_memcg_sample_def)
  show ?thesis unfolding s(2)
    by (rule parp_tier2_reach.step [OF parp_tier2_reach.step [OF assms(1) parp_tier2_step.sample [OF s(1)]]
      parp_tier2_step.timer])
qed

lemma reach_enabled_write:
  assumes "parp_tier2_reach st tasks" and "parp_tier2_enabled_write y v e st = Some (err, st')"
  shows "parp_tier2_reach st' tasks"
proof (cases e)
  case (Inl a)
  then show ?thesis using assms by (simp add: parp_tier2_enabled_write_def)
next
  case (Inr b)
  note set = parp_tier2_reach.step [OF assms(1) parp_tier2_step.enable [of st tasks b]]
  show ?thesis
  proof (cases b)
    case True
    then have "parp_tier2_memcg_sample y v (parp_tier2_enabled_set b st) = Some st'"
      using assms(2) Inr by (auto simp: parp_tier2_enabled_write_def)
    then show ?thesis using reach_sample set True by simp
  next
    case False
    then have "st' = timer_apply Timer_cancel (parp_tier2_enabled_set b st)"
      using assms(2) Inr by (simp add: parp_tier2_enabled_write_def Let_def)
    then show ?thesis
      using parp_tier2_reach.step [OF set [unfolded if_not_P [OF False]] parp_tier2_step.timer] by simp
  qed
qed

lemma sample_memcg_ok:
  assumes "tier2_ok st" and "parp_tier2_memcg_sample y v st = Some st'"
  shows "tier2_ok st'" and "tier2_armed st \<Longrightarrow> tier2_armed st'"
proof -
  obtain call s where s: "parp_tier2_sample_locked y v st = Some (call, s)" "st' = timer_apply call s"
    using assms(2) by (auto simp: parp_tier2_memcg_sample_def)
  show "tier2_ok st'" "tier2_armed st \<Longrightarrow> tier2_armed st'"
    using sample_ok [OF assms(1) s(1)] by (simp_all add: s(2))
qed

lemma request_range:
  "parp_tier2_request v demote predicted ewma = Some nr \<Longrightarrow> 32 \<le> nr \<and> nr \<le> 4096"
  unfolding parp_tier2_request_def Let_def by (auto simp: word_le_nat_alt split: if_splits)

definition tier2_task_ok :: "tier2_task \<Rightarrow> bool" where
  "tier2_task_ok task = (case task of Task_reclaim nr \<Rightarrow> 32 \<le> nr \<and> nr \<le> 4096 | _ \<Rightarrow> True)"

text \<open>The locked parts other than the sample.\<close>

lemma tier2_parts_ok:
  assumes "tier2_ok st"
  shows "parp_tier2_work_begin y st = (active, demote, predicted, st') \<Longrightarrow> tier2_ok st'"
    and "parp_tier2_work_decide v demote predicted st = (request, st') \<Longrightarrow> tier2_ok st'"
    and "tier2_ok (parp_tier2_work_done reclaimed st)" and "tier2_ok (parp_tier2_memcg_online st)"
    and "tier2_ok (parp_tier2_offline_locked st)" and "tier2_ok (parp_tier2_reset_locked st)"
    and "tier2_ok (parp_tier2_enabled_set enabled st)"
    and "sc \<le> PARP_TIER2_SCALE_BASE \<Longrightarrow> tier2_ok (parp_tier2_scale_set sc d st)"
    and "tier2_ok (st \<lparr> m_timer := t \<rparr>)"
  using assms
  by (auto simp: parp_tier2_work_begin_def parp_tier2_work_decide_def parp_tier2_work_done_def
      parp_tier2_memcg_online_def parp_tier2_offline_locked_def parp_tier2_reset_locked_def
      parp_tier2_enabled_set_def parp_tier2_scale_set_def tier2_ok_def tier2_static_def tier2_idle_def
      split: if_splits)

lemma tier2_task_ok_simps [simp]:
  "tier2_task_ok (Task_timer call)" "tier2_task_ok Task_work" "tier2_task_ok (Task_decide demote predicted)"
  "tier2_task_ok (Task_reclaim nr) \<longleftrightarrow> 32 \<le> nr \<and> nr \<le> 4096"
  by (simp_all add: tier2_task_ok_def)

lemma tier2_step_ok:
  assumes "parp_tier2_step (st, tasks) (st', tasks')" and ok: "tier2_ok st" "\<forall>t \<in># tasks. tier2_task_ok t"
  shows "tier2_ok st' \<and> (\<forall>t \<in># tasks'. tier2_task_ok t)"
  using assms(1)
proof (cases rule: parp_tier2_step.cases)
  case (sample y v call)
  then show ?thesis using sample_ok [OF ok(1)] ok(2) by auto
next
  case (begin_work y active demote predicted tasks0)
  then show ?thesis using tier2_parts_ok(1) [OF ok(1)] ok(2) by auto
next
  case (decide_work v demote predicted request tasks0)
  then have "tier2_task_ok (Task_reclaim nr)" if "request = Some nr" for nr
    using that request_range by (auto simp: parp_tier2_work_decide_def split: if_splits)
  then show ?thesis
    using decide_work tier2_parts_ok(2) [OF ok(1)] ok(2) by (auto split: option.splits)
next
  case (timer call)
  then show ?thesis using ok by simp
next
  case (end_work nr reclaimed)
  then show ?thesis using tier2_parts_ok(3) [OF ok(1)] ok(2) by simp
qed (use ok tier2_parts_ok(4-9) [OF ok(1)] in simp_all)

lemma tier2_reach_ok: "parp_tier2_reach st tasks \<Longrightarrow> tier2_ok st \<and> (\<forall>t \<in># tasks. tier2_task_ok t)"
proof (induction rule: parp_tier2_reach.induct)
  case boot
  show ?case by (simp add: parp_tier2_memcg_init_def parp_tier2_zero_def tier2_ok_def
      tier2_static_def tier2_idle_def word_le_nat_alt)
next
  case (step st tasks st' tasks')
  then show ?case using tier2_step_ok by blast
qed

lemma work_result:
  assumes "parp_tier2_predict_work y v reclaimed v' st = Some (nr, st')"
  obtains "nr = None"
    | st1 where "nr \<noteq> None" "m_online st" "m_enabled st" "y_predict_enabled y" "\<not> q_root v"
      "q_css_online v" "parp_tier2_request v (m_demote_wmark_bytes st) (m_predicted_ms st)
        (m_ewma_headroom_bytes st) = nr"
      "tier2_ok st \<longrightarrow> tier2_ok st1" "tier2_armed st1" "parp_tier2_memcg_sample y v' st1 = Some st'"
proof (cases "(m_online st \<and> m_enabled st \<and> y_predict_enabled y) \<and> \<not> q_root v \<and> q_css_online v")
  case False
  then show ?thesis using assms that(1)
    by (auto simp: parp_tier2_predict_work_def parp_tier2_work_begin_def parp_tier2_work_decide_def
        split: if_splits)
next
  case True
  show ?thesis
  proof (cases "parp_tier2_request v (m_demote_wmark_bytes st) (m_predicted_ms st) (m_ewma_headroom_bytes st)")
    case None
    then show ?thesis using assms that(1) True
      by (simp add: parp_tier2_predict_work_def parp_tier2_work_begin_def parp_tier2_work_decide_def)
  next
    case (Some n)
    define st1 where "st1 = parp_tier2_work_done reclaimed
      (st \<lparr> m_timer := None, m_scheduled_for_ns := 0, m_predict_executed := m_predict_executed st + 1 \<rparr>)"
    have "map_option (\<lambda>st3. (Some n, st3)) (parp_tier2_memcg_sample y v' st1) = Some (nr, st')"
      using assms True Some
      by (simp add: parp_tier2_predict_work_def parp_tier2_work_begin_def parp_tier2_work_decide_def st1_def)
    then have r: "nr = Some n" "parp_tier2_memcg_sample y v' st1 = Some st'" by auto
    have "tier2_ok st \<longrightarrow> tier2_ok st1" "tier2_armed st1"
      by (simp_all add: st1_def parp_tier2_work_done_def tier2_ok_def tier2_static_def tier2_idle_def
          tier2_armed_def)
    then show ?thesis using that(2) True Some r by blast
  qed
qed



definition tier2_sample_sysctl :: parp_tier2_sysctl where
  "tier2_sample_sysctl = \<lparr> y_predict_enabled = True, y_predict_latency_ms = 100,
     y_predict_horizon_ratio = 3 \<rparr>"

text \<open>A cgroup of 1000 pages with 999 in use.\<close>

definition tier2_sample_view :: "u64 \<Rightarrow> memcg_view" where
  "tier2_sample_view now_ns = \<lparr> q_root = False, q_css_online = True, q_max_pages = 1000,
     q_usage_pages = 999, q_now_ns = now_ns \<rparr>"

definition tier2_sample_state :: parp_tier2_memcg where
  "tier2_sample_state = (parp_tier2_memcg_init parp_tier2_zero) \<lparr> m_enabled := True,
     m_ewma_valid := True, m_limit_bytes := 4096000, m_alloc_wmark_bytes := 40960,
     m_demote_wmark_bytes := 122880, m_headroom_bytes := 4096, m_ewma_headroom_bytes := 4096,
     m_previous_ewma_headroom_bytes := 4096, m_last_sample_ns := 5000000,
     m_scheduled_for_ns := 6000000, m_predicted_ms := 0, m_samples := 1, m_below_alloc := 1,
     m_below_demote := 1, m_predict_scheduled := 1, m_timer := Some 1 \<rparr>"

lemma tier2_sample_values:
  "parp_tier2_limit_bytes (tier2_sample_view now_ns) = 4096000"
  "parp_tier2_headroom 4096000 (parp_tier2_usage_bytes (tier2_sample_view now_ns)) = 4096"
  "parp_tier2_watermarks 4096000 100 300 = (40960, 122880)"
  by (simp_all add: parp_tier2_limit_bytes_def parp_tier2_usage_bytes_def parp_tier2_headroom_def
      parp_tier2_watermarks_def parp_tier2_scaled_wmark_def mul_u64_u32_div_def
      mul_u64_u64_div_u64_def tier2_sample_view_def push_bit_eq_mult)

lemma tier2_sample_enabled:
  "parp_tier2_enabled_write tier2_sample_sysctl (tier2_sample_view 5000000) (Inr True)
     (parp_tier2_memcg_init parp_tier2_zero) = Some (None, tier2_sample_state)"
proof -
  have sc: "m_alloc_scale (parp_tier2_memcg_init parp_tier2_zero) = 100"
    "m_demote_scale (parp_tier2_memcg_init parp_tier2_zero) = 300"
    by (simp_all add: parp_tier2_memcg_init_def)
  have q: "\<not> q_root (tier2_sample_view 5000000)" "q_now_ns (tier2_sample_view 5000000) = 5000000"
    "y_predict_enabled tier2_sample_sysctl"
    by (simp_all add: tier2_sample_view_def tier2_sample_sysctl_def)
  show ?thesis
    by (simp add: parp_tier2_enabled_write_def parp_tier2_enabled_set_def parp_tier2_memcg_sample_def
        parp_tier2_sample_locked_def tier2_sample_values sc q
        parp_tier2_decide_def parp_tier2_delay_def timer_finish_def tier2_sample_state_def Let_def
        parp_tier2_memcg_init_def parp_tier2_zero_def)
qed

lemma tier2_sample_reach: "parp_tier2_reach tier2_sample_state {#}"
  by (rule reach_enabled_write [OF parp_tier2_reach.boot tier2_sample_enabled])

lemma tier2_sample_defined:
  assumes "m_alloc_scale st = 100" and "m_demote_scale st = 300"
  shows "\<exists>call st'. parp_tier2_sample_locked tier2_sample_sysctl (tier2_sample_view now_ns) st = Some (call, st')"
    and "\<exists>st'. parp_tier2_memcg_sample tier2_sample_sysctl (tier2_sample_view now_ns) st = Some st'"
proof -
  show "\<exists>call st'. parp_tier2_sample_locked tier2_sample_sysctl (tier2_sample_view now_ns) st = Some (call, st')"
    by (simp add: parp_tier2_sample_locked_def tier2_sample_values assms Let_def parp_tier2_predict_ms_def)
  then show "\<exists>st'. parp_tier2_memcg_sample tier2_sample_sysctl (tier2_sample_view now_ns) st = Some st'"
    by (auto simp: parp_tier2_memcg_sample_def)
qed

lemma tier2_sample_state_scales:
  "m_alloc_scale tier2_sample_state = 100" "m_demote_scale tier2_sample_state = 300"
  by (simp_all add: tier2_sample_state_def parp_tier2_memcg_init_def)


section \<open>The race of the timer calls\<close>

text \<open>
  Why \<open>parp_tier2_reachable_ok\<close> does not say that a deadline has a timer. After the deadline of the
  sample cgroup was set, one sample finds the headroom recovered and withdraws it, a second finds it low
  again and sets a new one; the second makes its timer call first. Nothing is then under way, the cgroup
  has a deadline and no timer, and a later sample at low headroom arms none, since the deadline is past.
\<close>

definition tier2_raced :: parp_tier2_memcg where
  "tier2_raced = tier2_sample_state \<lparr> m_ewma_headroom_bytes := 243856,
     m_previous_ewma_headroom_bytes := 259840, m_last_sample_ns := 8000000, m_scheduled_for_ns := 9000000,
     m_samples := 3, m_below_alloc := 2, m_below_demote := 2, m_predict_scheduled := 2,
     m_predict_cancelled := 1, m_timer := None \<rparr>"

lemmas race_defs = parp_tier2_sample_locked_def tier2_sample_view_def tier2_sample_sysctl_def
  tier2_sample_state_def tier2_raced_def parp_tier2_memcg_init_def parp_tier2_zero_def
  parp_tier2_limit_bytes_def parp_tier2_usage_bytes_def parp_tier2_headroom_def parp_tier2_watermarks_def
  parp_tier2_scaled_wmark_def mul_u64_u32_div_def mul_u64_u64_div_u64_def push_bit_eq_mult
  parp_tier2_decide_def parp_tier2_delay_def timer_finish_def parp_tier2_predict_ms_def
  parp_tier2_ewma_next_def drop_bit_eq_div Let_def

lemma raced_recovers:
  "parp_tier2_sample_locked tier2_sample_sysctl (tier2_sample_view 7000000 \<lparr> q_usage_pages := 0 \<rparr>)
     tier2_sample_state = Some (Timer_cancel, tier2_raced \<lparr> m_headroom_bytes := 4096000,
       m_ewma_headroom_bytes := 259840, m_previous_ewma_headroom_bytes := 4096,
       m_last_sample_ns := 7000000, m_scheduled_for_ns := 0, m_predicted_ms := - 1, m_samples := 2,
       m_below_alloc := 1, m_below_demote := 1, m_predict_scheduled := 1, m_timer := Some 1 \<rparr>)"
  by (simp add: race_defs)

lemma raced_falls:
  "parp_tier2_sample_locked tier2_sample_sysctl (tier2_sample_view 8000000)
     (tier2_raced \<lparr> m_headroom_bytes := 4096000,
       m_ewma_headroom_bytes := 259840, m_previous_ewma_headroom_bytes := 4096,
       m_last_sample_ns := 7000000, m_scheduled_for_ns := 0, m_predicted_ms := - 1, m_samples := 2,
       m_below_alloc := 1, m_below_demote := 1, m_predict_scheduled := 1, m_timer := Some 1 \<rparr>) =
     Some (Timer_arm 1, tier2_raced \<lparr> m_timer := Some 1 \<rparr>)"
  by (simp add: race_defs)

text \<open>The deadline of \<open>tier2_raced\<close> is 9 ms: a sample at low headroom from 8 ms on asks for no timer.\<close>

lemma raced_stays:
  "\<exists>st'. parp_tier2_sample_locked tier2_sample_sysctl (tier2_sample_view (8000000 + ucast (n :: 32 word)))
     tier2_raced = Some (Timer_keep, st') \<and> m_scheduled_for_ns st' = m_scheduled_for_ns tier2_raced"
proof -
  have n: "unat n < 2 ^ 32" using unsigned_less [of n] by simp
  have "unat (8000000 + ucast n + 1000000 :: u64) = 9000000 + unat n"
    using n by (simp add: unat_word_ariths unsigned_ucast_eq take_bit_nat_eq_self)
  then have late: "\<not> (8000000 + ucast n + 1000000 :: u64) < 9000000" by (simp add: word_less_nat_alt)
  have q: "\<not> q_root (tier2_sample_view t)" "q_now_ns (tier2_sample_view t) = t"
    "y_predict_enabled tier2_sample_sysctl" for t
    by (simp_all add: tier2_sample_view_def tier2_sample_sysctl_def)
  show ?thesis using late
    by (simp add: parp_tier2_sample_locked_def tier2_sample_values q Let_def parp_tier2_predict_ms_def
        parp_tier2_decide_def parp_tier2_delay_def timer_finish_def tier2_raced_def tier2_sample_state_def
        parp_tier2_memcg_init_def parp_tier2_zero_def)
qed

text \<open>
  Nothing is under way, a deadline stands and no timer is armed; and the same race with the offline hook
  leaves an offline cgroup with an armed timer.
\<close>

lemma parp_tier2_timer_race:
  "parp_tier2_reach tier2_raced {#} \<and> m_online tier2_raced \<and> m_enabled tier2_raced \<and>
   m_scheduled_for_ns tier2_raced = 9000000 \<and> m_timer tier2_raced = None"
  "\<exists>st. parp_tier2_reach st {#} \<and> \<not> m_online st \<and> m_timer st \<noteq> None"
proof -
  note step = parp_tier2_reach.step
  note s1 = step [OF tier2_sample_reach parp_tier2_step.sample [OF raced_recovers]]
  note s2 = step [OF s1 parp_tier2_step.sample [OF raced_falls]]
  note s3 = step [OF s2 parp_tier2_step.timer]
  have "parp_tier2_reach (tier2_raced \<lparr> m_timer := Some 1 \<rparr>) {#Task_timer Timer_cancel#}"
    using s3 by simp
  note s4 = step [OF this parp_tier2_step.timer]
  have "tier2_raced \<lparr> m_timer := None \<rparr> = tier2_raced" by (simp add: tier2_raced_def)
  then have "parp_tier2_reach tier2_raced {#}" using s4 by simp
  then show "parp_tier2_reach tier2_raced {#} \<and> m_online tier2_raced \<and> m_enabled tier2_raced \<and>
      m_scheduled_for_ns tier2_raced = 9000000 \<and> m_timer tier2_raced = None"
    by (simp add: tier2_raced_def tier2_sample_state_def parp_tier2_memcg_init_def)
  let ?set = "parp_tier2_enabled_set True (parp_tier2_memcg_init parp_tier2_zero)"
  have run: "parp_tier2_sample_locked tier2_sample_sysctl (tier2_sample_view 5000000) ?set =
      Some (Timer_arm 1, tier2_sample_state \<lparr> m_timer := None \<rparr>)"
    by (simp add: race_defs parp_tier2_enabled_set_def)
  note t1 = step [OF step [OF parp_tier2_reach.boot parp_tier2_step.enable] parp_tier2_step.sample [OF run]]
  note t2 = step [OF t1 parp_tier2_step.offline]
  note t3 = step [OF t2 parp_tier2_step.timer]
  let ?st = "parp_tier2_offline_locked (tier2_sample_state \<lparr> m_timer := None \<rparr>)"
  have "parp_tier2_reach (timer_apply Timer_cancel ?st) {#Task_timer (Timer_arm 1)#}"
    using t3 by simp
  note t4 = step [OF this parp_tier2_step.timer]
  then show "\<exists>st. parp_tier2_reach st {#} \<and> \<not> m_online st \<and> m_timer st \<noteq> None"
    by (intro exI [of _ "timer_apply (Timer_arm 1) (timer_apply Timer_cancel ?st)"])
      (simp add: parp_tier2_offline_locked_def)
qed

section \<open>Reclaim\<close>

lemma request_exact:
  assumes "parp_tier2_request v demote predicted ewma = Some nr"
    and "headroom = parp_tier2_headroom (parp_tier2_limit_bytes v) (parp_tier2_usage_bytes v)"
    and top: "demote \<le> 0xFFFFFFFFFFFFF000"
  shows "demote \<noteq> 0" and "headroom \<le> demote \<or> 0 \<le> predicted \<and> headroom \<le> ewma"
    and "32 \<le> nr" and "nr \<le> 4096"
    and "min (unat demote - unat headroom) (4096 * 4096) \<le> unat nr * 4096"
proof -
  define gap where "gap = (if headroom < demote then demote - headroom else 0)"
  define n where "n = (if gap \<noteq> 0 then (gap + PAGE_SIZE - 1) div PAGE_SIZE else SWAP_CLUSTER_MAX)"
  have base: "demote \<noteq> 0" "headroom \<noteq> U64_MAX" "\<not> (headroom > demote \<and> (predicted < 0 \<or> headroom > ewma))"
    and nr: "nr = (if n \<le> SWAP_CLUSTER_MAX then SWAP_CLUSTER_MAX
                       else if n \<ge> PARP_TIER2_MAX_RECLAIM_PAGES then PARP_TIER2_MAX_RECLAIM_PAGES
                       else n)"
    using assms(1) unfolding parp_tier2_request_def Let_def assms(2) [symmetric] gap_def n_def
    by (auto split: if_splits)
  show "demote \<noteq> 0" by (rule base(1))
  show "headroom \<le> demote \<or> 0 \<le> predicted \<and> headroom \<le> ewma" using base(3) by (auto simp: not_less)
  show "32 \<le> nr" "nr \<le> 4096" unfolding nr by (auto simp: word_le_nat_alt)
  show "min (unat demote - unat headroom) (4096 * 4096) \<le> unat nr * 4096"
  proof (cases "headroom < demote")
    case True
    then have gap: "unat gap = unat demote - unat headroom" "gap \<noteq> 0"
      by (auto simp: gap_def unat_sub less_imp_le word_less_nat_alt)
    have small: "unat gap \<le> 0xFFFFFFFFFFFFF000" using top gap(1) by (simp add: word_le_nat_alt)
    then have "unat (gap + PAGE_SIZE - 1) = unat gap + 4095"
      by (simp add: unat_word_ariths)
    then have "unat n = (unat gap + 4095) div 4096" using gap(2) by (simp add: n_def unat_div)
    then have "unat gap \<le> unat n * 4096" by linarith
    then have "min (unat gap) (4096 * 4096) \<le> unat nr * 4096"
      unfolding nr by (auto simp: word_le_nat_alt not_le)
    then show ?thesis by (simp only: gap(1))
  next
    case False
    then have "unat demote - unat headroom = 0" by (simp add: word_less_nat_alt)
    then show ?thesis by simp
  qed
qed

text \<open>C23. The delayed work reclaims only on behalf of an online, enabled, non-root cgroup with a
  demotion watermark, and only when the headroom has reached that watermark or is still falling
  towards it (a prediction stands and the headroom has not recovered above its average). It then asks
  for 32 to 4096 pages, enough to restore the watermark as far as 4096 pages can, and leaves a
  consistent state.\<close>

theorem parp_tier2_reclaim_only_when_needed:
  assumes "parp_tier2_reach st tasks"
    and "parp_tier2_predict_work y v reclaimed v' st = Some (Some nr, st')"
    and "headroom = parp_tier2_headroom (parp_tier2_limit_bytes v) (parp_tier2_usage_bytes v)"
  shows "m_online st \<and> m_enabled st \<and> y_predict_enabled y \<and> \<not> q_root v \<and> q_css_online v \<and>
         m_demote_wmark_bytes st \<noteq> 0 \<and>
         (headroom \<le> m_demote_wmark_bytes st \<or>
          0 \<le> m_predicted_ms st \<and> headroom \<le> m_ewma_headroom_bytes st) \<and>
         32 \<le> nr \<and> nr \<le> 4096 \<and>
         min (unat (m_demote_wmark_bytes st) - unat headroom) (4096 * 4096) \<le> unat nr * 4096 \<and>
         (m_scheduled_for_ns st' \<noteq> 0 \<longrightarrow> m_timer st' \<noteq> None)"
proof -
  note ok = tier2_reach_ok [OF assms(1), THEN conjunct1]
  have top: "m_demote_wmark_bytes st \<le> 0xFFFFFFFFFFFFF000"
    using ok by (simp add: tier2_ok_def tier2_static_def)
  from assms(2) show ?thesis
  proof (cases rule: work_result)
    case (2 st1)
    note req = request_exact [OF 2(7) assms(3) top]
    have "tier2_armed st'" using sample_memcg_ok(2) [OF _ 2(10) 2(9)] 2(8) ok by blast
    then show ?thesis using 2 req by (simp add: tier2_armed_def)
  qed simp
qed

text \<open>Witness of C23: the recorded deadline of the sample cgroup expires.\<close>

theorem parp_tier2_reclaim_only_when_needed_witness:
  "\<exists>nr st'. parp_tier2_predict_work tier2_sample_sysctl (tier2_sample_view 6000000) 32
       (tier2_sample_view 7000000) tier2_sample_state = Some (Some nr, st') \<and> 32 \<le> nr \<and>
     m_enabled tier2_sample_state"
proof -
  define st1 where "st1 = tier2_sample_state \<lparr> m_timer := None, m_scheduled_for_ns := 0,
      m_predict_executed := 1, m_reclaim_invocations := 1, m_reclaim_pages := 32 \<rparr>"
  have "m_alloc_scale st1 = 100" "m_demote_scale st1 = 300"
    by (simp_all add: st1_def tier2_sample_state_scales)
  then obtain st' where "parp_tier2_memcg_sample tier2_sample_sysctl (tier2_sample_view 7000000) st1 =
      Some st'" using tier2_sample_defined by blast
  moreover have "parp_tier2_request (tier2_sample_view 6000000) 122880 0 4096 = Some 32"
    by (simp add: parp_tier2_request_def tier2_sample_values)
  ultimately have run: "parp_tier2_predict_work tier2_sample_sysctl (tier2_sample_view 6000000) 32
      (tier2_sample_view 7000000) tier2_sample_state = Some (Some 32, st')"
    by (simp add: parp_tier2_predict_work_def parp_tier2_work_begin_def parp_tier2_work_decide_def
        parp_tier2_work_done_def Let_def st1_def tier2_sample_state_def
        parp_tier2_memcg_init_def parp_tier2_zero_def tier2_sample_view_def tier2_sample_sysctl_def)
  then show ?thesis
    using parp_tier2_reclaim_only_when_needed [OF tier2_sample_reach run refl] by blast
qed

end
