(* ===== verification/Frontier_Score.thy ===== *)
theory Frontier_Score
  imports App_Snapshot Tier_Score
begin

text \<open>
  The frontier scorer of \<open>mm/parp/core/frontier_score.c\<close>: quantized per-application models, the
  choice of the reclaim frontier (the oldest generation whose expected yield covers the demand), the
  batch, application and epoch budgets of a shadow promotion, the per-page access history in
  \<open>struct parp_folio_ext\<close>, and the reclaim-efficiency feedback. The per-lruvec state is the
  \<open>parp_frontier\<close> member of \<open>struct lru_gen_folio\<close> (\<open>include/linux/mmzone.h\<close>).

  One lruvec is modelled with the file-scope state of the module. The native generation numbers and
  page counts of the lruvec are inputs that native MGLRU changes at will. The atomic operations of a
  page extension and of the counters are single steps; the retry loop that keeps the longest scoring
  time is modelled attempt by attempt, with the other CPUs' stores between the attempts.
\<close>

section \<open>Data\<close>

datatype parp_frontier_mode = PARP_FRONTIER_OFF | PARP_FRONTIER_SHADOW | PARP_FRONTIER_APPLY

datatype parp_frontier_reason = PARP_FRONTIER_SCORE | PARP_FRONTIER_DISABLED
  | PARP_FRONTIER_NOT_TARGET_MEMCG | PARP_FRONTIER_PRESSURE_BYPASS | PARP_FRONTIER_NO_APP_CONTEXT
  | PARP_FRONTIER_NO_EFFICIENCY | PARP_FRONTIER_NO_DEMAND | PARP_FRONTIER_NO_CAPACITY
  | PARP_FRONTIER_NOT_FRONTIER | PARP_FRONTIER_METADATA_MISSING | PARP_FRONTIER_MODEL_INVALID
  | PARP_FRONTIER_BELOW_THRESHOLD | PARP_FRONTIER_BUDGET | PARP_FRONTIER_REPEAT_EPOCH
  | PARP_FRONTIER_EXPIRED

record parp_frontier_scan_ctx =
  fc_valid :: bool
  fc_type :: bool
  fc_mode :: parp_frontier_mode
  fc_reason :: parp_frontier_reason
  fc_model_version :: u32
  fc_threshold :: u32
  fc_efficiency_q15 :: u32
  fc_app_reentry_q15 :: u32
  fc_app_id :: u32
  fc_nid :: u32
  fc_source_generation :: u32
  fc_domain_id :: u64
  fc_epoch_id :: u64
  fc_batch_id :: u64
  fc_foreground_epoch_id :: u64
  fc_valid_until_ns :: u64
  fc_source_seq :: u64
  fc_frontier_seq :: u64
  fc_remaining_demand :: u64
  fc_frontier_headroom :: u64
  fc_app_budget :: u64
  fc_batch_budget :: u64
  fc_epoch_budget :: u64
  fc_batch_used :: u64
  fc_app_used :: u64

text \<open>\<open>memset (ctx, 0, sizeof (*ctx))\<close>.\<close>

definition frontier_ctx_zero :: parp_frontier_scan_ctx where
  "frontier_ctx_zero = \<lparr> fc_valid = False, fc_type = False, fc_mode = PARP_FRONTIER_OFF,
     fc_reason = PARP_FRONTIER_SCORE, fc_model_version = 0, fc_threshold = 0,
     fc_efficiency_q15 = 0, fc_app_reentry_q15 = 0, fc_app_id = 0, fc_nid = 0,
     fc_source_generation = 0, fc_domain_id = 0, fc_epoch_id = 0, fc_batch_id = 0,
     fc_foreground_epoch_id = 0, fc_valid_until_ns = 0, fc_source_seq = 0, fc_frontier_seq = 0,
     fc_remaining_demand = 0, fc_frontier_headroom = 0, fc_app_budget = 0, fc_batch_budget = 0,
     fc_epoch_budget = 0, fc_batch_used = 0, fc_app_used = 0 \<rparr>"

record parp_frontier_state =
  fs_epoch_id :: u64
  fs_foreground_epoch_id :: u64
  fs_valid_until_ns :: u64
  fs_source_seq :: u64
  fs_frontier_seq :: u64
  fs_frontier_headroom :: u64
  fs_epoch_pages :: u64
  fs_model_version :: u32
  fs_efficiency_q15 :: u32
  fs_efficiency_samples :: u32

definition frontier_state_zero :: parp_frontier_state where
  "frontier_state_zero = \<lparr> fs_epoch_id = 0, fs_foreground_epoch_id = 0, fs_valid_until_ns = 0,
     fs_source_seq = 0, fs_frontier_seq = 0, fs_frontier_headroom = 0, fs_epoch_pages = 0,
     fs_model_version = 0, fs_efficiency_q15 = 0, fs_efficiency_samples = 0 \<rparr>"

text \<open>
  The lruvec: \<open>max_seq\<close>, \<open>min_seq [type]\<close>, \<open>nr_pages [gen] [type] [zone]\<close> (a signed long that may
  be transiently negative) and \<open>parp_frontier [type]\<close>.
\<close>

record parp_frontier_lrugen =
  fl_max_seq :: u64
  fl_min_seq :: "bool \<Rightarrow> u64"
  fl_nr_pages :: "u64 \<Rightarrow> bool \<Rightarrow> nat \<Rightarrow> int"
  fl_frontier :: "bool \<Rightarrow> parp_frontier_state"

text \<open>The access history of a page. \<open>atomic_t\<close> members are \<open>s32\<close>, the time stamps are read as \<open>u64\<close>.\<close>

record parp_folio_ext =
  fx_last_access_ns :: u64
  fx_generation_enter_ns :: u64
  fx_last_selected_epoch :: u64
  fx_previous_interval_ms :: int
  fx_access_ema_q8 :: int
  fx_reuse_interval_ema_ms :: int
  fx_inactive_count :: int
  fx_generation :: int

definition folio_ext_zero :: parp_folio_ext where
  "folio_ext_zero = \<lparr> fx_last_access_ns = 0, fx_generation_enter_ns = 0,
     fx_last_selected_epoch = 0, fx_previous_interval_ms = 0, fx_access_ema_q8 = 0,
     fx_reuse_interval_ema_ms = 0, fx_inactive_count = 0, fx_generation = 0 \<rparr>"

record parp_frontier_model =
  fm_app_id :: u32
  fm_model_version :: u32
  fm_feature_schema_version :: u32
  fm_threshold :: int
  fm_bin_edges :: "int list list"
  fm_weights :: "int list list"

record parp_frontier_stats =
  ft_prepare :: u64
  ft_candidates :: u64
  ft_scores :: u64
  ft_would_promote :: u64
  ft_would_promote_pages :: u64
  ft_applied :: u64
  ft_actual_promote_pages :: u64
  ft_native_bypass_pages :: u64
  ft_budget_bypass_pages :: u64
  ft_frontier_bypass_pages :: u64
  ft_invalid_model_pages :: u64
  ft_metadata_missing :: u64
  ft_no_context :: u64
  ft_no_efficiency :: u64
  ft_no_capacity :: u64
  ft_not_frontier :: u64
  ft_below_threshold :: u64
  ft_budget_reject :: u64
  ft_repeat_epoch :: u64
  ft_pressure_bypass :: u64
  ft_expired :: u64
  ft_feedback_samples :: u64
  ft_trace_events :: u64
  ft_score_time_ns_total :: u64
  ft_score_time_ns_max :: u64

definition frontier_stats_zero :: parp_frontier_stats where
  "frontier_stats_zero = \<lparr> ft_prepare = 0, ft_candidates = 0, ft_scores = 0, ft_would_promote = 0,
     ft_would_promote_pages = 0, ft_applied = 0, ft_actual_promote_pages = 0,
     ft_native_bypass_pages = 0, ft_budget_bypass_pages = 0, ft_frontier_bypass_pages = 0,
     ft_invalid_model_pages = 0, ft_metadata_missing = 0, ft_no_context = 0, ft_no_efficiency = 0,
     ft_no_capacity = 0, ft_not_frontier = 0, ft_below_threshold = 0, ft_budget_reject = 0,
     ft_repeat_epoch = 0, ft_pressure_bypass = 0, ft_expired = 0, ft_feedback_samples = 0,
     ft_trace_events = 0, ft_score_time_ns_total = 0, ft_score_time_ns_max = 0 \<rparr>"

text \<open>The file-scope state, and the one lruvec that is modelled.\<close>

record parp_frontier_world =
  fw_mode :: parp_frontier_mode
  fw_enabled :: bool
  fw_batch_id :: u64
  fw_stats :: parp_frontier_stats
  fw_lru :: parp_frontier_lrugen

abbreviation PARP_FRONTIER_Q15_ONE :: u32 where "PARP_FRONTIER_Q15_ONE \<equiv> 32767"
abbreviation PARP_FRONTIER_BATCH_PAGES :: u64 where "PARP_FRONTIER_BATCH_PAGES \<equiv> 128"
abbreviation PARP_FRONTIER_EPOCH_PAGES :: u64 where "PARP_FRONTIER_EPOCH_PAGES \<equiv> 512"
abbreviation PARP_FRONTIER_PRESSURE_PRIORITY :: int where "PARP_FRONTIER_PRESSURE_PRIORITY \<equiv> 2"
abbreviation PARP_FRONTIER_TTL_NS :: u64 where "PARP_FRONTIER_TTL_NS \<equiv> 50000000"
abbreviation PARP_FRONTIER_MODEL_VERSION :: u32 where "PARP_FRONTIER_MODEL_VERSION \<equiv> 1"
abbreviation PARP_FRONTIER_SCHEMA_VERSION :: u32 where "PARP_FRONTIER_SCHEMA_VERSION \<equiv> 1"
abbreviation PARP_FRONTIER_FEATURES :: nat where "PARP_FRONTIER_FEATURES \<equiv> 8"
abbreviation PARP_FRONTIER_BINS :: nat where "PARP_FRONTIER_BINS \<equiv> 6"


section \<open>The models and the score\<close>

definition PARP_COMMON_EDGES :: "int list list" where
  "PARP_COMMON_EDGES =
     [[10, 100, 500, 2000, 10000],
      [10, 100, 500, 2000, 10000],
      [8, 32, 96, 160, 224],
      [10, 100, 500, 2000, 10000],
      [0, 1, 2, 4, 8],
      [0, 1, 2, 3, 5],
      [10, 100, 500, 2000, 10000],
      [4096, 8192, 16384, 24576, 30000]]"

definition frontier_model_of :: "u32 \<Rightarrow> int \<Rightarrow> int list list \<Rightarrow> parp_frontier_model" where
  "frontier_model_of app_id threshold w =
     \<lparr> fm_app_id = app_id, fm_model_version = PARP_FRONTIER_MODEL_VERSION,
       fm_feature_schema_version = PARP_FRONTIER_SCHEMA_VERSION, fm_threshold = threshold,
       fm_bin_edges = PARP_COMMON_EDGES, fm_weights = w \<rparr>"

definition parp_frontier_models :: "parp_frontier_model list" where
  "parp_frontier_models =
     [frontier_model_of 0 96
        [[38, 29, 18, 7, -9, -21],
         [24, 18, 11, 3, -8, -17],
         [-18, -7, 3, 15, 26, 37],
         [22, 16, 9, 1, -9, -19],
         [22, 13, 5, -5, -15, -25],
         [19, 11, 3, -5, -14, -23],
         [17, 11, 5, -2, -10, -19],
         [-22, -13, -4, 8, 21, 34]],
      frontier_model_of 1 94
        [[42, 32, 20, 8, -8, -22],
         [26, 20, 12, 4, -8, -18],
         [-20, -8, 4, 16, 28, 40],
         [24, 18, 10, 2, -8, -18],
         [24, 14, 6, -4, -14, -26],
         [20, 12, 4, -4, -12, -20],
         [18, 12, 6, 0, -8, -16],
         [-24, -14, -4, 8, 20, 32]],
      frontier_model_of 2 100
        [[36, 28, 18, 8, -6, -18],
         [20, 16, 10, 4, -6, -14],
         [-16, -6, 4, 14, 24, 34],
         [18, 14, 8, 2, -8, -16],
         [20, 12, 4, -4, -12, -22],
         [18, 10, 2, -6, -14, -22],
         [16, 10, 4, -2, -10, -18],
         [-30, -18, -6, 10, 26, 42]],
      frontier_model_of 3 88
        [[46, 34, 20, 6, -12, -28],
         [30, 22, 12, 2, -10, -22],
         [-22, -10, 2, 16, 30, 44],
         [28, 20, 10, 0, -12, -24],
         [26, 16, 6, -6, -18, -30],
         [22, 12, 2, -8, -18, -28],
         [20, 12, 4, -4, -14, -24],
         [-18, -10, -2, 6, 16, 26]]]"

text \<open>The four RCU pointers are set at compile time and never replaced.\<close>

definition parp_frontier_model_for :: "u32 \<Rightarrow> parp_frontier_model" where
  "parp_frontier_model_for app_id =
     parp_frontier_models ! (if app_id > 3 then 0 else unat app_id)"

definition parp_frontier_model_valid :: "parp_frontier_model \<Rightarrow> bool" where
  "parp_frontier_model_valid m \<longleftrightarrow> fm_model_version m = PARP_FRONTIER_MODEL_VERSION \<and>
     fm_feature_schema_version m = PARP_FRONTIER_SCHEMA_VERSION"

text \<open>The binning loop is the one of the effective-tier score, \<open>parp_tier_bin\<close>.\<close>

definition parp_frontier_score :: "parp_frontier_model \<Rightarrow> int list \<Rightarrow> int" where
  "parp_frontier_score m values =
     foldl (\<lambda>score f. score + fm_weights m ! f ! parp_tier_bin (fm_bin_edges m ! f) (values ! f))
       0 [0..<PARP_FRONTIER_FEATURES]"

text \<open>The score, and what is stored through \<open>threshold\<close> (\<open>None\<close>: nothing).\<close>

definition parp_frontier_score_values :: "u32 \<Rightarrow> int list \<Rightarrow> int \<times> int option" where
  "parp_frontier_score_values app_id values =
     (let m = parp_frontier_model_for app_id
      in if parp_frontier_model_valid m then (parp_frontier_score m values, Some (fm_threshold m))
         else (S32_MIN, None))"

section \<open>Capacity and budgets\<close>

definition parp_effective_pages :: "u64 \<Rightarrow> u32 \<Rightarrow> u64" where
  "parp_effective_pages pages eta_q15 =
     min (mul_u64_u32_div pages eta_q15 PARP_FRONTIER_Q15_ONE) U64_MAX"

fun frontier_scan :: "u64 list \<Rightarrow> u64 \<Rightarrow> u32 \<Rightarrow> nat \<Rightarrow> u64 \<Rightarrow> (nat \<times> u64) option" where
  "frontier_scan [] demand eta_q15 i cumulative = None"
| "frontier_scan (c # cs) demand eta_q15 i cumulative =
     (let effective = parp_effective_pages c eta_q15;
          remaining = demand - min demand cumulative
      in if effective \<ge> remaining then Some (i, effective - remaining)
         else frontier_scan cs demand eta_q15 (Suc i)
                (cumulative + min effective (U64_MAX - cumulative)))"

text \<open>The frontier index and the headroom; \<open>None\<close> is the return value false.\<close>

definition parp_frontier_select :: "u64 list \<Rightarrow> u64 \<Rightarrow> u32 \<Rightarrow> (nat \<times> u64) option" where
  "parp_frontier_select capacities demand eta_q15 =
     (if demand = 0 \<or> eta_q15 = 0 \<or> eta_q15 > PARP_FRONTIER_Q15_ONE then None
      else frontier_scan capacities demand eta_q15 0 0)"

definition parp_frontier_budget_min :: "u64 \<Rightarrow> u64 \<Rightarrow> u64 \<Rightarrow> u64 \<Rightarrow> u64" where
  "parp_frontier_budget_min headroom app_remaining batch_remaining epoch_remaining =
     min (min headroom app_remaining) (min batch_remaining epoch_remaining)"

definition parp_frontier_context_valid :: "u64 \<Rightarrow> u64 \<Rightarrow> u64 \<Rightarrow> u64 \<Rightarrow> bool" where
  "parp_frontier_context_valid now_ns valid_until_ns source_seq expected_source_seq \<longleftrightarrow>
     valid_until_ns \<noteq> 0 \<and> now_ns < valid_until_ns \<and> source_seq = expected_source_seq"

definition lru_gen_from_seq :: "u64 \<Rightarrow> u64" where
  "lru_gen_from_seq seq = seq mod 4"

text \<open>
  The pages of one generation in the zones a reclaim may use, summed with saturation, and the
  generations from the oldest to the last that reclaim may empty (\<open>max_seq - MIN_NR_GENS\<close>). Native
  MGLRU keeps at most \<open>MAX_NR_GENS\<close> of them; \<open>frontier_seqs_fit\<close> shows that the array of the source
  is then large enough.
\<close>

definition frontier_capacity :: "parp_frontier_lrugen \<Rightarrow> bool \<Rightarrow> int \<Rightarrow> u64 \<Rightarrow> u64" where
  "frontier_capacity lru type reclaim_idx seq =
     foldl (\<lambda>c zone. c + min (word_of_int (max (fl_nr_pages lru (lru_gen_from_seq seq) type zone) 0))
                             (U64_MAX - c))
       0 [0..<nat (reclaim_idx + 1)]"

definition frontier_seqs :: "parp_frontier_lrugen \<Rightarrow> bool \<Rightarrow> u64 list" where
  "frontier_seqs lru type =
     (let first = fl_min_seq lru type; last = fl_max_seq lru - 2
      in if first \<le> last then map (\<lambda>i. first + of_nat i) [0..<unat (last - first) + 1] else [])"

definition parp_choose_frontier ::
  "parp_frontier_lrugen \<Rightarrow> bool \<Rightarrow> int \<Rightarrow> u64 \<Rightarrow> u32 \<Rightarrow> (u64 \<times> u64) option" where
  "parp_choose_frontier lru type reclaim_idx demand eta_q15 =
     (case parp_frontier_select
             (map (frontier_capacity lru type reclaim_idx) (frontier_seqs lru type)) demand eta_q15 of
        None \<Rightarrow> None
      | Some (selected, headroom) \<Rightarrow> Some (fl_min_seq lru type + of_nat selected, headroom))"

section \<open>The access history of a page\<close>

definition parp_u64_to_ms :: "u64 \<Rightarrow> u32" where
  "parp_u64_to_ms ns = ucast (min (ns div NSEC_PER_MSEC) (ucast U32_MAX))"

text \<open>
  \<open>parp_atomic_saturating_inc\<close> and \<open>parp_atomic_ema\<close> return the value they store. On a negative value the
  compare-and-exchange loop of \<open>parp_atomic_ema\<close>, which compares with \<open>max v 0\<close>, would never end; no
  operation stores one (\<open>parp_frontier_history_typed\<close>), and the definition is meant for \<open>0 \<le> v\<close>.
\<close>

definition parp_atomic_saturating_inc :: "int \<Rightarrow> int" where
  "parp_atomic_saturating_inc old = (if old = S32_MAX then old else old + 1)"

definition parp_atomic_ema :: "int \<Rightarrow> u32 \<Rightarrow> int" where
  "parp_atomic_ema v sample =
     (let s = min (uint sample) S32_MAX; old = max v 0
      in if old \<noteq> 0 then old + c_div (s - old) 4 else s)"

text \<open>\<open>atomic_set\<close> of an unsigned value stores its low 32 bits as a signed integer.\<close>

definition parp_frontier_note_access_enabled ::
  "u64 \<Rightarrow> int \<Rightarrow> parp_folio_ext \<Rightarrow> parp_folio_ext" where
  "parp_frontier_note_access_enabled now generation ext =
     (let previous = fx_last_access_ns ext;
          interval = parp_u64_to_ms (now - previous);
          e1 = ext \<lparr> fx_last_access_ns := now \<rparr>;
          e2 = (if previous \<noteq> 0 \<and> now > previous
                then e1 \<lparr> fx_previous_interval_ms := sint interval,
                          fx_reuse_interval_ema_ms :=
                            parp_atomic_ema (fx_reuse_interval_ema_ms e1) interval \<rparr>
                else e1);
          e3 = e2 \<lparr> fx_access_ema_q8 := parp_atomic_ema (fx_access_ema_q8 e2) 256,
                    fx_inactive_count := 0, fx_generation := generation \<rparr>
      in if fx_generation ext \<noteq> generation \<or> fx_generation_enter_ns ext = 0
         then e3 \<lparr> fx_generation_enter_ns := now \<rparr> else e3)"

text \<open>The inline wrapper; \<open>None\<close> is a page without extension.\<close>

definition parp_frontier_note_access ::
  "parp_frontier_world \<Rightarrow> u64 \<Rightarrow> int \<Rightarrow> parp_folio_ext option \<Rightarrow> parp_folio_ext option" where
  "parp_frontier_note_access w now generation ext =
     (if fw_enabled w then map_option (parp_frontier_note_access_enabled now generation) ext
      else ext)"

text \<open>The features of a candidate, and the history with the candidate recorded.\<close>

definition parp_frontier_features ::
  "parp_frontier_scan_ctx \<Rightarrow> parp_frontier_lrugen \<Rightarrow> u64 \<Rightarrow> parp_folio_ext option \<Rightarrow>
   (int list \<times> parp_folio_ext) option" where
  "parp_frontier_features ctx lru now page =
     (case page of
        None \<Rightarrow> None
      | Some ext \<Rightarrow>
          if fx_last_access_ns ext = 0 \<or> fx_generation_enter_ns ext = 0 \<or>
             now < fx_last_access_ns ext \<or> now < fx_generation_enter_ns ext
          then None
          else let inactive = parp_atomic_saturating_inc (fx_inactive_count ext);
                   access = parp_atomic_ema (fx_access_ema_q8 ext) 0
               in Some ([uint (parp_u64_to_ms (now - fx_last_access_ns ext)),
                         max (fx_previous_interval_ms ext) 0,
                         access,
                         max (fx_reuse_interval_ema_ms ext) 0,
                         inactive,
                         min (uint (fl_max_seq lru - fc_source_seq ctx)) S32_MAX,
                         uint (parp_u64_to_ms (now - fx_generation_enter_ns ext)),
                         uint (fc_app_reentry_q15 ctx)],
                        ext \<lparr> fx_inactive_count := inactive, fx_access_ema_q8 := access \<rparr>))"

section \<open>The longest scoring time\<close>

text \<open>
  \<open>parp_frontier_account_score_time\<close> raises the maximum by compare-and-exchange until its duration is
  not above the value it last saw. \<open>env k\<close> is the largest duration other CPUs store between attempt
  \<open>k - 1\<close> and attempt \<open>k\<close>; every writer of the cell only raises it, so the cell holds
  \<open>max old (env k)\<close> at attempt \<open>k\<close>. The comparison of the source is between unsigned values. The
  result is the number of attempts and the value the cell was last known to hold.
\<close>

function score_time_loop :: "(nat \<Rightarrow> u64) \<Rightarrow> nat \<Rightarrow> u64 \<Rightarrow> u64 \<Rightarrow> nat \<times> u64" where
  "score_time_loop env k duration old =
     (if \<not> duration > old then (k, old)
      else let observed = max old (env k)
           in if observed = old then (Suc k, duration)
              else score_time_loop env (Suc k) duration observed)"
  by pat_completeness auto

termination
  by (relation "measure (\<lambda>(env, k, duration, old). unat duration - unat old)")
    (auto simp: word_less_nat_alt word_le_nat_alt max_def le_less unat_arith_simps(3) dest: word_unat_eq_iff [THEN iffD2]
      intro!: diff_less_mono2 split: if_splits)

declare score_time_loop.simps [simp del]

definition parp_frontier_account_score_time ::
  "(nat \<Rightarrow> u64) \<Rightarrow> u64 \<Rightarrow> parp_frontier_stats \<Rightarrow> parp_frontier_stats" where
  "parp_frontier_account_score_time env duration_ns s =
     s \<lparr> ft_score_time_ns_total := ft_score_time_ns_total s + duration_ns,
         ft_score_time_ns_max := snd (score_time_loop env 0 duration_ns (ft_score_time_ns_max s)) \<rparr>"

section \<open>Preparing a scan\<close>

definition parp_frontier_prepare_reason ::
  "parp_frontier_reason \<Rightarrow> parp_frontier_stats \<Rightarrow> parp_frontier_stats" where
  "parp_frontier_prepare_reason reason s =
     (case reason of
        PARP_FRONTIER_PRESSURE_BYPASS \<Rightarrow> s \<lparr> ft_pressure_bypass := ft_pressure_bypass s + 1 \<rparr>
      | PARP_FRONTIER_NO_APP_CONTEXT \<Rightarrow> s \<lparr> ft_no_context := ft_no_context s + 1 \<rparr>
      | PARP_FRONTIER_NO_EFFICIENCY \<Rightarrow> s \<lparr> ft_no_efficiency := ft_no_efficiency s + 1 \<rparr>
      | PARP_FRONTIER_NO_CAPACITY \<Rightarrow> s \<lparr> ft_no_capacity := ft_no_capacity s + 1 \<rparr>
      | _ \<Rightarrow> s)"

text \<open>A new epoch starts when the source generation, the foreground epoch or the model changed.\<close>

definition frontier_epoch_step ::
  "u64 \<Rightarrow> u64 \<Rightarrow> u32 \<Rightarrow> parp_frontier_state \<Rightarrow> parp_frontier_state" where
  "frontier_epoch_step source_seq foreground version st =
     (if fs_epoch_id st = 0 \<or> fs_source_seq st \<noteq> source_seq \<or>
         fs_foreground_epoch_id st \<noteq> foreground \<or> fs_model_version st \<noteq> version
      then st \<lparr> fs_source_seq := source_seq, fs_foreground_epoch_id := foreground,
                fs_model_version := version, fs_epoch_pages := 0,
                fs_epoch_id := (if fs_epoch_id st + 1 = 0 then 1 else fs_epoch_id st + 1) \<rparr>
      else st)"

text \<open>The arguments of \<open>__parp_frontier_prepare\<close>: the snapshot, the clock and the lruvec's identity too.\<close>

record frontier_request =
  fr_active :: "parp_snapshot option"
  fr_now :: u64
  fr_memcg :: "u64 option"
  fr_nid :: u32
  fr_target_memcg :: bool
  fr_type :: bool
  fr_priority :: int
  fr_reclaim_idx :: int
  fr_demand :: u64

definition set_frontier_state ::
  "bool \<Rightarrow> parp_frontier_state \<Rightarrow> parp_frontier_world \<Rightarrow> parp_frontier_world" where
  "set_frontier_state type st w =
     w \<lparr> fw_lru := (fw_lru w) \<lparr> fl_frontier := (fl_frontier (fw_lru w)) (type := st) \<rparr> \<rparr>"

text \<open>The two ways out of \<open>__parp_frontier_prepare\<close> without a valid context.\<close>

definition frontier_refuse ::
  "parp_frontier_reason \<Rightarrow> parp_frontier_scan_ctx \<Rightarrow> parp_frontier_world \<Rightarrow>
   parp_frontier_scan_ctx \<times> parp_frontier_world" where
  "frontier_refuse reason ctx w = (ctx \<lparr> fc_reason := reason \<rparr>, w)"

definition frontier_bypass ::
  "parp_frontier_reason \<Rightarrow> parp_frontier_scan_ctx \<Rightarrow> parp_frontier_world \<Rightarrow>
   parp_frontier_scan_ctx \<times> parp_frontier_world" where
  "frontier_bypass reason ctx w =
     (ctx \<lparr> fc_reason := reason \<rparr>,
      w \<lparr> fw_stats := parp_frontier_prepare_reason reason (fw_stats w) \<rparr>)"

text \<open>From the model test on: the owner is known and the efficiency was sampled.\<close>

definition frontier_prepare_scored ::
  "frontier_request \<Rightarrow> parp_app_context \<Rightarrow> parp_frontier_scan_ctx \<Rightarrow> parp_frontier_world \<Rightarrow>
   parp_frontier_scan_ctx \<times> parp_frontier_world" where
  "frontier_prepare_scored r app ctx w =
     (let lru = fw_lru w; state = fl_frontier lru (fr_type r);
          model = parp_frontier_model_for (ac_app_id app)
      in if \<not> parp_frontier_model_valid model
         then frontier_refuse PARP_FRONTIER_MODEL_INVALID ctx w
         else
           let ctx1 = ctx \<lparr> fc_threshold := word_of_int (fm_threshold model),
                 fc_model_version := fm_model_version model, fc_app_id := ac_app_id app,
                 fc_app_reentry_q15 := ucast (ac_app_prior_q15 app),
                 fc_foreground_epoch_id := ac_foreground_epoch_id app,
                 fc_source_seq := fl_min_seq lru (fr_type r),
                 fc_source_generation := ucast (lru_gen_from_seq (fl_min_seq lru (fr_type r))),
                 fc_remaining_demand := fr_demand r, fc_efficiency_q15 := fs_efficiency_q15 state \<rparr>
           in case parp_choose_frontier lru (fr_type r) (fr_reclaim_idx r) (fr_demand r)
                     (fc_efficiency_q15 ctx1) of
                None \<Rightarrow> frontier_bypass PARP_FRONTIER_NO_CAPACITY ctx1 w
              | Some (frontier, headroom) \<Rightarrow>
                  let state1 = frontier_epoch_step (fc_source_seq ctx1) (ac_foreground_epoch_id app)
                                 (fc_model_version ctx1) state;
                      until = fr_now r + PARP_FRONTIER_TTL_NS
                  in (ctx1 \<lparr> fc_frontier_seq := frontier, fc_frontier_headroom := headroom,
                        fc_epoch_id := fs_epoch_id state1, fc_valid_until_ns := until,
                        fc_batch_budget := PARP_FRONTIER_BATCH_PAGES,
                        fc_epoch_budget := PARP_FRONTIER_EPOCH_PAGES,
                        fc_app_budget := max 1 (parp_effective_pages PARP_FRONTIER_BATCH_PAGES
                                                  (ucast (ac_app_prior_q15 app))),
                        fc_reason := PARP_FRONTIER_SCORE, fc_valid := True \<rparr>,
                      set_frontier_state (fr_type r)
                        (state1 \<lparr> fs_valid_until_ns := until, fs_frontier_seq := frontier,
                                  fs_frontier_headroom := headroom \<rparr>) w))"

definition parp_frontier_prepare_enabled ::
  "frontier_request \<Rightarrow> parp_frontier_world \<Rightarrow> parp_frontier_scan_ctx \<times> parp_frontier_world" where
  "parp_frontier_prepare_enabled r w =
     (let batch = fw_batch_id w + 1;
          ctx = frontier_ctx_zero \<lparr> fc_mode := fw_mode w, fc_type := fr_type r,
                  fc_batch_id := batch, fc_reason := PARP_FRONTIER_DISABLED \<rparr>;
          w1 = w \<lparr> fw_batch_id := batch,
                   fw_stats := (fw_stats w) \<lparr> ft_prepare := ft_prepare (fw_stats w) + 1 \<rparr> \<rparr>;
          domain_id = parp_memcg_domain_id (fr_memcg r);
          ctx1 = ctx \<lparr> fc_domain_id := domain_id, fc_nid := fr_nid r \<rparr>
      in if \<not> fr_target_memcg r then frontier_refuse PARP_FRONTIER_NOT_TARGET_MEMCG ctx w1
         else if fr_priority r \<le> PARP_FRONTIER_PRESSURE_PRIORITY
         then frontier_bypass PARP_FRONTIER_PRESSURE_BYPASS ctx1 w1
         else if fr_demand r = 0 then frontier_refuse PARP_FRONTIER_NO_DEMAND ctx1 w1
         else case (if domain_id = 0 then None
                    else parp_context_lookup (fr_active r) domain_id (fr_now r)) of
                None \<Rightarrow> frontier_bypass PARP_FRONTIER_NO_APP_CONTEXT ctx1 w1
              | Some app \<Rightarrow>
                  if fs_efficiency_samples (fl_frontier (fw_lru w) (fr_type r)) = 0
                  then frontier_bypass PARP_FRONTIER_NO_EFFICIENCY ctx1 w1
                  else frontier_prepare_scored r app ctx1 w1)"

text \<open>The inline wrapper: a disabled module writes \<open>valid\<close> only, the rest of the stack variable stays.\<close>

definition parp_frontier_prepare ::
  "frontier_request \<Rightarrow> parp_frontier_scan_ctx \<Rightarrow> parp_frontier_world \<Rightarrow>
   parp_frontier_scan_ctx \<times> parp_frontier_world" where
  "parp_frontier_prepare r ctx w =
     (if fw_enabled w then parp_frontier_prepare_enabled r w
      else (ctx \<lparr> fc_valid := False \<rparr>, w))"

section \<open>Considering a candidate\<close>

record parp_frontier_trace =
  tr_timestamp_ns :: u64
  tr_domain_id :: u64
  tr_epoch_id :: u64
  tr_batch_id :: u64
  tr_foreground_epoch_id :: u64
  tr_folio_cookie :: u64
  tr_source_seq :: u64
  tr_frontier_seq :: u64
  tr_remaining_demand :: u64
  tr_frontier_headroom :: u64
  tr_app_budget :: u64
  tr_batch_budget :: u64
  tr_epoch_budget :: u64
  tr_folio_pages :: u64
  tr_score_duration_ns :: u64
  tr_score :: int
  tr_threshold :: u32
  tr_model_version :: u32
  tr_efficiency_q15 :: u32
  tr_app_id :: u32
  tr_nid :: u32
  tr_source_generation :: u32
  tr_feature_schema_version :: u32
  tr_page_type :: bool
  tr_mode :: parp_frontier_mode
  tr_reason :: parp_frontier_reason
  tr_would_promote :: bool
  tr_applied :: bool

text \<open>What a call reads from outside: the folio, the clock at its four reads, the tracing switch.\<close>

record frontier_candidate =
  cd_pfn :: u64
  cd_pages :: u64
  cd_now :: u64
  cd_features_now :: u64
  cd_score_started_ns :: u64
  cd_score_ended_ns :: u64
  cd_emitted_ns :: u64
  cd_trace_enabled :: bool
  cd_cookie :: "u64 \<Rightarrow> u64 \<Rightarrow> u64"
  cd_env :: "nat \<Rightarrow> u64"

text \<open>What the body of \<open>__parp_frontier_consider\<close> hands to \<open>parp_frontier_emit\<close>.\<close>

record frontier_verdict =
  vd_score :: int
  vd_duration_ns :: u64
  vd_reason :: parp_frontier_reason
  vd_would_promote :: bool

definition parp_frontier_emit ::
  "parp_frontier_scan_ctx \<Rightarrow> frontier_candidate \<Rightarrow> frontier_verdict \<Rightarrow> parp_frontier_stats \<Rightarrow>
   parp_frontier_stats \<times> parp_frontier_trace option" where
  "parp_frontier_emit ctx c v s =
     (if cd_trace_enabled c
      then (s \<lparr> ft_trace_events := ft_trace_events s + 1 \<rparr>,
            Some \<lparr> tr_timestamp_ns = cd_emitted_ns c, tr_domain_id = fc_domain_id ctx,
              tr_epoch_id = fc_epoch_id ctx, tr_batch_id = fc_batch_id ctx,
              tr_foreground_epoch_id = fc_foreground_epoch_id ctx,
              tr_folio_cookie = cd_cookie c (cd_pfn c) (fc_epoch_id ctx),
              tr_source_seq = fc_source_seq ctx, tr_frontier_seq = fc_frontier_seq ctx,
              tr_remaining_demand = fc_remaining_demand ctx,
              tr_frontier_headroom = fc_frontier_headroom ctx,
              tr_app_budget = fc_app_budget ctx, tr_batch_budget = fc_batch_budget ctx,
              tr_epoch_budget = fc_epoch_budget ctx, tr_folio_pages = cd_pages c,
              tr_score_duration_ns = vd_duration_ns v, tr_score = vd_score v,
              tr_threshold = fc_threshold ctx, tr_model_version = fc_model_version ctx,
              tr_efficiency_q15 = fc_efficiency_q15 ctx, tr_app_id = fc_app_id ctx,
              tr_nid = fc_nid ctx, tr_source_generation = fc_source_generation ctx,
              tr_feature_schema_version = PARP_FRONTIER_SCHEMA_VERSION,
              tr_page_type = fc_type ctx, tr_mode = fc_mode ctx, tr_reason = vd_reason v,
              tr_would_promote = vd_would_promote v, tr_applied = False \<rparr>)
      else (s, None))"

text \<open>The counters of each way out.\<close>

definition frontier_native :: "u64 \<Rightarrow> parp_frontier_stats \<Rightarrow> parp_frontier_stats" where
  "frontier_native pages s = s \<lparr> ft_native_bypass_pages := ft_native_bypass_pages s + pages \<rparr>"

definition frontier_count ::
  "parp_frontier_reason \<Rightarrow> u64 \<Rightarrow> parp_frontier_stats \<Rightarrow> parp_frontier_stats" where
  "frontier_count reason pages s =
     (case reason of
        PARP_FRONTIER_EXPIRED \<Rightarrow>
          s \<lparr> ft_expired := ft_expired s + 1,
              ft_frontier_bypass_pages := ft_frontier_bypass_pages s + pages \<rparr>
      | PARP_FRONTIER_NOT_FRONTIER \<Rightarrow>
          s \<lparr> ft_not_frontier := ft_not_frontier s + 1,
              ft_frontier_bypass_pages := ft_frontier_bypass_pages s + pages \<rparr>
      | PARP_FRONTIER_METADATA_MISSING \<Rightarrow>
          s \<lparr> ft_metadata_missing := ft_metadata_missing s + 1 \<rparr>
      | PARP_FRONTIER_MODEL_INVALID \<Rightarrow>
          s \<lparr> ft_invalid_model_pages := ft_invalid_model_pages s + pages \<rparr>
      | PARP_FRONTIER_BELOW_THRESHOLD \<Rightarrow> s \<lparr> ft_below_threshold := ft_below_threshold s + 1 \<rparr>
      | PARP_FRONTIER_REPEAT_EPOCH \<Rightarrow> s \<lparr> ft_repeat_epoch := ft_repeat_epoch s + 1 \<rparr>
      | PARP_FRONTIER_BUDGET \<Rightarrow>
          s \<lparr> ft_budget_reject := ft_budget_reject s + 1,
              ft_budget_bypass_pages := ft_budget_bypass_pages s + pages \<rparr>
      | _ \<Rightarrow> s)"

text \<open>A candidate left to native reclaim: the verdict, and the counters of the reason.\<close>

definition frontier_leave ::
  "frontier_candidate \<Rightarrow> int \<Rightarrow> u64 \<Rightarrow> parp_frontier_reason \<Rightarrow> parp_frontier_world \<Rightarrow>
   frontier_verdict \<times> parp_frontier_world" where
  "frontier_leave c score duration reason w =
     (\<lparr> vd_score = score, vd_duration_ns = duration, vd_reason = reason, vd_would_promote = False \<rparr>,
      w \<lparr> fw_stats := frontier_native (cd_pages c)
                        (frontier_count reason (cd_pages c) (fw_stats w)) \<rparr>)"

text \<open>The same for an invalid context, whose reason is the one \<open>__parp_frontier_prepare\<close> left.\<close>

definition frontier_leave_invalid ::
  "frontier_candidate \<Rightarrow> parp_frontier_reason \<Rightarrow> parp_frontier_world \<Rightarrow>
   frontier_verdict \<times> parp_frontier_world" where
  "frontier_leave_invalid c reason w =
     (let s = frontier_native (cd_pages c) (fw_stats w)
      in (\<lparr> vd_score = 0, vd_duration_ns = 0, vd_reason = reason, vd_would_promote = False \<rparr>,
          w \<lparr> fw_stats :=
                (if reason = PARP_FRONTIER_NO_CAPACITY
                 then s \<lparr> ft_frontier_bypass_pages := ft_frontier_bypass_pages s + cd_pages c \<rparr>
                 else if reason = PARP_FRONTIER_MODEL_INVALID
                 then s \<lparr> ft_invalid_model_pages := ft_invalid_model_pages s + cd_pages c \<rparr>
                 else s) \<rparr>))"

text \<open>The pages the four budgets leave.\<close>

definition frontier_allowed :: "parp_frontier_scan_ctx \<Rightarrow> parp_frontier_state \<Rightarrow> u64" where
  "frontier_allowed ctx state =
     parp_frontier_budget_min (fc_frontier_headroom ctx)
       (fc_app_budget ctx - min (fc_app_used ctx) (fc_app_budget ctx))
       (fc_batch_budget ctx - min (fc_batch_used ctx) (fc_batch_budget ctx))
       (fc_epoch_budget ctx - min (fs_epoch_pages state) (fc_epoch_budget ctx))"

text \<open>The part under \<open>rcu_read_lock\<close>: \<open>values\<close> and \<open>ext\<close> come from \<open>parp_frontier_features\<close>.\<close>

definition frontier_judge ::
  "frontier_candidate \<Rightarrow> int list \<Rightarrow> parp_folio_ext \<Rightarrow> parp_frontier_scan_ctx \<Rightarrow>
   parp_frontier_world \<Rightarrow>
   parp_folio_ext \<times> parp_frontier_scan_ctx \<times> frontier_verdict \<times> parp_frontier_world" where
  "frontier_judge c vals ext ctx w =
     (let model = parp_frontier_model_for (fc_app_id ctx); pages = cd_pages c
      in if \<not> parp_frontier_model_valid model
         then (ext, ctx, frontier_leave c 0 0 PARP_FRONTIER_MODEL_INVALID w)
         else
           let score = parp_frontier_score model vals;
               duration = cd_score_ended_ns c - cd_score_started_ns c;
               s = parp_frontier_account_score_time (cd_env c) duration (fw_stats w);
               w1 = w \<lparr> fw_stats := s \<lparr> ft_scores := ft_scores s + 1 \<rparr> \<rparr>;
               state = fl_frontier (fw_lru w1) (fc_type ctx)
           in if score < fm_threshold model
              then (ext, ctx, frontier_leave c score duration PARP_FRONTIER_BELOW_THRESHOLD w1)
              else if fx_last_selected_epoch ext = fc_epoch_id ctx
              then (ext, ctx, frontier_leave c score duration PARP_FRONTIER_REPEAT_EPOCH w1)
              else if pages > frontier_allowed ctx state
              then (ext, ctx, frontier_leave c score duration PARP_FRONTIER_BUDGET w1)
              else
                (ext \<lparr> fx_last_selected_epoch := fc_epoch_id ctx \<rparr>,
                 ctx \<lparr> fc_frontier_headroom := fc_frontier_headroom ctx - pages,
                       fc_batch_used := fc_batch_used ctx + pages,
                       fc_app_used := fc_app_used ctx + pages \<rparr>,
                 \<lparr> vd_score = score, vd_duration_ns = duration, vd_reason = PARP_FRONTIER_SCORE,
                   vd_would_promote = True \<rparr>,
                 set_frontier_state (fc_type ctx)
                   (state \<lparr> fs_epoch_pages := fs_epoch_pages state + pages \<rparr>)
                   (w1 \<lparr> fw_stats := (fw_stats w1)
                      \<lparr> ft_would_promote := ft_would_promote (fw_stats w1) + 1,
                        ft_would_promote_pages := ft_would_promote_pages (fw_stats w1) + pages \<rparr> \<rparr>)))"

definition frontier_consider_body ::
  "frontier_candidate \<Rightarrow> parp_folio_ext option \<Rightarrow> parp_frontier_scan_ctx \<Rightarrow> parp_frontier_world \<Rightarrow>
   parp_folio_ext option \<times> parp_frontier_scan_ctx \<times> frontier_verdict \<times> parp_frontier_world" where
  "frontier_consider_body c page ctx w0 =
     (let w = w0 \<lparr> fw_stats := (fw_stats w0)
                     \<lparr> ft_candidates := ft_candidates (fw_stats w0) + 1 \<rparr> \<rparr>
      in if \<not> fc_valid ctx then (page, ctx, frontier_leave_invalid c (fc_reason ctx) w)
         else if \<not> parp_frontier_context_valid (cd_now c) (fc_valid_until_ns ctx)
                     (fc_source_seq ctx) (fl_min_seq (fw_lru w) (fc_type ctx))
         then (page, ctx, frontier_leave c 0 0 PARP_FRONTIER_EXPIRED w)
         else if fc_source_seq ctx \<noteq> fc_frontier_seq ctx
         then (page, ctx, frontier_leave c 0 0 PARP_FRONTIER_NOT_FRONTIER w)
         else case parp_frontier_features ctx (fw_lru w) (cd_features_now c) page of
                None \<Rightarrow> (page, ctx, frontier_leave c 0 0 PARP_FRONTIER_METADATA_MISSING w)
              | Some (vals, ext) \<Rightarrow>
                  (case frontier_judge c vals ext ctx w of
                     (ext1, ctx1, v, w1) \<Rightarrow> (Some ext1, ctx1, v, w1)))"

definition parp_frontier_consider_enabled ::
  "frontier_candidate \<Rightarrow> parp_folio_ext option \<Rightarrow> parp_frontier_scan_ctx \<Rightarrow> parp_frontier_world \<Rightarrow>
   parp_folio_ext option \<times> parp_frontier_scan_ctx \<times> frontier_verdict \<times> parp_frontier_world \<times>
   parp_frontier_trace option" where
  "parp_frontier_consider_enabled c page ctx w =
     (case frontier_consider_body c page ctx w of
        (page1, ctx1, v, w1) \<Rightarrow>
          (case parp_frontier_emit ctx1 c v (fw_stats w1) of
             (s, event) \<Rightarrow> (page1, ctx1, v, w1 \<lparr> fw_stats := s \<rparr>, event)))"

text \<open>The inline wrapper: a disabled module leaves everything (\<open>None\<close>: no verdict).\<close>

definition parp_frontier_consider ::
  "frontier_candidate \<Rightarrow> parp_folio_ext option \<Rightarrow> parp_frontier_scan_ctx \<Rightarrow> parp_frontier_world \<Rightarrow>
   parp_folio_ext option \<times> parp_frontier_scan_ctx \<times> parp_frontier_world" where
  "parp_frontier_consider c page ctx w =
     (if fw_enabled w
      then case parp_frontier_consider_enabled c page ctx w of
             (page1, ctx1, v, w1, event) \<Rightarrow> (page1, ctx1, w1)
      else (page, ctx, w))"

section \<open>Feedback and mode\<close>

text \<open>
  The sample of \<open>parp_frontier_feedback\<close>. \<open>mul_u64_u32_div\<close> takes its divisor as \<open>u32\<close>, so the
  \<open>unsigned long\<close> count of isolated pages is cut to 32 bits; \<open>None\<close> is the divide error.
\<close>

definition frontier_sample :: "u64 \<Rightarrow> u64 \<Rightarrow> u32 option" where
  "frontier_sample isolated reclaimed =
     (let divisor = ucast isolated :: u32
      in if mul_div_defined reclaimed (ucast PARP_FRONTIER_Q15_ONE) (ucast divisor)
         then Some (ucast (min (mul_u64_u32_div reclaimed PARP_FRONTIER_Q15_ONE divisor)
                               (ucast PARP_FRONTIER_Q15_ONE)))
         else None)"

text \<open>
  \<open>state->efficiency_q15 += ((s32)sample - state->efficiency_q15) / 4\<close>. The member is \<open>u32\<close>, so the
  usual conversions make the difference and the division unsigned.
\<close>

definition frontier_efficiency_next :: "u32 \<Rightarrow> u32 \<Rightarrow> u32" where
  "frontier_efficiency_next efficiency sample = efficiency + (sample - efficiency) div 4"

definition parp_frontier_feedback ::
  "bool \<Rightarrow> u64 \<Rightarrow> u64 \<Rightarrow> parp_frontier_world \<Rightarrow> parp_frontier_world option" where
  "parp_frontier_feedback type isolated reclaimed w =
     (if \<not> fw_enabled w \<or> isolated = 0 then Some w
      else case frontier_sample isolated reclaimed of
        None \<Rightarrow> None
      | Some sample \<Rightarrow>
          let state = fl_frontier (fw_lru w) type
          in Some ((set_frontier_state type
                     (state \<lparr> fs_efficiency_q15 :=
                                (if fs_efficiency_samples state = 0 then sample
                                 else frontier_efficiency_next (fs_efficiency_q15 state) sample),
                              fs_efficiency_samples := fs_efficiency_samples state + 1 \<rparr>) w)
                   \<lparr> fw_stats := (fw_stats w)
                       \<lparr> ft_feedback_samples := ft_feedback_samples (fw_stats w) + 1 \<rparr> \<rparr>))"

fun frontier_mode_code :: "parp_frontier_mode \<Rightarrow> nat" where
  "frontier_mode_code PARP_FRONTIER_OFF = 0"
| "frontier_mode_code PARP_FRONTIER_SHADOW = 1"
| "frontier_mode_code PARP_FRONTIER_APPLY = 2"

definition parp_frontier_get_mode :: "parp_frontier_world \<Rightarrow> parp_frontier_mode" where
  "parp_frontier_get_mode w = fw_mode w"

text \<open>The control file may pass any number as the enumeration.\<close>

definition parp_frontier_set_mode ::
  "nat \<Rightarrow> parp_frontier_world \<Rightarrow> errno option \<times> parp_frontier_world" where
  "parp_frontier_set_mode code w =
     (if code = frontier_mode_code PARP_FRONTIER_APPLY then (Some EOPNOTSUPP, w)
      else if code \<noteq> frontier_mode_code PARP_FRONTIER_OFF \<and>
              code \<noteq> frontier_mode_code PARP_FRONTIER_SHADOW then (Some EINVAL, w)
      else if frontier_mode_code (fw_mode w) = code then (None, w)
      else if code = frontier_mode_code PARP_FRONTIER_SHADOW
      then (None, w \<lparr> fw_mode := PARP_FRONTIER_SHADOW, fw_enabled := True \<rparr>)
      else (None, w \<lparr> fw_mode := PARP_FRONTIER_OFF, fw_enabled := False \<rparr>))"

section \<open>The score is small\<close>

definition frontier_model_ok :: "parp_frontier_model \<Rightarrow> bool" where
  "frontier_model_ok m \<longleftrightarrow> parp_frontier_model_valid m \<and>
     (\<forall>f < PARP_FRONTIER_FEATURES. length (fm_bin_edges m ! f) = PARP_FRONTIER_BINS - 1 \<and>
        length (fm_weights m ! f) = PARP_FRONTIER_BINS \<and>
        (\<forall>x \<in> set (fm_weights m ! f). \<bar>x\<bar> \<le> 46))"

lemma frontier_models_ok: "m \<in> set parp_frontier_models \<Longrightarrow> frontier_model_ok m"
  unfolding parp_frontier_models_def
  by (elim set_ConsD [THEN disjE] emptyE; hypsubst?)
    (auto simp: frontier_model_ok_def frontier_model_of_def parp_frontier_model_valid_def
      PARP_COMMON_EDGES_def less_Suc_eq numeral_eq_Suc)


lemma frontier_model_for_mem: "parp_frontier_model_for app_id \<in> set parp_frontier_models"
proof -
  have "(if app_id > 3 then 0 else unat app_id) < length parp_frontier_models"
    by (auto simp: parp_frontier_models_def word_le_nat_alt not_less)
  then show ?thesis unfolding parp_frontier_model_for_def by (rule nth_mem)
qed

lemma frontier_model_for_valid [simp]: "parp_frontier_model_valid (parp_frontier_model_for app_id)"
  using frontier_models_ok [OF frontier_model_for_mem] by (simp add: frontier_model_ok_def)

lemma frontier_weight_bound:
  assumes "frontier_model_ok m" and "f < PARP_FRONTIER_FEATURES"
  shows "\<bar>fm_weights m ! f ! parp_tier_bin (fm_bin_edges m ! f) v\<bar> \<le> 46"
proof -
  have "parp_tier_bin (fm_bin_edges m ! f) v < length (fm_weights m ! f)"
    using assms parp_tier_bin_bound [of "fm_bin_edges m ! f" v]
    by (auto simp: frontier_model_ok_def le_imp_less_Suc)
  then show ?thesis using assms by (simp add: frontier_model_ok_def)
qed

lemma frontier_score_sum:
  "parp_frontier_score m vals =
     (\<Sum>f \<leftarrow> [0..<PARP_FRONTIER_FEATURES].
        fm_weights m ! f ! parp_tier_bin (fm_bin_edges m ! f) (vals ! f))"
proof -
  have "foldl (\<lambda>s f. s + g f) a fs = a + (\<Sum>f \<leftarrow> fs. g f)" for a :: int and g and fs :: "nat list"
    by (induction fs arbitrary: a) auto
  then show ?thesis by (simp only: parp_frontier_score_def add_0)
qed

lemma sum_list_abs_bound:
  "(\<And>f. f \<in> set fs \<Longrightarrow> \<bar>g f\<bar> \<le> (b :: int)) \<Longrightarrow> \<bar>\<Sum>f \<leftarrow> fs. g f\<bar> \<le> int (length fs) * b"
proof (induction fs)
  case (Cons a fs)
  then have "\<bar>g a\<bar> \<le> b" and "\<bar>\<Sum>f \<leftarrow> fs. g f\<bar> \<le> int (length fs) * b" by auto
  then show ?case by (simp add: algebra_simps)
qed simp

lemma frontier_score_bound: "\<bar>parp_frontier_score (parp_frontier_model_for app_id) vals\<bar> \<le> 368"
proof -
  have "\<bar>parp_frontier_score (parp_frontier_model_for app_id) vals\<bar> \<le>
      int (length [0..<PARP_FRONTIER_FEATURES]) * 46"
    unfolding frontier_score_sum
    by (rule sum_list_abs_bound)
      (use frontier_weight_bound [OF frontier_models_ok [OF frontier_model_for_mem]] in simp)
  then show ?thesis by simp
qed

section \<open>The frontier\<close>

text \<open>What the first \<open>k\<close> generations are expected to yield.\<close>

definition frontier_yield :: "u64 list \<Rightarrow> u32 \<Rightarrow> nat \<Rightarrow> nat" where
  "frontier_yield cs eta k = (\<Sum>c \<leftarrow> take k cs. unat c * unat eta div 32767)"

text \<open>
  Generation \<open>j\<close> is the first whose yield brings the total, which starts at \<open>cum\<close>, up to \<open>demand\<close>, and
  \<open>h\<close> is what is left over.
\<close>

definition frontier_at :: "u64 list \<Rightarrow> u32 \<Rightarrow> nat \<Rightarrow> nat \<Rightarrow> nat \<Rightarrow> nat \<Rightarrow> bool" where
  "frontier_at cs eta cum demand j h \<longleftrightarrow>
     j < length cs \<and> cum + frontier_yield cs eta j < demand \<and>
     demand \<le> cum + frontier_yield cs eta (Suc j) \<and>
     h = cum + frontier_yield cs eta (Suc j) - demand"

lemma frontier_at_simps:
  "\<not> frontier_at [] eta cum demand j h"
  "frontier_at (c # cs) eta cum demand 0 h \<longleftrightarrow>
     cum < demand \<and> demand \<le> cum + unat c * unat eta div 32767 \<and>
     h = cum + unat c * unat eta div 32767 - demand"
  "frontier_at (c # cs) eta cum demand (Suc j) h \<longleftrightarrow>
     frontier_at cs eta (cum + unat c * unat eta div 32767) demand j h"
  by (auto simp: frontier_at_def frontier_yield_def add.assoc)

lemma frontier_at_open: "frontier_at cs eta cum demand j h \<Longrightarrow> cum < demand"
  by (simp add: frontier_at_def)

lemma unat_effective_pages:
  assumes "eta \<le> PARP_FRONTIER_Q15_ONE"
  shows "unat (parp_effective_pages c eta) = unat c * unat eta div 32767"
proof -
  have "min x U64_MAX = x" for x :: u64
    using unat_u64_bound [of x] by (simp add: min_absorb1 word_le_nat_alt)
  then show ?thesis unfolding parp_effective_pages_def
    using assms mul_u64_u32_div_shrinks(1) [of PARP_FRONTIER_Q15_ONE eta c]
    by (simp add: word_le_nat_alt)
qed

text \<open>The scan, from any point at which the demand is not yet covered.\<close>

lemma frontier_scan_spec:
  assumes eta: "eta \<le> PARP_FRONTIER_Q15_ONE"
  shows "cum < demand \<Longrightarrow>
     frontier_scan cs demand eta i cum = Some (k, h) \<longleftrightarrow>
       (\<exists>j. k = i + j \<and> frontier_at cs eta (unat cum) (unat demand) j (unat h))"
proof (induction cs arbitrary: i cum)
  case Nil
  then show ?case by (simp add: frontier_at_simps)
next
  case (Cons c cs)
  let ?e = "parp_effective_pages c eta"
  note e = unat_effective_pages [OF eta, of c]
  have lt: "unat cum < unat demand" using Cons.prems by (simp add: word_less_nat_alt)
  have rem: "unat (demand - min demand cum) = unat demand - unat cum"
    using Cons.prems by (simp add: min_def unat_sub_if' word_le_nat_alt word_less_nat_alt)
  show ?case
  proof (cases "?e \<ge> demand - min demand cum")
    case True
    then have ge: "unat demand - unat cum \<le> unat ?e" by (simp add: word_le_nat_alt rem)
    have "unat (?e - (demand - min demand cum)) = unat cum + unat ?e - unat demand"
      using True ge lt by (simp add: unat_sub rem)
    then have h: "h = ?e - (demand - min demand cum) \<longleftrightarrow>
        unat h = unat cum + unat ?e - unat demand"
      by (auto simp: word_unat_eq_iff)
    have "frontier_at (c # cs) eta (unat cum) (unat demand) j (unat h) \<longleftrightarrow>
        j = 0 \<and> unat h = unat cum + unat ?e - unat demand" for j
      using lt ge e by (cases j) (auto simp: frontier_at_simps dest: frontier_at_open)
    then show ?thesis using True h by auto
  next
    case False
    then have lt2: "unat cum + unat ?e < unat demand" using rem lt by (simp add: word_le_nat_alt)
    then have add: "unat (cum + min ?e (U64_MAX - cum)) = unat cum + unat ?e"
      using unat_sat_add [of cum ?e] unat_u64_bound [of demand] by (simp add: sat_add_def)
    have "(\<exists>j. k = i + j \<and> frontier_at (c # cs) eta (unat cum) (unat demand) j (unat h)) \<longleftrightarrow>
        (\<exists>j. k = Suc i + j \<and> frontier_at cs eta (unat cum + unat ?e) (unat demand) j (unat h))"
      (is "?L \<longleftrightarrow> ?R")
    proof
      assume ?L
      then obtain j where "k = i + j" "frontier_at (c # cs) eta (unat cum) (unat demand) j (unat h)"
        by blast
      then show ?R using lt2 e by (cases j) (auto simp: frontier_at_simps)
    next
      assume ?R
      then obtain j where "k = Suc i + j" "frontier_at cs eta (unat cum + unat ?e) (unat demand) j (unat h)"
        by blast
      then show ?L using e by (intro exI [of _ "Suc j"]) (simp add: frontier_at_simps)
    qed
    then show ?thesis
      using False Cons.IH [of "cum + min ?e (U64_MAX - cum)" "Suc i"] lt2 add
      by (simp add: word_less_nat_alt)
  qed
qed


lemma frontier_scan_None:
  assumes eta: "eta \<le> PARP_FRONTIER_Q15_ONE"
  shows "cum < demand \<Longrightarrow> frontier_scan cs demand eta i cum = None \<longleftrightarrow>
     unat cum + frontier_yield cs eta (length cs) < unat demand"
proof (induction cs arbitrary: i cum)
  case Nil
  then show ?case by (simp add: frontier_yield_def word_less_nat_alt)
next
  case (Cons c cs)
  let ?e = "parp_effective_pages c eta"
  note e = unat_effective_pages [OF eta, of c]
  have rem: "unat (demand - min demand cum) = unat demand - unat cum"
    using Cons.prems by (simp add: min_def unat_sub_if' word_le_nat_alt word_less_nat_alt)
  have step: "frontier_yield (c # cs) eta (length (c # cs)) =
      unat ?e + frontier_yield cs eta (length cs)"
    by (simp add: frontier_yield_def e)
  show ?case
  proof (cases "?e \<ge> demand - min demand cum")
    case True
    then show ?thesis using step by (simp add: word_le_nat_alt rem)
  next
    case False
    then have lt: "unat cum + unat ?e < unat demand"
      using rem Cons.prems by (simp add: word_le_nat_alt word_less_nat_alt)
    then have "unat (cum + min ?e (U64_MAX - cum)) = unat cum + unat ?e"
      using unat_sat_add [of cum ?e] unat_u64_bound [of demand] by (simp add: sat_add_def)
    then show ?thesis
      using False Cons.IH [of "cum + min ?e (U64_MAX - cum)" "Suc i"] lt step
      by (simp add: word_less_nat_alt add.assoc)
  qed
qed

text \<open>The frontier is exact: for a demand and an efficiency in range, \<open>parp_frontier_select\<close> returns
  generation \<open>i\<close> with headroom \<open>h\<close> exactly when \<open>i\<close> is the first generation at which the expected
  yields, each \<open>pages * efficiency / 32767\<close>, add up to the demand, and \<open>h\<close> is the excess; it fails
  exactly when all generations together do not cover the demand. The saturation of the running sum
  never shows.
\<close>

theorem parp_frontier_select_exact:
  assumes "demand \<noteq> 0" and "eta \<noteq> 0" and "eta \<le> PARP_FRONTIER_Q15_ONE"
  shows "(parp_frontier_select cs demand eta = Some (i, h) \<longleftrightarrow>
            frontier_at cs eta 0 (unat demand) i (unat h)) \<and>
         (parp_frontier_select cs demand eta = None \<longleftrightarrow>
            frontier_yield cs eta (length cs) < unat demand)"
proof -
  have "0 < demand" using assms(1) by (simp add: word_gt_0)
  moreover have "parp_frontier_select cs demand eta = frontier_scan cs demand eta 0 0"
    using assms leD [OF assms(3)] by (simp add: parp_frontier_select_def)
  ultimately show ?thesis
    using frontier_scan_spec [OF assms(3), of 0 demand cs 0 i h]
      frontier_scan_None [OF assms(3), of 0 demand cs 0] by simp
qed

text \<open>An instance: with three quarters of the pages reclaimable, the second generation is reached.\<close>

theorem parp_frontier_select_exact_witness:
  "parp_frontier_select [10, 20, 30] 12 24576 = Some (1, 10) \<and>
   frontier_at [10, 20, 30] 24576 0 12 1 10"
proof -
  have "frontier_at [10, 20, 30] 24576 0 12 1 10"
    by (simp add: frontier_at_def frontier_yield_def)
  then show ?thesis
    using parp_frontier_select_exact [of 12 24576 "[10, 20, 30]" 1 10] by simp
qed

text \<open>
  A chosen frontier is one of the generations reclaim may empty, and native MGLRU, which keeps at most
  \<open>MAX_NR_GENS\<close> generations and at least \<open>MIN_NR_GENS\<close>, makes the capacity array of the source
  (\<open>MAX_NR_GENS\<close> entries) large enough.
\<close>

lemma frontier_seqs_fit:
  assumes "unat (fl_min_seq lru type) < unat (fl_max_seq lru)"
    and "unat (fl_max_seq lru) \<le> unat (fl_min_seq lru type) + 3" and "2 \<le> unat (fl_max_seq lru)"
  shows "length (frontier_seqs lru type) \<le> 2"
proof -
  have last: "unat (fl_max_seq lru - 2) = unat (fl_max_seq lru) - 2"
    using assms(3) by (simp add: unat_sub word_le_nat_alt)
  then show ?thesis
    using assms by (auto simp: frontier_seqs_def Let_def word_le_nat_alt unat_sub)
qed

lemma choose_frontier_member:
  assumes "parp_choose_frontier lru type reclaim_idx demand eta = Some (seq, headroom)"
  shows "seq \<in> set (frontier_seqs lru type)"
proof -
  let ?cs = "map (frontier_capacity lru type reclaim_idx) (frontier_seqs lru type)"
  obtain i where sel: "parp_frontier_select ?cs demand eta = Some (i, headroom)"
    and seq: "seq = fl_min_seq lru type + of_nat i"
    using assms by (auto simp: parp_choose_frontier_def split: option.splits)
  have range: "0 < demand" "eta \<le> PARP_FRONTIER_Q15_ONE"
    and scan: "frontier_scan ?cs demand eta 0 0 = Some (i, headroom)"
    using sel by (auto simp: parp_frontier_select_def word_gt_0 not_less split: if_splits)
  then have "i < length (frontier_seqs lru type)"
    using frontier_scan_spec [OF range(2,1), of ?cs 0 i headroom] by (simp add: frontier_at_def)
  moreover from this have "frontier_seqs lru type ! i = seq"
    using seq by (auto simp: frontier_seqs_def Let_def simp del: upt_Suc split: if_splits)
  ultimately show ?thesis by (metis nth_mem)
qed


section \<open>The history stays in type\<close>

lemma atomic_ema_between:
  fixes v :: int and sample :: u32
  defines "s \<equiv> min (uint sample) S32_MAX"
  shows "0 < v \<Longrightarrow> min v s \<le> parp_atomic_ema v sample"
    and "0 < v \<Longrightarrow> parp_atomic_ema v sample \<le> max v s"
    and "0 < v \<Longrightarrow> 0 < parp_atomic_ema v sample"
    and "v \<le> 0 \<Longrightarrow> parp_atomic_ema v sample = s"
proof -
  have s: "0 \<le> s" by (simp add: s_def)
  have q: "c_div (s - v) 4 \<le> max (s - v) 0" "min (s - v) 0 \<le> c_div (s - v) 4"
    using c_div_bounds [of 4 "s - v"] by auto
  have small: "- v < c_div (s - v) 4" if "0 < v"
  proof (cases "s < v")
    case True
    then have "c_div (s - v) 4 = - ((v - s) div 4)" by (simp add: c_div_neg)
    moreover have "(v - s) div 4 < v" using that s by linarith
    ultimately show ?thesis by simp
  next
    case False
    then show ?thesis using that q(2) by linarith
  qed
  have eq: "parp_atomic_ema v sample = v + c_div (s - v) 4" if "0 < v"
    using that by (simp add: parp_atomic_ema_def s_def Let_def)
  show "min v s \<le> parp_atomic_ema v sample" "parp_atomic_ema v sample \<le> max v s"
    "0 < parp_atomic_ema v sample" if "0 < v"
    using eq [OF that] q small [OF that] by linarith+
  show "parp_atomic_ema v sample = s" if "v \<le> 0"
    using that by (simp add: parp_atomic_ema_def s_def Let_def)
qed

lemma atomic_ema_range:
  assumes "0 \<le> v" and "v \<le> hi" and "uint sample \<le> hi \<or> S32_MAX \<le> hi"
  shows "0 \<le> parp_atomic_ema v sample" and "parp_atomic_ema v sample \<le> hi"
proof -
  let ?s = "min (uint sample) S32_MAX"
  have s: "0 \<le> ?s" "?s \<le> hi" using assms(3) by auto
  show "0 \<le> parp_atomic_ema v sample" "parp_atomic_ema v sample \<le> hi"
    using atomic_ema_between [of v sample] s assms(1,2) by (cases "0 < v"; simp)+
qed

text \<open>The average is one of the smoothings of the prelude, over the values the member can hold.\<close>

interpretation page_ema: smoothing "\<lambda>old s. word_of_int (parp_atomic_ema (uint old) s) :: u32"
  "\<lambda>old. 0 < old \<and> old \<le> word_of_int S32_MAX"
proof
  fix old s :: u32
  assume "0 < old \<and> old \<le> word_of_int S32_MAX"
  then have old: "0 < uint old" "uint old \<le> S32_MAX"
    by (auto simp: word_less_def word_le_def)
  let ?e = "parp_atomic_ema (uint old) s"
  have e: "0 < ?e" "?e \<le> S32_MAX"
    "min (uint old) (min (uint s) S32_MAX) \<le> ?e" "?e \<le> max (uint old) (min (uint s) S32_MAX)"
    using atomic_ema_between [of "uint old" s] old by auto
  then have u: "uint (word_of_int ?e :: u32) = ?e"
    by (simp add: uint_word_of_int)
  show "word_of_int ?e \<le> max old s" "min old s \<le> word_of_int ?e"
    using e old by (auto simp: word_le_def u max_def min_def split: if_splits)
  show "0 < (word_of_int ?e :: u32) \<and> (word_of_int ?e :: u32) \<le> word_of_int S32_MAX"
    using e by (simp add: word_less_def word_le_def u)
qed

lemma uint_u64_to_ms: "uint (parp_u64_to_ms ns) < 2 ^ 32"
  using uint_lt2p [of "parp_u64_to_ms ns"] by simp

definition folio_ext_ok :: "parp_folio_ext \<Rightarrow> bool" where
  "folio_ext_ok e \<longleftrightarrow>
     fx_previous_interval_ms e \<in> {S32_MIN..S32_MAX} \<and> fx_access_ema_q8 e \<in> {0..256} \<and>
     fx_reuse_interval_ema_ms e \<in> {0..S32_MAX} \<and> fx_inactive_count e \<in> {0..S32_MAX}"

lemma sint_u32_range: "sint (w :: u32) \<in> {S32_MIN..S32_MAX}"
  using sint_ge [of w] sint_lt [of w] by simp

lemma note_access_ok: "folio_ext_ok e \<Longrightarrow> folio_ext_ok (parp_frontier_note_access_enabled now g e)"
  using atomic_ema_range [of "fx_access_ema_q8 e" 256 256]
    atomic_ema_range [of "fx_reuse_interval_ema_ms e" S32_MAX
      "parp_u64_to_ms (now - fx_last_access_ns e)"]
    sint_u32_range [of "parp_u64_to_ms (now - fx_last_access_ns e)"]
  by (simp add: folio_ext_ok_def parp_frontier_note_access_enabled_def Let_def)

lemma features_typed:
  assumes "folio_ext_ok e" and "parp_frontier_features ctx lru now (Some e) = Some (vals, e')"
  shows "folio_ext_ok e'" and "length vals = PARP_FRONTIER_FEATURES"
    and "\<forall>v \<in> set vals. 0 \<le> v \<and> v < 2 ^ 32"
proof -
  note ema = atomic_ema_range [of "fx_access_ema_q8 e" 256 0]
  have inc: "0 \<le> parp_atomic_saturating_inc (fx_inactive_count e)"
    "parp_atomic_saturating_inc (fx_inactive_count e) \<le> S32_MAX"
    using assms(1) by (auto simp: folio_ext_ok_def parp_atomic_saturating_inc_def)
  show "folio_ext_ok e'" "length vals = PARP_FRONTIER_FEATURES"
    using assms ema inc
    by (auto simp: parp_frontier_features_def folio_ext_ok_def Let_def split: if_splits)
  have "uint (fc_app_reentry_q15 ctx) < 2 ^ 32" using uint_lt2p [of "fc_app_reentry_q15 ctx"] by simp
  then show "\<forall>v \<in> set vals. 0 \<le> v \<and> v < 2 ^ 32"
    using assms ema inc uint_u64_to_ms
    by (auto simp: parp_frontier_features_def folio_ext_ok_def Let_def split: if_splits)
qed

text \<open>The history of a page from its zeroed extension: accesses, scans, and selections by any epoch.\<close>

inductive folio_ext_reach :: "parp_folio_ext \<Rightarrow> bool" where
  fresh: "folio_ext_reach folio_ext_zero"
| access: "folio_ext_reach e \<Longrightarrow> folio_ext_reach (parp_frontier_note_access_enabled now g e)"
| scan: "folio_ext_reach e \<Longrightarrow> parp_frontier_features ctx lru now (Some e) = Some (vals, e') \<Longrightarrow>
    folio_ext_reach e'"
| selected: "folio_ext_reach e \<Longrightarrow> folio_ext_reach (e \<lparr> fx_last_selected_epoch := epoch \<rparr>)"

lemma folio_ext_reach_ok: "folio_ext_reach e \<Longrightarrow> folio_ext_ok e"
proof (induction rule: folio_ext_reach.induct)
  case fresh
  then show ?case by (simp add: folio_ext_ok_def folio_ext_zero_def)
next
  case access
  then show ?case by (simp add: note_access_ok)
next
  case scan
  then show ?case by (auto dest: features_typed)
next
  case selected
  then show ?case by (simp add: folio_ext_ok_def)
qed

text \<open>C39. The signed arithmetic of the scorer stays in its types. Whatever accesses and scans a page sees
  from its zeroed extension on, its access average stays in 0..256, its interval average and its scan
  count in 0..INT\_MAX and its last interval in 32 bits; the eight features of a candidate are
  non-negative and below \<open>2 ^ 32\<close>; and the score of every model is within 368 of zero, so none of the
  32-bit sums overflows.
\<close>

theorem parp_frontier_history_typed:
  assumes "folio_ext_reach e" and "parp_frontier_features ctx lru now (Some e) = Some (vals, e')"
  shows "fx_access_ema_q8 e' \<in> {0..256} \<and> fx_reuse_interval_ema_ms e' \<in> {0..S32_MAX} \<and>
         fx_inactive_count e' \<in> {0..S32_MAX} \<and> fx_previous_interval_ms e' \<in> {S32_MIN..S32_MAX} \<and>
         length vals = PARP_FRONTIER_FEATURES \<and> (\<forall>v \<in> set vals. 0 \<le> v \<and> v < 2 ^ 32) \<and>
         \<bar>parp_frontier_score (parp_frontier_model_for app_id) vals\<bar> \<le> 368"
  using features_typed [OF folio_ext_reach_ok [OF assms(1)] assms(2)] frontier_score_bound
  by (simp add: folio_ext_ok_def)

text \<open>Witness of C39: a page accessed twice, scanned 8 ms later.\<close>

definition sample_history :: parp_folio_ext where
  "sample_history =
     parp_frontier_note_access_enabled 41000000 1 (parp_frontier_note_access_enabled 1000000 1
       folio_ext_zero)"

definition sample_frontier_lrugen :: parp_frontier_lrugen where
  "sample_frontier_lrugen = \<lparr> fl_max_seq = 9, fl_min_seq = (\<lambda>_. 6), fl_nr_pages = (\<lambda>g t z. 100),
     fl_frontier = (\<lambda>_. frontier_state_zero \<lparr> fs_efficiency_q15 := 16384,
                           fs_efficiency_samples := 1 \<rparr>) \<rparr>"

lemma sample_history_eq:
  "sample_history = \<lparr> fx_last_access_ns = 41000000, fx_generation_enter_ns = 1000000,
     fx_last_selected_epoch = 0, fx_previous_interval_ms = 40, fx_access_ema_q8 = 256,
     fx_reuse_interval_ema_ms = 40, fx_inactive_count = 0, fx_generation = 1 \<rparr>"
  by code_simp

theorem parp_frontier_history_typed_witness:
  "\<exists>vals e'. parp_frontier_features frontier_ctx_zero sample_frontier_lrugen 49000000
       (Some sample_history) = Some (vals, e') \<and> fx_access_ema_q8 e' \<in> {0..256} \<and>
     \<bar>parp_frontier_score (parp_frontier_model_for 2) vals\<bar> \<le> 368"
proof -
  have reach: "folio_ext_reach sample_history"
    unfolding sample_history_def by (intro folio_ext_reach.access folio_ext_reach.fresh)
  obtain r where r: "parp_frontier_features frontier_ctx_zero sample_frontier_lrugen 49000000
      (Some sample_history) = Some r"
    by (simp add: sample_history_eq parp_frontier_features_def Let_def)
  then show ?thesis
    using parp_frontier_history_typed [OF reach, of frontier_ctx_zero sample_frontier_lrugen
        49000000 "fst r" "snd r" 2] by (metis prod.collapse)
qed

section \<open>The longest scoring time\<close>

text \<open>The three ways one attempt can go.\<close>

lemma score_time_attempt:
  "\<not> duration > old \<Longrightarrow> score_time_loop env k duration old = (k, old)"
  "duration > old \<Longrightarrow> env k \<le> old \<Longrightarrow> score_time_loop env k duration old = (Suc k, duration)"
  "duration > old \<Longrightarrow> old < env k \<Longrightarrow>
     score_time_loop env k duration old = score_time_loop env (Suc k) duration (env k)"
  by (subst score_time_loop.simps; auto simp: Let_def max_def)+

lemma score_time_loop_facts:
  "score_time_loop env k duration old = (n, m) \<Longrightarrow>
     k \<le> n \<and> duration \<le> m \<and> old \<le> m \<and>
     n \<le> k + Suc (unat duration - unat old) \<and>
     (m = duration \<or> m = old \<or> (\<exists>j. k \<le> j \<and> j < n \<and> m = env j)) \<and>
     (\<forall>j. k \<le> j \<longrightarrow> Suc j < n \<longrightarrow> old < env j \<and> env j < duration)"
proof (induction env k duration old rule: score_time_loop.induct)
  case (1 env k duration old)
  consider "\<not> duration > old" | "duration > old" "env k \<le> old" | "duration > old" "old < env k"
    by force
  then show ?case
  proof cases
    case 1
    then show ?thesis using "1.prems" by (auto simp: score_time_attempt)
  next
    case 2
    then show ?thesis using "1.prems" by (auto simp: score_time_attempt)
  next
    case 3
    then have max: "max old (env k) = env k" and ne: "max old (env k) \<noteq> old" by auto
    have ih: "Suc k \<le> n \<and> duration \<le> m \<and> env k \<le> m \<and>
        n \<le> Suc k + Suc (unat duration - unat (env k)) \<and>
        (m = duration \<or> m = env k \<or> (\<exists>j. Suc k \<le> j \<and> j < n \<and> m = env j)) \<and>
        (\<forall>j. Suc k \<le> j \<longrightarrow> Suc j < n \<longrightarrow> env k < env j \<and> env j < duration)"
      using "1.IH" [OF _ refl ne] 3(1) "1.prems"
      unfolding max score_time_attempt(3) [of old duration env k, OF 3] by blast
    have run: "env k < duration" if "Suc k < n"
    proof (rule ccontr)
      assume "\<not> ?thesis"
      then show False using that "1.prems" 3 by (simp add: score_time_attempt)
    qed
    have cnt: "n \<le> k + Suc (unat duration - unat old)"
    proof (cases "env k < duration")
      case True
      then have "unat old < unat (env k)" "unat (env k) < unat duration"
        using 3(2) by (simp_all add: word_less_nat_alt)
      moreover have "n \<le> Suc k + Suc (unat duration - unat (env k))" using ih by blast
      ultimately show ?thesis by linarith
    next
      case False
      then show ?thesis using "1.prems" 3 by (simp add: score_time_attempt)
    qed
    have mem: "m = duration \<or> m = old \<or> (\<exists>j. k \<le> j \<and> j < n \<and> m = env j)"
    proof -
      have "k < n" using ih by simp
      then show ?thesis using ih by (auto intro: Suc_leD)
    qed
    have mono: "old < env j \<and> env j < duration" if "k \<le> j" "Suc j < n" for j
    proof (cases "j = k")
      case True
      then show ?thesis using 3 run that by simp
    next
      case False
      then have "Suc k \<le> j" using that(1) by simp
      then have "env k < env j \<and> env j < duration" using ih that(2) by blast
      then show ?thesis using 3(2) by (auto intro: order.strict_trans)
    qed
    have "k \<le> n" "duration \<le> m" "old \<le> m" using ih 3(2) by (auto intro: order.trans)
    then show ?thesis using cnt mem mono by blast
  qed
qed

text \<open>C40. The accounting of the longest scoring time ends. Whatever other CPUs store between the attempts,
  the compare-and-exchange loop returns: after at most \<open>duration - old + 1\<close> attempts, every one but the
  last charged to a store by another CPU that lay strictly between the old maximum and the new
  duration. The maximum it leaves is at least the duration and the old maximum, and is one of them or
  a value another CPU stored; without interference one attempt suffices.
\<close>

theorem parp_frontier_score_time_ends:
  "\<exists>n m. score_time_loop env 0 duration old = (n, m) \<and> n \<le> Suc (unat duration - unat old) \<and>
     duration \<le> m \<and> old \<le> m \<and> m \<in> insert duration (insert old (env ` {..<n})) \<and>
     env ` {j. Suc j < n} \<subseteq> {old <..< duration} \<and>
     (score_time_loop (\<lambda>_. 0) 0 duration old) = (if old < duration then (1, duration) else (0, old))"
proof -
  obtain n m where run: "score_time_loop env 0 duration old = (n, m)" by (cases "score_time_loop env 0 duration old")
  note f = score_time_loop_facts [OF run]
  have "score_time_loop (\<lambda>_. 0) 0 duration old = (if old < duration then (1, duration) else (0, old))"
    by (simp add: score_time_attempt)
  then show ?thesis using run f by (intro exI [of _ n] exI [of _ m]) auto
qed


section \<open>Selection\<close>

lemma unat_min_budget:
  "unat (parp_frontier_budget_min a b c d) = min (min (unat a) (unat b)) (min (unat c) (unat d))"
  by (simp add: parp_frontier_budget_min_def min_def word_le_nat_alt)

lemma unat_left: "unat (b - min u b) = unat b - unat u" for b u :: u64
  by (simp add: min_def unat_sub_if' word_le_nat_alt)

text \<open>What the four budgets say about the pages they admit.\<close>

lemma frontier_allowed_iff:
  "pages \<le> frontier_allowed ctx state \<longleftrightarrow>
     unat pages \<le> unat (fc_frontier_headroom ctx) \<and>
     unat pages \<le> unat (fc_app_budget ctx) - unat (fc_app_used ctx) \<and>
     unat pages \<le> unat (fc_batch_budget ctx) - unat (fc_batch_used ctx) \<and>
     unat pages \<le> unat (fc_epoch_budget ctx) - unat (fs_epoch_pages state)"
  by (simp add: word_le_nat_alt frontier_allowed_def unat_min_budget unat_left)

lemma frontier_leave_simps [simp]:
  "vd_would_promote (fst (frontier_leave c score d r w)) = False"
  "vd_reason (fst (frontier_leave c score d r w)) = r"
  "fw_lru (snd (frontier_leave c score d r w)) = fw_lru w"
  "fw_mode (snd (frontier_leave c score d r w)) = fw_mode w"
  "fw_enabled (snd (frontier_leave c score d r w)) = fw_enabled w"
  "vd_would_promote (fst (frontier_leave_invalid c r w)) = False"
  "fw_lru (snd (frontier_leave_invalid c r w)) = fw_lru w"
  "fw_mode (snd (frontier_leave_invalid c r w)) = fw_mode w"
  "fw_enabled (snd (frontier_leave_invalid c r w)) = fw_enabled w"
  by (simp_all add: frontier_leave_def frontier_leave_invalid_def Let_def)

lemma set_frontier_state_simps [simp]:
  "fl_frontier (fw_lru (set_frontier_state t st w)) = (fl_frontier (fw_lru w)) (t := st)"
  "fl_min_seq (fw_lru (set_frontier_state t st w)) = fl_min_seq (fw_lru w)"
  "fl_max_seq (fw_lru (set_frontier_state t st w)) = fl_max_seq (fw_lru w)"
  "fl_nr_pages (fw_lru (set_frontier_state t st w)) = fl_nr_pages (fw_lru w)"
  "fw_stats (set_frontier_state t st w) = fw_stats w"
  "fw_mode (set_frontier_state t st w) = fw_mode w"
  "fw_enabled (set_frontier_state t st w) = fw_enabled w"
  by (simp_all add: set_frontier_state_def)

text \<open>The tests a selected candidate passed, and what the selection writes.\<close>

lemma frontier_judge_selects:
  assumes "frontier_judge c vals ext ctx w = (ext', ctx', v, w')" and "vd_would_promote v"
  defines "state \<equiv> fl_frontier (fw_lru w) (fc_type ctx)"
  shows "vd_score v = parp_frontier_score (parp_frontier_model_for (fc_app_id ctx)) vals"
    and "fm_threshold (parp_frontier_model_for (fc_app_id ctx)) \<le> vd_score v"
    and "fx_last_selected_epoch ext \<noteq> fc_epoch_id ctx"
    and "cd_pages c \<le> frontier_allowed ctx state"
    and "ext' = ext \<lparr> fx_last_selected_epoch := fc_epoch_id ctx \<rparr>"
    and "ctx' = ctx \<lparr> fc_frontier_headroom := fc_frontier_headroom ctx - cd_pages c,
                      fc_batch_used := fc_batch_used ctx + cd_pages c,
                      fc_app_used := fc_app_used ctx + cd_pages c \<rparr>"
    and "fl_frontier (fw_lru w') = (fl_frontier (fw_lru w))
           (fc_type ctx := state \<lparr> fs_epoch_pages := fs_epoch_pages state + cd_pages c \<rparr>)"
  using assms(1,2) unfolding state_def
  by (auto simp: frontier_judge_def Let_def frontier_leave_def split: if_splits)

text \<open>Without a selection nothing but the history and the counters changes.\<close>

lemma frontier_judge_leaves:
  assumes "frontier_judge c vals ext ctx w = (ext', ctx', v, w')" and "\<not> vd_would_promote v"
  shows "ext' = ext" and "ctx' = ctx" and "fw_lru w' = fw_lru w"
  using assms by (auto simp: frontier_judge_def Let_def frontier_leave_def split: if_splits)

lemma frontier_judge_frame:
  assumes "frontier_judge c vals ext ctx w = (ext', ctx', v, w')"
  shows "fw_mode w' = fw_mode w" and "fw_enabled w' = fw_enabled w"
    and "fl_min_seq (fw_lru w') = fl_min_seq (fw_lru w)"
  using assms by (auto simp: frontier_judge_def Let_def frontier_leave_def split: if_splits)

lemma consider_selects:
  assumes run: "frontier_consider_body c page ctx w = (page', ctx', v, w')" and "vd_would_promote v"
  obtains vals ext ext0 ext' w0 where "page = Some ext0" and "page' = Some ext'"
    and "parp_frontier_features ctx (fw_lru w) (cd_features_now c) page = Some (vals, ext)"
    and "frontier_judge c vals ext ctx w0 = (ext', ctx', v, w')"
    and "fw_lru w0 = fw_lru w" and "fc_valid ctx" and "cd_now c < fc_valid_until_ns ctx"
    and "fc_source_seq ctx = fl_min_seq (fw_lru w) (fc_type ctx)"
    and "fc_frontier_seq ctx = fc_source_seq ctx"
proof -
  let ?w0 = "w \<lparr> fw_stats := (fw_stats w) \<lparr> ft_candidates := ft_candidates (fw_stats w) + 1 \<rparr> \<rparr>"
  have no: "v \<noteq> fst (frontier_leave c s d r w1)" "v \<noteq> fst (frontier_leave_invalid c r w1)" for s d r w1
    using assms(2) by auto
  obtain vals ext where feat:
      "parp_frontier_features ctx (fw_lru w) (cd_features_now c) page = Some (vals, ext)"
    and valid: "fc_valid ctx" "fc_frontier_seq ctx = fc_source_seq ctx"
      "parp_frontier_context_valid (cd_now c) (fc_valid_until_ns ctx) (fc_source_seq ctx)
         (fl_min_seq (fw_lru w) (fc_type ctx))"
    and judge: "(case frontier_judge c vals ext ctx ?w0 of
        (ext1, ctx1, v, w1) \<Rightarrow> (Some ext1, ctx1, v, w1)) = (page', ctx', v, w')"
    using run no
    by (auto simp: frontier_consider_body_def Let_def frontier_leave_def frontier_leave_invalid_def
        split: if_splits option.splits)
  obtain ext0 where "page = Some ext0" using feat by (cases page) (auto simp: parp_frontier_features_def)
  moreover obtain ext' where "page' = Some ext'" "frontier_judge c vals ext ctx ?w0 = (ext', ctx', v, w')"
    using judge by (auto split: prod.splits)
  ultimately show ?thesis
    using that [of ext0 ext' vals ext ?w0] feat valid by (simp add: parp_frontier_context_valid_def)
qed

lemma features_keep_epoch:
  "parp_frontier_features ctx lru now (Some e) = Some (vals, e') \<Longrightarrow>
   fx_last_selected_epoch e' = fx_last_selected_epoch e"
  by (auto simp: parp_frontier_features_def Let_def split: if_splits)


lemma selected_not_again:
  assumes "fc_epoch_id ctx = fx_last_selected_epoch ext"
    and "frontier_consider_body c (Some ext) ctx w = (page', ctx', v, w')"
  shows "\<not> vd_would_promote v"
proof
  assume v: "vd_would_promote v"
  then obtain vals e ext' w0 where
      "parp_frontier_features ctx (fw_lru w) (cd_features_now c) (Some ext) = Some (vals, e)"
      "frontier_judge c vals e ctx w0 = (ext', ctx', v, w')"
    by (rule consider_selects [OF assms(2)])
  then show False
    using frontier_judge_selects(3) [OF _ v] features_keep_epoch assms(1) by metis
qed

text \<open>C12. A folio is counted as a promotion only on evidence and within all four budgets. Then the context
  was valid and not expired, its source generation is still the oldest and is the frontier itself, the
  page has a history from which the features were taken, the model's score reaches its threshold, the
  page was not selected in this epoch before, and its pages fit the headroom and the application,
  batch and epoch budgets, whose use they advance without wrapping. The selection is remembered: no
  later call of the same epoch selects the page again.
\<close>

theorem parp_frontier_selection_justified:
  assumes "frontier_consider_body c page ctx w = (page', ctx', v, w')" and "vd_would_promote v"
    and "cd_pages c \<noteq> 0"
  shows "fc_valid ctx \<and> cd_now c < fc_valid_until_ns ctx \<and>
         fc_source_seq ctx = fl_min_seq (fw_lru w) (fc_type ctx) \<and>
         fc_frontier_seq ctx = fc_source_seq ctx \<and>
         (\<exists>ext0 vals ext. page = Some ext0 \<and> fx_last_selected_epoch ext0 \<noteq> fc_epoch_id ctx \<and>
            parp_frontier_features ctx (fw_lru w) (cd_features_now c) page = Some (vals, ext) \<and>
            fst (parp_frontier_score_values (fc_app_id ctx) vals) = vd_score v \<and>
            the (snd (parp_frontier_score_values (fc_app_id ctx) vals)) \<le> vd_score v) \<and>
         unat (fc_frontier_headroom ctx') + unat (cd_pages c) = unat (fc_frontier_headroom ctx) \<and>
         unat (fc_app_used ctx') = unat (fc_app_used ctx) + unat (cd_pages c) \<and>
         unat (fc_app_used ctx') \<le> unat (fc_app_budget ctx) \<and>
         unat (fc_batch_used ctx') = unat (fc_batch_used ctx) + unat (cd_pages c) \<and>
         unat (fc_batch_used ctx') \<le> unat (fc_batch_budget ctx) \<and>
         unat (fs_epoch_pages (fl_frontier (fw_lru w') (fc_type ctx))) =
           unat (fs_epoch_pages (fl_frontier (fw_lru w) (fc_type ctx))) + unat (cd_pages c) \<and>
         unat (fs_epoch_pages (fl_frontier (fw_lru w') (fc_type ctx))) \<le> unat (fc_epoch_budget ctx) \<and>
         (\<forall>c2 ctx2 w2 page2 ctx3 v2 w3. fc_epoch_id ctx2 = fc_epoch_id ctx \<longrightarrow>
            frontier_consider_body c2 page' ctx2 w2 = (page2, ctx3, v2, w3) \<longrightarrow>
            \<not> vd_would_promote v2)"
proof -
  obtain vals ext ext0 ext' w0 where page: "page = Some ext0" "page' = Some ext'"
    and feat: "parp_frontier_features ctx (fw_lru w) (cd_features_now c) page = Some (vals, ext)"
    and judge: "frontier_judge c vals ext ctx w0 = (ext', ctx', v, w')" and lru: "fw_lru w0 = fw_lru w"
    and valid: "fc_valid ctx" "cd_now c < fc_valid_until_ns ctx"
      "fc_source_seq ctx = fl_min_seq (fw_lru w) (fc_type ctx)" "fc_frontier_seq ctx = fc_source_seq ctx"
    by (rule consider_selects [OF assms(1,2)])
  note j = frontier_judge_selects [OF judge assms(2), unfolded lru]
  have ep: "fx_last_selected_epoch ext0 \<noteq> fc_epoch_id ctx"
    using j(3) features_keep_epoch feat page(1) by metis
  have pos: "0 < unat (cd_pages c)" using assms(3) by (simp add: unat_gt_0)
  note fit = j(4) [unfolded frontier_allowed_iff]
  have score: "fst (parp_frontier_score_values (fc_app_id ctx) vals) = vd_score v \<and>
      the (snd (parp_frontier_score_values (fc_app_id ctx) vals)) \<le> vd_score v"
    using j(1,2) by (simp add: parp_frontier_score_values_def Let_def)
  have again: "\<not> vd_would_promote v2"
    if "fc_epoch_id ctx2 = fc_epoch_id ctx"
      "frontier_consider_body c2 (Some ext') ctx2 w2 = (page2, ctx3, v2, w3)"
    for c2 ctx2 w2 page2 ctx3 v2 w3
    using selected_not_again [OF _ that(2)] that(1) j(5) by simp
  have sums: "unat (a + cd_pages c) = unat a + unat (cd_pages c)"
    if "unat (cd_pages c) \<le> unat b - unat a" for a b :: u64
    using that pos unat_u64_bound [of b] by (intro unat_add_no_wrap) linarith
  have head: "unat (fc_frontier_headroom ctx - cd_pages c) + unat (cd_pages c) = unat (fc_frontier_headroom ctx)"
    using fit by (simp add: unat_sub word_le_nat_alt)
  show ?thesis
    using valid page feat ep score head fit pos again sums [of "fc_app_budget ctx" "fc_app_used ctx"]
      sums [of "fc_batch_budget ctx" "fc_batch_used ctx"]
      sums [of "fc_epoch_budget ctx" "fs_epoch_pages (fl_frontier (fw_lru w) (fc_type ctx))"]
    by (auto simp: j(6,7))
qed


text \<open>Witness of C12: the page of the earlier witness, four pages large, scores 138 against 96.\<close>

definition sample_frontier_world :: parp_frontier_world where
  "sample_frontier_world = \<lparr> fw_mode = PARP_FRONTIER_SHADOW, fw_enabled = True, fw_batch_id = 0,
     fw_stats = frontier_stats_zero, fw_lru = sample_frontier_lrugen \<rparr>"

definition sample_frontier_ctx :: parp_frontier_scan_ctx where
  "sample_frontier_ctx = frontier_ctx_zero \<lparr> fc_valid := True, fc_type := True,
     fc_mode := PARP_FRONTIER_SHADOW, fc_threshold := 96, fc_app_reentry_q15 := 30000,
     fc_app_id := 10, fc_epoch_id := 1, fc_valid_until_ns := 50003000, fc_source_seq := 6,
     fc_frontier_seq := 6, fc_frontier_headroom := 38, fc_app_budget := 117,
     fc_batch_budget := 128, fc_epoch_budget := 512 \<rparr>"

definition sample_candidate :: frontier_candidate where
  "sample_candidate = \<lparr> cd_pfn = 77, cd_pages = 4, cd_now = 48000000, cd_features_now = 49000000,
     cd_score_started_ns = 49000100, cd_score_ended_ns = 49000900, cd_emitted_ns = 49001000,
     cd_trace_enabled = False, cd_cookie = (\<lambda>a b. a + b), cd_env = (\<lambda>_. 0) \<rparr>"

theorem parp_frontier_selection_justified_witness:
  "\<exists>page' ctx' v w'.
     frontier_consider_body sample_candidate (Some sample_history) sample_frontier_ctx
       sample_frontier_world = (page', ctx', v, w') \<and> vd_would_promote v \<and>
     unat (fc_batch_used ctx') = 4"
proof -
  obtain page' ctx' v w' where run: "frontier_consider_body sample_candidate (Some sample_history)
      sample_frontier_ctx sample_frontier_world = (page', ctx', v, w')"
    by (metis prod_cases4)
  have "vd_would_promote (fst (snd (snd (frontier_consider_body sample_candidate
      (Some sample_history) sample_frontier_ctx sample_frontier_world))))"
    unfolding sample_history_eq by code_simp
  then have v: "vd_would_promote v" by (simp add: run)
  have pages: "cd_pages sample_candidate = 4" "fc_batch_used sample_frontier_ctx = 0"
    by (simp_all add: sample_candidate_def sample_frontier_ctx_def frontier_ctx_zero_def)
  then have "cd_pages sample_candidate \<noteq> 0" by simp
  from parp_frontier_selection_justified [OF run v this] pages run v show ?thesis by auto
qed

section \<open>Efficiency feedback\<close>

text \<open>The efficiency estimate follows a rise and escapes on a fall. A sample at or above the estimate
  moves it a quarter of the way up, rounded down. A sample below an estimate in range wraps the
  unsigned difference: the estimate jumps to at least \<open>2 ^ 30 - 8192\<close>, far outside the Q15 range, and
  with that estimate no demand and no capacities yield a frontier.
\<close>

theorem parp_frontier_efficiency_fall_escapes:
  assumes "efficiency \<le> PARP_FRONTIER_Q15_ONE" and "sample \<le> PARP_FRONTIER_Q15_ONE"
  shows "if efficiency \<le> sample
         then unat (frontier_efficiency_next efficiency sample) =
                unat efficiency + (unat sample - unat efficiency) div 4 \<and>
              efficiency \<le> frontier_efficiency_next efficiency sample \<and>
              frontier_efficiency_next efficiency sample \<le> sample
         else 2 ^ 30 - 8192 \<le> unat (frontier_efficiency_next efficiency sample) \<and>
              parp_frontier_select cs demand (frontier_efficiency_next efficiency sample) = None"
proof (cases "efficiency \<le> sample")
  case True
  then have diff: "unat (sample - efficiency) = unat sample - unat efficiency"
    by (simp add: unat_sub)
  have "unat efficiency + (unat sample - unat efficiency) div 4 \<le> unat sample"
    using True by (simp add: word_le_nat_alt)
  moreover from this have "unat (frontier_efficiency_next efficiency sample) =
      unat efficiency + (unat sample - unat efficiency) div 4"
    unfolding frontier_efficiency_next_def
    using unat_u32_bound [of sample]
    by (subst unat_add_lem [THEN iffD1]) (auto simp: unat_div diff)
  ultimately show ?thesis using True by (simp add: word_le_nat_alt)
next
  case False
  let ?e = "unat efficiency" and ?s = "unat sample"
  have lt: "?s < ?e" "?e \<le> 32767" using False assms(1) by (simp_all add: word_le_nat_alt)
  have "unat (sample - efficiency) = 2 ^ 32 - (?e - ?s)"
    using lt by (simp add: unat_sub_if' word_le_nat_alt)
  then have q: "unat ((sample - efficiency) div 4) = (2 ^ 32 - (?e - ?s)) div 4"
    by (simp add: unat_div)
  have lo: "2 ^ 30 - 8192 \<le> (2 ^ 32 - (?e - ?s)) div 4"
    and hi: "?e + (2 ^ 32 - (?e - ?s)) div 4 < 2 ^ 32"
    using lt by simp_all
  then have nx: "unat (frontier_efficiency_next efficiency sample) = ?e + (2 ^ 32 - (?e - ?s)) div 4"
    unfolding frontier_efficiency_next_def q [symmetric]
    by (subst unat_add_lem [THEN iffD1]) simp_all
  then have "2 ^ 30 - 8192 \<le> unat (frontier_efficiency_next efficiency sample)" using lo by linarith
  then show ?thesis using False by (simp add: parp_frontier_select_def word_less_nat_alt)
qed

text \<open>An instance: from full efficiency, one round that reclaims nothing.\<close>

theorem parp_frontier_efficiency_fall_escapes_witness:
  "frontier_sample 32 0 = Some 0 \<and> frontier_efficiency_next 32767 0 = 0x40005FFF \<and>
   parp_frontier_select [1000, 1000] 1 (frontier_efficiency_next 32767 0) = None"
  using parp_frontier_efficiency_fall_escapes [of 32767 0 "[1000, 1000]" 1]
  by (simp add: frontier_efficiency_next_def frontier_sample_def mul_div_defined_def
      mul_u64_u32_div_def mul_u64_u64_div_u64_def)


section \<open>The module over time\<close>

text \<open>
  Any number of reclaimers, each with its own scan context, interleave on the lruvec, with the mode
  switch, the feedback and native MGLRU. Ghost components: the headroom each context was prepared
  with, and the pages of all folios the module considered.
\<close>

record frontier_system =
  sy_world :: parp_frontier_world
  sy_ctx :: "nat \<Rightarrow> parp_frontier_scan_ctx"
  sy_headroom :: "nat \<Rightarrow> u64"
  sy_considered :: u64

definition frontier_boot :: "(nat \<Rightarrow> parp_frontier_scan_ctx) \<Rightarrow> parp_frontier_lrugen \<Rightarrow> frontier_system" where
  "frontier_boot stacks lru = \<lparr> sy_world = \<lparr> fw_mode = PARP_FRONTIER_OFF, fw_enabled = False,
        fw_batch_id = 0, fw_stats = frontier_stats_zero,
        fw_lru = lru \<lparr> fl_frontier := \<lambda>_. frontier_state_zero \<rparr> \<rparr>,
     sy_ctx = (\<lambda>p. (stacks p) \<lparr> fc_valid := False \<rparr>), sy_headroom = (\<lambda>_. 0), sy_considered = 0 \<rparr>"

inductive frontier_step :: "frontier_system \<Rightarrow> frontier_system \<Rightarrow> bool" where
  prepare: "parp_frontier_prepare r (sy_ctx s p) (sy_world s) = (ctx', w') \<Longrightarrow>
    frontier_step s (s \<lparr> sy_world := w', sy_ctx := (sy_ctx s) (p := ctx'),
      sy_headroom := (sy_headroom s) (p := fc_frontier_headroom ctx') \<rparr>)"
| candidate: "parp_frontier_consider c page (sy_ctx s p) (sy_world s) = (page', ctx', w') \<Longrightarrow>
    frontier_step s (s \<lparr> sy_world := w', sy_ctx := (sy_ctx s) (p := ctx'),
      sy_considered := sy_considered s + (if fw_enabled (sy_world s) then cd_pages c else 0) \<rparr>)"
| feedback: "parp_frontier_feedback type isolated reclaimed (sy_world s) = Some w' \<Longrightarrow>
    frontier_step s (s \<lparr> sy_world := w' \<rparr>)"
| set_mode: "frontier_step s (s \<lparr> sy_world := snd (parp_frontier_set_mode code (sy_world s)) \<rparr>)"
| native: "fl_frontier lru = fl_frontier (fw_lru (sy_world s)) \<Longrightarrow>
    frontier_step s (s \<lparr> sy_world := (sy_world s) \<lparr> fw_lru := lru \<rparr> \<rparr>)"

inductive frontier_reach :: "frontier_system \<Rightarrow> bool" where
  boot: "frontier_reach (frontier_boot stacks lru)"
| step: "frontier_reach s \<Longrightarrow> frontier_step s s' \<Longrightarrow> frontier_reach s'"

definition frontier_balanced :: "u64 \<Rightarrow> parp_frontier_stats \<Rightarrow> bool" where
  "frontier_balanced considered s \<longleftrightarrow>
     ft_scores s = ft_below_threshold s + ft_repeat_epoch s + ft_budget_reject s + ft_would_promote s \<and>
     considered = ft_would_promote_pages s + ft_native_bypass_pages s \<and>
     ft_applied s = 0 \<and> ft_actual_promote_pages s = 0"

definition frontier_mode_ok :: "parp_frontier_world \<Rightarrow> bool" where
  "frontier_mode_ok w \<longleftrightarrow> fw_mode w \<noteq> PARP_FRONTIER_APPLY \<and>
     (fw_enabled w \<longleftrightarrow> fw_mode w = PARP_FRONTIER_SHADOW)"

definition frontier_epochs_ok :: "parp_frontier_lrugen \<Rightarrow> bool" where
  "frontier_epochs_ok lru \<longleftrightarrow> (\<forall>t. unat (fs_epoch_pages (fl_frontier lru t)) \<le> 512)"

definition frontier_ctx_ok :: "u64 \<Rightarrow> parp_frontier_scan_ctx \<Rightarrow> bool" where
  "frontier_ctx_ok headroom ctx \<longleftrightarrow> (fc_valid ctx \<longrightarrow>
     fc_batch_budget ctx = 128 \<and> fc_epoch_budget ctx = 512 \<and> fc_app_budget ctx \<noteq> 0 \<and>
     fc_app_used ctx = fc_batch_used ctx \<and> unat (fc_batch_used ctx) \<le> 128 \<and>
     unat (fc_app_used ctx) \<le> unat (fc_app_budget ctx) \<and>
     unat (fc_frontier_headroom ctx) + unat (fc_batch_used ctx) = unat headroom)"

interpretation frontier_mode: mode_switch "frontier_mode_code \<circ> fw_mode" parp_frontier_set_mode
  frontier_mode_ok
proof
  fix m :: nat and w w' :: parp_frontier_world and e
  show "parp_frontier_set_mode m w = (None, w') \<Longrightarrow> (frontier_mode_code \<circ> fw_mode) w' = m"
    by (auto simp: parp_frontier_set_mode_def split: if_splits)
  show "parp_frontier_set_mode m w = (Some e, w') \<Longrightarrow> w' = w"
    by (auto simp: parp_frontier_set_mode_def split: if_splits)
  show "frontier_mode_ok w \<Longrightarrow> frontier_mode_ok (snd (parp_frontier_set_mode m w))"
    by (cases "fw_mode w") (auto simp: parp_frontier_set_mode_def frontier_mode_ok_def split: if_splits)
qed

text \<open>Preparing.\<close>

lemma prepare_reason_balanced [simp]:
  "frontier_balanced n (parp_frontier_prepare_reason r s) = frontier_balanced n s"
  by (simp add: frontier_balanced_def parp_frontier_prepare_reason_def split: parp_frontier_reason.splits)

lemma prepare_balanced:
  assumes "parp_frontier_prepare r ctx w = (ctx', w')"
  shows "frontier_balanced n (fw_stats w') = frontier_balanced n (fw_stats w)"
    and "fw_mode w' = fw_mode w" and "fw_enabled w' = fw_enabled w"
proof -
  have count: "frontier_balanced n (s \<lparr> ft_prepare := x \<rparr>) = frontier_balanced n s" for s x
    by (simp add: frontier_balanced_def)
  show "frontier_balanced n (fw_stats w') = frontier_balanced n (fw_stats w)"
    "fw_mode w' = fw_mode w" "fw_enabled w' = fw_enabled w"
    using assms
    by (auto simp: parp_frontier_prepare_def parp_frontier_prepare_enabled_def count
        frontier_prepare_scored_def frontier_refuse_def frontier_bypass_def Let_def
        split: if_splits option.splits prod.splits)
qed

lemma prepare_epochs:
  assumes "parp_frontier_prepare r ctx w = (ctx', w')" and "frontier_epochs_ok (fw_lru w)"
  shows "frontier_epochs_ok (fw_lru w')"
  using assms
  by (auto simp: parp_frontier_prepare_def parp_frontier_prepare_enabled_def
      frontier_prepare_scored_def frontier_refuse_def frontier_bypass_def frontier_epoch_step_def
      frontier_epochs_ok_def Let_def split: if_splits option.splits prod.splits)

lemma prepare_ctx:
  assumes "parp_frontier_prepare r ctx w = (ctx', w')"
  shows "frontier_ctx_ok (fc_frontier_headroom ctx') ctx'"
  using assms
  by (auto simp: parp_frontier_prepare_def parp_frontier_prepare_enabled_def frontier_ctx_zero_def
      frontier_prepare_scored_def frontier_refuse_def frontier_bypass_def frontier_ctx_ok_def
      Let_def max_def split: if_splits option.splits prod.splits)


text \<open>Considering.\<close>

lemma frontier_balanced_simps:
  "frontier_balanced n (s \<lparr> ft_candidates := x \<rparr>) = frontier_balanced n s"
  "frontier_balanced n (s \<lparr> ft_trace_events := x \<rparr>) = frontier_balanced n s"
  "frontier_balanced n (s \<lparr> ft_feedback_samples := x \<rparr>) = frontier_balanced n s"
  "frontier_balanced n (parp_frontier_account_score_time env d s) = frontier_balanced n s"
  by (simp_all add: frontier_balanced_def parp_frontier_account_score_time_def)

lemma emit_balanced:
  "parp_frontier_emit ctx c v s = (s', event) \<Longrightarrow> frontier_balanced n s' = frontier_balanced n s"
  by (auto simp: parp_frontier_emit_def frontier_balanced_simps split: if_splits)

lemma leave_invalid_balanced:
  "frontier_balanced n (fw_stats w) \<Longrightarrow>
   frontier_balanced (n + cd_pages c) (fw_stats (snd (frontier_leave_invalid c r w)))"
  by (simp add: frontier_balanced_def frontier_leave_invalid_def frontier_native_def Let_def)

lemma leave_balanced:
  assumes "frontier_balanced n (fw_stats w)"
    and "r \<in> {PARP_FRONTIER_EXPIRED, PARP_FRONTIER_NOT_FRONTIER, PARP_FRONTIER_METADATA_MISSING}"
  shows "frontier_balanced (n + cd_pages c) (fw_stats (snd (frontier_leave c x d r w)))"
  using assms
  by (auto simp: frontier_balanced_def frontier_leave_def frontier_native_def frontier_count_def)

lemma judge_balanced:
  assumes "frontier_judge c vals ext ctx w = (ext', ctx', v, w')"
    and "frontier_balanced n (fw_stats w)"
  shows "frontier_balanced (n + cd_pages c) (fw_stats w')"
  using assms
  by (auto simp: frontier_judge_def Let_def frontier_leave_def frontier_native_def frontier_count_def
      frontier_balanced_def parp_frontier_account_score_time_def set_frontier_state_def
      split: if_splits)

lemma body_cases:
  assumes "frontier_consider_body c page ctx w = (page', ctx', v, w')"
  defines "w0 \<equiv> w \<lparr> fw_stats := (fw_stats w) \<lparr> ft_candidates := ft_candidates (fw_stats w) + 1 \<rparr> \<rparr>"
  obtains (invalid) "(v, w') = frontier_leave_invalid c (fc_reason ctx) w0"
    | (leave) r where "(v, w') = frontier_leave c 0 0 r w0"
        and "r \<in> {PARP_FRONTIER_EXPIRED, PARP_FRONTIER_NOT_FRONTIER, PARP_FRONTIER_METADATA_MISSING}"
    | (judge) vals ext ext1 where "frontier_judge c vals ext ctx w0 = (ext1, ctx', v, w')"
proof -
  note run = assms(1) [unfolded frontier_consider_body_def Let_def, folded w0_def]
  consider "\<not> fc_valid ctx"
    | "fc_valid ctx" "\<not> parp_frontier_context_valid (cd_now c) (fc_valid_until_ns ctx)
         (fc_source_seq ctx) (fl_min_seq (fw_lru w0) (fc_type ctx))"
    | "fc_valid ctx" "parp_frontier_context_valid (cd_now c) (fc_valid_until_ns ctx)
         (fc_source_seq ctx) (fl_min_seq (fw_lru w0) (fc_type ctx))" by blast
  then show ?thesis
  proof cases
    case 1
    then show ?thesis using run invalid by auto
  next
    case 2
    then show ?thesis using run leave [of PARP_FRONTIER_EXPIRED] by auto
  next
    case 3
    then show ?thesis using run leave [of PARP_FRONTIER_NOT_FRONTIER] leave [of PARP_FRONTIER_METADATA_MISSING] judge
      by (auto split: if_splits option.splits prod.splits)
  qed
qed

lemma body_balanced:
  assumes run: "frontier_consider_body c page ctx w = (page', ctx', v, w')"
    and "frontier_balanced n (fw_stats w)"
  shows "frontier_balanced (n + cd_pages c) (fw_stats w')"
proof -
  let ?w = "w \<lparr> fw_stats := (fw_stats w) \<lparr> ft_candidates := ft_candidates (fw_stats w) + 1 \<rparr> \<rparr>"
  have w: "frontier_balanced n (fw_stats ?w)" using assms(2) by (simp add: frontier_balanced_simps)
  show ?thesis
  proof (cases rule: body_cases [OF run])
    case 1
    then show ?thesis using leave_invalid_balanced [OF w, of c "fc_reason ctx"] by (metis snd_conv)
  next
    case (2 r)
    then show ?thesis using leave_balanced [OF w, of r c 0 0] by (metis snd_conv)
  next
    case (3 vals ext ext1)
    then show ?thesis using judge_balanced [OF _ w] by blast
  qed
qed

text \<open>What a call that selects nothing leaves, and what a selection does to context and epoch.\<close>

lemma body_leaves:
  assumes "frontier_consider_body c page ctx w = (page', ctx', v, w')" and "\<not> vd_would_promote v"
  shows "ctx' = ctx \<and> fw_lru w' = fw_lru w"
  using assms
  by (auto simp: frontier_consider_body_def Let_def frontier_leave_def frontier_leave_invalid_def
      dest: frontier_judge_leaves(2,3) split: if_splits option.splits prod.splits)

lemma consider_frame:
  assumes "frontier_consider_body c page ctx w = (page', ctx', v, w')"
  shows "fw_mode w' = fw_mode w \<and> fw_enabled w' = fw_enabled w"
  using assms
  by (auto simp: frontier_consider_body_def Let_def frontier_leave_def frontier_leave_invalid_def
      dest: frontier_judge_frame split: if_splits option.splits prod.splits)

lemma body_budgets:
  assumes run: "frontier_consider_body c page ctx w = (page', ctx', v, w')"
    and ctx: "frontier_ctx_ok h ctx" and ep: "frontier_epochs_ok (fw_lru w)"
  shows "frontier_ctx_ok h ctx' \<and> frontier_epochs_ok (fw_lru w')"
proof (cases "vd_would_promote v")
  case False
  then show ?thesis using body_leaves [OF run] ctx ep by simp
next
  case True
  let ?st = "fl_frontier (fw_lru w) (fc_type ctx)" and ?p = "cd_pages c"
  obtain vals ext ext' w0 where judge: "frontier_judge c vals ext ctx w0 = (ext', ctx', v, w')"
    and lru: "fw_lru w0 = fw_lru w" and valid: "fc_valid ctx"
    by (rule consider_selects [OF run True])
  note j = frontier_judge_selects [OF judge True, unfolded lru]
  note c = ctx [unfolded frontier_ctx_ok_def, rule_format, OF valid]
  note fit = j(4) [unfolded frontier_allowed_iff]
  have e: "unat (fs_epoch_pages ?st) \<le> 512" using ep by (simp add: frontier_epochs_ok_def)
  have "unat ?p \<le> 512 - unat (fs_epoch_pages ?st)" using c fit by simp
  then have sum: "unat (fs_epoch_pages ?st) + unat ?p \<le> 512" using e by linarith
  then have "unat (fc_batch_used ctx + ?p) = unat (fc_batch_used ctx) + unat ?p"
    "unat (fs_epoch_pages ?st + ?p) = unat (fs_epoch_pages ?st) + unat ?p"
    using c fit by (auto intro!: unat_add_no_wrap)
  moreover have "unat (fc_frontier_headroom ctx - ?p) = unat (fc_frontier_headroom ctx) - unat ?p"
    using fit by (simp add: unat_sub word_le_nat_alt)
  ultimately show ?thesis
    using c fit ep sum by (auto simp: j(6,7) frontier_ctx_ok_def frontier_epochs_ok_def)
qed

lemma consider_world:
  assumes "parp_frontier_consider c page ctx w = (page', ctx', w')" and "fw_enabled w"
  obtains v w1 s event where "frontier_consider_body c page ctx w = (page', ctx', v, w1)"
    and "parp_frontier_emit ctx' c v (fw_stats w1) = (s, event)" and "w' = w1 \<lparr> fw_stats := s \<rparr>"
  using assms
  by (auto simp: parp_frontier_consider_def parp_frontier_consider_enabled_def split: prod.splits)

definition frontier_system_ok :: "frontier_system \<Rightarrow> bool" where
  "frontier_system_ok s \<longleftrightarrow> frontier_mode_ok (sy_world s) \<and>
     frontier_epochs_ok (fw_lru (sy_world s)) \<and>
     (\<forall>p. frontier_ctx_ok (sy_headroom s p) (sy_ctx s p)) \<and>
     frontier_balanced (sy_considered s) (fw_stats (sy_world s))"

lemma frontier_feedback_frame:
  assumes "parp_frontier_feedback type isolated reclaimed w = Some w'"
  shows "fw_mode w' = fw_mode w \<and> fw_enabled w' = fw_enabled w \<and>
    frontier_epochs_ok (fw_lru w') = frontier_epochs_ok (fw_lru w) \<and>
    frontier_balanced n (fw_stats w') = frontier_balanced n (fw_stats w)"
  using assms
  by (auto simp: parp_frontier_feedback_def Let_def frontier_epochs_ok_def frontier_balanced_simps
      split: if_splits option.splits)

lemma frontier_step_ok: "frontier_step s s' \<Longrightarrow> frontier_system_ok s \<Longrightarrow> frontier_system_ok s'"
proof (induction rule: frontier_step.induct)
  case (prepare r s p ctx' w')
  then show ?case
    using prepare_balanced [OF prepare.hyps] prepare_epochs [OF prepare.hyps] prepare_ctx [OF prepare.hyps]
    by (auto simp: frontier_system_ok_def frontier_mode_ok_def)
next
  case (candidate c page s p page' ctx' w')
  show ?case
  proof (cases "fw_enabled (sy_world s)")
    case True
    then obtain v w1 st event where run: "frontier_consider_body c page (sy_ctx s p) (sy_world s) = (page', ctx', v, w1)"
      and emit: "parp_frontier_emit ctx' c v (fw_stats w1) = (st, event)" and w': "w' = w1 \<lparr> fw_stats := st \<rparr>"
      by (rule consider_world [OF candidate.hyps])
    show ?thesis
      using candidate.prems True consider_frame [OF run] body_budgets [OF run, of "sy_headroom s p"]
        body_balanced [OF run] emit_balanced [OF emit]
      by (auto simp: w' frontier_system_ok_def frontier_mode_ok_def)
  next
    case False
    then have "ctx' = sy_ctx s p" "w' = sy_world s"
      using candidate.hyps by (auto simp: parp_frontier_consider_def)
    then show ?thesis using candidate.prems False by (simp add: frontier_system_ok_def)
  qed
next
  case (feedback type isolated reclaimed s w')
  then show ?case using frontier_feedback_frame [OF feedback.hyps]
    by (auto simp: frontier_system_ok_def frontier_mode_ok_def)
next
  case (set_mode s code)
  have "fw_lru (snd (parp_frontier_set_mode code w)) = fw_lru w"
    "fw_stats (snd (parp_frontier_set_mode code w)) = fw_stats w" for w
    by (auto simp: parp_frontier_set_mode_def)
  then show ?case using set_mode frontier_mode.put_ok by (simp add: frontier_system_ok_def)
next
  case (native lru s)
  then show ?case by (simp add: frontier_system_ok_def frontier_mode_ok_def frontier_epochs_ok_def)
qed

lemma frontier_reach_ok: "frontier_reach s \<Longrightarrow> frontier_system_ok s"
proof (induction rule: frontier_reach.induct)
  case (boot stacks lru)
  show ?case
    by (simp add: frontier_system_ok_def frontier_boot_def frontier_mode_ok_def frontier_epochs_ok_def
        frontier_ctx_ok_def frontier_balanced_def frontier_stats_zero_def frontier_state_zero_def)
next
  case (step s s')
  then show ?case by (simp add: frontier_step_ok)
qed


text \<open>C28. Through any interleaving of reclaimers, mode writes, feedback and native aging, the frontier
  scorer only observes and stays within its budgets: the mode is never APPLY, the static branch
  follows it, and no promotion is ever applied; an epoch holds at most 512 selected pages, and a valid
  context at most 128, its application share and the headroom it was prepared with; every scored
  candidate ended in exactly one of the four verdicts, and every considered page was counted either as
  a promotion or as left to native reclaim.
\<close>

theorem parp_frontier_reachable_ok:
  assumes "frontier_reach s"
  defines "w \<equiv> sy_world s" and "st \<equiv> fw_stats (sy_world s)"
  shows "fw_mode w \<noteq> PARP_FRONTIER_APPLY \<and> (fw_enabled w \<longleftrightarrow> fw_mode w = PARP_FRONTIER_SHADOW) \<and>
         ft_applied st = 0 \<and> ft_actual_promote_pages st = 0 \<and>
         (\<forall>t. unat (fs_epoch_pages (fl_frontier (fw_lru w) t)) \<le> 512) \<and>
         (\<forall>p. fc_valid (sy_ctx s p) \<longrightarrow>
            unat (fc_batch_used (sy_ctx s p)) \<le> 128 \<and>
            unat (fc_batch_used (sy_ctx s p)) \<le> unat (fc_app_budget (sy_ctx s p)) \<and>
            unat (fc_batch_used (sy_ctx s p)) + unat (fc_frontier_headroom (sy_ctx s p)) =
              unat (sy_headroom s p)) \<and>
         ft_scores st = ft_below_threshold st + ft_repeat_epoch st + ft_budget_reject st +
           ft_would_promote st \<and>
         sy_considered s = ft_would_promote_pages st + ft_native_bypass_pages st"
  using frontier_reach_ok [OF assms(1)]
  by (auto simp: w_def st_def frontier_system_ok_def frontier_mode_ok_def frontier_epochs_ok_def
      frontier_ctx_ok_def frontier_balanced_def add.commute)

text \<open>Witness of C28: after the switch to SHADOW a candidate meets an unprepared context.\<close>

theorem parp_frontier_reachable_ok_witness:
  "\<exists>s. frontier_reach s \<and> fw_enabled (sy_world s) \<and> sy_considered s = 4 \<and>
     ft_native_bypass_pages (fw_stats (sy_world s)) = 4"
proof -
  let ?s0 = "frontier_boot (\<lambda>_. frontier_ctx_zero) sample_frontier_lrugen"
  let ?s1 = "?s0 \<lparr> sy_world := snd (parp_frontier_set_mode 1 (sy_world ?s0)) \<rparr>"
  have s1: "frontier_reach ?s1"
    by (rule frontier_reach.step [OF frontier_reach.boot frontier_step.set_mode])
  have on: "fw_enabled (sy_world ?s1)" by (simp add: frontier_boot_def parp_frontier_set_mode_def)
  obtain page' ctx' w' where run:
      "parp_frontier_consider sample_candidate None (sy_ctx ?s1 0) (sy_world ?s1) = (page', ctx', w')"
    by (metis prod_cases3)
  let ?s2 = "?s1 \<lparr> sy_world := w', sy_ctx := (sy_ctx ?s1) (0 := ctx'),
      sy_considered := sy_considered ?s1 +
        (if fw_enabled (sy_world ?s1) then cd_pages sample_candidate else 0) \<rparr>"
  have s2: "frontier_reach ?s2"
    by (rule frontier_reach.step [OF s1 frontier_step.candidate [OF run]])
  have "fw_enabled w' \<and> ft_would_promote_pages (fw_stats w') = 0"
    using run
    by (auto simp: parp_frontier_consider_def parp_frontier_consider_enabled_def Let_def
        frontier_consider_body_def frontier_leave_invalid_def frontier_boot_def
        parp_frontier_set_mode_def parp_frontier_emit_def frontier_ctx_zero_def sample_candidate_def
        frontier_native_def frontier_stats_zero_def)
  moreover have "sy_considered ?s2 = 4"
    using on by (simp add: sample_candidate_def frontier_boot_def)
  ultimately show ?thesis
    using s2 parp_frontier_reachable_ok [OF s2] by (intro exI [of _ ?s2]) simp
qed


end
