(* ===== verification/Region_Map.thy ===== *)
theory Region_Map
  imports Parp_Prelude
begin

text \<open>
  The mapping of monitored address ranges to file and anonymous regions:
  \<open>mm/parp/mapping/region_alignment.c\<close>, \<open>file_region.c\<close> and \<open>anon_region.c\<close>, with the region keys of
  \<open>mm/parp/internal.h\<close>. A function that stores through result pointers and returns a \<open>bool\<close> returns an
  option here; no caller reads the results of a failed call.

  \<open>parp_file_key_equal\<close> compares the bytes of two keys. Every key of the program comes from an
  initializer that names no padding, in objects that are zeroed or copied whole, so that equality of the
  members is what the comparison decides; the model uses record equality.
\<close>

section \<open>Keys and classes\<close>

datatype parp_backing_class = PARP_BACKING_REGULAR_FILE | PARP_BACKING_EXECUTABLE
  | PARP_BACKING_SHARED_LIBRARY | PARP_BACKING_SHMEM | PARP_BACKING_TMPFS
  | PARP_BACKING_DELETED_FILE | PARP_BACKING_SPECIAL | PARP_BACKING_UNKNOWN

datatype parp_anon_class = PARP_ANON_PRIVATE | PARP_ANON_SHARED | PARP_ANON_HEAP | PARP_ANON_STACK
  | PARP_ANON_SHMEM_STYLE | PARP_ANON_SPECIAL | PARP_ANON_UNKNOWN

fun anon_class_code :: "parp_anon_class \<Rightarrow> u64" where
  "anon_class_code PARP_ANON_PRIVATE = 0"
| "anon_class_code PARP_ANON_SHARED = 1"
| "anon_class_code PARP_ANON_HEAP = 2"
| "anon_class_code PARP_ANON_STACK = 3"
| "anon_class_code PARP_ANON_SHMEM_STYLE = 4"
| "anon_class_code PARP_ANON_SPECIAL = 5"
| "anon_class_code PARP_ANON_UNKNOWN = 6"

record parp_file_region_key =
  fk_dev_major :: u32
  fk_dev_minor :: u32
  fk_inode :: u64
  fk_file_version :: u64
  fk_start_index :: u64
  fk_nr_pages :: u32

record parp_anon_region_key =
  ak_domain_id :: u64
  ak_foreground_epoch_id :: u64
  ak_mm_cookie :: u64
  ak_process_role :: u32
  ak_vma_signature :: u64
  ak_relative_start_pages :: u32
  ak_nr_pages :: u32

definition parp_file_key_equal :: "parp_file_region_key \<Rightarrow> parp_file_region_key \<Rightarrow> bool" where
  "parp_file_key_equal a b \<longleftrightarrow> a = b"

definition parp_anon_key_valid :: "parp_anon_region_key \<Rightarrow> u64 \<Rightarrow> bool" where
  "parp_anon_key_valid key epoch \<longleftrightarrow> ak_foreground_epoch_id key = epoch \<and> ak_mm_cookie key \<noteq> 0"

definition parp_backing_classify :: "bool \<Rightarrow> bool \<Rightarrow> bool \<Rightarrow> bool \<Rightarrow> parp_backing_class" where
  "parp_backing_classify has_file shmem deleted executable =
     (if shmem then PARP_BACKING_SHMEM
      else if \<not> has_file then PARP_BACKING_UNKNOWN
      else if deleted then PARP_BACKING_DELETED_FILE
      else if executable then PARP_BACKING_EXECUTABLE
      else PARP_BACKING_REGULAR_FILE)"

section \<open>Ranges\<close>

definition is_power_of_2 :: "u64 \<Rightarrow> bool" where
  "is_power_of_2 n \<longleftrightarrow> n \<noteq> 0 \<and> n AND (n - 1) = 0"

definition round_down :: "u64 \<Rightarrow> u64 \<Rightarrow> u64" where
  "round_down x y = x AND NOT (y - 1)"

text \<open>\<open>check_add_overflow\<close>: \<open>None\<close> when the sum does not fit.\<close>

definition checked_add :: "u64 \<Rightarrow> u64 \<Rightarrow> u64 option" where
  "checked_add a b = (if b > U64_MAX - a then None else Some (a + b))"

definition parp_align_interval :: "u64 \<Rightarrow> u64 \<Rightarrow> u64 \<Rightarrow> (u64 \<times> u64) option" where
  "parp_align_interval start stop page_size =
     (if page_size = 0 \<or> \<not> is_power_of_2 page_size \<or> start \<ge> stop then None
      else case checked_add stop (page_size - 1) of
        None \<Rightarrow> None
      | Some tail \<Rightarrow>
          let s = round_down start page_size; e = round_down tail page_size
          in if s < e then Some (s, e) else None)"

definition range_misaligned :: "u64 \<Rightarrow> u64 \<Rightarrow> u64 \<Rightarrow> u64 \<Rightarrow> bool" where
  "range_misaligned vm_start start stop page_size \<longleftrightarrow>
     page_size = 0 \<or> \<not> is_power_of_2 page_size \<or> start < vm_start \<or> start \<ge> stop \<or>
     start mod page_size \<noteq> 0 \<or> stop mod page_size \<noteq> 0"

definition parp_file_range_from_vma ::
  "u64 \<Rightarrow> u64 \<Rightarrow> u64 \<Rightarrow> u64 \<Rightarrow> u64 \<Rightarrow> (u64 \<times> u32) option" where
  "parp_file_range_from_vma vm_start vm_pgoff start stop page_size =
     (if range_misaligned vm_start start stop page_size then None
      else let relative_pages = (start - vm_start) div page_size;
               pages = (stop - start) div page_size
           in if pages = 0 \<or> pages > ucast U32_MAX then None
              else case checked_add vm_pgoff relative_pages of
                None \<Rightarrow> None
              | Some r \<Rightarrow> Some (r, ucast pages))"

definition parp_anon_range_from_vma ::
  "u64 \<Rightarrow> u64 \<Rightarrow> u64 \<Rightarrow> u64 \<Rightarrow> (u32 \<times> u32) option" where
  "parp_anon_range_from_vma vm_start start stop page_size =
     (if range_misaligned vm_start start stop page_size then None
      else let relative = (start - vm_start) div page_size;
               pages = (stop - start) div page_size
           in if relative > ucast U32_MAX \<or> pages = 0 \<or> pages > ucast U32_MAX then None
              else Some (ucast relative, ucast pages))"

text \<open>\<open>ilog2 (n)\<close> of a non-zero number is \<open>fls64 (n) - 1\<close>.\<close>

definition parp_vma_signature :: "u64 \<Rightarrow> u64 \<Rightarrow> u64 \<Rightarrow> u64 \<Rightarrow> u64 \<Rightarrow> u64" where
  "parp_vma_signature anon_class semantic_flags length_pages process_role name_hash =
     (let fields = [anon_class, semantic_flags, of_nat (fls64 (length_pages OR 1) - 1),
                    process_role, name_hash];
          value = foldl (\<lambda>v field. let m = (v XOR field) * 0x100000001b3
                                   in m XOR drop_bit 32 m) 0xcbf29ce484222325 fields
      in if value \<noteq> 0 then value else 1)"

fun segments_from :: "(u64 \<times> u64) list \<Rightarrow> u64 \<Rightarrow> u64 option" where
  "segments_from [] cursor = Some cursor"
| "segments_from ((s, e) # segs) cursor =
     (if s \<noteq> cursor \<or> s \<ge> e then None else segments_from segs e)"

definition parp_segments_conserve :: "(u64 \<times> u64) list \<Rightarrow> u64 \<Rightarrow> u64 \<Rightarrow> bool" where
  "parp_segments_conserve segs original_start original_end =
     (if segs = [] \<or> original_start \<ge> original_end then False
      else segments_from segs original_start = Some original_end)"

section \<open>Lemmas\<close>

text \<open>A power of two, and rounding down to one.\<close>

lemma power_of_2_exp:
  assumes "is_power_of_2 n"
  obtains k where "k < 64" and "n = 2 ^ k" and "unat n = 2 ^ k"
proof -
  define k where "k = fls_nat (unat n) - 1"
  have n: "unat n \<noteq> 0" using assms by (auto simp: is_power_of_2_def unat_gt_0)
  have f: "fls_nat (unat n) = Suc k"
    using n by (simp add: k_def fls_nat.simps [of "unat n"])
  have lo: "2 ^ k \<le> unat n" and hi: "unat n < 2 ^ Suc k"
    using fls_nat_lower [OF n] fls_nat_upper [of "unat n"] by (simp_all add: f)
  have k: "k < 64"
  proof (rule ccontr)
    assume "\<not> k < 64"
    then have "(2 :: nat) ^ 64 \<le> 2 ^ k" by (intro power_increasing) auto
    then show False using lo unat_u64_bound [of n] by linarith
  qed
  have "unat n = 2 ^ k"
  proof (rule ccontr)
    assume "unat n \<noteq> 2 ^ k"
    then have lo2: "2 ^ k \<le> unat n - 1" and hi2: "unat n - 1 < 2 ^ Suc k" using lo hi by linarith+
    have "bit m k" if "2 ^ k \<le> m" "m < 2 ^ Suc k" for m :: nat
    proof -
      have "m div 2 ^ k = 1" using that by (intro div_nat_eqI) auto
      then show ?thesis by (simp add: bit_iff_odd)
    qed
    then have "bit (unat n) k" "bit (unat n - 1) k" using lo hi lo2 hi2 by blast+
    moreover have "unat (n - 1) = unat n - 1" using n by (simp add: unat_sub word_le_nat_alt)
    ultimately have "bit n k" "bit (n - 1) k" using k by (metis bit_unsigned_iff)+
    then have "bit (n AND (n - 1)) k" by (simp add: bit_and_iff)
    then show False using assms by (simp add: is_power_of_2_def)
  qed
  moreover have "n = 2 ^ k"
  proof -
    have "n = word_of_nat (unat n)" by simp
    then show ?thesis unfolding \<open>unat n = 2 ^ k\<close> by simp
  qed
  ultimately show ?thesis using that k by blast
qed

lemma unat_round_down:
  assumes "is_power_of_2 p"
  shows "unat (round_down x p) = unat x div unat p * unat p"
proof -
  obtain k where k: "k < 64" "p = 2 ^ k" "unat p = 2 ^ k" by (rule power_of_2_exp [OF assms])
  have "round_down x p = push_bit k (drop_bit k x)"
    unfolding round_down_def k(2)
    by (rule bit_word_eqI) (auto simp: bit_simps mask_eq_exp_minus_1 [symmetric])
  also have "unat \<dots> = unat x div 2 ^ k * 2 ^ k"
  proof -
    have "unat x div 2 ^ k * 2 ^ k < 2 ^ 64"
      using unat_u64_bound [of x] by (rule order.strict_trans1 [OF div_times_less_eq_dividend])
    then show ?thesis
      by (simp only: unsigned_push_bit_eq unsigned_drop_bit_eq)
        (simp add: push_bit_eq_mult drop_bit_eq_div take_bit_nat_eq_self unat_u64_bound [simplified])
  qed
  finally show ?thesis by (simp add: k(3))
qed

lemma checked_add_Some:
  "checked_add a b = Some c \<longleftrightarrow> unat a + unat b < 2 ^ 64 \<and> unat c = unat a + unat b"
proof -
  have top: "unat (U64_MAX - a) = 2 ^ 64 - 1 - unat a"
    using unat_u64_bound [of a] by (subst unat_sub) (auto simp: word_le_nat_alt)
  then have le: "b \<le> U64_MAX - a \<longleftrightarrow> unat a + unat b < 2 ^ 64"
    using unat_u64_bound [of a] by (auto simp: word_le_nat_alt)
  then show ?thesis
    using unat_add_no_wrap [of a b]
    by (auto simp: checked_add_def not_less word_unat_eq_iff split: if_splits)
qed

text \<open>Alignment is the tightest cover. When \<open>parp_align_interval\<close> succeeds it returns a non-empty
  interval of whole pages that contains the monitored range, with less than one page of slack on
  either side; it fails exactly for a page size that is no power of two, an empty range, or a range
  whose last page would end beyond the address space.
\<close>

theorem parp_align_interval_tight:
  "case parp_align_interval start stop p of
     Some (s, e) \<Rightarrow> is_power_of_2 p \<and> start < stop \<and> unat stop + unat p - 1 < 2 ^ 64 \<and>
       unat s mod unat p = 0 \<and> unat e mod unat p = 0 \<and> s < e \<and>
       unat s \<le> unat start \<and> unat start < unat s + unat p \<and>
       unat stop \<le> unat e \<and> unat e < unat stop + unat p
   | None \<Rightarrow> \<not> (is_power_of_2 p \<and> start < stop \<and> unat stop + unat p - 1 < 2 ^ 64)"
proof (cases "is_power_of_2 p \<and> start < stop \<and> unat stop + unat p - 1 < 2 ^ 64")
  case True
  have p: "0 < unat p" using True by (auto simp: is_power_of_2_def unat_gt_0)
  then have pm: "unat (p - 1) = unat p - 1" by (simp add: unat_sub word_le_nat_alt)
  then obtain tail where tail: "checked_add stop (p - 1) = Some tail" "unat tail = unat stop + unat p - 1"
    using True p unat_add_no_wrap [of stop "p - 1"] by (auto simp: checked_add_Some)
  let ?s = "round_down start p" and ?e = "round_down tail p"
  have s: "unat ?s = unat start div unat p * unat p" and e: "unat ?e = (unat stop + unat p - 1) div unat p * unat p"
    using True unat_round_down tail(2) by simp_all
  have slo: "unat ?s \<le> unat start" "unat start < unat ?s + unat p"
    using dividend_less_div_times [OF p, of "unat start"] by (simp_all add: s div_times_less_eq_dividend add.commute)
  have ehi: "unat ?e \<le> unat stop + unat p - 1" "unat stop + unat p - 1 < unat ?e + unat p"
    using dividend_less_div_times [OF p, of "unat stop + unat p - 1"]
    by (simp_all add: e div_times_less_eq_dividend add.commute)
  have "unat start < unat stop" using True by (simp add: word_less_nat_alt)
  then have "?s < ?e" using slo ehi by (simp add: word_less_nat_alt)
  moreover have "parp_align_interval start stop p = Some (?s, ?e)"
    using True tail(1) calculation by (auto simp: parp_align_interval_def is_power_of_2_def)
  moreover have "unat stop \<le> unat ?e" "unat ?e < unat stop + unat p" using ehi p by linarith+
  moreover have "unat ?s mod unat p = 0" "unat ?e mod unat p = 0" by (simp_all add: s e)
  ultimately show ?thesis using True slo by simp
next
  case False
  then have "parp_align_interval start stop p = None"
  proof -
    have "checked_add stop (p - 1) = None" if "is_power_of_2 p" "2 ^ 64 \<le> unat stop + unat p - 1"
    proof -
      have "0 < unat p" using that by (auto simp: is_power_of_2_def unat_gt_0)
      then have "\<not> unat stop + unat (p - 1) < 2 ^ 64"
        using that(2) by (simp add: unat_sub word_le_nat_alt)
      then show ?thesis
        using checked_add_Some [of stop "p - 1"] by (metis option.exhaust)
    qed
    then show ?thesis using False by (auto simp: parp_align_interval_def not_less)
  qed
  then show ?thesis using False by (auto simp: not_less)
qed

end
