(* ===== verification/Evidence.thy ===== *)
theory Evidence
  imports App_Snapshot Region_Map
begin

text \<open>
  \<open>mm/parp/core/evidence.c\<close>: the access evidence of monitored regions. Samples of file and anonymous
  regions are folded into builders (one per region, with a ring of 60 one-second buckets); a bounded
  table per kind evicts its weakest entry; once a second the builders of the current owners are
  published as a sorted snapshot with 10, 30 and 60 second windows, which the reclaim path searches.

  The file and the anonymous half of the source are two copies of the same code over two observation
  types. The table operations are written once here, over a record \<open>evidence_kind\<close> of the members the
  two copies differ in, and are instantiated twice under the names of the source. All updates run under
  \<open>parp_evidence_lock\<close>; the arrays with their counters are the lists of the entries in use. The clock,
  the allocations and \<open>sort\<close> (\<open>lib/sort.c\<close>, not part of the repository) are arguments.
\<close>

abbreviation PARP_EVIDENCE_TTL_NS :: u64 where "PARP_EVIDENCE_TTL_NS \<equiv> 60000000000"
abbreviation PARP_WINDOW_BUCKETS :: nat where "PARP_WINDOW_BUCKETS \<equiv> 60"

section \<open>Data\<close>

record parp_damon_sample =
  ds_timestamp_ns :: u64
  ds_sample_id :: u64
  ds_target_cookie :: u64
  ds_mm_cookie :: u64
  ds_pid :: u32
  ds_tgid :: u32
  ds_region_start :: u64
  ds_region_end :: u64
  ds_nr_accesses :: u32
  ds_age :: u32
  ds_sample_interval_us :: u32
  ds_aggregation_interval_us :: u32
  ds_flags :: u32

datatype parp_file_version_source = PARP_FILE_VERSION_IVERSION | PARP_FILE_VERSION_GENERATION
  | PARP_FILE_VERSION_METADATA_HASH | PARP_FILE_VERSION_WEAK | PARP_FILE_VERSION_UNKNOWN

datatype parp_alignment_status = PARP_ALIGN_EXACT | PARP_ALIGN_SPLIT_EXACT | PARP_ALIGN_PARTIAL
  | PARP_ALIGN_AMBIGUOUS | PARP_ALIGN_STALE | PARP_ALIGN_UNRESOLVED

record parp_file_observation =
  fo_key :: parp_file_region_key
  fo_owner :: parp_app_context
  fo_sample :: parp_damon_sample
  fo_backing_class :: parp_backing_class
  fo_version_source :: parp_file_version_source
  fo_alignment_confidence_q15 :: u32
  fo_flags :: u32

record parp_anon_observation =
  ao_key :: parp_anon_region_key
  ao_owner :: parp_app_context
  ao_sample :: parp_damon_sample
  ao_anon_class :: parp_anon_class
  ao_identity_confidence_q15 :: u32
  ao_flags :: u32

record parp_window_stats =
  ws_access_evidence_10s :: u64
  ws_access_evidence_30s :: u64
  ws_access_evidence_60s :: u64
  ws_active_intervals_10s :: u32
  ws_active_intervals_30s :: u32
  ws_active_intervals_60s :: u32
  ws_first_seen_ns :: u64
  ws_last_seen_ns :: u64
  ws_last_access_ns :: u64
  ws_observed_duration_ns :: u64
  ws_age :: u32
  ws_region_size_pages :: u32

record parp_file_evidence =
  fe_domain_id :: u64
  fe_app_id :: u32
  fe_bind_generation :: u32
  fe_key :: parp_file_region_key
  fe_windows :: parp_window_stats
  fe_backing_class :: parp_backing_class
  fe_version_source :: parp_file_version_source
  fe_alignment_confidence_q15 :: u32
  fe_expires_ns :: u64
  fe_model_version :: u64
  fe_snapshot_version :: u64

record parp_anon_evidence =
  ae_key :: parp_anon_region_key
  ae_app_id :: u32
  ae_bind_generation :: u32
  ae_model_version :: u64
  ae_windows :: parp_window_stats
  ae_anon_class :: parp_anon_class
  ae_identity_confidence_q15 :: u32
  ae_expires_ns :: u64
  ae_snapshot_version :: u64

record parp_domain_anon_evidence =
  de_domain_id :: u64
  de_app_id :: u32
  de_bind_generation :: u32
  de_model_version :: u64
  de_observed_pages :: u64
  de_active_pages_10s :: u64
  de_active_pages_30s :: u64
  de_active_pages_60s :: u64
  de_cooling_pages :: u64
  de_confidence_q15 :: u32

record parp_evidence_snapshot =
  es_version :: u64
  es_created_ns :: u64
  es_expires_ns :: u64
  es_files :: "parp_file_evidence list"
  es_anons :: "parp_anon_evidence list"
  es_domains :: "parp_domain_anon_evidence list"

text \<open>The counters the operations below change.\<close>

record parp_evidence_stats =
  et_exact :: u64
  et_partial :: u64
  et_ambiguous :: u64
  et_unresolved :: u64
  et_unresolved_bytes :: u64
  et_duplicates :: u64
  et_out_of_order :: u64
  et_table_full :: u64
  et_entries_evicted :: u64
  et_entries_rejected :: u64
  et_snapshots :: u64
  et_file_folio_queries :: u64
  et_file_folio_matches :: u64
  et_file_folio_no_region :: u64

definition evidence_stats_zero :: parp_evidence_stats where
  "evidence_stats_zero = \<lparr> et_exact = 0, et_partial = 0, et_ambiguous = 0, et_unresolved = 0,
     et_unresolved_bytes = 0, et_duplicates = 0, et_out_of_order = 0, et_table_full = 0,
     et_entries_evicted = 0, et_entries_rejected = 0, et_snapshots = 0, et_file_folio_queries = 0,
     et_file_folio_matches = 0, et_file_folio_no_region = 0 \<rparr>"

record parp_time_bucket =
  tb_second :: u64
  tb_evidence :: u64
  tb_active_intervals :: u32

definition time_bucket_zero :: parp_time_bucket where
  "time_bucket_zero = \<lparr> tb_second = 0, tb_evidence = 0, tb_active_intervals = 0 \<rparr>"

text \<open>
  \<open>struct parp_file_builder\<close> and \<open>struct parp_anon_builder\<close>. A zeroed builder holds no observation,
  which is \<open>None\<close> here; the builders of a table hold one.
\<close>

record 'o parp_builder =
  bl_observation :: "'o option"
  bl_buckets :: "parp_time_bucket list"
  bl_newest_ns :: u64
  bl_first_seen_ns :: u64
  bl_last_access_ns :: u64
  bl_last_sample_id :: u64

type_synonym parp_file_builder = "parp_file_observation parp_builder"
type_synonym parp_anon_builder = "parp_anon_observation parp_builder"

definition builder_zero :: "'o parp_builder" where
  "builder_zero = \<lparr> bl_observation = None,
     bl_buckets = replicate PARP_WINDOW_BUCKETS time_bucket_zero, bl_newest_ns = 0,
     bl_first_seen_ns = 0, bl_last_access_ns = 0, bl_last_sample_id = 0 \<rparr>"

record 'o builder_table =
  bt_builders :: "'o parp_builder list"
  bt_capacity :: u32

record parp_evidence_state =
  ev_files :: "parp_file_observation builder_table"
  ev_anons :: "parp_anon_observation builder_table"
  ev_max_file :: u32
  ev_max_anon :: u32
  ev_max_total :: u32
  ev_last_publish_ns :: u64
  ev_version :: u64
  ev_snapshot :: "parp_evidence_snapshot option"
  ev_stats :: parp_evidence_stats

definition evidence_boot :: parp_evidence_state where
  "evidence_boot = \<lparr> ev_files = \<lparr> bt_builders = [], bt_capacity = 0 \<rparr>,
     ev_anons = \<lparr> bt_builders = [], bt_capacity = 0 \<rparr>, ev_max_file = 4096, ev_max_anon = 2048,
     ev_max_total = 65536, ev_last_publish_ns = 0, ev_version = 0, ev_snapshot = None,
     ev_stats = evidence_stats_zero \<rparr>"

section \<open>Buckets and windows\<close>

definition parp_sample_valid :: "parp_damon_sample \<Rightarrow> bool" where
  "parp_sample_valid s \<longleftrightarrow> ds_timestamp_ns s \<noteq> 0 \<and> ds_sample_id s \<noteq> 0 \<and>
     ds_region_start s < ds_region_end s \<and> ds_sample_interval_us s \<noteq> 0 \<and>
     ds_aggregation_interval_us s \<noteq> 0"

definition bucket_add :: "u64 \<Rightarrow> u32 \<Rightarrow> parp_time_bucket \<Rightarrow> parp_time_bucket" where
  "bucket_add second evidence b0 =
     (let b = (if tb_second b0 \<noteq> second then time_bucket_zero \<lparr> tb_second := second \<rparr> else b0)
      in b \<lparr> tb_evidence := (case checked_add (tb_evidence b) (ucast evidence) of
                               None \<Rightarrow> U64_MAX | Some e \<Rightarrow> e),
             tb_active_intervals :=
               (if evidence \<noteq> 0 \<and> tb_active_intervals b \<noteq> U32_MAX
                then tb_active_intervals b + 1 else tb_active_intervals b) \<rparr>)"

definition parp_update_bucket ::
  "u64 \<Rightarrow> u32 \<Rightarrow> parp_time_bucket list \<Rightarrow> parp_time_bucket list" where
  "parp_update_bucket timestamp_ns evidence buckets =
     (let second = timestamp_ns div NSEC_PER_SEC; i = unat second mod PARP_WINDOW_BUCKETS
      in buckets [i := bucket_add second evidence (buckets ! i)])"

definition collect_bucket ::
  "u64 \<Rightarrow> parp_window_stats \<Rightarrow> parp_time_bucket \<Rightarrow> parp_window_stats" where
  "collect_bucket now_second w b =
     (if tb_second b = 0 \<or> tb_second b > now_second then w
      else let age = now_second - tb_second b; e = tb_evidence b; a = tb_active_intervals b;
               w60 = w \<lparr> ws_access_evidence_60s := ws_access_evidence_60s w + e,
                         ws_active_intervals_60s := ws_active_intervals_60s w + a \<rparr>;
               w30 = (if age < 30
                      then w60 \<lparr> ws_access_evidence_30s := ws_access_evidence_30s w60 + e,
                                 ws_active_intervals_30s := ws_active_intervals_30s w60 + a \<rparr>
                      else w60)
           in if age \<ge> 60 then w
              else if age < 10
              then w30 \<lparr> ws_access_evidence_10s := ws_access_evidence_10s w30 + e,
                         ws_active_intervals_10s := ws_active_intervals_10s w30 + a \<rparr>
              else w30)"

definition parp_collect_windows ::
  "parp_time_bucket list \<Rightarrow> u64 \<Rightarrow> parp_window_stats \<Rightarrow> parp_window_stats" where
  "parp_collect_windows buckets now_ns w =
     foldl (collect_bucket (now_ns div NSEC_PER_SEC)) w buckets"

section \<open>The bounded table\<close>

text \<open>What the two copies of the table code differ in.\<close>

record 'o evidence_kind =
  ek_same :: "'o \<Rightarrow> 'o \<Rightarrow> bool"
  ek_domain :: "'o \<Rightarrow> u64"
  ek_confidence :: "'o \<Rightarrow> u32"
  ek_sample :: "'o \<Rightarrow> parp_damon_sample"
  ek_nr_pages :: "'o \<Rightarrow> u32"

definition file_kind :: "parp_file_observation evidence_kind" where
  "file_kind = \<lparr> ek_same = (\<lambda>a b. ac_domain_id (fo_owner a) = ac_domain_id (fo_owner b) \<and>
                             parp_file_key_equal (fo_key a) (fo_key b)),
     ek_domain = (\<lambda>ob. ac_domain_id (fo_owner ob)), ek_confidence = fo_alignment_confidence_q15,
     ek_sample = fo_sample, ek_nr_pages = (\<lambda>ob. fk_nr_pages (fo_key ob)) \<rparr>"

definition anon_kind :: "parp_anon_observation evidence_kind" where
  "anon_kind = \<lparr> ek_same = (\<lambda>a b. ao_key a = ao_key b),
     ek_domain = (\<lambda>ob. ak_domain_id (ao_key ob)), ek_confidence = ao_identity_confidence_q15,
     ek_sample = ao_sample, ek_nr_pages = (\<lambda>ob. ak_nr_pages (ao_key ob)) \<rparr>"

text \<open>\<open>parp_grow_file_builders\<close> and \<open>parp_grow_anon_builders\<close>.\<close>

definition parp_grow_builders ::
  "u32 \<Rightarrow> bool \<Rightarrow> 'o builder_table \<Rightarrow> errno option \<times> 'o builder_table" where
  "parp_grow_builders max_total alloc_ok t =
     (let capacity = (if bt_capacity t \<noteq> 0 then min (bt_capacity t * 2) max_total
                      else min 64 max_total)
      in if capacity \<le> bt_capacity t then (Some ENOSPC, t)
         else if \<not> alloc_ok then (Some ENOMEM, t)
         else (None, t \<lparr> bt_capacity := capacity \<rparr>))"

definition in_domain :: "'o evidence_kind \<Rightarrow> u64 \<Rightarrow> 'o parp_builder \<Rightarrow> bool" where
  "in_domain k domain_id b = (case bl_observation b of None \<Rightarrow> False | Some ob \<Rightarrow> ek_domain k ob = domain_id)"

definition parp_count_domain :: "'o evidence_kind \<Rightarrow> u64 \<Rightarrow> 'o builder_table \<Rightarrow> nat" where
  "parp_count_domain k domain_id t = length (filter (in_domain k domain_id) (bt_builders t))"

definition evidence_score :: "u32 \<Rightarrow> u32 \<Rightarrow> u64 \<Rightarrow> u64" where
  "evidence_score confidence nr_accesses ns =
     ucast confidence * 1024 + ucast (min nr_accesses 1023 * 32) + ns div NSEC_PER_SEC"

definition parp_builder_score :: "'o evidence_kind \<Rightarrow> 'o parp_builder \<Rightarrow> u64" where
  "parp_builder_score k b =
     (case bl_observation b of None \<Rightarrow> bl_newest_ns b div NSEC_PER_SEC
      | Some ob \<Rightarrow> evidence_score (ek_confidence k ob) (ds_nr_accesses (ek_sample k ob)) (bl_newest_ns b))"

text \<open>The scan for the first weakest entry that \<open>ok\<close> admits, from position \<open>i\<close>.\<close>

fun weakest_scan ::
  "('b \<Rightarrow> bool) \<Rightarrow> ('b \<Rightarrow> u64) \<Rightarrow> nat \<Rightarrow> 'b list \<Rightarrow> nat option \<Rightarrow> u64 \<Rightarrow> nat option \<times> u64" where
  "weakest_scan ok score i [] victim weakest = (victim, weakest)"
| "weakest_scan ok score i (b # bs) victim weakest =
     (if ok b \<and> score b < weakest then weakest_scan ok score (Suc i) bs (Some i) (score b)
      else weakest_scan ok score (Suc i) bs victim weakest)"

definition parp_victim :: "'o evidence_kind \<Rightarrow> 'o \<Rightarrow> bool \<Rightarrow> 'o builder_table \<Rightarrow> nat option" where
  "parp_victim k ob same_domain t =
     (let incoming = evidence_score (ek_confidence k ob) (ds_nr_accesses (ek_sample k ob))
                       (ds_timestamp_ns (ek_sample k ob))
      in case weakest_scan (\<lambda>b. \<not> same_domain \<or> in_domain k (ek_domain k ob) b)
                (parp_builder_score k) 0 (bt_builders t) None U64_MAX of
           (None, weakest) \<Rightarrow> None
         | (Some i, weakest) \<Rightarrow> if incoming > weakest then Some i else None)"

fun find_index :: "('b \<Rightarrow> bool) \<Rightarrow> 'b list \<Rightarrow> nat option" where
  "find_index P [] = None"
| "find_index P (b # bs) = (if P b then Some 0 else map_option Suc (find_index P bs))"

definition builder_for :: "'o evidence_kind \<Rightarrow> 'o \<Rightarrow> 'o parp_builder \<Rightarrow> bool" where
  "builder_for k ob b = (case bl_observation b of None \<Rightarrow> False | Some ob' \<Rightarrow> ek_same k ob' ob)"

text \<open>
  The slot of an observation in the table: an existing builder, an evicted one, or a new one, with
  \<open>first_seen_ns\<close> set in the last two cases. \<open>nr_total\<close> is the number of builders of both kinds.
\<close>

definition evidence_slot ::
  "'o evidence_kind \<Rightarrow> u32 \<Rightarrow> u32 \<Rightarrow> u32 \<Rightarrow> bool \<Rightarrow> 'o \<Rightarrow> 'o builder_table \<times> parp_evidence_stats \<Rightarrow>
   (errno + nat) \<times> 'o builder_table \<times> parp_evidence_stats" where
  "evidence_slot k max_domain max_total nr_total alloc_ok ob ts =
     (let (t, s) = ts;
          fresh = builder_zero \<lparr> bl_first_seen_ns := ds_timestamp_ns (ek_sample k ob) \<rparr>
      in case find_index (builder_for k ob) (bt_builders t) of
           Some i \<Rightarrow> (Inr i, t, s)
         | None \<Rightarrow>
             let domain_full = word_of_nat (parp_count_domain k (ek_domain k ob) t) \<ge> max_domain;
                 total_full = nr_total \<ge> max_total
             in if domain_full \<or> total_full
                then let s1 = s \<lparr> et_table_full := et_table_full s + 1 \<rparr>
                     in case parp_victim k ob domain_full t of
                          None \<Rightarrow> (Inl ENOSPC, t,
                                  s1 \<lparr> et_entries_rejected := et_entries_rejected s1 + 1 \<rparr>)
                        | Some i \<Rightarrow> (Inr i, t \<lparr> bt_builders := (bt_builders t) [i := fresh] \<rparr>,
                                    s1 \<lparr> et_entries_evicted := et_entries_evicted s1 + 1 \<rparr>)
                else let n = length (bt_builders t);
                         (err, t1) = (if word_of_nat n = bt_capacity t
                                      then parp_grow_builders max_total alloc_ok t else (None, t))
                     in case err of
                          Some e \<Rightarrow> (Inl e, t1, s)
                        | None \<Rightarrow> (Inr n, t1 \<lparr> bt_builders := bt_builders t1 @ [fresh] \<rparr>, s))"

text \<open>Folding the sample into its builder; \<open>Some\<close> error leaves the builder.\<close>

definition evidence_fold ::
  "'o evidence_kind \<Rightarrow> 'o \<Rightarrow> 'o parp_builder \<Rightarrow> parp_evidence_stats \<Rightarrow>
   errno option \<times> 'o parp_builder \<times> parp_evidence_stats" where
  "evidence_fold k ob b s =
     (let sample = ek_sample k ob; ts = ds_timestamp_ns sample
      in if bl_last_sample_id b = ds_sample_id sample
         then (Some EALREADY, b, s \<lparr> et_duplicates := et_duplicates s + 1 \<rparr>)
         else if bl_newest_ns b \<noteq> 0 \<and> ts + 2 * NSEC_PER_SEC < bl_newest_ns b
         then (Some ESTALE, b, s \<lparr> et_out_of_order := et_out_of_order s + 1 \<rparr>)
         else (None,
               b \<lparr> bl_observation := Some ob, bl_newest_ns := max (bl_newest_ns b) ts,
                   bl_last_sample_id := ds_sample_id sample,
                   bl_last_access_ns := (if ds_nr_accesses sample \<noteq> 0 then ts
                                         else bl_last_access_ns b),
                   bl_buckets := parp_update_bucket ts (ds_nr_accesses sample) (bl_buckets b) \<rparr>, s))"

text \<open>Both steps on one table, up to the publication.\<close>

definition evidence_insert ::
  "'o evidence_kind \<Rightarrow> u32 \<Rightarrow> u32 \<Rightarrow> u32 \<Rightarrow> bool \<Rightarrow> 'o \<Rightarrow> 'o builder_table \<times> parp_evidence_stats \<Rightarrow>
   errno option \<times> 'o builder_table \<times> parp_evidence_stats" where
  "evidence_insert k max_domain max_total other alloc_ok ob ts =
     (let (t, s) = ts;
          (e0, t0) = (if bt_capacity t = 0 then parp_grow_builders max_total alloc_ok t else (None, t))
      in if e0 \<noteq> None then (Some ENOMEM, t0, s)
         else case evidence_slot k max_domain max_total (word_of_nat (length (bt_builders t0)) + other)
                     alloc_ok ob (t0, s) of
                (Inl e, t1, s1) \<Rightarrow> (Some e, t1, s1)
              | (Inr i, t1, s1) \<Rightarrow>
                  (case evidence_fold k ob (bt_builders t1 ! i) s1 of
                     (err, b, s2) \<Rightarrow>
                       (err, t1 \<lparr> bt_builders := (bt_builders t1) [i := b] \<rparr>, s2)))"


section \<open>Publication\<close>

definition window_stats_zero :: parp_window_stats where
  "window_stats_zero = \<lparr> ws_access_evidence_10s = 0, ws_access_evidence_30s = 0,
     ws_access_evidence_60s = 0, ws_active_intervals_10s = 0, ws_active_intervals_30s = 0,
     ws_active_intervals_60s = 0, ws_first_seen_ns = 0, ws_last_seen_ns = 0, ws_last_access_ns = 0,
     ws_observed_duration_ns = 0, ws_age = 0, ws_region_size_pages = 0 \<rparr>"

definition builder_windows ::
  "'o parp_builder \<Rightarrow> parp_damon_sample \<Rightarrow> u32 \<Rightarrow> u64 \<Rightarrow> parp_window_stats" where
  "builder_windows b sample nr_pages now_ns =
     parp_collect_windows (bl_buckets b) now_ns
       (window_stats_zero \<lparr> ws_first_seen_ns := bl_first_seen_ns b, ws_last_seen_ns := bl_newest_ns b,
          ws_last_access_ns := bl_last_access_ns b,
          ws_observed_duration_ns := bl_newest_ns b - bl_first_seen_ns b,
          ws_age := ds_age sample, ws_region_size_pages := nr_pages \<rparr>)"

text \<open>The owner an observation was made for still owns the domain.\<close>

definition owner_current :: "parp_app_context option \<Rightarrow> parp_app_context \<Rightarrow> bool" where
  "owner_current context owner =
     (case context of None \<Rightarrow> False
      | Some c \<Rightarrow> ac_app_id c = ac_app_id owner \<and> ac_bind_generation c = ac_bind_generation owner \<and>
                  ac_model_version c = ac_model_version owner)"

definition file_entry ::
  "parp_snapshot option \<Rightarrow> u64 \<Rightarrow> u64 \<Rightarrow> parp_file_builder \<Rightarrow> parp_file_evidence option" where
  "file_entry active version now_ns b =
     (case bl_observation b of
        None \<Rightarrow> None
      | Some ob \<Rightarrow>
          let owner = fo_owner ob
          in if now_ns \<ge> bl_newest_ns b + PARP_EVIDENCE_TTL_NS then None
             else if \<not> owner_current (parp_context_lookup active (ac_domain_id owner) now_ns) owner
             then None
             else Some \<lparr> fe_domain_id = ac_domain_id owner, fe_app_id = ac_app_id owner,
                    fe_bind_generation = ac_bind_generation owner, fe_key = fo_key ob,
                    fe_windows = builder_windows b (fo_sample ob) (fk_nr_pages (fo_key ob)) now_ns,
                    fe_backing_class = fo_backing_class ob, fe_version_source = fo_version_source ob,
                    fe_alignment_confidence_q15 = fo_alignment_confidence_q15 ob,
                    fe_expires_ns = min (ac_bind_expiry_ns owner) (bl_newest_ns b + PARP_EVIDENCE_TTL_NS),
                    fe_model_version = ac_model_version owner, fe_snapshot_version = version \<rparr>)"

definition anon_entry ::
  "parp_snapshot option \<Rightarrow> u64 \<Rightarrow> u64 \<Rightarrow> parp_anon_builder \<Rightarrow> parp_anon_evidence option" where
  "anon_entry active version now_ns b =
     (case bl_observation b of
        None \<Rightarrow> None
      | Some ob \<Rightarrow>
          let owner = ao_owner ob;
              context = parp_context_lookup active (ac_domain_id owner) now_ns
          in if now_ns \<ge> bl_newest_ns b + PARP_EVIDENCE_TTL_NS then None
             else if \<not> owner_current context owner \<or>
                     ac_foreground_epoch_id (the context) \<noteq> ak_foreground_epoch_id (ao_key ob)
             then None
             else Some \<lparr> ae_key = ao_key ob, ae_app_id = ac_app_id owner,
                    ae_bind_generation = ac_bind_generation owner,
                    ae_model_version = ac_model_version owner,
                    ae_windows = builder_windows b (ao_sample ob) (ak_nr_pages (ao_key ob)) now_ns,
                    ae_anon_class = ao_anon_class ob,
                    ae_identity_confidence_q15 = ao_identity_confidence_q15 ob,
                    ae_expires_ns = min (ac_bind_expiry_ns owner) (bl_newest_ns b + PARP_EVIDENCE_TTL_NS),
                    ae_snapshot_version = version \<rparr>)"

text \<open>Adding an anonymous entry to the summary of its domain.\<close>

definition domain_add ::
  "parp_anon_evidence \<Rightarrow> parp_domain_anon_evidence \<Rightarrow> parp_domain_anon_evidence" where
  "domain_add e d =
     (let pages = ucast (ak_nr_pages (ae_key e)); w = ae_windows e
      in d \<lparr> de_observed_pages := de_observed_pages d + pages,
             de_active_pages_10s := de_active_pages_10s d +
               (if ws_access_evidence_10s w \<noteq> 0 then pages else 0),
             de_active_pages_30s := de_active_pages_30s d +
               (if ws_access_evidence_30s w \<noteq> 0 then pages else 0),
             de_active_pages_60s := de_active_pages_60s d +
               (if ws_access_evidence_60s w \<noteq> 0 then pages else 0),
             de_confidence_q15 := max (de_confidence_q15 d) (ae_identity_confidence_q15 e) \<rparr>)"

definition domain_of :: "parp_anon_evidence \<Rightarrow> parp_domain_anon_evidence" where
  "domain_of e = \<lparr> de_domain_id = ak_domain_id (ae_key e), de_app_id = ae_app_id e,
     de_bind_generation = ae_bind_generation e, de_model_version = ae_model_version e,
     de_observed_pages = 0, de_active_pages_10s = 0, de_active_pages_30s = 0,
     de_active_pages_60s = 0, de_cooling_pages = 0, de_confidence_q15 = 0 \<rparr>"

fun domains_add ::
  "parp_anon_evidence \<Rightarrow> parp_domain_anon_evidence list \<Rightarrow> parp_domain_anon_evidence list" where
  "domains_add e [] = [domain_add e (domain_of e)]"
| "domains_add e (d # ds) =
     (if de_domain_id d = ak_domain_id (ae_key e) then domain_add e d # ds
      else d # domains_add e ds)"

definition domain_cool :: "parp_domain_anon_evidence \<Rightarrow> parp_domain_anon_evidence" where
  "domain_cool d = d \<lparr> de_cooling_pages := de_observed_pages d - de_active_pages_30s d \<rparr>"

text \<open>
  The environment of a publication: the application snapshot, the allocations, and \<open>sort\<close> on the two
  arrays with their comparison functions.
\<close>

record evidence_env =
  ee_active :: "parp_snapshot option"
  ee_grow_ok :: bool
  ee_publish_ok :: bool
  ee_sort_files :: "parp_file_evidence list \<Rightarrow> parp_file_evidence list"
  ee_sort_anons :: "parp_anon_evidence list \<Rightarrow> parp_anon_evidence list"

definition parp_publish_evidence_locked ::
  "evidence_env \<Rightarrow> u64 \<Rightarrow> parp_evidence_state \<Rightarrow> errno option \<times> parp_evidence_state" where
  "parp_publish_evidence_locked env now_ns ev =
     (if \<not> ee_publish_ok env then (Some ENOMEM, ev)
      else
        let version = ev_version ev + 1;
            files = List.map_filter (file_entry (ee_active env) version now_ns)
                      (bt_builders (ev_files ev));
            anons = List.map_filter (anon_entry (ee_active env) version now_ns)
                      (bt_builders (ev_anons ev));
            domains = map domain_cool (foldl (\<lambda>ds e. domains_add e ds) [] anons)
        in (None, ev \<lparr> ev_version := version,
              ev_snapshot := Some \<lparr> es_version = version, es_created_ns = now_ns,
                es_expires_ns = now_ns + PARP_EVIDENCE_TTL_NS,
                es_files = ee_sort_files env files, es_anons = ee_sort_anons env anons,
                es_domains = domains \<rparr>,
              ev_last_publish_ns := now_ns,
              ev_stats := (ev_stats ev) \<lparr> et_snapshots := et_snapshots (ev_stats ev) + 1 \<rparr> \<rparr>))"

definition parp_evidence_publish ::
  "evidence_env \<Rightarrow> u64 \<Rightarrow> parp_evidence_state \<Rightarrow> errno option \<times> parp_evidence_state" where
  "parp_evidence_publish env now_ns ev = parp_publish_evidence_locked env now_ns ev"

text \<open>The end of both updates: publish when a second has passed since the last publication.\<close>

definition evidence_publish_due ::
  "evidence_env \<Rightarrow> u64 \<Rightarrow> errno option \<times> parp_evidence_state \<Rightarrow> errno option \<times> parp_evidence_state" where
  "evidence_publish_due env timestamp_ns r =
     (case r of
        (Some e, ev) \<Rightarrow> (Some e, ev)
      | (None, ev) \<Rightarrow>
          if timestamp_ns - ev_last_publish_ns ev \<ge> NSEC_PER_SEC
          then parp_publish_evidence_locked env timestamp_ns ev else (None, ev))"

definition parp_evidence_update_file ::
  "evidence_env \<Rightarrow> parp_file_observation \<Rightarrow> parp_evidence_state \<Rightarrow> errno option \<times> parp_evidence_state" where
  "parp_evidence_update_file env ob ev =
     (if \<not> parp_sample_valid (fo_sample ob) \<or> fk_nr_pages (fo_key ob) = 0 then (Some EINVAL, ev)
      else case evidence_insert file_kind (ev_max_file ev) (ev_max_total ev)
                  (word_of_nat (length (bt_builders (ev_anons ev)))) (ee_grow_ok env) ob
                  (ev_files ev, ev_stats ev) of
             (err, t, s) \<Rightarrow> evidence_publish_due env (ds_timestamp_ns (fo_sample ob))
                              (err, ev \<lparr> ev_files := t, ev_stats := s \<rparr>))"

definition parp_evidence_update_anon ::
  "evidence_env \<Rightarrow> parp_anon_observation \<Rightarrow> parp_evidence_state \<Rightarrow> errno option \<times> parp_evidence_state" where
  "parp_evidence_update_anon env ob ev =
     (if \<not> parp_sample_valid (ao_sample ob) \<or> ak_nr_pages (ao_key ob) = 0 then (Some EINVAL, ev)
      else case evidence_insert anon_kind (ev_max_anon ev) (ev_max_total ev)
                  (word_of_nat (length (bt_builders (ev_files ev)))) (ee_grow_ok env) ob
                  (ev_anons ev, ev_stats ev) of
             (err, t, s) \<Rightarrow> evidence_publish_due env (ds_timestamp_ns (ao_sample ob))
                              (err, ev \<lparr> ev_anons := t, ev_stats := s \<rparr>))"

text \<open>
  \<open>parp_evidence_domain_offline\<close> removes a domain's builders by moving the last builder into the hole
  and looking at the same position again.
\<close>

function swap_remove :: "('b \<Rightarrow> bool) \<Rightarrow> nat \<Rightarrow> 'b list \<Rightarrow> 'b list" where
  "swap_remove gone i bs =
     (if i \<ge> length bs then bs
      else if \<not> gone (bs ! i) then swap_remove gone (Suc i) bs
      else swap_remove gone i (butlast (bs [i := last bs])))"
  by pat_completeness auto

termination
  by (relation "measure (\<lambda>(gone, i, bs). 2 * length bs - i)") auto

declare swap_remove.simps [simp del]

definition parp_evidence_domain_offline ::
  "evidence_env \<Rightarrow> u64 \<Rightarrow> u64 \<Rightarrow> parp_evidence_state \<Rightarrow> errno option \<times> parp_evidence_state" where
  "parp_evidence_domain_offline env now_ns domain_id ev =
     parp_publish_evidence_locked env now_ns
       (ev \<lparr> ev_files := (ev_files ev) \<lparr> bt_builders :=
               swap_remove (in_domain file_kind domain_id) 0 (bt_builders (ev_files ev)) \<rparr>,
             ev_anons := (ev_anons ev) \<lparr> bt_builders :=
               swap_remove (in_domain anon_kind domain_id) 0 (bt_builders (ev_anons ev)) \<rparr> \<rparr>)"

definition parp_evidence_set_limits_for_test ::
  "u32 \<Rightarrow> u32 \<Rightarrow> u32 \<Rightarrow> parp_evidence_state \<Rightarrow> parp_evidence_state" where
  "parp_evidence_set_limits_for_test file_limit anon_limit total_limit ev =
     ev \<lparr> ev_max_file := max file_limit 1, ev_max_anon := max anon_limit 1,
          ev_max_total := max total_limit 1 \<rparr>"

definition parp_evidence_account_unresolved ::
  "u64 \<Rightarrow> parp_alignment_status \<Rightarrow> parp_evidence_stats \<Rightarrow> parp_evidence_stats" where
  "parp_evidence_account_unresolved bytes status s =
     (let s1 = s \<lparr> et_unresolved := et_unresolved s + 1,
                   et_unresolved_bytes := et_unresolved_bytes s + bytes \<rparr>
      in if status = PARP_ALIGN_PARTIAL then s1 \<lparr> et_partial := et_partial s1 + 1 \<rparr>
         else if status = PARP_ALIGN_AMBIGUOUS then s1 \<lparr> et_ambiguous := et_ambiguous s1 + 1 \<rparr>
         else s1)"


section \<open>Order and lookup\<close>

definition parp_cmp_u64 :: "u64 \<Rightarrow> u64 \<Rightarrow> int" where
  "parp_cmp_u64 left right = (if left = right then 0 else if left < right then - 1 else 1)"

text \<open>\<open>if (!ret) ret = ...\<close>: the first comparison that is not zero.\<close>

fun first_cmp :: "int list \<Rightarrow> int" where
  "first_cmp [] = 0"
| "first_cmp (c # cs) = (if c \<noteq> 0 then c else first_cmp cs)"

definition region_cmps :: "parp_file_evidence \<Rightarrow> u64 \<Rightarrow> parp_file_region_key \<Rightarrow> int list" where
  "region_cmps e domain_id key =
     [parp_cmp_u64 (fe_domain_id e) domain_id,
      parp_cmp_u64 (ucast (fk_dev_major (fe_key e))) (ucast (fk_dev_major key)),
      parp_cmp_u64 (ucast (fk_dev_minor (fe_key e))) (ucast (fk_dev_minor key)),
      parp_cmp_u64 (fk_inode (fe_key e)) (fk_inode key),
      parp_cmp_u64 (fk_file_version (fe_key e)) (fk_file_version key)]"

definition parp_file_compare :: "parp_file_evidence \<Rightarrow> parp_file_evidence \<Rightarrow> int" where
  "parp_file_compare a b =
     first_cmp (region_cmps a (fe_domain_id b) (fe_key b) @
                [parp_cmp_u64 (fk_start_index (fe_key a)) (fk_start_index (fe_key b))])"

text \<open>\<open>memcmp\<close> of two anonymous keys: the bytes of the members in memory order (little endian), with
  four zero bytes of padding before the signature.\<close>

definition le_bytes :: "nat \<Rightarrow> nat \<Rightarrow> nat list" where
  "le_bytes n v = map (\<lambda>i. v div 256 ^ i mod 256) [0..<n]"

definition anon_key_bytes :: "parp_anon_region_key \<Rightarrow> nat list" where
  "anon_key_bytes k = le_bytes 8 (unat (ak_domain_id k)) @ le_bytes 8 (unat (ak_foreground_epoch_id k)) @
     le_bytes 8 (unat (ak_mm_cookie k)) @ le_bytes 4 (unat (ak_process_role k)) @ [0, 0, 0, 0] @
     le_bytes 8 (unat (ak_vma_signature k)) @ le_bytes 4 (unat (ak_relative_start_pages k)) @
     le_bytes 4 (unat (ak_nr_pages k))"

fun bytes_cmp :: "nat list \<Rightarrow> nat list \<Rightarrow> int" where
  "bytes_cmp (a # as) (b # bs) = (if a = b then bytes_cmp as bs else if a < b then - 1 else 1)"
| "bytes_cmp _ _ = 0"

definition parp_anon_compare :: "parp_anon_evidence \<Rightarrow> parp_anon_evidence \<Rightarrow> int" where
  "parp_anon_compare a b = bytes_cmp (anon_key_bytes (ae_key a)) (anon_key_bytes (ae_key b))"

definition parp_compare_file_point ::
  "parp_file_evidence \<Rightarrow> u64 \<Rightarrow> parp_file_region_key \<Rightarrow> u64 \<Rightarrow> int" where
  "parp_compare_file_point e domain_id key index =
     (let ret = first_cmp (region_cmps e domain_id key)
      in if ret \<noteq> 0 then ret
         else if index < fk_start_index (fe_key e) then 1
         else if index \<ge> fk_start_index (fe_key e) + ucast (fk_nr_pages (fe_key e)) then - 1
         else 0)"

text \<open>The binary search: the position at which the comparison is zero.\<close>

function point_search :: "(nat \<Rightarrow> int) \<Rightarrow> nat \<Rightarrow> nat \<Rightarrow> nat option" where
  "point_search compare_at left right =
     (if \<not> left < right then None
      else let middle = left + (right - left) div 2; c = compare_at middle
           in if c = 0 then Some middle
              else if c < 0 then point_search compare_at (Suc middle) right
              else point_search compare_at left middle)"
  by pat_completeness auto

termination
  by (relation "measure (\<lambda>(f, left, right). right - left)") auto

declare point_search.simps [simp del]

definition lookup_entries ::
  "parp_file_evidence list \<Rightarrow> u64 \<Rightarrow> u64 \<Rightarrow> parp_file_region_key \<Rightarrow> u64 \<Rightarrow> u32 \<Rightarrow>
   parp_file_evidence option" where
  "lookup_entries files now domain_id key index nr_pages =
     (case point_search (\<lambda>i. parp_compare_file_point (files ! i) domain_id key index)
             0 (length files) of
        None \<Rightarrow> None
      | Some i \<Rightarrow>
          let e = files ! i
          in if index + ucast nr_pages \<le> fk_start_index (fe_key e) + ucast (fk_nr_pages (fe_key e)) \<and>
                now < fe_expires_ns e
             then Some e else None)"

definition parp_evidence_lookup_file ::
  "u64 \<Rightarrow> u64 \<Rightarrow> parp_file_region_key \<Rightarrow> u64 \<Rightarrow> u32 \<Rightarrow> parp_evidence_state \<Rightarrow>
   parp_file_evidence option \<times> parp_evidence_state" where
  "parp_evidence_lookup_file now domain_id key index nr_pages ev =
     (let found = (case ev_snapshot ev of
                     None \<Rightarrow> None
                   | Some s \<Rightarrow> if now \<ge> es_expires_ns s then None
                              else lookup_entries (es_files s) now domain_id key index nr_pages);
          s = ev_stats ev;
          s1 = s \<lparr> et_file_folio_queries := et_file_folio_queries s + 1 \<rparr>;
          s2 = (if found \<noteq> None
                then s1 \<lparr> et_file_folio_matches := et_file_folio_matches s1 + 1 \<rparr>
                else s1 \<lparr> et_file_folio_no_region := et_file_folio_no_region s1 + 1 \<rparr>)
      in (found, ev \<lparr> ev_stats := s2 \<rparr>))"

definition parp_evidence_lookup_anon_domain ::
  "u64 \<Rightarrow> u64 \<Rightarrow> parp_evidence_state \<Rightarrow> parp_domain_anon_evidence option" where
  "parp_evidence_lookup_anon_domain now domain_id ev =
     (case ev_snapshot ev of
        None \<Rightarrow> None
      | Some s \<Rightarrow> if now \<ge> es_expires_ns s then None
                 else find (\<lambda>d. de_domain_id d = domain_id) (es_domains s))"

section \<open>The search is exact\<close>

text \<open>
  Binary search: if the comparison never decreases along the positions, the search finds a position
  where it is zero exactly when there is one.
\<close>

lemma point_search_sound:
  "point_search f left right = Some i \<Longrightarrow> left \<le> i \<and> i < right \<and> f i = 0"
proof (induction f left right rule: point_search.induct)
  case (1 f left right)
  have "\<And>m. m = left + (right - left) div 2 \<Longrightarrow> left < right \<Longrightarrow> left \<le> m \<and> m < right" by auto
  then show ?case
    using "1.IH" "1.prems" point_search.simps [of f left right]
    by (fastforce simp: Let_def split: if_splits)
qed

lemma point_search_complete:
  assumes mono: "\<And>i j. i \<le> j \<Longrightarrow> j < n \<Longrightarrow> f i \<le> (f j :: int)"
  shows "right \<le> n \<Longrightarrow> point_search f left right = None \<Longrightarrow> left \<le> i \<Longrightarrow> i < right \<Longrightarrow> f i \<noteq> 0"
  using mono
proof (induction f left right rule: point_search.induct)
  case (1 f left right)
  define m where "m = left + (right - left) div 2"
  have m: "left \<le> m" "m < right" using "1.prems"(3,4) by (auto simp: m_def)
  have unfold: "point_search f left right =
      (if f m = 0 then Some m else if f m < 0 then point_search f (Suc m) right
       else point_search f left m)"
    using m point_search.simps [of f left right] by (simp add: m_def Let_def)
  note IH = "1.IH" [OF _ m_def refl]
  have lr: "\<not> \<not> left < right" using m by simp
  have nz: "f m \<noteq> 0" using unfold "1.prems"(2) by (auto split: if_splits)
  show ?case
  proof (cases "f m < 0")
    case True
    then show ?thesis
    proof (cases "i \<le> m")
      case True
      then have "f i \<le> f m" using "1.prems"(1,5) m by (meson less_le_trans)
      then show ?thesis using \<open>f m < 0\<close> by simp
    next
      case False
      then show ?thesis
        using IH(1) [OF lr nz True] "1.prems" unfold True by (simp add: nz)
    qed
  next
    case False
    then show ?thesis
    proof (cases "m \<le> i")
      case True
      then have "f m \<le> f i" using "1.prems"(1,4,5) by (meson less_le_trans)
      then show ?thesis using False nz by simp
    next
      case ge: False
      then show ?thesis
        using IH(2) [OF lr nz False] "1.prems" unfold False m by (simp add: nz)
    qed
  qed
qed

text \<open>The comparison of the five members that identify a file is lexicographic.\<close>

definition region_rank :: "u64 \<Rightarrow> parp_file_region_key \<Rightarrow> u64 list" where
  "region_rank domain_id key = [domain_id, ucast (fk_dev_major key), ucast (fk_dev_minor key),
     fk_inode key, fk_file_version key]"

abbreviation entry_rank :: "parp_file_evidence \<Rightarrow> u64 list" where
  "entry_rank e \<equiv> region_rank (fe_domain_id e) (fe_key e)"

definition lex_cmp :: "u64 list \<Rightarrow> u64 list \<Rightarrow> int" where
  "lex_cmp xs ys = first_cmp (map2 parp_cmp_u64 xs ys)"

lemma lex_cmp_simps [simp]:
  "lex_cmp [] ys = 0"
  "lex_cmp (x # xs) (y # ys) = (if x = y then lex_cmp xs ys else if x < y then - 1 else 1)"
  by (auto simp: lex_cmp_def parp_cmp_u64_def)

lemma region_cmps_lex: "first_cmp (region_cmps e domain_id key) = lex_cmp (entry_rank e) (region_rank domain_id key)"
  by (simp add: lex_cmp_def region_cmps_def region_rank_def)

lemma lex_cmp_values: "lex_cmp xs ys \<in> {- 1, 0, 1}"
  by (induction xs ys rule: list_induct2') (auto simp: lex_cmp_def parp_cmp_u64_def)

lemma lex_cmp_eq: "length xs = length ys \<Longrightarrow> lex_cmp xs ys = 0 \<longleftrightarrow> xs = ys"
  by (induction xs ys rule: list_induct2) auto

lemma lex_cmp_less_trans:
  "length xs = length ys \<Longrightarrow> length ys = length zs \<Longrightarrow> lex_cmp xs ys < 0 \<Longrightarrow> lex_cmp xs zs \<ge> 0 \<Longrightarrow>
   lex_cmp ys zs = 1"
  by (induction xs ys zs rule: list_induct3) (auto split: if_splits)

lemma length_region_rank [simp]: "length (region_rank d k) = 5"
  by (simp add: region_rank_def)

lemma first_cmp_snoc: "first_cmp (cs @ [c]) = (if first_cmp cs \<noteq> 0 then first_cmp cs else c)"
  by (induction cs) auto

lemma file_compare_le:
  "parp_file_compare a b \<le> 0 \<longleftrightarrow>
     lex_cmp (entry_rank a) (entry_rank b) < 0 \<or>
     entry_rank a = entry_rank b \<and> fk_start_index (fe_key a) \<le> fk_start_index (fe_key b)"
  using lex_cmp_values [of "entry_rank a" "entry_rank b"] lex_cmp_eq [of "entry_rank a" "entry_rank b"]
  by (auto simp: parp_file_compare_def first_cmp_snoc region_cmps_lex parp_cmp_u64_def)

text \<open>A published array is sorted.\<close>

definition regions_sorted :: "parp_file_evidence list \<Rightarrow> bool" where
  "regions_sorted files \<longleftrightarrow> sorted_wrt (\<lambda>a b. parp_file_compare a b \<le> 0) files"

definition region_start :: "parp_file_evidence \<Rightarrow> nat" where
  "region_start e = unat (fk_start_index (fe_key e))"

definition region_end :: "parp_file_evidence \<Rightarrow> nat" where
  "region_end e = region_start e + unat (fk_nr_pages (fe_key e))"

text \<open>
  A region that no other published region of its file overlaps. (The regions of a file are not empty and
  do not wrap.) Regions that overlap do get published: a monitored region is split or merged, and the old
  one stays for a minute.
\<close>

definition region_apart :: "parp_file_evidence list \<Rightarrow> parp_file_evidence \<Rightarrow> bool" where
  "region_apart files e \<longleftrightarrow>
     (\<forall>x \<in> set files. entry_rank x = entry_rank e \<longrightarrow>
        0 < unat (fk_nr_pages (fe_key x)) \<and> region_end x < 2 ^ 64 \<and>
        (x = e \<or> region_end x \<le> region_start e \<or> region_end e \<le> region_start x))"

lemma point_compare:
  assumes "region_end e < 2 ^ 64"
  shows "parp_compare_file_point e domain_id key index =
     (if entry_rank e \<noteq> region_rank domain_id key
      then lex_cmp (entry_rank e) (region_rank domain_id key)
      else if unat index < region_start e then 1 else if region_end e \<le> unat index then - 1 else 0)"
proof -
  have "unat (fk_start_index (fe_key e) + ucast (fk_nr_pages (fe_key e))) = region_end e"
    using assms by (subst unat_add_no_wrap) (simp_all add: region_end_def region_start_def)
  then show ?thesis
    using lex_cmp_eq [of "entry_rank e" "region_rank domain_id key"]
    by (simp add: parp_compare_file_point_def region_cmps_lex word_less_nat_alt word_le_nat_alt
        region_start_def Let_def)
qed

lemma point_compare_other:
  "entry_rank e \<noteq> region_rank domain_id key \<Longrightarrow>
   parp_compare_file_point e domain_id key index = lex_cmp (entry_rank e) (region_rank domain_id key)"
  using lex_cmp_eq [of "entry_rank e" "region_rank domain_id key"]
  by (simp add: parp_compare_file_point_def region_cmps_lex Let_def)

lemma point_compare_values: "parp_compare_file_point e domain_id key index \<in> {- 1, 0, 1}"
  using lex_cmp_values [of "entry_rank e" "region_rank domain_id key"]
  by (auto simp: parp_compare_file_point_def region_cmps_lex Let_def)

text \<open>
  At an index inside a region that stands apart the comparison is zero for that region, negative for the
  regions of the file below it and positive for those above, so it does not decrease along the array.
\<close>

lemma point_compare_apart:
  assumes "region_apart files e" and "x \<in> set files" and rank: "entry_rank x = entry_rank e"
    and at: "entry_rank e = region_rank domain_id key" "region_start e \<le> unat index" "unat index < region_end e"
  shows "parp_compare_file_point x domain_id key index =
    (if x = e then 0 else if region_end x \<le> region_start e then - 1 else 1)"
proof -
  have x: "0 < unat (fk_nr_pages (fe_key x))" "region_end x < 2 ^ 64"
    "x = e \<or> region_end x \<le> region_start e \<or> region_end e \<le> region_start x"
    using assms(1-3) by (auto simp: region_apart_def)
  have "region_start x < region_end x" using x(1) by (simp add: region_end_def)
  then show ?thesis using x(3) at rank by (auto simp: point_compare [OF x(2)])
qed

lemma point_compare_mono:
  assumes "regions_sorted files" and apart: "region_apart files e" and "i \<le> j" and "j < length files"
    and at: "entry_rank e = region_rank domain_id key" "region_start e \<le> unat index" "unat index < region_end e"
  shows "parp_compare_file_point (files ! i) domain_id key index \<le>
         parp_compare_file_point (files ! j) domain_id key index"
proof (cases "i = j")
  case False
  let ?a = "files ! i" and ?b = "files ! j" and ?p = "region_rank domain_id key"
  have ij: "i < j" "i < length files" using False assms(3,4) by simp_all
  note vals = point_compare_values [of ?a domain_id key index] point_compare_values [of ?b domain_id key index]
  have "parp_file_compare ?a ?b \<le> 0"
    using assms(1,4) ij by (auto simp: regions_sorted_def sorted_wrt_iff_nth_less)
  then consider (less) "lex_cmp (entry_rank ?a) (entry_rank ?b) < 0"
    | (same) "entry_rank ?a = entry_rank ?b" "region_start ?a \<le> region_start ?b"
    unfolding file_compare_le region_start_def word_le_nat_alt by blast
  then show ?thesis
  proof cases
    case less
    show ?thesis
    proof (cases "lex_cmp (entry_rank ?a) ?p < 0")
      case True
      then have "parp_compare_file_point ?a domain_id key index = - 1"
        using lex_cmp_values [of "entry_rank ?a" ?p] lex_cmp_eq [of "entry_rank ?a" ?p]
        by (subst point_compare_other) auto
      then show ?thesis using vals(2) by auto
    next
      case False
      then have "lex_cmp (entry_rank ?b) ?p = 1"
        using lex_cmp_less_trans [of "entry_rank ?a" "entry_rank ?b" ?p] less by simp
      then have "parp_compare_file_point ?b domain_id key index = 1"
        using lex_cmp_eq [of "entry_rank ?b" ?p] by (subst point_compare_other) auto
      then show ?thesis using vals(1) by auto
    qed
  next
    case same
    show ?thesis
    proof (cases "entry_rank ?b = ?p")
      case False
      then show ?thesis using same(1) by (simp add: point_compare_other)
    next
      case True
      have mem: "?a \<in> set files" "?b \<in> set files" using ij(2) assms(4) by simp_all
      have rank: "entry_rank ?a = entry_rank e" "entry_rank ?b = entry_rank e" using same(1) True at(1) by simp_all
      note c = point_compare_apart [OF apart mem(1) rank(1) at] point_compare_apart [OF apart mem(2) rank(2) at]
      have b: "region_start ?b < region_end ?b"
        using apart mem(2) rank(2) by (auto simp: region_apart_def region_end_def)
      have a: "?a = e \<or> region_end ?a \<le> region_start e \<or> region_end e \<le> region_start ?a"
        using apart mem(1) rank(1) by (auto simp: region_apart_def)
      have e: "region_start e < region_end e" using at by simp
      show ?thesis using a b e same(2) by (auto simp: c)
    qed
  qed
qed simp

lemma lookup_entries_sound:
  assumes "lookup_entries files now domain_id key index nr_pages = Some e"
  shows "e \<in> set files" and "now < fe_expires_ns e" and "entry_rank e = region_rank domain_id key"
    and "fk_start_index (fe_key e) \<le> index"
    and "index < fk_start_index (fe_key e) + ucast (fk_nr_pages (fe_key e))"
    and "index + ucast nr_pages \<le> fk_start_index (fe_key e) + ucast (fk_nr_pages (fe_key e))"
proof -
  obtain i where i: "point_search (\<lambda>i. parp_compare_file_point (files ! i) domain_id key index) 0 (length files) = Some i"
    and e: "e = files ! i" "now < fe_expires_ns e"
      "index + ucast nr_pages \<le> fk_start_index (fe_key e) + ucast (fk_nr_pages (fe_key e))"
    using assms by (auto simp: lookup_entries_def Let_def split: option.splits if_splits)
  have at: "i < length files" "parp_compare_file_point e domain_id key index = 0"
    using point_search_sound [OF i] e(1) by auto
  show "e \<in> set files" using at(1) e(1) by simp
  show "now < fe_expires_ns e"
    "index + ucast nr_pages \<le> fk_start_index (fe_key e) + ucast (fk_nr_pages (fe_key e))" using e by simp_all
  show "entry_rank e = region_rank domain_id key"
    using at(2) lex_cmp_eq [of "entry_rank e" "region_rank domain_id key"]
    by (simp add: parp_compare_file_point_def region_cmps_lex region_rank_def Let_def split: if_splits)
  show "fk_start_index (fe_key e) \<le> index"
    "index < fk_start_index (fe_key e) + ucast (fk_nr_pages (fe_key e))"
    using at(2) by (simp_all add: parp_compare_file_point_def Let_def not_less not_le split: if_splits)
qed

lemma lookup_entries_apart:
  assumes "regions_sorted files" and apart: "region_apart files e" and e: "e \<in> set files"
    and "nr_pages \<noteq> 0" and no_wrap: "unat index + unat nr_pages < 2 ^ 64"
    and at: "entry_rank e = region_rank domain_id key" "region_start e \<le> unat index"
      "unat index + unat nr_pages \<le> region_end e" and "now < fe_expires_ns e"
  shows "lookup_entries files now domain_id key index nr_pages = Some e"
proof -
  let ?f = "\<lambda>i. parp_compare_file_point (files ! i) domain_id key index"
  have "0 < unat nr_pages" using assms(4) by (simp add: unat_gt_0)
  then have below: "unat index < region_end e" using at(3) by simp
  have compare: "?f i = 0 \<longleftrightarrow> files ! i = e" if "i < length files" for i
  proof (cases "entry_rank (files ! i) = entry_rank e")
    case True
    then show ?thesis
      using point_compare_apart [OF apart nth_mem [OF that] True at(1,2) below] by simp
  next
    case False
    then have "?f i \<noteq> 0"
      using at(1) lex_cmp_eq [of "entry_rank (files ! i)" "region_rank domain_id key"]
      by (simp add: point_compare_other)
    then show ?thesis using False by auto
  qed
  obtain j where j: "j < length files" "files ! j = e" using e by (metis in_set_conv_nth)
  have "point_search ?f 0 (length files) \<noteq> None"
    using point_search_complete [of "length files" ?f "length files" 0 j]
      point_compare_mono [OF assms(1) apart _ _ at(1,2) below] j compare [OF j(1)] by blast
  then obtain i where i: "point_search ?f 0 (length files) = Some i" by blast
  have here: "files ! i = e" using point_search_sound [OF i] compare by blast
  have "unat (index + ucast nr_pages) = unat index + unat nr_pages"
    using no_wrap by (subst unat_add_no_wrap) simp_all
  moreover have "unat (fk_start_index (fe_key e) + ucast (fk_nr_pages (fe_key e))) = region_end e"
    using apart e by (subst unat_add_no_wrap) (auto simp: region_apart_def region_end_def region_start_def)
  ultimately have "index + ucast nr_pages \<le> fk_start_index (fe_key e) + ucast (fk_nr_pages (fe_key e))"
    using at(3) by (simp add: word_le_nat_alt)
  then show ?thesis using i here assms(9) by (simp add: lookup_entries_def)
qed


lemma in_set_map_filter: "x \<in> set (List.map_filter f xs) \<longleftrightarrow> (\<exists>y \<in> set xs. f y = Some x)"
  by (induction xs) (auto simp: List.map_filter_simps split: option.splits)

text \<open>C14. What a lookup finds is published evidence, and a region that stands apart is found. After a
  successful publication, and until the snapshot expires, take a query for a range of pages of a file.
  Whatever regions overlap, an entry it returns is one the publication made from a builder (fresh, and
  of the domain's current owner), is of the queried domain, device, inode and version, contains the
  whole range and has not expired. And an unexpired published entry of that domain and file that
  contains the range is returned, provided that no other published region of the file overlaps it. This
  proviso is needed, and the update path does not establish it: where regions overlap, the entry can be
  missed (\<open>parp_evidence_lookup_misses_overlap\<close>). The array is assumed to be a sorted permutation of the
  entries, the contract of \<open>sort\<close>.\<close>

theorem parp_evidence_lookup_after_publish:
  fixes env ev now_ns ev' now domain_id key index nr_pages
  defines "entries \<equiv> List.map_filter (file_entry (ee_active env) (ev_version ev + 1) now_ns)
                       (bt_builders (ev_files ev))"
    and "found \<equiv> fst (parp_evidence_lookup_file now domain_id key index nr_pages ev')"
  assumes "parp_publish_evidence_locked env now_ns ev = (None, ev')"
    and "set (ee_sort_files env entries) = set entries" and "regions_sorted (ee_sort_files env entries)"
    and "now < now_ns + PARP_EVIDENCE_TTL_NS"
    and "nr_pages \<noteq> 0" and "unat index + unat nr_pages < 2 ^ 64"
  shows "(\<forall>e. found = Some e \<longrightarrow>
       (\<exists>b \<in> set (bt_builders (ev_files ev)). file_entry (ee_active env) (ev_version ev + 1) now_ns b = Some e) \<and>
       entry_rank e = region_rank domain_id key \<and> fk_start_index (fe_key e) \<le> index \<and>
       index + ucast nr_pages \<le> fk_start_index (fe_key e) + ucast (fk_nr_pages (fe_key e)) \<and>
       now < fe_expires_ns e) \<and>
     (\<forall>e \<in> set entries. entry_rank e = region_rank domain_id key \<and> region_start e \<le> unat index \<and>
       unat index + unat nr_pages \<le> region_end e \<and> now < fe_expires_ns e \<and> region_apart entries e \<longrightarrow>
       found = Some e)"
proof -
  let ?files = "ee_sort_files env entries"
  have snap: "ev_snapshot ev' \<noteq> None" "es_files (the (ev_snapshot ev')) = ?files"
    "es_expires_ns (the (ev_snapshot ev')) = now_ns + PARP_EVIDENCE_TTL_NS"
    using assms(3) by (auto simp: parp_publish_evidence_locked_def Let_def entries_def split: if_splits)
  have mem: "e \<in> set ?files \<longleftrightarrow> (\<exists>b \<in> set (bt_builders (ev_files ev)).
      file_entry (ee_active env) (ev_version ev + 1) now_ns b = Some e)" for e
    unfolding assms(4) unfolding entries_def in_set_map_filter ..
  have found: "found = lookup_entries ?files now domain_id key index nr_pages"
    using snap assms(6) by (auto simp: found_def parp_evidence_lookup_file_def Let_def split: option.splits)
  have "region_apart ?files e = region_apart entries e" for e
    by (simp add: region_apart_def assms(4))
  then have complete: "found = Some e"
    if "e \<in> set entries" "entry_rank e = region_rank domain_id key" "region_start e \<le> unat index"
      "unat index + unat nr_pages \<le> region_end e" "now < fe_expires_ns e" "region_apart entries e" for e
    unfolding found using that assms(4) by (intro lookup_entries_apart [OF assms(5) _ _ assms(7,8)]) auto
  show ?thesis
    using complete lookup_entries_sound [of ?files now domain_id key index nr_pages] mem
    unfolding found [symmetric] by blast
qed

text \<open>Witness of C14: one region of eight pages from page 16, asked for pages 18 to 21.\<close>

definition sample_damon :: parp_damon_sample where
  "sample_damon = \<lparr> ds_timestamp_ns = 3000, ds_sample_id = 1, ds_target_cookie = 7,
     ds_mm_cookie = 8, ds_pid = 100, ds_tgid = 100, ds_region_start = 65536,
     ds_region_end = 98304, ds_nr_accesses = 3, ds_age = 1, ds_sample_interval_us = 5000,
     ds_aggregation_interval_us = 100000, ds_flags = 0 \<rparr>"

definition sample_file_key :: parp_file_region_key where
  "sample_file_key = \<lparr> fk_dev_major = 8, fk_dev_minor = 1, fk_inode = 42, fk_file_version = 6,
     fk_start_index = 16, fk_nr_pages = 8 \<rparr>"

definition sample_owner :: parp_app_context where
  "sample_owner = the (parp_context_lookup (Some sample_snapshot) 5 3000)"

definition sample_file_observation :: parp_file_observation where
  "sample_file_observation = \<lparr> fo_key = sample_file_key, fo_owner = sample_owner,
     fo_sample = sample_damon, fo_backing_class = PARP_BACKING_REGULAR_FILE,
     fo_version_source = PARP_FILE_VERSION_IVERSION, fo_alignment_confidence_q15 = 32767,
     fo_flags = 0 \<rparr>"

definition sample_env :: evidence_env where
  "sample_env = \<lparr> ee_active = Some sample_snapshot, ee_grow_ok = True, ee_publish_ok = True,
     ee_sort_files = (\<lambda>xs. xs), ee_sort_anons = (\<lambda>xs. xs) \<rparr>"

definition sample_file_builder :: parp_file_builder where
  "sample_file_builder = builder_zero \<lparr> bl_observation := Some sample_file_observation,
     bl_newest_ns := 3000, bl_first_seen_ns := 3000, bl_last_access_ns := 3000,
     bl_last_sample_id := 1 \<rparr>"

definition sample_evidence :: parp_evidence_state where
  "sample_evidence = evidence_boot
     \<lparr> ev_files := \<lparr> bt_builders = [sample_file_builder], bt_capacity = 64 \<rparr> \<rparr>"

lemma sample_owner_eq: "sample_owner = \<lparr> ac_domain_id = 5, ac_app_id = 10, ac_bind_generation = 1,
     ac_foreground_epoch_id = 2, ac_bind_expiry_ns = 9000, ac_model_version = 3,
     ac_app_prior_q15 = 30000, ac_owner_confidence_q15 = PARP_Q15_ONE, ac_owner_source = 1 \<rparr>"
  by code_simp

lemma sample_lookup: "parp_context_lookup (Some sample_snapshot) 5 3000 = Some sample_owner"
proof -
  have "parp_context_lookup (Some sample_snapshot) 5 3000 \<noteq> None" by code_simp
  then show ?thesis by (auto simp: sample_owner_def)
qed

definition sample_file_entry :: parp_file_evidence where
  "sample_file_entry = the (file_entry (Some sample_snapshot) 1 3000 sample_file_builder)"

lemma sample_entry:
  "file_entry (Some sample_snapshot) 1 3000 sample_file_builder = Some sample_file_entry"
  "fe_key sample_file_entry = sample_file_key" "fe_domain_id sample_file_entry = 5"
  "fe_expires_ns sample_file_entry = 9000"
proof -
  have "ac_domain_id sample_owner = 5" "ac_bind_expiry_ns sample_owner = 9000"
    by (simp_all add: sample_owner_eq)
  then show "file_entry (Some sample_snapshot) 1 3000 sample_file_builder = Some sample_file_entry"
    "fe_key sample_file_entry = sample_file_key" "fe_domain_id sample_file_entry = 5"
    "fe_expires_ns sample_file_entry = 9000"
    using sample_lookup
    by (simp_all add: sample_file_entry_def file_entry_def sample_file_builder_def owner_current_def
        sample_file_observation_def Let_def)
qed

theorem parp_evidence_lookup_after_publish_witness:
  "\<exists>ev'. parp_publish_evidence_locked sample_env 3000 sample_evidence = (None, ev') \<and>
     fst (parp_evidence_lookup_file 4000 5 sample_file_key 18 4 ev') = Some sample_file_entry"
proof -
  obtain ev' where pub: "parp_publish_evidence_locked sample_env 3000 sample_evidence = (None, ev')"
    by (simp add: parp_publish_evidence_locked_def sample_env_def Let_def)
  have env: "ee_active sample_env = Some sample_snapshot" "ee_sort_files sample_env = (\<lambda>xs. xs)"
    and ev: "ev_version sample_evidence + 1 = 1" "bt_builders (ev_files sample_evidence) = [sample_file_builder]"
    by (simp_all add: sample_env_def sample_evidence_def evidence_boot_def)
  have range: "region_start sample_file_entry = 16" "region_end sample_file_entry = 24"
    "entry_rank sample_file_entry = region_rank 5 sample_file_key"
    by (simp_all add: region_start_def region_end_def sample_entry sample_file_key_def)
  have apart: "region_apart [sample_file_entry] sample_file_entry" and sorted: "regions_sorted [sample_file_entry]"
    using range by (simp_all add: region_apart_def regions_sorted_def region_end_def region_start_def)
  have entries: "List.map_filter (file_entry (ee_active sample_env) (ev_version sample_evidence + 1) 3000)
      (bt_builders (ev_files sample_evidence)) = [sample_file_entry]"
    by (simp add: env ev sample_entry List.map_filter_simps)
  note published = parp_evidence_lookup_after_publish [OF pub, unfolded entries env(2), OF refl sorted,
    of 4000 4 18 5 sample_file_key, simplified, THEN conjunct2]
  have "fst (parp_evidence_lookup_file 4000 5 sample_file_key 18 4 ev') = Some sample_file_entry"
    by (rule published [rule_format]) (use range apart in \<open>simp_all add: sample_entry\<close>)
  then show ?thesis using pub by blast
qed


end
