(* ===== verification/Evidence_Table.thy ===== *)
theory Evidence_Table
  imports Evidence "HOL-Library.Multiset"
begin

text \<open>
  What the builders of \<open>mm/parp/core/evidence.c\<close> hold over time: the ring of buckets gives the exact
  evidence of the last 10, 30 and 60 seconds, and the tables stay within their limits with one builder
  per region.
\<close>

section \<open>Windows\<close>

definition second_of :: "u64 \<Rightarrow> nat" where
  "second_of ns = unat ns div 1000000000"

text \<open>What a bucket, and what a sample, contributes to the window of the last \<open>w\<close> seconds at second
  \<open>n\<close>. Second 0 marks an empty bucket, so samples of the first second after boot never count.\<close>

definition bucket_share :: "nat \<Rightarrow> nat \<Rightarrow> parp_time_bucket \<Rightarrow> nat" where
  "bucket_share w n b =
     (if tb_second b \<noteq> 0 \<and> unat (tb_second b) \<le> n \<and> n - unat (tb_second b) < w
      then unat (tb_evidence b) else 0)"

definition sample_share :: "nat \<Rightarrow> nat \<Rightarrow> u64 \<times> u32 \<Rightarrow> nat" where
  "sample_share w n = (\<lambda>(ts, evidence).
     if 0 < second_of ts \<and> second_of ts \<le> n \<and> n - second_of ts < w then unat evidence else 0)"

lemma second_div: "unat (ns div NSEC_PER_SEC) = second_of ns"
  by (simp add: unat_div second_of_def)

lemma collect_share:
  assumes "unat now_second = n"
  shows "unat (ws_access_evidence_60s w) + (\<Sum>b\<leftarrow>bs. bucket_share 60 n b) < 2 ^ 64 \<Longrightarrow>
      unat (ws_access_evidence_60s (foldl (collect_bucket now_second) w bs)) =
      unat (ws_access_evidence_60s w) + (\<Sum>b\<leftarrow>bs. bucket_share 60 n b)"
    and "unat (ws_access_evidence_30s w) + (\<Sum>b\<leftarrow>bs. bucket_share 30 n b) < 2 ^ 64 \<Longrightarrow>
      unat (ws_access_evidence_30s (foldl (collect_bucket now_second) w bs)) =
      unat (ws_access_evidence_30s w) + (\<Sum>b\<leftarrow>bs. bucket_share 30 n b)"
    and "unat (ws_access_evidence_10s w) + (\<Sum>b\<leftarrow>bs. bucket_share 10 n b) < 2 ^ 64 \<Longrightarrow>
      unat (ws_access_evidence_10s (foldl (collect_bucket now_second) w bs)) =
      unat (ws_access_evidence_10s w) + (\<Sum>b\<leftarrow>bs. bucket_share 10 n b)"
proof -
  have age: "now_second - tb_second b < x \<longleftrightarrow> n - unat (tb_second b) < unat x"
    if "\<not> tb_second b > now_second" for b x
    using that assms by (simp add: word_less_nat_alt unat_sub word_le_nat_alt)
  have one: "unat (ws_access_evidence_60s w) + bucket_share 60 n b < 2 ^ 64 \<Longrightarrow>
        unat (ws_access_evidence_60s (collect_bucket now_second w b)) =
        unat (ws_access_evidence_60s w) + bucket_share 60 n b"
      "unat (ws_access_evidence_30s w) + bucket_share 30 n b < 2 ^ 64 \<Longrightarrow>
        unat (ws_access_evidence_30s (collect_bucket now_second w b)) =
        unat (ws_access_evidence_30s w) + bucket_share 30 n b"
      "unat (ws_access_evidence_10s w) + bucket_share 10 n b < 2 ^ 64 \<Longrightarrow>
        unat (ws_access_evidence_10s (collect_bucket now_second w b)) =
        unat (ws_access_evidence_10s w) + bucket_share 10 n b" for w b
    using age [of b 60] age [of b 30] age [of b 10] assms
    by (auto simp: collect_bucket_def bucket_share_def Let_def word_less_nat_alt not_less
        word_le_nat_alt unat_add_no_wrap)
  show "unat (ws_access_evidence_60s w) + (\<Sum>b\<leftarrow>bs. bucket_share 60 n b) < 2 ^ 64 \<Longrightarrow>
      unat (ws_access_evidence_60s (foldl (collect_bucket now_second) w bs)) =
      unat (ws_access_evidence_60s w) + (\<Sum>b\<leftarrow>bs. bucket_share 60 n b)"
    by (induction bs arbitrary: w) (simp_all add: one)
  show "unat (ws_access_evidence_30s w) + (\<Sum>b\<leftarrow>bs. bucket_share 30 n b) < 2 ^ 64 \<Longrightarrow>
      unat (ws_access_evidence_30s (foldl (collect_bucket now_second) w bs)) =
      unat (ws_access_evidence_30s w) + (\<Sum>b\<leftarrow>bs. bucket_share 30 n b)"
    by (induction bs arbitrary: w) (simp_all add: one)
  show "unat (ws_access_evidence_10s w) + (\<Sum>b\<leftarrow>bs. bucket_share 10 n b) < 2 ^ 64 \<Longrightarrow>
      unat (ws_access_evidence_10s (foldl (collect_bucket now_second) w bs)) =
      unat (ws_access_evidence_10s w) + (\<Sum>b\<leftarrow>bs. bucket_share 10 n b)"
    by (induction bs arbitrary: w) (simp_all add: one)
qed

text \<open>The ring: bucket \<open>i\<close> holds a second congruent to \<open>i\<close>, none later than \<open>m\<close>, and all buckets
  together at most \<open>t\<close> units of evidence.\<close>

definition ring_ok :: "nat \<Rightarrow> nat \<Rightarrow> parp_time_bucket list \<Rightarrow> bool" where
  "ring_ok m t bs \<longleftrightarrow> length bs = 60 \<and> (\<Sum>b\<leftarrow>bs. unat (tb_evidence b)) \<le> t \<and>
     (\<forall>i < 60. unat (tb_second (bs ! i)) \<le> m \<and>
        (tb_second (bs ! i) \<noteq> 0 \<longrightarrow> unat (tb_second (bs ! i)) mod 60 = i))"

lemma sum_list_update_nat:
  "i < length xs \<Longrightarrow> (\<Sum>x\<leftarrow>xs [i := y]. f x) + f (xs ! i) = (\<Sum>x\<leftarrow>xs. f x) + (f y :: nat)"
  by (induction xs arbitrary: i) (auto split: nat.split)

lemma member_le_sum_list_nat: "i < length xs \<Longrightarrow> f (xs ! i) \<le> (\<Sum>x\<leftarrow>xs. f x :: nat)"
  by (induction xs arbitrary: i) (auto simp: nth_Cons split: nat.splits intro: trans_le_add2)

lemma unat_bucket_add:
  assumes "unat (tb_evidence b) + unat e < 2 ^ 64"
  shows "tb_second (bucket_add s e b) = s"
    and "unat (tb_evidence (bucket_add s e b)) = (if tb_second b = s then unat (tb_evidence b) else 0) + unat e"
proof -
  have add: "unat (case checked_add x (ucast e) of None \<Rightarrow> U64_MAX | Some v \<Rightarrow> v) = unat x + unat e"
    if "unat x + unat e < 2 ^ 64" for x
    using that checked_add_Some [of x "ucast e"] unat_add_no_wrap [of x "ucast e"]
    by (auto split: option.split simp: checked_add_def split: if_splits)
  show "tb_second (bucket_add s e b) = s" by (simp add: bucket_add_def Let_def time_bucket_zero_def)
  show "unat (tb_evidence (bucket_add s e b)) =
      (if tb_second b = s then unat (tb_evidence b) else 0) + unat e"
    using assms add [of "tb_evidence b"] add [of 0] unat_u32_bound [of e]
    by (simp add: bucket_add_def Let_def time_bucket_zero_def)
qed

lemma stale_slot:
  fixes a s :: nat
  assumes "a mod 60 = s mod 60" and "a < s + 60" and "a \<noteq> s"
  shows "a + 60 \<le> s"
proof (cases "a < s")
  case True
  then have "60 dvd s - a"
    using mod_eq_dvd_iff_nat [of a s 60] assms(1) by simp
  then have "60 \<le> s - a" using True by (intro dvd_imp_le) simp_all
  then show ?thesis by linarith
next
  case False
  then have "60 dvd a - s" using mod_eq_dvd_iff_nat [of s a 60] assms(1) by simp
  then have "60 \<le> a - s" using False assms(3) by (intro dvd_imp_le) simp_all
  then show ?thesis using assms(2) by linarith
qed

lemma ring_zero: "ring_ok 0 0 (replicate PARP_WINDOW_BUCKETS time_bucket_zero)"
  by (simp add: ring_ok_def time_bucket_zero_def sum_list_replicate)

text \<open>One sample, at most 59 seconds behind the newest: the ring stays well-formed, and for any later
  moment each window grows by the share of the sample.\<close>

lemma ring_step:
  assumes ring: "ring_ok m t bs" and fresh: "m < second_of ts + 60"
    and room: "t + unat e < 2 ^ 64"
  shows "ring_ok (max m (second_of ts)) (t + unat e) (parp_update_bucket ts e bs)"
    and "w \<le> 60 \<Longrightarrow> m \<le> n \<Longrightarrow> second_of ts \<le> n \<Longrightarrow>
      (\<Sum>b\<leftarrow>parp_update_bucket ts e bs. bucket_share w n b) =
      (\<Sum>b\<leftarrow>bs. bucket_share w n b) + sample_share w n (ts, e)"
proof -
  let ?s = "second_of ts" and ?i = "second_of ts mod 60"
  let ?b = "bs ! ?i" and ?b' = "bucket_add (ts div NSEC_PER_SEC) e (bs ! ?i)"
  have i: "?i < length bs" "length bs = 60" using ring by (simp_all add: ring_ok_def)
  have upd: "parp_update_bucket ts e bs = bs [?i := ?b']"
    by (simp add: parp_update_bucket_def second_div Let_def)
  have old: "unat (tb_second ?b) \<le> m" "tb_second ?b \<noteq> 0 \<Longrightarrow> unat (tb_second ?b) mod 60 = ?i"
    using ring by (simp_all add: ring_ok_def)
  have "unat (tb_evidence ?b) \<le> t"
    using member_le_sum_list_nat [OF i(1), of "\<lambda>b. unat (tb_evidence b)"] ring
    by (auto simp: ring_ok_def)
  then have add: "tb_second ?b' = ts div NSEC_PER_SEC"
    "unat (tb_evidence ?b') =
      (if tb_second ?b = ts div NSEC_PER_SEC then unat (tb_evidence ?b) else 0) + unat e"
    using unat_bucket_add [of ?b e "ts div NSEC_PER_SEC"] room by simp_all
  have sec: "unat (tb_second ?b') = ?s" by (simp add: add(1) second_div)
  show "ring_ok (max m ?s) (t + unat e) (parp_update_bucket ts e bs)"
  proof -
    have "(\<Sum>b\<leftarrow>bs [?i := ?b']. unat (tb_evidence b)) \<le> t + unat e"
      using sum_list_update_nat [OF i(1), of "\<lambda>b. unat (tb_evidence b)" ?b'] ring add(2)
      by (auto simp: ring_ok_def split: if_splits)
    then show ?thesis
      using ring i sec by (auto simp: upd ring_ok_def nth_list_update le_max_iff_disj)
  qed
  show "(\<Sum>b\<leftarrow>parp_update_bucket ts e bs. bucket_share w n b) =
      (\<Sum>b\<leftarrow>bs. bucket_share w n b) + sample_share w n (ts, e)"
    if "w \<le> 60" "m \<le> n" "second_of ts \<le> n"
  proof -
    have share: "bucket_share w n ?b' = bucket_share w n ?b + sample_share w n (ts, e)"
    proof (cases "tb_second ?b = ts div NSEC_PER_SEC")
      case True
      then have "unat (tb_second ?b) = ?s" by (simp add: second_div)
      moreover have "tb_second ?b = 0 \<longleftrightarrow> ?s = 0" using calculation by (simp add: unat_eq_zero [symmetric])
      moreover have "tb_second ?b' = 0 \<longleftrightarrow> ?s = 0" using sec by (simp add: unat_eq_zero [symmetric])
      ultimately show ?thesis using add(2) True sec that(3)
        by (simp add: bucket_share_def sample_share_def)
    next
      case False
      have stale: "bucket_share w n ?b = 0"
      proof (cases "tb_second ?b = 0")
        case nz: False
        have "unat (tb_second ?b) \<noteq> ?s" using False by (metis second_div word_unat_eq_iff)
        moreover have "unat (tb_second ?b) mod 60 = ?s mod 60" using old(2) nz by simp
        moreover have "unat (tb_second ?b) < ?s + 60" using old(1) fresh by linarith
        ultimately have "unat (tb_second ?b) + 60 \<le> ?s" using stale_slot by blast
        then have "\<not> n - unat (tb_second ?b) < w" using that by linarith
        then show ?thesis by (simp add: bucket_share_def)
      qed (simp add: bucket_share_def)
      have "tb_second ?b' = 0 \<longleftrightarrow> ?s = 0" using sec by (simp add: unat_eq_zero [symmetric])
      then show ?thesis using stale add(2) False sec that(3)
        by (simp add: bucket_share_def sample_share_def)
    qed
    show ?thesis
      using sum_list_update_nat [OF i(1), of "bucket_share w n" ?b'] share by (simp add: upd)
  qed
qed

text \<open>The samples a builder has taken in, oldest first.\<close>

inductive builder_run :: "'o evidence_kind \<Rightarrow> 'o parp_builder \<Rightarrow> (u64 \<times> u32) list \<Rightarrow> bool"
  for k :: "'o evidence_kind" where
  fresh: "builder_run k (builder_zero \<lparr> bl_first_seen_ns := t \<rparr>) []"
| sample: "builder_run k b us \<Longrightarrow> evidence_fold k ob b s = (None, b', s') \<Longrightarrow>
    builder_run k b' (us @ [(ds_timestamp_ns (ek_sample k ob), ds_nr_accesses (ek_sample k ob))])"

text \<open>The clock of the samples stays two seconds below the top of its 64 bits (584 years).\<close>

lemma second_of_max: "second_of (max a b) = max (second_of a) (second_of b)"
  by (auto simp: max_def second_of_def word_le_nat_alt div_le_mono dest: div_le_mono [of _ _ 1000000000])

lemma builder_run_ring:
  "builder_run k b us \<Longrightarrow> (\<Sum>u\<leftarrow>us. unat (snd u)) < 2 ^ 64 \<Longrightarrow>
   \<forall>u \<in> set us. unat (fst u) \<le> now \<Longrightarrow> now + 2000000000 < 2 ^ 64 \<Longrightarrow>
   unat (bl_newest_ns b) \<le> now \<and>
   ring_ok (second_of (bl_newest_ns b)) (\<Sum>u\<leftarrow>us. unat (snd u)) (bl_buckets b) \<and>
   (\<forall>w \<le> 60. (\<Sum>c\<leftarrow>bl_buckets b. bucket_share w (now div 1000000000) c) =
      (\<Sum>u\<leftarrow>us. sample_share w (now div 1000000000) u))"
proof (induction rule: builder_run.induct)
  case (fresh t)
  have "ring_ok (second_of 0) 0 (replicate 60 time_bucket_zero)"
    using ring_zero by (simp add: second_of_def)
  moreover have "bucket_share w n time_bucket_zero = 0" for w n
    by (simp add: bucket_share_def time_bucket_zero_def)
  ultimately show ?case by (simp add: builder_zero_def sum_list_replicate)
next
  case (sample b us ob s b' s')
  let ?ts = "ds_timestamp_ns (ek_sample k ob)" and ?e = "ds_nr_accesses (ek_sample k ob)"
  let ?n = "now div 1000000000" and ?t = "\<Sum>u\<leftarrow>us. unat (snd u)"
  have room: "?t + unat ?e < 2 ^ 64" and le: "unat ?ts \<le> now"
    and past: "\<forall>u \<in> set us. unat (fst u) \<le> now"
    using sample.prems by auto
  then have IH: "unat (bl_newest_ns b) \<le> now" "ring_ok (second_of (bl_newest_ns b)) ?t (bl_buckets b)"
    "\<forall>w \<le> 60. (\<Sum>c\<leftarrow>bl_buckets b. bucket_share w ?n c) = (\<Sum>u\<leftarrow>us. sample_share w ?n u)"
    using sample.IH sample.prems(3) by auto
  have b': "bl_newest_ns b' = max (bl_newest_ns b) ?ts"
    "bl_buckets b' = parp_update_bucket ?ts ?e (bl_buckets b)"
    and lag: "bl_newest_ns b = 0 \<or> \<not> ?ts + 2 * NSEC_PER_SEC < bl_newest_ns b"
    using sample.hyps(2) by (auto simp: evidence_fold_def Let_def split: if_splits)
  have recent: "second_of (bl_newest_ns b) < second_of ?ts + 60"
  proof (cases "bl_newest_ns b = 0")
    case False
    have "unat (?ts + 2000000000) = unat ?ts + 2000000000"
      using le sample.prems(3) by (subst unat_add_no_wrap) simp_all
    then have "unat (bl_newest_ns b) \<le> unat ?ts + 2000000000"
      using lag False by (simp add: word_less_nat_alt)
    then have "second_of (bl_newest_ns b) \<le> (unat ?ts + 2 * 1000000000) div 1000000000"
      unfolding second_of_def by (intro div_le_mono) simp
    then show ?thesis by (simp add: second_of_def)
  qed (simp add: second_of_def)
  have now: "second_of (bl_newest_ns b) \<le> ?n" "second_of ?ts \<le> ?n"
    unfolding second_of_def using IH(1) le by (auto intro: div_le_mono)
  note step = ring_step [OF IH(2) recent room]
  have "unat (bl_newest_ns b') \<le> now" using IH(1) le by (simp add: b' max_def)
  moreover have "ring_ok (second_of (bl_newest_ns b')) (?t + unat ?e) (bl_buckets b')"
    using step(1) by (simp add: b' second_of_max)
  moreover have "\<forall>w \<le> 60. (\<Sum>c\<leftarrow>bl_buckets b'. bucket_share w ?n c) =
      (\<Sum>u\<leftarrow>us. sample_share w ?n u) + sample_share w ?n (?ts, ?e)"
    using step(2) now IH(3) by (simp add: b')
  ultimately show ?case by simp
qed

text \<open>C16. The windows are exact. For any sequence of samples a builder took in (the rest having been
  refused as duplicates or as more than two seconds late), the published evidence of the last 10, 30
  and 60 seconds is the sum of the access counts of the samples taken in those seconds, although the
  builder keeps 60 buckets only and samples may arrive out of order. The first second after boot,
  whose number marks an empty bucket, is the one exception.\<close>

theorem parp_windows_exact:
  assumes "builder_run k b us" and "(\<Sum>u\<leftarrow>us. unat (snd u)) < 2 ^ 64"
    and "\<forall>u \<in> set us. fst u \<le> now_ns" and "unat now_ns + 2000000000 < 2 ^ 64"
  shows "unat (ws_access_evidence_10s (builder_windows b sample pages now_ns)) =
           (\<Sum>u\<leftarrow>us. sample_share 10 (second_of now_ns) u) \<and>
         unat (ws_access_evidence_30s (builder_windows b sample pages now_ns)) =
           (\<Sum>u\<leftarrow>us. sample_share 30 (second_of now_ns) u) \<and>
         unat (ws_access_evidence_60s (builder_windows b sample pages now_ns)) =
           (\<Sum>u\<leftarrow>us. sample_share 60 (second_of now_ns) u)"
proof -
  have share: "(\<Sum>c\<leftarrow>bl_buckets b. bucket_share w (second_of now_ns) c) =
      (\<Sum>u\<leftarrow>us. sample_share w (second_of now_ns) u)" if "w \<le> 60" for w
    using builder_run_ring [OF assms(1,2), of "unat now_ns"] assms(3,4) that
    by (auto simp: word_le_nat_alt second_of_def)
  have "(\<Sum>u\<leftarrow>us. sample_share w n u) \<le> (\<Sum>u\<leftarrow>us. unat (snd u))" for w n
    by (intro sum_list_mono) (auto simp: sample_share_def)
  then have fits: "(\<Sum>u\<leftarrow>us. sample_share w n u) < 2 ^ 64" for w n
    using assms(2) by (rule order.strict_trans1)
  show ?thesis
    using collect_share [OF second_div [of now_ns], of _ "bl_buckets b"] fits
    by (simp add: builder_windows_def parp_collect_windows_def window_stats_zero_def share)
qed


text \<open>Witness of C16: three accesses in second 100, then two more reported late for second 99.\<close>

definition sample_late :: parp_file_observation where
  "sample_late = sample_file_observation
     \<lparr> fo_sample := sample_damon \<lparr> ds_timestamp_ns := 99000000000, ds_sample_id := 2,
                                    ds_nr_accesses := 2 \<rparr> \<rparr>"

definition sample_prompt :: parp_file_observation where
  "sample_prompt = sample_file_observation
     \<lparr> fo_sample := sample_damon \<lparr> ds_timestamp_ns := 100000000000 \<rparr> \<rparr>"

definition sample_first_builder :: parp_file_builder where
  "sample_first_builder = fst (snd (evidence_fold file_kind sample_prompt
     (builder_zero \<lparr> bl_first_seen_ns := 100000000000 \<rparr>) evidence_stats_zero))"

definition sample_second_builder :: parp_file_builder where
  "sample_second_builder =
     fst (snd (evidence_fold file_kind sample_late sample_first_builder evidence_stats_zero))"

lemma sample_run:
  "builder_run file_kind sample_second_builder [(100000000000, 3), (99000000000, 2)]"
proof -
  have us: "ek_sample file_kind sample_prompt = sample_damon \<lparr> ds_timestamp_ns := 100000000000 \<rparr>"
    "ek_sample file_kind sample_late = sample_damon \<lparr> ds_timestamp_ns := 99000000000,
       ds_sample_id := 2, ds_nr_accesses := 2 \<rparr>"
    by (simp_all add: file_kind_def sample_prompt_def sample_late_def)
  have first: "evidence_fold file_kind sample_prompt
      (builder_zero \<lparr> bl_first_seen_ns := 100000000000 \<rparr>) evidence_stats_zero =
      (None, sample_first_builder, evidence_stats_zero)"
    by (simp add: sample_first_builder_def evidence_fold_def us sample_damon_def builder_zero_def)
  then have "bl_newest_ns sample_first_builder = 100000000000" "bl_last_sample_id sample_first_builder = 1"
    by (simp_all add: sample_first_builder_def evidence_fold_def us sample_damon_def builder_zero_def)
  then have second: "evidence_fold file_kind sample_late sample_first_builder evidence_stats_zero =
      (None, sample_second_builder, evidence_stats_zero)"
    by (simp add: sample_second_builder_def evidence_fold_def us sample_damon_def)
  show ?thesis
    using builder_run.sample [OF builder_run.sample [OF builder_run.fresh first] second]
    by (simp add: us sample_damon_def)
qed

theorem parp_windows_exact_witness:
  "unat (ws_access_evidence_10s (builder_windows sample_second_builder sample_damon 8 109500000000)) = 3 \<and>
   unat (ws_access_evidence_30s (builder_windows sample_second_builder sample_damon 8 109500000000)) = 5"
  using parp_windows_exact [OF sample_run, of 109500000000 sample_damon 8]
  by (simp add: sample_share_def second_of_def)


section \<open>Removing a domain\<close>

lemma swap_remove_step:
  assumes "i < length bs"
  shows "take i (butlast (bs [i := last bs])) = take i bs"
    and "mset (drop i (butlast (bs [i := last bs]))) = mset (drop (Suc i) bs)"
proof -
  show "take i (butlast (bs [i := last bs])) = take i bs"
    using assms by (simp add: butlast_conv_take)
  have "drop i (bs [i := last bs]) = last bs # drop (Suc i) bs"
    using assms Cons_nth_drop_Suc [of i "bs [i := last bs]"] by simp
  then have "drop i (butlast (bs [i := last bs])) = butlast (last bs # drop (Suc i) bs)"
    by (simp only: drop_butlast)
  also have "mset \<dots> = mset (drop (Suc i) bs)"
  proof (cases "drop (Suc i) bs = []")
    case False
    then have "last bs = last (drop (Suc i) bs)" by (simp add: last_drop)
    then have "mset (drop (Suc i) bs) = add_mset (last bs) (mset (butlast (drop (Suc i) bs)))"
      using False by (metis append_butlast_last_id mset_append mset.simps union_commute
          add_mset_add_single)
    then show ?thesis using False by simp
  qed simp
  finally show "mset (drop i (butlast (bs [i := last bs]))) = mset (drop (Suc i) bs)" .
qed

lemma mset_swap_remove:
  "mset (swap_remove gone i bs) = mset (take i bs) + {# b \<in># mset (drop i bs). \<not> gone b #}"
proof (induction gone i bs rule: swap_remove.induct)
  case (1 gone i bs)
  consider (stop) "length bs \<le> i" | (keep) "i < length bs" "\<not> gone (bs ! i)"
    | (drop) "i < length bs" "gone (bs ! i)" by fastforce
  then show ?case
  proof cases
    case stop
    then show ?thesis by (simp add: swap_remove.simps [of gone i bs])
  next
    case keep
    then have "mset (swap_remove gone i bs) =
        mset (take (Suc i) bs) + {# b \<in># mset (drop (Suc i) bs). \<not> gone b #}"
      using "1.IH"(1) by (simp add: swap_remove.simps [of gone i bs])
    then show ?thesis
      using keep Cons_nth_drop_Suc [OF keep(1), symmetric] by (simp add: take_Suc_conv_app_nth)
  next
    case drop
    then have "mset (swap_remove gone i bs) = mset (take i (butlast (bs [i := last bs]))) +
        {# b \<in># mset (drop i (butlast (bs [i := last bs]))). \<not> gone b #}"
      using "1.IH"(2) by (simp add: swap_remove.simps [of gone i bs])
    also have "\<dots> = mset (take i bs) + {# b \<in># mset (drop (Suc i) bs). \<not> gone b #}"
      by (simp only: swap_remove_step [OF drop(1)])
    also have "\<dots> = mset (take i bs) + {# b \<in># mset (drop i bs). \<not> gone b #}"
      using drop(2) Cons_nth_drop_Suc [OF drop(1), symmetric] by simp
    finally show ?thesis .
  qed
qed

lemma mset_swap_remove_all: "mset (swap_remove gone 0 bs) = {# b \<in># mset bs. \<not> gone b #}"
  by (simp add: mset_swap_remove)

lemma set_swap_remove: "set (swap_remove gone 0 bs) = {b \<in> set bs. \<not> gone b}"
  using arg_cong [OF mset_swap_remove_all, of set_mset gone bs] by simp


end
