(* ===== verification/Evidence_Invariant.thy ===== *)
theory Evidence_Invariant
  imports Evidence_Table
begin

text \<open>
  The invariant of the evidence tables of \<open>mm/parp/core/evidence.c\<close> under any sequence of samples,
  publications, removals and changes of the limits, and what a published snapshot holds. The contract
  of an observation type is the locale \<open>observed_regions\<close>; the file and the anonymous table are its
  two interpretations.
\<close>

section \<open>One table\<close>

text \<open>What an entry in use satisfies; the last two lines rule out a negative duration.\<close>

definition builder_ok :: "'o evidence_kind \<Rightarrow> 'o parp_builder \<Rightarrow> bool" where
  "builder_ok k b \<longleftrightarrow>
     (case bl_observation b of
        None \<Rightarrow> False
      | Some ob \<Rightarrow> parp_sample_valid (ek_sample k ob) \<and> ek_nr_pages k ob \<noteq> 0 \<and>
          bl_last_sample_id b = ds_sample_id (ek_sample k ob) \<and>
          ds_timestamp_ns (ek_sample k ob) \<le> bl_newest_ns b) \<and>
     length (bl_buckets b) = PARP_WINDOW_BUCKETS \<and>
     bl_first_seen_ns b \<le> bl_newest_ns b \<and> bl_last_access_ns b \<le> bl_newest_ns b"

text \<open>
  At most \<open>D\<close> entries per domain, \<open>T\<close> slots altogether, every entry inside the allocation, and one
  entry per region, where \<open>key\<close> names the region of an observation.
\<close>

definition region_table_ok ::
  "'o evidence_kind \<Rightarrow> ('o \<Rightarrow> 'k) \<Rightarrow> nat \<Rightarrow> nat \<Rightarrow> 'o builder_table \<Rightarrow> bool" where
  "region_table_ok k key D T t \<longleftrightarrow>
     (\<forall>b \<in> set (bt_builders t). builder_ok k b) \<and>
     distinct (map (\<lambda>b. map_option key (bl_observation b)) (bt_builders t)) \<and>
     (\<forall>d. parp_count_domain k d t \<le> D) \<and>
     length (bt_builders t) \<le> unat (bt_capacity t) \<and> unat (bt_capacity t) \<le> T"

lemma find_index_Some:
  "find_index P bs = Some i \<Longrightarrow> i < length bs \<and> P (bs ! i)"
  by (induction bs arbitrary: i) (auto split: if_splits)

lemma find_index_None: "find_index P bs = None \<longleftrightarrow> (\<forall>b \<in> set bs. \<not> P b)"
  by (induction bs) auto

text \<open>The scan returns the first position of the least score below the given one.\<close>

lemma weakest_scan_spec:
  "weakest_scan ok score i bs victim weakest = (victim', weakest') \<Longrightarrow>
     (\<forall>b \<in> set bs. ok b \<longrightarrow> weakest' \<le> score b) \<and> weakest' \<le> weakest \<and>
     (if weakest' = weakest then victim' = victim
      else \<exists>j < length bs. victim' = Some (i + j) \<and> ok (bs ! j) \<and> score (bs ! j) = weakest')"
proof (induction ok score i bs victim weakest rule: weakest_scan.induct)
  case (2 ok score i b bs victim weakest)
  show ?case
  proof (cases "ok b \<and> score b < weakest")
    case True
    then have "weakest_scan ok score (Suc i) bs (Some i) (score b) = (victim', weakest')"
      using "2.prems" by simp
    note IH = "2.IH"(1) [OF True this]
    show ?thesis
    proof (cases "weakest' = score b")
      case eq: True
      then show ?thesis using IH True by (auto intro: exI [of _ 0])
    next
      case False
      then obtain j where "j < length bs" "victim' = Some (Suc i + j)" "ok (bs ! j)"
        "score (bs ! j) = weakest'" using IH by auto
      then show ?thesis using IH True by (auto intro!: exI [of _ "Suc j"])
    qed
  next
    case False
    then have "weakest_scan ok score (Suc i) bs victim weakest = (victim', weakest')"
      using "2.prems" by auto
    note IH = "2.IH"(2) [OF False this]
    show ?thesis
    proof (cases "weakest' = weakest")
      case True
      then show ?thesis using IH False by (auto simp: not_less)
    next
      case ne: False
      then obtain j where "j < length bs" "victim' = Some (Suc i + j)" "ok (bs ! j)"
        "score (bs ! j) = weakest'" using IH by auto
      moreover have "ok b \<longrightarrow> weakest' \<le> score b" using IH False by auto
      ultimately show ?thesis using IH ne by (auto intro!: exI [of _ "Suc j"])
    qed
  qed
qed auto

lemma parp_victim_Some:
  assumes "parp_victim k ob same_domain t = Some i"
  defines "eligible \<equiv> \<lambda>b. \<not> same_domain \<or> in_domain k (ek_domain k ob) b"
  shows "i < length (bt_builders t) \<and> eligible (bt_builders t ! i) \<and>
     parp_builder_score k (bt_builders t ! i) <
       evidence_score (ek_confidence k ob) (ds_nr_accesses (ek_sample k ob))
         (ds_timestamp_ns (ek_sample k ob)) \<and>
     (\<forall>b \<in> set (bt_builders t). eligible b \<longrightarrow>
        parp_builder_score k (bt_builders t ! i) \<le> parp_builder_score k b)"
proof -
  obtain v w where scan: "weakest_scan eligible (parp_builder_score k) 0 (bt_builders t) None U64_MAX = (v, w)"
    by (metis surj_pair)
  have v: "v = Some i" and less: "w < evidence_score (ek_confidence k ob)
      (ds_nr_accesses (ek_sample k ob)) (ds_timestamp_ns (ek_sample k ob))"
    using assms(1) scan [unfolded eligible_def]
    by (auto simp: parp_victim_def Let_def split: option.splits if_splits)
  show ?thesis
    using weakest_scan_spec [OF scan] v less by (auto split: if_splits)
qed

lemma parp_victim_None:
  assumes "parp_victim k ob same_domain t = None" and "b \<in> set (bt_builders t)"
    and "\<not> same_domain \<or> in_domain k (ek_domain k ob) b"
  shows "evidence_score (ek_confidence k ob) (ds_nr_accesses (ek_sample k ob))
           (ds_timestamp_ns (ek_sample k ob)) \<le> parp_builder_score k b"
proof -
  define eligible where "eligible = (\<lambda>b. \<not> same_domain \<or> in_domain k (ek_domain k ob) b)"
  obtain v w where scan: "weakest_scan eligible (parp_builder_score k) 0 (bt_builders t) None U64_MAX = (v, w)"
    by (metis surj_pair)
  note spec = weakest_scan_spec [OF scan]
  have le: "w \<le> parp_builder_score k b" using spec assms(2,3) by (auto simp: eligible_def)
  show ?thesis
  proof (cases v)
    case None
    then have "w = U64_MAX" using spec by (auto split: if_splits)
    moreover have "x \<le> U64_MAX" for x :: u64
      using unat_u64_bound [of x] by (simp add: word_le_nat_alt)
    ultimately show ?thesis using le by (meson order_trans)
  next
    case (Some i)
    then have "evidence_score (ek_confidence k ob) (ds_nr_accesses (ek_sample k ob))
        (ds_timestamp_ns (ek_sample k ob)) \<le> w"
      using assms(1) scan [unfolded eligible_def]
      by (auto simp: parp_victim_def Let_def split: if_splits)
    then show ?thesis using le by simp
  qed
qed

section \<open>Folding a sample in\<close>

definition folded :: "'o evidence_kind \<Rightarrow> 'o \<Rightarrow> 'o parp_builder \<Rightarrow> 'o parp_builder" where
  "folded k ob b =
     (let sample = ek_sample k ob; ts = ds_timestamp_ns sample
      in b \<lparr> bl_observation := Some ob, bl_newest_ns := max (bl_newest_ns b) ts,
             bl_last_sample_id := ds_sample_id sample,
             bl_last_access_ns := (if ds_nr_accesses sample \<noteq> 0 then ts else bl_last_access_ns b),
             bl_buckets := parp_update_bucket ts (ds_nr_accesses sample) (bl_buckets b) \<rparr>)"

definition fresh_builder :: "'o evidence_kind \<Rightarrow> 'o \<Rightarrow> 'o parp_builder" where
  "fresh_builder k ob = builder_zero \<lparr> bl_first_seen_ns := ds_timestamp_ns (ek_sample k ob) \<rparr>"

lemma evidence_fold_cases:
  assumes "evidence_fold k ob b s = (err, b', s')"
  shows "if err = None then b' = folded k ob b \<and> s' = s
         else b' = b \<and> (err = Some EALREADY \<or> err = Some ESTALE)"
  using assms by (auto simp: evidence_fold_def folded_def Let_def split: if_splits)

lemma evidence_fold_fresh:
  "parp_sample_valid (ek_sample k ob) \<Longrightarrow>
   evidence_fold k ob (fresh_builder k ob) s = (None, folded k ob (fresh_builder k ob), s)"
  by (auto simp: evidence_fold_def folded_def fresh_builder_def builder_zero_def parp_sample_valid_def
      Let_def)

lemma length_update_bucket [simp]: "length (parp_update_bucket ts e bs) = length bs"
  by (simp add: parp_update_bucket_def Let_def)

lemma folded_observation [simp]: "bl_observation (folded k ob b) = Some ob"
  by (simp add: folded_def Let_def)

lemma builder_ok_folded:
  assumes "parp_sample_valid (ek_sample k ob)" and "ek_nr_pages k ob \<noteq> 0"
    and "builder_ok k b \<or> b = fresh_builder k ob"
  shows "builder_ok k (folded k ob b)"
  using assms(3)
proof
  assume "builder_ok k b"
  then show ?thesis
    using assms(1,2) by (auto simp: builder_ok_def folded_def Let_def le_max_iff_disj)
next
  assume "b = fresh_builder k ob"
  then show ?thesis
    using assms(1,2) by (auto simp: builder_ok_def folded_def fresh_builder_def builder_zero_def Let_def)
qed

lemma length_filter_update:
  "i < length xs \<Longrightarrow> length (filter P (xs [i := x])) + (if P (xs ! i) then 1 else 0) =
     length (filter P xs) + (if P x then 1 else 0)"
proof (induction xs arbitrary: i)
  case (Cons a xs)
  then show ?case by (cases i) (force split: if_splits)+
qed simp

section \<open>Taking a sample in\<close>

text \<open>The allocation only grows, and never beyond the limit that was in force when it grew.\<close>

definition capacity_step :: "u32 \<Rightarrow> 'o builder_table \<Rightarrow> 'o builder_table \<Rightarrow> bool" where
  "capacity_step max_total t t' \<longleftrightarrow> bt_capacity t \<le> bt_capacity t' \<and>
     (bt_capacity t' = bt_capacity t \<or> bt_capacity t' \<le> max_total)"

lemma capacity_step_trans:
  "capacity_step m t t' \<Longrightarrow> capacity_step m t' t'' \<Longrightarrow> capacity_step m t t''"
  by (auto simp: capacity_step_def)

lemma parp_grow_builders_cases:
  assumes "parp_grow_builders max_total alloc_ok t = (err, t')"
  shows "bt_builders t' = bt_builders t \<and> capacity_step max_total t t' \<and>
     (err = None \<longrightarrow> bt_capacity t < bt_capacity t') \<and>
     (err \<noteq> None \<longrightarrow> t' = t \<and> (err = Some ENOSPC \<or> err = Some ENOMEM))"
  using assms by (auto simp: parp_grow_builders_def capacity_step_def Let_def not_le split: if_splits)

text \<open>The four ways a valid sample is handled.\<close>

datatype insert_way = Refused | Updated nat | Evicted nat | Added

definition table_full ::
  "'o evidence_kind \<Rightarrow> u32 \<Rightarrow> u32 \<Rightarrow> u32 \<Rightarrow> 'o \<Rightarrow> 'o builder_table \<Rightarrow> bool" where
  "table_full k max_domain max_total nr_total ob t \<longleftrightarrow>
     max_domain \<le> word_of_nat (parp_count_domain k (ek_domain k ob) t) \<or> max_total \<le> nr_total"

definition insert_by ::
  "'o evidence_kind \<Rightarrow> u32 \<Rightarrow> u32 \<Rightarrow> u32 \<Rightarrow> 'o \<Rightarrow> 'o builder_table \<Rightarrow> 'o builder_table \<Rightarrow>
   errno option \<Rightarrow> insert_way \<Rightarrow> bool" where
  "insert_by k max_domain max_total nr_total ob t t' err way \<longleftrightarrow>
     capacity_step max_total t t' \<and>
     (case way of
        Refused \<Rightarrow> err \<noteq> None \<and> bt_builders t' = bt_builders t
      | Updated i \<Rightarrow> err = None \<and> i < length (bt_builders t) \<and> builder_for k ob (bt_builders t ! i) \<and>
          bt_builders t' = (bt_builders t) [i := folded k ob (bt_builders t ! i)]
      | Evicted i \<Rightarrow> err = None \<and> (\<forall>b \<in> set (bt_builders t). \<not> builder_for k ob b) \<and>
          table_full k max_domain max_total nr_total ob t \<and>
          parp_victim k ob (max_domain \<le> word_of_nat (parp_count_domain k (ek_domain k ob) t)) t = Some i \<and>
          bt_builders t' = (bt_builders t) [i := folded k ob (fresh_builder k ob)]
      | Added \<Rightarrow> err = None \<and> (\<forall>b \<in> set (bt_builders t). \<not> builder_for k ob b) \<and>
          \<not> table_full k max_domain max_total nr_total ob t \<and>
          (word_of_nat (length (bt_builders t)) \<noteq> bt_capacity t \<or> bt_capacity t < bt_capacity t') \<and>
          bt_builders t' = bt_builders t @ [folded k ob (fresh_builder k ob)])"

lemma table_full_cong:
  "bt_builders t = bt_builders u \<Longrightarrow> table_full k a b c ob t = table_full k a b c ob u"
  by (simp add: table_full_def parp_count_domain_def)

lemma evidence_slot_cases:
  assumes "evidence_slot k max_domain max_total nr_total alloc_ok ob (t, s) = (r, t', s')"
  defines "same_domain \<equiv> max_domain \<le> word_of_nat (parp_count_domain k (ek_domain k ob) t)"
  shows "capacity_step max_total t t' \<and>
     (case r of
        Inl e \<Rightarrow> bt_builders t' = bt_builders t
      | Inr i \<Rightarrow>
          bt_builders t' = bt_builders t \<and> i < length (bt_builders t) \<and> builder_for k ob (bt_builders t ! i) \<or>
          (\<forall>b \<in> set (bt_builders t). \<not> builder_for k ob b) \<and>
          (table_full k max_domain max_total nr_total ob t \<and> parp_victim k ob same_domain t = Some i \<and>
             bt_builders t' = (bt_builders t) [i := fresh_builder k ob] \<or>
           \<not> table_full k max_domain max_total nr_total ob t \<and> i = length (bt_builders t) \<and>
             (word_of_nat (length (bt_builders t)) \<noteq> bt_capacity t \<or> bt_capacity t < bt_capacity t') \<and>
             bt_builders t' = bt_builders t @ [fresh_builder k ob]))"
proof (cases "find_index (builder_for k ob) (bt_builders t)")
  case (Some i)
  then show ?thesis
    using assms(1) find_index_Some [OF Some]
    by (auto simp: evidence_slot_def Let_def capacity_step_def)
next
  case None
  note fresh = fresh_builder_def [of k ob, symmetric]
  have unfold: "evidence_slot k max_domain max_total nr_total alloc_ok ob (t, s) =
     (if table_full k max_domain max_total nr_total ob t
      then let s1 = s \<lparr> et_table_full := et_table_full s + 1 \<rparr>
           in case parp_victim k ob same_domain t of
                None \<Rightarrow> (Inl ENOSPC, t, s1 \<lparr> et_entries_rejected := et_entries_rejected s1 + 1 \<rparr>)
              | Some i \<Rightarrow> (Inr i, t \<lparr> bt_builders := (bt_builders t) [i := fresh_builder k ob] \<rparr>,
                          s1 \<lparr> et_entries_evicted := et_entries_evicted s1 + 1 \<rparr>)
      else let n = length (bt_builders t);
               (err, t1) = (if word_of_nat n = bt_capacity t
                            then parp_grow_builders max_total alloc_ok t else (None, t))
           in case err of
                Some e \<Rightarrow> (Inl e, t1, s)
              | None \<Rightarrow> (Inr n, t1 \<lparr> bt_builders := bt_builders t1 @ [fresh_builder k ob] \<rparr>, s))"
    by (simp add: evidence_slot_def None Let_def table_full_def same_domain_def fresh)
  have none: "\<forall>b \<in> set (bt_builders t). \<not> builder_for k ob b" using None by (simp add: find_index_None)
  show ?thesis
  proof (cases "table_full k max_domain max_total nr_total ob t")
    case True
    then show ?thesis
      using assms(1) none by (auto simp: unfold Let_def capacity_step_def split: option.splits)
  next
    case False
    obtain err t1 where g: "(if word_of_nat (length (bt_builders t)) = bt_capacity t
        then parp_grow_builders max_total alloc_ok t else (None, t)) = (err, t1)" by fastforce
    have t1: "bt_builders t1 = bt_builders t" "capacity_step max_total t t1"
      "err = None \<longrightarrow> word_of_nat (length (bt_builders t)) \<noteq> bt_capacity t \<or> bt_capacity t < bt_capacity t1"
      using g parp_grow_builders_cases [of max_total alloc_ok t err t1]
      by (auto simp: capacity_step_def split: if_splits)
    have res: "(r, t', s') = (case err of Some e \<Rightarrow> (Inl e, t1, s)
        | None \<Rightarrow> (Inr (length (bt_builders t)),
                  t1 \<lparr> bt_builders := bt_builders t1 @ [fresh_builder k ob] \<rparr>, s))"
      using assms(1) by (simp add: unfold False g Let_def)
    show ?thesis
    proof (cases err)
      case None
      then show ?thesis using res t1 none False by (auto simp: capacity_step_def)
    next
      case (Some e)
      then show ?thesis using res t1 by simp
    qed
  qed
qed


lemma evidence_insert_by:
  assumes "evidence_insert k max_domain max_total other alloc_ok ob (t, s) = (err, t', s')"
    and "parp_sample_valid (ek_sample k ob)"
  shows "\<exists>way. insert_by k max_domain max_total (word_of_nat (length (bt_builders t)) + other) ob t t' err way"
proof -
  obtain e0 t0 where g: "(if bt_capacity t = 0 then parp_grow_builders max_total alloc_ok t else (None, t)) = (e0, t0)"
    by fastforce
  have t0: "bt_builders t0 = bt_builders t" "capacity_step max_total t t0"
    using g parp_grow_builders_cases [of max_total alloc_ok t e0 t0]
    by (auto simp: capacity_step_def split: if_splits)
  let ?n = "word_of_nat (length (bt_builders t)) + other"
  have full: "table_full k max_domain max_total ?n ob t0 = table_full k max_domain max_total ?n ob t"
    using t0(1) by (rule table_full_cong)
  have victim: "parp_victim k ob sd t0 = parp_victim k ob sd t"
    "parp_count_domain k d t0 = parp_count_domain k d t" for sd d
    using t0(1) by (simp_all add: parp_victim_def parp_count_domain_def)
  obtain r t1 s1 where sl: "evidence_slot k max_domain max_total ?n alloc_ok ob (t0, s) = (r, t1, s1)"
    using prod_cases3 by blast
  note spec = evidence_slot_cases [OF sl, unfolded full victim t0(1)]
  have cap1: "capacity_step max_total t t1"
    using spec t0(2) capacity_step_trans by blast
  have ins: "(err, t', s') =
      (if e0 \<noteq> None then (Some ENOMEM, t0, s)
       else case r of
         Inl e \<Rightarrow> (Some e, t1, s1)
       | Inr i \<Rightarrow> (case evidence_fold k ob (bt_builders t1 ! i) s1 of
                   (err, b, s2) \<Rightarrow> (err, t1 \<lparr> bt_builders := (bt_builders t1) [i := b] \<rparr>, s2)))"
    using assms(1) by (cases e0; cases r) (simp_all add: evidence_insert_def g Let_def t0(1) sl)
  consider (fail) "e0 \<noteq> None" | (noslot) e where "e0 = None" "r = Inl e" | (slot) i where "e0 = None" "r = Inr i"
    by (cases r) auto
  then show ?thesis
  proof cases
    case fail
    then show ?thesis using ins t0 by (auto simp: insert_by_def intro!: exI [of _ Refused])
  next
    case noslot
    then show ?thesis using ins cap1 spec by (auto simp: insert_by_def intro!: exI [of _ Refused])
  next
    case (slot i)
    obtain b' s2 where f: "evidence_fold k ob (bt_builders t1 ! i) s1 = (err, b', s2)"
      and t': "t' = t1 \<lparr> bt_builders := (bt_builders t1) [i := b'] \<rparr>"
      using ins slot by (auto split: prod.splits)
    have cap: "capacity_step max_total t t'" and cap': "bt_capacity t' = bt_capacity t1"
      using cap1 by (simp_all add: t' capacity_step_def)
    note fold = evidence_fold_cases [OF f]
    note fresh = evidence_fold_fresh [OF assms(2), of s1]
    let ?sd = "max_domain \<le> word_of_nat (parp_count_domain k (ek_domain k ob) t)"
    consider (old) "bt_builders t1 = bt_builders t" "i < length (bt_builders t)"
        "builder_for k ob (bt_builders t ! i)"
      | (evict) "\<forall>b \<in> set (bt_builders t). \<not> builder_for k ob b"
        "table_full k max_domain max_total ?n ob t" "parp_victim k ob ?sd t = Some i"
        "bt_builders t1 = (bt_builders t) [i := fresh_builder k ob]"
      | (add) "\<forall>b \<in> set (bt_builders t). \<not> builder_for k ob b"
        "\<not> table_full k max_domain max_total ?n ob t" "i = length (bt_builders t)"
        "word_of_nat (length (bt_builders t)) \<noteq> bt_capacity t0 \<or> bt_capacity t0 < bt_capacity t1"
        "bt_builders t1 = bt_builders t @ [fresh_builder k ob]"
      using spec slot(2) by auto
    then show ?thesis
    proof cases
      case old
      then show ?thesis
        using fold cap
        by (cases err)
          (auto simp: insert_by_def t' intro!: exI [of _ "if err = None then Updated i else Refused"])
    next
      case evict
      have "i < length (bt_builders t)" using parp_victim_Some [OF evict(3)] by simp
      then have "err = None" "b' = folded k ob (fresh_builder k ob)"
        using f fresh by (simp_all add: evict(4))
      then show ?thesis
        using evict cap by (auto simp: insert_by_def t' intro!: exI [of _ "Evicted i"])
    next
      case add
      then have "err = None" "b' = folded k ob (fresh_builder k ob)"
        using f fresh by (simp_all add: add(5))
      moreover have "word_of_nat (length (bt_builders t)) \<noteq> bt_capacity t \<or> bt_capacity t < bt_capacity t'"
        using add(4) t0(2) spec cap' unfolding capacity_step_def
        by (metis order.strict_trans1 order.strict_trans2 order_le_less)
      ultimately show ?thesis
        using add cap by (auto simp: insert_by_def t' list_update_append intro!: exI [of _ Added])
    qed
  qed
qed

section \<open>The contract of an observation type\<close>

text \<open>
  What the table code relies on: the comparison of two observations decides equality of a key, and the
  key determines the domain.
\<close>

locale observed_regions =
  fixes k :: "'o evidence_kind" and key :: "'o \<Rightarrow> 'k"
  assumes same_key: "ek_same k a b \<longleftrightarrow> key a = key b"
    and key_domain: "key a = key b \<Longrightarrow> ek_domain k a = ek_domain k b"
begin

abbreviation region :: "'o parp_builder \<Rightarrow> 'k option" where
  "region b \<equiv> map_option key (bl_observation b)"

lemma builder_for_region: "builder_for k ob b \<longleftrightarrow> region b = Some (key ob)"
  by (auto simp: builder_for_def same_key split: option.split)

lemma region_folded [simp]: "region (folded k ob b) = Some (key ob)"
  by simp

lemma in_domain_region: "region b = region c \<Longrightarrow> in_domain k d b = in_domain k d c"
  by (cases "bl_observation b"; cases "bl_observation c") (auto simp: in_domain_def dest: key_domain)

lemma in_domain_folded [simp]: "in_domain k d (folded k ob b) \<longleftrightarrow> ek_domain k ob = d"
  by (simp add: in_domain_def)

text \<open>A new entry for a region that has none keeps the regions distinct.\<close>

lemma distinct_new:
  assumes "distinct (map region bs)" and "\<forall>b \<in> set bs. \<not> builder_for k ob b"
  shows "distinct (map region (bs @ [folded k ob c]))"
    and "i < length bs \<Longrightarrow> distinct (map region (bs [i := folded k ob c]))"
proof -
  have new: "Some (key ob) \<notin> set (map region bs)"
    using assms(2) unfolding builder_for_region by (metis (no_types, lifting) imageE list.set_map)
  show "distinct (map region (bs @ [folded k ob c]))" using assms(1) new by auto
  show "distinct (map region (bs [i := folded k ob c]))" if "i < length bs"
    using assms(1) new that by (auto simp: map_update intro: distinct_list_update)
qed

lemma region_update:
  assumes "i < length bs" and "builder_for k ob (bs ! i)"
  shows "map region (bs [i := folded k ob c]) = map region bs"
  using assms by (simp add: map_update builder_for_region list_update_same_conv)

lemma count_update:
  "i < length (bt_builders t) \<Longrightarrow>
   parp_count_domain k d (t' \<lparr> bt_builders := (bt_builders t) [i := folded k ob c] \<rparr>) +
     (if in_domain k d (bt_builders t ! i) then 1 else 0) =
   parp_count_domain k d t + (if ek_domain k ob = d then 1 else 0)"
  using length_filter_update [of i "bt_builders t" "in_domain k d" "folded k ob c"]
  by (simp add: parp_count_domain_def)

lemma count_cong: "bt_builders t' = bs \<Longrightarrow> parp_count_domain k d t' = parp_count_domain k d (u \<lparr> bt_builders := bs \<rparr>)"
  by (simp add: parp_count_domain_def)

lemma word_of_nat_less:
  "n < 2 ^ 32 \<Longrightarrow> \<not> (m :: u32) \<le> word_of_nat n \<Longrightarrow> n < unat m"
  by (simp add: word_le_nat_alt unat_of_nat)

text \<open>Every way of taking a sample in keeps the table well-formed and the totals within the limits.\<close>

lemma count_insert:
  assumes "insert_by k max_domain max_total nr ob t t' err way"
    and "\<forall>d. parp_count_domain k d t \<le> D" and "unat max_domain \<le> D"
    and "length (bt_builders t) < 2 ^ 32"
  shows "parp_count_domain k d t' \<le> D"
proof -
  let ?dom = "ek_domain k ob"
  have small: "parp_count_domain k d t < 2 ^ 32" for d
    using assms(4) length_filter_le order.strict_trans1 unfolding parp_count_domain_def by blast
  have below: "parp_count_domain k ?dom t < D"
    if "\<not> max_domain \<le> word_of_nat (parp_count_domain k ?dom t)"
    using word_of_nat_less [OF small that] assms(3) by linarith
  have old: "parp_count_domain k d t \<le> D" for d using assms(2) by blast
  show ?thesis
  proof (cases way)
    case Refused
    then show ?thesis using assms(1) old [of d]
      by (simp add: insert_by_def parp_count_domain_def)
  next
    case (Updated i)
    then have i: "i < length (bt_builders t)" "builder_for k ob (bt_builders t ! i)"
      "bt_builders t' = (bt_builders t) [i := folded k ob (bt_builders t ! i)]"
      using assms(1) by (simp_all add: insert_by_def)
    have "in_domain k d (bt_builders t ! i) \<longleftrightarrow> ?dom = d"
      using in_domain_region [of "bt_builders t ! i" "folded k ob (bt_builders t ! i)" d] i(2)
      by (simp add: builder_for_region)
    then show ?thesis
      using count_update [OF i(1), of d ob _ t] count_cong [OF i(3), of d t] old [of d] by (simp split: if_splits)
  next
    case (Evicted i)
    let ?sd = "max_domain \<le> word_of_nat (parp_count_domain k ?dom t)"
    have e: "parp_victim k ob ?sd t = Some i"
      "bt_builders t' = (bt_builders t) [i := folded k ob (fresh_builder k ob)]"
      using assms(1) Evicted by (simp_all add: insert_by_def)
    have i: "i < length (bt_builders t)" "?sd \<Longrightarrow> in_domain k ?dom (bt_builders t ! i)"
      using parp_victim_Some [OF e(1)] by auto
    have "in_domain k d (bt_builders t ! i) \<longleftrightarrow> ?dom = d" if "in_domain k ?dom (bt_builders t ! i)"
      using that by (auto simp: in_domain_def split: option.splits)
    then show ?thesis
      using count_update [OF i(1), of d ob "fresh_builder k ob" t] count_cong [OF e(2), of d t] old [of d]
        below i(2) by (fastforce split: if_splits)
  next
    case Added
    then have a: "\<not> max_domain \<le> word_of_nat (parp_count_domain k ?dom t)"
      "bt_builders t' = bt_builders t @ [folded k ob (fresh_builder k ob)]"
      using assms(1) by (auto simp: insert_by_def table_full_def)
    then show ?thesis
      using below [OF a(1)] old [of d] by (auto simp: parp_count_domain_def)
  qed
qed

lemma region_table_ok_insert:
  assumes "insert_by k max_domain max_total nr ob t t' err way" and ok: "region_table_ok k key D T t"
    and ob: "parp_sample_valid (ek_sample k ob)" "ek_nr_pages k ob \<noteq> 0"
    and lim: "unat max_domain \<le> D" "unat max_total \<le> T" "T < 2 ^ 32"
    and nr: "nr = word_of_nat (length (bt_builders t)) + word_of_nat other"
    and room: "length (bt_builders t) + other \<le> T"
  shows "region_table_ok k key D T t' \<and> length (bt_builders t') + other \<le> T \<and>
     (if err = None then \<exists>b \<in> set (bt_builders t'). bl_observation b = Some ob
      else bt_builders t' = bt_builders t)"
proof -
  note by_way = assms(1) [unfolded insert_by_def]
  have bs: "\<forall>b \<in> set (bt_builders t). builder_ok k b" "distinct (map region (bt_builders t))"
    "length (bt_builders t) \<le> unat (bt_capacity t)" "unat (bt_capacity t) \<le> T"
    using ok by (simp_all add: region_table_ok_def)
  have cap: "unat (bt_capacity t) \<le> unat (bt_capacity t')" "unat (bt_capacity t') \<le> T"
    using by_way bs(4) lim(2) by (auto simp: capacity_step_def word_le_nat_alt)
  have count: "parp_count_domain k d t' \<le> D" for d
    using count_insert [OF assms(1) _ lim(1)] ok room lim(3) by (simp add: region_table_ok_def)
  have ok_new: "builder_ok k (folded k ob (fresh_builder k ob))"
    using builder_ok_folded [OF ob] by blast
  show ?thesis
  proof (cases way)
    case Refused
    then show ?thesis using by_way bs cap count room by (auto simp: region_table_ok_def)
  next
    case (Updated i)
    then have i: "i < length (bt_builders t)" "builder_for k ob (bt_builders t ! i)" "err = None"
      "bt_builders t' = (bt_builders t) [i := folded k ob (bt_builders t ! i)]"
      using by_way by simp_all
    have "builder_ok k (folded k ob (bt_builders t ! i))"
      using builder_ok_folded [OF ob] bs(1) i(1) by simp
    then have "\<forall>b \<in> set (bt_builders t'). builder_ok k b"
      using bs(1) set_update_subset_insert [of "bt_builders t" i] unfolding i(4) by blast
    moreover have "distinct (map region (bt_builders t'))"
      unfolding i(4) region_update [OF i(1,2)] by (rule bs(2))
    moreover have "folded k ob (bt_builders t ! i) \<in> set (bt_builders t')"
      unfolding i(4) using i(1) by (rule set_update_memI)
    ultimately show ?thesis
      using bs(3) cap count room i(3,4) by (auto simp: region_table_ok_def intro: rev_bexI)
  next
    case (Evicted i)
    then have e: "\<forall>b \<in> set (bt_builders t). \<not> builder_for k ob b" "err = None"
      "i < length (bt_builders t)"
      "bt_builders t' = (bt_builders t) [i := folded k ob (fresh_builder k ob)]"
      using by_way parp_victim_Some by fastforce+
    have "\<forall>b \<in> set (bt_builders t'). builder_ok k b"
      using bs(1) ok_new set_update_subset_insert [of "bt_builders t" i] unfolding e(4) by blast
    moreover have "distinct (map region (bt_builders t'))"
      unfolding e(4) using distinct_new(2) [OF bs(2) e(1,3)] .
    moreover have "folded k ob (fresh_builder k ob) \<in> set (bt_builders t')"
      unfolding e(4) using e(3) by (rule set_update_memI)
    ultimately show ?thesis
      using bs(3) cap count room e(2,4) by (auto simp: region_table_ok_def intro: rev_bexI)
  next
    case Added
    then have a: "\<forall>b \<in> set (bt_builders t). \<not> builder_for k ob b" "err = None"
      "\<not> max_total \<le> nr"
      "word_of_nat (length (bt_builders t)) \<noteq> bt_capacity t \<or> bt_capacity t < bt_capacity t'"
      "bt_builders t' = bt_builders t @ [folded k ob (fresh_builder k ob)]"
      using by_way by (auto simp: table_full_def)
    have "nr = word_of_nat (length (bt_builders t) + other)" by (simp add: nr)
    then have "length (bt_builders t) + other < unat max_total"
      using word_of_nat_less a(3) room lim(3) by auto
    then have "length (bt_builders t') + other \<le> T" using lim(2) by (simp add: a(5))
    moreover have "length (bt_builders t') \<le> unat (bt_capacity t')"
    proof -
      have "length (bt_builders t) \<noteq> unat (bt_capacity t)"
        if "word_of_nat (length (bt_builders t)) \<noteq> bt_capacity t" using that by auto
      then have "length (bt_builders t) < unat (bt_capacity t')"
        using a(4) bs(3) cap(1) unfolding word_less_nat_alt by linarith
      then show ?thesis by (simp add: a(5))
    qed
    moreover have "distinct (map region (bt_builders t'))"
      unfolding a(5) using distinct_new(1) [OF bs(2) a(1)] .
    ultimately show ?thesis
      using bs(1) cap count a(2,5) ok_new by (auto simp: region_table_ok_def)
  qed
qed

text \<open>A region leaves the table by eviction only.\<close>

lemma lost_by_eviction:
  assumes "insert_by k max_domain max_total nr ob t t' err way" and "b \<in> set (bt_builders t)"
    and "\<forall>c \<in> set (bt_builders t'). region c \<noteq> region b"
  shows "\<exists>i. way = Evicted i \<and> b = bt_builders t ! i"
proof -
  obtain j where j: "j < length (bt_builders t)" "b = bt_builders t ! j"
    using assms(2) by (metis in_set_conv_nth)
  show ?thesis
  proof (cases way)
    case Refused
    then show ?thesis using assms by (auto simp: insert_by_def)
  next
    case (Updated i)
    then have i: "i < length (bt_builders t)" "builder_for k ob (bt_builders t ! i)"
      "bt_builders t' = (bt_builders t) [i := folded k ob (bt_builders t ! i)]"
      using assms(1) by (simp_all add: insert_by_def)
    have "region b \<in> set (map region (bt_builders t'))"
      unfolding i(3) region_update [OF i(1,2)] using assms(2) by simp
    then show ?thesis using assms(3) by fastforce
  next
    case (Evicted i)
    then have "bt_builders t' = (bt_builders t) [i := folded k ob (fresh_builder k ob)]"
      using assms(1) by (simp add: insert_by_def)
    then have "b \<in> set (bt_builders t')" if "j \<noteq> i"
      using that j by (metis length_list_update nth_list_update_neq nth_mem)
    then show ?thesis using assms(3) j(2) Evicted by blast
  next
    case Added
    then have "b \<in> set (bt_builders t')" using assms(1,2) by (simp add: insert_by_def)
    then show ?thesis using assms(3) by blast
  qed
qed

text \<open>Removing a domain keeps the table well-formed.\<close>

lemma region_table_ok_remove:
  assumes "region_table_ok k key D T t"
  shows "region_table_ok k key D T (t \<lparr> bt_builders := swap_remove gone 0 (bt_builders t) \<rparr>)"
proof -
  let ?bs = "swap_remove gone 0 (bt_builders t)"
  have m: "mset ?bs = mset (filter (\<lambda>b. \<not> gone b) (bt_builders t))"
    by (simp add: mset_swap_remove_all)
  have len: "length (filter P ?bs) \<le> length (filter P (bt_builders t))" for P
  proof -
    have "mset (filter P ?bs) = filter_mset P (mset (filter (\<lambda>b. \<not> gone b) (bt_builders t)))"
      by (simp only: mset_filter m)
    also have "\<dots> = mset (filter P (filter (\<lambda>b. \<not> gone b) (bt_builders t)))"
      by (simp only: mset_filter)
    finally have "length (filter P ?bs) = length (filter P (filter (\<lambda>b. \<not> gone b) (bt_builders t)))"
      by (rule mset_eq_length)
    also have "\<dots> = length (filter (\<lambda>b. \<not> gone b) (filter P (bt_builders t)))"
      by (simp add: conj_commute)
    also have "\<dots> \<le> length (filter P (bt_builders t))" by (rule length_filter_le)
    finally show ?thesis .
  qed
  have "mset (map region ?bs) = mset (map region (filter (\<lambda>b. \<not> gone b) (bt_builders t)))"
    by (simp only: mset_map m)
  from mset_eq_imp_distinct_iff [OF this]
  have "distinct (map region ?bs)"
    using assms by (simp only: region_table_ok_def distinct_map_filter)
  moreover have "\<forall>b \<in> set ?bs. builder_ok k b"
    using assms by (simp add: region_table_ok_def set_swap_remove)
  moreover have "length (filter (in_domain k d) ?bs) \<le> D" for d
    using order_trans [OF len] assms by (simp add: region_table_ok_def parp_count_domain_def)
  moreover have "length ?bs \<le> unat (bt_capacity t)" "unat (bt_capacity t) \<le> T"
    using order_trans [OF len [of "\<lambda>_. True"]] assms by (simp_all add: region_table_ok_def)
  ultimately show ?thesis by (simp add: region_table_ok_def parp_count_domain_def)
qed

end

definition file_region :: "parp_file_observation \<Rightarrow> u64 \<times> parp_file_region_key" where
  "file_region ob = (ac_domain_id (fo_owner ob), fo_key ob)"

interpretation fr: observed_regions file_kind file_region
  by unfold_locales (auto simp: file_kind_def parp_file_key_equal_def file_region_def)

interpretation ar: observed_regions anon_kind ao_key
  by unfold_locales (auto simp: anon_kind_def)

section \<open>What a publication holds\<close>

text \<open>The contract of \<open>sort\<close> with the two comparison functions.\<close>

definition sort_contract :: "evidence_env \<Rightarrow> bool" where
  "sort_contract env \<longleftrightarrow>
     (\<forall>xs. mset (ee_sort_files env xs) = mset xs \<and> regions_sorted (ee_sort_files env xs)) \<and>
     (\<forall>xs. mset (ee_sort_anons env xs) = mset xs)"

definition evidence_snapshot_ok :: "nat \<Rightarrow> u64 \<Rightarrow> parp_evidence_snapshot \<Rightarrow> bool" where
  "evidence_snapshot_ok T version s \<longleftrightarrow>
     es_version s = version \<and> regions_sorted (es_files s) \<and>
     distinct (map (\<lambda>e. (fe_domain_id e, fe_key e)) (es_files s)) \<and>
     distinct (map ae_key (es_anons s)) \<and> distinct (map de_domain_id (es_domains s)) \<and>
     length (es_files s) + length (es_anons s) \<le> T \<and>
     (\<forall>e \<in> set (es_files s). fk_nr_pages (fe_key e) \<noteq> 0 \<and> fe_snapshot_version e = version) \<and>
     (\<forall>e \<in> set (es_anons s). ak_nr_pages (ae_key e) \<noteq> 0 \<and> ae_snapshot_version e = version)"

lemma distinct_map_filter_key:
  "distinct (map g bs) \<Longrightarrow> (\<And>b e. f b = Some e \<Longrightarrow> g b = Some (h e)) \<Longrightarrow>
   distinct (map h (List.map_filter f bs))"
proof (induction bs)
  case (Cons b bs)
  have new: "h e \<notin> h ` set (List.map_filter f bs)" if "f b = Some e" for e
  proof
    assume "h e \<in> h ` set (List.map_filter f bs)"
    then obtain c e' where "c \<in> set bs" "f c = Some e'" "h e = h e'"
      by (auto simp: in_set_map_filter)
    then have "g b \<in> set (map g bs)" using Cons.prems(2) that by (metis image_eqI list.set_map)
    then show False using Cons.prems(1) by simp
  qed
  show ?case using Cons new by (auto simp: List.map_filter_simps split: option.split)
qed (simp add: List.map_filter_simps)

lemma length_map_filter_le: "length (List.map_filter f xs) \<le> length xs"
  by (induction xs) (auto simp: List.map_filter_simps split: option.split)

lemma file_entry_Some:
  "file_entry active v now b = Some e \<Longrightarrow>
     \<exists>ob. bl_observation b = Some ob \<and> fe_domain_id e = ac_domain_id (fo_owner ob) \<and>
       fe_key e = fo_key ob \<and> fe_snapshot_version e = v"
  by (auto simp: file_entry_def Let_def split: option.splits if_splits)

lemma anon_entry_Some:
  "anon_entry active v now b = Some e \<Longrightarrow>
     \<exists>ob. bl_observation b = Some ob \<and> ae_key e = ao_key ob \<and> ae_snapshot_version e = v"
  by (auto simp: anon_entry_def Let_def split: option.splits if_splits)

lemma domains_add_ids:
  "map de_domain_id (domains_add e ds) =
     (if ak_domain_id (ae_key e) \<in> de_domain_id ` set ds then map de_domain_id ds
      else map de_domain_id ds @ [ak_domain_id (ae_key e)])"
  by (induction ds) (auto simp: domain_add_def domain_of_def Let_def)

lemma foldl_domains_ids:
  "distinct (map de_domain_id ds) \<Longrightarrow>
   distinct (map de_domain_id (foldl (\<lambda>ds e. domains_add e ds) ds es)) \<and>
   de_domain_id ` set (foldl (\<lambda>ds e. domains_add e ds) ds es) =
     de_domain_id ` set ds \<union> (ak_domain_id \<circ> ae_key) ` set es"
proof (induction es arbitrary: ds)
  case (Cons e es)
  have "distinct (map de_domain_id (domains_add e ds))"
    using Cons.prems by (auto simp: domains_add_ids)
  moreover have "set (map de_domain_id (domains_add e ds)) =
      insert (ak_domain_id (ae_key e)) (de_domain_id ` set ds)"
    unfolding domains_add_ids by auto
  ultimately show ?case using Cons.IH [of "domains_add e ds"] by auto
qed simp

lemma domain_cool_id [simp]: "de_domain_id (domain_cool d) = de_domain_id d"
  by (simp add: domain_cool_def)

text \<open>The parts of a successful publication.\<close>

lemma publish_cases:
  assumes "parp_publish_evidence_locked env now_ns ev = (err, ev')"
  defines "files \<equiv> List.map_filter (file_entry (ee_active env) (ev_version ev + 1) now_ns)
                     (bt_builders (ev_files ev))"
    and "anons \<equiv> List.map_filter (anon_entry (ee_active env) (ev_version ev + 1) now_ns)
                     (bt_builders (ev_anons ev))"
  shows "ev_files ev' = ev_files ev \<and> ev_anons ev' = ev_anons ev \<and> ev_max_file ev' = ev_max_file ev \<and>
     ev_max_anon ev' = ev_max_anon ev \<and> ev_max_total ev' = ev_max_total ev \<and>
     (if err = None
      then ev_version ev' = ev_version ev + 1 \<and>
        ev_snapshot ev' = Some \<lparr> es_version = ev_version ev + 1, es_created_ns = now_ns,
          es_expires_ns = now_ns + PARP_EVIDENCE_TTL_NS, es_files = ee_sort_files env files,
          es_anons = ee_sort_anons env anons,
          es_domains = map domain_cool (foldl (\<lambda>ds e. domains_add e ds) [] anons) \<rparr>
      else err = Some ENOMEM \<and> ev' = ev)"
  using assms by (auto simp: parp_publish_evidence_locked_def Let_def split: if_splits)

text \<open>Well-formed tables publish a well-formed snapshot.\<close>

definition evidence_ok :: "nat \<Rightarrow> nat \<Rightarrow> nat \<Rightarrow> parp_evidence_state \<Rightarrow> bool" where
  "evidence_ok F A T ev \<longleftrightarrow>
     region_table_ok file_kind file_region F T (ev_files ev) \<and>
     region_table_ok anon_kind ao_key A T (ev_anons ev) \<and>
     length (bt_builders (ev_files ev)) + length (bt_builders (ev_anons ev)) \<le> T \<and>
     unat (ev_max_file ev) \<le> F \<and> unat (ev_max_anon ev) \<le> A \<and> unat (ev_max_total ev) \<le> T \<and>
     (case ev_snapshot ev of None \<Rightarrow> True | Some s \<Rightarrow> evidence_snapshot_ok T (ev_version ev) s)"

lemma sort_contractD:
  assumes "sort_contract env"
  shows "set (ee_sort_files env fs) = set fs" "length (ee_sort_files env fs) = length fs"
    "regions_sorted (ee_sort_files env fs)"
    "distinct (map f (ee_sort_files env fs)) = distinct (map f fs)"
    "set (ee_sort_anons env as) = set as" "length (ee_sort_anons env as) = length as"
    "distinct (map g (ee_sort_anons env as)) = distinct (map g as)"
proof -
  have f: "mset (ee_sort_files env fs) = mset fs" and a: "mset (ee_sort_anons env as) = mset as"
    using assms by (simp_all add: sort_contract_def)
  show "set (ee_sort_files env fs) = set fs" "set (ee_sort_anons env as) = set as"
    using mset_eq_setD [OF f] mset_eq_setD [OF a] by simp_all
  show "length (ee_sort_files env fs) = length fs" "length (ee_sort_anons env as) = length as"
    using mset_eq_length [OF f] mset_eq_length [OF a] by simp_all
  show "regions_sorted (ee_sort_files env fs)" using assms by (simp add: sort_contract_def)
  show "distinct (map f (ee_sort_files env fs)) = distinct (map f fs)"
    "distinct (map g (ee_sort_anons env as)) = distinct (map g as)"
    by (rule mset_eq_imp_distinct_iff; simp add: f a)+
qed

lemma publish_ok:
  assumes "parp_publish_evidence_locked env now_ns ev = (err, ev')" and "sort_contract env"
    and ok: "evidence_ok F A T ev"
  shows "evidence_ok F A T ev'"
proof (cases err)
  case None
  note pub = publish_cases [OF assms(1)]
  let ?v = "ev_version ev + 1"
  define files where "files = List.map_filter (file_entry (ee_active env) ?v now_ns) (bt_builders (ev_files ev))"
  define anons where "anons = List.map_filter (anon_entry (ee_active env) ?v now_ns) (bt_builders (ev_anons ev))"
  have tab: "region_table_ok file_kind file_region F T (ev_files ev)" "region_table_ok anon_kind ao_key A T (ev_anons ev)"
    and room: "length (bt_builders (ev_files ev)) + length (bt_builders (ev_anons ev)) \<le> T"
    using ok by (simp_all add: evidence_ok_def)
  have "distinct (map (\<lambda>e. (fe_domain_id e, fe_key e)) files)"
    unfolding files_def
    by (rule distinct_map_filter_key [where g = "\<lambda>b. map_option file_region (bl_observation b)"])
      (use tab(1) file_entry_Some in \<open>fastforce simp: region_table_ok_def file_region_def\<close>)+
  moreover have "distinct (map ae_key anons)"
    unfolding anons_def
    by (rule distinct_map_filter_key [where g = "\<lambda>b. map_option ao_key (bl_observation b)"])
      (use tab(2) anon_entry_Some in \<open>fastforce simp: region_table_ok_def\<close>)+
  moreover have "\<forall>e \<in> set files. fk_nr_pages (fe_key e) \<noteq> 0 \<and> fe_snapshot_version e = ?v"
    using tab(1) file_entry_Some
    by (fastforce simp: files_def in_set_map_filter region_table_ok_def builder_ok_def file_kind_def)
  moreover have "\<forall>e \<in> set anons. ak_nr_pages (ae_key e) \<noteq> 0 \<and> ae_snapshot_version e = ?v"
    using tab(2) anon_entry_Some
    by (fastforce simp: anons_def in_set_map_filter region_table_ok_def builder_ok_def anon_kind_def)
  moreover have "length files + length anons \<le> T"
    unfolding files_def anons_def by (rule order_trans [OF add_mono [OF length_map_filter_le length_map_filter_le] room])
  moreover have "distinct (map de_domain_id (map domain_cool (foldl (\<lambda>ds e. domains_add e ds) [] anons)))"
    using foldl_domains_ids [of "[]" anons] by (simp add: comp_def)
  ultimately have "evidence_snapshot_ok T ?v (the (ev_snapshot ev'))"
    using pub None
    by (simp add: evidence_snapshot_ok_def files_def anons_def sort_contractD [OF assms(2)])
  then show ?thesis
    using pub None ok by (simp add: evidence_ok_def)
next
  case (Some e)
  then show ?thesis using publish_cases [OF assms(1)] ok by simp
qed


end
