(* ===== verification/Evidence_Properties.thy ===== *)
theory Evidence_Properties
  imports Evidence_Invariant "HOL-Library.List_Lexorder"
begin

text \<open>
  The properties of \<open>mm/parp/core/evidence.c\<close> as a whole: the invariant of every reachable state, what
  a refused sample leaves alone, what an eviction may remove, what taking a domain offline forgets, and
  what the summary of a domain counts.
\<close>

section \<open>Reachable states\<close>

text \<open>
  Any order of samples, publications, removals and changes of the limits. \<open>F\<close>, \<open>A\<close> and \<open>T\<close> bound
  every setting of the three limits; they are module parameters and may be changed at any time, below
  what is already in use too.
\<close>

inductive evidence_reach :: "nat \<Rightarrow> nat \<Rightarrow> nat \<Rightarrow> parp_evidence_state \<Rightarrow> bool"
  for F A T :: nat where
  boot: "4096 \<le> F \<Longrightarrow> 2048 \<le> A \<Longrightarrow> 65536 \<le> T \<Longrightarrow> evidence_reach F A T evidence_boot"
| file_sample: "evidence_reach F A T ev \<Longrightarrow> sort_contract env \<Longrightarrow>
    evidence_reach F A T (snd (parp_evidence_update_file env ob ev))"
| anon_sample: "evidence_reach F A T ev \<Longrightarrow> sort_contract env \<Longrightarrow>
    evidence_reach F A T (snd (parp_evidence_update_anon env ob2 ev))"
| publish: "evidence_reach F A T ev \<Longrightarrow> sort_contract env \<Longrightarrow>
    evidence_reach F A T (snd (parp_evidence_publish env now_ns ev))"
| offline: "evidence_reach F A T ev \<Longrightarrow> sort_contract env \<Longrightarrow>
    evidence_reach F A T (snd (parp_evidence_domain_offline env now_ns domain_id ev))"
| lookup: "evidence_reach F A T ev \<Longrightarrow>
    evidence_reach F A T (snd (parp_evidence_lookup_file now domain_id file_key index nr_pages ev))"
| unresolved: "evidence_reach F A T ev \<Longrightarrow>
    evidence_reach F A T (ev \<lparr> ev_stats := parp_evidence_account_unresolved bytes status (ev_stats ev) \<rparr>)"
| parameters: "evidence_reach F A T ev \<Longrightarrow> unat f \<le> F \<Longrightarrow> unat a \<le> A \<Longrightarrow> unat t \<le> T \<Longrightarrow>
    evidence_reach F A T (ev \<lparr> ev_max_file := f, ev_max_anon := a, ev_max_total := t \<rparr>)"

lemma evidence_ok_stats [simp]: "evidence_ok F A T (ev \<lparr> ev_stats := s \<rparr>) = evidence_ok F A T ev"
  by (simp add: evidence_ok_def split: option.split)

lemma publish_due_ok:
  assumes "sort_contract env" and "evidence_ok F A T ev"
  shows "evidence_ok F A T (snd (evidence_publish_due env ts (err, ev)))"
  using publish_ok [OF _ assms] assms(2)
  by (auto simp: evidence_publish_due_def split: option.split)
    (metis prod.collapse)

text \<open>One sample, up to the publication.\<close>

lemma file_insert_ok:
  assumes "evidence_insert file_kind (ev_max_file ev) (ev_max_total ev)
      (word_of_nat (length (bt_builders (ev_anons ev)))) grow_ok ob (ev_files ev, ev_stats ev) = (err, t, s)"
    and "parp_sample_valid (fo_sample ob)" and "fk_nr_pages (fo_key ob) \<noteq> 0"
    and ok: "evidence_ok F A T ev" and "T < 2 ^ 32"
  shows "evidence_ok F A T (ev \<lparr> ev_files := t, ev_stats := s \<rparr>)"
    and "if err = None then \<exists>b \<in> set (bt_builders t). bl_observation b = Some ob
         else bt_builders t = bt_builders (ev_files ev)"
proof -
  have ob: "parp_sample_valid (ek_sample file_kind ob)" "ek_nr_pages file_kind ob \<noteq> 0"
    using assms(2,3) by (simp_all add: file_kind_def)
  obtain way where way: "insert_by file_kind (ev_max_file ev) (ev_max_total ev)
      (word_of_nat (length (bt_builders (ev_files ev))) + word_of_nat (length (bt_builders (ev_anons ev))))
      ob (ev_files ev) t err way"
    using evidence_insert_by [OF assms(1) ob(1)] by blast
  note kept = fr.region_table_ok_insert [OF way _ ob _ _ assms(5) refl, of F]
  show "evidence_ok F A T (ev \<lparr> ev_files := t, ev_stats := s \<rparr>)"
    using kept ok by (simp add: evidence_ok_def split: option.splits)
  show "if err = None then \<exists>b \<in> set (bt_builders t). bl_observation b = Some ob
        else bt_builders t = bt_builders (ev_files ev)"
    using kept ok by (simp add: evidence_ok_def)
qed

lemma anon_insert_ok:
  assumes "evidence_insert anon_kind (ev_max_anon ev) (ev_max_total ev)
      (word_of_nat (length (bt_builders (ev_files ev)))) grow_ok ob (ev_anons ev, ev_stats ev) = (err, t, s)"
    and "parp_sample_valid (ao_sample ob)" and "ak_nr_pages (ao_key ob) \<noteq> 0"
    and ok: "evidence_ok F A T ev" and "T < 2 ^ 32"
  shows "evidence_ok F A T (ev \<lparr> ev_anons := t, ev_stats := s \<rparr>)"
    and "if err = None then \<exists>b \<in> set (bt_builders t). bl_observation b = Some ob
         else bt_builders t = bt_builders (ev_anons ev)"
proof -
  have ob: "parp_sample_valid (ek_sample anon_kind ob)" "ek_nr_pages anon_kind ob \<noteq> 0"
    using assms(2,3) by (simp_all add: anon_kind_def)
  obtain way where way: "insert_by anon_kind (ev_max_anon ev) (ev_max_total ev)
      (word_of_nat (length (bt_builders (ev_anons ev))) + word_of_nat (length (bt_builders (ev_files ev))))
      ob (ev_anons ev) t err way"
    using evidence_insert_by [OF assms(1) ob(1)] by blast
  note kept = ar.region_table_ok_insert [OF way _ ob _ _ assms(5) refl, of A]
  show "evidence_ok F A T (ev \<lparr> ev_anons := t, ev_stats := s \<rparr>)"
    using kept ok by (simp add: evidence_ok_def add.commute split: option.splits)
  show "if err = None then \<exists>b \<in> set (bt_builders t). bl_observation b = Some ob
        else bt_builders t = bt_builders (ev_anons ev)"
    using kept ok by (simp add: evidence_ok_def add.commute)
qed

lemma evidence_boot_ok:
  "4096 \<le> F \<Longrightarrow> 2048 \<le> A \<Longrightarrow> 65536 \<le> T \<Longrightarrow> evidence_ok F A T evidence_boot"
  by (simp add: evidence_ok_def evidence_boot_def region_table_ok_def parp_count_domain_def)

lemma update_file_ok:
  assumes "evidence_ok F A T ev" and "sort_contract env" and "T < 2 ^ 32"
  shows "evidence_ok F A T (snd (parp_evidence_update_file env ob ev))"
  using assms file_insert_ok(1) publish_due_ok
  by (auto simp: parp_evidence_update_file_def split: prod.split)

lemma update_anon_ok:
  assumes "evidence_ok F A T ev" and "sort_contract env" and "T < 2 ^ 32"
  shows "evidence_ok F A T (snd (parp_evidence_update_anon env ob ev))"
  using assms anon_insert_ok(1) publish_due_ok
  by (auto simp: parp_evidence_update_anon_def split: prod.split)

lemma length_swap_remove: "length (swap_remove gone 0 bs) \<le> length bs"
  using arg_cong [OF mset_swap_remove_all, of size gone bs]
    size_filter_mset_lesseq [of "\<lambda>b. \<not> gone b" "mset bs"]
  by simp

lemma offline_ok:
  assumes "evidence_ok F A T ev" and "sort_contract env"
  shows "evidence_ok F A T (snd (parp_evidence_domain_offline env now_ns domain_id ev))"
proof -
  let ?ev = "ev \<lparr> ev_files := (ev_files ev) \<lparr> bt_builders :=
               swap_remove (in_domain file_kind domain_id) 0 (bt_builders (ev_files ev)) \<rparr>,
             ev_anons := (ev_anons ev) \<lparr> bt_builders :=
               swap_remove (in_domain anon_kind domain_id) 0 (bt_builders (ev_anons ev)) \<rparr> \<rparr>"
  have "length (swap_remove gone 0 (bt_builders (ev_files ev))) +
      length (swap_remove gone2 0 (bt_builders (ev_anons ev))) \<le> T" for gone gone2
    using length_swap_remove [of gone "bt_builders (ev_files ev)"]
      length_swap_remove [of gone2 "bt_builders (ev_anons ev)"] assms(1)
    unfolding evidence_ok_def by linarith
  then have "evidence_ok F A T ?ev"
    using assms(1) fr.region_table_ok_remove ar.region_table_ok_remove
    by (simp add: evidence_ok_def split: option.splits)
  then show ?thesis
    using publish_ok [OF _ assms(2)] by (metis parp_evidence_domain_offline_def prod.collapse)
qed

lemma evidence_reach_ok:
  assumes "evidence_reach F A T ev" and "T < 2 ^ 32"
  shows "evidence_ok F A T ev"
  using assms
proof (induction rule: evidence_reach.induct)
  case boot
  then show ?case by (intro evidence_boot_ok)
next
  case (publish ev env now_ns)
  then show ?case using publish_ok by (metis parp_evidence_publish_def prod.collapse)
next
  case (parameters ev f a t)
  then show ?case by (simp add: evidence_ok_def split: option.splits)
qed (simp_all add: update_file_ok update_anon_ok offline_ok parp_evidence_lookup_file_def Let_def)

text \<open>C15. The evidence tables stay well-formed. Whatever samples arrive, in whatever order and under whatever
  limits up to \<open>F\<close> file regions and \<open>A\<close> anonymous regions per domain and \<open>T\<close> in all: no domain and no
  table exceeds its limit, every entry lies inside the allocation, holds a valid sample and spans a
  non-negative time, no region has two entries, and the published snapshot is sorted, holds one entry
  per region and one summary per domain, and carries the current version.\<close>

theorem parp_evidence_reachable_ok:
  assumes "evidence_reach F A T ev" and "T < 2 ^ 32"
  shows "evidence_ok F A T ev"
  using evidence_reach_ok [OF assms] .

text \<open>A concrete \<open>sort\<close>.\<close>

definition sorting_env :: "parp_snapshot option \<Rightarrow> evidence_env" where
  "sorting_env active = \<lparr> ee_active = active, ee_grow_ok = True, ee_publish_ok = True,
     ee_sort_files = sort_key (\<lambda>e. entry_rank e @ [fk_start_index (fe_key e)]),
     ee_sort_anons = sort_key (\<lambda>e. anon_key_bytes (ae_key e)) \<rparr>"

lemma sorting_env_simps [simp]:
  "ee_active (sorting_env active) = active" "ee_grow_ok (sorting_env active)"
  "ee_publish_ok (sorting_env active)"
  "ee_sort_files (sorting_env active) = sort_key (\<lambda>e. entry_rank e @ [fk_start_index (fe_key e)])"
  "ee_sort_anons (sorting_env active) = sort_key (\<lambda>e. anon_key_bytes (ae_key e))"
  by (simp_all add: sorting_env_def)

lemma lex_cmp_le: "length xs = length ys \<Longrightarrow> lex_cmp xs ys \<le> 0 \<longleftrightarrow> xs \<le> ys"
  by (induction xs ys rule: list_induct2) auto

lemma file_compare_rank:
  "parp_file_compare a b \<le> 0 \<longleftrightarrow>
     entry_rank a @ [fk_start_index (fe_key a)] \<le> entry_rank b @ [fk_start_index (fe_key b)]"
  by (subst lex_cmp_le [symmetric])
    (simp_all add: parp_file_compare_def region_cmps_def region_rank_def parp_cmp_u64_def)

lemma sorting_env_contract: "sort_contract (sorting_env active)"
proof -
  have "regions_sorted (sort_key (\<lambda>e. entry_rank e @ [fk_start_index (fe_key e)]) xs)" for xs
    using sorted_sort_key [of "\<lambda>e. entry_rank e @ [fk_start_index (fe_key e)]" xs]
    by (simp only: regions_sorted_def file_compare_rank sorted_map)
  then show ?thesis by (simp add: sort_contract_def sorting_env_def)
qed

text \<open>Witness of C15: one file sample after boot.\<close>

definition one_sample_state :: parp_evidence_state where
  "one_sample_state =
     snd (parp_evidence_update_file (sorting_env (Some sample_snapshot)) sample_file_observation evidence_boot)"

lemma one_sample_reach: "evidence_reach 4096 2048 65536 one_sample_state"
  unfolding one_sample_state_def
  by (intro evidence_reach.file_sample evidence_reach.boot sorting_env_contract) simp_all

theorem parp_evidence_reachable_ok_witness: "evidence_ok 4096 2048 65536 one_sample_state"
  using parp_evidence_reachable_ok [OF one_sample_reach] by simp

section \<open>Refused and evicted samples\<close>

text \<open>A refused sample leaves no trace in the evidence. When an update of the file table answers with any
  error but \<open>ENOMEM\<close> (invalid, repeated, too late, no room), no entry of either table, no limit and
  nothing published has changed; only counters and the size of the allocation may have.\<close>

theorem parp_evidence_refused_sample_kept_out:
  assumes "parp_evidence_update_file env ob ev = (Some e, ev')" and "e \<noteq> ENOMEM"
  shows "bt_builders (ev_files ev') = bt_builders (ev_files ev) \<and> ev_anons ev' = ev_anons ev \<and>
     ev_snapshot ev' = ev_snapshot ev \<and> ev_version ev' = ev_version ev \<and>
     ev_last_publish_ns ev' = ev_last_publish_ns ev"
proof (cases "parp_sample_valid (fo_sample ob) \<and> fk_nr_pages (fo_key ob) \<noteq> 0")
  case False
  then show ?thesis using assms by (auto simp: parp_evidence_update_file_def)
next
  case True
  obtain err t s where ins: "evidence_insert file_kind (ev_max_file ev) (ev_max_total ev)
      (word_of_nat (length (bt_builders (ev_anons ev)))) (ee_grow_ok env) ob (ev_files ev, ev_stats ev) = (err, t, s)"
    using prod_cases3 by blast
  have due: "evidence_publish_due env (ds_timestamp_ns (fo_sample ob))
      (err, ev \<lparr> ev_files := t, ev_stats := s \<rparr>) = (Some e, ev')"
    using assms(1) True by (simp add: parp_evidence_update_file_def ins)
  then have "err = Some e \<and> ev' = ev \<lparr> ev_files := t, ev_stats := s \<rparr>"
    using assms(2) publish_cases
    by (fastforce simp: evidence_publish_due_def split: option.splits if_splits)
  moreover obtain way where "insert_by file_kind (ev_max_file ev) (ev_max_total ev)
      (word_of_nat (length (bt_builders (ev_files ev))) + word_of_nat (length (bt_builders (ev_anons ev))))
      ob (ev_files ev) t err way"
    using evidence_insert_by [OF ins] True by (auto simp: file_kind_def)
  ultimately show ?thesis by (auto simp: insert_by_def split: insert_way.splits)
qed

text \<open>An instance: the same sample twice.\<close>

theorem parp_evidence_refused_sample_kept_out_witness:
  "\<exists>ev'. parp_evidence_update_file sample_env sample_file_observation sample_evidence = (Some EALREADY, ev') \<and>
     bt_builders (ev_files ev') = bt_builders (ev_files sample_evidence)"
proof -
  have "fst (parp_evidence_update_file sample_env sample_file_observation sample_evidence) = Some EALREADY"
    by (simp add: parp_evidence_update_file_def evidence_insert_def evidence_slot_def evidence_fold_def
        sample_evidence_def evidence_boot_def sample_file_builder_def sample_file_observation_def
        sample_damon_def sample_file_key_def parp_sample_valid_def builder_for_def file_kind_def
        parp_file_key_equal_def evidence_publish_due_def Let_def)
  then obtain ev' where ev': "parp_evidence_update_file sample_env sample_file_observation sample_evidence =
      (Some EALREADY, ev')"
    by (metis prod.collapse)
  show ?thesis using ev' parp_evidence_refused_sample_kept_out [OF ev'] by simp
qed


lemma publish_due_tables:
  "evidence_publish_due env ts (err, ev) = (r, ev') \<Longrightarrow>
     ev_files ev' = ev_files ev \<and> ev_anons ev' = ev_anons ev"
  using publish_cases [of env ts ev r ev']
  by (auto simp: evidence_publish_due_def split: option.splits if_splits)

lemma word_of_nat_le: "n < 2 ^ 32 \<Longrightarrow> (m :: u32) \<le> word_of_nat n \<longleftrightarrow> unat m \<le> n"
  by (simp add: word_le_nat_alt unat_of_nat)

text \<open>C22. Evidence is dropped for stronger evidence only. If taking in a file sample removes a region's
  entry, then the limit of the sample's domain or the total limit was reached, the entry scored strictly
  less than the sample, and no more than any entry that could have been removed instead: those of the
  sample's domain when that domain is full, all otherwise.\<close>

theorem parp_evidence_eviction_stronger:
  fixes F A T ev env ob err ev' b
  defines "domain_full \<equiv> unat (ev_max_file ev) \<le>
      parp_count_domain file_kind (ac_domain_id (fo_owner ob)) (ev_files ev)"
    and "eligible \<equiv> \<lambda>c. unat (ev_max_file ev) \<le>
      parp_count_domain file_kind (ac_domain_id (fo_owner ob)) (ev_files ev) \<longrightarrow>
      in_domain file_kind (ac_domain_id (fo_owner ob)) c"
  assumes "evidence_reach F A T ev" and "T < 2 ^ 32"
    and "parp_evidence_update_file env ob ev = (err, ev')"
    and "b \<in> set (bt_builders (ev_files ev))"
    and "\<forall>c \<in> set (bt_builders (ev_files ev')).
           map_option file_region (bl_observation c) \<noteq> map_option file_region (bl_observation b)"
  shows "(domain_full \<or> unat (ev_max_total ev) \<le>
            length (bt_builders (ev_files ev)) + length (bt_builders (ev_anons ev))) \<and>
     parp_builder_score file_kind b < evidence_score (fo_alignment_confidence_q15 ob)
       (ds_nr_accesses (fo_sample ob)) (ds_timestamp_ns (fo_sample ob)) \<and>
     eligible b \<and>
     (\<forall>c \<in> set (bt_builders (ev_files ev)). eligible c \<longrightarrow>
        parp_builder_score file_kind b \<le> parp_builder_score file_kind c)"
proof -
  let ?dom = "ac_domain_id (fo_owner ob)"
  have ok: "evidence_ok F A T ev" by (rule evidence_reach_ok [OF assms(3,4)])
  have room: "length (bt_builders (ev_files ev)) + length (bt_builders (ev_anons ev)) < 2 ^ 32"
    using ok assms(4) by (simp add: evidence_ok_def)
  have valid: "parp_sample_valid (fo_sample ob) \<and> fk_nr_pages (fo_key ob) \<noteq> 0"
    using assms(5-7) by (auto simp: parp_evidence_update_file_def split: if_splits)
  obtain err1 t s where ins: "evidence_insert file_kind (ev_max_file ev) (ev_max_total ev)
      (word_of_nat (length (bt_builders (ev_anons ev)))) (ee_grow_ok env) ob (ev_files ev, ev_stats ev) = (err1, t, s)"
    using prod_cases3 by blast
  have t: "ev_files ev' = t"
    using assms(5) valid publish_due_tables
    by (fastforce simp: parp_evidence_update_file_def ins)
  obtain way where way: "insert_by file_kind (ev_max_file ev) (ev_max_total ev)
      (word_of_nat (length (bt_builders (ev_files ev))) + word_of_nat (length (bt_builders (ev_anons ev))))
      ob (ev_files ev) t err1 way"
    using evidence_insert_by [OF ins] valid by (auto simp: file_kind_def)
  have "parp_count_domain file_kind ?dom (ev_files ev) < 2 ^ 32"
    using room length_filter_le [of "in_domain file_kind ?dom" "bt_builders (ev_files ev)"]
    unfolding parp_count_domain_def by linarith
  then have df: "ev_max_file ev \<le> word_of_nat (parp_count_domain file_kind (ek_domain file_kind ob) (ev_files ev))
      \<longleftrightarrow> domain_full"
    using word_of_nat_le by (simp add: domain_full_def file_kind_def)
  have tf: "ev_max_total ev \<le> word_of_nat (length (bt_builders (ev_files ev))) +
        word_of_nat (length (bt_builders (ev_anons ev))) \<longleftrightarrow>
      unat (ev_max_total ev) \<le> length (bt_builders (ev_files ev)) + length (bt_builders (ev_anons ev))"
    using word_of_nat_le [OF room] by simp
  have el: "eligible c \<longleftrightarrow> \<not> domain_full \<or> in_domain file_kind (ek_domain file_kind ob) c" for c
    by (auto simp: eligible_def domain_full_def file_kind_def)
  obtain i where i: "way = Evicted i" "b = bt_builders (ev_files ev) ! i"
    using fr.lost_by_eviction [OF way assms(6)] assms(7) t by auto
  then have full: "table_full file_kind (ev_max_file ev) (ev_max_total ev)
      (word_of_nat (length (bt_builders (ev_files ev))) + word_of_nat (length (bt_builders (ev_anons ev))))
      ob (ev_files ev)"
    and victim: "parp_victim file_kind ob domain_full (ev_files ev) = Some i"
    using way by (simp_all add: insert_by_def df)
  have "evidence_score (ek_confidence file_kind ob) (ds_nr_accesses (ek_sample file_kind ob))
      (ds_timestamp_ns (ek_sample file_kind ob)) =
      evidence_score (fo_alignment_confidence_q15 ob) (ds_nr_accesses (fo_sample ob))
        (ds_timestamp_ns (fo_sample ob))" by (simp add: file_kind_def)
  then show ?thesis
    using parp_victim_Some [OF victim] full by (simp add: el i(2) table_full_def df tf)
qed


text \<open>Witness of C22: with room for one region per domain, a region sampled with nine accesses replaces one
  with three.\<close>

definition sample_stronger :: parp_file_observation where
  "sample_stronger = sample_file_observation
     \<lparr> fo_key := sample_file_key \<lparr> fk_start_index := 100 \<rparr>,
       fo_sample := sample_damon \<lparr> ds_sample_id := 2, ds_nr_accesses := 9 \<rparr> \<rparr>"

definition tight_state :: parp_evidence_state where
  "tight_state = one_sample_state \<lparr> ev_max_file := 1, ev_max_anon := 2048, ev_max_total := 65536 \<rparr>"

definition first_entry :: parp_file_builder where
  "first_entry = folded file_kind sample_file_observation (fresh_builder file_kind sample_file_observation)"

lemma one_sample_eq:
  "one_sample_state = evidence_boot \<lparr> ev_files := \<lparr> bt_builders = [first_entry], bt_capacity = 64 \<rparr> \<rparr>"
  by (simp add: one_sample_state_def parp_evidence_update_file_def evidence_insert_def
      evidence_slot_def evidence_fold_def parp_grow_builders_def evidence_boot_def first_entry_def
      folded_def fresh_builder_def parp_count_domain_def sorting_env_def builder_zero_def
      sample_file_observation_def sample_damon_def sample_file_key_def parp_sample_valid_def
      file_kind_def evidence_publish_due_def Let_def)

lemma tight_reach: "evidence_reach 4096 2048 65536 tight_state"
  unfolding tight_state_def by (intro evidence_reach.parameters one_sample_reach) simp_all

lemma tight_update:
  "bt_builders (ev_files (snd (parp_evidence_update_file sample_env sample_stronger tight_state))) =
     [folded file_kind sample_stronger (fresh_builder file_kind sample_stronger)]"
proof -
  have obs: "bl_observation first_entry = Some sample_file_observation" "bl_newest_ns first_entry = 3000"
    by (simp_all add: first_entry_def folded_def fresh_builder_def builder_zero_def file_kind_def
        sample_file_observation_def sample_damon_def)
  have "builder_for file_kind sample_stronger first_entry = False"
    by (simp add: builder_for_def obs file_kind_def sample_stronger_def sample_file_observation_def
        parp_file_key_equal_def sample_file_key_def)
  moreover have "in_domain file_kind (ek_domain file_kind sample_stronger) first_entry"
    by (simp add: in_domain_def obs file_kind_def sample_stronger_def sample_file_observation_def)
  moreover have "parp_builder_score file_kind first_entry = 33553504"
    "evidence_score (ek_confidence file_kind sample_stronger)
      (ds_nr_accesses (ek_sample file_kind sample_stronger))
      (ds_timestamp_ns (ek_sample file_kind sample_stronger)) = 33553696"
    by (simp_all add: parp_builder_score_def obs evidence_score_def file_kind_def
        sample_file_observation_def sample_stronger_def sample_damon_def)
  moreover have "parp_sample_valid (fo_sample sample_stronger)" "fk_nr_pages (fo_key sample_stronger) \<noteq> 0"
    by (simp_all add: sample_stronger_def sample_damon_def parp_sample_valid_def sample_file_key_def)
  moreover have "ek_sample file_kind sample_stronger = fo_sample sample_stronger"
    by (simp add: file_kind_def)
  moreover have "ds_timestamp_ns (fo_sample sample_stronger) = 3000"
    by (simp add: sample_stronger_def sample_damon_def)
  moreover have fresh: "fresh_builder file_kind sample_stronger = builder_zero \<lparr> bl_first_seen_ns := 3000 \<rparr>"
    by (simp add: fresh_builder_def file_kind_def sample_stronger_def sample_damon_def)
  moreover note evidence_fold_fresh [of file_kind sample_stronger, unfolded fresh]
  ultimately show ?thesis
    by (simp add: tight_state_def one_sample_eq parp_evidence_update_file_def evidence_insert_def
        evidence_slot_def parp_count_domain_def parp_victim_def evidence_publish_due_def evidence_boot_def
        Let_def)
qed

theorem parp_evidence_eviction_stronger_witness:
  "parp_builder_score file_kind first_entry < evidence_score (fo_alignment_confidence_q15 sample_stronger)
     (ds_nr_accesses (fo_sample sample_stronger)) (ds_timestamp_ns (fo_sample sample_stronger))"
proof -
  have old: "bt_builders (ev_files tight_state) = [first_entry]"
    by (simp add: tight_state_def one_sample_eq)
  have ne: "map_option file_region (bl_observation c) \<noteq> map_option file_region (bl_observation first_entry)"
    if "c \<in> set (bt_builders (ev_files (snd (parp_evidence_update_file sample_env sample_stronger tight_state))))"
    for c
    using that unfolding tight_update
    by (simp add: first_entry_def file_region_def sample_stronger_def sample_file_observation_def
        sample_file_key_def)
  show ?thesis
    using parp_evidence_eviction_stronger [OF tight_reach _ prod.collapse [symmetric], of first_entry
        sample_env sample_stronger] old ne by simp
qed


section \<open>Taking a domain offline\<close>

lemma lookup_entries_domain:
  assumes "lookup_entries files now domain_id file_key index nr_pages = Some e"
  shows "e \<in> set files \<and> fe_domain_id e = domain_id"
proof -
  obtain i where i: "point_search (\<lambda>i. parp_compare_file_point (files ! i) domain_id file_key index)
      0 (length files) = Some i" "e = files ! i"
    using assms by (auto simp: lookup_entries_def Let_def split: option.splits if_splits)
  note s = point_search_sound [OF i(1)]
  then have "parp_compare_file_point e domain_id file_key index = 0" by (simp add: i(2))
  then have "fe_domain_id e = domain_id"
    by (simp add: parp_compare_file_point_def region_cmps_def parp_cmp_u64_def Let_def split: if_splits)
  then show ?thesis using s by (simp add: i(2))
qed

lemma find_map: "find P (map f xs) = map_option f (find (P \<circ> f) xs)"
  by (induction xs) auto

text \<open>C38. A domain taken offline is forgotten. Exactly the entries of other domains stay in the two tables, and
  once the publication succeeded no query for the domain finds a file region or a summary, whatever the
  time. A publication that fails for lack of memory leaves the old snapshot, and with it the domain's
  published evidence, in place.\<close>

theorem parp_evidence_domain_offline_forgets:
  assumes "parp_evidence_domain_offline env now_ns domain_id ev = (err, ev')" and "sort_contract env"
  shows "mset (bt_builders (ev_files ev')) =
           {# b \<in># mset (bt_builders (ev_files ev)). \<not> in_domain file_kind domain_id b #} \<and>
     mset (bt_builders (ev_anons ev')) =
           {# b \<in># mset (bt_builders (ev_anons ev)). \<not> in_domain anon_kind domain_id b #} \<and>
     (if err = None
      then (\<forall>now file_key index nr_pages.
              fst (parp_evidence_lookup_file now domain_id file_key index nr_pages ev') = None) \<and>
           (\<forall>now. parp_evidence_lookup_anon_domain now domain_id ev' = None)
      else ev_snapshot ev' = ev_snapshot ev)"
proof -
  define files where "files = swap_remove (in_domain file_kind domain_id) 0 (bt_builders (ev_files ev))"
  define anons where "anons = swap_remove (in_domain anon_kind domain_id) 0 (bt_builders (ev_anons ev))"
  define ev1 where "ev1 = ev \<lparr> ev_files := (ev_files ev) \<lparr> bt_builders := files \<rparr>,
      ev_anons := (ev_anons ev) \<lparr> bt_builders := anons \<rparr> \<rparr>"
  have "parp_publish_evidence_locked env now_ns ev1 = (err, ev')"
    using assms(1) by (simp add: parp_evidence_domain_offline_def ev1_def files_def anons_def)
  note pub = publish_cases [OF this]
  have tables: "bt_builders (ev_files ev1) = files" "bt_builders (ev_anons ev1) = anons"
    "ev_snapshot ev1 = ev_snapshot ev" by (simp_all add: ev1_def)
  have no_file: "fe_domain_id e \<noteq> domain_id"
    if "e \<in> set (List.map_filter (file_entry (ee_active env) v now_ns) files)" for e v
  proof -
    from that obtain b where b: "b \<in> set files" "file_entry (ee_active env) v now_ns b = Some e"
      unfolding in_set_map_filter by blast
    then have "\<not> in_domain file_kind domain_id b" by (simp add: files_def set_swap_remove)
    then show ?thesis using file_entry_Some [OF b(2)] by (auto simp: in_domain_def file_kind_def)
  qed
  have no_anon: "ak_domain_id (ae_key e) \<noteq> domain_id"
    if "e \<in> set (List.map_filter (anon_entry (ee_active env) v now_ns) anons)" for e v
  proof -
    from that obtain b where b: "b \<in> set anons" "anon_entry (ee_active env) v now_ns b = Some e"
      unfolding in_set_map_filter by blast
    then have "\<not> in_domain anon_kind domain_id b" by (simp add: anons_def set_swap_remove)
    then show ?thesis using anon_entry_Some [OF b(2)] by (auto simp: in_domain_def anon_kind_def)
  qed
  have no_lookup: "fst (parp_evidence_lookup_file now domain_id file_key index nr_pages ev') = None \<and>
      parp_evidence_lookup_anon_domain now domain_id ev' = None"
    if "err = None" for now file_key index nr_pages
  proof -
    let ?fs = "List.map_filter (file_entry (ee_active env) (ev_version ev1 + 1) now_ns) files"
    let ?es = "List.map_filter (anon_entry (ee_active env) (ev_version ev1 + 1) now_ns) anons"
    obtain s where s: "ev_snapshot ev' = Some s" "es_files s = ee_sort_files env ?fs"
      "es_domains s = map domain_cool (foldl (\<lambda>ds e. domains_add e ds) [] ?es)"
      using pub [unfolded tables] \<open>err = None\<close> by auto
    have "lookup_entries (es_files s) now domain_id file_key index nr_pages = None"
    proof (rule ccontr)
      assume "lookup_entries (es_files s) now domain_id file_key index nr_pages \<noteq> None"
      then obtain e where "e \<in> set (es_files s)" "fe_domain_id e = domain_id"
        using lookup_entries_domain by blast
      then show False using no_file by (simp add: s(2) sort_contractD [OF assms(2)])
    qed
    moreover have "domain_id \<notin> de_domain_id ` set (foldl (\<lambda>ds e. domains_add e ds) [] ?es)"
      using foldl_domains_ids [of "[]" ?es] no_anon by auto
    then have "find (\<lambda>d. de_domain_id d = domain_id) (es_domains s) = None"
      by (auto simp: s(3) find_None_iff)
    ultimately show ?thesis
      by (simp add: parp_evidence_lookup_file_def parp_evidence_lookup_anon_domain_def s(1) Let_def)
  qed
  have kept: "bt_builders (ev_files ev') = files \<and> bt_builders (ev_anons ev') = anons \<and>
      (err \<noteq> None \<longrightarrow> ev_snapshot ev' = ev_snapshot ev)"
    using pub tables by simp
  have "mset files = {# b \<in># mset (bt_builders (ev_files ev)). \<not> in_domain file_kind domain_id b #}"
    "mset anons = {# b \<in># mset (bt_builders (ev_anons ev)). \<not> in_domain anon_kind domain_id b #}"
    by (simp_all add: files_def anons_def mset_swap_remove_all)
  then show ?thesis using kept no_lookup by simp
qed

text \<open>Witness of C38: the domain of the one region.\<close>

theorem parp_evidence_domain_offline_forgets_witness:
  "\<exists>ev'. parp_evidence_domain_offline (sorting_env (Some sample_snapshot)) 3000 5 one_sample_state = (None, ev') \<and>
     fst (parp_evidence_lookup_file 4000 5 sample_file_key 18 4 ev') = None"
proof -
  obtain ev' where ev': "parp_evidence_domain_offline (sorting_env (Some sample_snapshot)) 3000 5 one_sample_state = (None, ev')"
    by (simp add: parp_evidence_domain_offline_def parp_publish_evidence_locked_def sorting_env_def Let_def)
  show ?thesis
    using parp_evidence_domain_offline_forgets [OF ev' sorting_env_contract] ev' by simp
qed

section \<open>The summary of a domain\<close>

lemma find_domains_add:
  "find (\<lambda>d. de_domain_id d = D) (domains_add e ds) =
     (if ak_domain_id (ae_key e) = D
      then Some (domain_add e (case find (\<lambda>d. de_domain_id d = D) ds of None \<Rightarrow> domain_of e | Some d \<Rightarrow> d))
      else find (\<lambda>d. de_domain_id d = D) ds)"
  by (induction ds) (auto simp: domain_add_def domain_of_def Let_def)

lemma find_domains:
  fixes es D
  defines "own \<equiv> filter (\<lambda>e. ak_domain_id (ae_key e) = D) es"
  shows "find (\<lambda>d. de_domain_id d = D) (foldl (\<lambda>ds e. domains_add e ds) [] es) =
     (if own = [] then None else Some (foldl (\<lambda>d e. domain_add e d) (domain_of (hd own)) own))"
  unfolding own_def by (induction es rule: rev_induct) (auto simp: find_domains_add)

lemma summary_sums:
  fixes es d
  defines "s \<equiv> foldl (\<lambda>d e. domain_add e d) d es"
  shows "de_observed_pages s = de_observed_pages d + (\<Sum>e\<leftarrow>es. ucast (ak_nr_pages (ae_key e)))"
    and "de_active_pages_10s s = de_active_pages_10s d +
      (\<Sum>e\<leftarrow>es. if ws_access_evidence_10s (ae_windows e) \<noteq> 0 then ucast (ak_nr_pages (ae_key e)) else 0)"
    and "de_active_pages_30s s = de_active_pages_30s d +
      (\<Sum>e\<leftarrow>es. if ws_access_evidence_30s (ae_windows e) \<noteq> 0 then ucast (ak_nr_pages (ae_key e)) else 0)"
    and "de_active_pages_60s s = de_active_pages_60s d +
      (\<Sum>e\<leftarrow>es. if ws_access_evidence_60s (ae_windows e) \<noteq> 0 then ucast (ak_nr_pages (ae_key e)) else 0)"
  unfolding s_def
  by (induction es arbitrary: d) (simp_all add: domain_add_def Let_def)

lemma unat_sum_list:
  "(\<Sum>x\<leftarrow>xs. unat (f x)) < 2 ^ 64 \<Longrightarrow> unat (\<Sum>x\<leftarrow>xs. f x :: u64) = (\<Sum>x\<leftarrow>xs. unat (f x))"
  by (induction xs) (auto simp: unat_add_no_wrap)

text \<open>The pages of the entries that satisfy a condition, as a number.\<close>

definition pages_where :: "(parp_anon_evidence \<Rightarrow> bool) \<Rightarrow> parp_anon_evidence list \<Rightarrow> nat" where
  "pages_where P es = (\<Sum>e\<leftarrow>es. if P e then unat (ak_nr_pages (ae_key e)) else 0)"

lemma unat_pages_where:
  assumes "length es < 2 ^ 32"
  shows "unat (\<Sum>e\<leftarrow>es. if P e then ucast (ak_nr_pages (ae_key e)) else 0 :: u64) = pages_where P es"
proof -
  have "unat x \<le> 2 ^ 32 - 1" for x :: u32 using unat_u32_bound [of x] by simp
  then have "pages_where P es \<le> (\<Sum>e\<leftarrow>es. 2 ^ 32 - 1)"
    unfolding pages_where_def by (intro sum_list_mono) simp
  also have "\<dots> = length es * (2 ^ 32 - 1)" by (simp add: sum_list_triv)
  also have "\<dots> < 2 ^ 64"
    using mult_le_mono1 [of "length es" "2 ^ 32 - 1" "2 ^ 32 - 1 :: nat"] assms by simp
  finally have fits: "pages_where P es < 2 ^ 64" .
  have each: "(\<lambda>e. unat (if P e then ucast (ak_nr_pages (ae_key e)) else 0 :: u64)) =
      (\<lambda>e. if P e then unat (ak_nr_pages (ae_key e)) else 0)" by auto
  show ?thesis
    using unat_sum_list [of "\<lambda>e. if P e then ucast (ak_nr_pages (ae_key e)) else 0" es] fits
    unfolding each pages_where_def by simp
qed


lemma domain_summary:
  fixes env ev now_ns ev' domain_id
  defines "own \<equiv> filter (\<lambda>e. ak_domain_id (ae_key e) = domain_id)
      (List.map_filter (anon_entry (ee_active env) (ev_version ev + 1) now_ns) (bt_builders (ev_anons ev)))"
  assumes "parp_publish_evidence_locked env now_ns ev = (None, ev')"
    and "length (bt_builders (ev_anons ev)) < 2 ^ 32"
  shows "case parp_evidence_lookup_anon_domain now domain_id ev' of
     None \<Rightarrow> own = [] \<or> now_ns + PARP_EVIDENCE_TTL_NS \<le> now
   | Some s \<Rightarrow> own \<noteq> [] \<and>
       unat (de_observed_pages s) = pages_where (\<lambda>e. True) own \<and>
       unat (de_active_pages_10s s) = pages_where (\<lambda>e. ws_access_evidence_10s (ae_windows e) \<noteq> 0) own \<and>
       unat (de_active_pages_30s s) = pages_where (\<lambda>e. ws_access_evidence_30s (ae_windows e) \<noteq> 0) own \<and>
       unat (de_active_pages_60s s) = pages_where (\<lambda>e. ws_access_evidence_60s (ae_windows e) \<noteq> 0) own \<and>
       unat (de_cooling_pages s) = pages_where (\<lambda>e. ws_access_evidence_30s (ae_windows e) = 0) own"
proof -
  define es where "es = List.map_filter (anon_entry (ee_active env) (ev_version ev + 1) now_ns)
      (bt_builders (ev_anons ev))"
  let ?sum = "foldl (\<lambda>d e. domain_add e d) (domain_of (hd own)) own"
  have own: "own = filter (\<lambda>e. ak_domain_id (ae_key e) = domain_id) es" by (simp add: own_def es_def)
  have small: "length own < 2 ^ 32"
    using assms(3) length_map_filter_le [of "anon_entry (ee_active env) (ev_version ev + 1) now_ns" "bt_builders (ev_anons ev)"]
      length_filter_le [of "\<lambda>e. ak_domain_id (ae_key e) = domain_id" es]
    unfolding own es_def by linarith
  have lookup: "parp_evidence_lookup_anon_domain now domain_id ev' =
      (if now_ns + PARP_EVIDENCE_TTL_NS \<le> now \<or> own = [] then None else Some (domain_cool ?sum))"
    using publish_cases [OF assms(2)] find_domains [of domain_id es]
    by (auto simp: parp_evidence_lookup_anon_domain_def find_map comp_def own es_def)
  have zero: "de_observed_pages (domain_of e) = 0" "de_active_pages_10s (domain_of e) = 0"
    "de_active_pages_30s (domain_of e) = 0" "de_active_pages_60s (domain_of e) = 0" for e
    by (simp_all add: domain_of_def)
  note sums = summary_sums [of "domain_of (hd own)" own, unfolded zero add_0]
  have split: "(\<Sum>e\<leftarrow>xs. ucast (ak_nr_pages (ae_key e))) =
      (\<Sum>e\<leftarrow>xs. if P e then ucast (ak_nr_pages (ae_key e)) else 0) +
      (\<Sum>e\<leftarrow>xs. if \<not> P e then ucast (ak_nr_pages (ae_key e)) else 0 :: u64)" for P xs
    by (induction xs) (simp_all add: algebra_simps)
  have cooling: "de_cooling_pages (domain_cool ?sum) =
      (\<Sum>e\<leftarrow>own. if ws_access_evidence_30s (ae_windows e) = 0 then ucast (ak_nr_pages (ae_key e)) else 0)"
    using split [of own "\<lambda>e. ws_access_evidence_30s (ae_windows e) \<noteq> 0"]
    by (simp add: domain_cool_def sums)
  have kept: "de_observed_pages (domain_cool s) = de_observed_pages s"
    "de_active_pages_10s (domain_cool s) = de_active_pages_10s s"
    "de_active_pages_30s (domain_cool s) = de_active_pages_30s s"
    "de_active_pages_60s (domain_cool s) = de_active_pages_60s s" for s
    by (simp_all add: domain_cool_def)
  have all: "(\<Sum>e\<leftarrow>own. ucast (ak_nr_pages (ae_key e)) :: u64) =
      (\<Sum>e\<leftarrow>own. if True then ucast (ak_nr_pages (ae_key e)) else 0)" by simp
  show ?thesis
    unfolding lookup
    by (auto simp: cooling kept sums unat_pages_where [OF small])
      (simp only: all unat_pages_where [OF small])
qed

text \<open>The summary of a domain counts its pages exactly. After a successful publication, and until it
  expires, the anonymous summary of a domain exists exactly if some anonymous region of it was published;
  the observed, the active and the cooling pages are then the exact sums of the pages of its published
  regions: all of them, those accessed in the last 10, 30 and 60 seconds, and those not accessed in the
  last 30. No sum wraps, and the subtraction that gives the cooling pages never goes below zero.\<close>

theorem parp_domain_summary_exact:
  fixes env ev now_ns ev' domain_id
  defines "own \<equiv> filter (\<lambda>e. ak_domain_id (ae_key e) = domain_id)
      (List.map_filter (anon_entry (ee_active env) (ev_version ev + 1) now_ns) (bt_builders (ev_anons ev)))"
  assumes "parp_publish_evidence_locked env now_ns ev = (None, ev')"
    and "length (bt_builders (ev_anons ev)) < 2 ^ 32"
  shows "case parp_evidence_lookup_anon_domain now domain_id ev' of
     None \<Rightarrow> own = [] \<or> now_ns + PARP_EVIDENCE_TTL_NS \<le> now
   | Some s \<Rightarrow> own \<noteq> [] \<and>
       unat (de_observed_pages s) = pages_where (\<lambda>e. True) own \<and>
       unat (de_active_pages_10s s) = pages_where (\<lambda>e. ws_access_evidence_10s (ae_windows e) \<noteq> 0) own \<and>
       unat (de_active_pages_30s s) = pages_where (\<lambda>e. ws_access_evidence_30s (ae_windows e) \<noteq> 0) own \<and>
       unat (de_active_pages_60s s) = pages_where (\<lambda>e. ws_access_evidence_60s (ae_windows e) \<noteq> 0) own \<and>
       unat (de_cooling_pages s) = pages_where (\<lambda>e. ws_access_evidence_30s (ae_windows e) = 0) own"
  using domain_summary [OF assms(2,3), of domain_id now] unfolding own_def .

text \<open>An instance: one region of eight pages with an access a moment ago.\<close>

definition sample_anon_key :: parp_anon_region_key where
  "sample_anon_key = \<lparr> ak_domain_id = 5, ak_foreground_epoch_id = 2, ak_mm_cookie = 8,
     ak_process_role = 0, ak_vma_signature = 77, ak_relative_start_pages = 4, ak_nr_pages = 8 \<rparr>"

definition sample_anon_observation :: parp_anon_observation where
  "sample_anon_observation = \<lparr> ao_key = sample_anon_key, ao_owner = sample_owner,
     ao_sample = sample_damon, ao_anon_class = PARP_ANON_HEAP, ao_identity_confidence_q15 = 24000,
     ao_flags = 0 \<rparr>"

definition sample_anon_state :: parp_evidence_state where
  "sample_anon_state = evidence_boot \<lparr> ev_anons := \<lparr> bt_builders = [builder_zero
     \<lparr> bl_observation := Some sample_anon_observation, bl_newest_ns := 3000, bl_first_seen_ns := 3000,
       bl_last_access_ns := 3000, bl_last_sample_id := 1 \<rparr>], bt_capacity = 64 \<rparr> \<rparr>"

theorem parp_domain_summary_exact_witness:
  "\<exists>ev' s. parp_publish_evidence_locked sample_env 3000 sample_anon_state = (None, ev') \<and>
     parp_evidence_lookup_anon_domain 4000 5 ev' = Some s \<and> unat (de_observed_pages s) = 8"
proof -
  obtain ev' where pub: "parp_publish_evidence_locked sample_env 3000 sample_anon_state = (None, ev')"
    by (simp add: parp_publish_evidence_locked_def sample_env_def Let_def)
  obtain e where e: "List.map_filter (anon_entry (ee_active sample_env) (ev_version sample_anon_state + 1) 3000)
      (bt_builders (ev_anons sample_anon_state)) = [e]" "ae_key e = sample_anon_key"
    using sample_lookup
    by (simp add: List.map_filter_simps sample_anon_state_def sample_env_def anon_entry_def
        sample_anon_observation_def owner_current_def sample_owner_eq sample_anon_key_def Let_def)
  have n: "length (bt_builders (ev_anons sample_anon_state)) < 2 ^ 32" by (simp add: sample_anon_state_def)
  have "case parp_evidence_lookup_anon_domain 4000 5 ev' of None \<Rightarrow> False
      | Some s \<Rightarrow> unat (de_observed_pages s) = 8"
    using parp_domain_summary_exact [OF pub n, of 5 4000]
    by (simp add: e sample_anon_key_def pages_where_def split: option.splits)
  then show ?thesis using pub by (auto split: option.splits)
qed


section \<open>Overlapping regions\<close>

text \<open>Two regions of one file: pages 0 to 99, and pages 10 and 11 inside them.\<close>

definition wide_observation :: parp_file_observation where
  "wide_observation = sample_file_observation
     \<lparr> fo_key := sample_file_key \<lparr> fk_start_index := 0, fk_nr_pages := 100 \<rparr> \<rparr>"

definition narrow_observation :: parp_file_observation where
  "narrow_observation = sample_file_observation
     \<lparr> fo_key := sample_file_key \<lparr> fk_start_index := 10, fk_nr_pages := 2 \<rparr> \<rparr>"

definition overlap_state :: parp_evidence_state where
  "overlap_state = snd (parp_evidence_publish (sorting_env (Some sample_snapshot)) 3000
     (snd (parp_evidence_update_file (sorting_env (Some sample_snapshot)) narrow_observation
        (snd (parp_evidence_update_file (sorting_env (Some sample_snapshot)) wide_observation evidence_boot)))))"

lemma overlap_reach: "evidence_reach 4096 2048 65536 overlap_state"
  unfolding overlap_state_def
  by (intro evidence_reach.publish evidence_reach.file_sample evidence_reach.boot sorting_env_contract) simp_all

definition builder_of :: "parp_file_observation \<Rightarrow> parp_file_builder" where
  "builder_of ob = folded file_kind ob (fresh_builder file_kind ob)"

abbreviation before_publication :: parp_evidence_state where
  "before_publication \<equiv>
     snd (parp_evidence_update_file (sorting_env (Some sample_snapshot)) narrow_observation
       (snd (parp_evidence_update_file (sorting_env (Some sample_snapshot)) wide_observation evidence_boot)))"

lemma overlap_builders:
  "bt_builders (ev_files before_publication) = [builder_of wide_observation, builder_of narrow_observation]"
  "ev_version before_publication = 0"
  by (simp_all add: parp_evidence_update_file_def evidence_insert_def evidence_slot_def evidence_fold_def
      parp_grow_builders_def evidence_boot_def builder_of_def folded_def fresh_builder_def
      parp_count_domain_def in_domain_def builder_zero_def wide_observation_def
      narrow_observation_def sample_file_observation_def sample_damon_def sample_file_key_def
      parp_sample_valid_def builder_for_def parp_file_key_equal_def file_kind_def
      evidence_publish_due_def word_le_nat_alt Let_def)

definition entry_of :: "parp_file_observation \<Rightarrow> parp_file_evidence" where
  "entry_of ob = the (file_entry (Some sample_snapshot) 1 3000 (builder_of ob))"

lemma entry_of:
  assumes "ob = wide_observation \<or> ob = narrow_observation"
  shows "file_entry (Some sample_snapshot) 1 3000 (builder_of ob) = Some (entry_of ob)"
    and "fe_key (entry_of ob) = fo_key ob" and "fe_domain_id (entry_of ob) = 5"
    and "fe_expires_ns (entry_of ob) = 9000"
proof -
  have ob: "fo_owner ob = sample_owner" "fo_sample ob = sample_damon"
    using assms by (auto simp: wide_observation_def narrow_observation_def sample_file_observation_def)
  have b: "bl_observation (builder_of ob) = Some ob" "bl_newest_ns (builder_of ob) = 3000"
    by (simp_all add: builder_of_def folded_def fresh_builder_def builder_zero_def file_kind_def ob
        sample_damon_def)
  have "ac_domain_id sample_owner = 5" "ac_bind_expiry_ns sample_owner = 9000"
    by (simp_all add: sample_owner_eq)
  then show "file_entry (Some sample_snapshot) 1 3000 (builder_of ob) = Some (entry_of ob)"
    "fe_key (entry_of ob) = fo_key ob" "fe_domain_id (entry_of ob) = 5"
    "fe_expires_ns (entry_of ob) = 9000"
    using sample_lookup by (simp_all add: entry_of_def file_entry_def b ob owner_current_def Let_def)
qed

text \<open>Where published regions overlap, the search can miss. Two valid samples of nested regions of one file,
  published, lead to a snapshot that holds an unexpired entry with the queried page and in which the
  lookup of that page finds nothing: the search compares with the inner region, which ends before the
  page, and continues behind it. This is why \<open>parp_evidence_lookup_after_publish\<close> promises to find only
  regions that stand apart.\<close>

theorem parp_evidence_lookup_misses_overlap:
  "evidence_reach 4096 2048 65536 overlap_state \<and>
   (\<exists>s e. ev_snapshot overlap_state = Some s \<and> e \<in> set (es_files s) \<and>
      entry_rank e = region_rank 5 sample_file_key \<and> region_start e \<le> 50 \<and> 51 \<le> region_end e \<and>
      4000 < fe_expires_ns e) \<and>
   fst (parp_evidence_lookup_file 4000 5 sample_file_key 50 1 overlap_state) = None"
proof -
  let ?wide = "entry_of wide_observation" and ?narrow = "entry_of narrow_observation"
  have keys: "fe_key ?wide = sample_file_key \<lparr> fk_start_index := 0, fk_nr_pages := 100 \<rparr>"
    "fe_key ?narrow = sample_file_key \<lparr> fk_start_index := 10, fk_nr_pages := 2 \<rparr>"
    by (simp_all add: entry_of) (simp_all add: wide_observation_def narrow_observation_def)
  note entry = entry_of [of wide_observation] entry_of [of narrow_observation]
  have pub: "parp_publish_evidence_locked (sorting_env (Some sample_snapshot)) 3000 before_publication =
      (None, overlap_state)"
    by (simp add: overlap_state_def parp_evidence_publish_def parp_publish_evidence_locked_def Let_def)
  obtain s where s: "ev_snapshot overlap_state = Some s" "es_expires_ns s = 60000003000"
    "es_files s = ee_sort_files (sorting_env (Some sample_snapshot)) [?wide, ?narrow]"
    using publish_cases [OF pub] by (simp add: overlap_builders List.map_filter_simps entry)
  then have files: "es_files s = [?wide, ?narrow]"
    by (simp add: keys entry region_rank_def)
  have rank: "entry_rank ?wide = region_rank 5 sample_file_key" "entry_rank ?narrow = region_rank 5 sample_file_key"
    by (simp_all add: entry keys region_rank_def)
  have "parp_compare_file_point ?narrow 5 sample_file_key 50 = - 1"
    by (simp add: point_compare region_end_def region_start_def keys entry region_rank_def sample_file_key_def)
  then have "point_search (\<lambda>i. parp_compare_file_point (es_files s ! i) 5 sample_file_key 50) 0 2 = None"
    by (simp add: files point_search.simps)
  then have "lookup_entries (es_files s) 4000 5 sample_file_key 50 1 = None"
    by (simp add: lookup_entries_def files numeral_2_eq_2)
  then have "fst (parp_evidence_lookup_file 4000 5 sample_file_key 50 1 overlap_state) = None"
    by (simp add: parp_evidence_lookup_file_def s(1,2) Let_def)
  moreover have "region_start ?wide \<le> 50" "51 \<le> region_end ?wide" "4000 < fe_expires_ns ?wide"
    by (simp_all add: region_end_def region_start_def keys entry)
  ultimately show ?thesis using overlap_reach s(1) files rank(1) by auto
qed


end
