(* ===== verification/Damon_Adapter.thy ===== *)
theory Damon_Adapter
  imports Evidence_Properties
begin

text \<open>
  \<open>mm/parp/adapter/damon_adapter.c\<close>: samples of the access monitor are queued, matched to a process and
  its application, cut along the mappings of its address space and folded into the evidence tables.

  Kernel objects are records of the members the code reads: a task, an address space with \<open>find_vma\<close> as
  a function, a mapping, an inode. \<open>PAGE_SIZE\<close> is 4096. The counters of \<open>parp_evidence_stats\<close> that only
  this file changes are the record \<open>parp_damon_stats\<close>; a counter is changed by one atomic operation.
  The trace records are not modelled.
\<close>

abbreviation PAGE_SIZE :: u64 where "PAGE_SIZE \<equiv> 4096"
abbreviation PAGE_SHIFT :: nat where "PAGE_SHIFT \<equiv> 12"
abbreviation PARP_MAX_SPLITS_PER_DAMON_REGION :: nat where "PARP_MAX_SPLITS_PER_DAMON_REGION \<equiv> 64"
abbreviation PARP_REASON_FILE_VERSION_WEAK :: u32 where "PARP_REASON_FILE_VERSION_WEAK \<equiv> BIT 10"
abbreviation PARP_REASON_SHMEM_UNSAFE :: u32 where "PARP_REASON_SHMEM_UNSAFE \<equiv> BIT 11"
abbreviation VM_EXEC :: u64 where "VM_EXEC \<equiv> 0x00000004"
abbreviation VM_SHARED :: u64 where "VM_SHARED \<equiv> 0x00000008"

text \<open>\<open>VM_READ | VM_WRITE | VM_EXEC | VM_SHARED | VM_GROWSDOWN | VM_DONTCOPY | VM_DONTDUMP\<close>\<close>

abbreviation semantic_mask :: u64 where "semantic_mask \<equiv> 0x0402010F"

section \<open>Data\<close>

record parp_inode =
  nd_major :: u32
  nd_minor :: u32
  nd_ino :: u64
  nd_is_i_version :: bool
  nd_iversion :: u64
  nd_generation :: u32
  nd_mode :: u16
  nd_size :: u64

record parp_vma =
  va_start :: u64
  va_end :: u64
  va_pgoff :: u64
  va_flags :: u64
  va_file :: "parp_inode option"
  va_unlinked :: bool
  va_shmem :: bool
  va_anonymous :: bool

record parp_mm =
  mm_start_stack :: u64
  mm_start_brk :: u64
  mm_brk :: u64
  mm_find_vma :: "u64 \<Rightarrow> parp_vma option"

text \<open>A task: the identity of its address space and the domain of its control group.\<close>

record parp_task =
  tk_mm :: nat
  tk_domain :: "u64 option"

record parp_damon_stats =
  dq_samples_queued :: u64
  dq_samples_dropped :: u64
  dq_queue_depth :: int
  dq_queue_high_water :: int
  dq_target_to_mm_ok :: u64
  dq_mm_to_domain_ok :: u64
  dq_domain_to_bind_ok :: u64

section \<open>The queue\<close>

text \<open>The atomic operations on the counters, each a step of its own for other CPUs.\<close>

definition damon_depth_inc :: "parp_damon_stats \<Rightarrow> int \<times> parp_damon_stats" where
  "damon_depth_inc q =
     (let depth = dq_queue_depth q + 1 in (depth, q \<lparr> dq_queue_depth := depth \<rparr>))"

definition damon_depth_dec :: "parp_damon_stats \<Rightarrow> parp_damon_stats" where
  "damon_depth_dec q = q \<lparr> dq_queue_depth := dq_queue_depth q - 1 \<rparr>"

definition damon_count_dropped :: "parp_damon_stats \<Rightarrow> parp_damon_stats" where
  "damon_count_dropped q = q \<lparr> dq_samples_dropped := dq_samples_dropped q + 1 \<rparr>"

definition damon_high_water_cmpxchg :: "int \<Rightarrow> int \<Rightarrow> parp_damon_stats \<Rightarrow> int \<times> parp_damon_stats" where
  "damon_high_water_cmpxchg high depth q =
     (let previous = dq_queue_high_water q
      in (previous, if previous = high then q \<lparr> dq_queue_high_water := depth \<rparr> else q))"

text \<open>
  The compare-and-exchange loop of the high-water mark, as one CPU sees it: \<open>others k\<close> is what other CPUs
  have raised the mark to before the \<open>k\<close>-th attempt; they only raise it.
\<close>

function high_water_loop :: "(nat \<Rightarrow> int) \<Rightarrow> nat \<Rightarrow> int \<Rightarrow> int \<Rightarrow> int" where
  "high_water_loop others k depth high =
     (if \<not> depth > high then high
      else let previous = max high (others k)
           in if previous = high then depth else high_water_loop others (Suc k) depth previous)"
  by pat_completeness auto

termination
  by (relation "measure (\<lambda>(others, k, depth, high). nat (depth - high))") (auto simp: max_def split: if_splits)

declare high_water_loop.simps [simp del]

text \<open>The whole of it, when only the high-water mark is changed by others meanwhile.\<close>

definition parp_damon_queue_reserve ::
  "u32 \<Rightarrow> (nat \<Rightarrow> int) \<Rightarrow> parp_damon_stats \<Rightarrow> bool \<times> parp_damon_stats" where
  "parp_damon_queue_reserve max_pending others q =
     (let (depth, q1) = damon_depth_inc q; high = dq_queue_high_water q1
      in if depth > uint max_pending then (False, damon_count_dropped (damon_depth_dec q1))
         else (True, q1 \<lparr> dq_queue_high_water := high_water_loop others 0 depth high \<rparr>))"

section \<open>From a task to its application\<close>

definition parp_task_context ::
  "parp_snapshot option \<Rightarrow> u64 \<Rightarrow> parp_task \<Rightarrow> parp_damon_stats \<Rightarrow>
   parp_app_context option \<times> parp_damon_stats" where
  "parp_task_context active now_ns task q =
     (case tk_domain task of
        None \<Rightarrow> (None, q)
      | Some domain_id \<Rightarrow>
          let q1 = q \<lparr> dq_mm_to_domain_ok := dq_mm_to_domain_ok q + 1 \<rparr>
          in case parp_context_lookup active domain_id now_ns of
               None \<Rightarrow> (None, q1)
             | Some context \<Rightarrow>
                 (Some context, q1 \<lparr> dq_domain_to_bind_ok := dq_domain_to_bind_ok q1 + 1 \<rparr>))"

definition parp_damon_mm_task_budget_exhausted :: "nat \<Rightarrow> nat \<Rightarrow> u32 \<Rightarrow> bool \<times> u32" where
  "parp_damon_mm_task_budget_exhausted candidate expected checked =
     (if candidate \<noteq> expected then (False, checked) else (checked + 1 > 256, checked + 1))"

definition context_differs :: "parp_app_context \<Rightarrow> parp_app_context option \<Rightarrow> bool" where
  "context_differs expected context =
     (case context of
        None \<Rightarrow> True
      | Some c \<Rightarrow> ac_domain_id c \<noteq> ac_domain_id expected \<or> ac_app_id c \<noteq> ac_app_id expected \<or>
                  ac_bind_generation c \<noteq> ac_bind_generation expected)"

text \<open>
  The walk over all threads, in the order of the process list. Every lookup reads the published snapshot
  anew: \<open>actives k\<close> is the one the \<open>k\<close>-th lookup finds.
\<close>

fun shared_mm_scan ::
  "(nat \<Rightarrow> parp_snapshot option) \<Rightarrow> nat \<Rightarrow> parp_app_context \<Rightarrow> u64 \<Rightarrow> parp_task list \<Rightarrow> u32 \<Rightarrow>
   parp_damon_stats \<Rightarrow> bool \<times> parp_damon_stats" where
  "shared_mm_scan actives mm expected now_ns [] checked q = (False, q)"
| "shared_mm_scan actives mm expected now_ns (task # tasks) checked q =
     (if tk_mm task \<noteq> mm then shared_mm_scan actives mm expected now_ns tasks checked q
      else case parp_damon_mm_task_budget_exhausted mm mm checked of
        (exhausted, checked1) \<Rightarrow>
          if exhausted then (True, q)
          else case parp_task_context (actives 0) now_ns task q of
            (context, q1) \<Rightarrow>
              if context_differs expected context then (True, q1)
              else shared_mm_scan (\<lambda>k. actives (Suc k)) mm expected now_ns tasks checked1 q1)"

definition parp_shared_mm_ambiguous ::
  "(nat \<Rightarrow> parp_snapshot option) \<Rightarrow> parp_task list \<Rightarrow> nat \<Rightarrow> parp_app_context \<Rightarrow> u64 \<Rightarrow>
   parp_damon_stats \<Rightarrow> bool \<times> parp_damon_stats" where
  "parp_shared_mm_ambiguous actives tasks mm expected now_ns q =
     shared_mm_scan actives mm expected now_ns tasks 0 q"

section \<open>From a mapping to an observation\<close>

definition parp_file_version :: "parp_inode \<Rightarrow> u64 \<times> parp_file_version_source \<times> u32 \<times> u32" where
  "parp_file_version inode =
     (if nd_is_i_version inode
      then (nd_iversion inode, PARP_FILE_VERSION_IVERSION, 0, ucast PARP_Q15_ONE)
      else if nd_generation inode \<noteq> 0
      then (ucast (nd_generation inode), PARP_FILE_VERSION_GENERATION, 0, 28672)
      else (parp_vma_signature (ucast (nd_mode inode)) (nd_ino inode) (nd_size inode) 0 0,
            PARP_FILE_VERSION_WEAK, PARP_REASON_FILE_VERSION_WEAK, 16384))"

definition parp_backing_class_of :: "parp_vma \<Rightarrow> parp_backing_class" where
  "parp_backing_class_of vma =
     parp_backing_classify (va_file vma \<noteq> None) (va_shmem vma) (va_file vma \<noteq> None \<and> va_unlinked vma)
       (va_flags vma AND VM_EXEC \<noteq> 0)"

definition parp_anon_classify :: "parp_mm \<Rightarrow> parp_vma \<Rightarrow> u64 \<Rightarrow> u64 \<Rightarrow> parp_anon_class" where
  "parp_anon_classify mm vma start stop =
     (if start \<le> mm_start_stack mm \<and> mm_start_stack mm < stop then PARP_ANON_STACK
      else if start < mm_brk mm \<and> stop > mm_start_brk mm then PARP_ANON_HEAP
      else if va_shmem vma then PARP_ANON_SHMEM_STYLE
      else if va_anonymous vma
      then if va_flags vma AND VM_SHARED \<noteq> 0 then PARP_ANON_SHARED else PARP_ANON_PRIVATE
      else PARP_ANON_SPECIAL)"

text \<open>The observation \<open>parp_record_file\<close> builds; \<open>None\<close> when the range has no file pages.\<close>

definition file_observation ::
  "parp_damon_sample \<Rightarrow> parp_app_context \<Rightarrow> parp_vma \<Rightarrow> parp_inode \<Rightarrow> u64 \<Rightarrow> u64 \<Rightarrow>
   parp_file_observation option" where
  "file_observation sample context vma inode start stop =
     (case parp_file_range_from_vma (va_start vma) (va_pgoff vma) start stop PAGE_SIZE of
        None \<Rightarrow> None
      | Some (start_index, pages) \<Rightarrow>
          let (version, source, flags, confidence) = parp_file_version inode;
              backing = parp_backing_class_of vma; shmem = (backing = PARP_BACKING_SHMEM)
          in Some \<lparr> fo_key = \<lparr> fk_dev_major = nd_major inode, fk_dev_minor = nd_minor inode,
                      fk_inode = nd_ino inode, fk_file_version = version,
                      fk_start_index = start_index, fk_nr_pages = pages \<rparr>,
                    fo_owner = context,
                    fo_sample = sample \<lparr> ds_region_start := start, ds_region_end := stop \<rparr>,
                    fo_backing_class = backing, fo_version_source = source,
                    fo_alignment_confidence_q15 = (if shmem then min confidence 24576 else confidence),
                    fo_flags = (if shmem then flags OR PARP_REASON_SHMEM_UNSAFE else flags) \<rparr>)"

definition anon_observation ::
  "parp_damon_sample \<Rightarrow> parp_app_context \<Rightarrow> parp_mm \<Rightarrow> parp_vma \<Rightarrow> u64 \<Rightarrow> u64 \<Rightarrow>
   parp_anon_observation option" where
  "anon_observation sample context mm vma start stop =
     (let anon_class = parp_anon_classify mm vma start stop
      in case parp_anon_range_from_vma (va_start vma) start stop PAGE_SIZE of
           None \<Rightarrow> None
         | Some (relative, pages) \<Rightarrow>
             Some \<lparr> ao_key = \<lparr> ak_domain_id = ac_domain_id context,
                      ak_foreground_epoch_id = ac_foreground_epoch_id context,
                      ak_mm_cookie = ds_mm_cookie sample, ak_process_role = 0,
                      ak_vma_signature = parp_vma_signature (anon_class_code anon_class)
                        (va_flags vma AND semantic_mask)
                        (drop_bit PAGE_SHIFT (va_end vma - va_start vma)) 0 0,
                      ak_relative_start_pages = relative, ak_nr_pages = pages \<rparr>,
                    ao_owner = context,
                    ao_sample = sample \<lparr> ds_region_start := start, ds_region_end := stop \<rparr>,
                    ao_anon_class = anon_class, ao_identity_confidence_q15 = ucast PARP_Q15_ONE,
                    ao_flags = 0 \<rparr>)"

definition account_unresolved ::
  "u64 \<Rightarrow> parp_alignment_status \<Rightarrow> parp_evidence_state \<Rightarrow> parp_evidence_state" where
  "account_unresolved bytes status ev =
     ev \<lparr> ev_stats := parp_evidence_account_unresolved bytes status (ev_stats ev) \<rparr>"

text \<open>Both recording functions end alike.\<close>

definition account_recorded ::
  "u64 \<Rightarrow> bool \<Rightarrow> errno option \<times> parp_evidence_state \<Rightarrow> parp_evidence_state" where
  "account_recorded bytes split r =
     (case r of
        (None, ev) \<Rightarrow> ev \<lparr> ev_stats := (ev_stats ev) \<lparr> et_exact := et_exact (ev_stats ev) + 1 \<rparr> \<rparr>
      | (Some e, ev) \<Rightarrow>
          account_unresolved bytes (if split then PARP_ALIGN_PARTIAL else PARP_ALIGN_UNRESOLVED) ev)"

definition parp_record_file ::
  "evidence_env \<Rightarrow> parp_damon_sample \<Rightarrow> parp_app_context \<Rightarrow> parp_vma \<Rightarrow> parp_inode \<Rightarrow> u64 \<Rightarrow> u64 \<Rightarrow>
   bool \<Rightarrow> parp_evidence_state \<Rightarrow> parp_evidence_state" where
  "parp_record_file env sample context vma inode start stop split ev =
     (case file_observation sample context vma inode start stop of
        None \<Rightarrow> account_unresolved (stop - start) PARP_ALIGN_UNRESOLVED ev
      | Some ob \<Rightarrow> account_recorded (stop - start) split (parp_evidence_update_file env ob ev))"

definition parp_record_anon ::
  "evidence_env \<Rightarrow> parp_damon_sample \<Rightarrow> parp_app_context \<Rightarrow> parp_mm \<Rightarrow> parp_vma \<Rightarrow> u64 \<Rightarrow> u64 \<Rightarrow>
   bool \<Rightarrow> parp_evidence_state \<Rightarrow> parp_evidence_state" where
  "parp_record_anon env sample context mm vma start stop split ev =
     (case anon_observation sample context mm vma start stop of
        None \<Rightarrow> account_unresolved (stop - start) PARP_ALIGN_UNRESOLVED ev
      | Some ob \<Rightarrow> account_recorded (stop - start) split (parp_evidence_update_anon env ob ev))"


section \<open>Cutting a region along the mappings\<close>

text \<open>
  The loop of \<open>parp_resolve_region\<close> with the number of splits left; \<open>envs\<close> gives the environment of the
  update made with \<open>n\<close> splits left. The result is the cursor at the end of the loop.
\<close>

fun resolve_segments ::
  "(nat \<Rightarrow> evidence_env) \<Rightarrow> parp_damon_sample \<Rightarrow> parp_mm \<Rightarrow> parp_app_context \<Rightarrow> u64 \<Rightarrow> u64 \<Rightarrow>
   nat \<Rightarrow> u64 \<Rightarrow> bool \<Rightarrow> parp_evidence_state \<Rightarrow> u64 \<times> parp_evidence_state" where
  "resolve_segments envs sample mm context start stop 0 cursor split ev = (cursor, ev)"
| "resolve_segments envs sample mm context start stop (Suc n) cursor split ev =
     (if \<not> cursor < stop then (cursor, ev)
      else case mm_find_vma mm cursor of
        None \<Rightarrow> (stop, account_unresolved (stop - cursor) PARP_ALIGN_UNRESOLVED ev)
      | Some vma \<Rightarrow>
          if cursor < va_start vma
          then let segment_end = min stop (va_start vma)
               in resolve_segments envs sample mm context start stop n segment_end True
                    (account_unresolved (segment_end - cursor) PARP_ALIGN_UNRESOLVED ev)
          else
            let segment_end = min stop (va_end vma);
                split1 = (split \<or> cursor \<noteq> start \<or> segment_end \<noteq> stop);
                ev1 = (case va_file vma of
                    Some inode \<Rightarrow>
                      parp_record_file (envs n) sample context vma inode cursor segment_end split1 ev
                  | None \<Rightarrow>
                      if va_anonymous vma
                      then parp_record_anon (envs n) sample context mm vma cursor segment_end split1 ev
                      else account_unresolved (segment_end - cursor) PARP_ALIGN_UNRESOLVED ev)
            in resolve_segments envs sample mm context start stop n segment_end split1 ev1)"

definition parp_resolve_region ::
  "(nat \<Rightarrow> evidence_env) \<Rightarrow> parp_damon_sample \<Rightarrow> parp_mm \<Rightarrow> parp_app_context \<Rightarrow>
   parp_evidence_state \<Rightarrow> parp_evidence_state" where
  "parp_resolve_region envs sample mm context ev =
     (case parp_align_interval (ds_region_start sample) (ds_region_end sample) PAGE_SIZE of
        None \<Rightarrow> account_unresolved (ds_region_end sample - ds_region_start sample)
                  PARP_ALIGN_UNRESOLVED ev
      | Some (start, stop) \<Rightarrow>
          let split = (start \<noteq> ds_region_start sample \<or> stop \<noteq> ds_region_end sample);
              (cursor, ev1) = resolve_segments envs sample mm context start stop
                                PARP_MAX_SPLITS_PER_DAMON_REGION start split ev
          in if cursor < stop then account_unresolved (stop - cursor) PARP_ALIGN_PARTIAL ev1 else ev1)"

section \<open>The work item\<close>

text \<open>
  What \<open>parp_damon_workfn\<close> finds out about its target: the process, unless it is gone, and its address
  space, unless it has none. The hashes of the session are those of \<open>parp_vma_signature\<close>.
\<close>

record parp_target =
  tg_task :: parp_task
  tg_pid :: u32
  tg_tgid :: u32
  tg_start_boottime :: u64
  tg_start_code :: u64
  tg_start_data :: u64
  tg_mm :: "parp_mm option"

record parp_damon_state =
  da_evidence :: parp_evidence_state
  da_queue :: parp_damon_stats
  da_sequence :: u64
  da_max_pending :: u32

definition parp_session_cookie :: "parp_target \<Rightarrow> u64" where
  "parp_session_cookie t =
     parp_vma_signature 0 (tg_start_boottime t) (ucast (tg_tgid t)) (ucast (tg_pid t))
       (tg_start_code t XOR tg_start_data t)"

definition damon_release :: "parp_damon_state \<Rightarrow> parp_damon_state" where
  "damon_release st = st \<lparr> da_queue := damon_depth_dec (da_queue st) \<rparr>"

text \<open>
  The work function up to its label \<open>out\<close>. \<open>actives\<close> gives the snapshot of each context lookup: the
  first is that of the target's task, the others are those of the threads that share its address space.
\<close>

definition damon_work_body ::
  "(nat \<Rightarrow> evidence_env) \<Rightarrow> (nat \<Rightarrow> parp_snapshot option) \<Rightarrow> parp_task list \<Rightarrow> parp_target option \<Rightarrow>
   parp_damon_sample \<Rightarrow> parp_damon_state \<Rightarrow> parp_damon_state" where
  "damon_work_body envs actives tasks target sample0 st =
     (case target of
        None \<Rightarrow> st
      | Some t \<Rightarrow>
          (case tg_mm t of
             None \<Rightarrow> st
           | Some mm \<Rightarrow>
               let sample = sample0 \<lparr> ds_pid := tg_pid t, ds_tgid := tg_tgid t,
                     ds_mm_cookie := parp_session_cookie t,
                     ds_target_cookie := parp_vma_signature 0 (tg_start_boottime t)
                       (ucast (tg_pid t)) (ucast (tg_tgid t)) 0 \<rparr>;
                   bytes = ds_region_end sample - ds_region_start sample;
                   q = (da_queue st) \<lparr> dq_target_to_mm_ok := dq_target_to_mm_ok (da_queue st) + 1 \<rparr>;
                   (context, q1) = parp_task_context (actives 0) (ds_timestamp_ns sample) (tg_task t) q
               in case context of
                    None \<Rightarrow> st \<lparr> da_queue := q1,
                      da_evidence := account_unresolved bytes PARP_ALIGN_UNRESOLVED (da_evidence st) \<rparr>
                  | Some c \<Rightarrow>
                      let (ambiguous, q2) = parp_shared_mm_ambiguous (\<lambda>k. actives (Suc k)) tasks
                                              (tk_mm (tg_task t)) c (ds_timestamp_ns sample) q1
                      in st \<lparr> da_queue := q2,
                           da_evidence :=
                             (if ambiguous
                              then account_unresolved bytes PARP_ALIGN_AMBIGUOUS (da_evidence st)
                              else parp_resolve_region envs sample mm c (da_evidence st)) \<rparr>))"

definition parp_damon_workfn ::
  "(nat \<Rightarrow> evidence_env) \<Rightarrow> (nat \<Rightarrow> parp_snapshot option) \<Rightarrow> parp_task list \<Rightarrow> parp_target option \<Rightarrow>
   parp_damon_sample \<Rightarrow> parp_damon_state \<Rightarrow> parp_damon_state" where
  "parp_damon_workfn envs actives tasks target sample st =
     damon_release (damon_work_body envs actives tasks target sample st)"

text \<open>
  The callback of the monitor. The intervals are \<open>unsigned long\<close> and capped to 32 bits.
\<close>

definition damon_sample_of :: "u64 \<Rightarrow> u64 \<Rightarrow> u64 \<Rightarrow> u64 \<Rightarrow> u32 \<Rightarrow> u32 \<Rightarrow> u64 \<Rightarrow> u64 \<Rightarrow> parp_damon_sample" where
  "damon_sample_of now_ns sequence start stop nr_accesses age sample_interval aggr_interval =
     \<lparr> ds_timestamp_ns = now_ns, ds_sample_id = sequence, ds_target_cookie = 0,
       ds_mm_cookie = 0, ds_pid = 0, ds_tgid = 0, ds_region_start = start,
       ds_region_end = stop, ds_nr_accesses = nr_accesses, ds_age = age,
       ds_sample_interval_us = ucast (min sample_interval (ucast U32_MAX)),
       ds_aggregation_interval_us = ucast (min aggr_interval (ucast U32_MAX)),
       ds_flags = 0 \<rparr>"

definition damon_next_sequence :: "parp_damon_state \<Rightarrow> u64 \<times> parp_damon_state" where
  "damon_next_sequence st =
     (let sequence = da_sequence st + 1 in (sequence, st \<lparr> da_sequence := sequence \<rparr>))"

definition damon_count_queued :: "parp_damon_stats \<Rightarrow> parp_damon_stats" where
  "damon_count_queued q = q \<lparr> dq_samples_queued := dq_samples_queued q + 1 \<rparr>"

text \<open>The result is the sample that was queued, if any.\<close>

definition parp_damon_aggregate ::
  "(nat \<Rightarrow> int) \<Rightarrow> bool \<Rightarrow> bool \<Rightarrow> u64 \<Rightarrow> u64 \<Rightarrow> u64 \<Rightarrow> u32 \<Rightarrow> u32 \<Rightarrow> u64 \<Rightarrow> u64 \<Rightarrow> parp_damon_state \<Rightarrow>
   parp_damon_sample option \<times> parp_damon_state" where
  "parp_damon_aggregate others has_pid alloc_ok now_ns start stop nr_accesses age sample_interval
     aggr_interval st =
     (if \<not> has_pid \<or> start \<ge> stop then (None, st)
      else case parp_damon_queue_reserve (da_max_pending st) others (da_queue st) of
        (False, q) \<Rightarrow> (None, st \<lparr> da_queue := q \<rparr>)
      | (True, q) \<Rightarrow>
          if \<not> alloc_ok
          then (None, st \<lparr> da_queue := damon_count_dropped (damon_depth_dec q) \<rparr>)
          else let (sequence, st1) = damon_next_sequence (st \<lparr> da_queue := q \<rparr>)
               in (Some (damon_sample_of now_ns sequence start stop nr_accesses age sample_interval
                           aggr_interval),
                   st1 \<lparr> da_queue := damon_count_queued (da_queue st1) \<rparr>))"


end
