(* ===== verification/Damon_Properties.thy ===== *)
theory Damon_Properties
  imports Damon_Adapter
begin

text \<open>
  Properties of \<open>mm/parp/adapter/damon_adapter.c\<close>: every byte of a monitored region is accounted for once,
  only unambiguous processes of a bound application contribute evidence, and the queue of samples is
  bounded.
\<close>

section \<open>Accounting\<close>

text \<open>The counters of regions recorded, regions not resolved and bytes not resolved.\<close>

definition tally :: "parp_evidence_state \<Rightarrow> u64 \<times> u64 \<times> u64" where
  "tally ev = (et_exact (ev_stats ev), et_unresolved (ev_stats ev), et_unresolved_bytes (ev_stats ev))"

lemma tally_unresolved [simp]:
  "tally (account_unresolved bytes status ev) =
     (case tally ev of (x, u, b) \<Rightarrow> (x, u + 1, b + bytes))"
  by (simp add: tally_def account_unresolved_def parp_evidence_account_unresolved_def Let_def)

lemma insert_counters:
  assumes "evidence_insert k max_domain max_total other alloc_ok ob (t, s) = (err, t', s')"
  shows "et_exact s' = et_exact s \<and> et_unresolved s' = et_unresolved s \<and>
     et_unresolved_bytes s' = et_unresolved_bytes s"
proof -
  have fold: "et_exact s2 = et_exact s1 \<and> et_unresolved s2 = et_unresolved s1 \<and>
      et_unresolved_bytes s2 = et_unresolved_bytes s1"
    if "evidence_fold k ob b s1 = (e, b', s2)" for b b' e s1 s2
    using that by (auto simp: evidence_fold_def Let_def split: if_splits)
  have slot: "et_exact s1 = et_exact s \<and> et_unresolved s1 = et_unresolved s \<and>
      et_unresolved_bytes s1 = et_unresolved_bytes s"
    if "evidence_slot k max_domain max_total nr alloc_ok ob (t0, s) = (r, t1, s1)" for nr t0 t1 r s1
    using that by (auto simp: evidence_slot_def Let_def split: option.splits if_splits prod.splits)
  show ?thesis
    using assms
    by (auto simp: evidence_insert_def Let_def dest!: slot fold split: if_splits prod.splits sum.splits)
qed

lemma publish_tally:
  "parp_publish_evidence_locked env now_ns ev = (err, ev') \<Longrightarrow> tally ev' = tally ev"
  by (auto simp: parp_publish_evidence_locked_def tally_def Let_def split: if_splits)

lemma publish_due_tally:
  "evidence_publish_due env ts (err, ev) = (r, ev') \<Longrightarrow> tally ev' = tally ev"
  using publish_tally by (auto simp: evidence_publish_due_def split: option.splits if_splits)

lemma update_file_tally: "tally (snd (parp_evidence_update_file env ob ev)) = tally ev"
proof -
  obtain err t s where ins: "evidence_insert file_kind (ev_max_file ev) (ev_max_total ev)
      (word_of_nat (length (bt_builders (ev_anons ev)))) (ee_grow_ok env) ob (ev_files ev, ev_stats ev) = (err, t, s)"
    using prod_cases3 by blast
  have "tally (ev \<lparr> ev_files := t, ev_stats := s \<rparr>) = tally ev"
    using insert_counters [OF ins] by (simp add: tally_def)
  then show ?thesis
    using publish_due_tally by (simp add: parp_evidence_update_file_def ins) (metis prod.collapse)
qed

lemma update_anon_tally: "tally (snd (parp_evidence_update_anon env ob ev)) = tally ev"
proof -
  obtain err t s where ins: "evidence_insert anon_kind (ev_max_anon ev) (ev_max_total ev)
      (word_of_nat (length (bt_builders (ev_files ev)))) (ee_grow_ok env) ob (ev_anons ev, ev_stats ev) = (err, t, s)"
    using prod_cases3 by blast
  have "tally (ev \<lparr> ev_anons := t, ev_stats := s \<rparr>) = tally ev"
    using insert_counters [OF ins] by (simp add: tally_def)
  then show ?thesis
    using publish_due_tally by (simp add: parp_evidence_update_anon_def ins) (metis prod.collapse)
qed

text \<open>One segment: recorded, or not resolved with its bytes.\<close>

definition tally_step :: "u64 \<times> u64 \<Rightarrow> bool \<Rightarrow> u64 \<times> u64 \<times> u64 \<Rightarrow> u64 \<times> u64 \<times> u64" where
  "tally_step seg recorded n =
     (case n of (x, u, b) \<Rightarrow> if recorded then (x + 1, u, b) else (x, u + 1, b + (snd seg - fst seg)))"

text \<open>An observation of the sample, cut to a segment, stands in one of the tables.\<close>

definition in_tables :: "parp_damon_sample \<Rightarrow> u64 \<times> u64 \<Rightarrow> parp_evidence_state \<Rightarrow> bool" where
  "in_tables sample seg ev \<longleftrightarrow>
     (\<exists>b \<in> set (bt_builders (ev_files ev)). \<exists>ob. bl_observation b = Some ob \<and>
        fo_sample ob = sample \<lparr> ds_region_start := fst seg, ds_region_end := snd seg \<rparr>) \<or>
     (\<exists>b \<in> set (bt_builders (ev_anons ev)). \<exists>ob. bl_observation b = Some ob \<and>
        ao_sample ob = sample \<lparr> ds_region_start := fst seg, ds_region_end := snd seg \<rparr>)"

text \<open>
  What is tried for a segment: nothing for a hole, for a mapping of neither a file nor anonymous memory and
  for a range without an observation, else an update of a table, with its result.
\<close>

definition segment_update ::
  "evidence_env \<Rightarrow> parp_damon_sample \<Rightarrow> parp_mm \<Rightarrow> parp_app_context \<Rightarrow> u64 \<times> u64 \<Rightarrow>
   parp_evidence_state \<Rightarrow> (errno option \<times> parp_evidence_state) option" where
  "segment_update env sample mm ctx seg ev =
     (case mm_find_vma mm (fst seg) of
        None \<Rightarrow> None
      | Some v \<Rightarrow>
          if fst seg < va_start v then None
          else case va_file v of
            Some inode \<Rightarrow> map_option (\<lambda>ob. parp_evidence_update_file env ob ev)
              (file_observation sample ctx v inode (fst seg) (snd seg))
          | None \<Rightarrow>
              if va_anonymous v then map_option (\<lambda>ob. parp_evidence_update_anon env ob ev)
                (anon_observation sample ctx mm v (fst seg) (snd seg))
              else None)"

text \<open>
  How a segment must be counted, given what was tried: as recorded exactly when the update succeeded (and
  then its observation is in the tables), else as not resolved with its bytes.
\<close>

definition segment_counted ::
  "parp_damon_sample \<Rightarrow> bool \<Rightarrow> u64 \<times> u64 \<Rightarrow> (errno option \<times> parp_evidence_state) option \<Rightarrow>
   parp_evidence_state \<Rightarrow> parp_evidence_state \<Rightarrow> bool" where
  "segment_counted sample ok seg tried ev ev' \<longleftrightarrow>
     (case tried of
        None \<Rightarrow> \<not> ok \<and> (\<exists>status. ev' = account_unresolved (snd seg - fst seg) status ev)
      | Some (None, ev1) \<Rightarrow> ok \<and> in_tables sample seg ev' \<and>
          ev' = ev1 \<lparr> ev_stats := (ev_stats ev1) \<lparr> et_exact := et_exact (ev_stats ev1) + 1 \<rparr> \<rparr>
      | Some (Some e, ev1) \<Rightarrow> \<not> ok \<and> (\<exists>status. ev' = account_unresolved (snd seg - fst seg) status ev1))"

text \<open>The segments in a row, with \<open>n\<close> splits left; nothing is tried for what is left after the last one.\<close>

fun segments_counted ::
  "(nat \<Rightarrow> evidence_env) \<Rightarrow> parp_damon_sample \<Rightarrow> parp_mm \<Rightarrow> parp_app_context \<Rightarrow> nat \<Rightarrow>
   (u64 \<times> u64) list \<Rightarrow> bool list \<Rightarrow> parp_evidence_state \<Rightarrow> parp_evidence_state \<Rightarrow> bool" where
  "segments_counted envs sample mm ctx n (seg # segs) (ok # oks) ev ev' \<longleftrightarrow>
     (\<exists>ev1. segment_counted sample ok seg
        (if n = 0 then None else segment_update (envs (n - 1)) sample mm ctx seg ev) ev ev1 \<and>
      segments_counted envs sample mm ctx (n - 1) segs oks ev1 ev')"
| "segments_counted envs sample mm ctx n [] [] ev ev' \<longleftrightarrow> ev' = ev"
| "segments_counted envs sample mm ctx n _ _ ev ev' \<longleftrightarrow> False"

lemma insert_by_member:
  "insert_by k max_domain max_total nr ob t t' None way \<Longrightarrow> \<exists>b \<in> set (bt_builders t'). bl_observation b = Some ob"
proof -
  assume by_way: "insert_by k max_domain max_total nr ob t t' None way"
  have new: "bl_observation (folded k ob b) = Some ob" for b by (simp add: folded_def Let_def)
  show ?thesis
  proof (cases way)
    case Refused
    then show ?thesis using by_way by (simp add: insert_by_def)
  next
    case (Updated i)
    then have "folded k ob (bt_builders t ! i) \<in> set (bt_builders t')"
      using by_way set_update_memI [of i "bt_builders t"] by (simp add: insert_by_def)
    then show ?thesis using new by blast
  next
    case (Evicted i)
    then have "i < length (bt_builders t)" using by_way parp_victim_Some [of k ob _ t i] by (auto simp: insert_by_def)
    then have "folded k ob (fresh_builder k ob) \<in> set (bt_builders t')"
      using Evicted by_way set_update_memI [of i "bt_builders t"] by (simp add: insert_by_def)
    then show ?thesis using new by blast
  next
    case Added
    then have "folded k ob (fresh_builder k ob) \<in> set (bt_builders t')" using by_way by (simp add: insert_by_def)
    then show ?thesis using new by blast
  qed
qed

lemma publish_due_success:
  "evidence_publish_due env ts (err, ev) = (None, ev') \<Longrightarrow>
   err = None \<and> ev_files ev' = ev_files ev \<and> ev_anons ev' = ev_anons ev"
  using publish_due_tables [of env ts err ev None ev'] by (auto simp: evidence_publish_due_def split: option.splits)

lemma update_file_member:
  assumes "parp_evidence_update_file env ob ev = (None, ev')"
  shows "\<exists>b \<in> set (bt_builders (ev_files ev')). bl_observation b = Some ob"
proof -
  obtain err t s where ins: "evidence_insert file_kind (ev_max_file ev) (ev_max_total ev)
      (word_of_nat (length (bt_builders (ev_anons ev)))) (ee_grow_ok env) ob (ev_files ev, ev_stats ev) = (err, t, s)"
    using prod_cases3 by blast
  have valid: "parp_sample_valid (ek_sample file_kind ob)"
    and due: "evidence_publish_due env (ds_timestamp_ns (fo_sample ob))
      (err, ev \<lparr> ev_files := t, ev_stats := s \<rparr>) = (None, ev')"
    using assms by (auto simp: parp_evidence_update_file_def ins split: if_splits) (simp add: file_kind_def)
  then show ?thesis
    using publish_due_success [OF due] evidence_insert_by [OF ins valid] insert_by_member by fastforce
qed

lemma update_anon_member:
  assumes "parp_evidence_update_anon env ob ev = (None, ev')"
  shows "\<exists>b \<in> set (bt_builders (ev_anons ev')). bl_observation b = Some ob"
proof -
  obtain err t s where ins: "evidence_insert anon_kind (ev_max_anon ev) (ev_max_total ev)
      (word_of_nat (length (bt_builders (ev_files ev)))) (ee_grow_ok env) ob (ev_anons ev, ev_stats ev) = (err, t, s)"
    using prod_cases3 by blast
  have valid: "parp_sample_valid (ek_sample anon_kind ob)"
    and due: "evidence_publish_due env (ds_timestamp_ns (ao_sample ob))
      (err, ev \<lparr> ev_anons := t, ev_stats := s \<rparr>) = (None, ev')"
    using assms by (auto simp: parp_evidence_update_anon_def ins split: if_splits) (simp add: anon_kind_def)
  then show ?thesis
    using publish_due_success [OF due] evidence_insert_by [OF ins valid] insert_by_member by fastforce
qed

lemma recorded_counted:
  assumes "fst r = None \<Longrightarrow> in_tables sample seg (snd r)"
  shows "segment_counted sample (fst r = None) seg (Some r) ev (account_recorded (snd seg - fst seg) split r)"
  using assms
  by (cases r; cases "fst r") (auto simp: segment_counted_def account_recorded_def in_tables_def)

lemma unresolved_counted: "segment_counted sample False seg None ev (account_unresolved (snd seg - fst seg) status ev)"
  by (auto simp: segment_counted_def)

lemma record_file_counted:
  "\<exists>ok. segment_counted sample ok seg
     (map_option (\<lambda>ob. parp_evidence_update_file env ob ev) (file_observation sample ctx vma inode (fst seg) (snd seg)))
     ev (parp_record_file env sample ctx vma inode (fst seg) (snd seg) split ev)"
proof (cases "file_observation sample ctx vma inode (fst seg) (snd seg)")
  case None
  then show ?thesis
    using unresolved_counted [of sample seg ev PARP_ALIGN_UNRESOLVED] by (auto simp: parp_record_file_def)
next
  case (Some ob)
  then have ob: "fo_sample ob = sample \<lparr> ds_region_start := fst seg, ds_region_end := snd seg \<rparr>"
    by (auto simp: file_observation_def Let_def split: option.splits prod.splits)
  have "in_tables sample seg (snd (parp_evidence_update_file env ob ev))"
    if "fst (parp_evidence_update_file env ob ev) = None"
    using update_file_member [of env ob ev] that ob by (metis in_tables_def prod.collapse)
  from recorded_counted [OF this] show ?thesis unfolding parp_record_file_def Some by auto
qed

lemma record_anon_counted:
  "\<exists>ok. segment_counted sample ok seg
     (map_option (\<lambda>ob. parp_evidence_update_anon env ob ev) (anon_observation sample ctx mm vma (fst seg) (snd seg)))
     ev (parp_record_anon env sample ctx mm vma (fst seg) (snd seg) split ev)"
proof (cases "anon_observation sample ctx mm vma (fst seg) (snd seg)")
  case None
  then show ?thesis
    using unresolved_counted [of sample seg ev PARP_ALIGN_UNRESOLVED] by (auto simp: parp_record_anon_def)
next
  case (Some ob)
  then have ob: "ao_sample ob = sample \<lparr> ds_region_start := fst seg, ds_region_end := snd seg \<rparr>"
    by (auto simp: anon_observation_def Let_def split: option.splits prod.splits)
  have "in_tables sample seg (snd (parp_evidence_update_anon env ob ev))"
    if "fst (parp_evidence_update_anon env ob ev) = None"
    using update_anon_member [of env ob ev] that ob by (metis in_tables_def prod.collapse)
  from recorded_counted [OF this] show ?thesis unfolding parp_record_anon_def Some by auto
qed

lemma segment_update_tally: "segment_update env sample mm ctx seg ev = Some (e, ev1) \<Longrightarrow> tally ev1 = tally ev"
  using update_file_tally [of env _ ev] update_anon_tally [of env _ ev]
  by (auto simp: segment_update_def split: option.splits if_splits dest!: arg_cong [of _ _ snd])

lemma counted_tally:
  assumes "segment_counted sample ok seg tried ev ev'"
    and "\<And>e ev1. tried = Some (e, ev1) \<Longrightarrow> tally ev1 = tally ev"
  shows "tally ev' = tally_step seg ok (tally ev)"
proof (cases tried)
  case None
  then show ?thesis using assms(1) by (auto simp: segment_counted_def tally_step_def split: prod.splits)
next
  case (Some r)
  obtain e ev1 where r: "r = (e, ev1)" by fastforce
  have t: "tally ev1 = tally ev" using assms(2) Some r by simp
  show ?thesis
  proof (cases e)
    case None
    then have "tally ev' = (case tally ev1 of (x, u, b) \<Rightarrow> (x + 1, u, b))" "ok"
      using assms(1) Some r by (auto simp: segment_counted_def tally_def)
    then show ?thesis using t by (simp add: tally_step_def)
  next
    case e: (Some e')
    then show ?thesis
      using assms(1) Some r t by (auto simp: segment_counted_def tally_step_def split: prod.splits)
  qed
qed

lemma segments_counted_tally:
  "segments_counted envs sample mm ctx n segs oks ev ev' \<Longrightarrow>
   tally ev' = fold (\<lambda>(seg, b). tally_step seg b) (zip segs oks) (tally ev)"
proof (induction envs sample mm ctx n segs oks ev ev' rule: segments_counted.induct)
  case (1 envs sample mm ctx n seg segs ok oks ev ev')
  then obtain ev1 where step: "segment_counted sample ok seg
      (if n = 0 then None else segment_update (envs (n - 1)) sample mm ctx seg ev) ev ev1"
    and rest: "segments_counted envs sample mm ctx (n - 1) segs oks ev1 ev'" by auto
  have "tally ev1 = tally_step seg ok (tally ev)"
    by (rule counted_tally [OF step]) (auto dest: segment_update_tally split: if_splits)
  then show ?case using "1.IH" [OF rest] by simp
qed auto

section \<open>The segments of a region\<close>

text \<open>The cuts: at the ends of mappings and holes, the remainder in one piece after the last split.\<close>

fun region_segments :: "parp_mm \<Rightarrow> u64 \<Rightarrow> nat \<Rightarrow> u64 \<Rightarrow> (u64 \<times> u64) list" where
  "region_segments mm stop 0 cursor = (if cursor < stop then [(cursor, stop)] else [])"
| "region_segments mm stop (Suc n) cursor =
     (if \<not> cursor < stop then []
      else case mm_find_vma mm cursor of
        None \<Rightarrow> [(cursor, stop)]
      | Some vma \<Rightarrow>
          let segment_end = min stop (if cursor < va_start vma then va_start vma else va_end vma)
          in (cursor, segment_end) # region_segments mm stop n segment_end)"

text \<open>What \<open>find_vma\<close> promises: the first mapping that ends above the address.\<close>

definition find_vma_contract :: "parp_mm \<Rightarrow> bool" where
  "find_vma_contract mm \<longleftrightarrow> (\<forall>a v. mm_find_vma mm a = Some v \<longrightarrow> a < va_end v \<and> va_start v < va_end v)"

text \<open>A segment inside one mapping of a file or of anonymous memory.\<close>

definition mapped :: "parp_mm \<Rightarrow> u64 \<times> u64 \<Rightarrow> bool" where
  "mapped mm seg = (case mm_find_vma mm (fst seg) of
     None \<Rightarrow> False
   | Some v \<Rightarrow> va_start v \<le> fst seg \<and> snd seg \<le> va_end v \<and> (va_file v \<noteq> None \<or> va_anonymous v))"

lemma region_segments_tile:
  assumes "find_vma_contract mm"
  shows "cursor \<le> stop \<Longrightarrow> segments_from (region_segments mm stop n cursor) cursor = Some stop"
proof (induction n arbitrary: cursor)
  case (Suc n)
  show ?case
  proof (cases "cursor < stop")
    case True
    show ?thesis
    proof (cases "mm_find_vma mm cursor")
      case (Some v)
      let ?e = "min stop (if cursor < va_start v then va_start v else va_end v)"
      have "cursor < ?e" using True assms Some by (auto simp: find_vma_contract_def)
      then show ?thesis using True Some Suc.IH [of ?e] by (auto simp: Let_def min_le_iff_disj)
    qed (use True in simp)
  qed (use Suc.prems in simp)
qed simp

lemma length_region_segments: "length (region_segments mm stop n cursor) \<le> Suc n"
  by (induction n arbitrary: cursor) (auto simp: Let_def split: option.split)

lemma resolve_segments_counted:
  assumes "resolve_segments envs sample mm ctx start stop n cursor split ev = (c, ev1)"
    and "find_vma_contract mm"
  shows "\<exists>oks. list_all2 (\<lambda>seg b. b \<longrightarrow> mapped mm seg) (region_segments mm stop n cursor) oks \<and>
     segments_counted envs sample mm ctx n (region_segments mm stop n cursor) oks ev
       (if c < stop then account_unresolved (stop - c) PARP_ALIGN_PARTIAL ev1 else ev1)"
  using assms(1)
proof (induction n arbitrary: cursor split ev)
  case 0
  then show ?case
    using unresolved_counted [of sample "(cursor, stop)" ev PARP_ALIGN_PARTIAL]
    by (cases "cursor < stop") (auto intro!: exI [of _ "[False]"])
next
  case (Suc n)
  have last: "region_segments mm stop n stop = []" by (cases n) simp_all
  show ?case
  proof (cases "cursor < stop")
    case False
    then show ?thesis using Suc.prems by simp
  next
    case True
    show ?thesis
    proof (cases "mm_find_vma mm cursor")
      case None
      then have "segment_update (envs n) sample mm ctx (cursor, stop) ev = None" by (simp add: segment_update_def)
      then show ?thesis
        using Suc.prems True None unresolved_counted [of sample "(cursor, stop)" ev PARP_ALIGN_UNRESOLVED]
        by (intro exI [of _ "[False]"]) auto
    next
      case (Some v)
      let ?e = "min stop (if cursor < va_start v then va_start v else va_end v)"
      let ?tried = "segment_update (envs n) sample mm ctx (cursor, ?e) ev"
      have segs: "region_segments mm stop (Suc n) cursor = (cursor, ?e) # region_segments mm stop n ?e"
        using True Some by (simp add: Let_def)
      obtain split2 ev2 b where step: "resolve_segments envs sample mm ctx start stop n ?e split2 ev2 = (c, ev1)"
        "segment_counted sample b (cursor, ?e) ?tried ev ev2" "b \<longrightarrow> mapped mm (cursor, ?e)"
      proof (cases "cursor < va_start v")
        case True
        then have "resolve_segments envs sample mm ctx start stop n ?e True
            (account_unresolved (?e - cursor) PARP_ALIGN_UNRESOLVED ev) = (c, ev1)"
          using Suc.prems \<open>cursor < stop\<close> Some by (simp add: Let_def)
        moreover have "?tried = None" using True Some by (simp add: segment_update_def)
        ultimately show ?thesis
          using that [of True _ False] unresolved_counted [of sample "(cursor, ?e)" ev PARP_ALIGN_UNRESOLVED] by simp
      next
        case False
        let ?split = "split \<or> cursor \<noteq> start \<or> ?e \<noteq> stop"
        let ?ev2 = "case va_file v of
            Some inode \<Rightarrow> parp_record_file (envs n) sample ctx v inode cursor ?e ?split ev
          | None \<Rightarrow> if va_anonymous v then parp_record_anon (envs n) sample ctx mm v cursor ?e ?split ev
                   else account_unresolved (?e - cursor) PARP_ALIGN_UNRESOLVED ev"
        have run: "resolve_segments envs sample mm ctx start stop n ?e ?split ?ev2 = (c, ev1)"
          using Suc.prems True Some False
          by (cases "va_file v"; cases "va_anonymous v") (simp_all add: Let_def)
        have whole: "mapped mm (cursor, ?e) \<longleftrightarrow> va_file v \<noteq> None \<or> va_anonymous v"
          using Some False by (auto simp: mapped_def)
        have tried: "?tried = (case va_file v of
            Some inode \<Rightarrow> map_option (\<lambda>ob. parp_evidence_update_file (envs n) ob ev)
              (file_observation sample ctx v inode cursor ?e)
          | None \<Rightarrow> if va_anonymous v then map_option (\<lambda>ob. parp_evidence_update_anon (envs n) ob ev)
              (anon_observation sample ctx mm v cursor ?e) else None)"
          using Some False by (simp add: segment_update_def split: option.split)
        have "\<exists>b. segment_counted sample b (cursor, ?e) ?tried ev ?ev2 \<and> (b \<longrightarrow> mapped mm (cursor, ?e))"
          using record_file_counted [of sample "(cursor, ?e)" "envs n" ev ctx v "the (va_file v)" ?split]
            record_anon_counted [of sample "(cursor, ?e)" "envs n" ev ctx mm v ?split]
            unresolved_counted [of sample "(cursor, ?e)" ev PARP_ALIGN_UNRESOLVED]
          unfolding tried whole by (cases "va_file v"; cases "va_anonymous v") auto
        then show ?thesis using that run by blast
      qed
      obtain oks where oks: "list_all2 (\<lambda>seg b. b \<longrightarrow> mapped mm seg) (region_segments mm stop n ?e) oks"
        "segments_counted envs sample mm ctx n (region_segments mm stop n ?e) oks ev2
           (if c < stop then account_unresolved (stop - c) PARP_ALIGN_PARTIAL ev1 else ev1)"
        using Suc.IH [OF step(1)] by blast
      show ?thesis
        unfolding segs using oks step(2,3) by (intro exI [of _ "b # oks"]) auto
    qed
  qed
qed

text \<open>The counters after a list of segments, in closed form.\<close>

definition bytes_where :: "(bool \<Rightarrow> bool) \<Rightarrow> ((u64 \<times> u64) \<times> bool) list \<Rightarrow> u64" where
  "bytes_where P xs = (\<Sum>(seg, b)\<leftarrow>xs. if P b then snd seg - fst seg else 0)"

lemma fold_tally:
  "fold (\<lambda>(seg, b). tally_step seg b) xs (x, u, bytes) =
     (x + word_of_nat (length (filter (\<lambda>(seg, b). b) xs)),
      u + word_of_nat (length (filter (\<lambda>(seg, b). \<not> b) xs)), bytes + bytes_where Not xs)"
  by (induction xs arbitrary: x u bytes) (auto simp: tally_step_def bytes_where_def)

lemma bytes_where_split: "bytes_where (\<lambda>b. b) xs + bytes_where Not xs = (\<Sum>(seg, b)\<leftarrow>xs. snd seg - fst seg)"
  by (induction xs) (auto simp: bytes_where_def algebra_simps)

lemma tiles_sum:
  "segments_from segs cursor = Some stop \<Longrightarrow> (\<Sum>(s, e)\<leftarrow>segs. e - s) = stop - cursor"
  by (induction segs cursor rule: segments_from.induct) (auto split: if_splits)

lemma sum_zip_fst:
  "length ok = length segs \<Longrightarrow> (\<Sum>(seg, b)\<leftarrow>zip segs ok. snd seg - fst seg :: u64) = (\<Sum>(s, e)\<leftarrow>segs. e - s)"
  by (induction segs arbitrary: ok) (auto simp: length_Suc_conv split: prod.split)

lemma parp_align_interval_some: "parp_align_interval a b p = Some (s, e) \<Longrightarrow> s < e"
  by (auto simp: parp_align_interval_def Let_def split: if_splits option.splits)

text \<open>C17. Every byte of a monitored region is accounted for exactly once. If \<open>find_vma\<close> keeps its promise, the
  cuts tile the aligned region without gap or overlap (in the sense of the code's own
  \<open>parp_segments_conserve\<close>), in at most 65 pieces. Each piece is counted in one of two ways, in the order of
  the pieces: as recorded, exactly when the update of a table tried for it returned success, and then the
  sample cut to the piece is in the tables and the piece lies inside one mapping of a file or of anonymous
  memory; or as not resolved, with its bytes, when nothing was tried for it or the update returned an
  error. (An update whose error is that of the publication after it has put the sample in the table; its
  piece counts as not resolved all the same.) The bytes of the recorded pieces and the bytes newly counted
  as not resolved add up to the region.\<close>

theorem parp_resolve_region_accounts:
  fixes envs sample mm ctx ev start stop
  defines "segs \<equiv> region_segments mm stop PARP_MAX_SPLITS_PER_DAMON_REGION start"
    and "ev' \<equiv> parp_resolve_region envs sample mm ctx ev"
  assumes "find_vma_contract mm"
    and "parp_align_interval (ds_region_start sample) (ds_region_end sample) PAGE_SIZE = Some (start, stop)"
  shows "parp_segments_conserve segs start stop \<and> length segs \<le> 65 \<and>
     (\<exists>ok. segments_counted envs sample mm ctx PARP_MAX_SPLITS_PER_DAMON_REGION segs ok ev ev' \<and>
        list_all2 (\<lambda>seg b. b \<longrightarrow> mapped mm seg) segs ok \<and>
        et_exact (ev_stats ev') = et_exact (ev_stats ev) + word_of_nat (length (filter id ok)) \<and>
        et_unresolved (ev_stats ev') = et_unresolved (ev_stats ev) + word_of_nat (length (filter Not ok)) \<and>
        et_unresolved_bytes (ev_stats ev') - et_unresolved_bytes (ev_stats ev) +
          bytes_where (\<lambda>b. b) (zip segs ok) = stop - start)"
proof -
  have less: "start < stop"
    using parp_align_interval_some [OF assms(4)] .
  have tile: "segments_from segs start = Some stop"
    unfolding segs_def using region_segments_tile [OF assms(3)] less by simp
  then have conserve: "parp_segments_conserve segs start stop"
    using less by (auto simp: parp_segments_conserve_def)
  obtain c ev1 where run: "resolve_segments envs sample mm ctx start stop PARP_MAX_SPLITS_PER_DAMON_REGION start
      (start \<noteq> ds_region_start sample \<or> stop \<noteq> ds_region_end sample) ev = (c, ev1)"
    by fastforce
  have ev': "ev' = (if c < stop then account_unresolved (stop - c) PARP_ALIGN_PARTIAL ev1 else ev1)"
    using run by (auto simp: ev'_def parp_resolve_region_def assms(4) Let_def)
  obtain ok where ok: "list_all2 (\<lambda>seg b. b \<longrightarrow> mapped mm seg) segs ok"
    "segments_counted envs sample mm ctx PARP_MAX_SPLITS_PER_DAMON_REGION segs ok ev ev'"
    using resolve_segments_counted [OF run assms(3)] unfolding segs_def ev' by blast
  note counts = segments_counted_tally [OF ok(2)]
  have len: "length ok = length segs" using ok(1) by (simp add: list_all2_lengthD)
  have count: "length (filter (\<lambda>(seg, b). P b) (zip segs ok)) = length (filter P ok)" for P
    using len by (induction ok arbitrary: segs) (auto simp: Suc_length_conv)
  have "et_exact (ev_stats ev') = et_exact (ev_stats ev) + word_of_nat (length (filter id ok))"
    "et_unresolved (ev_stats ev') = et_unresolved (ev_stats ev) + word_of_nat (length (filter Not ok))"
    "et_unresolved_bytes (ev_stats ev') = et_unresolved_bytes (ev_stats ev) + bytes_where Not (zip segs ok)"
    using counts count [of "\<lambda>b. b"] count [of Not] by (simp_all add: tally_def fold_tally id_def)
  moreover have "bytes_where (\<lambda>b. b) (zip segs ok) + bytes_where Not (zip segs ok) = stop - start"
    by (simp only: bytes_where_split sum_zip_fst [OF len] tiles_sum [OF tile])
  moreover have "length segs \<le> 65"
    using length_region_segments [of mm stop PARP_MAX_SPLITS_PER_DAMON_REGION start] by (simp add: segs_def)
  ultimately show ?thesis
    using conserve ok by (intro conjI exI [of _ ok]) (simp_all add: algebra_simps)
qed


text \<open>Witness of C17: an anonymous mapping of eight pages, followed by a file mapping.\<close>

definition sample_inode :: parp_inode where
  "sample_inode = \<lparr> nd_major = 8, nd_minor = 1, nd_ino = 42, nd_is_i_version = True,
     nd_iversion = 6, nd_generation = 0, nd_mode = 33188, nd_size = 1000000 \<rparr>"

definition sample_anon_vma :: parp_vma where
  "sample_anon_vma = \<lparr> va_start = 65536, va_end = 81920, va_pgoff = 0, va_flags = 3, va_file = None,
     va_unlinked = False, va_shmem = False, va_anonymous = True \<rparr>"

definition sample_file_vma :: parp_vma where
  "sample_file_vma = \<lparr> va_start = 81920, va_end = 131072, va_pgoff = 16, va_flags = 1,
     va_file = Some sample_inode, va_unlinked = False, va_shmem = False, va_anonymous = False \<rparr>"

definition sample_mm :: parp_mm where
  "sample_mm = \<lparr> mm_start_stack = 0x7fff0000, mm_start_brk = 0x500000, mm_brk = 0x600000,
     mm_find_vma = (\<lambda>a. if a < 81920 then Some sample_anon_vma
                        else if a < 131072 then Some sample_file_vma else None) \<rparr>"

lemma sample_mm_contract: "find_vma_contract sample_mm"
  by (auto simp: find_vma_contract_def sample_mm_def sample_anon_vma_def sample_file_vma_def
      split: if_splits)

lemma sample_aligned:
  "parp_align_interval (ds_region_start sample_damon) (ds_region_end sample_damon) PAGE_SIZE =
     Some (65536, 98304)"
  by code_simp

theorem parp_resolve_region_accounts_witness:
  "parp_segments_conserve (region_segments sample_mm 98304 64 65536) 65536 98304 \<and>
   region_segments sample_mm 98304 64 65536 = [(65536, 81920), (81920, 98304)]"
proof -
  have rest: "region_segments mm 98304 n 98304 = []" for mm n by (cases n) simp_all
  have "region_segments sample_mm 98304 (Suc (Suc n)) 65536 = [(65536, 81920), (81920, 98304)]" for n
    by (simp add: sample_mm_def sample_anon_vma_def sample_file_vma_def rest)
  from this [of 62] have "region_segments sample_mm 98304 64 65536 = [(65536, 81920), (81920, 98304)]"
    by simp
  then show ?thesis
    using parp_resolve_region_accounts [OF sample_mm_contract sample_aligned] by simp
qed

section \<open>Shared address spaces\<close>

lemma task_context_fst: "fst (parp_task_context active now_ns task q) = fst (parp_task_context active now_ns task q')"
  by (simp add: parp_task_context_def Let_def split: option.split)

lemma shared_mm_scan_exact:
  "unat checked \<le> 256 \<Longrightarrow>
   fst (shared_mm_scan actives mm expected now_ns tasks checked q) \<longleftrightarrow>
     256 < unat checked + length (filter (\<lambda>t. tk_mm t = mm) tasks) \<or>
     (\<exists>k < length (filter (\<lambda>t. tk_mm t = mm) tasks). context_differs expected
        (fst (parp_task_context (actives k) now_ns (filter (\<lambda>t. tk_mm t = mm) tasks ! k) q0)))"
proof (induction actives mm expected now_ns tasks checked q rule: shared_mm_scan.induct)
  case (2 actives mm expected now_ns task tasks checked q)
  show ?case
  proof (cases "tk_mm task = mm")
    case False
    then show ?thesis using "2.IH"(1) "2.prems" by simp
  next
    case True
    have add: "unat (checked + 1) = unat checked + 1"
      using "2.prems" by (simp add: unat_word_ariths)
    then have over: "checked + 1 > 256 \<longleftrightarrow> 256 < unat checked + 1" by (simp add: word_less_nat_alt)
    obtain c q1 where c: "parp_task_context (actives 0) now_ns task q = (c, q1)" by fastforce
    have c0: "fst (parp_task_context (actives 0) now_ns task q0) = c"
      using task_context_fst [of "actives 0" now_ns task q0 q] c by simp
    have IH: "fst (shared_mm_scan (\<lambda>k. actives (Suc k)) mm expected now_ns tasks (checked + 1) q1) \<longleftrightarrow>
        256 < unat (checked + 1) + length (filter (\<lambda>t. tk_mm t = mm) tasks) \<or>
        (\<exists>k < length (filter (\<lambda>t. tk_mm t = mm) tasks). context_differs expected
          (fst (parp_task_context (actives (Suc k)) now_ns (filter (\<lambda>t. tk_mm t = mm) tasks ! k) q0)))"
      if "\<not> checked + 1 > 256" "\<not> context_differs expected c"
      using "2.IH"(2) [of False "checked + 1" c q1] that True c over add
      by (simp add: parp_damon_mm_task_budget_exhausted_def)
    show ?thesis
      using True IH over add c c0
      by (auto simp: parp_damon_mm_task_budget_exhausted_def Ex_less_Suc2)
  qed
qed simp

text \<open>The test for shared address spaces is exact. It answers ambiguous exactly when more than 256 threads
  use the address space, or some thread that does is in no bound domain or bound to another domain,
  application or generation than expected (in the snapshot that its lookup finds).\<close>

theorem parp_shared_mm_ambiguous_exact:
  "fst (parp_shared_mm_ambiguous actives tasks mm expected now_ns q) \<longleftrightarrow>
     256 < length (filter (\<lambda>t. tk_mm t = mm) tasks) \<or>
     (\<exists>k < length (filter (\<lambda>t. tk_mm t = mm) tasks). context_differs expected
        (fst (parp_task_context (actives k) now_ns (filter (\<lambda>t. tk_mm t = mm) tasks ! k) q)))"
  using shared_mm_scan_exact [of 0 actives mm expected now_ns tasks q q]
  by (simp add: parp_shared_mm_ambiguous_def)


section \<open>Where evidence comes from\<close>

text \<open>
  A state whose entries hold observations that were there before or were made for the application
  \<open>ctx\<close> with the timestamp \<open>ts\<close>.
\<close>

definition grown_by :: "parp_app_context \<Rightarrow> u64 \<Rightarrow> parp_evidence_state \<Rightarrow> parp_evidence_state \<Rightarrow> bool" where
  "grown_by ctx ts ev ev' \<longleftrightarrow>
     bl_observation ` set (bt_builders (ev_files ev')) \<subseteq>
       bl_observation ` set (bt_builders (ev_files ev)) \<union>
       Some ` {ob. fo_owner ob = ctx \<and> ds_timestamp_ns (fo_sample ob) = ts} \<and>
     bl_observation ` set (bt_builders (ev_anons ev')) \<subseteq>
       bl_observation ` set (bt_builders (ev_anons ev)) \<union>
       Some ` {ob. ao_owner ob = ctx \<and> ds_timestamp_ns (ao_sample ob) = ts \<and>
                   ak_domain_id (ao_key ob) = ac_domain_id ctx}"

lemma grown_by_refl [simp]: "grown_by ctx ts ev ev"
  by (simp add: grown_by_def)

lemma grown_by_trans: "grown_by ctx ts ev ev' \<Longrightarrow> grown_by ctx ts ev' ev'' \<Longrightarrow> grown_by ctx ts ev ev''"
  unfolding grown_by_def by blast

lemma grown_by_tables:
  "ev_files ev' = ev_files ev \<Longrightarrow> ev_anons ev' = ev_anons ev \<Longrightarrow> grown_by ctx ts ev ev'"
  by (simp add: grown_by_def)

lemma insert_observations:
  assumes "insert_by k max_domain max_total nr ob t t' err way" and "b \<in> set (bt_builders t')"
  shows "bl_observation b \<in> bl_observation ` set (bt_builders t) \<or> bl_observation b = Some ob"
  using assms
  by (cases way)
    (auto simp: insert_by_def dest!: set_update_subset_insert [THEN subsetD])

lemma update_file_grown:
  assumes "fo_owner ob = ctx" and "ds_timestamp_ns (fo_sample ob) = ts"
  shows "grown_by ctx ts ev (snd (parp_evidence_update_file env ob ev))"
proof (cases "parp_sample_valid (fo_sample ob) \<and> fk_nr_pages (fo_key ob) \<noteq> 0")
  case True
  obtain err t s where ins: "evidence_insert file_kind (ev_max_file ev) (ev_max_total ev)
      (word_of_nat (length (bt_builders (ev_anons ev)))) (ee_grow_ok env) ob (ev_files ev, ev_stats ev) = (err, t, s)"
    using prod_cases3 by blast
  obtain way where way: "insert_by file_kind (ev_max_file ev) (ev_max_total ev)
      (word_of_nat (length (bt_builders (ev_files ev))) + word_of_nat (length (bt_builders (ev_anons ev))))
      ob (ev_files ev) t err way"
    using evidence_insert_by [OF ins] True by (auto simp: file_kind_def)
  obtain r ev' where due: "evidence_publish_due env (ds_timestamp_ns (fo_sample ob))
      (err, ev \<lparr> ev_files := t, ev_stats := s \<rparr>) = (r, ev')" by fastforce
  have "parp_evidence_update_file env ob ev = (r, ev')"
    using True by (simp add: parp_evidence_update_file_def ins due)
  then show ?thesis
    using publish_due_tables [OF due] insert_observations [OF way] assms by (auto simp: grown_by_def)
qed (auto simp: parp_evidence_update_file_def)

lemma update_anon_grown:
  assumes "ao_owner ob = ctx" and "ds_timestamp_ns (ao_sample ob) = ts"
    and "ak_domain_id (ao_key ob) = ac_domain_id ctx"
  shows "grown_by ctx ts ev (snd (parp_evidence_update_anon env ob ev))"
proof (cases "parp_sample_valid (ao_sample ob) \<and> ak_nr_pages (ao_key ob) \<noteq> 0")
  case True
  obtain err t s where ins: "evidence_insert anon_kind (ev_max_anon ev) (ev_max_total ev)
      (word_of_nat (length (bt_builders (ev_files ev)))) (ee_grow_ok env) ob (ev_anons ev, ev_stats ev) = (err, t, s)"
    using prod_cases3 by blast
  obtain way where way: "insert_by anon_kind (ev_max_anon ev) (ev_max_total ev)
      (word_of_nat (length (bt_builders (ev_anons ev))) + word_of_nat (length (bt_builders (ev_files ev))))
      ob (ev_anons ev) t err way"
    using evidence_insert_by [OF ins] True by (auto simp: anon_kind_def)
  obtain r ev' where due: "evidence_publish_due env (ds_timestamp_ns (ao_sample ob))
      (err, ev \<lparr> ev_anons := t, ev_stats := s \<rparr>) = (r, ev')" by fastforce
  have "parp_evidence_update_anon env ob ev = (r, ev')"
    using True by (simp add: parp_evidence_update_anon_def ins due)
  then show ?thesis
    using publish_due_tables [OF due] insert_observations [OF way] assms by (auto simp: grown_by_def)
qed (auto simp: parp_evidence_update_anon_def)

lemma account_grown:
  "grown_by ctx ts ev (account_unresolved bytes status ev)"
  "grown_by ctx ts ev (snd r) \<Longrightarrow> grown_by ctx ts ev (account_recorded bytes split r)"
  by (cases r; cases "fst r"; simp add: grown_by_def account_unresolved_def account_recorded_def)+

lemma record_grown:
  "grown_by ctx (ds_timestamp_ns sample) ev (parp_record_file env sample ctx vma inode start stop split ev)"
  "grown_by ctx (ds_timestamp_ns sample) ev (parp_record_anon env sample ctx mm vma start stop split ev)"
proof -
  have "grown_by ctx (ds_timestamp_ns sample) ev (snd (parp_evidence_update_file env ob ev))"
    if "file_observation sample ctx vma inode start stop = Some ob" for ob
    using that
    by (intro update_file_grown) (auto simp: file_observation_def Let_def split: option.splits prod.splits)
  then show "grown_by ctx (ds_timestamp_ns sample) ev (parp_record_file env sample ctx vma inode start stop split ev)"
    by (auto simp: parp_record_file_def account_grown split: option.split)
  have "grown_by ctx (ds_timestamp_ns sample) ev (snd (parp_evidence_update_anon env ob ev))"
    if "anon_observation sample ctx mm vma start stop = Some ob" for ob
    using that
    by (intro update_anon_grown) (auto simp: anon_observation_def Let_def split: option.splits prod.splits)
  then show "grown_by ctx (ds_timestamp_ns sample) ev (parp_record_anon env sample ctx mm vma start stop split ev)"
    by (auto simp: parp_record_anon_def account_grown split: option.split)
qed

lemma resolve_segments_grown:
  "grown_by ctx (ds_timestamp_ns sample) ev
     (snd (resolve_segments envs sample mm ctx start stop n cursor split ev))"
proof (induction n arbitrary: cursor split ev)
  case (Suc n)
  have step: "grown_by ctx (ds_timestamp_ns sample) ev
      (snd (resolve_segments envs sample mm ctx start stop n c sp ev1))"
    if "grown_by ctx (ds_timestamp_ns sample) ev ev1" for c sp ev1
    using grown_by_trans [OF that Suc.IH] .
  show ?case
    by (auto simp: Let_def account_grown record_grown intro!: step split: option.split)
qed simp

lemma resolve_region_grown:
  "grown_by ctx (ds_timestamp_ns sample) ev (parp_resolve_region envs sample mm ctx ev)"
  using grown_by_trans [OF resolve_segments_grown account_grown(1)] resolve_segments_grown
  by (auto simp: parp_resolve_region_def account_grown Let_def split: option.split prod.split)
    (metis snd_conv)+

text \<open>C18. Evidence comes only from the unambiguous process of a bound application. Whatever a work item does,
  every entry of the tables afterwards holds an observation that was there before, or one made for the
  application that is bound to the domain of the target's task at the time of the sample (in the snapshot
  the first lookup finds), and then the target had an address space and the test for shared address
  spaces, whose lookups may each find another snapshot, did not find it ambiguous.\<close>

theorem parp_damon_evidence_attributed:
  fixes envs actives tasks target sample st
  defines "st' \<equiv> parp_damon_workfn envs actives tasks target sample st"
  shows "(ev_files (da_evidence st') = ev_files (da_evidence st) \<and>
          ev_anons (da_evidence st') = ev_anons (da_evidence st)) \<or>
     (\<exists>t mm domain_id ctx. target = Some t \<and> tg_mm t = Some mm \<and> tk_domain (tg_task t) = Some domain_id \<and>
        parp_context_lookup (actives 0) domain_id (ds_timestamp_ns sample) = Some ctx \<and>
        \<not> fst (parp_shared_mm_ambiguous (\<lambda>k. actives (Suc k)) tasks (tk_mm (tg_task t)) ctx
                (ds_timestamp_ns sample) (da_queue st)) \<and>
        grown_by ctx (ds_timestamp_ns sample) (da_evidence st) (da_evidence st'))"
proof -
  have amb: "fst (parp_shared_mm_ambiguous as tasks mm ctx ts q) =
      fst (parp_shared_mm_ambiguous as tasks mm ctx ts q')" for as mm ctx ts q q'
    unfolding parp_shared_mm_ambiguous_def
    using shared_mm_scan_exact [of 0 as mm ctx ts tasks q q] shared_mm_scan_exact [of 0 as mm ctx ts tasks q' q]
    by simp
  have tables: "ev_files (account_unresolved b s ev) = ev_files ev" "ev_anons (account_unresolved b s ev) = ev_anons ev"
    for b s ev by (simp_all add: account_unresolved_def)
  note body = st'_def parp_damon_workfn_def damon_work_body_def damon_release_def
  show ?thesis
  proof (cases target)
    case None
    then show ?thesis by (simp add: body)
  next
    case (Some t)
    show ?thesis
    proof (cases "tg_mm t")
      case None
      then show ?thesis using Some by (simp add: body)
    next
      case mm: (Some mm)
      let ?q = "(da_queue st) \<lparr> dq_target_to_mm_ok := dq_target_to_mm_ok (da_queue st) + 1 \<rparr>"
      obtain c q1 where c: "parp_task_context (actives 0) (ds_timestamp_ns sample) (tg_task t) ?q = (c, q1)"
        by fastforce
      show ?thesis
      proof (cases c)
        case None
        then show ?thesis using Some mm c by (simp add: body tables Let_def)
      next
        case ctx: (Some ctx)
        obtain a q2 where a: "parp_shared_mm_ambiguous (\<lambda>k. actives (Suc k)) tasks (tk_mm (tg_task t)) ctx
            (ds_timestamp_ns sample) q1 = (a, q2)" by fastforce
        obtain domain_id where d: "tk_domain (tg_task t) = Some domain_id"
          "parp_context_lookup (actives 0) domain_id (ds_timestamp_ns sample) = Some ctx"
          using c ctx by (auto simp: parp_task_context_def Let_def split: option.splits)
        show ?thesis
        proof (cases a)
          case True
          then show ?thesis using Some mm c ctx a by (simp add: body tables Let_def)
        next
          case False
          then have "\<not> fst (parp_shared_mm_ambiguous (\<lambda>k. actives (Suc k)) tasks (tk_mm (tg_task t)) ctx
              (ds_timestamp_ns sample) (da_queue st))"
            using amb a by (metis fst_conv)
          moreover have "grown_by ctx (ds_timestamp_ns sample) (da_evidence st) (da_evidence st')"
          proof -
            let ?s = "sample \<lparr> ds_pid := tg_pid t, ds_tgid := tg_tgid t, ds_mm_cookie := parp_session_cookie t,
                ds_target_cookie := parp_vma_signature 0 (tg_start_boottime t)
                  (ucast (tg_pid t)) (ucast (tg_tgid t)) 0 \<rparr>"
            have "da_evidence st' = parp_resolve_region envs ?s mm ctx (da_evidence st)"
              using Some mm c ctx a False by (simp add: body Let_def)
            then show ?thesis using resolve_region_grown [of ctx ?s "da_evidence st" envs mm] by simp
          qed
          ultimately show ?thesis using Some mm d by blast
        qed
      qed
    qed
  qed
qed


section \<open>The queue and its work items\<close>

lemma damon_account_ok [simp]: "evidence_ok F A T (account_unresolved bytes status ev) = evidence_ok F A T ev"
  by (simp add: account_unresolved_def)

lemma record_ok:
  assumes "evidence_ok F A T ev" and "sort_contract env" and "T < 2 ^ 32"
  shows "evidence_ok F A T (parp_record_file env sample ctx vma inode start stop split ev)"
    and "evidence_ok F A T (parp_record_anon env sample ctx mm vma start stop split ev)"
proof -
  have rec: "evidence_ok F A T (account_recorded bytes split r)" if "evidence_ok F A T (snd r)" for bytes r
    using that by (cases r; cases "fst r") (simp_all add: account_recorded_def)
  show "evidence_ok F A T (parp_record_file env sample ctx vma inode start stop split ev)"
    by (simp add: parp_record_file_def assms(1) rec update_file_ok [OF assms] split: option.split)
  show "evidence_ok F A T (parp_record_anon env sample ctx mm vma start stop split ev)"
    by (simp add: parp_record_anon_def assms(1) rec update_anon_ok [OF assms] split: option.split)
qed

lemma resolve_ok:
  assumes "\<forall>n. sort_contract (envs n)" and "T < 2 ^ 32" and "evidence_ok F A T ev"
  shows "evidence_ok F A T (parp_resolve_region envs sample mm ctx ev)"
proof -
  have "evidence_ok F A T (snd (resolve_segments envs sample mm ctx start stop n cursor split ev1))"
    if "evidence_ok F A T ev1" for start stop n cursor split ev1
    using that
  proof (induction n arbitrary: cursor split ev1)
    case (Suc n)
    then show ?case
      using record_ok [OF _ _ assms(2)] assms(1) by (simp add: Let_def split: option.split)
  qed simp
  then show ?thesis
    using assms(3) by (auto simp: parp_resolve_region_def Let_def split: option.split prod.split)
      (metis snd_conv)+
qed

text \<open>The members of the queue that a work item leaves alone until it releases its slot.\<close>

definition same_queue :: "parp_damon_stats \<Rightarrow> parp_damon_stats \<Rightarrow> bool" where
  "same_queue q q' \<longleftrightarrow> dq_queue_depth q' = dq_queue_depth q \<and>
     dq_queue_high_water q' = dq_queue_high_water q \<and> dq_samples_queued q' = dq_samples_queued q"

lemma task_context_queue: "parp_task_context active ts t q = (c, q') \<Longrightarrow> same_queue q q'"
  by (auto simp: same_queue_def parp_task_context_def Let_def split: option.splits)

lemma shared_mm_scan_queue:
  "shared_mm_scan actives m c ts tasks checked q = (a, q') \<Longrightarrow> same_queue q q'"
proof (induction actives m c ts tasks checked q rule: shared_mm_scan.induct)
  case (2 actives m c ts task tasks checked q)
  obtain cx q1 where cx: "parp_task_context (actives 0) ts task q = (cx, q1)" by fastforce
  note q1 = task_context_queue [OF cx]
  show ?case
  proof (cases "tk_mm task = m")
    case False
    then show ?thesis using "2.IH"(1) "2.prems" by simp
  next
    case True
    then consider "q' = q" | "q' = q1"
      | "shared_mm_scan (\<lambda>k. actives (Suc k)) m c ts tasks (checked + 1) q1 = (a, q')" "\<not> checked + 1 > 256"
        "\<not> context_differs c cx"
      using "2.prems" cx by (auto simp: parp_damon_mm_task_budget_exhausted_def split: if_splits)
    then show ?thesis
    proof cases
      case 3
      then have "same_queue q1 q'"
        using "2.IH"(2) [of False "checked + 1" cx q1] True cx
        by (simp add: parp_damon_mm_task_budget_exhausted_def)
      then show ?thesis using q1 by (simp add: same_queue_def)
    qed (use q1 in \<open>simp_all add: same_queue_def\<close>)
  qed
qed (simp add: same_queue_def)

lemma work_body_facts:
  fixes envs actives tasks target s st
  defines "st' \<equiv> damon_work_body envs actives tasks target s st"
  shows "same_queue (da_queue st) (da_queue st')"
    and "da_sequence st' = da_sequence st" and "da_max_pending st' = da_max_pending st"
    and "da_evidence st' = da_evidence st \<or>
      (\<exists>bytes status. da_evidence st' = account_unresolved bytes status (da_evidence st)) \<or>
      (\<exists>sample mm ctx. da_evidence st' = parp_resolve_region envs sample mm ctx (da_evidence st))"
proof -
  have "same_queue (da_queue st) (da_queue st') \<and> da_sequence st' = da_sequence st \<and>
     da_max_pending st' = da_max_pending st \<and>
     (da_evidence st' = da_evidence st \<or>
      (\<exists>bytes status. da_evidence st' = account_unresolved bytes status (da_evidence st)) \<or>
      (\<exists>sample mm ctx. da_evidence st' = parp_resolve_region envs sample mm ctx (da_evidence st)))"
  proof (cases "target = None \<or> tg_mm (the target) = None")
    case True
    then show ?thesis by (auto simp: st'_def damon_work_body_def same_queue_def split: option.splits)
  next
    case False
    then obtain t mm where t: "target = Some t" "tg_mm t = Some mm" by auto
    let ?q = "(da_queue st) \<lparr> dq_target_to_mm_ok := dq_target_to_mm_ok (da_queue st) + 1 \<rparr>"
    obtain c q1 where c: "parp_task_context (actives 0) (ds_timestamp_ns s) (tg_task t) ?q = (c, q1)"
      by fastforce
    have q1: "same_queue (da_queue st) q1" using task_context_queue [OF c] by (simp add: same_queue_def)
    show ?thesis
    proof (cases c)
      case None
      then show ?thesis using t c q1 by (auto simp: st'_def damon_work_body_def Let_def)
    next
      case ctx: (Some ctx)
      obtain a q2 where a: "parp_shared_mm_ambiguous (\<lambda>k. actives (Suc k)) tasks (tk_mm (tg_task t)) ctx
          (ds_timestamp_ns s) q1 = (a, q2)" by fastforce
      have q2: "same_queue (da_queue st) q2"
        using q1 shared_mm_scan_queue [OF a [unfolded parp_shared_mm_ambiguous_def]] by (simp add: same_queue_def)
      show ?thesis using t c ctx a q2 by (cases a) (simp_all add: st'_def damon_work_body_def Let_def, blast+)
    qed
  qed
  then show "same_queue (da_queue st) (da_queue st')" "da_sequence st' = da_sequence st"
    "da_max_pending st' = da_max_pending st"
    "da_evidence st' = da_evidence st \<or>
      (\<exists>bytes status. da_evidence st' = account_unresolved bytes status (da_evidence st)) \<or>
      (\<exists>sample mm ctx. da_evidence st' = parp_resolve_region envs sample mm ctx (da_evidence st))" by blast+
qed

text \<open>
  What is under way: a callback between its atomic operations, a queued sample, a work item before it
  gives its slot back. The integer is the depth the callback's increment returned; the code needs it up to
  the high-water mark only, here it stays with the slot.
\<close>

datatype damon_task = Damon_enter int u64 u64 | Damon_test int u64 u64 int | Damon_mark int u64 u64 int
  | Damon_alloc int u64 u64 | Damon_made int parp_damon_sample | Damon_queued int parp_damon_sample
  | Damon_release int | Damon_drop int | Damon_dropped

text \<open>
  The steps of callbacks, work items and changes of the limit, one atomic operation each (the body of a
  work item is one step). \<open>M\<close> bounds every setting of the limit.
\<close>

inductive damon_step ::
  "nat \<Rightarrow> parp_damon_state \<times> damon_task multiset \<Rightarrow> parp_damon_state \<times> damon_task multiset \<Rightarrow> bool"
  for M :: nat where
  enter: "start < stop \<Longrightarrow> damon_depth_inc (da_queue st) = (depth, q) \<Longrightarrow>
    damon_step M (st, tasks) (st \<lparr> da_queue := q \<rparr>, add_mset (Damon_enter depth start stop) tasks)"
| read_mark: "damon_step M (st, add_mset (Damon_enter depth start stop) tasks)
    (st, add_mset (Damon_test depth start stop (dq_queue_high_water (da_queue st))) tasks)"
| refuse: "depth > uint (da_max_pending st) \<Longrightarrow>
    damon_step M (st, add_mset (Damon_test depth start stop high) tasks) (st, add_mset (Damon_drop depth) tasks)"
| accept: "\<not> depth > uint (da_max_pending st) \<Longrightarrow>
    damon_step M (st, add_mset (Damon_test depth start stop high) tasks)
      (st, add_mset (Damon_mark depth start stop high) tasks)"
| mark_done: "\<not> depth > high \<Longrightarrow>
    damon_step M (st, add_mset (Damon_mark depth start stop high) tasks)
      (st, add_mset (Damon_alloc depth start stop) tasks)"
| raise_mark: "depth > high \<Longrightarrow> damon_high_water_cmpxchg high depth (da_queue st) = (previous, q) \<Longrightarrow>
    damon_step M (st, add_mset (Damon_mark depth start stop high) tasks)
      (st \<lparr> da_queue := q \<rparr>, add_mset (if previous = high then Damon_alloc depth start stop
                                   else Damon_mark depth start stop previous) tasks)"
| alloc_fails: "damon_step M (st, add_mset (Damon_alloc depth start stop) tasks)
    (st, add_mset (Damon_drop depth) tasks)"
| make: "damon_next_sequence st = (sequence, st') \<Longrightarrow>
    damon_step M (st, add_mset (Damon_alloc depth start stop) tasks)
      (st', add_mset (Damon_made depth
         (damon_sample_of now_ns sequence start stop nr age interval aggr)) tasks)"
| queue: "damon_step M (st, add_mset (Damon_made depth s) tasks)
    (st \<lparr> da_queue := damon_count_queued (da_queue st) \<rparr>, add_mset (Damon_queued depth s) tasks)"
| drop: "damon_step M (st, add_mset (Damon_drop depth) tasks)
    (st \<lparr> da_queue := damon_depth_dec (da_queue st) \<rparr>, add_mset Damon_dropped tasks)"
| count: "damon_step M (st, add_mset Damon_dropped tasks)
    (st \<lparr> da_queue := damon_count_dropped (da_queue st) \<rparr>, tasks)"
| work: "\<forall>n. sort_contract (envs n) \<Longrightarrow>
    damon_step M (st, add_mset (Damon_queued depth s) tasks)
      (damon_work_body envs actives threads target s st, add_mset (Damon_release depth) tasks)"
| release: "damon_step M (st, add_mset (Damon_release depth) tasks) (damon_release st, tasks)"
| limit: "unat m \<le> M \<Longrightarrow> damon_step M (st, tasks) (st \<lparr> da_max_pending := m \<rparr>, tasks)"

definition damon_boot :: parp_damon_state where
  "damon_boot = \<lparr> da_evidence = evidence_boot, da_queue = \<lparr> dq_samples_queued = 0,
     dq_samples_dropped = 0, dq_queue_depth = 0, dq_queue_high_water = 0, dq_target_to_mm_ok = 0,
     dq_mm_to_domain_ok = 0, dq_domain_to_bind_ok = 0 \<rparr>, da_sequence = 0, da_max_pending = 4096 \<rparr>"

inductive damon_reach :: "nat \<Rightarrow> parp_damon_state \<Rightarrow> damon_task multiset \<Rightarrow> bool" for M :: nat where
  boot: "4096 \<le> M \<Longrightarrow> damon_reach M damon_boot {#}"
| step: "damon_reach M st tasks \<Longrightarrow> damon_step M (st, tasks) (st', tasks') \<Longrightarrow> damon_reach M st' tasks'"

text \<open>The slot a task holds, and the tasks whose sample was accepted.\<close>

fun damon_slot :: "damon_task \<Rightarrow> int option" where
  "damon_slot (Damon_enter d _ _) = Some d"
| "damon_slot (Damon_test d _ _ _) = Some d"
| "damon_slot (Damon_mark d _ _ _) = Some d"
| "damon_slot (Damon_alloc d _ _) = Some d"
| "damon_slot (Damon_made d _) = Some d"
| "damon_slot (Damon_queued d _) = Some d"
| "damon_slot (Damon_release d) = Some d"
| "damon_slot (Damon_drop d) = Some d"
| "damon_slot Damon_dropped = None"

fun damon_accepted :: "damon_task \<Rightarrow> bool" where
  "damon_accepted (Damon_alloc _ _ _) = True"
| "damon_accepted (Damon_made _ _) = True"
| "damon_accepted (Damon_queued _ _) = True"
| "damon_accepted (Damon_release _) = True"
| "damon_accepted _ = False"

fun damon_uncounted :: "damon_task \<Rightarrow> bool" where
  "damon_uncounted (Damon_made _ _) = True"
| "damon_uncounted _ = False"

definition slot_le :: "nat \<Rightarrow> damon_task \<Rightarrow> bool" where
  "slot_le k t = (case damon_slot t of None \<Rightarrow> False | Some d \<Rightarrow> d \<le> int k)"

definition tasks_where :: "(damon_task \<Rightarrow> bool) \<Rightarrow> damon_task multiset \<Rightarrow> nat" where
  "tasks_where P tasks = size (filter_mset P tasks)"

abbreviation holders :: "damon_task multiset \<Rightarrow> nat" where
  "holders tasks \<equiv> tasks_where (\<lambda>t. damon_slot t \<noteq> None) tasks"

lemma tasks_where_simps [simp]:
  "tasks_where P {#} = 0"
  "tasks_where P (add_mset t tasks) = (if P t then Suc (tasks_where P tasks) else tasks_where P tasks)"
  by (simp_all add: tasks_where_def)

lemma tasks_where_mono: "(\<And>t. t \<in># tasks \<Longrightarrow> P t \<Longrightarrow> Q t) \<Longrightarrow> tasks_where P tasks \<le> tasks_where Q tasks"
  by (induction tasks) (auto simp: le_SucI)

lemma slot_le_simps [simp]:
  "damon_slot t = None \<Longrightarrow> \<not> slot_le k t" "damon_slot t = Some d \<Longrightarrow> slot_le k t \<longleftrightarrow> d \<le> int k"
  by (simp_all add: slot_le_def)

text \<open>What is known of one task, \<open>hw\<close> being the high-water mark.\<close>

fun damon_task_ok :: "nat \<Rightarrow> int \<Rightarrow> damon_task \<Rightarrow> bool" where
  "damon_task_ok M hw (Damon_enter d start stop) = (start < stop)"
| "damon_task_ok M hw (Damon_test d start stop high) = (start < stop \<and> high \<le> hw)"
| "damon_task_ok M hw (Damon_mark d start stop high) = (start < stop \<and> d \<le> int M \<and> high \<le> hw)"
| "damon_task_ok M hw (Damon_alloc d start stop) = (start < stop \<and> d \<le> hw)"
| "damon_task_ok M hw (Damon_made d s) = (ds_region_start s < ds_region_end s \<and> d \<le> hw)"
| "damon_task_ok M hw (Damon_queued d s) = (ds_region_start s < ds_region_end s \<and> d \<le> hw)"
| "damon_task_ok M hw (Damon_release d) = (d \<le> hw)"
| "damon_task_ok M hw _ = True"

lemma damon_task_ok_mono: "damon_task_ok M hw t \<Longrightarrow> hw \<le> hw' \<Longrightarrow> damon_task_ok M hw' t"
  by (cases t) auto

text \<open>
  The depth is the number of slots held, transient ones included; and of the slots held at most \<open>k\<close> were
  given out at a depth of at most \<open>k\<close>, since the increment that gave out the last of them counted all.
\<close>

definition damon_queue_ok :: "nat \<Rightarrow> parp_damon_state \<Rightarrow> damon_task multiset \<Rightarrow> bool" where
  "damon_queue_ok M st tasks \<longleftrightarrow>
     dq_queue_depth (da_queue st) = int (holders tasks) \<and> (\<forall>k. tasks_where (slot_le k) tasks \<le> k) \<and>
     0 \<le> dq_queue_high_water (da_queue st) \<and> dq_queue_high_water (da_queue st) \<le> int M \<and>
     unat (da_max_pending st) \<le> M \<and>
     da_sequence st = dq_samples_queued (da_queue st) + word_of_nat (tasks_where damon_uncounted tasks) \<and>
     (\<forall>t \<in># tasks. damon_task_ok M (dq_queue_high_water (da_queue st)) t)"

lemma damon_enter_ok:
  assumes "damon_queue_ok M st tasks" and "start < stop"
    and "damon_depth_inc (da_queue st) = (depth, q)"
  shows "damon_queue_ok M (st \<lparr> da_queue := q \<rparr>) (add_mset (Damon_enter depth start stop) tasks)"
proof -
  have d: "depth = int (holders tasks) + 1"
    and q: "q = (da_queue st) \<lparr> dq_queue_depth := depth \<rparr>"
    using assms(1,3) by (auto simp: damon_queue_ok_def damon_depth_inc_def Let_def)
  have "Suc (tasks_where (slot_le k) tasks) \<le> k" if "depth \<le> int k" for k
  proof -
    have "tasks_where (slot_le k) tasks \<le> holders tasks"
      by (rule tasks_where_mono) (auto simp: slot_le_def split: option.splits)
    then show ?thesis using that d by linarith
  qed
  then show ?thesis using assms(1,2) d by (simp add: damon_queue_ok_def q)
qed

lemma damon_step_ok:
  assumes "damon_step M (st, tasks) (st', tasks')" and ok: "damon_queue_ok M st tasks"
  shows "damon_queue_ok M st' tasks'"
  using assms(1)
proof (cases rule: damon_step.cases)
  case (enter start stop depth q)
  then show ?thesis using damon_enter_ok [OF ok] by simp
next
  case (accept depth start stop high tasks0)
  have "unat (da_max_pending st) \<le> M" using ok by (simp add: damon_queue_ok_def)
  then have "uint (da_max_pending st) \<le> int M" unfolding uint_nat by (simp only: of_nat_le_iff)
  then have "depth \<le> int M" using accept by simp
  then show ?thesis using accept ok by (simp add: damon_queue_ok_def)
next
  case (raise_mark depth high previous q start stop tasks0)
  show ?thesis
  proof (cases "previous = high")
    case True
    then have q: "q = (da_queue st) \<lparr> dq_queue_high_water := depth \<rparr>" "high = dq_queue_high_water (da_queue st)"
      using raise_mark by (auto simp: damon_high_water_cmpxchg_def Let_def)
    have le: "dq_queue_high_water (da_queue st) \<le> depth" using raise_mark q(2) by simp
    have "\<forall>t \<in># tasks0. damon_task_ok M depth t"
      using ok raise_mark damon_task_ok_mono [OF _ le] by (auto simp: damon_queue_ok_def)
    then show ?thesis using raise_mark True ok le by (simp add: damon_queue_ok_def q(1))
  next
    case False
    then have "q = da_queue st" "previous = dq_queue_high_water (da_queue st)"
      using raise_mark by (auto simp: damon_high_water_cmpxchg_def Let_def split: if_splits)
    then show ?thesis using raise_mark False ok by (simp add: damon_queue_ok_def)
  qed
next
  case (work envs depth s tasks0 actives threads target)
  note f = work_body_facts [where envs = envs and actives = actives and tasks = threads and target = target
      and s = s and st = st, unfolded same_queue_def]
  show ?thesis using work f(1-3) ok by (simp add: damon_queue_ok_def)
next
  case (drop depth tasks0)
  have "tasks_where (slot_le k) tasks0 \<le> k" for k
    using ok drop by (auto simp: damon_queue_ok_def dest: spec [of _ k] split: if_splits)
  then show ?thesis using drop ok by (simp add: damon_queue_ok_def damon_depth_dec_def)
next
  case (release depth)
  have "tasks_where (slot_le k) tasks' \<le> k" for k
    using ok release by (auto simp: damon_queue_ok_def dest: spec [of _ k] split: if_splits)
  then show ?thesis using release ok by (simp add: damon_queue_ok_def damon_release_def damon_depth_dec_def)
qed (use ok in \<open>auto simp: damon_queue_ok_def damon_next_sequence_def damon_sample_of_def
      damon_count_queued_def damon_count_dropped_def Let_def\<close>)

lemma damon_evidence_step:
  assumes "damon_step M (st, tasks) (st', tasks')" and ok: "evidence_ok F A T (da_evidence st)" and T: "T < 2 ^ 32"
  shows "evidence_ok F A T (da_evidence st')"
  using assms(1)
proof (cases rule: damon_step.cases)
  case (work envs depth s tasks0 actives threads target)
  from work_body_facts(4) [where envs = envs and actives = actives and tasks = threads and target = target
      and s = s and st = st]
  show ?thesis unfolding work(2)
  proof (elim disjE exE)
    fix sample mm ctx
    assume "da_evidence (damon_work_body envs actives threads target s st) =
        parp_resolve_region envs sample mm ctx (da_evidence st)"
    then show "evidence_ok F A T (da_evidence (damon_work_body envs actives threads target s st))"
      using resolve_ok [OF work(4) T ok] by simp
  qed (simp_all add: ok)
qed (use ok in \<open>auto simp: damon_next_sequence_def damon_release_def Let_def\<close>)

lemma damon_reach_ok:
  assumes "damon_reach M st tasks" and "4096 \<le> F" and "2048 \<le> A" and "65536 \<le> T" and T: "T < 2 ^ 32"
  shows "damon_queue_ok M st tasks \<and> evidence_ok F A T (da_evidence st)"
  using assms(1)
proof (induction rule: damon_reach.induct)
  case boot
  then show ?case using evidence_boot_ok [OF assms(2-4)] by (simp add: damon_queue_ok_def damon_boot_def)
next
  case (step st tasks st' tasks')
  then show ?case using damon_step_ok damon_evidence_step [OF _ _ T] by blast
qed

text \<open>A callback and a work item that nothing interrupts are among the steps.\<close>

lemma reach_drop:
  assumes "damon_reach M st (add_mset (Damon_drop depth) tasks)"
  shows "damon_reach M (st \<lparr> da_queue := damon_count_dropped (damon_depth_dec (da_queue st)) \<rparr>) tasks"
proof -
  note 1 = damon_reach.step [OF assms damon_step.drop]
  show ?thesis using damon_reach.step [OF 1 damon_step.count] by simp
qed

lemma reach_reserve:
  assumes reach: "damon_reach M st tasks" and others: "\<forall>k. others k \<le> dq_queue_high_water (da_queue st)"
    and "start < stop" and run: "parp_damon_queue_reserve (da_max_pending st) others (da_queue st) = (ok, q)"
  shows "if ok then \<exists>depth. damon_reach M (st \<lparr> da_queue := q \<rparr>) (add_mset (Damon_alloc depth start stop) tasks)
     else damon_reach M (st \<lparr> da_queue := q \<rparr>) tasks"
proof -
  let ?q = "da_queue st"
  let ?d = "dq_queue_depth ?q + 1" and ?hw = "dq_queue_high_water ?q"
  let ?q1 = "?q \<lparr> dq_queue_depth := ?d \<rparr>"
  have inc: "damon_depth_inc ?q = (?d, ?q1)" by (simp add: damon_depth_inc_def Let_def)
  note 1 = damon_reach.step [OF damon_reach.step [OF reach damon_step.enter [OF assms(3) inc]] damon_step.read_mark]
  have mark: "high_water_loop others 0 ?d ?hw = (if ?d > ?hw then ?d else ?hw)"
    using others [rule_format, of 0] by (subst high_water_loop.simps) (simp add: Let_def max_absorb1)
  show ?thesis
  proof (cases "?d > uint (da_max_pending st)")
    case True
    then have "damon_reach M (st \<lparr> da_queue := ?q1 \<rparr>) (add_mset (Damon_drop ?d) tasks)"
      by (intro damon_reach.step [OF 1 damon_step.refuse]) simp
    then show ?thesis
      using run True reach_drop [of M "st \<lparr> da_queue := ?q1 \<rparr>" ?d tasks]
      by (auto simp: parp_damon_queue_reserve_def inc)
  next
    case False
    then have 2: "damon_reach M (st \<lparr> da_queue := ?q1 \<rparr>) (add_mset (Damon_mark ?d start stop ?hw) tasks)"
      by (intro damon_reach.step [OF 1 [simplified] damon_step.accept]) simp
    have "ok" and q: "q = ?q1 \<lparr> dq_queue_high_water := if ?d > ?hw then ?d else ?hw \<rparr>"
      using run False mark by (auto simp: parp_damon_queue_reserve_def inc)
    have "damon_reach M (st \<lparr> da_queue := q \<rparr>) (add_mset (Damon_alloc ?d start stop) tasks)"
    proof (cases "?d > ?hw")
      case True
      have "damon_high_water_cmpxchg ?hw ?d (da_queue (st \<lparr> da_queue := ?q1 \<rparr>)) = (?hw, q)"
        using True by (simp add: damon_high_water_cmpxchg_def q)
      from damon_reach.step [OF 2 damon_step.raise_mark [OF True this]] show ?thesis by simp
    next
      case False
      have "q = ?q1" using False by (simp add: q)
      then show ?thesis using damon_reach.step [OF 2 damon_step.mark_done [OF False]] by simp
    qed
    then show ?thesis using \<open>ok\<close> by auto
  qed
qed

lemma reach_aggregate:
  assumes reach: "damon_reach M st tasks" and others: "\<forall>k. others k \<le> dq_queue_high_water (da_queue st)"
    and run: "parp_damon_aggregate others has_pid alloc_ok now_ns start stop nr age interval aggr st = (r, st')"
  shows "\<exists>depth. damon_reach M st' (case r of None \<Rightarrow> tasks | Some s \<Rightarrow> add_mset (Damon_queued depth s) tasks)"
proof (cases "\<not> has_pid \<or> start \<ge> stop")
  case True
  then show ?thesis using run reach by (auto simp: parp_damon_aggregate_def)
next
  case False
  then have less: "start < stop" by (simp add: not_le)
  obtain ok q where res: "parp_damon_queue_reserve (da_max_pending st) others (da_queue st) = (ok, q)" by fastforce
  note reserved = reach_reserve [OF reach others less res]
  show ?thesis
  proof (cases ok)
    case ok: False
    then show ?thesis using run False res reserved by (auto simp: parp_damon_aggregate_def)
  next
    case ok: True
    then obtain depth where alloc: "damon_reach M (st \<lparr> da_queue := q \<rparr>) (add_mset (Damon_alloc depth start stop) tasks)"
      using reserved by auto
    show ?thesis
    proof (cases alloc_ok)
      case True
      obtain sequence st1 where seq: "damon_next_sequence (st \<lparr> da_queue := q \<rparr>) = (sequence, st1)" by fastforce
      note 1 = damon_reach.step [OF alloc damon_step.make [OF seq, where now_ns = now_ns and nr = nr
          and age = age and interval = interval and aggr = aggr]]
      note 2 = damon_reach.step [OF 1 damon_step.queue]
      have "r = Some (damon_sample_of now_ns sequence start stop nr age interval aggr)"
        "st' = st1 \<lparr> da_queue := damon_count_queued (da_queue st1) \<rparr>"
        using run False res ok True seq by (auto simp: parp_damon_aggregate_def)
      then show ?thesis using 2 by auto
    next
      case no: False
      have "damon_reach M (st \<lparr> da_queue := q \<rparr>) (add_mset (Damon_drop depth) tasks)"
        by (rule damon_reach.step [OF alloc damon_step.alloc_fails])
      from reach_drop [OF this] show ?thesis
        using run False res ok no by (auto simp: parp_damon_aggregate_def)
    qed
  qed
qed

lemma reach_workfn:
  assumes "damon_reach M st (add_mset (Damon_queued depth s) tasks)" and "\<forall>n. sort_contract (envs n)"
  shows "damon_reach M (parp_damon_workfn envs actives threads target s st) tasks"
proof -
  note 1 = damon_reach.step [OF assms(1) damon_step.work [OF assms(2), where actives = actives
      and threads = threads and target = target]]
  show ?thesis using damon_reach.step [OF 1 damon_step.release] by (simp add: parp_damon_workfn_def)
qed

text \<open>C32. The queue of samples is bounded. The atomic operations of callbacks and work items interleave in any
  way. In every reachable state the depth counter is the number of slots held, by callbacks that will
  still be refused too (so it may exceed the limit for a moment); the samples accepted, those being queued
  or worked on included, are never more than the high-water mark, which is never above the largest limit
  ever set; the sequence numbers given out are the samples counted as queued and those about to be; every
  queued sample is a non-empty region; and the evidence tables the work items write keep their invariant.
  (The drop counter is not claimed to be exact.)\<close>

theorem parp_damon_reachable_ok:
  assumes "damon_reach M st tasks" and "4096 \<le> F" and "2048 \<le> A" and "65536 \<le> T" and "T < 2 ^ 32"
  shows "dq_queue_depth (da_queue st) = int (holders tasks) \<and>
     int (tasks_where damon_accepted tasks) \<le> dq_queue_high_water (da_queue st) \<and>
     dq_queue_high_water (da_queue st) \<le> int M \<and> unat (da_max_pending st) \<le> M \<and>
     da_sequence st = dq_samples_queued (da_queue st) + word_of_nat (tasks_where damon_uncounted tasks) \<and>
     (\<forall>depth s. Damon_queued depth s \<in># tasks \<longrightarrow> ds_region_start s < ds_region_end s) \<and>
     evidence_ok F A T (da_evidence st)"
proof -
  let ?hw = "dq_queue_high_water (da_queue st)"
  have q: "damon_queue_ok M st tasks" and ev: "evidence_ok F A T (da_evidence st)"
    using damon_reach_ok [OF assms] by blast+
  have task: "damon_task_ok M ?hw t" if "t \<in># tasks" for t using q that by (simp add: damon_queue_ok_def)
  have hw: "int (nat ?hw) = ?hw" using q by (simp add: damon_queue_ok_def)
  have "slot_le (nat ?hw) t" if "t \<in># tasks" "damon_accepted t" for t
    using task [OF that(1)] that(2) hw by (cases t) (auto simp: slot_le_def)
  then have "tasks_where damon_accepted tasks \<le> tasks_where (slot_le (nat ?hw)) tasks"
    by (intro tasks_where_mono) auto
  also have "\<dots> \<le> nat ?hw" using q by (simp add: damon_queue_ok_def)
  finally have "int (tasks_where damon_accepted tasks) \<le> ?hw" using hw by linarith
  moreover have "ds_region_start s < ds_region_end s" if "Damon_queued depth s \<in># tasks" for depth s
    using task [OF that] by simp
  ultimately show ?thesis using q ev by (auto simp: damon_queue_ok_def)
qed


text \<open>Witness of C32: one sample queued.\<close>

theorem parp_damon_reachable_ok_witness:
  "\<exists>st s depth. damon_reach 4096 st {# Damon_queued depth s #} \<and> dq_queue_depth (da_queue st) = 1 \<and>
     1 \<le> dq_queue_high_water (da_queue st)"
proof -
  have boot: "damon_reach 4096 damon_boot {#}" by (rule damon_reach.boot) simp
  obtain s st where run: "parp_damon_aggregate (\<lambda>_. 0) True True 3000 65536 98304 3 1 5000 100000 damon_boot = (Some s, st)"
    by (simp add: parp_damon_aggregate_def parp_damon_queue_reserve_def damon_depth_inc_def
        damon_next_sequence_def damon_boot_def Let_def)
  have "\<forall>k. 0 \<le> dq_queue_high_water (da_queue damon_boot)" by (simp add: damon_boot_def)
  from reach_aggregate [OF boot this run]
  obtain depth where reach: "damon_reach 4096 st {# Damon_queued depth s #}" by auto
  show ?thesis
    using reach parp_damon_reachable_ok [OF reach, of 4096 2048 65536] by fastforce
qed

end
