(* ===== verification/Domain_Mode.thy ===== *)
theory Domain_Mode
  imports Parp_Prelude
begin

text \<open>
  \<open>mm/parp/core/domain.c\<close>: the two switches of the whole policy. \<open>parp_mode\<close> turns the reclaim hooks off,
  lets them observe, or (later) apply; \<open>parp_evidence_mode\<close> decides whether a sample is only matched
  with evidence or also scored. A setter takes the integer its caller read and refuses one that names
  no mode.
\<close>

datatype parp_mode = PARP_MODE_DISABLED | PARP_MODE_OBSERVE | PARP_MODE_APPLY

datatype parp_evidence_mode = PARP_EVIDENCE_ONLY | PARP_MODEL_TEST

record parp_domain_state =
  dm_mode :: parp_mode
  dm_evidence_mode :: parp_evidence_mode

definition parp_domain_boot :: parp_domain_state where
  "parp_domain_boot = \<lparr> dm_mode = PARP_MODE_OBSERVE, dm_evidence_mode = PARP_EVIDENCE_ONLY \<rparr>"

fun domain_mode_code :: "parp_mode \<Rightarrow> int" where
  "domain_mode_code PARP_MODE_DISABLED = 0"
| "domain_mode_code PARP_MODE_OBSERVE = 1"
| "domain_mode_code PARP_MODE_APPLY = 2"

fun evidence_mode_code :: "parp_evidence_mode \<Rightarrow> int" where
  "evidence_mode_code PARP_EVIDENCE_ONLY = 0"
| "evidence_mode_code PARP_MODEL_TEST = 1"

definition domain_mode_of :: "int \<Rightarrow> parp_mode" where
  "domain_mode_of code =
     (if code = 0 then PARP_MODE_DISABLED else if code = 1 then PARP_MODE_OBSERVE else PARP_MODE_APPLY)"

definition evidence_mode_of :: "int \<Rightarrow> parp_evidence_mode" where
  "evidence_mode_of code = (if code = 0 then PARP_EVIDENCE_ONLY else PARP_MODEL_TEST)"

definition parp_get_mode :: "parp_domain_state \<Rightarrow> parp_mode" where
  "parp_get_mode st = dm_mode st"

definition parp_set_mode :: "int \<Rightarrow> parp_domain_state \<Rightarrow> errno option \<times> parp_domain_state" where
  "parp_set_mode code st =
     (if code < domain_mode_code PARP_MODE_DISABLED \<or> code > domain_mode_code PARP_MODE_APPLY
      then (Some EINVAL, st)
      else (None, st \<lparr> dm_mode := domain_mode_of code \<rparr>))"

definition parp_get_evidence_mode :: "parp_domain_state \<Rightarrow> parp_evidence_mode" where
  "parp_get_evidence_mode st = dm_evidence_mode st"

definition parp_set_evidence_mode :: "int \<Rightarrow> parp_domain_state \<Rightarrow> errno option \<times> parp_domain_state" where
  "parp_set_evidence_mode code st =
     (if code < evidence_mode_code PARP_EVIDENCE_ONLY \<or> code > evidence_mode_code PARP_MODEL_TEST
      then (Some EINVAL, st)
      else (None, st \<lparr> dm_evidence_mode := evidence_mode_of code \<rparr>))"

lemma domain_mode_inverse [simp]: "domain_mode_of (domain_mode_code m) = m"
  by (cases m) (simp_all add: domain_mode_of_def)

lemma evidence_mode_inverse [simp]: "evidence_mode_of (evidence_mode_code m) = m"
  by (cases m) (simp_all add: evidence_mode_of_def)

text \<open>Both provide the contract of a mode switch.\<close>

interpretation domain_mode: mode_switch parp_get_mode "\<lambda>m. parp_set_mode (domain_mode_code m)" "\<lambda>_. True"
  by unfold_locales (auto simp: parp_get_mode_def parp_set_mode_def split: if_splits)

interpretation evidence_mode: mode_switch parp_get_evidence_mode
  "\<lambda>m. parp_set_evidence_mode (evidence_mode_code m)" "\<lambda>_. True"
  by unfold_locales (auto simp: parp_get_evidence_mode_def parp_set_evidence_mode_def split: if_splits)

lemma set_mode_of_code:
  "parp_set_mode (domain_mode_code m) st = (None, st \<lparr> dm_mode := m \<rparr>)"
  by (cases m) (simp_all add: parp_set_mode_def domain_mode_of_def)

lemma set_mode_refused_iff:
  "fst (parp_set_mode code st) \<noteq> None \<longleftrightarrow> (\<forall>m. code \<noteq> domain_mode_code m)"
proof -
  have "(\<forall>m. code \<noteq> domain_mode_code m) \<longleftrightarrow> code \<noteq> 0 \<and> code \<noteq> 1 \<and> code \<noteq> 2"
    using domain_mode_code.simps by (metis domain_mode_code.cases)
  then show ?thesis by (auto simp: parp_set_mode_def)
qed

end
