(* ===== verification/Memcg_Bins.thy ===== *)
theory Memcg_Bins
  imports Domain_Mode Scan_Budget Watermark "HOL-Library.Multiset"
begin

text \<open>
  The order in which global reclaim visits the cgroups of a node (\<open>mm/vmscan.c\<close>, memcg LRU, and
  \<open>struct lru_gen_memcg\<close>). Every cgroup has one lruvec on the node; it stands in one of eight bins of
  the old or the young of two generations. Where native code picks the bin at random, the policy picks
  it by a score: reclaim then starts at bin 0, so it comes to a cgroup with a low score no later.

  An lruvec is named by a number; a list of the kernel is a list of such names. The clock reading, the
  random number and the snapshot in force are arguments.
\<close>

section \<open>The bin of a cgroup\<close>

abbreviation MEMCG_NR_GENS :: nat where "MEMCG_NR_GENS \<equiv> 3"
abbreviation MEMCG_NR_BINS :: nat where "MEMCG_NR_BINS \<equiv> 8"

text \<open>What is read of a cgroup.\<close>

record reclaim_memcg =
  rm_root :: bool
  rm_domain_id :: u64
  rm_tier2 :: parp_tier2_memcg

definition parp_tier2_runtime_enabled :: "parp_tier2_sysctl \<Rightarrow> bool" where
  "parp_tier2_runtime_enabled y = y_predict_enabled y"

text \<open>
  The share of the limit that is free. The divisor of \<open>mul_u64_u32_div\<close> is the limit cut to 32 bits;
  \<open>None\<close> is the divide error, of a divisor that is zero or of a quotient that does not fit in 64 bits.
\<close>

definition headroom_share :: "u64 \<Rightarrow> u64 \<Rightarrow> u32 option" where
  "headroom_share headroom limit =
     (if headroom \<ge> limit then Some (ucast PARP_Q15_ONE)
      else if \<not> mul_div_defined headroom (ucast PARP_Q15_ONE) (ucast (ucast limit :: u32)) then None
      else Some (ucast (mul_u64_u32_div headroom (ucast PARP_Q15_ONE) (ucast limit))))"

definition prior_signal :: "parp_snapshot option \<Rightarrow> u64 \<Rightarrow> u64 \<Rightarrow> u32 option" where
  "prior_signal active now_ns domain_id =
     (if domain_id \<noteq> 0
      then map_option (\<lambda>app. ucast (ac_app_prior_q15 app)) (parp_context_lookup active domain_id now_ns)
      else None)"

text \<open>The outer option is a fault, the inner one the absence of any signal.\<close>

definition bin_score :: "u32 option \<Rightarrow> u64 \<Rightarrow> u64 \<Rightarrow> u32 option option" where
  "bin_score prior limit headroom =
     (if limit \<noteq> 0 \<and> limit \<noteq> U64_MAX
      then (case headroom_share headroom limit of
              None \<Rightarrow> None
            | Some share \<Rightarrow> Some (Some (case prior of Some score \<Rightarrow> min score share | None \<Rightarrow> share)))
      else Some prior)"

definition parp_memcg_reclaim_bin ::
  "parp_tier2_sysctl \<Rightarrow> parp_domain_state \<Rightarrow> parp_snapshot option \<Rightarrow> u64 \<Rightarrow> u32 \<Rightarrow>
   reclaim_memcg option \<Rightarrow> u32 option" where
  "parp_memcg_reclaim_bin sysctl modes active now_ns random memcg =
     (case memcg of
        None \<Rightarrow> Some random
      | Some m \<Rightarrow>
          if rm_root m \<or> \<not> parp_tier2_runtime_enabled sysctl \<or> \<not> m_enabled (rm_tier2 m) \<or>
             parp_get_mode modes = PARP_MODE_DISABLED
          then Some random
          else case bin_score (prior_signal active now_ns (rm_domain_id m))
                      (m_limit_bytes (rm_tier2 m)) (m_headroom_bytes (rm_tier2 m)) of
            None \<Rightarrow> None
          | Some None \<Rightarrow> Some random
          | Some (Some score) \<Rightarrow> Some (min (drop_bit 15 (score * 8)) 7))"

section \<open>The lists of a node\<close>

datatype memcg_lru_op = MEMCG_LRU_NOP | MEMCG_LRU_HEAD | MEMCG_LRU_TAIL | MEMCG_LRU_OLD | MEMCG_LRU_YOUNG

text \<open>\<open>struct lru_gen_memcg\<close> and the members \<open>gen\<close> and \<open>seg\<close> of every \<open>lru_gen_folio\<close> of the node.\<close>

record lru_gen_memcg =
  ml_seq :: u64
  ml_nr_memcgs :: "nat \<Rightarrow> u64"
  ml_fifo :: "nat \<Rightarrow> nat \<Rightarrow> nat list"
  ml_gen :: "nat \<Rightarrow> nat"
  ml_seg :: "nat \<Rightarrow> memcg_lru_op"

definition lru_gen_init_pgdat :: lru_gen_memcg where
  "lru_gen_init_pgdat = \<lparr> ml_seq = 0, ml_nr_memcgs = (\<lambda>_. 0), ml_fifo = (\<lambda>_ _. []),
     ml_gen = (\<lambda>_. 0), ml_seg = (\<lambda>_. MEMCG_LRU_NOP) \<rparr>"

definition get_memcg_gen :: "u64 \<Rightarrow> nat" where
  "get_memcg_gen seq = unat seq mod MEMCG_NR_GENS"

text \<open>\<open>hlist_nulls_unhashed\<close>, and the list operations on the one list an lruvec stands in.\<close>

definition memcg_members :: "lru_gen_memcg \<Rightarrow> nat \<Rightarrow> nat list" where
  "memcg_members st gen = concat (map (ml_fifo st gen) [0..<MEMCG_NR_BINS])"

definition memcg_listed :: "lru_gen_memcg \<Rightarrow> nat \<Rightarrow> bool" where
  "memcg_listed st x \<longleftrightarrow> (\<exists>gen \<in> set [0..<MEMCG_NR_GENS]. x \<in> set (memcg_members st gen))"

definition fifo_del :: "nat \<Rightarrow> (nat \<Rightarrow> nat \<Rightarrow> nat list) \<Rightarrow> nat \<Rightarrow> nat \<Rightarrow> nat list" where
  "fifo_del x fifo = (\<lambda>gen bin. removeAll x (fifo gen bin))"

definition fifo_add ::
  "bool \<Rightarrow> nat \<Rightarrow> nat \<Rightarrow> nat \<Rightarrow> (nat \<Rightarrow> nat \<Rightarrow> nat list) \<Rightarrow> nat \<Rightarrow> nat \<Rightarrow> nat list" where
  "fifo_add front x gen bin fifo =
     fifo (gen := (fifo gen) (bin := if front then x # fifo gen bin else fifo gen bin @ [x]))"

text \<open>The generation counter advances when its generation has become empty.\<close>

definition memcg_advance :: "nat \<Rightarrow> lru_gen_memcg \<Rightarrow> lru_gen_memcg" where
  "memcg_advance old st =
     (if ml_nr_memcgs st old = 0 \<and> old = get_memcg_gen (ml_seq st)
      then st \<lparr> ml_seq := ml_seq st + 1 \<rparr> else st)"

definition rotate_target :: "memcg_lru_op \<Rightarrow> lru_gen_memcg \<Rightarrow> nat \<Rightarrow> nat" where
  "rotate_target op st x =
     (case op of
        MEMCG_LRU_OLD \<Rightarrow> get_memcg_gen (ml_seq st)
      | MEMCG_LRU_YOUNG \<Rightarrow> get_memcg_gen (ml_seq st + 1)
      | _ \<Rightarrow> ml_gen st x)"

definition lru_gen_rotate_memcg ::
  "nat \<Rightarrow> nat \<Rightarrow> memcg_lru_op \<Rightarrow> lru_gen_memcg \<Rightarrow> lru_gen_memcg" where
  "lru_gen_rotate_memcg bin x op st =
     (let old = ml_gen st x; new = rotate_target op st x;
          seg = (if op = MEMCG_LRU_HEAD \<or> op = MEMCG_LRU_TAIL then op else MEMCG_LRU_NOP);
          nr1 = (ml_nr_memcgs st) (old := ml_nr_memcgs st old - 1)
      in memcg_advance old (st \<lparr>
           ml_seg := (ml_seg st) (x := seg), ml_gen := (ml_gen st) (x := new),
           ml_fifo := fifo_add (op = MEMCG_LRU_HEAD \<or> op = MEMCG_LRU_OLD) x new bin
                        (fifo_del x (ml_fifo st)),
           ml_nr_memcgs := nr1 (new := nr1 new + 1) \<rparr>))"

definition lru_gen_online_memcg :: "nat \<Rightarrow> nat \<Rightarrow> lru_gen_memcg \<Rightarrow> lru_gen_memcg" where
  "lru_gen_online_memcg bin x st =
     (let gen = get_memcg_gen (ml_seq st)
      in st \<lparr> ml_gen := (ml_gen st) (x := gen), ml_fifo := fifo_add False x gen bin (ml_fifo st),
              ml_nr_memcgs := (ml_nr_memcgs st) (gen := ml_nr_memcgs st gen + 1) \<rparr>)"

definition lru_gen_offline_memcg :: "nat \<Rightarrow> nat \<Rightarrow> lru_gen_memcg \<Rightarrow> lru_gen_memcg" where
  "lru_gen_offline_memcg bin x st = lru_gen_rotate_memcg bin x MEMCG_LRU_OLD st"

definition lru_gen_release_memcg :: "nat \<Rightarrow> lru_gen_memcg \<Rightarrow> lru_gen_memcg" where
  "lru_gen_release_memcg x st =
     (if \<not> memcg_listed st x then st
      else let gen = ml_gen st x
           in memcg_advance gen (st \<lparr> ml_fifo := fifo_del x (ml_fifo st),
                ml_nr_memcgs := (ml_nr_memcgs st) (gen := ml_nr_memcgs st gen - 1) \<rparr>))"

definition lru_gen_soft_reclaim :: "nat \<Rightarrow> nat \<Rightarrow> lru_gen_memcg \<Rightarrow> lru_gen_memcg" where
  "lru_gen_soft_reclaim bin x st =
     (if ml_seg st x \<noteq> MEMCG_LRU_HEAD then lru_gen_rotate_memcg bin x MEMCG_LRU_HEAD st else st)"

section \<open>The lists as multisets\<close>

lemma members_eq:
  "memcg_members st g = ml_fifo st g 0 @ ml_fifo st g 1 @ ml_fifo st g 2 @ ml_fifo st g 3 @
     ml_fifo st g 4 @ ml_fifo st g 5 @ ml_fifo st g 6 @ ml_fifo st g 7"
proof -
  have "[0..<MEMCG_NR_BINS] = [0, 1, 2, 3, 4, 5, 6, 7]" by (simp add: upt_rec)
  then show ?thesis by (simp add: memcg_members_def)
qed

lemma bin_cases:
  "b < MEMCG_NR_BINS \<Longrightarrow> b = 0 \<or> b = 1 \<or> b = 2 \<or> b = 3 \<or> b = 4 \<or> b = 5 \<or> b = 6 \<or> b = 7"
  by auto

lemma members_del:
  assumes "ml_fifo st' = fifo_del x (ml_fifo st)"
  shows "memcg_members st' g = removeAll x (memcg_members st g)"
  by (simp add: members_eq assms fifo_del_def)

lemma members_add_other:
  assumes "ml_fifo st' = fifo_add front x gen bin (ml_fifo st)" and "g \<noteq> gen"
  shows "memcg_members st' g = memcg_members st g"
  using assms by (simp add: members_eq fifo_add_def)

lemma members_add_same:
  assumes "ml_fifo st' = fifo_add front x gen bin (ml_fifo st)" and "bin < MEMCG_NR_BINS"
  shows "mset (memcg_members st' gen) = add_mset x (mset (memcg_members st gen))"
  using bin_cases [OF assms(2)] by (elim disjE) (simp_all add: members_eq assms(1) fifo_add_def)

lemma memcg_gen_less [simp]: "get_memcg_gen s < MEMCG_NR_GENS"
  by (simp add: get_memcg_gen_def)

lemma memcg_gen_le2 [simp]: "get_memcg_gen s \<noteq> 3" "get_memcg_gen s \<le> 2"
  using memcg_gen_less [of s] by linarith+

lemma memcg_gen_next:
  assumes "unat s + 1 < 2 ^ 64"
  shows "get_memcg_gen (s + 1) = Suc (get_memcg_gen s) mod MEMCG_NR_GENS"
proof -
  have "unat (s + 1) = unat s + 1" using assms by (simp add: unat_word_ariths)
  then show ?thesis by (simp add: get_memcg_gen_def mod_Suc_eq)
qed

lemma memcg_gen_next_neq: "unat s + 1 < 2 ^ 64 \<Longrightarrow> get_memcg_gen (s + 1) \<noteq> get_memcg_gen s"
  using memcg_gen_less [of s] by (auto simp: memcg_gen_next mod_Suc)

lemma listed_iff: "memcg_listed st x \<longleftrightarrow> (\<exists>g < MEMCG_NR_GENS. x \<in> set (memcg_members st g))"
  by (auto simp: memcg_listed_def)

section \<open>The invariant\<close>

text \<open>
  Every lruvec stands in at most one list, that of its generation; the counters count; only the old and
  the young generation are populated. \<open>N\<close> bounds the cgroups and the generation counter.
\<close>

definition memcg_lists_ok :: "nat \<Rightarrow> lru_gen_memcg \<Rightarrow> bool" where
  "memcg_lists_ok N st \<longleftrightarrow>
     (\<forall>g < MEMCG_NR_GENS. distinct (memcg_members st g) \<and>
        (\<forall>x \<in> set (memcg_members st g). ml_gen st x = g) \<and>
        ml_nr_memcgs st g = word_of_nat (length (memcg_members st g)) \<and>
        (memcg_members st g = [] \<or> g = get_memcg_gen (ml_seq st) \<or> g = get_memcg_gen (ml_seq st + 1))) \<and>
     length (memcg_members st 0) + length (memcg_members st 1) + length (memcg_members st 2) \<le> N \<and>
     unat (ml_seq st) \<le> N"

definition memcg_empty :: "lru_gen_memcg \<Rightarrow> bool" where
  "memcg_empty st \<longleftrightarrow> (\<forall>g < MEMCG_NR_GENS. memcg_members st g = [])"

text \<open>Reclaim starts at the old generation, and finds a cgroup there if there is any.\<close>

definition memcg_ok :: "nat \<Rightarrow> lru_gen_memcg \<Rightarrow> bool" where
  "memcg_ok N st \<longleftrightarrow> memcg_lists_ok N st \<and>
     (memcg_members st (get_memcg_gen (ml_seq st)) = [] \<longrightarrow> memcg_empty st)"

lemma length_members_le:
  assumes "memcg_lists_ok N st" and "g < MEMCG_NR_GENS"
  shows "length (memcg_members st g) \<le> N"
proof -
  have "g = 0 \<or> g = 1 \<or> g = 2" using assms(2) by auto
  then show ?thesis using assms(1) by (auto simp: memcg_lists_ok_def)
qed

lemma nr_memcgs_zero:
  assumes "memcg_lists_ok N st" and "N + 1 < 2 ^ 64" and "g < MEMCG_NR_GENS"
  shows "ml_nr_memcgs st g = 0 \<longleftrightarrow> memcg_members st g = []"
proof -
  have "length (memcg_members st g) < 2 ^ 64"
    using length_members_le [OF assms(1,3)] assms(2) by linarith
  then have "(word_of_nat (length (memcg_members st g)) :: u64) = 0 \<longleftrightarrow> length (memcg_members st g) = 0"
    unfolding word_of_nat_eq_0_iff by (auto dest: nat_dvd_not_less)
  then show ?thesis using assms(1,3) by (simp add: memcg_lists_ok_def)
qed

lemma populated_gens:
  "memcg_lists_ok N st \<Longrightarrow> g < MEMCG_NR_GENS \<Longrightarrow> x \<in> set (memcg_members st g) \<Longrightarrow>
   g = get_memcg_gen (ml_seq st) \<or> g = get_memcg_gen (ml_seq st + 1)"
  unfolding memcg_lists_ok_def by (metis empty_iff empty_set)

lemma listed_gen:
  "memcg_lists_ok N st \<Longrightarrow> memcg_listed st x \<Longrightarrow>
   x \<in> set (memcg_members st (ml_gen st x)) \<and> ml_gen st x < MEMCG_NR_GENS"
  by (auto simp: listed_iff memcg_lists_ok_def)

lemma memcg_members_advance [simp]: "memcg_members (memcg_advance old st) g = memcg_members st g"
  by (simp add: memcg_members_def memcg_advance_def)

lemma memcg_advance_fifo [simp]:
  "ml_fifo (memcg_advance old st) = ml_fifo st" "ml_gen (memcg_advance old st) = ml_gen st"
  "ml_seg (memcg_advance old st) = ml_seg st" "ml_nr_memcgs (memcg_advance old st) = ml_nr_memcgs st"
  by (simp_all add: memcg_advance_def)

lemma advance_ok:
  assumes ok: "memcg_lists_ok N st" and N: "N + 1 < 2 ^ 64"
    and empty: "memcg_members st (get_memcg_gen (ml_seq st)) = [] \<Longrightarrow>
      old = get_memcg_gen (ml_seq st) \<or> memcg_empty st"
  shows "memcg_ok (Suc N) (memcg_advance old st)"
proof -
  let ?old = "get_memcg_gen (ml_seq st)" and ?young = "get_memcg_gen (ml_seq st + 1)"
  have seq: "unat (ml_seq st) + 1 < 2 ^ 64" using ok N by (simp add: memcg_lists_ok_def)
  have seq1: "unat (ml_seq st + 1) = unat (ml_seq st) + 1" using seq by (simp add: unat_word_ariths)
  show ?thesis
  proof (cases "ml_nr_memcgs st old = 0 \<and> old = ?old")
    case True
    then have o: "old = ?old" and z: "ml_nr_memcgs st ?old = 0" by auto
    have nil: "memcg_members st ?old = []" using nr_memcgs_zero [OF ok N, of ?old] z by simp
    have st': "memcg_advance old st = st \<lparr> ml_seq := ml_seq st + 1 \<rparr>"
      by (simp only: memcg_advance_def o z) simp
    have m: "memcg_members (st \<lparr> ml_seq := s \<rparr>) g = memcg_members st g" for s g
      by (simp add: memcg_members_def)
    have only: "memcg_members st g = [] \<or> g = ?young" if "g < MEMCG_NR_GENS" for g
      using ok that nil by (auto simp: memcg_lists_ok_def)
    have "memcg_lists_ok (Suc N) (st \<lparr> ml_seq := ml_seq st + 1 \<rparr>)"
      using ok only seq1 by (auto simp: memcg_lists_ok_def m)
    moreover have "memcg_empty st" if "memcg_members st ?young = []"
      using only that by (auto simp: memcg_empty_def)
    ultimately show ?thesis by (simp add: st' memcg_ok_def m memcg_empty_def)
  next
    case False
    then have same: "memcg_advance old st = st" by (auto simp: memcg_advance_def)
    have "memcg_members st ?old = [] \<Longrightarrow> memcg_empty st"
      using empty False nr_memcgs_zero [OF ok N memcg_gen_less [of "ml_seq st"]] by auto
    moreover have "memcg_lists_ok (Suc N) st" using ok by (auto simp: memcg_lists_ok_def)
    ultimately show ?thesis by (simp add: same memcg_ok_def)
  qed
qed

section \<open>Every operation keeps it\<close>

lemma rotate_members:
  fixes st x op bin
  defines "new \<equiv> rotate_target op st x" and "st' \<equiv> lru_gen_rotate_memcg bin x op st"
  assumes bin: "bin < MEMCG_NR_BINS"
  shows "g \<noteq> new \<Longrightarrow> memcg_members st' g = removeAll x (memcg_members st g)"
    and "mset (memcg_members st' new) = add_mset x (mset (removeAll x (memcg_members st new)))"
proof -
  let ?front = "op = MEMCG_LRU_HEAD \<or> op = MEMCG_LRU_OLD"
  define st1 where "st1 = st \<lparr> ml_fifo := fifo_del x (ml_fifo st) \<rparr>"
  define st2 where "st2 = st1 \<lparr> ml_fifo := fifo_add ?front x new bin (ml_fifo st1) \<rparr>"
  have 1: "memcg_members st1 g = removeAll x (memcg_members st g)" for g
    by (rule members_del) (simp add: st1_def)
  have 2: "memcg_members st' g = memcg_members st2 g" for g
    unfolding memcg_members_def st'_def st2_def st1_def lru_gen_rotate_memcg_def Let_def new_def
      memcg_advance_fifo by simp
  have fifo: "ml_fifo st2 = fifo_add ?front x new bin (ml_fifo st1)" by (simp add: st2_def)
  show "g \<noteq> new \<Longrightarrow> memcg_members st' g = removeAll x (memcg_members st g)"
    unfolding 2 by (subst members_add_other [OF fifo]) (simp_all add: 1)
  show "mset (memcg_members st' new) = add_mset x (mset (removeAll x (memcg_members st new)))"
    by (simp only: 2 members_add_same [OF fifo bin] 1)
qed

lemma length_removeAll_distinct:
  "distinct xs \<Longrightarrow> x \<in> set xs \<Longrightarrow> length (removeAll x xs) = length xs - 1"
  by (simp add: distinct_remove1_removeAll [symmetric] length_remove1)

lemma removeAll_other:
  assumes "memcg_lists_ok N st" and "g < MEMCG_NR_GENS" and "g \<noteq> ml_gen st x"
  shows "removeAll x (memcg_members st g) = memcg_members st g"
  using assms by (intro removeAll_id) (auto simp: memcg_lists_ok_def)

lemma mset_add_facts:
  assumes "mset ys = add_mset x (mset xs)"
  shows "set ys = insert x (set xs)" "length ys = Suc (length xs)"
    "distinct ys \<longleftrightarrow> x \<notin> set xs \<and> distinct xs"
proof -
  have m: "mset ys = mset (x # xs)" using assms by simp
  show "set ys = insert x (set xs)" using mset_eq_setD [OF m] by simp
  show "length ys = Suc (length xs)" using mset_eq_length [OF m] by simp
  show "distinct ys \<longleftrightarrow> x \<notin> set xs \<and> distinct xs" using mset_eq_imp_distinct_iff [OF m] by simp
qed

lemma word_of_nat_less_one: "0 < n \<Longrightarrow> word_of_nat n - 1 = (word_of_nat (n - 1) :: u64)"
  by (cases n) simp_all

text \<open>Taking an lruvec out of its list, and putting one into a populated generation.\<close>

lemma del_lists_ok:
  assumes ok: "memcg_lists_ok N st" and x: "memcg_listed st x"
    and m: "\<And>g. memcg_members st' g = removeAll x (memcg_members st g)"
    and nr: "ml_nr_memcgs st' = (ml_nr_memcgs st) (ml_gen st x := ml_nr_memcgs st (ml_gen st x) - 1)"
    and same: "ml_seq st' = ml_seq st" "\<And>y. y \<noteq> x \<Longrightarrow> ml_gen st' y = ml_gen st y"
  shows "memcg_lists_ok N st'" and "\<not> memcg_listed st' x"
    and "memcg_members st (ml_gen st x) \<noteq> []"
    and "length (memcg_members st' 0) + length (memcg_members st' 1) + length (memcg_members st' 2) + 1 =
         length (memcg_members st 0) + length (memcg_members st 1) + length (memcg_members st 2)"
proof -
  have at: "x \<in> set (memcg_members st (ml_gen st x))" "ml_gen st x < MEMCG_NR_GENS"
    using listed_gen [OF ok x] by auto
  have d: "distinct (memcg_members st g)" if "g < MEMCG_NR_GENS" for g
    using ok that by (simp add: memcg_lists_ok_def)
  have len: "length (memcg_members st' g) = length (memcg_members st g) - (if g = ml_gen st x then 1 else 0)"
    if "g < MEMCG_NR_GENS" for g
    using removeAll_other [OF ok that, of x] length_removeAll_distinct [OF d [OF that], of x] at(1)
    by (cases "g = ml_gen st x") (simp_all add: m)
  have pos: "0 < length (memcg_members st (ml_gen st x))" using at(1) by (cases "memcg_members st (ml_gen st x)") auto
  show ne: "memcg_members st (ml_gen st x) \<noteq> []" using at(1) by auto
  show "\<not> memcg_listed st' x" by (simp add: listed_iff m)
  have g3: "ml_gen st x = 0 \<or> ml_gen st x = 1 \<or> ml_gen st x = 2" using at(2) by auto
  show sum: "length (memcg_members st' 0) + length (memcg_members st' 1) + length (memcg_members st' 2) + 1 =
         length (memcg_members st 0) + length (memcg_members st 1) + length (memcg_members st 2)"
  proof -
    have l: "length (memcg_members st' 0) = length (memcg_members st 0) - (if 0 = ml_gen st x then 1 else 0)"
      "length (memcg_members st' 1) = length (memcg_members st 1) - (if 1 = ml_gen st x then 1 else 0)"
      "length (memcg_members st' 2) = length (memcg_members st 2) - (if 2 = ml_gen st x then 1 else 0)"
      by (rule len, simp)+
    show ?thesis using g3 pos unfolding l by (elim disjE) simp_all
  qed
  have nr': "ml_nr_memcgs st' g = word_of_nat (length (memcg_members st' g))" if g: "g < MEMCG_NR_GENS" for g
  proof -
    have "ml_nr_memcgs st g = word_of_nat (length (memcg_members st g))"
      using ok g by (simp add: memcg_lists_ok_def)
    then show ?thesis
      using pos word_of_nat_less_one [of "length (memcg_members st g)"] len [OF g]
      by (cases "g = ml_gen st x") (simp_all add: nr)
  qed
  have g: "distinct (memcg_members st' g) \<and> (\<forall>y \<in> set (memcg_members st' g). ml_gen st' y = g) \<and>
      (memcg_members st' g = [] \<or> g = get_memcg_gen (ml_seq st') \<or> g = get_memcg_gen (ml_seq st' + 1))"
    if g: "g < MEMCG_NR_GENS" for g
  proof (intro conjI)
    show "distinct (memcg_members st' g)" using d [OF g] by (simp add: m distinct_removeAll)
    show "\<forall>y \<in> set (memcg_members st' g). ml_gen st' y = g"
      using ok g by (simp add: m same(2) memcg_lists_ok_def)
    have "memcg_members st g = [] \<or> g = get_memcg_gen (ml_seq st) \<or> g = get_memcg_gen (ml_seq st + 1)"
      using ok g by (simp add: memcg_lists_ok_def)
    then show "memcg_members st' g = [] \<or> g = get_memcg_gen (ml_seq st') \<or> g = get_memcg_gen (ml_seq st' + 1)"
      unfolding m same(1) by auto
  qed
  have "length (memcg_members st' 0) + length (memcg_members st' 1) + length (memcg_members st' 2) \<le> N"
    using ok sum by (simp add: memcg_lists_ok_def)
  then show "memcg_lists_ok N st'"
    unfolding memcg_lists_ok_def using ok g nr' same(1) by (simp add: memcg_lists_ok_def)
qed

lemma add_lists_ok:
  assumes ok: "memcg_lists_ok N st" and x: "\<not> memcg_listed st x"
    and new: "new = get_memcg_gen (ml_seq st) \<or> new = get_memcg_gen (ml_seq st + 1)"
    and other: "\<And>g. g \<noteq> new \<Longrightarrow> memcg_members st' g = memcg_members st g"
    and m: "mset (memcg_members st' new) = add_mset x (mset (memcg_members st new))"
    and nr: "ml_nr_memcgs st' = (ml_nr_memcgs st) (new := ml_nr_memcgs st new + 1)"
    and same: "ml_seq st' = ml_seq st" "ml_gen st' x = new" "\<And>y. y \<noteq> x \<Longrightarrow> ml_gen st' y = ml_gen st y"
    and N: "length (memcg_members st 0) + length (memcg_members st 1) + length (memcg_members st 2) + 1 \<le> N"
  shows "memcg_lists_ok N st'"
proof -
  have n3: "new < MEMCG_NR_GENS" using new by auto
  note f = mset_add_facts [OF m]
  have out: "x \<notin> set (memcg_members st g)" if "g < MEMCG_NR_GENS" for g
    using x that by (auto simp: listed_iff)
  have g: "distinct (memcg_members st' g) \<and> (\<forall>y \<in> set (memcg_members st' g). ml_gen st' y = g) \<and>
      ml_nr_memcgs st' g = word_of_nat (length (memcg_members st' g)) \<and>
      (memcg_members st' g = [] \<or> g = get_memcg_gen (ml_seq st') \<or> g = get_memcg_gen (ml_seq st' + 1))"
    if g: "g < MEMCG_NR_GENS" for g
  proof (cases "g = new")
    case True
    have gen: "ml_gen st y = new" if "y \<in> set (memcg_members st new)" for y
      using ok n3 that by (auto simp: memcg_lists_ok_def)
    have "\<forall>y \<in> set (memcg_members st' new). ml_gen st' y = new"
      using f(1) gen same(2,3) by (metis insertE)
    moreover have "distinct (memcg_members st' new)"
      using f(3) out [OF n3] ok n3 by (simp add: memcg_lists_ok_def)
    moreover have "ml_nr_memcgs st' new = word_of_nat (length (memcg_members st' new))"
      using ok n3 by (simp add: memcg_lists_ok_def nr f(2))
    ultimately show ?thesis using True new same(1) by auto
  next
    case False
    have "y \<noteq> x" if "y \<in> set (memcg_members st g)" for y using out [OF g] that by auto
    then show ?thesis
      using ok g False same other [OF False] by (auto simp: memcg_lists_ok_def nr)
  qed
  have n012: "new = 0 \<or> new = 1 \<or> new = 2" using n3 by auto
  have "length (memcg_members st' 0) + length (memcg_members st' 1) + length (memcg_members st' 2) \<le> N"
    using n012 N f(2) other by auto
  then show ?thesis using g ok same(1) by (simp add: memcg_lists_ok_def)
qed

lemma lists_ok_mono: "memcg_lists_ok N st \<Longrightarrow> N \<le> M \<Longrightarrow> memcg_lists_ok M st"
  by (auto simp: memcg_lists_ok_def)

lemma memcg_ok_mono: "memcg_ok N st \<Longrightarrow> N \<le> M \<Longrightarrow> memcg_ok M st"
  by (auto simp: memcg_ok_def intro: lists_ok_mono)

lemma rotate_ok:
  assumes ok: "memcg_ok N st" and x: "memcg_listed st x" and bin: "bin < MEMCG_NR_BINS"
    and N: "N + 1 < 2 ^ 64"
  shows "memcg_ok (Suc N) (lru_gen_rotate_memcg bin x op st)"
proof -
  define old where "old = ml_gen st x"
  define new where "new = rotate_target op st x"
  define st1 where "st1 = st \<lparr> ml_fifo := fifo_del x (ml_fifo st),
    ml_nr_memcgs := (ml_nr_memcgs st) (old := ml_nr_memcgs st old - 1) \<rparr>"
  define st2 where "st2 = st1 \<lparr>
    ml_seg := (ml_seg st) (x := if op = MEMCG_LRU_HEAD \<or> op = MEMCG_LRU_TAIL then op else MEMCG_LRU_NOP),
    ml_gen := (ml_gen st) (x := new),
    ml_fifo := fifo_add (op = MEMCG_LRU_HEAD \<or> op = MEMCG_LRU_OLD) x new bin (ml_fifo st1),
    ml_nr_memcgs := (ml_nr_memcgs st1) (new := ml_nr_memcgs st1 new + 1) \<rparr>"
  have l: "memcg_lists_ok N st" using ok by (simp add: memcg_ok_def)
  note at = listed_gen [OF l x]
  have rot: "lru_gen_rotate_memcg bin x op st = memcg_advance old st2"
    by (simp only: lru_gen_rotate_memcg_def Let_def st2_def st1_def old_def new_def) simp
  have m1: "memcg_members st1 g = removeAll x (memcg_members st g)" for g
    by (rule members_del) (simp add: st1_def)
  note del = del_lists_ok [OF l x, of st1]
  have nr1: "ml_nr_memcgs st1 = (ml_nr_memcgs st) (ml_gen st x := ml_nr_memcgs st (ml_gen st x) - 1)"
    by (simp add: st1_def old_def)
  have seq1: "ml_seq st1 = ml_seq st" and gen1: "ml_gen st1 y = ml_gen st y" for y
    by (simp_all add: st1_def)
  note d = del [OF m1 nr1 seq1 gen1]
  have populated: "ml_gen st x = get_memcg_gen (ml_seq st) \<or> ml_gen st x = get_memcg_gen (ml_seq st + 1)"
    using populated_gens [OF l] at by blast
  have new: "new = get_memcg_gen (ml_seq st1) \<or> new = get_memcg_gen (ml_seq st1 + 1)"
    using populated by (cases op) (simp_all add: new_def rotate_target_def seq1)
  have fifo2: "ml_fifo st2 = fifo_add (op = MEMCG_LRU_HEAD \<or> op = MEMCG_LRU_OLD) x new bin (ml_fifo st1)"
    by (simp add: st2_def)
  have len: "length (memcg_members st1 0) + length (memcg_members st1 1) + length (memcg_members st1 2) + 1 \<le> N"
    using d(4) l by (simp add: memcg_lists_ok_def)
  have l2: "memcg_lists_ok N st2"
    by (rule add_lists_ok [OF d(1,2) new members_add_other [OF fifo2] members_add_same [OF fifo2 bin] _ _ _ _ len])
      (simp_all add: st2_def st1_def)
  have full: "memcg_members st (get_memcg_gen (ml_seq st)) \<noteq> []"
    using ok at by (force simp: memcg_ok_def memcg_empty_def)
  have "old = get_memcg_gen (ml_seq st)" if "memcg_members st2 (get_memcg_gen (ml_seq st)) = []"
  proof (rule ccontr)
    let ?g = "get_memcg_gen (ml_seq st)"
    assume "old \<noteq> ?g"
    then have "memcg_members st1 ?g = memcg_members st ?g"
      unfolding m1 using removeAll_other [OF l, of ?g x] by (simp add: old_def)
    then have "set (memcg_members st2 ?g) \<noteq> {}"
      using full members_add_other [OF fifo2, of ?g] mset_add_facts(1) [OF members_add_same [OF fifo2 bin]]
      by (cases "?g = new") simp_all
    then show False using that by simp
  qed
  then show ?thesis
    unfolding rot using advance_ok [OF l2 N, of old] by (simp add: st2_def st1_def)
qed

lemma online_ok:
  assumes ok: "memcg_ok N st" and x: "\<not> memcg_listed st x" and bin: "bin < MEMCG_NR_BINS"
  shows "memcg_ok (Suc N) (lru_gen_online_memcg bin x st)"
proof -
  let ?g = "get_memcg_gen (ml_seq st)"
  define st' where "st' = lru_gen_online_memcg bin x st"
  have l: "memcg_lists_ok (Suc N) st" using ok lists_ok_mono by (auto simp: memcg_ok_def)
  have fifo: "ml_fifo st' = fifo_add False x ?g bin (ml_fifo st)"
    by (simp add: st'_def lru_gen_online_memcg_def Let_def)
  note m = members_add_same [OF fifo bin]
  have len: "length (memcg_members st 0) + length (memcg_members st 1) + length (memcg_members st 2) + 1 \<le> Suc N"
    using ok by (simp add: memcg_ok_def memcg_lists_ok_def)
  have "memcg_lists_ok (Suc N) st'"
    by (rule add_lists_ok [OF l x _ members_add_other [OF fifo] m _ _ _ _ len])
      (simp_all add: st'_def lru_gen_online_memcg_def Let_def)
  moreover have "memcg_members st' (get_memcg_gen (ml_seq st')) \<noteq> []"
  proof -
    have "set (memcg_members st' ?g) \<noteq> {}" using mset_add_facts(1) [OF m] by simp
    moreover have "ml_seq st' = ml_seq st" by (simp add: st'_def lru_gen_online_memcg_def Let_def)
    ultimately show ?thesis by auto
  qed
  ultimately show ?thesis by (simp add: memcg_ok_def st'_def)
qed

lemma release_ok:
  assumes ok: "memcg_ok N st" and N: "N + 1 < 2 ^ 64"
  shows "memcg_ok (Suc N) (lru_gen_release_memcg x st)"
proof (cases "memcg_listed st x")
  case False
  then show ?thesis using memcg_ok_mono [OF ok, of "Suc N"] by (simp add: lru_gen_release_memcg_def)
next
  case True
  define old where "old = ml_gen st x"
  define st1 where "st1 = st \<lparr> ml_fifo := fifo_del x (ml_fifo st),
    ml_nr_memcgs := (ml_nr_memcgs st) (old := ml_nr_memcgs st old - 1) \<rparr>"
  have l: "memcg_lists_ok N st" using ok by (simp add: memcg_ok_def)
  note at = listed_gen [OF l True]
  have rel: "lru_gen_release_memcg x st = memcg_advance old st1"
    using True by (simp add: lru_gen_release_memcg_def Let_def st1_def old_def)
  have m1: "memcg_members st1 g = removeAll x (memcg_members st g)" for g
    by (rule members_del) (simp add: st1_def)
  have l1: "memcg_lists_ok N st1"
    by (rule del_lists_ok(1) [OF l True m1]) (simp_all add: st1_def old_def)
  have full: "memcg_members st (get_memcg_gen (ml_seq st)) \<noteq> []"
    using ok at by (force simp: memcg_ok_def memcg_empty_def)
  have "old = get_memcg_gen (ml_seq st)" if "memcg_members st1 (get_memcg_gen (ml_seq st)) = []"
  proof (rule ccontr)
    assume "old \<noteq> get_memcg_gen (ml_seq st)"
    then have "memcg_members st1 (get_memcg_gen (ml_seq st)) = memcg_members st (get_memcg_gen (ml_seq st))"
      unfolding m1 using removeAll_other [OF l memcg_gen_less, of "ml_seq st" x] by (simp add: old_def)
    then show False using that full by simp
  qed
  then show ?thesis
    unfolding rel using advance_ok [OF l1 N, of old] by (simp add: st1_def)
qed

lemma soft_reclaim_ok:
  "memcg_ok N st \<Longrightarrow> memcg_listed st x \<Longrightarrow> bin < MEMCG_NR_BINS \<Longrightarrow> N + 1 < 2 ^ 64 \<Longrightarrow>
   memcg_ok (Suc N) (lru_gen_soft_reclaim bin x st)"
  using rotate_ok memcg_ok_mono [of N st "Suc N"] by (simp add: lru_gen_soft_reclaim_def)

section \<open>The bin follows the score\<close>

definition bin_managed :: "parp_tier2_sysctl \<Rightarrow> parp_domain_state \<Rightarrow> reclaim_memcg \<Rightarrow> bool" where
  "bin_managed sysctl modes m \<longleftrightarrow>
     \<not> rm_root m \<and> parp_tier2_runtime_enabled sysctl \<and> m_enabled (rm_tier2 m) \<and>
     parp_get_mode modes \<noteq> PARP_MODE_DISABLED"

definition share_nat :: "nat \<Rightarrow> nat \<Rightarrow> nat" where
  "share_nat headroom limit = (if headroom \<ge> limit then 32767 else headroom * 32767 div limit)"

lemma share_nat_le: "share_nat h l \<le> 32767"
proof (cases "h \<ge> l")
  case False
  then have "h * 32767 div l \<le> l * 32767 div l" by (intro div_le_mono mult_le_mono1) simp
  then show ?thesis using False by (simp add: share_nat_def)
qed (simp add: share_nat_def)

lemma share_nat_mono:
  assumes "h1 * l2 \<le> h2 * l1" and "0 < l1" and "0 < l2"
  shows "share_nat h1 l1 \<le> share_nat h2 l2"
proof (cases "h2 \<ge> l2")
  case True
  then show ?thesis using share_nat_le [of h1 l1] by (simp add: share_nat_def)
next
  case False
  then have "h2 * l1 < l2 * l1" using assms(2) by simp
  with assms(1) have "h1 * l2 < l2 * l1" by (rule le_less_trans)
  then have "h1 * l2 < l1 * l2" by (simp only: mult.commute)
  have less: "h1 < l1"
  proof (rule ccontr)
    assume "\<not> h1 < l1"
    then have "l1 * l2 \<le> h1 * l2" by simp
    then show False using \<open>h1 * l2 < l1 * l2\<close> by simp
  qed
  define q where "q = h1 * 32767 div l1"
  have "q * l1 \<le> h1 * 32767" unfolding q_def by simp
  then have "q * l1 * l2 \<le> h1 * 32767 * l2" by (rule mult_le_mono1)
  also have "\<dots> = h1 * l2 * 32767" by (simp add: ac_simps)
  also have "\<dots> \<le> h2 * l1 * 32767" using assms(1) by (rule mult_le_mono1)
  finally have "(q * l2) * l1 \<le> (h2 * 32767) * l1" by (simp add: ac_simps)
  then have "q * l2 \<le> h2 * 32767" using assms(2) by simp
  then have "q \<le> h2 * 32767 div l2" using assms(3) by (simp add: less_eq_div_iff_mult_less_eq)
  then show ?thesis using less False by (simp add: share_nat_def q_def)
qed

lemma unat_headroom_share:
  assumes "0 < unat limit" and "unat limit < 2 ^ 32"
  shows "\<exists>s. headroom_share headroom limit = Some s \<and>
     unat s = share_nat (unat headroom) (unat limit)"
proof (cases "headroom \<ge> limit")
  case True
  then show ?thesis by (simp add: headroom_share_def share_nat_def word_le_nat_alt)
next
  case False
  have u: "unat (ucast limit :: u32) = unat limit"
    using assms(2) by (simp add: unsigned_ucast_eq take_bit_nat_eq_self)
  have whole: "(ucast (ucast limit :: u32) :: u64) = limit"
    by (rule word_unat_eq_iff [THEN iffD2])
      (simp add: u)
  have less: "unat headroom < unat limit" using False by (simp add: word_le_nat_alt)
  let ?q = "unat headroom * 32767 div unat limit"
  have "?q \<le> 32767" using share_nat_le [of "unat headroom" "unat limit"] less by (simp add: share_nat_def)
  then have "unat (ucast (mul_u64_u32_div headroom (ucast PARP_Q15_ONE) (ucast limit)) :: u32) = ?q"
    unfolding mul_u64_u32_div_def mul_u64_u64_div_u64_def whole
    by (simp add: unsigned_ucast_eq unat_of_nat take_bit_nat_eq_self)
  moreover have "limit \<noteq> 0" using assms(1) by auto
  then have "mul_div_defined headroom (ucast PARP_Q15_ONE) (ucast (ucast limit :: u32))"
    unfolding whole using \<open>?q \<le> 32767\<close> by (simp add: mul_div_defined_def)
  ultimately show ?thesis using False less by (simp add: headroom_share_def share_nat_def)
qed

lemma bin_of_score:
  assumes "unat score \<le> 32767"
  shows "unat (min (drop_bit 15 (score * 8)) (7 :: u32)) = unat score * 8 div 32768"
proof -
  have "unat (score * 8) = unat score * 8" using assms by (simp add: unat_word_ariths)
  then have d: "unat (drop_bit 15 (score * 8)) = unat score * 8 div 32768"
    by (simp add: drop_bit_eq_div unat_div)
  then have "unat (drop_bit 15 (score * 8)) \<le> unat (7 :: u32)" using assms by (simp add: d)
  then have "drop_bit 15 (score * 8) \<le> (7 :: u32)" by (simp only: word_le_nat_alt)
  then show ?thesis using d by (simp add: min_def)
qed

lemma reclaim_bin_value:
  assumes "bin_managed sysctl modes m"
    and "0 < unat (m_limit_bytes (rm_tier2 m))" and "unat (m_limit_bytes (rm_tier2 m)) < 2 ^ 32"
  defines "share \<equiv> share_nat (unat (m_headroom_bytes (rm_tier2 m))) (unat (m_limit_bytes (rm_tier2 m)))"
  shows "\<exists>b. parp_memcg_reclaim_bin sysctl modes active now_ns random (Some m) = Some b \<and>
     unat b = (case prior_signal active now_ns (rm_domain_id m) of
                 None \<Rightarrow> share | Some p \<Rightarrow> min (unat p) share) * 8 div 32768"
proof -
  let ?l = "m_limit_bytes (rm_tier2 m)"
  obtain s where s: "headroom_share (m_headroom_bytes (rm_tier2 m)) ?l = Some s" "unat s = share"
    using unat_headroom_share [OF assms(2,3)] unfolding share_def by blast
  define score where "score = (case prior_signal active now_ns (rm_domain_id m) of
    Some p \<Rightarrow> min p s | None \<Rightarrow> s)"
  have nz: "?l \<noteq> 0" using assms(2) by auto
  have max: "?l \<noteq> U64_MAX" using assms(3) by auto
  have u: "unat score = (case prior_signal active now_ns (rm_domain_id m) of
      None \<Rightarrow> share | Some p \<Rightarrow> min (unat p) share)"
    using s(2) by (simp add: score_def min_def word_le_nat_alt split: option.split)
  then have "unat score \<le> 32767"
    using share_nat_le by (simp add: share_def min.coboundedI2 split: option.splits)
  then show ?thesis
    using assms(1) nz max bin_of_score [of score]
    by (auto simp: parp_memcg_reclaim_bin_def bin_managed_def bin_score_def s(1) u [symmetric]
        simp flip: score_def)
qed

lemma reclaim_bin_less:
  assumes "parp_memcg_reclaim_bin sysctl modes active now_ns random memcg = Some b" and "random < 8"
  shows "unat b < MEMCG_NR_BINS"
proof -
  have "min x (7 :: u32) < 8" for x
    by (rule le_less_trans [of _ 7]) simp_all
  then have "b < 8"
    using assms by (auto simp: parp_memcg_reclaim_bin_def split: option.splits if_splits)
  then show ?thesis by (simp add: word_less_nat_alt)
qed

definition share_faults :: "u64 \<Rightarrow> u64 \<Rightarrow> bool" where
  "share_faults headroom limit \<longleftrightarrow> headroom < limit \<and>
     (unat limit mod 2 ^ 32 = 0 \<or> 2 ^ 64 \<le> unat headroom * 32767 div (unat limit mod 2 ^ 32))"

lemma headroom_share_fault_iff: "headroom_share headroom limit = None \<longleftrightarrow> share_faults headroom limit"
proof -
  have cut: "unat (ucast (ucast limit :: u32) :: u64) = unat limit mod 2 ^ 32"
    by (simp add: unsigned_ucast_eq take_bit_eq_mod unat_mod)
  have "mul_div_defined headroom (ucast PARP_Q15_ONE) (ucast (ucast limit :: u32)) \<longleftrightarrow>
      unat limit mod 2 ^ 32 \<noteq> 0 \<and> unat headroom * 32767 div (unat limit mod 2 ^ 32) < 2 ^ 64"
    by (simp only: mul_div_defined_def cut unat_eq_zero [symmetric]) simp
  then show ?thesis by (auto simp: headroom_share_def share_faults_def not_le)
qed

lemma reclaim_bin_fault_iff:
  "parp_memcg_reclaim_bin sysctl modes active now_ns random (Some m) = None \<longleftrightarrow>
     bin_managed sysctl modes m \<and> m_limit_bytes (rm_tier2 m) \<noteq> U64_MAX \<and>
     share_faults (m_headroom_bytes (rm_tier2 m)) (m_limit_bytes (rm_tier2 m))"
proof -
  let ?l = "m_limit_bytes (rm_tier2 m)" and ?h = "m_headroom_bytes (rm_tier2 m)"
  have score: "bin_score p ?l ?h = None \<longleftrightarrow> ?l \<noteq> U64_MAX \<and> share_faults ?h ?l" for p
    using headroom_share_fault_iff [of ?h ?l]
    by (cases "?l = 0") (auto simp: bin_score_def share_faults_def split: option.split)
  show ?thesis
    unfolding score [of "prior_signal active now_ns (rm_domain_id m)", symmetric]
    by (auto simp: parp_memcg_reclaim_bin_def bin_managed_def split: option.split)
qed

section \<open>The bins a round comes to\<close>

text \<open>
  Where \<open>shrink_many\<close> starts, and the bins its outer loop comes to when nothing stops it: it goes on to
  the next bin, round the end, until it is back at the first. (What it does with the cgroups of a bin,
  the rotations and the restarts of a raced walk, are not part of this list.) The number of bins bounds
  the loop.
\<close>

definition shrink_many_first_bin :: "parp_tier2_sysctl \<Rightarrow> parp_domain_state \<Rightarrow> nat \<Rightarrow> nat" where
  "shrink_many_first_bin sysctl modes random =
     (if parp_get_mode modes = PARP_MODE_DISABLED \<or> \<not> parp_tier2_runtime_enabled sysctl then random else 0)"

primrec shrink_many_walk :: "nat \<Rightarrow> nat \<Rightarrow> nat \<Rightarrow> nat list" where
  "shrink_many_walk 0 first_bin bin = []"
| "shrink_many_walk (Suc fuel) first_bin bin =
     bin # (let next_bin = (bin + 1) mod MEMCG_NR_BINS
            in if next_bin \<noteq> first_bin then shrink_many_walk fuel first_bin next_bin else [])"

definition shrink_many_bins :: "parp_tier2_sysctl \<Rightarrow> parp_domain_state \<Rightarrow> nat \<Rightarrow> nat list" where
  "shrink_many_bins sysctl modes random =
     (let first_bin = shrink_many_first_bin sysctl modes random
      in shrink_many_walk MEMCG_NR_BINS first_bin first_bin)"

lemma walk_numeral:
  "shrink_many_walk (numeral k) first_bin bin =
     bin # (let next_bin = (bin + 1) mod MEMCG_NR_BINS
            in if next_bin \<noteq> first_bin then shrink_many_walk (pred_numeral k) first_bin next_bin else [])"
  unfolding numeral_eq_Suc [of k] by (rule shrink_many_walk.simps(2))

lemma managed_bins:
  "bin_managed sysctl modes m \<Longrightarrow> shrink_many_bins sysctl modes random = [0, 1, 2, 3, 4, 5, 6, 7]"
  by (simp add: shrink_many_bins_def shrink_many_first_bin_def bin_managed_def walk_numeral Let_def)

lemma managed_bins_nth:
  assumes "bin_managed sysctl modes m" and "i < MEMCG_NR_BINS"
  shows "shrink_many_bins sysctl modes random ! i = i"
  using bin_cases [OF assms(2)] by (elim disjE) (simp_all add: managed_bins [OF assms(1)])

text \<open>The bound is enough: the loop is back at its first bin after all eight.\<close>

lemma walk_complete:
  assumes "first_bin < MEMCG_NR_BINS"
  shows "length (shrink_many_walk MEMCG_NR_BINS first_bin first_bin) = MEMCG_NR_BINS"
    and "set (shrink_many_walk MEMCG_NR_BINS first_bin first_bin) = {0, 1, 2, 3, 4, 5, 6, 7}"
  using bin_cases [OF assms] by (elim disjE; force simp add: walk_numeral Let_def)+

text \<open>C34. A round comes to the needier cgroup's bin no later. Let two managed cgroups have limits below
  4 GiB, the first no larger free share of its limit and no larger prior (or neither has a prior). Then
  the bins of both are computed without a fault, the first one's is not above the second one's, and the
  walk over the bins, which starts at bin 0, comes to it no later. Above 4 GiB the limit is cut to 32
  bits and nothing of this is claimed.\<close>

theorem parp_reclaim_bin_orders:
  assumes "bin_managed sysctl modes m1" and "bin_managed sysctl modes m2"
    and "0 < unat (m_limit_bytes (rm_tier2 m1))" and "unat (m_limit_bytes (rm_tier2 m1)) < 2 ^ 32"
    and "0 < unat (m_limit_bytes (rm_tier2 m2))" and "unat (m_limit_bytes (rm_tier2 m2)) < 2 ^ 32"
    and "unat (m_headroom_bytes (rm_tier2 m1)) * unat (m_limit_bytes (rm_tier2 m2)) \<le>
         unat (m_headroom_bytes (rm_tier2 m2)) * unat (m_limit_bytes (rm_tier2 m1))"
    and "rel_option (\<le>) (prior_signal active now_ns (rm_domain_id m1)) (prior_signal active now_ns (rm_domain_id m2))"
  shows "\<exists>b1 b2 i j. parp_memcg_reclaim_bin sysctl modes active now_ns random1 (Some m1) = Some b1 \<and>
     parp_memcg_reclaim_bin sysctl modes active now_ns random2 (Some m2) = Some b2 \<and>
     b1 \<le> b2 \<and> unat b2 < MEMCG_NR_BINS \<and>
     i \<le> j \<and> j < length (shrink_many_bins sysctl modes random) \<and>
     shrink_many_bins sysctl modes random ! i = unat b1 \<and>
     shrink_many_bins sysctl modes random ! j = unat b2"
proof -
  let ?p1 = "prior_signal active now_ns (rm_domain_id m1)" and ?p2 = "prior_signal active now_ns (rm_domain_id m2)"
  let ?s = "\<lambda>m. share_nat (unat (m_headroom_bytes (rm_tier2 m))) (unat (m_limit_bytes (rm_tier2 m)))"
  obtain b1 where b1: "parp_memcg_reclaim_bin sysctl modes active now_ns random1 (Some m1) = Some b1"
    "unat b1 = (case ?p1 of None \<Rightarrow> ?s m1 | Some p \<Rightarrow> min (unat p) (?s m1)) * 8 div 32768"
    using reclaim_bin_value [OF assms(1,3,4)] by blast
  obtain b2 where b2: "parp_memcg_reclaim_bin sysctl modes active now_ns random2 (Some m2) = Some b2"
    "unat b2 = (case ?p2 of None \<Rightarrow> ?s m2 | Some p \<Rightarrow> min (unat p) (?s m2)) * 8 div 32768"
    using reclaim_bin_value [OF assms(2,5,6)] by blast
  have s: "?s m1 \<le> ?s m2" by (rule share_nat_mono [OF assms(7,3,5)])
  have "(case ?p1 of None \<Rightarrow> ?s m1 | Some p \<Rightarrow> min (unat p) (?s m1)) \<le>
        (case ?p2 of None \<Rightarrow> ?s m2 | Some p \<Rightarrow> min (unat p) (?s m2))"
    using assms(8) s by (cases ?p1; cases ?p2) (auto simp: word_le_nat_alt)
  then have "unat b1 \<le> unat b2" unfolding b1(2) b2(2) by (intro div_le_mono mult_le_mono1)
  moreover have "(case ?p2 of None \<Rightarrow> ?s m2 | Some p \<Rightarrow> min (unat p) (?s m2)) \<le> 32767"
    using share_nat_le by (auto intro: min.coboundedI2 split: option.split)
  then have "unat b2 \<le> 32767 * 8 div 32768" unfolding b2(2) by (intro div_le_mono mult_le_mono1)
  ultimately have le: "unat b1 \<le> unat b2" and top: "unat b2 < MEMCG_NR_BINS" by simp_all
  moreover from le top have "unat b1 < MEMCG_NR_BINS" by (rule le_less_trans)
  moreover have "length (shrink_many_bins sysctl modes random) = MEMCG_NR_BINS"
    by (simp add: managed_bins [OF assms(1)])
  ultimately show ?thesis
    using b1(1) b2(1) managed_bins_nth [OF assms(1)]
    by (intro exI [of _ b1] exI [of _ b2] exI [of _ "unat b1"] exI [of _ "unat b2"])
      (simp add: word_le_nat_alt)
qed

text \<open>Witness of C34: one MiB free of 64 MiB against half of 1 GiB, neither bound to an application.\<close>

definition sample_tier2 :: "u64 \<Rightarrow> u64 \<Rightarrow> parp_tier2_memcg" where
  "sample_tier2 limit headroom = parp_tier2_zero \<lparr> m_enabled := True, m_limit_bytes := limit,
     m_headroom_bytes := headroom \<rparr>"

definition sample_memcg :: "u64 \<Rightarrow> u64 \<Rightarrow> reclaim_memcg" where
  "sample_memcg limit headroom =
     \<lparr> rm_root = False, rm_domain_id = 0, rm_tier2 = sample_tier2 limit headroom \<rparr>"

theorem parp_reclaim_bin_orders_witness:
  "\<exists>b1 b2 i j. parp_memcg_reclaim_bin (tier2_sample_sysctl \<lparr> y_predict_enabled := True \<rparr>) parp_domain_boot None 0 5
       (Some (sample_memcg 67108864 1048576)) = Some b1 \<and>
     parp_memcg_reclaim_bin (tier2_sample_sysctl \<lparr> y_predict_enabled := True \<rparr>) parp_domain_boot None 0 6
       (Some (sample_memcg 1073741824 536870912)) = Some b2 \<and> b1 \<le> b2 \<and> unat b2 < MEMCG_NR_BINS \<and>
     i \<le> j \<and> j < length (shrink_many_bins (tier2_sample_sysctl \<lparr> y_predict_enabled := True \<rparr>) parp_domain_boot 3) \<and>
     shrink_many_bins (tier2_sample_sysctl \<lparr> y_predict_enabled := True \<rparr>) parp_domain_boot 3 ! i = unat b1 \<and>
     shrink_many_bins (tier2_sample_sysctl \<lparr> y_predict_enabled := True \<rparr>) parp_domain_boot 3 ! j = unat b2"
  by (rule parp_reclaim_bin_orders)
    (simp_all add: bin_managed_def sample_memcg_def sample_tier2_def parp_tier2_runtime_enabled_def
      parp_get_mode_def parp_domain_boot_def prior_signal_def)

text \<open>C37. When computing the bin faults. The division takes the limit cut to 32 bits: for a managed cgroup
  that uses some of its limit the kernel faults exactly when those 32 bits are zero (a limit that is a
  multiple of 4 GiB) or so small that the quotient exceeds 64 bits. In every other case, whatever the
  cgroup, the bin is computed.\<close>

theorem parp_reclaim_bin_faults:
  "parp_memcg_reclaim_bin sysctl modes active now_ns random memcg = None \<longleftrightarrow>
     (\<exists>m. memcg = Some m \<and> bin_managed sysctl modes m \<and> m_limit_bytes (rm_tier2 m) \<noteq> U64_MAX \<and>
        m_headroom_bytes (rm_tier2 m) < m_limit_bytes (rm_tier2 m) \<and>
        (unat (m_limit_bytes (rm_tier2 m)) mod 2 ^ 32 = 0 \<or>
         2 ^ 64 \<le> unat (m_headroom_bytes (rm_tier2 m)) * 32767 div
           (unat (m_limit_bytes (rm_tier2 m)) mod 2 ^ 32)))"
proof (cases memcg)
  case None
  then show ?thesis by (simp add: parp_memcg_reclaim_bin_def)
next
  case (Some m)
  then show ?thesis
    using reclaim_bin_fault_iff [of sysctl modes active now_ns random m]
    by (simp add: share_faults_def)
qed

text \<open>Both faults: 4 GiB in use by one page, and \<open>2 ^ 62 + 4096\<close> bytes of which \<open>2 ^ 62\<close> are free.\<close>

lemma share_fault_examples:
  "share_faults 0xFFFFF000 0x100000000" "share_faults 0x4000000000000000 0x4000000000001000"
  by (simp_all add: share_faults_def)

section \<open>The lists over time\<close>

text \<open>
  The operations in any order; each takes its bin from \<open>parp_memcg_reclaim_bin\<close>, a random number being
  below the number of bins. The first argument counts the operations.
\<close>

definition chosen_bin :: "nat \<Rightarrow> bool" where
  "chosen_bin bin \<longleftrightarrow>
     (\<exists>sysctl modes active now_ns random memcg b. random < 8 \<and> bin = unat b \<and>
        parp_memcg_reclaim_bin sysctl modes active now_ns random memcg = Some b)"

inductive memcg_reach :: "nat \<Rightarrow> lru_gen_memcg \<Rightarrow> bool" where
  boot: "memcg_reach 0 lru_gen_init_pgdat"
| online: "memcg_reach n st \<Longrightarrow> \<not> memcg_listed st x \<Longrightarrow> chosen_bin bin \<Longrightarrow>
    memcg_reach (Suc n) (lru_gen_online_memcg bin x st)"
| rotate: "memcg_reach n st \<Longrightarrow> memcg_listed st x \<Longrightarrow> chosen_bin bin \<Longrightarrow>
    memcg_reach (Suc n) (lru_gen_rotate_memcg bin x op st)"
| offline: "memcg_reach n st \<Longrightarrow> memcg_listed st x \<Longrightarrow> chosen_bin bin \<Longrightarrow>
    memcg_reach (Suc n) (lru_gen_offline_memcg bin x st)"
| release: "memcg_reach n st \<Longrightarrow> memcg_reach (Suc n) (lru_gen_release_memcg x st)"
| soft: "memcg_reach n st \<Longrightarrow> memcg_listed st x \<Longrightarrow> chosen_bin bin \<Longrightarrow>
    memcg_reach (Suc n) (lru_gen_soft_reclaim bin x st)"

lemma chosen_bin_less: "chosen_bin bin \<Longrightarrow> bin < MEMCG_NR_BINS"
  using reclaim_bin_less by (auto simp: chosen_bin_def)

lemma init_memcg_ok: "memcg_ok 0 lru_gen_init_pgdat"
  by (simp add: memcg_ok_def memcg_lists_ok_def memcg_empty_def members_eq lru_gen_init_pgdat_def)

lemma memcg_reach_ok: "memcg_reach n st \<Longrightarrow> n < 2 ^ 64 \<Longrightarrow> memcg_ok n st"
proof (induction rule: memcg_reach.induct)
  case boot
  show ?case by (rule init_memcg_ok)
next
  case (online n st x bin)
  then show ?case using online_ok [of n st x bin] chosen_bin_less by simp
next
  case (rotate n st x bin op)
  then show ?case using rotate_ok [of n st x bin op] chosen_bin_less by simp
next
  case (offline n st x bin)
  then show ?case using rotate_ok [of n st x bin] chosen_bin_less by (simp add: lru_gen_offline_memcg_def)
next
  case (release n st x)
  then show ?case using release_ok [of n st x] by simp
next
  case (soft n st x bin)
  then show ?case using soft_reclaim_ok [of n st x bin] chosen_bin_less by simp
qed

text \<open>C20. The lists of a node are consistent through every sequence of operations. A cgroup stands once in the
  lists of its generation and in no other; the counter of a generation is its number of cgroups; every
  cgroup is in the old or the young generation; and the old generation, where reclaim starts, holds a
  cgroup whenever there is one at all.\<close>

theorem parp_memcg_lru_reachable_ok:
  assumes "memcg_reach n st" and "n < 2 ^ 64"
  shows "(\<forall>x. memcg_listed st x \<longrightarrow>
            (\<forall>g < MEMCG_NR_GENS. count (mset (memcg_members st g)) x = (if g = ml_gen st x then 1 else 0)) \<and>
            ml_gen st x \<in> {get_memcg_gen (ml_seq st), get_memcg_gen (ml_seq st + 1)}) \<and>
     (\<forall>g < MEMCG_NR_GENS. ml_nr_memcgs st g = word_of_nat (length (memcg_members st g)) \<and>
        length (memcg_members st g) \<le> n) \<and>
     ((\<exists>x. memcg_listed st x) \<longrightarrow> (\<exists>x. memcg_listed st x \<and> ml_gen st x = get_memcg_gen (ml_seq st)))"
proof -
  have ok: "memcg_ok n st" using memcg_reach_ok [OF assms] .
  then have l: "memcg_lists_ok n st" by (simp add: memcg_ok_def)
  have one: "count (mset (memcg_members st g)) x = (if g = ml_gen st x then 1 else 0)"
    if x: "memcg_listed st x" and g: "g < MEMCG_NR_GENS" for x g
  proof -
    have "distinct (memcg_members st g)" using l g by (simp add: memcg_lists_ok_def)
    then have c: "count (mset (memcg_members st g)) x = (if x \<in> set (memcg_members st g) then 1 else 0)"
      by (simp add: distinct_count_atmost_1)
    have "x \<in> set (memcg_members st g) \<longleftrightarrow> g = ml_gen st x"
      using listed_gen [OF l x] l g by (auto simp: memcg_lists_ok_def)
    then show ?thesis by (simp add: c)
  qed
  have old: "\<exists>x. memcg_listed st x \<and> ml_gen st x = get_memcg_gen (ml_seq st)" if x: "memcg_listed st x" for x
  proof -
    have "memcg_members st (get_memcg_gen (ml_seq st)) \<noteq> []"
      using ok listed_gen [OF l x] by (force simp: memcg_ok_def memcg_empty_def)
    then obtain y where y: "y \<in> set (memcg_members st (get_memcg_gen (ml_seq st)))"
      by (meson last_in_set)
    then have "memcg_listed st y" using memcg_gen_less listed_iff by blast
    moreover have "ml_gen st y = get_memcg_gen (ml_seq st)"
      using y l memcg_gen_less by (auto simp: memcg_lists_ok_def)
    ultimately show ?thesis by blast
  qed
  have gens: "ml_gen st x \<in> {get_memcg_gen (ml_seq st), get_memcg_gen (ml_seq st + 1)}"
    if "memcg_listed st x" for x
    using populated_gens [OF l] listed_gen [OF l that] by blast
  have nr: "ml_nr_memcgs st g = word_of_nat (length (memcg_members st g)) \<and> length (memcg_members st g) \<le> n"
    if "g < MEMCG_NR_GENS" for g
    using l that length_members_le [OF l that] by (simp add: memcg_lists_ok_def)
  show ?thesis using one gens nr old by blast
qed

text \<open>Witness of C20: two cgroups come online and the first is moved to the young generation.\<close>

lemma sample_bin: "chosen_bin 3"
  unfolding chosen_bin_def
  by (rule exI [of _ undefined], rule exI [of _ undefined], rule exI [of _ None], rule exI [of _ 0],
      rule exI [of _ 3], rule exI [of _ None], rule exI [of _ 3]) (simp add: parp_memcg_reclaim_bin_def)

definition sample_lru_gen_memcg :: lru_gen_memcg where
  "sample_lru_gen_memcg =
     lru_gen_rotate_memcg 3 7 MEMCG_LRU_YOUNG (lru_gen_online_memcg 3 8 (lru_gen_online_memcg 3 7 lru_gen_init_pgdat))"

lemmas sample_lists = listed_iff members_eq lru_gen_init_pgdat_def lru_gen_online_memcg_def fifo_add_def
  get_memcg_gen_def Let_def

lemma sample_memcg_reach: "memcg_reach 3 sample_lru_gen_memcg"
proof -
  let ?one = "lru_gen_online_memcg 3 7 lru_gen_init_pgdat"
  have "\<not> memcg_listed lru_gen_init_pgdat 7" by (simp add: sample_lists)
  note 1 = memcg_reach.online [OF memcg_reach.boot this sample_bin]
  have "\<not> memcg_listed ?one 8" by (simp add: sample_lists)
  note 2 = memcg_reach.online [OF 1 this sample_bin]
  have "memcg_listed (lru_gen_online_memcg 3 8 ?one) 7"
    unfolding listed_iff by (rule exI [of _ 0]) (simp add: sample_lists)
  note 3 = memcg_reach.rotate [OF 2 this sample_bin, of MEMCG_LRU_YOUNG]
  then show ?thesis by (simp only: sample_lru_gen_memcg_def numeral_3_eq_3)
qed

theorem parp_memcg_lru_reachable_ok_witness:
  "memcg_reach 3 sample_lru_gen_memcg \<and>
   ml_nr_memcgs sample_lru_gen_memcg 0 = word_of_nat (length (memcg_members sample_lru_gen_memcg 0))"
  using sample_memcg_reach parp_memcg_lru_reachable_ok [OF sample_memcg_reach] by simp

section \<open>A round of reclaim\<close>

lemma rotate_seq:
  "ml_seq (lru_gen_rotate_memcg bin x op st) =
     (if ml_nr_memcgs (lru_gen_rotate_memcg bin x op st) (ml_gen st x) = 0 \<and>
         ml_gen st x = get_memcg_gen (ml_seq st)
      then ml_seq st + 1 else ml_seq st)"
proof -
  obtain s where s: "lru_gen_rotate_memcg bin x op st = memcg_advance (ml_gen st x) s"
    "ml_seq s = ml_seq st"
    unfolding lru_gen_rotate_memcg_def Let_def by fastforce
  show ?thesis unfolding s(1) memcg_advance_fifo by (auto simp: memcg_advance_def s(2))
qed

text \<open>Moving a cgroup of the old generation to the young one.\<close>

lemma young_step:
  assumes ok: "memcg_ok N st" and x: "x \<in> set (memcg_members st (get_memcg_gen (ml_seq st)))"
    and bin: "bin < MEMCG_NR_BINS" and N: "N + 1 < 2 ^ 64"
  defines "st' \<equiv> lru_gen_rotate_memcg bin x MEMCG_LRU_YOUNG st" and "old \<equiv> get_memcg_gen (ml_seq st)"
  shows "memcg_ok (Suc N) st'" and "memcg_members st' old = removeAll x (memcg_members st old)"
    and "ml_seq st' = (if removeAll x (memcg_members st old) = [] then ml_seq st + 1 else ml_seq st)"
    and "memcg_listed st' y \<longleftrightarrow> memcg_listed st y"
    and "g \<noteq> get_memcg_gen (ml_seq st + 1) \<Longrightarrow> memcg_members st' g = removeAll x (memcg_members st g)"
proof -
  let ?young = "get_memcg_gen (ml_seq st + 1)"
  have l: "memcg_lists_ok N st" using ok by (simp add: memcg_ok_def)
  have listed: "memcg_listed st x" using x memcg_gen_less unfolding listed_iff by blast
  show ok': "memcg_ok (Suc N) st'" unfolding st'_def by (rule rotate_ok [OF ok listed bin N])
  have gen: "ml_gen st x = old"
    using x l memcg_gen_less by (auto simp: memcg_lists_ok_def old_def)
  have "unat (ml_seq st) + 1 < 2 ^ 64" using l N by (simp add: memcg_lists_ok_def)
  then have yo: "?young \<noteq> old" unfolding old_def by (rule memcg_gen_next_neq)
  have target: "rotate_target MEMCG_LRU_YOUNG st x = ?young" by (simp add: rotate_target_def)
  note rm = rotate_members(1) [OF bin, where op = MEMCG_LRU_YOUNG and st = st and x = x, unfolded target, folded st'_def]
    rotate_members(2) [OF bin, where op = MEMCG_LRU_YOUNG and st = st and x = x, unfolded target, folded st'_def]
  show "g \<noteq> ?young \<Longrightarrow> memcg_members st' g = removeAll x (memcg_members st g)" by (rule rm(1))
  show m: "memcg_members st' old = removeAll x (memcg_members st old)" using rm(1) yo by simp
  have l': "memcg_lists_ok (Suc N) st'" using ok' by (simp add: memcg_ok_def)
  have "ml_nr_memcgs st' old = 0 \<longleftrightarrow> memcg_members st' old = []"
  proof -
    have len: "length (memcg_members st' old) < 2 ^ 64"
    proof -
      have "length (memcg_members st' old) \<le> length (memcg_members st old)"
        unfolding m by (rule length_removeAll_less_eq)
      also have "\<dots> \<le> N" unfolding old_def by (rule length_members_le [OF l memcg_gen_less])
      finally show ?thesis using N by linarith
    qed
    have "ml_nr_memcgs st' old = word_of_nat (length (memcg_members st' old))"
      using l' memcg_gen_less by (simp add: memcg_lists_ok_def old_def)
    then show ?thesis using len by (auto simp: word_of_nat_eq_0_iff dest: nat_dvd_not_less)
  qed
  then show "ml_seq st' = (if removeAll x (memcg_members st old) = [] then ml_seq st + 1 else ml_seq st)"
    using rotate_seq [of bin x MEMCG_LRU_YOUNG st] unfolding gen m st'_def [symmetric]
    by (simp add: old_def)
  have set_new: "set (memcg_members st' ?young) = insert x (set (memcg_members st ?young))"
    using mset_add_facts(1) [OF rm(2)] by auto
  have "memcg_listed st' y \<longleftrightarrow> (\<exists>g < MEMCG_NR_GENS. y \<in> set (memcg_members st' g))" by (rule listed_iff)
  also have "\<dots> \<longleftrightarrow> y = x \<or> (\<exists>g < MEMCG_NR_GENS. y \<in> set (memcg_members st g))"
  proof
    assume "\<exists>g < MEMCG_NR_GENS. y \<in> set (memcg_members st' g)"
    then obtain g where "g < MEMCG_NR_GENS" "y \<in> set (memcg_members st' g)" by blast
    then show "y = x \<or> (\<exists>g < MEMCG_NR_GENS. y \<in> set (memcg_members st g))"
      using rm(1) [of g] set_new by (cases "g = ?young") auto
  next
    assume a: "y = x \<or> (\<exists>g < MEMCG_NR_GENS. y \<in> set (memcg_members st g))"
    show "\<exists>g < MEMCG_NR_GENS. y \<in> set (memcg_members st' g)"
    proof (cases "y = x")
      case True
      then show ?thesis using set_new memcg_gen_less by blast
    next
      case False
      then obtain g where "g < MEMCG_NR_GENS" "y \<in> set (memcg_members st g)" using a by blast
      then have "y \<in> set (memcg_members st' g)"
        using False rm(1) [of g] set_new by (cases "g = ?young") auto
      then show ?thesis using \<open>g < MEMCG_NR_GENS\<close> by blast
    qed
  qed
  also have "\<dots> \<longleftrightarrow> memcg_listed st y" using listed by (auto simp: listed_iff)
  finally show "memcg_listed st' y \<longleftrightarrow> memcg_listed st y" .
qed

lemma young_round:
  assumes "memcg_ok N st" and "distinct xs" and "xs \<noteq> []"
    and "set xs = set (memcg_members st (get_memcg_gen (ml_seq st)))"
    and "\<forall>x. bins x < MEMCG_NR_BINS" and "N + length xs < 2 ^ 64"
  shows "let st' = fold (\<lambda>x. lru_gen_rotate_memcg (bins x) x MEMCG_LRU_YOUNG) xs st
     in memcg_ok (N + length xs) st' \<and> ml_seq st' = ml_seq st + 1 \<and>
        (\<forall>x. memcg_listed st' x = memcg_listed st x) \<and>
        (\<forall>x. memcg_listed st x \<longrightarrow> ml_gen st' x = get_memcg_gen (ml_seq st'))"
  using assms
proof (induction xs arbitrary: N st)
  case Nil
  then show ?case by simp
next
  case (Cons x xs)
  let ?old = "get_memcg_gen (ml_seq st)"
  let ?st1 = "lru_gen_rotate_memcg (bins x) x MEMCG_LRU_YOUNG st"
  have x: "x \<in> set (memcg_members st ?old)" using Cons.prems(4) by auto
  have bin: "bins x < MEMCG_NR_BINS" using Cons.prems(5) by blast
  have N: "N + 1 < 2 ^ 64" using Cons.prems(6) by simp
  note step = young_step [OF Cons.prems(1) x bin N]
  have rest: "set xs = set (memcg_members ?st1 ?old)"
    using Cons.prems(2,4) unfolding step(2) by auto
  show ?case
  proof (cases "xs = []")
    case True
    then have empty: "memcg_members ?st1 ?old = []" using rest by simp
    then have seq: "ml_seq ?st1 = ml_seq st + 1" using step(2,3) by simp
    have l1: "memcg_lists_ok (Suc N) ?st1" using step(1) by (simp add: memcg_ok_def)
    have l: "memcg_lists_ok N st" using Cons.prems(1) by (simp add: memcg_ok_def)
    have "ml_gen ?st1 y = get_memcg_gen (ml_seq st + 1)" if y: "memcg_listed st y" for y
    proof (rule ccontr)
      assume ne: "ml_gen ?st1 y \<noteq> get_memcg_gen (ml_seq st + 1)"
      have "memcg_listed ?st1 y" using y step(4) by simp
      then have at: "y \<in> set (memcg_members ?st1 (ml_gen ?st1 y))" "ml_gen ?st1 y < MEMCG_NR_GENS"
        using listed_gen [OF l1] by auto
      then have "y \<in> set (memcg_members st (ml_gen ?st1 y))" unfolding step(5) [OF ne] by simp
      then have "ml_gen ?st1 y = ?old" using populated_gens [OF l at(2)] ne by blast
      then show False using at(1) empty by simp
    qed
    then show ?thesis using True seq step(1,4) by (simp add: Let_def)
  next
    case False
    then have "set (memcg_members ?st1 ?old) \<noteq> {}" unfolding rest [symmetric] by simp
    then have "removeAll x (memcg_members st ?old) \<noteq> []" unfolding step(2) by force
    then have seq: "ml_seq ?st1 = ml_seq st" using step(3) by simp
    have "set xs = set (memcg_members ?st1 (get_memcg_gen (ml_seq ?st1)))" using rest seq by simp
    moreover have "Suc N + length xs < 2 ^ 64" using Cons.prems(6) by simp
    ultimately have "let st' = fold (\<lambda>x. lru_gen_rotate_memcg (bins x) x MEMCG_LRU_YOUNG) xs ?st1
      in memcg_ok (Suc N + length xs) st' \<and> ml_seq st' = ml_seq ?st1 + 1 \<and>
        (\<forall>x. memcg_listed st' x = memcg_listed ?st1 x) \<and>
        (\<forall>x. memcg_listed ?st1 x \<longrightarrow> ml_gen st' x = get_memcg_gen (ml_seq st'))"
      by (intro Cons.IH [OF step(1)]) (use Cons.prems(2,5) False in simp_all)
    then show ?thesis unfolding Let_def seq step(4) fold_simps comp_def
      by (elim conjE, intro conjI) (simp_all only: list.size add_Suc add_Suc_right add_0_right simp_thms)
  qed
qed

text \<open>C33. A round of reclaim comes to its end and starts over. When every cgroup of the old generation has been
  moved to the young one, in whatever order and into whatever bins, the generation counter has advanced
  by exactly one, no cgroup was lost, and every cgroup is in the old generation again.\<close>

theorem parp_memcg_round:
  assumes "memcg_reach n st" and "distinct xs" and "xs \<noteq> []"
    and "set xs = set (memcg_members st (get_memcg_gen (ml_seq st)))"
    and "\<forall>x. bins x < MEMCG_NR_BINS" and "n + length xs < 2 ^ 64"
  defines "st' \<equiv> fold (\<lambda>x. lru_gen_rotate_memcg (bins x) x MEMCG_LRU_YOUNG) xs st"
  shows "ml_seq st' = ml_seq st + 1 \<and> (\<forall>x. memcg_listed st' x = memcg_listed st x) \<and>
     (\<forall>x. memcg_listed st x \<longrightarrow> ml_gen st' x = get_memcg_gen (ml_seq st'))"
proof -
  have "memcg_ok n st" using memcg_reach_ok [OF assms(1)] assms(6) by simp
  from young_round [OF this assms(2-6)] show ?thesis unfolding st'_def Let_def by blast
qed

text \<open>Witness of C33: the node of the previous example, where cgroup 8 is the only old one.\<close>

theorem parp_memcg_round_witness:
  "ml_seq (lru_gen_rotate_memcg 5 8 MEMCG_LRU_YOUNG sample_lru_gen_memcg) = ml_seq sample_lru_gen_memcg + 1"
proof -
  have "set [8] = set (memcg_members sample_lru_gen_memcg (get_memcg_gen (ml_seq sample_lru_gen_memcg)))"
    by (simp add: sample_lru_gen_memcg_def sample_lists lru_gen_rotate_memcg_def rotate_target_def
        fifo_del_def memcg_advance_def)
  from parp_memcg_round [OF sample_memcg_reach _ _ this, of "\<lambda>_. 5"] show ?thesis by simp
qed

end
