(* ===== verification/Reclaim_Adapter.thy ===== *)
theory Reclaim_Adapter
  imports Damon_Adapter Domain_Mode
begin

text \<open>
  The adapters through which native reclaim asks for a decision about a folio:
  \<open>adapter/mglru_adapter.c\<close> with \<open>adapter/file_adapter.c\<close> and \<open>adapter/anon_adapter.c\<close>, which look up
  the evidence behind it. The scoring engine (\<open>parp_engine_score\<close>) and the counting of decisions
  (\<open>parp_stats_account\<close>) are not part of the repository; they are arguments. So are the clock readings.
\<close>

section \<open>Data\<close>

datatype parp_page_type = PARP_PAGE_ANON | PARP_PAGE_FILE

datatype parp_action = PARP_ACTION_NATIVE | PARP_ACTION_PROTECT | PARP_ACTION_RECLAIM_BIAS
  | PARP_ACTION_PREFETCH_CANDIDATE

datatype parp_fallback_reason = PARP_FALLBACK_NONE | PARP_FALLBACK_DISABLED | PARP_FALLBACK_NO_DOMAIN
  | PARP_FALLBACK_NO_BINDING | PARP_FALLBACK_EXPIRED | PARP_FALLBACK_MODEL_VERSION
  | PARP_FALLBACK_NO_EVIDENCE | PARP_FALLBACK_UNSAFE_FOLIO | PARP_FALLBACK_EVIDENCE_ONLY

record parp_decision =
  dc_original_action :: parp_action
  dc_proposed_action :: parp_action
  dc_applied_action :: parp_action
  dc_fallback :: parp_fallback_reason
  dc_score_q15 :: u16

record parp_page_sample =
  ps_type :: parp_page_type
  ps_domain_id :: u64
  ps_epoch_id :: u64
  ps_file_version :: u64
  ps_index :: u64
  ps_accesses_10s :: u32
  ps_accesses_30s :: u32
  ps_accesses_60s :: u32
  ps_age :: u32
  ps_active_ratio_q15 :: u16
  ps_app_prior_q15 :: u16
  ps_next_state_q15 :: u16
  ps_support_q15 :: u16
  ps_stability_q15 :: u16
  ps_freshness_q15 :: u16
  ps_generation :: u8
  ps_resident :: bool
  ps_dirty :: bool
  ps_writeback :: bool
  ps_unevictable :: bool
  ps_evidence_valid :: bool

record parp_reclaim_ctx =
  rc_domain_id :: u64
  rc_snapshot :: "parp_snapshot option"
  rc_mode :: parp_mode
  rc_rcu_held :: bool

record parp_stats =
  st_prepare :: u64
  st_scored :: u64
  st_proposed :: "parp_action \<Rightarrow> u64"
  st_fallback :: "parp_fallback_reason \<Rightarrow> u64"
  st_finish :: u64

text \<open>The counters of \<open>parp_evidence_stats\<close> that only the file adapter changes.\<close>

record parp_folio_stats =
  fs_no_mapping :: u64
  fs_domain_mismatch :: u64
  fs_expired :: u64

text \<open>
  The members of a folio the adapters read; \<open>rf_host\<close> is the inode of its mapping, if it has both, and
  \<open>rf_shmem\<close> says that the mapping is one of \<open>shmem\<close>.
\<close>

record reclaim_folio =
  rf_swapcache :: bool
  rf_host :: "parp_inode option"
  rf_shmem :: bool
  rf_index :: u64
  rf_nr_pages :: u32
  rf_dirty :: bool
  rf_writeback :: bool
  rf_evictable :: bool

text \<open>The state the adapters work on; \<open>rw_rcu_depth\<close> is the nesting of read-side sections.\<close>

record parp_reclaim_world =
  rw_modes :: parp_domain_state
  rw_active :: "parp_snapshot option"
  rw_evidence :: parp_evidence_state
  rw_folio_stats :: parp_folio_stats
  rw_stats :: parp_stats
  rw_rcu_depth :: nat

section \<open>Samples\<close>

definition cap_u32 :: "u64 \<Rightarrow> u32" where
  "cap_u32 n = ucast (min n (ucast U32_MAX))"

definition cap_q15 :: "u64 \<Rightarrow> u16" where
  "cap_q15 n = ucast (min n (ucast PARP_Q15_ONE))"

definition parp_adapter_file_version :: "parp_inode \<Rightarrow> u64" where
  "parp_adapter_file_version inode =
     (if nd_is_i_version inode then nd_iversion inode
      else if nd_generation inode \<noteq> 0 then ucast (nd_generation inode)
      else parp_vma_signature (ucast (nd_mode inode)) (nd_ino inode) (nd_size inode) 0 0)"

definition folio_key :: "parp_inode \<Rightarrow> parp_file_region_key" where
  "folio_key inode = \<lparr> fk_dev_major = nd_major inode, fk_dev_minor = nd_minor inode,
     fk_inode = nd_ino inode, fk_file_version = parp_adapter_file_version inode,
     fk_start_index = 0, fk_nr_pages = 0 \<rparr>"

definition freshness_of :: "u64 \<Rightarrow> u64 \<Rightarrow> u16" where
  "freshness_of now last_seen_ns =
     (let freshness_ns = now - last_seen_ns
      in if freshness_ns \<ge> PARP_EVIDENCE_TTL_NS then 0
         else ucast (ucast PARP_Q15_ONE - freshness_ns * ucast PARP_Q15_ONE div PARP_EVIDENCE_TTL_NS))"

definition file_sample ::
  "u64 \<Rightarrow> parp_file_evidence \<Rightarrow> u64 \<Rightarrow> u64 \<Rightarrow> parp_page_sample \<Rightarrow> parp_page_sample" where
  "file_sample now e version index sample =
     (let w = fe_windows e; support = cap_q15 (ws_access_evidence_30s w * 1024)
      in sample \<lparr>
           ps_accesses_10s := cap_u32 (ws_access_evidence_10s w),
           ps_accesses_30s := cap_u32 (ws_access_evidence_30s w),
           ps_accesses_60s := cap_u32 (ws_access_evidence_60s w),
           ps_support_q15 := support,
           ps_stability_q15 := (if ws_active_intervals_60s w \<noteq> 0 then 24576 else 8192),
           ps_freshness_q15 := freshness_of now (ws_last_seen_ns w),
           ps_next_state_q15 := support,
           ps_file_version := version, ps_index := index, ps_evidence_valid := True \<rparr>)"

text \<open>\<open>now\<close> is the clock reading of the adapter, \<open>lookup_now\<close> that of the lookup it calls.\<close>

definition parp_file_sample_from_folio ::
  "u64 \<Rightarrow> u64 \<Rightarrow> parp_reclaim_ctx \<Rightarrow> reclaim_folio \<Rightarrow> parp_page_sample \<Rightarrow> parp_reclaim_world \<Rightarrow>
   (bool \<times> parp_page_sample) \<times> parp_reclaim_world" where
  "parp_file_sample_from_folio now lookup_now ctx folio sample w =
     (let fs = rw_folio_stats w;
          refuse = (\<lambda>fs1 w1. ((False, sample), w1 \<lparr> rw_folio_stats := fs1 \<rparr>))
      in if rf_swapcache folio then refuse (fs \<lparr> fs_no_mapping := fs_no_mapping fs + 1 \<rparr>) w
         else case rf_host folio of
           None \<Rightarrow> refuse (fs \<lparr> fs_no_mapping := fs_no_mapping fs + 1 \<rparr>) w
         | Some inode \<Rightarrow>
             if rf_shmem folio then refuse (fs \<lparr> fs_no_mapping := fs_no_mapping fs + 1 \<rparr>) w
             else
               let (found, ev) = parp_evidence_lookup_file lookup_now (rc_domain_id ctx)
                     (folio_key inode) (rf_index folio) (rf_nr_pages folio) (rw_evidence w);
                   w1 = w \<lparr> rw_evidence := ev \<rparr>
               in case found of
                    None \<Rightarrow> ((False, sample), w1)
                  | Some e \<Rightarrow>
                      (case parp_context_lookup (rw_active w) (rc_domain_id ctx) now of
                         None \<Rightarrow> refuse (fs \<lparr> fs_domain_mismatch := fs_domain_mismatch fs + 1 \<rparr>) w1
                       | Some context \<Rightarrow>
                           if ac_bind_generation context \<noteq> fe_bind_generation e \<or>
                              ac_model_version context \<noteq> fe_model_version e
                           then refuse (fs \<lparr> fs_domain_mismatch := fs_domain_mismatch fs + 1 \<rparr>) w1
                           else if now \<ge> fe_expires_ns e
                           then refuse (fs \<lparr> fs_expired := fs_expired fs + 1 \<rparr>) w1
                           else ((True, file_sample now e (fk_file_version (folio_key inode))
                                          (rf_index folio) sample), w1)))"

definition parp_anon_sample_from_domain ::
  "u64 \<Rightarrow> u64 \<Rightarrow> parp_reclaim_ctx \<Rightarrow> parp_page_sample \<Rightarrow> parp_reclaim_world \<Rightarrow>
   bool \<times> parp_page_sample" where
  "parp_anon_sample_from_domain now lookup_now ctx sample w =
     (case parp_evidence_lookup_anon_domain lookup_now (rc_domain_id ctx) (rw_evidence w) of
        None \<Rightarrow> (False, sample)
      | Some e \<Rightarrow>
          if de_observed_pages e = 0 then (False, sample)
          else case parp_context_lookup (rw_active w) (rc_domain_id ctx) now of
            None \<Rightarrow> (False, sample)
          | Some context \<Rightarrow>
              if ac_app_id context \<noteq> de_app_id e \<or> ac_bind_generation context \<noteq> de_bind_generation e \<or>
                 ac_model_version context \<noteq> de_model_version e
              then (False, sample)
              else let valid = (de_confidence_q15 e \<noteq> 0)
                   in (valid, sample \<lparr>
                        ps_accesses_10s := cap_u32 (de_active_pages_10s e),
                        ps_accesses_30s := cap_u32 (de_active_pages_30s e),
                        ps_accesses_60s := cap_u32 (de_active_pages_60s e),
                        ps_active_ratio_q15 :=
                          cap_q15 (de_active_pages_30s e * ucast PARP_Q15_ONE div de_observed_pages e),
                        ps_evidence_valid := valid \<rparr>))"

section \<open>A scan and its folios\<close>

definition parp_adapter_prepare ::
  "u64 \<Rightarrow> parp_reclaim_world \<Rightarrow> parp_reclaim_ctx \<times> parp_reclaim_world" where
  "parp_adapter_prepare domain_id w =
     (let mode = parp_get_mode (rw_modes w);
          ctx = \<lparr> rc_domain_id = 0, rc_snapshot = None, rc_mode = mode, rc_rcu_held = False \<rparr>;
          w1 = w \<lparr> rw_stats := (rw_stats w) \<lparr> st_prepare := st_prepare (rw_stats w) + 1 \<rparr> \<rparr>
      in if mode = PARP_MODE_DISABLED then (ctx, w1)
         else (ctx \<lparr> rc_domain_id := domain_id, rc_snapshot := rw_active w, rc_rcu_held := True \<rparr>,
               w1 \<lparr> rw_rcu_depth := rw_rcu_depth w1 + 1 \<rparr>))"

definition native_decision :: "parp_fallback_reason \<Rightarrow> parp_decision" where
  "native_decision reason = \<lparr> dc_original_action = PARP_ACTION_NATIVE,
     dc_proposed_action = PARP_ACTION_NATIVE, dc_applied_action = PARP_ACTION_NATIVE,
     dc_fallback = reason, dc_score_q15 = 0 \<rparr>"

definition page_sample_of :: "parp_reclaim_ctx \<Rightarrow> reclaim_folio \<Rightarrow> bool \<Rightarrow> u8 \<Rightarrow> parp_page_sample" where
  "page_sample_of ctx folio lru_type generation =
     \<lparr> ps_type = (if lru_type then PARP_PAGE_FILE else PARP_PAGE_ANON), ps_domain_id = rc_domain_id ctx,
       ps_epoch_id = 0, ps_file_version = 0, ps_index = 0, ps_accesses_10s = 0, ps_accesses_30s = 0,
       ps_accesses_60s = 0, ps_age = 0, ps_active_ratio_q15 = 0, ps_app_prior_q15 = 0,
       ps_next_state_q15 = 0, ps_support_q15 = 0, ps_stability_q15 = 0, ps_freshness_q15 = 0,
       ps_generation = generation, ps_resident = True, ps_dirty = rf_dirty folio,
       ps_writeback = rf_writeback folio, ps_unevictable = (\<not> rf_evictable folio),
       ps_evidence_valid = False \<rparr>"

definition parp_adapter_score_folio ::
  "(parp_snapshot option \<Rightarrow> parp_page_sample \<Rightarrow> parp_decision) \<Rightarrow>
   (parp_decision \<Rightarrow> parp_stats \<Rightarrow> parp_stats) \<Rightarrow> u64 \<Rightarrow> u64 \<Rightarrow> parp_reclaim_ctx \<Rightarrow> reclaim_folio \<Rightarrow>
   bool \<Rightarrow> u8 \<Rightarrow> parp_reclaim_world \<Rightarrow> parp_decision \<times> parp_reclaim_world" where
  "parp_adapter_score_folio engine account now lookup_now ctx folio lru_type generation w =
     (let sample = page_sample_of ctx folio lru_type generation;
          (decision, w1) =
            (if rc_mode ctx = PARP_MODE_DISABLED then (native_decision PARP_FALLBACK_DISABLED, w)
             else
               let ((matched, sample1), w2) =
                     (if ps_type sample = PARP_PAGE_FILE
                      then parp_file_sample_from_folio now lookup_now ctx folio sample w
                      else (parp_anon_sample_from_domain now lookup_now ctx sample w, w));
                   sample2 = (if matched then sample1 else sample1 \<lparr> ps_evidence_valid := False \<rparr>)
               in (if parp_get_evidence_mode (rw_modes w2) = PARP_EVIDENCE_ONLY
                   then native_decision PARP_FALLBACK_EVIDENCE_ONLY
                   else engine (rc_snapshot ctx) sample2, w2))
      in (decision, w1 \<lparr> rw_stats := account decision (rw_stats w1) \<rparr>))"

definition parp_adapter_apply_decision :: "parp_decision \<Rightarrow> parp_decision" where
  "parp_adapter_apply_decision decision =
     decision \<lparr> dc_applied_action := dc_original_action decision \<rparr>"

definition parp_adapter_finish ::
  "parp_reclaim_ctx \<times> parp_reclaim_world \<Rightarrow> parp_reclaim_ctx \<times> parp_reclaim_world" where
  "parp_adapter_finish cw =
     (let (ctx, w) = cw;
          w1 = (if rc_rcu_held ctx then w \<lparr> rw_rcu_depth := rw_rcu_depth w - 1 \<rparr> else w)
      in (ctx \<lparr> rc_rcu_held := False \<rparr>,
          w1 \<lparr> rw_stats := (rw_stats w1) \<lparr> st_finish := st_finish (rw_stats w1) + 1 \<rparr> \<rparr>))"

section \<open>Bounded fields\<close>

lemma unat_cap_q15: "unat (cap_q15 n) = min (unat n) 32767"
proof -
  have "unat (min n (ucast PARP_Q15_ONE)) = min (unat n) 32767"
    by (simp add: min_def word_le_nat_alt)
  moreover have "unat (ucast (min n (ucast PARP_Q15_ONE)) :: u16) = unat (min n (ucast PARP_Q15_ONE))"
    using calculation by (simp add: unsigned_ucast_eq take_bit_nat_eq_self)
  ultimately show ?thesis by (simp add: cap_q15_def)
qed

lemma unat_cap_u32: "unat (cap_u32 n) = min (unat n) (2 ^ 32 - 1)"
proof -
  have "unat (min n (ucast U32_MAX)) = min (unat n) (2 ^ 32 - 1)"
    by (simp add: min_def word_le_nat_alt)
  moreover have "unat (ucast (min n (ucast U32_MAX)) :: u32) = unat (min n (ucast U32_MAX))"
    using calculation by (simp add: unsigned_ucast_eq take_bit_nat_eq_self)
  ultimately show ?thesis by (simp add: cap_u32_def)
qed

lemma unat_freshness:
  "unat (freshness_of now last_seen_ns) =
     (let age = unat (now - last_seen_ns)
      in if age \<ge> 60000000000 then 0 else 32767 - age * 32767 div 60000000000)"
proof (cases "now - last_seen_ns \<ge> PARP_EVIDENCE_TTL_NS")
  case True
  then show ?thesis by (simp add: freshness_of_def Let_def word_le_nat_alt)
next
  case False
  define d where "d = now - last_seen_ns"
  have d: "unat d < 60000000000" using False by (simp add: d_def word_le_nat_alt)
  then have m: "unat (d * 32767) = unat d * 32767"
    by (simp add: unat_word_ariths)
  then have q: "unat (d * 32767 div PARP_EVIDENCE_TTL_NS) = unat d * 32767 div 60000000000"
    by (simp add: unat_div)
  have le: "unat d * 32767 div 60000000000 \<le> 32767"
  proof -
    have "unat d * 32767 div 60000000000 \<le> 60000000000 * 32767 div (60000000000 :: nat)"
      using d by (intro div_le_mono mult_le_mono1) simp
    then show ?thesis by simp
  qed
  have "unat (32767 - d * 32767 div PARP_EVIDENCE_TTL_NS) =
      32767 - unat d * 32767 div 60000000000"
    using le by (subst unat_sub) (simp_all add: word_le_nat_alt q)
  then show ?thesis
    using False le by (simp add: freshness_of_def Let_def d_def unsigned_ucast_eq take_bit_nat_eq_self word_le_nat_alt)
qed

section \<open>What a file sample rests on\<close>

text \<open>C19. A file sample is backed by evidence. When the adapter reports a match, the folio belongs to a plain
  file mapping, the published snapshot was unexpired and holds an unexpired entry of the domain for this
  device, inode and file version that contains the whole folio, and the application bound to the domain
  now has the generation and the model version of the entry. The fractions of the sample are at most one,
  the support is the evidence of 30 seconds in 32 steps, and for evidence that is not newer than the
  clock the freshness falls from one to zero over the minute.\<close>

theorem parp_file_sample_backed:
  assumes "parp_file_sample_from_folio now lookup_now ctx folio sample w = ((True, sample'), w')"
  shows "\<exists>inode s e c. \<not> rf_swapcache folio \<and> rf_host folio = Some inode \<and> \<not> rf_shmem folio \<and>
     ev_snapshot (rw_evidence w) = Some s \<and> lookup_now < es_expires_ns s \<and> e \<in> set (es_files s) \<and>
     max now lookup_now < fe_expires_ns e \<and>
     entry_rank e = region_rank (rc_domain_id ctx) (folio_key inode) \<and>
     fk_start_index (fe_key e) \<le> rf_index folio \<and>
     rf_index folio + ucast (rf_nr_pages folio) \<le> fk_start_index (fe_key e) + ucast (fk_nr_pages (fe_key e)) \<and>
     parp_context_lookup (rw_active w) (rc_domain_id ctx) now = Some c \<and>
     fe_bind_generation e = ac_bind_generation c \<and> fe_model_version e = ac_model_version c \<and>
     ps_evidence_valid sample' \<and> ps_file_version sample' = fk_file_version (fe_key e) \<and>
     unat (ps_support_q15 sample') \<le> 32767 \<and> unat (ps_freshness_q15 sample') \<le> 32767 \<and>
     (unat (ws_access_evidence_30s (fe_windows e)) * 1024 < 2 ^ 64 \<longrightarrow>
        unat (ps_support_q15 sample') = min (unat (ws_access_evidence_30s (fe_windows e)) * 1024) 32767) \<and>
     (ws_last_seen_ns (fe_windows e) \<le> now \<longrightarrow>
        unat (ps_freshness_q15 sample') =
          (let age = unat now - unat (ws_last_seen_ns (fe_windows e))
           in if age \<ge> 60000000000 then 0 else 32767 - age * 32767 div 60000000000))"
proof -
  obtain inode where inode: "\<not> rf_swapcache folio" "rf_host folio = Some inode" "\<not> rf_shmem folio"
    using assms by (auto simp: parp_file_sample_from_folio_def Let_def split: if_splits option.splits)
  obtain found ev where l: "parp_evidence_lookup_file lookup_now (rc_domain_id ctx) (folio_key inode)
      (rf_index folio) (rf_nr_pages folio) (rw_evidence w) = (found, ev)" by fastforce
  obtain e c where e: "found = Some e" and c: "parp_context_lookup (rw_active w) (rc_domain_id ctx) now = Some c"
    "fe_bind_generation e = ac_bind_generation c" "fe_model_version e = ac_model_version c" "now < fe_expires_ns e"
    and s': "sample' = file_sample now e (fk_file_version (folio_key inode)) (rf_index folio) sample"
    using assms inode l
    by (auto simp: parp_file_sample_from_folio_def Let_def not_le split: if_splits option.splits)
  obtain s where s: "ev_snapshot (rw_evidence w) = Some s" "lookup_now < es_expires_ns s"
    "lookup_entries (es_files s) lookup_now (rc_domain_id ctx) (folio_key inode) (rf_index folio) (rf_nr_pages folio) = Some e"
    using l e by (auto simp: parp_evidence_lookup_file_def Let_def not_le split: if_splits option.splits)
  note ent = lookup_entries_sound [OF s(3)]
  have version: "fk_file_version (fe_key e) = fk_file_version (folio_key inode)"
    using ent(3) by (simp add: region_rank_def)
  have support: "unat (ps_support_q15 sample') = min (unat (ws_access_evidence_30s (fe_windows e) * 1024)) 32767"
    by (simp add: s' file_sample_def Let_def unat_cap_q15)
  have fresh: "ps_freshness_q15 sample' = freshness_of now (ws_last_seen_ns (fe_windows e))"
    by (simp add: s' file_sample_def Let_def)
  have "unat (ps_freshness_q15 sample') \<le> 32767"
    by (simp add: fresh unat_freshness Let_def)
  moreover have "unat (ws_access_evidence_30s (fe_windows e)) * 1024 < 2 ^ 64 \<longrightarrow>
      unat (ps_support_q15 sample') = min (unat (ws_access_evidence_30s (fe_windows e)) * 1024) 32767"
    unfolding support by (simp add: unat_word_ariths)
  moreover have "ws_last_seen_ns (fe_windows e) \<le> now \<longrightarrow>
      unat (now - ws_last_seen_ns (fe_windows e)) = unat now - unat (ws_last_seen_ns (fe_windows e))"
    by (simp add: unat_sub)
  ultimately show ?thesis
    using inode s c ent version support
    by (intro exI [of _ inode] exI [of _ s] exI [of _ e] exI [of _ c])
      (simp add: fresh unat_freshness, simp add: s' file_sample_def Let_def)
qed

text \<open>Witness of C19: the four pages 18 to 21 of a published region of pages 16 to 23.\<close>

definition sample_host :: parp_inode where
  "sample_host = \<lparr> nd_major = 8, nd_minor = 1, nd_ino = 42, nd_is_i_version = True,
     nd_iversion = 6, nd_generation = 0, nd_mode = 33188, nd_size = 1000000 \<rparr>"

definition sample_reclaim_folio :: reclaim_folio where
  "sample_reclaim_folio = \<lparr> rf_swapcache = False, rf_host = Some sample_host, rf_shmem = False,
     rf_index = 18, rf_nr_pages = 4, rf_dirty = False, rf_writeback = False, rf_evictable = True \<rparr>"

definition sample_reclaim_ctx :: parp_reclaim_ctx where
  "sample_reclaim_ctx = \<lparr> rc_domain_id = 5, rc_snapshot = Some sample_snapshot,
     rc_mode = PARP_MODE_OBSERVE, rc_rcu_held = True \<rparr>"

definition parp_stats_zero :: parp_stats where
  "parp_stats_zero = \<lparr> st_prepare = 0, st_scored = 0, st_proposed = (\<lambda>_. 0), st_fallback = (\<lambda>_. 0),
     st_finish = 0 \<rparr>"

definition sample_reclaim_world :: "parp_evidence_state \<Rightarrow> parp_reclaim_world" where
  "sample_reclaim_world ev = \<lparr> rw_modes = parp_domain_boot, rw_active = Some sample_snapshot,
     rw_evidence = ev, rw_folio_stats = \<lparr> fs_no_mapping = 0, fs_domain_mismatch = 0, fs_expired = 0 \<rparr>,
     rw_stats = parp_stats_zero, rw_rcu_depth = 0 \<rparr>"

definition sample_published :: parp_evidence_state where
  "sample_published = snd (parp_publish_evidence_locked sample_env 3000 sample_evidence)"

lemma sample_published_lookup:
  "\<exists>ev. parp_evidence_lookup_file 3000 5 (folio_key sample_host) 18 4 sample_published =
     (Some sample_file_entry, ev)"
proof -
  obtain ev' where ev': "parp_publish_evidence_locked sample_env 3000 sample_evidence = (None, ev')"
    by (simp add: parp_publish_evidence_locked_def sample_env_def Let_def)
  have files: "List.map_filter (file_entry (ee_active sample_env) (ev_version sample_evidence + 1) 3000)
      (bt_builders (ev_files sample_evidence)) = [sample_file_entry]"
    using sample_entry(1) by (simp add: sample_env_def sample_evidence_def evidence_boot_def List.map_filter_simps)
  have snap: "\<exists>s. ev_snapshot ev' = Some s \<and> es_files s = [sample_file_entry] \<and>
      es_expires_ns s = 3000 + PARP_EVIDENCE_TTL_NS"
    using publish_cases [OF ev'] files by (auto simp: sample_env_def)
  have "parp_compare_file_point sample_file_entry 5 (folio_key sample_host) 18 = 0"
    by (simp add: parp_compare_file_point_def region_cmps_def folio_key_def sample_host_def
        parp_adapter_file_version_def sample_entry sample_file_key_def parp_cmp_u64_def Let_def)
  then have "lookup_entries [sample_file_entry] 3000 5 (folio_key sample_host) 18 4 = Some sample_file_entry"
    by (simp add: lookup_entries_def point_search.simps sample_entry sample_file_key_def)
  then show ?thesis
    using snap by (auto simp: parp_evidence_lookup_file_def sample_published_def ev' Let_def)
qed

theorem parp_file_sample_backed_witness:
  "\<exists>sample' w'. parp_file_sample_from_folio 3000 3000 sample_reclaim_ctx sample_reclaim_folio
      (page_sample_of sample_reclaim_ctx sample_reclaim_folio True 2) (sample_reclaim_world sample_published) =
      ((True, sample'), w') \<and> ps_evidence_valid sample' \<and> unat (ps_freshness_q15 sample') \<le> 32767"
proof -
  obtain ev where ev: "parp_evidence_lookup_file 3000 5 (folio_key sample_host) 18 4 sample_published =
      (Some sample_file_entry, ev)" using sample_published_lookup by blast
  have "ac_domain_id sample_owner = 5" by (simp add: sample_owner_eq)
  then have owner: "fe_bind_generation sample_file_entry = ac_bind_generation sample_owner"
    "fe_model_version sample_file_entry = ac_model_version sample_owner"
    using sample_lookup
    by (simp_all add: sample_file_entry_def file_entry_def sample_file_builder_def owner_current_def
        sample_file_observation_def Let_def)
  have c: "rc_domain_id sample_reclaim_ctx = 5" by (simp add: sample_reclaim_ctx_def)
  have f: "rf_host sample_reclaim_folio = Some sample_host" "\<not> rf_swapcache sample_reclaim_folio"
    "\<not> rf_shmem sample_reclaim_folio" "rf_index sample_reclaim_folio = 18" "rf_nr_pages sample_reclaim_folio = 4"
    by (simp_all add: sample_reclaim_folio_def)
  have w: "rw_active (sample_reclaim_world sample_published) = Some sample_snapshot"
    "rw_evidence (sample_reclaim_world sample_published) = sample_published"
    by (simp_all add: sample_reclaim_world_def)
  have "fst (fst (parp_file_sample_from_folio 3000 3000 sample_reclaim_ctx sample_reclaim_folio
      (page_sample_of sample_reclaim_ctx sample_reclaim_folio True 2) (sample_reclaim_world sample_published)))"
    by (simp add: parp_file_sample_from_folio_def c f w ev sample_lookup owner sample_entry(4))
  then obtain s' w' where run: "parp_file_sample_from_folio 3000 3000 sample_reclaim_ctx sample_reclaim_folio
      (page_sample_of sample_reclaim_ctx sample_reclaim_folio True 2) (sample_reclaim_world sample_published) =
      ((True, s'), w')"
    by (metis (full_types) prod.collapse)
  have "ps_evidence_valid s' \<and> unat (ps_freshness_q15 s') \<le> 32767"
    using parp_file_sample_backed [OF run] by blast
  then show ?thesis using run by auto
qed

section \<open>Recorded and looked up\<close>

text \<open>C36. What the monitor records is what reclaim looks up. The file version under which a page range is
  recorded is the one the reclaim path computes for the inode, and the comparison of the search finds
  each page of the range inside the entry, under the same domain and inode, and no page outside of it.\<close>

theorem parp_recorded_page_matches:
  assumes "file_observation sample ctx vma inode start stop = Some ob"
    and "fe_key e = fo_key ob" and "fe_domain_id e = domain_id"
    and "unat (fk_start_index (fo_key ob)) + unat (fk_nr_pages (fo_key ob)) < 2 ^ 64"
  shows "parp_adapter_file_version inode = fst (parp_file_version inode) \<and>
     (parp_compare_file_point e domain_id (folio_key inode) index = 0 \<longleftrightarrow>
        unat (fk_start_index (fo_key ob)) \<le> unat index \<and>
        unat index < unat (fk_start_index (fo_key ob)) + unat (fk_nr_pages (fo_key ob)))"
proof -
  have version: "parp_adapter_file_version inode = fst (parp_file_version inode)"
    by (simp add: parp_adapter_file_version_def parp_file_version_def)
  have key: "fk_dev_major (fo_key ob) = nd_major inode" "fk_dev_minor (fo_key ob) = nd_minor inode"
    "fk_inode (fo_key ob) = nd_ino inode" "fk_file_version (fo_key ob) = parp_adapter_file_version inode"
    using assms(1) by (auto simp: file_observation_def version Let_def split: option.splits prod.splits)
  have rank: "entry_rank e = region_rank domain_id (folio_key inode)"
    by (simp add: region_rank_def assms(2,3) key folio_key_def)
  have ends: "region_end e < 2 ^ 64" using assms(2,4) by (simp add: region_end_def region_start_def)
  show ?thesis
    using version rank by (auto simp: point_compare [OF ends] region_start_def region_end_def assms(2))
qed

text \<open>Witness of C36: page 18 of the mapping of pages 16 to 23.\<close>

definition sample_recording_vma :: parp_vma where
  "sample_recording_vma = \<lparr> va_start = 65536, va_end = 98304, va_pgoff = 16, va_flags = 1,
     va_file = Some sample_host, va_unlinked = False, va_shmem = False, va_anonymous = False \<rparr>"

definition sample_recorded :: parp_file_observation where
  "sample_recorded =
     the (file_observation sample_damon sample_owner sample_recording_vma sample_host 65536 98304)"

lemma sample_recorded_ok:
  "file_observation sample_damon sample_owner sample_recording_vma sample_host 65536 98304 = Some sample_recorded"
  "fk_start_index (fo_key sample_recorded) = 16" "fk_nr_pages (fo_key sample_recorded) = 8"
proof -
  have "file_observation sample_damon sample_owner sample_recording_vma sample_host 65536 98304 \<noteq> None"
    by code_simp
  then show "file_observation sample_damon sample_owner sample_recording_vma sample_host 65536 98304 = Some sample_recorded"
    by (auto simp: sample_recorded_def)
  show "fk_start_index (fo_key sample_recorded) = 16" "fk_nr_pages (fo_key sample_recorded) = 8"
    by code_simp+
qed

theorem parp_recorded_page_matches_witness:
  "parp_compare_file_point (sample_file_entry \<lparr> fe_key := fo_key sample_recorded \<rparr>) 5 (folio_key sample_host) 18 = 0"
  using parp_recorded_page_matches [OF sample_recorded_ok(1), of "sample_file_entry \<lparr> fe_key := fo_key sample_recorded \<rparr>" 5 18]
  by (simp add: sample_recorded_ok(2,3) sample_entry(3))

section \<open>What an anonymous sample says\<close>

text \<open>C35. The active share of a domain is exact. When a published summary gives an anonymous sample, the
  application bound to the domain is the one the summary was made for, and the reported share is the
  pages accessed in the last 30 seconds over all pages of the published regions of the domain, rounded
  down; it is one exactly if all of them were accessed, and the product never wraps.\<close>

theorem parp_anon_sample_exact:
  fixes env ev now_ns w domain_id
  defines "own \<equiv> filter (\<lambda>e. ak_domain_id (ae_key e) = domain_id)
      (List.map_filter (anon_entry (ee_active env) (ev_version ev + 1) now_ns) (bt_builders (ev_anons ev)))"
    and "active \<equiv> pages_where (\<lambda>e. ws_access_evidence_30s (ae_windows e) \<noteq> 0)"
  assumes "parp_publish_evidence_locked env now_ns ev = (None, rw_evidence w)"
    and "length (bt_builders (ev_anons ev)) < 2 ^ 16"
    and "rc_domain_id ctx = domain_id"
    and "parp_anon_sample_from_domain now lookup_now ctx sample w = (True, sample')"
  shows "0 < pages_where (\<lambda>e. True) own \<and>
     unat (ps_active_ratio_q15 sample') = active own * 32767 div pages_where (\<lambda>e. True) own \<and>
     (unat (ps_active_ratio_q15 sample') = 32767 \<longleftrightarrow> active own = pages_where (\<lambda>e. True) own) \<and>
     (\<exists>c. parp_context_lookup (rw_active w) domain_id now = Some c \<and>
        ps_evidence_valid sample' \<and> unat (ps_accesses_30s sample') = min (active own) (2 ^ 32 - 1))"
proof -
  let ?all = "pages_where (\<lambda>e. True) own"
  obtain e c where e: "parp_evidence_lookup_anon_domain lookup_now domain_id (rw_evidence w) = Some e"
    "de_observed_pages e \<noteq> 0" and c: "parp_context_lookup (rw_active w) domain_id now = Some c"
    and s': "ps_active_ratio_q15 sample' =
        cap_q15 (de_active_pages_30s e * ucast PARP_Q15_ONE div de_observed_pages e)"
      "ps_accesses_30s sample' = cap_u32 (de_active_pages_30s e)" "ps_evidence_valid sample'"
    using assms(5,6) by (auto simp: parp_anon_sample_from_domain_def Let_def split: option.splits if_splits)
  have len: "length (bt_builders (ev_anons ev)) < 2 ^ 32" using assms(4) by simp
  have sums: "unat (de_observed_pages e) = ?all" "unat (de_active_pages_30s e) = active own"
    using domain_summary [OF assms(3) len, of domain_id lookup_now] e(1)
    by (simp_all add: own_def active_def)
  have pos: "0 < ?all" using e(2) sums(1) by (metis gr0I unat_eq_zero)
  have le: "active own \<le> ?all"
    unfolding active_def pages_where_def by (intro sum_list_mono) auto
  have small: "?all < 2 ^ 48"
  proof -
    have "length own \<le> length (List.map_filter (anon_entry (ee_active env) (ev_version ev + 1) now_ns)
        (bt_builders (ev_anons ev)))"
      unfolding own_def by (rule length_filter_le)
    also have "\<dots> \<le> length (bt_builders (ev_anons ev))" by (rule length_map_filter_le)
    also have "\<dots> < 2 ^ 16" by (rule assms(4))
    finally have "length own * (2 ^ 32 - 1) \<le> 2 ^ 16 * (2 ^ 32 - 1)" by (intro mult_le_mono1) simp
    moreover have "?all \<le> length own * (2 ^ 32 - 1)"
    proof -
      have "unat x \<le> 2 ^ 32 - 1" for x :: u32 using unat_u32_bound [of x] by simp
      then have "?all \<le> (\<Sum>e\<leftarrow>own. 2 ^ 32 - 1)"
        unfolding pages_where_def by (intro sum_list_mono) simp
      then show ?thesis by (simp add: sum_list_triv)
    qed
    ultimately have "?all \<le> 2 ^ 16 * (2 ^ 32 - 1)" by (rule order_trans [rotated])
    then show ?thesis by simp
  qed
  let ?q = "active own * 32767 div ?all"
  have prod: "unat (de_active_pages_30s e * 32767) = active own * 32767"
    using le small by (simp add: unat_word_ariths sums)
  have q: "?q \<le> 32767"
  proof -
    have "?q \<le> ?all * 32767 div ?all" using le by (intro div_le_mono mult_le_mono1)
    then show ?thesis using pos by simp
  qed
  have ratio: "unat (ps_active_ratio_q15 sample') = ?q"
    using q by (simp add: s' unat_cap_q15 unat_div prod sums)
  have "?q = 32767 \<longleftrightarrow> active own = ?all"
  proof
    assume "?q = 32767"
    then have "?all * 32767 \<le> active own * 32767"
      by (metis div_times_less_eq_dividend mult.commute)
    then show "active own = ?all" using le by simp
  qed (use pos in simp)
  then show ?thesis
    using pos ratio c s'(3) by (simp add: s'(2) unat_cap_u32 sums)
qed

text \<open>Witness of C35: one region of eight pages, all accessed.\<close>

lemma sample_anon_published:
  "\<exists>ev' e. parp_publish_evidence_locked sample_env 3000 sample_anon_state = (None, ev') \<and>
     List.map_filter (anon_entry (ee_active sample_env) (ev_version sample_anon_state + 1) 3000)
       (bt_builders (ev_anons sample_anon_state)) = [e] \<and> ae_key e = sample_anon_key"
proof -
  obtain ev' where pub: "parp_publish_evidence_locked sample_env 3000 sample_anon_state = (None, ev')"
    by (simp add: parp_publish_evidence_locked_def sample_env_def Let_def)
  have "\<exists>e. List.map_filter (anon_entry (ee_active sample_env) (ev_version sample_anon_state + 1) 3000)
      (bt_builders (ev_anons sample_anon_state)) = [e] \<and> ae_key e = sample_anon_key"
    using sample_lookup
    by (simp add: List.map_filter_simps sample_anon_state_def sample_env_def anon_entry_def
        sample_anon_observation_def owner_current_def sample_owner_eq sample_anon_key_def Let_def)
  then show ?thesis using pub by blast
qed

definition sample_anon_world :: parp_reclaim_world where
  "sample_anon_world =
     sample_reclaim_world (snd (parp_publish_evidence_locked sample_env 3000 sample_anon_state))"

theorem parp_anon_sample_exact_witness:
  "\<exists>sample'. parp_anon_sample_from_domain 3000 3000 sample_reclaim_ctx
      (page_sample_of sample_reclaim_ctx sample_reclaim_folio False 2) sample_anon_world = (True, sample') \<and>
    ps_evidence_valid sample'"
proof -
  have "fst (parp_anon_sample_from_domain 3000 3000 sample_reclaim_ctx
      (page_sample_of sample_reclaim_ctx sample_reclaim_folio False 2) sample_anon_world)"
    by code_simp
  then obtain s' where run: "parp_anon_sample_from_domain 3000 3000 sample_reclaim_ctx
      (page_sample_of sample_reclaim_ctx sample_reclaim_folio False 2) sample_anon_world = (True, s')"
    by (metis (full_types) prod.collapse)
  obtain ev' where pub: "parp_publish_evidence_locked sample_env 3000 sample_anon_state = (None, ev')"
    using sample_anon_published by blast
  then have "parp_publish_evidence_locked sample_env 3000 sample_anon_state = (None, rw_evidence sample_anon_world)"
    by (simp add: sample_anon_world_def sample_reclaim_world_def)
  from parp_anon_sample_exact [OF this _ _ run, of 5] run show ?thesis
    by (simp add: sample_anon_state_def sample_reclaim_ctx_def)
qed

section \<open>Reclaim stays native\<close>

text \<open>
  The calls of a scan (\<open>scan_folios\<close> in \<open>mm/vmscan.c\<close>): prepare, then score and apply for each folio,
  then finish. \<open>turn\<close> is what other CPUs do to the modes, the snapshot and the evidence between two
  folios; a read-side section of this scan is not theirs to close.
\<close>

fun adapter_scan_folios ::
  "(parp_snapshot option \<Rightarrow> parp_page_sample \<Rightarrow> parp_decision) \<Rightarrow>
   (parp_decision \<Rightarrow> parp_stats \<Rightarrow> parp_stats) \<Rightarrow> (parp_reclaim_world \<Rightarrow> parp_reclaim_world) \<Rightarrow>
   parp_reclaim_ctx \<Rightarrow> bool \<Rightarrow> u8 \<Rightarrow> (u64 \<times> u64 \<times> reclaim_folio) list \<Rightarrow> parp_reclaim_world \<Rightarrow>
   parp_decision list \<times> parp_reclaim_world" where
  "adapter_scan_folios engine account turn ctx lru_type gen [] w = ([], w)"
| "adapter_scan_folios engine account turn ctx lru_type gen ((now, lookup_now, folio) # rest) w =
     (let (decision, w1) = parp_adapter_score_folio engine account now lookup_now ctx folio lru_type gen w;
          (decisions, w2) = adapter_scan_folios engine account turn ctx lru_type gen rest (turn w1)
      in (parp_adapter_apply_decision decision # decisions, w2))"

definition adapter_scan ::
  "(parp_snapshot option \<Rightarrow> parp_page_sample \<Rightarrow> parp_decision) \<Rightarrow>
   (parp_decision \<Rightarrow> parp_stats \<Rightarrow> parp_stats) \<Rightarrow> (parp_reclaim_world \<Rightarrow> parp_reclaim_world) \<Rightarrow>
   u64 \<Rightarrow> bool \<Rightarrow> u8 \<Rightarrow> (u64 \<times> u64 \<times> reclaim_folio) list \<Rightarrow> parp_reclaim_world \<Rightarrow>
   parp_decision list \<times> parp_reclaim_world" where
  "adapter_scan engine account turn domain_id lru_type gen folios w =
     (let (ctx, w1) = parp_adapter_prepare domain_id w;
          (decisions, w2) = adapter_scan_folios engine account turn ctx lru_type gen folios w1;
          (ctx3, w3) = parp_adapter_finish (ctx, w2)
      in (decisions, w3))"

lemma file_sample_depth:
  "parp_file_sample_from_folio now lookup_now ctx folio sample w = (r, w') \<Longrightarrow>
   rw_rcu_depth w' = rw_rcu_depth w \<and> rw_modes w' = rw_modes w"
  by (auto simp: parp_file_sample_from_folio_def Let_def split: if_splits option.splits prod.splits)

lemma score_folio_depth:
  assumes "parp_adapter_score_folio engine account now lookup_now ctx folio lru_type gen w = (d, w')"
  shows "rw_rcu_depth w' = rw_rcu_depth w \<and> rw_modes w' = rw_modes w \<and>
     (rc_mode ctx = PARP_MODE_DISABLED \<or> parp_get_evidence_mode (rw_modes w) = PARP_EVIDENCE_ONLY \<longrightarrow>
        dc_original_action d = PARP_ACTION_NATIVE)"
  using assms file_sample_depth
  by (auto simp: parp_adapter_score_folio_def native_decision_def Let_def split: if_splits prod.splits)

text \<open>C21. Reclaim stays native. Whatever the scoring engine answers and whatever other CPUs do to modes,
  snapshot and evidence during the scan, there is one decision per folio, what is applied to it is its
  original action, and the read-side sections are balanced, also when the mode changes on the way. While
  the policy is disabled or only collects evidence, every applied action is the native one.\<close>

theorem parp_adapter_scan_native:
  assumes "\<forall>w. rw_rcu_depth (turn w) = rw_rcu_depth w"
    and "adapter_scan engine account turn domain_id lru_type gen folios w = (decisions, w')"
  shows "length decisions = length folios \<and>
     (\<forall>d \<in> set decisions. dc_applied_action d = dc_original_action d) \<and>
     rw_rcu_depth w' = rw_rcu_depth w \<and>
     (parp_get_mode (rw_modes w) = PARP_MODE_DISABLED \<or>
      (parp_get_evidence_mode (rw_modes w) = PARP_EVIDENCE_ONLY \<and>
       (\<forall>w. parp_get_evidence_mode (rw_modes (turn w)) = parp_get_evidence_mode (rw_modes w))) \<longrightarrow>
      (\<forall>d \<in> set decisions. dc_applied_action d = PARP_ACTION_NATIVE))"
proof -
  have loop: "length ds = length fs \<and> (\<forall>d \<in> set ds. dc_applied_action d = dc_original_action d) \<and>
      rw_rcu_depth v' = rw_rcu_depth v \<and>
      (rc_mode ctx = PARP_MODE_DISABLED \<or>
       (parp_get_evidence_mode (rw_modes v) = PARP_EVIDENCE_ONLY \<and>
        (\<forall>w. parp_get_evidence_mode (rw_modes (turn w)) = parp_get_evidence_mode (rw_modes w))) \<longrightarrow>
       (\<forall>d \<in> set ds. dc_applied_action d = PARP_ACTION_NATIVE))"
    if "adapter_scan_folios engine account turn ctx lru_type gen fs v = (ds, v')" for ctx fs v ds v'
    using that
  proof (induction fs arbitrary: v ds)
    case Nil
    then show ?case by simp
  next
    case (Cons f fs)
    obtain now lookup_now folio where f: "f = (now, lookup_now, folio)" by (cases f) auto
    obtain d v1 where d: "parp_adapter_score_folio engine account now lookup_now ctx folio lru_type gen v = (d, v1)"
      by fastforce
    obtain ds1 where ds1: "adapter_scan_folios engine account turn ctx lru_type gen fs (turn v1) = (ds1, v')"
      "ds = parp_adapter_apply_decision d # ds1"
      using Cons.prems by (auto simp: f d Let_def split: prod.splits)
    show ?case
      using Cons.IH [OF ds1(1)] score_folio_depth [OF d] assms(1)
      by (auto simp: ds1(2) parp_adapter_apply_decision_def)
  qed
  obtain ctx w1 where prep: "parp_adapter_prepare domain_id w = (ctx, w1)" by fastforce
  obtain w2 where scan: "adapter_scan_folios engine account turn ctx lru_type gen folios w1 = (decisions, w2)"
    and fin: "snd (parp_adapter_finish (ctx, w2)) = w'"
    using assms(2) by (auto simp: adapter_scan_def prep Let_def split: prod.splits)
  have ctx: "rc_mode ctx = parp_get_mode (rw_modes w)" "rw_modes w1 = rw_modes w"
    "rw_rcu_depth w1 = (if rc_rcu_held ctx then rw_rcu_depth w + 1 else rw_rcu_depth w)"
    using prep by (auto simp: parp_adapter_prepare_def Let_def split: if_splits)
  have "rw_rcu_depth w' = rw_rcu_depth w"
    using loop [OF scan] ctx(3) fin by (auto simp: parp_adapter_finish_def Let_def split: if_splits)
  then show ?thesis using loop [OF scan] ctx(1,2) by auto
qed

text \<open>Witness of C21: an engine that asks for protection.\<close>

definition eager_engine :: "parp_snapshot option \<Rightarrow> parp_page_sample \<Rightarrow> parp_decision" where
  "eager_engine snapshot sample = (native_decision PARP_FALLBACK_NONE) \<lparr>
     dc_proposed_action := PARP_ACTION_PROTECT, dc_applied_action := PARP_ACTION_PROTECT \<rparr>"

theorem parp_adapter_scan_native_witness:
  "\<exists>d w'. adapter_scan eager_engine (\<lambda>d s. s) (\<lambda>w. w) 5 True 2 [(3000, 3000, sample_reclaim_folio)]
      (sample_reclaim_world sample_published) = ([d], w') \<and> dc_applied_action d = PARP_ACTION_NATIVE"
proof -
  obtain ds w' where run: "adapter_scan eager_engine (\<lambda>d s. s) (\<lambda>w. w) 5 True 2
      [(3000, 3000, sample_reclaim_folio)] (sample_reclaim_world sample_published) = (ds, w')"
    by fastforce
  have mode: "parp_get_evidence_mode (rw_modes (sample_reclaim_world sample_published)) = PARP_EVIDENCE_ONLY"
    by (simp add: parp_get_evidence_mode_def sample_reclaim_world_def parp_domain_boot_def)
  have all: "length ds = 1 \<and> (\<forall>d \<in> set ds. dc_applied_action d = PARP_ACTION_NATIVE)"
    using parp_adapter_scan_native [OF _ run] mode by auto
  then obtain d where "ds = [d]" by (metis One_nat_def length_0_conv length_Suc_conv)
  then show ?thesis using run all by simp
qed

end
