(* ===== verification/Mglru.thy ===== *)
theory Mglru
  imports Tier_Gate
begin

text \<open>
  The generation lists of one lruvec, as the reclaim hooks find them: \<open>struct lru_gen_folio\<close>
  (\<open>include/linux/mmzone.h\<close>), the primitives of \<open>include/linux/mm_inline.h\<close>, and the three ways in which
  \<open>mm/vmscan.c\<close> changes the generation of a folio: \<open>folio_update_gen\<close>, \<open>folio_inc_gen\<close> and the policy's
  own \<open>parp_policy_inc_gen\<close>.

  A folio is named by a number; a list is the list of names, head first. A type is \<open>True\<close> for file
  pages. The lru lock is held, so only the word \<open>folio->flags\<close> changes under the code: other CPUs are
  functions applied to it before an access. The layout of the word depends on the configuration and is
  a parameter.
\<close>

section \<open>The flags of a folio\<close>

record flag_layout =
  fl_gen_pgoff :: nat
  fl_refs_pgoff :: nat
  fl_refs_width :: nat
  fl_referenced :: nat
  fl_workingset :: nat
  fl_reclaim :: nat
  fl_dirty :: nat
  fl_writeback :: nat
  fl_unevictable :: nat

text \<open>The fields lie in the word and do not overlap; the width is that of \<open>MAX_NR_TIERS - 2\<close> bits at most.\<close>

definition layout_bits :: "flag_layout \<Rightarrow> nat list" where
  "layout_bits l = [fl_gen_pgoff l, fl_gen_pgoff l + 1, fl_gen_pgoff l + 2, fl_referenced l,
     fl_workingset l, fl_reclaim l, fl_dirty l, fl_writeback l, fl_unevictable l] @
     map (\<lambda>i. fl_refs_pgoff l + i) [0..<fl_refs_width l]"

definition layout_ok :: "flag_layout \<Rightarrow> bool" where
  "layout_ok l \<longleftrightarrow> distinct (layout_bits l) \<and> (\<forall>b \<in> set (layout_bits l). b < 64) \<and> fl_refs_width l \<le> 2"

text \<open>\<open>BIT (n)\<close> at the width of the word.\<close>

definition flag_bit :: "nat \<Rightarrow> u64" where "flag_bit n = push_bit n 1"

abbreviation gen_mask :: "flag_layout \<Rightarrow> u64" where "gen_mask l \<equiv> LRU_GEN_MASK (fl_gen_pgoff l)"

definition LRU_REFS_MASK :: "flag_layout \<Rightarrow> u64" where
  "LRU_REFS_MASK l = push_bit (fl_refs_pgoff l) (mask (fl_refs_width l))"

definition LRU_REFS_FLAGS :: "flag_layout \<Rightarrow> u64" where
  "LRU_REFS_FLAGS l = LRU_REFS_MASK l OR flag_bit (fl_referenced l)"

definition parp_lru_gen_from_flags :: "flag_layout \<Rightarrow> u64 \<Rightarrow> int" where
  "parp_lru_gen_from_flags l flags =
     uint (drop_bit (fl_gen_pgoff l) (flags AND gen_mask l)) - 1"

definition parp_lru_refs_from_flags :: "flag_layout \<Rightarrow> u64 \<Rightarrow> int" where
  "parp_lru_refs_from_flags l flags =
     (if flags AND flag_bit (fl_referenced l) = 0 then 0
      else uint (drop_bit (fl_refs_pgoff l) (flags AND LRU_REFS_MASK l)) + 1)"

definition flag_workingset :: "flag_layout \<Rightarrow> u64 \<Rightarrow> bool" where
  "flag_workingset l flags \<longleftrightarrow> flags AND flag_bit (fl_workingset l) \<noteq> 0"

definition order_base_2 :: "int \<Rightarrow> int" where
  "order_base_2 n = (if n \<le> 1 then 0 else int (fls_nat (nat (n - 1))))"

definition lru_tier_from_refs :: "int \<Rightarrow> bool \<Rightarrow> int" where
  "lru_tier_from_refs refs workingset = (if workingset then 3 else order_base_2 refs)"

text \<open>\<open>refs + workingset == BIT (LRU_REFS_WIDTH) + 1\<close>: all bits are set, the folio is promoted lazily.\<close>

definition refs_full :: "flag_layout \<Rightarrow> int \<Rightarrow> bool \<Rightarrow> bool" where
  "refs_full l refs workingset \<longleftrightarrow> refs + of_bool workingset = 2 ^ fl_refs_width l + 1"

section \<open>The lists\<close>

abbreviation MAX_NR_ZONES :: nat where "MAX_NR_ZONES \<equiv> 5"
abbreviation NR_HIST_GENS :: nat where "NR_HIST_GENS \<equiv> 1"
abbreviation MAX_NR_TIERS :: int where "MAX_NR_TIERS \<equiv> 4"
abbreviation MIN_LRU_BATCH :: u64 where "MIN_LRU_BATCH \<equiv> 64"

text \<open>
  \<open>lg_lru_size type active zone\<close> is the size the active/inactive interface shows, \<open>lg_unevictable\<close> that of
  the unevictable list. Page counts are \<open>long\<close> and may be transiently negative.
\<close>

record lru_gen_folio =
  lg_max_seq :: u64
  lg_min_seq :: "bool \<Rightarrow> u64"
  lg_folios :: "int \<Rightarrow> bool \<Rightarrow> nat \<Rightarrow> nat list"
  lg_nr_pages :: "int \<Rightarrow> bool \<Rightarrow> nat \<Rightarrow> int"
  lg_avg_refaulted :: "bool \<Rightarrow> int \<Rightarrow> u64"
  lg_avg_total :: "bool \<Rightarrow> int \<Rightarrow> u64"
  lg_protected :: "nat \<Rightarrow> bool \<Rightarrow> int \<Rightarrow> u64"
  lg_evicted :: "nat \<Rightarrow> bool \<Rightarrow> int \<Rightarrow> u64"
  lg_refaulted :: "nat \<Rightarrow> bool \<Rightarrow> int \<Rightarrow> u64"
  lg_lru_size :: "bool \<Rightarrow> bool \<Rightarrow> nat \<Rightarrow> int"
  lg_unevictable :: "nat \<Rightarrow> int"

text \<open>What the code reads of a folio beside its flags; \<open>ff_pages\<close> is \<open>folio_nr_pages\<close>.\<close>

record folio_facts =
  ff_id :: nat
  ff_type :: bool
  ff_zone :: nat
  ff_pages :: u64
  ff_evictable :: bool

definition gen_of_seq :: "u64 \<Rightarrow> int" where
  "gen_of_seq seq = uint seq mod MAX_NR_GENS"

definition lru_hist_from_seq :: "u64 \<Rightarrow> nat" where
  "lru_hist_from_seq seq = unat seq mod NR_HIST_GENS"

definition oldest_gen :: "bool \<Rightarrow> lru_gen_folio \<Rightarrow> int" where
  "oldest_gen lru_type lr = gen_of_seq (lg_min_seq lr lru_type)"

text \<open>The list operations of the kernel on a family of lists of which each node is in one.\<close>

definition list_del :: "nat \<Rightarrow> lru_gen_folio \<Rightarrow> lru_gen_folio" where
  "list_del x lr = lr \<lparr> lg_folios := (\<lambda>g t z. removeAll x (lg_folios lr g t z)) \<rparr>"

definition list_put :: "bool \<Rightarrow> nat \<Rightarrow> int \<Rightarrow> bool \<Rightarrow> nat \<Rightarrow> lru_gen_folio \<Rightarrow> lru_gen_folio" where
  "list_put front x gen lru_type zone lr = lr \<lparr> lg_folios :=
     (\<lambda>g t z. if g = gen \<and> t = lru_type \<and> z = zone
              then (if front then x # lg_folios lr g t z else lg_folios lr g t z @ [x])
              else lg_folios lr g t z) \<rparr>"

definition list_move :: "folio_facts \<Rightarrow> int \<Rightarrow> lru_gen_folio \<Rightarrow> lru_gen_folio" where
  "list_move f gen lr = list_put True (ff_id f) gen (ff_type f) (ff_zone f) (list_del (ff_id f) lr)"

definition list_move_tail :: "folio_facts \<Rightarrow> int \<Rightarrow> lru_gen_folio \<Rightarrow> lru_gen_folio" where
  "list_move_tail f gen lr = list_put False (ff_id f) gen (ff_type f) (ff_zone f) (list_del (ff_id f) lr)"

definition lru_gen_is_active :: "lru_gen_folio \<Rightarrow> int \<Rightarrow> bool" where
  "lru_gen_is_active lr gen \<longleftrightarrow>
     gen = gen_of_seq (lg_max_seq lr) \<or> gen = gen_of_seq (lg_max_seq lr - 1)"

definition add_nr_pages :: "folio_facts \<Rightarrow> int \<Rightarrow> int \<Rightarrow> lru_gen_folio \<Rightarrow> lru_gen_folio" where
  "add_nr_pages f gen delta lr = lr \<lparr> lg_nr_pages :=
     (\<lambda>g t z. if g = gen \<and> t = ff_type f \<and> z = ff_zone f then lg_nr_pages lr g t z + delta
              else lg_nr_pages lr g t z) \<rparr>"

definition update_lru_size :: "folio_facts \<Rightarrow> bool \<Rightarrow> int \<Rightarrow> lru_gen_folio \<Rightarrow> lru_gen_folio" where
  "update_lru_size f active delta lr = lr \<lparr> lg_lru_size :=
     (\<lambda>t a z. if t = ff_type f \<and> a = active \<and> z = ff_zone f then lg_lru_size lr t a z + delta
              else lg_lru_size lr t a z) \<rparr>"

definition lru_gen_update_size :: "folio_facts \<Rightarrow> int \<Rightarrow> int \<Rightarrow> lru_gen_folio \<Rightarrow> lru_gen_folio" where
  "lru_gen_update_size f old_gen new_gen lr0 =
     (let delta = uint (ff_pages f);
          lr1 = (if old_gen \<ge> 0 then add_nr_pages f old_gen (- delta) lr0 else lr0);
          lr = (if new_gen \<ge> 0 then add_nr_pages f new_gen delta lr1 else lr1)
      in if old_gen < 0 then update_lru_size f (lru_gen_is_active lr new_gen) delta lr
         else if new_gen < 0 then update_lru_size f (lru_gen_is_active lr old_gen) (- delta) lr
         else if \<not> lru_gen_is_active lr old_gen \<and> lru_gen_is_active lr new_gen
         then update_lru_size f True delta (update_lru_size f False (- delta) lr)
         else lr)"

section \<open>Changing a generation\<close>

text \<open>The page-table walkers; \<open>None\<close> is the return value -1. They do not hold the lru lock.\<close>

definition update_gen_flags :: "flag_layout \<Rightarrow> int \<Rightarrow> u64 \<Rightarrow> u64" where
  "update_gen_flags l gen flags =
     (flags AND NOT (gen_mask l OR LRU_REFS_FLAGS l)) OR
     push_bit (fl_gen_pgoff l) (word_of_int gen + 1) OR flag_bit (fl_workingset l)"

text \<open>
  The loop of compare-and-exchange: each element of \<open>others\<close> is a change made between a read and the
  following attempt. The lists are finite: an attempt that nobody disturbs succeeds.
\<close>

fun folio_update_gen_loop ::
  "flag_layout \<Rightarrow> int \<Rightarrow> (u64 \<Rightarrow> u64) list \<Rightarrow> u64 \<Rightarrow> int \<times> u64" where
  "folio_update_gen_loop l gen others flags =
     (if flags AND gen_mask l = 0 then (- 1, flags)
      else case others of
        [] \<Rightarrow> (parp_lru_gen_from_flags l flags, update_gen_flags l gen flags)
      | change # rest \<Rightarrow>
          if change flags = flags then (parp_lru_gen_from_flags l flags, update_gen_flags l gen flags)
          else folio_update_gen_loop l gen rest (change flags))"

definition folio_update_gen :: "flag_layout \<Rightarrow> int \<Rightarrow> (u64 \<Rightarrow> u64) list \<Rightarrow> u64 \<Rightarrow> int \<times> u64" where
  "folio_update_gen l gen others flags =
     (if flags AND flag_bit (fl_referenced l) = 0 \<and> \<not> flag_workingset l flags
      then (- 1, (flags AND NOT (LRU_REFS_MASK l)) OR flag_bit (fl_referenced l))
      else folio_update_gen_loop l gen others flags)"

definition inc_gen_flags :: "flag_layout \<Rightarrow> int \<Rightarrow> bool \<Rightarrow> u64 \<Rightarrow> u64" where
  "inc_gen_flags l new_gen reclaiming flags =
     (let new_flags = (flags AND NOT (gen_mask l OR LRU_REFS_FLAGS l)) OR
                      push_bit (fl_gen_pgoff l) (word_of_int new_gen + 1)
      in if reclaiming then new_flags OR flag_bit (fl_reclaim l) else new_flags)"

text \<open>The result is the new generation, whether this call moved the folio, and the flags.\<close>

fun inc_gen_loop ::
  "flag_layout \<Rightarrow> int \<Rightarrow> bool \<Rightarrow> (u64 \<Rightarrow> u64) list \<Rightarrow> u64 \<Rightarrow> int \<times> bool \<times> u64" where
  "inc_gen_loop l old_gen reclaiming others flags =
     (let current = parp_lru_gen_from_flags l flags; new_gen = (old_gen + 1) mod MAX_NR_GENS
      in if current \<ge> 0 \<and> current \<noteq> old_gen then (current, False, flags)
         else case others of
           [] \<Rightarrow> (new_gen, True, inc_gen_flags l new_gen reclaiming flags)
         | change # rest \<Rightarrow>
             if change flags = flags then (new_gen, True, inc_gen_flags l new_gen reclaiming flags)
             else inc_gen_loop l old_gen reclaiming rest (change flags))"

declare inc_gen_loop.simps [simp del] folio_update_gen_loop.simps [simp del]

definition folio_inc_gen ::
  "flag_layout \<Rightarrow> (u64 \<Rightarrow> u64) list \<Rightarrow> folio_facts \<Rightarrow> bool \<Rightarrow> u64 \<times> lru_gen_folio \<Rightarrow>
   int \<times> bool \<times> u64 \<times> lru_gen_folio" where
  "folio_inc_gen l others f reclaiming fl =
     (let (flags, lr) = fl; old_gen = oldest_gen (ff_type f) lr;
          (new_gen, moved, flags1) = inc_gen_loop l old_gen reclaiming others flags
      in (new_gen, moved, flags1, if moved then lru_gen_update_size f old_gen new_gen lr else lr))"

text \<open>\<open>change\<close> is what other CPUs do between the read and the one attempt.\<close>

definition parp_policy_inc_gen ::
  "flag_layout \<Rightarrow> (u64 \<Rightarrow> u64) \<Rightarrow> folio_facts \<Rightarrow> u64 \<times> lru_gen_folio \<Rightarrow>
   int option \<times> u64 \<times> lru_gen_folio" where
  "parp_policy_inc_gen l change f fl =
     (let (flags, lr) = fl; old_gen = oldest_gen (ff_type f) lr
      in if parp_lru_gen_from_flags l flags \<noteq> old_gen then (None, flags, lr)
         else case parp_effective_tier_next_generation old_gen of
           Inl e \<Rightarrow> (None, flags, lr)
         | Inr new_gen \<Rightarrow>
             if change flags \<noteq> flags then (None, change flags, lr)
             else (Some new_gen, parp_effective_tier_policy_flags (fl_gen_pgoff l) flags new_gen,
                   lru_gen_update_size f old_gen new_gen lr))"

text \<open>
  \<open>lru_gen_del_folio (lruvec, folio, true)\<close>, and \<open>folio_set_unevictable\<close> with \<open>lruvec_add_folio\<close> for a folio
  that became unevictable: \<open>lru_gen_add_folio\<close> refuses it and the unevictable list only has a size.
\<close>

definition lru_gen_del_folio ::
  "flag_layout \<Rightarrow> (u64 \<Rightarrow> u64) \<Rightarrow> folio_facts \<Rightarrow> u64 \<times> lru_gen_folio \<Rightarrow>
   bool \<times> u64 \<times> lru_gen_folio" where
  "lru_gen_del_folio l change f fl =
     (let (flags, lr) = fl
      in if parp_lru_gen_from_flags l flags < 0 then (False, flags, lr)
         else let flags1 = change flags
              in (True, flags1 AND NOT (gen_mask l),
                  list_del (ff_id f)
                    (lru_gen_update_size f (parp_lru_gen_from_flags l flags1) (- 1) lr)))"

definition lru_add_unevictable ::
  "flag_layout \<Rightarrow> folio_facts \<Rightarrow> u64 \<times> lru_gen_folio \<Rightarrow> u64 \<times> lru_gen_folio" where
  "lru_add_unevictable l f fl =
     (let (flags, lr) = fl
      in (flags OR flag_bit (fl_unevictable l),
          lr \<lparr> lg_unevictable := (lg_unevictable lr)
                 (ff_zone f := lg_unevictable lr (ff_zone f) + uint (ff_pages f)) \<rparr>))"

section \<open>Reading back the flags\<close>

lemma flag_test: "(flags :: u64) AND flag_bit b = 0 \<longleftrightarrow> \<not> bit flags b"
  unfolding flag_bit_def by (simp only: bit_iff_and_push_bit_not_eq_0 not_not)

lemma and_eq_0: "(a :: u64) AND b = 0 \<longleftrightarrow> (\<forall>n < 64. bit a n \<longrightarrow> \<not> bit b n)"
proof
  assume "a AND b = 0"
  then have "\<not> bit (a AND b) n" for n by simp
  then show "\<forall>n < 64. bit a n \<longrightarrow> \<not> bit b n" by (simp add: bit_and_iff)
next
  assume "\<forall>n < 64. bit a n \<longrightarrow> \<not> bit b n"
  then show "a AND b = 0" by (intro bit_word_eqI) (simp add: bit_and_iff)
qed

lemma bit_flag: "bit (flag_bit b) n \<longleftrightarrow> n = b \<and> n < 64"
  by (auto simp: flag_bit_def bit_simps)

lemma bit_refs_mask: "bit (LRU_REFS_MASK l) n \<longleftrightarrow> fl_refs_pgoff l \<le> n \<and> n < fl_refs_pgoff l + fl_refs_width l \<and> n < 64"
  by (auto simp: LRU_REFS_MASK_def bit_simps)

lemma bit_refs_flags:
  "bit (LRU_REFS_FLAGS l) n \<longleftrightarrow>
     (fl_refs_pgoff l \<le> n \<and> n < fl_refs_pgoff l + fl_refs_width l \<or> n = fl_referenced l) \<and> n < 64"
  by (auto simp: LRU_REFS_FLAGS_def bit_refs_mask bit_or_iff bit_flag)

lemmas flag_bits = bit_LRU_GEN_MASK bit_refs_mask bit_refs_flags

lemma layout_distinct:
  "layout_ok l \<Longrightarrow> distinct [fl_gen_pgoff l, fl_gen_pgoff l + 1, fl_gen_pgoff l + 2, fl_referenced l,
     fl_workingset l, fl_reclaim l, fl_dirty l, fl_writeback l, fl_unevictable l]"
  unfolding layout_ok_def layout_bits_def distinct_append by blast

lemma layout_gen:
  assumes "layout_ok l"
  shows "fl_gen_pgoff l + 3 \<le> 64" and "fl_refs_pgoff l + fl_refs_width l \<le> 64 \<or> fl_refs_width l = 0"
    and "fl_referenced l < 64" "fl_workingset l < 64" "fl_reclaim l < 64"
    and "fl_dirty l < 64" "fl_writeback l < 64" "fl_unevictable l < 64"
proof -
  have "b \<in> set (layout_bits l) \<Longrightarrow> b < 64" for b using assms by (simp add: layout_ok_def)
  from this [of "fl_gen_pgoff l + 2"] this [of "fl_refs_pgoff l + (fl_refs_width l - 1)"]
    this [of "fl_referenced l"] this [of "fl_workingset l"] this [of "fl_reclaim l"]
    this [of "fl_dirty l"] this [of "fl_writeback l"] this [of "fl_unevictable l"]
  show "fl_gen_pgoff l + 3 \<le> 64" "fl_refs_pgoff l + fl_refs_width l \<le> 64 \<or> fl_refs_width l = 0"
    "fl_referenced l < 64" "fl_workingset l < 64" "fl_reclaim l < 64"
    "fl_dirty l < 64" "fl_writeback l < 64" "fl_unevictable l < 64"
    by (auto simp: layout_bits_def image_iff)
qed

lemma not_gen_bit:
  assumes "layout_ok l"
    and "b \<in> {fl_referenced l, fl_workingset l, fl_reclaim l, fl_dirty l, fl_writeback l, fl_unevictable l} \<union>
         (\<lambda>i. fl_refs_pgoff l + i) ` {0..<fl_refs_width l}"
  shows "\<not> (fl_gen_pgoff l \<le> b \<and> b < fl_gen_pgoff l + 3)"
proof -
  have "b \<noteq> fl_gen_pgoff l" "b \<noteq> fl_gen_pgoff l + 1" "b \<noteq> fl_gen_pgoff l + 2"
    using assms unfolding layout_ok_def layout_bits_def distinct_append by auto
  then show ?thesis by linarith
qed

lemma refs_not_gen:
  assumes "layout_ok l"
  shows "LRU_REFS_FLAGS l AND gen_mask l = 0" and "LRU_REFS_MASK l AND gen_mask l = 0"
    and "flag_bit (fl_workingset l) AND gen_mask l = 0" and "flag_bit (fl_referenced l) AND gen_mask l = 0"
    and "flag_bit (fl_dirty l) AND gen_mask l = 0" and "flag_bit (fl_writeback l) AND gen_mask l = 0"
    and "flag_bit (fl_reclaim l) AND gen_mask l = 0"
proof -
  have refs: "\<not> (fl_gen_pgoff l \<le> n \<and> n < fl_gen_pgoff l + 3)"
    if "fl_refs_pgoff l \<le> n" "n < fl_refs_pgoff l + fl_refs_width l" for n
    using not_gen_bit [OF assms, of n] that by (force intro!: image_eqI [of _ _ "n - fl_refs_pgoff l"])
  note one = not_gen_bit [OF assms, of "fl_referenced l"] not_gen_bit [OF assms, of "fl_workingset l"]
    not_gen_bit [OF assms, of "fl_dirty l"] not_gen_bit [OF assms, of "fl_writeback l"]
    not_gen_bit [OF assms, of "fl_reclaim l"]
  show "LRU_REFS_FLAGS l AND gen_mask l = 0" "LRU_REFS_MASK l AND gen_mask l = 0"
    using refs one unfolding and_eq_0 flag_bits by blast+
  show "flag_bit (fl_workingset l) AND gen_mask l = 0" "flag_bit (fl_referenced l) AND gen_mask l = 0"
    "flag_bit (fl_dirty l) AND gen_mask l = 0" "flag_bit (fl_writeback l) AND gen_mask l = 0"
    "flag_bit (fl_reclaim l) AND gen_mask l = 0"
    using one unfolding and_eq_0 flag_bits bit_flag by blast+
qed

lemma agree_on:
  assumes "x AND NOT g = y AND NOT (g :: u64)" and "s AND g = 0"
  shows "x AND s = y AND s"
proof (rule bit_word_eqI)
  fix n assume "n < LENGTH(64)"
  have "bit (x AND NOT g) n = bit (y AND NOT g) n" "\<not> bit (s AND g) n"
    using assms by simp_all
  then show "bit (x AND s) n = bit (y AND s) n"
    using \<open>n < LENGTH(64)\<close> by (auto simp: bit_simps)
qed

text \<open>The policy writes the generation and nothing else.\<close>

lemma policy_flags_read:
  fixes flags :: u64
  assumes "layout_ok l" and "0 \<le> gen" and "gen < 4"
  defines "flags' \<equiv> parp_effective_tier_policy_flags (fl_gen_pgoff l) flags gen"
  shows "parp_lru_gen_from_flags l flags' = gen"
    and "flags' AND NOT (gen_mask l) = flags AND NOT (gen_mask l)"
    and "parp_lru_refs_from_flags l flags' = parp_lru_refs_from_flags l flags"
    and "flag_workingset l flags' = flag_workingset l flags"
proof -
  have "\<exists>g. gen = (g + 1) mod 4 \<and> 0 \<le> g \<and> g < 4"
    using assms(2,3) by (intro exI [of _ "(gen + 3) mod 4"]) presburger
  then obtain g where g: "gen = (g + 1) mod 4" "0 \<le> g" "g < 4" by blast
  obtain g' where g': "parp_effective_tier_next_generation g = Inr g'" "g' = (g + 1) mod 4"
    "parp_folio_gen_from_flags (fl_gen_pgoff l) (parp_effective_tier_policy_flags (fl_gen_pgoff l) flags g') = g'"
    "parp_effective_tier_policy_flags (fl_gen_pgoff l) flags g' AND NOT (gen_mask l) = flags AND NOT (gen_mask l)"
    using parp_policy_flags_roundtrip [OF g(2,3) layout_gen(1) [OF assms(1)], of flags] by blast
  then show "parp_lru_gen_from_flags l flags' = gen"
    and kept: "flags' AND NOT (gen_mask l) = flags AND NOT (gen_mask l)"
    by (simp_all add: flags'_def g(1) parp_lru_gen_from_flags_def parp_folio_gen_from_flags_def)
  note same = agree_on [OF kept refs_not_gen(2) [OF assms(1)]] agree_on [OF kept refs_not_gen(3) [OF assms(1)]]
    agree_on [OF kept refs_not_gen(4) [OF assms(1)]]
  show "parp_lru_refs_from_flags l flags' = parp_lru_refs_from_flags l flags"
    "flag_workingset l flags' = flag_workingset l flags"
    unfolding parp_lru_refs_from_flags_def flag_workingset_def same by simp_all
qed

text \<open>Native code also clears the reference count; the working-set bit stays.\<close>

lemma inc_gen_flags_read:
  fixes flags :: u64 and reclaiming :: bool
  assumes ok: "layout_ok l" and "0 \<le> gen" and "gen < 4"
  defines "flags' \<equiv> inc_gen_flags l gen reclaiming flags"
  shows "parp_lru_gen_from_flags l flags' = gen" and "parp_lru_refs_from_flags l flags' = 0"
    and "flag_workingset l flags' = flag_workingset l flags"
proof -
  define v where "v = (word_of_int gen + 1 :: u64)"
  have g: "gen = 0 \<or> gen = 1 \<or> gen = 2 \<or> gen = 3" using assms(2,3) by auto
  have small: "take_bit 3 v = v" and uv: "uint v = gen + 1" using g by (auto simp: v_def)
  have bits: "bit v n \<Longrightarrow> n < 3" for n using small by (metis bit_take_bit_iff)
  have b: "bit flags' n \<longleftrightarrow> bit flags n \<and> \<not> bit (gen_mask l) n \<and> \<not> bit (LRU_REFS_FLAGS l) n \<or>
      fl_gen_pgoff l \<le> n \<and> bit v (n - fl_gen_pgoff l) \<or> reclaiming \<and> n = fl_reclaim l"
    if "n < 64" for n
    using that unfolding flags'_def inc_gen_flags_def v_def [symmetric] Let_def
    by (cases reclaiming) (simp_all add: bit_or_iff bit_and_iff bit_not_iff bit_push_bit_iff bit_flag)
  have nr: "\<not> (fl_gen_pgoff l \<le> fl_reclaim l \<and> fl_reclaim l < fl_gen_pgoff l + 3)"
    using not_gen_bit [OF ok, of "fl_reclaim l"] by simp
  have "drop_bit (fl_gen_pgoff l) (flags' AND gen_mask l) = v"
  proof (rule bit_word_eqI)
    fix n assume n: "n < LENGTH(64)"
    show "bit (drop_bit (fl_gen_pgoff l) (flags' AND gen_mask l)) n = bit v n"
    proof (cases "n < 3")
      case True
      then have "fl_gen_pgoff l + n < 64" using layout_gen(1) [OF ok] by simp
      then show ?thesis
        using True nr b [of "fl_gen_pgoff l + n"]
        by (auto simp: bit_simps bit_LRU_GEN_MASK add.commute)
    next
      case False
      then show ?thesis using bits [of n] by (auto simp: bit_simps bit_LRU_GEN_MASK)
    qed
  qed
  then show "parp_lru_gen_from_flags l flags' = gen" by (simp add: parp_lru_gen_from_flags_def uv)
  have ne: "fl_referenced l \<noteq> fl_reclaim l" "fl_workingset l \<noteq> fl_reclaim l" "fl_workingset l \<noteq> fl_referenced l"
    using layout_distinct [OF ok] by auto
  have low: "\<not> (fl_gen_pgoff l \<le> c \<and> bit v (c - fl_gen_pgoff l))"
    if "c = fl_referenced l \<or> c = fl_workingset l" for c
    using bits [of "c - fl_gen_pgoff l"] not_gen_bit [OF ok, of c] that by auto
  have "\<not> bit flags' (fl_referenced l)"
    using b [OF layout_gen(3) [OF ok]] low [of "fl_referenced l"] ne layout_gen(3) [OF ok]
    by (auto simp: bit_refs_flags)
  then show "parp_lru_refs_from_flags l flags' = 0" by (simp add: parp_lru_refs_from_flags_def flag_test)
  have "\<not> (fl_refs_pgoff l \<le> fl_workingset l \<and> fl_workingset l < fl_refs_pgoff l + fl_refs_width l)"
  proof
    assume a: "fl_refs_pgoff l \<le> fl_workingset l \<and> fl_workingset l < fl_refs_pgoff l + fl_refs_width l"
    then have "fl_workingset l \<in> (\<lambda>i. fl_refs_pgoff l + i) ` set [0..<fl_refs_width l]"
      by (intro image_eqI [of _ _ "fl_workingset l - fl_refs_pgoff l"]) auto
    then show False using ok unfolding layout_ok_def layout_bits_def distinct_append by auto
  qed
  then have "bit flags' (fl_workingset l) \<longleftrightarrow> bit flags (fl_workingset l)"
    using b [OF layout_gen(4) [OF ok]] low [of "fl_workingset l"] ne not_gen_bit [OF ok, of "fl_workingset l"]
      layout_gen(4) [OF ok]
    by (auto simp: bit_refs_flags bit_LRU_GEN_MASK)
  then show "flag_workingset l flags' = flag_workingset l flags"
    by (simp add: flag_workingset_def flag_test)
qed

end
