(* ===== verification/Sort_Folio.thy ===== *)
theory Sort_Folio
  imports Mglru
begin

text \<open>
  The hook of the effective tier in native reclaim, \<open>sort_folio\<close> of \<open>mm/vmscan.c\<close>. It looks at one folio
  of the oldest generation and either moves it to another list (result \<open>True\<close>) or leaves it to be
  isolated. A decision of the policy may override the ordinary tier comparison, in both directions, and
  is checked again before it takes effect.

  The native state and the world of the effective tier are one record; the helpers that the unpatched
  function has too are polymorphic in the extension and take the notification of a move as an argument.
  \<open>se_look k\<close> is what other CPUs do to \<open>folio->flags\<close> before the \<open>k\<close>-th look at it: 1 before the policy
  revalidates, 2 and 3 around its move, 4 and 6 before \<open>folio_inc_gen\<close>, 5 between the tests of the dirty
  and the writeback flag, 0 inside \<open>lru_gen_del_folio\<close>.
\<close>

record native_state =
  nt_lru :: lru_gen_folio
  nt_flags :: u64
  nt_file_taken :: u32
  nt_unqueued_dirty :: u32
  nt_culled :: u64

record sort_state = native_state +
  so_tier :: parp_tier_world

record sort_env =
  se_layout :: flag_layout
  se_folio :: folio_facts
  se_tier_idx :: int
  se_reclaim_idx :: nat
  se_look :: "nat \<Rightarrow> u64 \<Rightarrow> u64"
  se_races :: "nat \<Rightarrow> (u64 \<Rightarrow> u64) list"

text \<open>
  What the policy reads beside that: the facts of \<open>decide\<close>; what others do to the globals and to the
  metadata between the decision and its revalidation; the second read of the state word there; whether
  the static key is on, the interference, tracing and clock of \<open>note_move\<close>.
\<close>

record tier_env = sort_env +
  te_view :: parp_folio_view
  te_control :: "parp_tier_globals \<Rightarrow> parp_tier_globals"
  te_page :: "page \<Rightarrow> page"
  te_later :: u32
  te_policy_race :: "u64 \<Rightarrow> u64"
  te_key :: bool
  te_note :: interference
  te_trace :: bool
  te_now_ms :: u32

definition look :: "'e sort_env_scheme \<Rightarrow> nat \<Rightarrow> 's native_state_scheme \<Rightarrow> 's native_state_scheme" where
  "look e k s = s \<lparr> nt_flags := se_look e k (nt_flags s) \<rparr>"

section \<open>The native steps\<close>

definition flags_tier :: "flag_layout \<Rightarrow> u64 \<Rightarrow> int" where
  "flags_tier l flags = lru_tier_from_refs (parp_lru_refs_from_flags l flags) (flag_workingset l flags)"

definition flags_special :: "flag_layout \<Rightarrow> u64 \<Rightarrow> bool" where
  "flags_special l flags = refs_full l (parp_lru_refs_from_flags l flags) (flag_workingset l flags)"

definition move_front ::
  "'e sort_env_scheme \<Rightarrow> int \<Rightarrow> 's native_state_scheme \<Rightarrow> 's native_state_scheme" where
  "move_front e gen s = s \<lparr> nt_lru := list_move (se_folio e) gen (nt_lru s) \<rparr>"

definition move_tail ::
  "'e sort_env_scheme \<Rightarrow> int \<Rightarrow> 's native_state_scheme \<Rightarrow> 's native_state_scheme" where
  "move_tail e gen s = s \<lparr> nt_lru := list_move_tail (se_folio e) gen (nt_lru s) \<rparr>"

text \<open>\<open>folio_inc_gen\<close> with its notification; the result is the generation to move the folio to.\<close>

definition inc_gen ::
  "'e sort_env_scheme \<Rightarrow> (parp_access_event \<Rightarrow> int \<Rightarrow> 's native_state_scheme \<Rightarrow> 's native_state_scheme) \<Rightarrow>
   parp_access_event \<Rightarrow> bool \<Rightarrow> nat \<Rightarrow> 's native_state_scheme \<Rightarrow> int \<times> 's native_state_scheme" where
  "inc_gen e note event reclaiming k s0 =
     (let s = look e k s0;
          (gen, moved, flags, lr) = folio_inc_gen (se_layout e) (se_races e k) (se_folio e) reclaiming
            (nt_flags s, nt_lru s);
          s1 = s \<lparr> nt_flags := flags, nt_lru := lr \<rparr>
      in (gen, if moved then note event gen s1 else s1))"

definition count_protected ::
  "'e sort_env_scheme \<Rightarrow> int \<Rightarrow> 's native_state_scheme \<Rightarrow> 's native_state_scheme" where
  "count_protected e tier s =
     (let f = se_folio e; lr = nt_lru s; hist = lru_hist_from_seq (lg_min_seq lr (ff_type f))
      in s \<lparr> nt_lru := lr \<lparr> lg_protected := (\<lambda>h t k.
           if h = hist \<and> t = ff_type f \<and> k = tier then lg_protected lr h t k + ff_pages f
           else lg_protected lr h t k) \<rparr> \<rparr>)"

definition native_protect ::
  "'e sort_env_scheme \<Rightarrow> (parp_access_event \<Rightarrow> int \<Rightarrow> 's native_state_scheme \<Rightarrow> 's native_state_scheme) \<Rightarrow>
   int \<Rightarrow> bool \<Rightarrow> 's native_state_scheme \<Rightarrow> 's native_state_scheme" where
  "native_protect e note tier special s0 =
     (let (gen, s1) = inc_gen e note PARP_NATIVE_TIER_PROMOTION False 4 s0;
          s2 = move_front e gen s1
      in if special then s2 else count_protected e tier s2)"

text \<open>From the label \<open>tier_not_protected\<close> on.\<close>

definition sort_rest ::
  "'e sort_env_scheme \<Rightarrow> (parp_access_event \<Rightarrow> int \<Rightarrow> 's native_state_scheme \<Rightarrow> 's native_state_scheme) \<Rightarrow>
   's native_state_scheme \<Rightarrow> bool \<times> 's native_state_scheme" where
  "sort_rest e note s0 =
     (let f = se_folio e; l = se_layout e
      in if se_reclaim_idx e < ff_zone f
         then let (gen, s1) = inc_gen e note PARP_NATIVE_GENERATION_MOVE False 4 s0
              in (True, move_tail e gen s1)
         else
           let dirty = (nt_flags s0 AND flag_bit (fl_dirty l) \<noteq> 0);
               s1 = look e 5 s0;
               writeback = (nt_flags s1 AND flag_bit (fl_writeback l) \<noteq> 0);
               s2 = (if ff_type f \<and> dirty
                     then s1 \<lparr> nt_file_taken := nt_file_taken s1 + ucast (ff_pages f),
                               nt_unqueued_dirty := nt_unqueued_dirty s1 +
                                 (if writeback then 0 else ucast (ff_pages f)) \<rparr>
                     else s1)
           in if writeback \<or> ff_type f \<and> dirty
              then let (gen, s3) = inc_gen e note PARP_NATIVE_GENERATION_MOVE True 6 s2
                   in (True, move_front e gen s3)
              else (False, s2))"

definition make_unevictable ::
  "'e sort_env_scheme \<Rightarrow> 's native_state_scheme \<Rightarrow> 's native_state_scheme" where
  "make_unevictable e s =
     (let (success, flags, lr) = lru_gen_del_folio (se_layout e) (se_look e 0) (se_folio e)
            (nt_flags s, nt_lru s);
          (flags1, lr1) = lru_add_unevictable (se_layout e) (se_folio e) (flags, lr)
      in s \<lparr> nt_flags := flags1, nt_lru := lr1, nt_culled := nt_culled s + ff_pages (se_folio e) \<rparr>)"

text \<open>The function as it was before the patch, on the native state alone.\<close>

definition no_note :: "parp_access_event \<Rightarrow> int \<Rightarrow> 's native_state_scheme \<Rightarrow> 's native_state_scheme" where
  "no_note event gen s = s"

definition native_sort_folio :: "'e sort_env_scheme \<Rightarrow> native_state \<Rightarrow> bool \<times> native_state" where
  "native_sort_folio e s =
     (let l = se_layout e; f = se_folio e; gen = parp_lru_gen_from_flags l (nt_flags s);
          tier = flags_tier l (nt_flags s); special = flags_special l (nt_flags s)
      in if \<not> ff_evictable f then (True, make_unevictable e s)
         else if gen \<noteq> oldest_gen (ff_type f) (nt_lru s) then (True, move_front e gen s)
         else if tier > se_tier_idx e \<or> special then (True, native_protect e no_note tier special s)
         else sort_rest e no_note s)"

section \<open>The policy in it\<close>

definition parp_tier_native_fallback ::
  "int \<Rightarrow> int \<Rightarrow> bool \<Rightarrow> parp_tier_bypass_reason \<Rightarrow> parp_tier_decision \<Rightarrow> parp_tier_decision" where
  "parp_tier_native_fallback native_tier tier_idx special bypass d = d \<lparr>
     d_native_tier := native_tier, d_native_tier_idx := tier_idx, d_special_native_protect := special,
     d_native_protect := native_tier > tier_idx, d_delta_tier_q8 := 0,
     d_effective_tier_q8 := native_tier * PARP_TIER_SCALE,
     d_effective_protect := native_tier > tier_idx,
     d_actual_tier_protect := (native_tier > tier_idx \<or> special), d_bypass := bypass,
     d_action := (if special then PARP_TIER_SPECIAL_NATIVE_PROTECT
                  else if native_tier > tier_idx then PARP_TIER_KEEP_PROTECT
                  else PARP_TIER_KEEP_RECLAIM) \<rparr>"

definition sort_reclaim_context :: "bool \<Rightarrow> bool \<Rightarrow> bool \<Rightarrow> parp_tier_reclaim_context" where
  "sort_reclaim_context is_kswapd proactive is_memcg =
     (if is_kswapd then PARP_TIER_RECLAIM_KSWAPD
      else if proactive then PARP_TIER_RECLAIM_PROACTIVE_MEMCG
      else if is_memcg then PARP_TIER_RECLAIM_MEMCG else PARP_TIER_RECLAIM_DIRECT)"

definition note_move ::
  "tier_env \<Rightarrow> parp_access_event \<Rightarrow> int \<Rightarrow> sort_state \<Rightarrow> sort_state" where
  "note_move e event gen s =
     (if \<not> te_key e then s
      else let w = so_tier s;
               (g, p) = parp_effective_tier_note_move (te_note e) (te_trace e) (te_now_ms e) event gen
                 (w_globals w, w_page w)
           in s \<lparr> so_tier := w \<lparr> w_globals := g, w_page := p \<rparr> \<rparr>)"

definition sort_decide ::
  "tier_env \<Rightarrow> int \<Rightarrow> bool \<Rightarrow> parp_tier_world \<Rightarrow> parp_tier_world \<times> parp_tier_decision" where
  "sort_decide e tier special w =
     (if s_enabled (w_ctx w)
      then parp_effective_tier_decide (te_view e) tier (se_tier_idx e) special w
      else (w, decision_zero))"

text \<open>
  The bits a decision rests on, and the revalidation: other CPUs have had the time to switch the mode, to
  touch the metadata and the flags.
\<close>

definition decision_mask :: "flag_layout \<Rightarrow> u64" where
  "decision_mask l = gen_mask l OR LRU_REFS_FLAGS l OR flag_bit (fl_workingset l)"

definition sort_revalidate ::
  "tier_env \<Rightarrow> u64 \<Rightarrow> parp_tier_decision \<Rightarrow> sort_state \<Rightarrow> bool \<times> sort_state" where
  "sort_revalidate e tier_flags d s0 =
     (let w0 = so_tier s0;
          w = w0 \<lparr> w_globals := te_control e (w_globals w0), w_page := te_page e (w_page w0) \<rparr>;
          s = (look e 1 s0) \<lparr> so_tier := w \<rparr>
      in (parp_effective_tier_commit_revalidate (w_globals w) (w_ctx w) (te_later e) (w_page w)
            (d_page_state_sequence d) \<and>
          nt_flags s AND decision_mask (se_layout e) = tier_flags AND decision_mask (se_layout e), s))"

text \<open>The branch \<open>if (actual_tier_protect)\<close> for an upgrade of the policy.\<close>

definition policy_protect ::
  "tier_env \<Rightarrow> parp_tier_decision \<Rightarrow> sort_state \<Rightarrow> bool \<times> sort_state \<times> parp_tier_decision" where
  "policy_protect e d s0 =
     (let l = se_layout e; f = se_folio e; s1 = look e 2 s0;
          (moved, flags, lr) = parp_policy_inc_gen l (te_policy_race e) f (nt_flags s1, nt_lru s1);
          s2 = s1 \<lparr> nt_flags := flags, nt_lru := lr \<rparr>
      in case moved of
           Some gen \<Rightarrow> (True, move_front e gen (note_move e PARP_POLICY_PROMOTION gen s2), d)
         | None \<Rightarrow>
             let s3 = look e 3 s2; raced_gen = parp_lru_gen_from_flags l (nt_flags s3);
                 tier = flags_tier l (nt_flags s3); special = flags_special l (nt_flags s3);
                 d1 = parp_tier_native_fallback tier (se_tier_idx e) special
                        PARP_TIER_BYPASS_GENERATION_RACE d
             in if raced_gen \<ge> 0 \<and> raced_gen \<noteq> oldest_gen (ff_type f) (nt_lru s3)
                then (True, note_move e PARP_OTHER_MOVE raced_gen (move_front e raced_gen s3), d1)
                else if d_actual_tier_protect d1
                then (True, native_protect e (note_move e) tier special s3, d1)
                else let (r, s4) = sort_rest e (note_move e) s3 in (r, s4, d1))"

definition sort_apply ::
  "tier_env \<Rightarrow> int \<Rightarrow> bool \<Rightarrow> bool \<Rightarrow> parp_tier_decision \<Rightarrow> sort_state \<Rightarrow>
   bool \<times> sort_state \<times> parp_tier_decision" where
  "sort_apply e tier special actual d s =
     (if \<not> actual then let (r, s1) = sort_rest e (note_move e) s in (r, s1, d)
      else if d_evaluated d \<and> d_action d = PARP_TIER_PREDICTIVE_UPGRADE \<and> \<not> d_native_protect d \<and> \<not> special
      then policy_protect e d s
      else (True, native_protect e (note_move e) tier special s, d))"

text \<open>An upgrade that lost its race starts again from the flags as they are now.\<close>

definition upgrade_raced ::
  "tier_env \<Rightarrow> parp_tier_decision \<Rightarrow> sort_state \<Rightarrow> bool \<times> sort_state \<times> parp_tier_decision" where
  "upgrade_raced e d s =
     (let l = se_layout e; gen = parp_lru_gen_from_flags l (nt_flags s);
          tier = flags_tier l (nt_flags s); special = flags_special l (nt_flags s);
          d1 = parp_tier_native_fallback tier (se_tier_idx e) special PARP_TIER_BYPASS_GENERATION_RACE d
      in if gen \<noteq> oldest_gen (ff_type (se_folio e)) (nt_lru s)
         then (True, note_move e PARP_OTHER_MOVE gen (move_front e gen s),
               d1 \<lparr> d_actual_tier_protect := True, d_action := PARP_TIER_KEEP_PROTECT \<rparr>)
         else sort_apply e tier special (d_actual_tier_protect d1) d1 s)"

definition sort_decided ::
  "tier_env \<Rightarrow> u64 \<Rightarrow> int \<Rightarrow> bool \<Rightarrow> parp_tier_decision \<Rightarrow> sort_state \<Rightarrow>
   bool \<times> sort_state \<times> parp_tier_decision" where
  "sort_decided e tier_flags tier special d s =
     (let actual = (if d_evaluated d then d_actual_tier_protect d else tier > se_tier_idx e \<or> special)
      in if d_evaluated d \<and> d_action d = PARP_TIER_PREDICTIVE_DOWNGRADE \<and> \<not> actual
         then let (valid, s1) = sort_revalidate e tier_flags d s
              in if valid then sort_apply e tier special False d s1
                 else sort_apply e tier special True
                   ((parp_tier_native_fallback tier (se_tier_idx e) special
                       PARP_TIER_BYPASS_GENERATION_RACE d)
                    \<lparr> d_actual_tier_protect := True, d_action := PARP_TIER_KEEP_PROTECT \<rparr>) s1
         else if d_evaluated d \<and> d_action d = PARP_TIER_PREDICTIVE_UPGRADE \<and> actual
         then let (valid, s1) = sort_revalidate e tier_flags d s
              in if valid then sort_apply e tier special True d s1 else upgrade_raced e d s1
         else sort_apply e tier special actual d s)"

definition sort_folio :: "tier_env \<Rightarrow> sort_state \<Rightarrow> bool \<times> sort_state \<times> parp_tier_decision" where
  "sort_folio e s =
     (let l = se_layout e; f = se_folio e; flags = nt_flags s; gen = parp_lru_gen_from_flags l flags;
          tier = flags_tier l flags; special = flags_special l flags
      in if \<not> ff_evictable f then (True, make_unevictable e s, decision_zero)
         else if gen \<noteq> oldest_gen (ff_type f) (nt_lru s) then (True, move_front e gen s, decision_zero)
         else let (w, d) = sort_decide e tier special (so_tier s)
              in sort_decided e flags tier special d (s \<lparr> so_tier := w \<rparr>))"

section \<open>The native part of the patched function\<close>

definition native_part :: "sort_state \<Rightarrow> native_state" where
  "native_part s = \<lparr> nt_lru = nt_lru s, nt_flags = nt_flags s, nt_file_taken = nt_file_taken s,
     nt_unqueued_dirty = nt_unqueued_dirty s, nt_culled = nt_culled s \<rparr>"

lemma native_part_simps [simp]:
  "nt_lru (native_part s) = nt_lru s" "nt_flags (native_part s) = nt_flags s"
  "nt_file_taken (native_part s) = nt_file_taken s"
  "nt_unqueued_dirty (native_part s) = nt_unqueued_dirty s" "nt_culled (native_part s) = nt_culled s"
  by (simp_all add: native_part_def)

lemma native_part_update [simp]:
  "native_part (s \<lparr> so_tier := w \<rparr>) = native_part s"
  "native_part (s \<lparr> nt_lru := lr \<rparr>) = (native_part s) \<lparr> nt_lru := lr \<rparr>"
  "native_part (s \<lparr> nt_flags := flags \<rparr>) = (native_part s) \<lparr> nt_flags := flags \<rparr>"
  "native_part (s \<lparr> nt_file_taken := n \<rparr>) = (native_part s) \<lparr> nt_file_taken := n \<rparr>"
  "native_part (s \<lparr> nt_unqueued_dirty := n \<rparr>) = (native_part s) \<lparr> nt_unqueued_dirty := n \<rparr>"
  "native_part (s \<lparr> nt_culled := m \<rparr>) = (native_part s) \<lparr> nt_culled := m \<rparr>"
  by (simp_all add: native_part_def)

lemma note_move_native [simp]: "native_part (note_move e event gen s) = native_part s"
  by (simp add: note_move_def Let_def split: prod.splits)

lemma note_move_fields [simp]:
  "nt_lru (note_move e event gen s) = nt_lru s" "nt_flags (note_move e event gen s) = nt_flags s"
  by (simp_all add: note_move_def Let_def split: prod.splits)

lemma look_native: "native_part (look e k s) = look e k (native_part s)"
  by (simp add: look_def)

lemma move_native:
  "native_part (move_front e gen s) = move_front e gen (native_part s)"
  "native_part (move_tail e gen s) = move_tail e gen (native_part s)"
  "native_part (count_protected e tier s) = count_protected e tier (native_part s)"
  "native_part (make_unevictable e s) = make_unevictable e (native_part s)"
  by (simp_all add: move_front_def move_tail_def count_protected_def make_unevictable_def Let_def
      split: prod.splits)

lemma inc_gen_native:
  "inc_gen e no_note event reclaiming k (native_part s) =
     map_prod id native_part (inc_gen e (note_move e') event reclaiming k s)"
  by (simp add: inc_gen_def look_def no_note_def Let_def split: prod.splits)

lemma native_protect_native:
  "native_part (native_protect e (note_move e') tier special s) =
     native_protect e no_note tier special (native_part s)"
  by (simp add: native_protect_def Let_def move_native split_beta inc_gen_native [where e' = e'])

lemma sort_rest_native:
  "sort_rest e no_note (native_part s) = map_prod id native_part (sort_rest e (note_move e') s)"
  by (simp add: sort_rest_def look_def Let_def move_native split_beta inc_gen_native [where e' = e']
      flip: native_part_update)

section \<open>What a decision of the hook is\<close>

lemma classify_evaluated: "d_evaluated (parp_effective_tier_classify score mv nt idx sp policy)"
  by (simp add: parp_effective_tier_classify_def Let_def)

lemma reserve_evaluated:
  "d_evaluated (fst (snd (parp_decide_reserve up config f seq (w, d)))) = d_evaluated d"
  by (simp add: parp_decide_reserve_def parp_decision_native_fallback_def Let_def
      split: sum.splits prod.splits)

lemma gate_evaluated:
  "d_evaluated (fst (snd (parp_decide_gate config f nt idx snap (w, d)))) = d_evaluated d"
  using reserve_evaluated [of True] reserve_evaluated [of False]
  by (simp add: parp_decide_gate_def parp_decision_native_fallback_def Let_def split_beta)

lemma body_evaluated: "d_evaluated (fst (snd (parp_decide_body f nt idx sp w)))"
proof -
  have gate: "d_evaluated (fst (snd (parp_decide_gate config f nt idx snap
      (w, parp_effective_tier_classify score mv nt idx sp policy))))" for config snap w score mv sp policy
    by (simp add: gate_evaluated classify_evaluated)
  show ?thesis
    by (simp add: parp_decide_body_def Let_def classify_evaluated split_beta gate split: option.split)
qed

lemma decide_evaluated: "d_evaluated (snd (parp_effective_tier_decide f nt idx sp w))"
  using body_evaluated [of f nt idx sp "parp_decide_count (v_pages f) w"]
  by (simp add: parp_effective_tier_decide_def parp_effective_tier_pressure_counterfactuals_def Let_def
      split_beta)

text \<open>The answer is the native one exactly if the mode does not apply the predicted action.\<close>

lemma decide_answer:
  assumes "parp_effective_tier_decide f nt idx sp w = (w', d)"
    and "0 \<le> nt" "nt \<le> 3" "0 \<le> idx" "idx \<le> 3"
  shows "d_actual_tier_protect d \<noteq> (sp \<or> nt > idx) \<longleftrightarrow>
      parp_effective_tier_action_applies (s_mode (w_ctx w)) (d_action d)"
    and "d_action d = PARP_TIER_PREDICTIVE_UPGRADE \<Longrightarrow> \<not> sp \<and> \<not> nt > idx"
    and "d_action d = PARP_TIER_PREDICTIVE_DOWNGRADE \<Longrightarrow> \<not> sp \<and> nt > idx"
    and "parp_effective_tier_action_applies (s_mode (w_ctx w)) (d_action d) \<Longrightarrow> d_reservation_active d"
    and "d_reservation_active d \<Longrightarrow> d_action d =
      (if d_reservation_upgrade d then PARP_TIER_PREDICTIVE_UPGRADE else PARP_TIER_PREDICTIVE_DOWNGRADE) \<and>
      parp_effective_tier_action_applies (s_mode (w_ctx w)) (d_action d)"
    and "s_mode (w_ctx w') = s_mode (w_ctx w)" and "s_enabled (w_ctx w') = s_enabled (w_ctx w)"
    and "d_folio_nr_pages d = v_pages f" and "d_native_protect d = (nt > idx)"
proof -
  obtain wb db where b: "body_ok f nt idx sp (parp_decide_count (v_pages f) w) wb db"
    and w': "w_ctx w' = w_ctx wb"
    and d: "d_action d = d_action db" "d_reservation_active d = d_reservation_active db"
      "d_reservation_upgrade d = d_reservation_upgrade db" "d_folio_nr_pages d = v_pages f"
      "d_actual_tier_protect d = parp_effective_tier_actual_protect (s_mode (w_ctx wb)) db"
    by (rule decide_result [OF assms(1)])
  have clamped: "clamp nt 0 3 = nt" "clamp idx 0 3 = idx"
    using assms(2-) by (simp_all add: clamp_def)
  have mode: "s_mode (w_ctx wb) = s_mode (w_ctx w)" "s_enabled (w_ctx wb) = s_enabled (w_ctx w)"
    using body_frame(2,3) [OF b] by (simp_all add: count_simps)
  have ok: "decision_ok (nt > idx) sp (s_mode (w_ctx w)) db"
    using b by (simp add: body_ok_def count_simps clamped)
  then have bits: "action_bits db" "d_native_protect db = (nt > idx)" "d_special_native_protect db = sp"
    by (simp_all add: decision_ok_def)
  show "d_actual_tier_protect d \<noteq> (sp \<or> nt > idx) \<longleftrightarrow>
      parp_effective_tier_action_applies (s_mode (w_ctx w)) (d_action d)"
    using actual_protect_bits [OF bits(1), of "s_mode (w_ctx w)"] by (simp add: d mode bits(2,3))
  show "d_action d = PARP_TIER_PREDICTIVE_UPGRADE \<Longrightarrow> \<not> sp \<and> \<not> nt > idx"
    "d_action d = PARP_TIER_PREDICTIVE_DOWNGRADE \<Longrightarrow> \<not> sp \<and> nt > idx"
    using bits by (auto simp: action_bits_def d split: if_splits)
  show "parp_effective_tier_action_applies (s_mode (w_ctx w)) (d_action d) \<Longrightarrow> d_reservation_active d"
    using ok by (simp add: decision_ok_def d)
  show "d_reservation_active d \<Longrightarrow> d_action d =
      (if d_reservation_upgrade d then PARP_TIER_PREDICTIVE_UPGRADE else PARP_TIER_PREDICTIVE_DOWNGRADE) \<and>
      parp_effective_tier_action_applies (s_mode (w_ctx w)) (d_action d)"
    using b by (auto simp: body_ok_def spent_def Let_def d count_simps)
  have "d_native_protect d = d_native_protect
      (fst (snd (parp_decide_body f nt idx sp (parp_decide_count (v_pages f) w))))"
    using assms(1) by (auto simp: parp_effective_tier_decide_def Let_def split_beta)
  then show "d_native_protect d = (nt > idx)"
    using body_result [of f nt idx sp "parp_decide_count (v_pages f) w"]
    by (cases "parp_decide_body f nt idx sp (parp_decide_count (v_pages f) w)")
      (simp add: body_ok_def decision_ok_def clamped)
  show "s_mode (w_ctx w') = s_mode (w_ctx w)" "s_enabled (w_ctx w') = s_enabled (w_ctx w)"
    "d_folio_nr_pages d = v_pages f"
    by (simp_all add: w' mode d)
qed

text \<open>The native tier is one of the four.\<close>

lemma flags_tier_bounds:
  assumes "layout_ok l"
  shows "0 \<le> flags_tier l flags" "flags_tier l flags \<le> 3"
proof -
  let ?x = "drop_bit (fl_refs_pgoff l) (flags AND LRU_REFS_MASK l)"
  have "?x = take_bit (fl_refs_width l) ?x"
    by (rule bit_word_eqI) (auto simp: bit_simps bit_refs_mask)
  then have "uint ?x < 2 ^ fl_refs_width l"
    by (metis take_bit_int_less_exp unsigned_take_bit_eq)
  moreover have "(2 :: int) ^ fl_refs_width l \<le> 2 ^ 2"
    using assms by (intro power_increasing) (simp_all add: layout_ok_def)
  ultimately have "uint ?x \<le> 3" by simp
  then have "0 \<le> parp_lru_refs_from_flags l flags" "parp_lru_refs_from_flags l flags \<le> 4"
    by (simp_all add: parp_lru_refs_from_flags_def)
  then have "parp_lru_refs_from_flags l flags \<in> {0, 1, 2, 3, 4}" by auto
  then show "0 \<le> flags_tier l flags" "flags_tier l flags \<le> 3"
    by (auto simp: flags_tier_def lru_tier_from_refs_def order_base_2_def fls_nat.simps)
qed

section \<open>Without a deviation the patch changes nothing\<close>

definition native_result :: "bool \<times> sort_state \<times> parp_tier_decision \<Rightarrow> bool \<times> native_state" where
  "native_result r = (fst r, native_part (fst (snd r)))"

lemma rest_result:
  "native_result (let (r, s1) = sort_rest e (note_move e) s in (r, s1, d)) =
     sort_rest e no_note (native_part s)"
  by (simp add: native_result_def sort_rest_native [where e' = e] split_beta map_prod_def)

lemma apply_native:
  assumes "\<not> (d_evaluated d \<and> d_action d = PARP_TIER_PREDICTIVE_UPGRADE \<and> actual)"
  shows "native_result (sort_apply e tier special actual d s) =
    (if actual then (True, native_protect e no_note tier special (native_part s))
     else sort_rest e no_note (native_part s))"
  using assms rest_result by (auto simp: sort_apply_def native_result_def native_protect_native)

lemma decided_native:
  assumes "\<not> d_evaluated d \<or>
      (d_actual_tier_protect d \<longleftrightarrow> (special \<or> tier > se_tier_idx e)) \<and>
      (d_action d = PARP_TIER_PREDICTIVE_UPGRADE \<longrightarrow> \<not> special \<and> \<not> tier > se_tier_idx e) \<and>
      (d_action d = PARP_TIER_PREDICTIVE_DOWNGRADE \<longrightarrow> tier > se_tier_idx e)"
  shows "native_result (sort_decided e flags tier special d s) =
    (if tier > se_tier_idx e \<or> special
     then (True, native_protect e no_note tier special (native_part s))
     else sort_rest e no_note (native_part s))"
  using assms apply_native by (auto simp: sort_decided_def Let_def)

lemma sort_folio_native:
  fixes e :: tier_env and s :: sort_state
  assumes "layout_ok (se_layout e)" and "0 \<le> se_tier_idx e" and "se_tier_idx e \<le> 3"
    and "\<not> (s_enabled (w_ctx (so_tier s)) \<and>
      parp_effective_tier_action_applies (s_mode (w_ctx (so_tier s)))
        (d_action (snd (sort_decide e (flags_tier (se_layout e) (nt_flags s))
           (flags_special (se_layout e) (nt_flags s)) (so_tier s)))))"
  shows "native_result (sort_folio e s) = native_sort_folio e (native_part s)"
proof -
  let ?l = "se_layout e" and ?w = "so_tier s"
  let ?tier = "flags_tier ?l (nt_flags s)" and ?special = "flags_special ?l (nt_flags s)"
  obtain w d where wd: "sort_decide e ?tier ?special ?w = (w, d)" by fastforce
  have "native_result (sort_decided e (nt_flags s) ?tier ?special d (s \<lparr> so_tier := w \<rparr>)) =
      (if ?tier > se_tier_idx e \<or> ?special
       then (True, native_protect e no_note ?tier ?special (native_part s))
       else sort_rest e no_note (native_part s))"
  proof (subst decided_native)
    show "\<not> d_evaluated d \<or>
      (d_actual_tier_protect d \<longleftrightarrow> (?special \<or> ?tier > se_tier_idx e)) \<and>
      (d_action d = PARP_TIER_PREDICTIVE_UPGRADE \<longrightarrow> \<not> ?special \<and> \<not> ?tier > se_tier_idx e) \<and>
      (d_action d = PARP_TIER_PREDICTIVE_DOWNGRADE \<longrightarrow> ?tier > se_tier_idx e)"
    proof (cases "s_enabled (w_ctx ?w)")
      case True
      then have dec: "parp_effective_tier_decide (te_view e) ?tier (se_tier_idx e) ?special ?w = (w, d)"
        using wd by (simp add: sort_decide_def)
      have "\<not> parp_effective_tier_action_applies (s_mode (w_ctx ?w)) (d_action d)"
        using assms(4) True wd by simp
      then show ?thesis
        using decide_answer(1-3) [OF dec flags_tier_bounds [OF assms(1)] assms(2,3)] by blast
    qed (use wd in \<open>auto simp: sort_decide_def decision_zero_def\<close>)
  qed simp
  then show ?thesis
    by (simp add: sort_folio_def native_sort_folio_def wd native_result_def move_native Let_def)
qed

text \<open>C10. As long as the effective tier does not apply a predicted action to this folio - it is not
  enabled for the batch, its mode only observes, or it has nothing to predict - the patched
  \<open>sort_folio\<close> returns what the function before the patch returns and leaves the same lists, sizes,
  flags, protected counts and dirty counts, for any interference of other CPUs with the flags.\<close>

theorem parp_sort_folio_native:
  fixes e :: tier_env and s :: sort_state
  assumes "layout_ok (se_layout e)" and "0 \<le> se_tier_idx e" and "se_tier_idx e \<le> 3"
    and "\<not> (s_enabled (w_ctx (so_tier s)) \<and>
      parp_effective_tier_action_applies (s_mode (w_ctx (so_tier s)))
        (d_action (snd (sort_decide e (flags_tier (se_layout e) (nt_flags s))
           (flags_special (se_layout e) (nt_flags s)) (so_tier s)))))"
  shows "native_result (sort_folio e s) = native_sort_folio e (native_part s)"
  by (rule sort_folio_native [OF assms])

section \<open>A deviation is checked and reserved\<close>

text \<open>
  The decision still holds when it takes effect: neither the mode nor the configuration has changed, the
  metadata are those of the decision, and so are the generation, the references and the working-set bit.
\<close>

definition still_valid :: "tier_env \<Rightarrow> u64 \<Rightarrow> parp_tier_world \<Rightarrow> parp_tier_decision \<Rightarrow> bool" where
  "still_valid e flags w d \<longleftrightarrow>
     (let g = te_control e (w_globals w); l = se_layout e; now = se_look e 1 flags
      in \<not> g_state_fault g \<and> g_mode g = s_mode (w_ctx w) \<and>
         c_sequence (g_config g) = s_config_sequence (w_ctx w) \<and>
         (case te_page e (w_page w) of None \<Rightarrow> False
          | Some ext \<Rightarrow> parp_state_seq (ext_state ext) = d_page_state_sequence d \<and>
                        ext_state ext AND PARP_STATE_UNCERTAIN = 0) \<and>
         parp_lru_gen_from_flags l now = parp_lru_gen_from_flags l flags \<and>
         parp_lru_refs_from_flags l now = parp_lru_refs_from_flags l flags \<and>
         flag_workingset l now = flag_workingset l flags)"

lemma masked_same:
  "(x :: u64) AND m = y AND m \<Longrightarrow> m AND s = s \<Longrightarrow> x AND s = y AND s"
  by (metis and.assoc)

lemma decision_mask_parts:
  "decision_mask l AND gen_mask l = gen_mask l"
  "decision_mask l AND LRU_REFS_MASK l = LRU_REFS_MASK l"
  "decision_mask l AND flag_bit (fl_referenced l) = flag_bit (fl_referenced l)"
  "decision_mask l AND flag_bit (fl_workingset l) = flag_bit (fl_workingset l)"
  by (auto intro!: bit_word_eqI simp: decision_mask_def LRU_REFS_FLAGS_def bit_and_iff bit_or_iff)

lemma revalidate_valid:
  assumes "fst (sort_revalidate e (nt_flags s) d s)"
  shows "still_valid e (nt_flags s) (so_tier s) d"
proof -
  have mask: "se_look e 1 (nt_flags s) AND decision_mask (se_layout e) =
      nt_flags s AND decision_mask (se_layout e)"
    using assms by (simp add: sort_revalidate_def look_def Let_def)
  note same = masked_same [OF mask decision_mask_parts(1)] masked_same [OF mask decision_mask_parts(2)]
    masked_same [OF mask decision_mask_parts(3)] masked_same [OF mask decision_mask_parts(4)]
  have flags: "parp_lru_gen_from_flags (se_layout e) (se_look e 1 (nt_flags s)) =
        parp_lru_gen_from_flags (se_layout e) (nt_flags s)"
      "parp_lru_refs_from_flags (se_layout e) (se_look e 1 (nt_flags s)) =
        parp_lru_refs_from_flags (se_layout e) (nt_flags s)"
      "flag_workingset (se_layout e) (se_look e 1 (nt_flags s)) = flag_workingset (se_layout e) (nt_flags s)"
    unfolding parp_lru_gen_from_flags_def parp_lru_refs_from_flags_def flag_workingset_def same
    by simp_all
  show ?thesis
    using assms flags
    by (auto simp: sort_revalidate_def still_valid_def parp_effective_tier_commit_revalidate_def
        parp_effective_tier_revalidate_def Let_def look_def dest: config_read_some
        split: if_splits option.splits)
qed

lemma revalidate_state:
  "snd (sort_revalidate e flags d s) = (look e 1 s) \<lparr> so_tier := (so_tier s)
     \<lparr> w_globals := te_control e (w_globals (so_tier s)), w_page := te_page e (w_page (so_tier s)) \<rparr> \<rparr>"
  by (simp add: sort_revalidate_def Let_def look_def)

lemma fallback_action:
  "d_action (parp_tier_native_fallback nt idx sp b d) \<noteq> PARP_TIER_PREDICTIVE_UPGRADE"
  "d_action (parp_tier_native_fallback nt idx sp b d) \<noteq> PARP_TIER_PREDICTIVE_DOWNGRADE"
  by (simp_all add: parp_tier_native_fallback_def)

text \<open>The decision that comes out is the one that went in, or a native one.\<close>

lemma apply_decision:
  "sort_apply e tier special actual d s = (r, s', d') \<Longrightarrow>
     d' = d \<or> d_action d' \<noteq> PARP_TIER_PREDICTIVE_UPGRADE \<and> d_action d' \<noteq> PARP_TIER_PREDICTIVE_DOWNGRADE"
  using fallback_action
  by (auto simp: sort_apply_def policy_protect_def Let_def split: if_splits prod.splits option.splits)

lemma apply_protects:
  assumes "sort_apply e tier special True d s = (r, s', d')"
    and "\<not> (d_action d = PARP_TIER_PREDICTIVE_UPGRADE \<and> \<not> special)"
  shows "r \<and> d' = d"
  using assms by (auto simp: sort_apply_def)

lemma zero_decision:
  "\<not> d_evaluated decision_zero" "d_action decision_zero = PARP_TIER_KEEP_RECLAIM"
  by (simp_all add: decision_zero_def)

lemma override_down:
  assumes ok: "layout_ok (se_layout e)" and idx: "0 \<le> se_tier_idx e" "se_tier_idx e \<le> 3"
    and dec: "sort_decide e tier special (so_tier s) = (w, d)"
    and tier: "tier = flags_tier (se_layout e) (nt_flags s)"
    and res: "sort_decided e (nt_flags s) tier special d (s \<lparr> so_tier := w \<rparr>) = (r, s', d')"
    and native: "tier > se_tier_idx e \<or> special" "\<not> r"
  shows "s_enabled (w_ctx (so_tier s)) \<and> d' = d \<and> d_action d = PARP_TIER_PREDICTIVE_DOWNGRADE \<and>
    parp_reservation_committed r d \<and> still_valid e (nt_flags s) w d"
proof -
  let ?s1 = "s \<lparr> so_tier := w \<rparr>"
  have on: "s_enabled (w_ctx (so_tier s))"
  proof (rule ccontr)
    assume "\<not> s_enabled (w_ctx (so_tier s))"
    then have "d = decision_zero" using dec by (simp add: sort_decide_def)
    then show False
      using res native apply_protects [of e tier special d ?s1 r s' d']
      by (auto simp: sort_decided_def Let_def zero_decision)
  qed
  then have dec: "parp_effective_tier_decide (te_view e) tier (se_tier_idx e) special (so_tier s) = (w, d)"
    using dec by (simp add: sort_decide_def)
  note ans = decide_answer [OF dec _ _ idx, unfolded tier, OF flags_tier_bounds [OF ok], folded tier]
  have ev: "d_evaluated d"
    using decide_evaluated [of "te_view e" tier "se_tier_idx e" special "so_tier s"] by (simp add: dec)
  have up: "d_action d \<noteq> PARP_TIER_PREDICTIVE_UPGRADE" using ans(2) native(1) by auto
  have actual: "\<not> d_actual_tier_protect d"
  proof
    assume "d_actual_tier_protect d"
    then show False
      using res ev up native(2) apply_protects [of e tier special d ?s1 r s' d']
      by (simp add: sort_decided_def)
  qed
  then have app: "parp_effective_tier_action_applies (s_mode (w_ctx (so_tier s))) (d_action d)"
    using ans(1) native(1) by auto
  then have act: "d_action d = PARP_TIER_PREDICTIVE_DOWNGRADE"
    using up by (simp add: parp_effective_tier_action_applies_def split: if_splits)
  have "fst (sort_revalidate e (nt_flags s) d ?s1) \<and> d' = d"
    using res ev act actual native(2) apply_protects [of e tier special _ _ r s' d']
    by (auto simp: sort_decided_def sort_apply_def split: if_splits prod.splits)
  then show ?thesis
    using on act ans(4) [OF app] ans(5) revalidate_valid [of e ?s1 d] native(2)
    by (auto simp: parp_reservation_committed_def split: if_splits)
qed

lemma decided_keeps_action:
  assumes "sort_decided e flags tier special d s = (r, s', d')"
    and "d_action d' = PARP_TIER_PREDICTIVE_UPGRADE"
  shows "d' = d"
proof -
  have kept: "d' = d1" if "sort_apply e tier' special' actual d1 s1 = (r, s', d')"
    for tier' special' actual d1 s1
    using apply_decision [OF that] assms(2) by simp
  have raced: False if "upgrade_raced e d s1 = (r, s', d')" for s1
    using that kept assms(2) fallback_action(1)
    by (auto simp: upgrade_raced_def Let_def split: if_splits) (metis fallback_action(1))
  show ?thesis
    using assms raced kept
    by (fastforce simp: sort_decided_def Let_def split: if_splits prod.splits)
qed

text \<open>A promotion by the policy: one generation up, at the head of its list, nothing else changed.\<close>

definition promoted_once :: "tier_env \<Rightarrow> sort_state \<Rightarrow> sort_state \<Rightarrow> bool" where
  "promoted_once e s s' \<longleftrightarrow>
     (let l = se_layout e; f = se_folio e; now = se_look e 2 (se_look e 1 (nt_flags s));
          old = oldest_gen (ff_type f) (nt_lru s); new = (old + 1) mod MAX_NR_GENS;
          lr = lru_gen_update_size f old new (nt_lru s)
      in parp_lru_gen_from_flags l now = old \<and> parp_lru_gen_from_flags l (nt_flags s') = new \<and>
         parp_lru_refs_from_flags l (nt_flags s') = parp_lru_refs_from_flags l now \<and>
         flag_workingset l (nt_flags s') = flag_workingset l now \<and>
         nt_lru s' = list_move f new lr \<and>
         nt_file_taken s' = nt_file_taken s \<and> nt_unqueued_dirty s' = nt_unqueued_dirty s)"

lemma policy_promoted:
  assumes ok: "layout_ok (se_layout e)"
    and pol: "policy_protect e d s1 = (r, s', d')" "d_action d' = PARP_TIER_PREDICTIVE_UPGRADE"
    and s1: "nt_lru s1 = nt_lru s" "nt_flags s1 = se_look e 1 (nt_flags s)"
      "nt_file_taken s1 = nt_file_taken s" "nt_unqueued_dirty s1 = nt_unqueued_dirty s"
  shows "r \<and> promoted_once e s s'"
proof -
  let ?f = "se_folio e" and ?l = "se_layout e" and ?now = "se_look e 2 (nt_flags s1)"
  let ?old = "oldest_gen (ff_type ?f) (nt_lru s)"
  obtain moved flags lr where inc: "parp_policy_inc_gen ?l (te_policy_race e) ?f (?now, nt_lru s) = (moved, flags, lr)"
    by (metis prod_cases3)
  obtain gen where gen: "moved = Some gen"
    using pol inc fallback_action(1)
    by (auto simp: policy_protect_def look_def Let_def s1(1) split: option.splits if_splits prod.splits)
  have old: "0 \<le> ?old" "?old < 4" by (simp_all add: oldest_gen_def gen_of_seq_def)
  have nextg: "parp_effective_tier_next_generation ?old = Inr ((?old + 1) mod 4)"
    using old by (simp add: parp_effective_tier_next_generation_def)
  have res: "gen = (?old + 1) mod 4" "parp_lru_gen_from_flags ?l ?now = ?old"
    "flags = parp_effective_tier_policy_flags (fl_gen_pgoff ?l) ?now gen"
    "lr = lru_gen_update_size ?f ?old gen (nt_lru s)"
    using inc gen nextg by (auto simp: parp_policy_inc_gen_def Let_def split: if_splits)
  have state: "r" "native_part s' = (native_part s1) \<lparr> nt_flags := flags, nt_lru := list_move ?f gen lr \<rparr>"
    using pol inc gen by (auto simp: policy_protect_def look_def Let_def s1(1) move_native move_front_def)
  then have parts: "nt_flags s' = flags" "nt_lru s' = list_move ?f gen lr"
    "nt_file_taken s' = nt_file_taken s" "nt_unqueued_dirty s' = nt_unqueued_dirty s"
    by (simp_all add: native_part_def s1)
  have "0 \<le> gen" "gen < 4" by (simp_all add: res(1))
  then show ?thesis
    using policy_flags_read [OF ok, of gen ?now] res parts state(1)
    by (simp add: promoted_once_def Let_def s1)
qed

lemma raced_action:
  assumes "upgrade_raced e d s = (r, s', d')"
  shows "d_action d' \<noteq> PARP_TIER_PREDICTIVE_UPGRADE"
  using assms fallback_action
  by (auto simp: upgrade_raced_def Let_def split: if_splits dest!: apply_decision)

lemma override_up:
  assumes ok: "layout_ok (se_layout e)" and idx: "0 \<le> se_tier_idx e" "se_tier_idx e \<le> 3"
    and dec: "sort_decide e tier special (so_tier s) = (w, d)"
    and tier: "tier = flags_tier (se_layout e) (nt_flags s)"
    and res: "sort_decided e (nt_flags s) tier special d (s \<lparr> so_tier := w \<rparr>) = (r, s', d')"
    and up: "parp_reservation_committed r d'" "d_reservation_upgrade d'"
  shows "d' = d \<and> \<not> (tier > se_tier_idx e \<or> special) \<and> still_valid e (nt_flags s) w d \<and>
    promoted_once e s s'"
proof -
  let ?s1 = "s \<lparr> so_tier := w \<rparr>"
  have act': "d_action d' = PARP_TIER_PREDICTIVE_UPGRADE"
    using up by (auto simp: parp_reservation_committed_def)
  have d': "d' = d" by (rule decided_keeps_action [OF res act'])
  have act: "d_action d = PARP_TIER_PREDICTIVE_UPGRADE" and resv: "d_reservation_active d"
    using act' up d' by (simp_all add: parp_reservation_committed_def)
  have "s_enabled (w_ctx (so_tier s))"
    using dec act by (cases "s_enabled (w_ctx (so_tier s))") (auto simp: sort_decide_def zero_decision)
  then have dec: "parp_effective_tier_decide (te_view e) tier (se_tier_idx e) special (so_tier s) = (w, d)"
    using dec by (simp add: sort_decide_def)
  note ans = decide_answer [OF dec _ _ idx, unfolded tier, OF flags_tier_bounds [OF ok], folded tier]
  have ev: "d_evaluated d"
    using decide_evaluated [of "te_view e" tier "se_tier_idx e" special "so_tier s"] by (simp add: dec)
  have native: "\<not> special" "\<not> tier > se_tier_idx e" using ans(2) [OF act] by auto
  have actual: "d_actual_tier_protect d" using ans(1) ans(5) [OF resv] native by blast
  obtain s1 where s1: "sort_revalidate e (nt_flags s) d ?s1 = (True, s1)"
    "policy_protect e d s1 = (r, s', d')"
    using res ev act actual native ans(9) raced_action [of e d _ r s' d'] act'
    by (auto simp: sort_decided_def sort_apply_def split: if_splits prod.splits)
  have "s1 = snd (sort_revalidate e (nt_flags s) d ?s1)" using s1 by simp
  then have "nt_lru s1 = nt_lru s" "nt_flags s1 = se_look e 1 (nt_flags s)"
    "nt_file_taken s1 = nt_file_taken s" "nt_unqueued_dirty s1 = nt_unqueued_dirty s"
    by (simp_all add: revalidate_state look_def)
  then show ?thesis
    using policy_promoted [OF ok s1(2) act'] revalidate_valid [of e ?s1 d] s1(1) native d' by simp
qed

text \<open>
  Native outcomes. Other CPUs change the flags during the call, so native code may see them as they were
  first read or as one of the later reads found them; \<open>flags_seen\<close> are these reads. A native outcome is what
  the unpatched function does with such flags, or what its decision on the flags first read, or on those
  flags, does then: protect the folio or let it be isolated.
\<close>

definition native_decided :: "tier_env \<Rightarrow> u64 \<Rightarrow> native_state \<Rightarrow> bool \<times> native_state" where
  "native_decided e flags n =
     (let l = se_layout e; tier = flags_tier l flags; special = flags_special l flags
      in if tier > se_tier_idx e \<or> special then (True, native_protect e no_note tier special n)
         else sort_rest e no_note n)"

definition flags_seen :: "tier_env \<Rightarrow> u64 \<Rightarrow> u64 set" where
  "flags_seen e flags =
     (let second = se_look e 1 flags; third = se_look e 2 second
      in {flags, second, se_look e 3 third, se_look e 3 (te_policy_race e third)})"

definition native_outcome :: "tier_env \<Rightarrow> sort_state \<Rightarrow> bool \<Rightarrow> sort_state \<Rightarrow> bool" where
  "native_outcome e s r s' \<longleftrightarrow> (\<exists>flags \<in> flags_seen e (nt_flags s).
     let n = (native_part s) \<lparr> nt_flags := flags \<rparr>
     in (r, native_part s') \<in> {native_sort_folio e n, native_decided e (nt_flags s) n, native_decided e flags n})"

lemma native_outcomeI:
  assumes "native_part s1 = (native_part s) \<lparr> nt_flags := flags \<rparr>" and "flags \<in> flags_seen e (nt_flags s)"
    and "(r, native_part s') \<in> {native_sort_folio e (native_part s1), native_decided e (nt_flags s) (native_part s1),
      native_decided e flags (native_part s1)}"
  shows "native_outcome e s r s'"
  using assms unfolding native_outcome_def Let_def by (intro bexI [of _ flags]) simp_all

lemma apply_rest_native:
  assumes "sort_apply e tier special False d s1 = (r, s', d')"
  shows "(r, native_part s') = sort_rest e no_note (native_part s1) \<and> d' = d"
  using assms rest_result [of e s1 d] by (auto simp: sort_apply_def native_result_def split: prod.splits)

lemma apply_protect_native:
  assumes "sort_apply e tier special True d s1 = (r, s', d')"
    and "\<not> (d_evaluated d \<and> d_action d = PARP_TIER_PREDICTIVE_UPGRADE)"
  shows "(r, native_part s') = (True, native_protect e no_note tier special (native_part s1)) \<and> d' = d"
  using assms by (auto simp: sort_apply_def native_protect_native)

lemma apply_plain_native:
  assumes "sort_apply e (flags_tier (se_layout e) flags) (flags_special (se_layout e) flags) actual d s1 = (r, s', d')"
    and "actual \<longleftrightarrow> flags_tier (se_layout e) flags > se_tier_idx e \<or> flags_special (se_layout e) flags"
    and "\<not> (actual \<and> d_evaluated d \<and> d_action d = PARP_TIER_PREDICTIVE_UPGRADE)"
  shows "(r, native_part s') = native_decided e flags (native_part s1)"
proof (cases actual)
  case True
  then show ?thesis
    using assms apply_protect_native [of e _ _ d s1 r s' d'] by (auto simp: native_decided_def Let_def)
next
  case False
  then show ?thesis
    using assms apply_rest_native [of e _ _ d s1 r s' d'] by (auto simp: native_decided_def Let_def)
qed

text \<open>The upgrade that was not made, because the flags had changed or because it lost a race.\<close>

lemma raced_outcome:
  assumes "upgrade_raced e d s1 = (r, s', d')" and "ff_evictable (se_folio e)"
    and s1: "native_part s1 = (native_part s) \<lparr> nt_flags := flags \<rparr>" "flags \<in> flags_seen e (nt_flags s)"
  shows "native_outcome e s r s'"
proof -
  let ?l = "se_layout e"
  have flags: "nt_flags s1 = flags" using arg_cong [OF s1(1), of nt_flags] by simp
  have lru: "nt_lru (native_part s1) = nt_lru s1" by simp
  show ?thesis
  proof (rule native_outcomeI [OF s1])
    show "(r, native_part s') \<in> {native_sort_folio e (native_part s1), native_decided e (nt_flags s) (native_part s1),
      native_decided e flags (native_part s1)}"
    proof (cases "parp_lru_gen_from_flags ?l flags = oldest_gen (ff_type (se_folio e)) (nt_lru s1)")
      case False
      then have "(r, native_part s') = native_sort_folio e (native_part s1)"
        using assms(1,2) by (auto simp: upgrade_raced_def native_sort_folio_def flags move_native Let_def)
      then show ?thesis by simp
    next
      case True
      let ?d = "parp_tier_native_fallback (flags_tier ?l flags) (se_tier_idx e) (flags_special ?l flags)
        PARP_TIER_BYPASS_GENERATION_RACE d"
      have "sort_apply e (flags_tier ?l flags) (flags_special ?l flags) (d_actual_tier_protect ?d) ?d s1 = (r, s', d')"
        using assms(1) True by (simp add: upgrade_raced_def flags Let_def)
      then have "(r, native_part s') = native_decided e flags (native_part s1)"
        by (rule apply_plain_native) (simp_all add: parp_tier_native_fallback_def)
      then show ?thesis by simp
    qed
  qed
qed

lemma policy_outcome:
  assumes pol: "policy_protect e d s1 = (r, s', d')" and "ff_evictable (se_folio e)"
    and s1: "native_part s1 = (native_part s) \<lparr> nt_flags := se_look e 1 (nt_flags s) \<rparr>"
  shows "native_outcome e s r s' \<or> r \<and> d' = d"
proof -
  let ?l = "se_layout e" and ?f = "se_folio e" and ?now = "se_look e 2 (se_look e 1 (nt_flags s))"
  have flags: "nt_flags s1 = se_look e 1 (nt_flags s)" and lru: "nt_lru s1 = nt_lru s"
    using arg_cong [OF s1, of nt_flags] arg_cong [OF s1, of nt_lru] by simp_all
  obtain moved flags2 lr where inc: "parp_policy_inc_gen ?l (te_policy_race e) ?f (?now, nt_lru s) = (moved, flags2, lr)"
    by (metis prod_cases3)
  show ?thesis
  proof (cases moved)
    case (Some gen)
    then show ?thesis using pol inc by (auto simp: policy_protect_def look_def flags lru Let_def)
  next
    case None
    then have left: "lr = nt_lru s" "flags2 \<in> {?now, te_policy_race e ?now}"
      using inc by (auto simp: parp_policy_inc_gen_def Let_def split: if_splits sum.splits)
    let ?fl = "se_look e 3 flags2"
    define s3 where "s3 = look e 3 ((look e 2 s1) \<lparr> nt_flags := flags2, nt_lru := lr \<rparr>)"
    have n3: "native_part s3 = (native_part s) \<lparr> nt_flags := ?fl \<rparr>"
      using s1 by (simp add: s3_def look_native look_def left(1) native_part_def)
    have seen: "?fl \<in> flags_seen e (nt_flags s)" using left(2) by (auto simp: flags_seen_def Let_def)
    have f3: "nt_flags s3 = ?fl" and l3: "nt_lru s3 = nt_lru s" by (simp_all add: s3_def look_def left(1))
    let ?old = "oldest_gen (ff_type ?f) (nt_lru s)" and ?gen = "parp_lru_gen_from_flags ?l ?fl"
    let ?tier = "flags_tier ?l ?fl" and ?special = "flags_special ?l ?fl"
    let ?d1 = "parp_tier_native_fallback ?tier (se_tier_idx e) ?special PARP_TIER_BYPASS_GENERATION_RACE d"
    have act: "d_actual_tier_protect ?d1 \<longleftrightarrow> ?tier > se_tier_idx e \<or> ?special"
      by (simp add: parp_tier_native_fallback_def)
    have inc2: "parp_policy_inc_gen ?l (te_policy_race e) ?f (nt_flags (look e 2 s1), nt_lru (look e 2 s1)) =
        (None, flags2, lr)"
      using inc None by (simp add: look_def flags lru)
    have run: "(r, s', d') =
        (if ?gen \<ge> 0 \<and> ?gen \<noteq> ?old
         then (True, note_move e PARP_OTHER_MOVE ?gen (move_front e ?gen s3), ?d1)
         else if ?tier > se_tier_idx e \<or> ?special
         then (True, native_protect e (note_move e) ?tier ?special s3, ?d1)
         else let (r, s4) = sort_rest e (note_move e) s3 in (r, s4, ?d1))"
      using pol unfolding policy_protect_def Let_def inc2 prod.case option.case s3_def [symmetric] act f3 l3
      by simp
    have "(r, native_part s') \<in> {native_sort_folio e (native_part s3), native_decided e (nt_flags s) (native_part s3),
        native_decided e ?fl (native_part s3)}"
    proof (cases "?gen \<ge> 0 \<and> ?gen \<noteq> ?old")
      case True
      then have "(r, native_part s') = native_sort_folio e (native_part s3)"
        using run assms(2) by (simp add: native_sort_folio_def f3 l3 move_native Let_def)
      then show ?thesis by simp
    next
      case False
      then have "(r, native_part s') = native_decided e ?fl (native_part s3)"
        using run rest_result [of e s3 ?d1]
        by (auto simp: native_decided_def Let_def native_protect_native native_result_def split: prod.splits if_splits)
      then show ?thesis by simp
    qed
    then show ?thesis using native_outcomeI [OF n3 seen] by blast
  qed
qed

text \<open>What the outcome can be: native, or a reserved and revalidated action of the policy.\<close>

lemma override_only:
  assumes ok: "layout_ok (se_layout e)" and idx: "0 \<le> se_tier_idx e" "se_tier_idx e \<le> 3"
    and ev: "ff_evictable (se_folio e)"
    and tier: "tier = flags_tier (se_layout e) (nt_flags s)" "special = flags_special (se_layout e) (nt_flags s)"
    and dec: "sort_decide e tier special (so_tier s) = (w, d)"
    and res: "sort_decided e (nt_flags s) tier special d (s \<lparr> so_tier := w \<rparr>) = (r, s', d')"
  shows "native_outcome e s r s' \<or>
    s_enabled (w_ctx (so_tier s)) \<and> d' = d \<and> parp_reservation_committed r d \<and>
    parp_effective_tier_action_applies (s_mode (w_ctx (so_tier s))) (d_action d) \<and> still_valid e (nt_flags s) w d"
proof -
  let ?s1 = "s \<lparr> so_tier := w \<rparr>" and ?T = "tier > se_tier_idx e \<or> special"
  have here: "nt_flags s \<in> flags_seen e (nt_flags s)" "se_look e 1 (nt_flags s) \<in> flags_seen e (nt_flags s)"
    by (simp_all add: flags_seen_def Let_def)
  have same: "(native_part s) \<lparr> nt_flags := nt_flags s \<rparr> = native_part s" by (simp add: native_part_def)
  have n1: "native_part ?s1 = (native_part s) \<lparr> nt_flags := nt_flags s \<rparr>" by (simp add: same)
  show ?thesis
  proof (cases "s_enabled (w_ctx (so_tier s))")
    case False
    then have "d = decision_zero" using dec by (simp add: sort_decide_def)
    then have "sort_apply e tier special ?T d ?s1 = (r, s', d')" "\<not> d_evaluated d"
      using res by (simp_all add: sort_decided_def zero_decision)
    then have "(r, native_part s') = native_decided e (nt_flags s) (native_part ?s1)"
      unfolding tier by (intro apply_plain_native) auto
    then show ?thesis using native_outcomeI [OF n1 here(1)] by simp
  next
    case True
    then have run: "parp_effective_tier_decide (te_view e) tier (se_tier_idx e) special (so_tier s) = (w, d)"
      using dec by (simp add: sort_decide_def)
    note ans = decide_answer [OF run _ _ idx, unfolded tier(1), OF flags_tier_bounds [OF ok], folded tier(1)]
    have eval: "d_evaluated d"
      using decide_evaluated [of "te_view e" tier "se_tier_idx e" special "so_tier s"] by (simp add: run)
    define valid where "valid = fst (sort_revalidate e (nt_flags s) d ?s1)"
    define s1 where "s1 = snd (sort_revalidate e (nt_flags s) d ?s1)"
    have reval: "sort_revalidate e (nt_flags s) d ?s1 = (valid, s1)" by (simp add: valid_def s1_def)
    have now: "native_part s1 = (native_part s) \<lparr> nt_flags := se_look e 1 (nt_flags s) \<rparr>"
      by (simp add: s1_def revalidate_state look_native look_def native_part_def)
    have still: "still_valid e (nt_flags s) w d" if valid
      using revalidate_valid [of e ?s1 d] that by (simp add: valid_def)
    consider (down) "d_action d = PARP_TIER_PREDICTIVE_DOWNGRADE" "\<not> d_actual_tier_protect d"
      | (up) "d_action d = PARP_TIER_PREDICTIVE_UPGRADE" "d_actual_tier_protect d"
      | (plain) "\<not> (d_action d = PARP_TIER_PREDICTIVE_DOWNGRADE \<and> \<not> d_actual_tier_protect d)"
        "\<not> (d_action d = PARP_TIER_PREDICTIVE_UPGRADE \<and> d_actual_tier_protect d)" by blast
    then show ?thesis
    proof cases
      case down
      have T: ?T using ans(3) [OF down(1)] by simp
      then have app: "parp_effective_tier_action_applies (s_mode (w_ctx (so_tier s))) (d_action d)"
        using ans(1) down(2) by auto
      have com: "parp_reservation_committed r d"
        using ans(4,5) app down(1) by (auto simp: parp_reservation_committed_def split: if_splits)
      show ?thesis
      proof (cases valid)
        case True
        then have "sort_apply e tier special False d s1 = (r, s', d')"
          using res eval down reval by (simp add: sort_decided_def)
        then show ?thesis
          using apply_rest_native still [OF True] app com \<open>s_enabled (w_ctx (so_tier s))\<close> by blast
      next
        case False
        let ?d = "(parp_tier_native_fallback tier (se_tier_idx e) special PARP_TIER_BYPASS_GENERATION_RACE d)
          \<lparr> d_actual_tier_protect := True, d_action := PARP_TIER_KEEP_PROTECT \<rparr>"
        have "sort_apply e tier special True ?d s1 = (r, s', d')"
          using res eval down reval False by (simp add: sort_decided_def)
        then have "(r, native_part s') = native_decided e (nt_flags s) (native_part s1)"
          using T unfolding tier by (intro apply_plain_native) auto
        then show ?thesis using native_outcomeI [OF now here(2)] by simp
      qed
    next
      case up
      have T: "\<not> ?T" using ans(2) [OF up(1)] by simp
      then have app: "parp_effective_tier_action_applies (s_mode (w_ctx (so_tier s))) (d_action d)"
        using ans(1) up(2) by auto
      have com: "r \<Longrightarrow> parp_reservation_committed r d"
        using ans(4,5) app up(1) by (auto simp: parp_reservation_committed_def split: if_splits)
      show ?thesis
      proof (cases valid)
        case True
        then have "policy_protect e d s1 = (r, s', d')"
          using res eval up reval ans(9) T by (simp add: sort_decided_def sort_apply_def)
        then show ?thesis
          using policy_outcome [OF _ ev now] com app still [OF True] \<open>s_enabled (w_ctx (so_tier s))\<close> by blast
      next
        case False
        then have "upgrade_raced e d s1 = (r, s', d')"
          using res eval up reval by (simp add: sort_decided_def)
        then show ?thesis using raced_outcome [OF _ ev now here(2)] by blast
      qed
    next
      case plain
      then have "sort_apply e tier special (d_actual_tier_protect d) d ?s1 = (r, s', d')"
        using res eval by (auto simp: sort_decided_def)
      moreover have "d_actual_tier_protect d \<longleftrightarrow> ?T"
        using ans(1) plain ans(2,3) by (auto simp: parp_effective_tier_action_applies_def split: if_splits)
      ultimately have "(r, native_part s') = native_decided e (nt_flags s) (native_part ?s1)"
        using plain(2) unfolding tier by (intro apply_plain_native) auto
      then show ?thesis using native_outcomeI [OF n1 here(1)] by simp
    qed
  qed
qed

text \<open>C3. Policy overrides native reclaim only with a reservation, and only on evidence that still holds
  when it acts. Whatever other CPUs do to the flags meanwhile, the outcome for an evictable folio of the
  oldest generation is a native one, or the batch is enabled, its mode applies the predicted action, the
  reservation for it is one that \<open>finish\<close> keeps, and mode, configuration, metadata and the flags the
  decision rests on are unchanged. A folio that native code would protect is left to be isolated only by
  a predicted downgrade of that kind. A reserved upgrade is kept only if native code would not protect the
  folio, and then the folio has moved by exactly one generation to the head of its list, with its
  reference count and working-set bit as they were.\<close>

theorem parp_sort_overrides_checked:
  fixes e :: tier_env and s :: sort_state
  assumes "layout_ok (se_layout e)" and "0 \<le> se_tier_idx e" and "se_tier_idx e \<le> 3"
    and "ff_evictable (se_folio e)"
    and "parp_lru_gen_from_flags (se_layout e) (nt_flags s) = oldest_gen (ff_type (se_folio e)) (nt_lru s)"
    and "sort_decide e (flags_tier (se_layout e) (nt_flags s)) (flags_special (se_layout e) (nt_flags s))
      (so_tier s) = (w, d)"
    and "sort_folio e s = (r, s', d')"
  shows "(native_outcome e s r s' \<or>
      s_enabled (w_ctx (so_tier s)) \<and> d' = d \<and> parp_reservation_committed r d \<and>
      parp_effective_tier_action_applies (s_mode (w_ctx (so_tier s))) (d_action d) \<and>
      still_valid e (nt_flags s) w d) \<and>
    ((flags_tier (se_layout e) (nt_flags s) > se_tier_idx e \<or> flags_special (se_layout e) (nt_flags s)) \<and>
      \<not> r \<longrightarrow>
        s_enabled (w_ctx (so_tier s)) \<and> d' = d \<and> d_action d = PARP_TIER_PREDICTIVE_DOWNGRADE \<and>
        parp_reservation_committed r d' \<and> still_valid e (nt_flags s) w d) \<and>
    (parp_reservation_committed r d' \<and> d_reservation_upgrade d' \<longrightarrow>
        d' = d \<and> \<not> (flags_tier (se_layout e) (nt_flags s) > se_tier_idx e \<or>
                  flags_special (se_layout e) (nt_flags s)) \<and>
        still_valid e (nt_flags s) w d \<and> promoted_once e s s')"
proof -
  let ?l = "se_layout e"
  have res: "sort_decided e (nt_flags s) (flags_tier ?l (nt_flags s)) (flags_special ?l (nt_flags s)) d
      (s \<lparr> so_tier := w \<rparr>) = (r, s', d')"
    using assms(4-7) by (simp add: sort_folio_def Let_def)
  show ?thesis
    using override_only [OF assms(1-4) refl refl assms(6) res]
      override_down [OF assms(1-3,6) refl res] override_up [OF assms(1-3,6) refl res] by blast
qed

section \<open>A concrete folio\<close>

text \<open>
  The folio and the world of \<open>Tier_Gate\<close>'s samples, on a lruvec whose oldest generation is 0, with the
  native threshold at tier 1.
\<close>

definition sample_layout :: flag_layout where
  "sample_layout = \<lparr> fl_gen_pgoff = 10, fl_refs_pgoff = 20, fl_refs_width = 2, fl_referenced = 1,
     fl_workingset = 2, fl_reclaim = 3, fl_dirty = 4, fl_writeback = 5, fl_unevictable = 6 \<rparr>"

definition sample_facts :: folio_facts where
  "sample_facts = \<lparr> ff_id = 7, ff_type = True, ff_zone = 0, ff_pages = 1, ff_evictable = True \<rparr>"

definition sample_lru :: lru_gen_folio where
  "sample_lru = \<lparr> lg_max_seq = 11, lg_min_seq = (\<lambda>_. 8),
     lg_folios = (\<lambda>g t z. if g = 0 \<and> t \<and> z = 0 then [3, 7] else []),
     lg_nr_pages = (\<lambda>g t z. if g = 0 \<and> t \<and> z = 0 then 2 else 0),
     lg_avg_refaulted = (\<lambda>_ _. 0), lg_avg_total = (\<lambda>_ _. 0), lg_protected = (\<lambda>_ _ _. 0),
     lg_evicted = (\<lambda>_ _ _. 0), lg_refaulted = (\<lambda>_ _ _. 0), lg_lru_size = (\<lambda>_ _ _. 0),
     lg_unevictable = (\<lambda>_. 0) \<rparr>"

definition sample_sort_env :: "u32 \<Rightarrow> tier_env" where
  "sample_sort_env later = \<lparr> se_layout = sample_layout, se_folio = sample_facts, se_tier_idx = 1,
     se_reclaim_idx = 4, se_look = (\<lambda>_ flags. flags), se_races = (\<lambda>_. []), te_view = sample_folio,
     te_control = (\<lambda>g. g), te_page = (\<lambda>p. p), te_later = later, te_policy_race = (\<lambda>flags. flags),
     te_key = True, te_note = quiet, te_trace = False, te_now_ms = 1000 \<rparr>"

definition sample_state :: "parp_tier_world \<Rightarrow> sort_state" where
  "sample_state w = \<lparr> nt_lru = sample_lru, nt_flags = 0x400, nt_file_taken = 0, nt_unqueued_dirty = 0,
     nt_culled = 0, so_tier = w \<rparr>"

definition sample_later :: u32 where "sample_later = 8913332"

lemma sample_hyps:
  "layout_ok sample_layout" "flags_tier sample_layout 0x400 = 0" "\<not> flags_special sample_layout 0x400"
  "parp_lru_gen_from_flags sample_layout 0x400 = 0" "oldest_gen True sample_lru = 0"
  by code_simp+

lemma sample_sorted:
  "case sort_folio (sample_sort_env sample_later) (sample_state sample_world) of (r, s', d') \<Rightarrow>
     r \<and> d_reservation_active d' \<and> d_reservation_upgrade d' \<and> d_action d' = PARP_TIER_PREDICTIVE_UPGRADE \<and>
     lg_folios (nt_lru s') 1 True 0 = [7]"
  by code_simp

text \<open>Witness of C3: the hot sample folio is promoted by the policy although native code would reclaim it.\<close>

theorem parp_sort_overrides_checked_witness:
  "\<exists>w d r s'. sort_folio (sample_sort_env sample_later) (sample_state sample_world) = (r, s', d) \<and>
     still_valid (sample_sort_env sample_later) 0x400 w d \<and>
     promoted_once (sample_sort_env sample_later) (sample_state sample_world) s'"
proof -
  let ?e = "sample_sort_env sample_later" and ?s = "sample_state sample_world"
  obtain w d where dec: "sort_decide ?e (flags_tier (se_layout ?e) (nt_flags ?s))
      (flags_special (se_layout ?e) (nt_flags ?s)) (so_tier ?s) = (w, d)" by fastforce
  obtain r s' d' where run: "sort_folio ?e ?s = (r, s', d')" by (metis prod_cases3)
  have "parp_reservation_committed r d'" "d_reservation_upgrade d'"
    using sample_sorted by (simp_all add: run parp_reservation_committed_def)
  then show ?thesis
    using parp_sort_overrides_checked [OF _ _ _ _ _ dec run] run sample_hyps
    by (auto simp: sample_sort_env_def sample_facts_def sample_state_def)
qed

text \<open>Witness of C10: an enabled batch that only observes.\<close>

theorem parp_sort_folio_native_witness:
  "let s = sample_state (sample_world \<lparr> w_ctx := (w_ctx sample_world) \<lparr> s_mode := PARP_EFFECTIVE_TIER_SHADOW \<rparr> \<rparr>)
   in s_enabled (w_ctx (so_tier s)) \<and> native_result (sort_folio (sample_sort_env sample_later) s) =
      native_sort_folio (sample_sort_env sample_later) (native_part s)"
proof -
  let ?w = "sample_world \<lparr> w_ctx := (w_ctx sample_world) \<lparr> s_mode := PARP_EFFECTIVE_TIER_SHADOW \<rparr> \<rparr>"
  have "s_enabled (w_ctx sample_world)" by code_simp
  then show ?thesis
    using parp_sort_folio_native [of "sample_sort_env sample_later" "sample_state ?w"] sample_hyps(1)
    by (simp add: sample_sort_env_def sample_state_def parp_effective_tier_action_applies_def)
qed

end
