(* ===== verification/Sort_Invariant.thy ===== *)
theory Sort_Invariant
  imports Sort_Folio
begin

text \<open>
  What \<open>sort_folio\<close> does to the lists of the lruvec: whatever the policy decides and whatever other CPUs
  do to the flags, an evictable folio is in exactly one list, that of the generation in its flags, and no page is
  counted twice or lost.
\<close>

section \<open>Folios on the lists\<close>

definition gen_valid :: "flag_layout \<Rightarrow> u64 \<Rightarrow> bool" where
  "gen_valid l flags \<longleftrightarrow> 0 \<le> parp_lru_gen_from_flags l flags \<and> parp_lru_gen_from_flags l flags < 4"

text \<open>Other CPUs may promote the folio; to take it off the lists they would need the lru lock.\<close>

definition others_ok :: "tier_env \<Rightarrow> bool" where
  "others_ok e \<longleftrightarrow>
     (\<forall>k flags. gen_valid (se_layout e) flags \<longrightarrow> gen_valid (se_layout e) (se_look e k flags)) \<and>
     (\<forall>k change flags. change \<in> set (se_races e k) \<longrightarrow> gen_valid (se_layout e) flags \<longrightarrow>
        gen_valid (se_layout e) (change flags)) \<and>
     (\<forall>flags. gen_valid (se_layout e) flags \<longrightarrow> gen_valid (se_layout e) (te_policy_race e flags))"

definition listed_at :: "folio_facts \<Rightarrow> int \<Rightarrow> lru_gen_folio \<Rightarrow> bool" where
  "listed_at f gen lr \<longleftrightarrow> (\<forall>g t z. count_list (lg_folios lr g t z) (ff_id f) =
     (if g = gen \<and> t = ff_type f \<and> z = ff_zone f then 1 else 0))"

definition pages_of :: "lru_gen_folio \<Rightarrow> bool \<Rightarrow> nat \<Rightarrow> int" where
  "pages_of lr t z = (\<Sum>g \<in> {0..3}. lg_nr_pages lr g t z)"

text \<open>The other folios stay where they are; per type and zone, the number of pages is the same.\<close>

definition lists_kept :: "folio_facts \<Rightarrow> lru_gen_folio \<Rightarrow> lru_gen_folio \<Rightarrow> bool" where
  "lists_kept f lr lr' \<longleftrightarrow> lg_min_seq lr' = lg_min_seq lr \<and> lg_max_seq lr' = lg_max_seq lr \<and>
     lg_unevictable lr' = lg_unevictable lr \<and>
     (\<forall>g t z. removeAll (ff_id f) (lg_folios lr' g t z) = removeAll (ff_id f) (lg_folios lr g t z)) \<and>
     (\<forall>t z. pages_of lr' t z = pages_of lr t z)"

lemma kept_refl: "lists_kept f lr lr" by (simp add: lists_kept_def)

lemma kept_trans: "lists_kept f lr lr' \<Longrightarrow> lists_kept f lr' lr'' \<Longrightarrow> lists_kept f lr lr''"
  by (simp add: lists_kept_def)

lemma kept_oldest: "lists_kept f lr lr' \<Longrightarrow> oldest_gen t lr' = oldest_gen t lr"
  by (simp add: lists_kept_def oldest_gen_def)

lemma count_removeAll: "count_list (removeAll x xs) y = (if x = y then 0 else count_list xs y)"
  by (induction xs) auto

lemma move_kept:
  "lists_kept f lr (list_move f gen lr)" "listed_at f gen (list_move f gen lr)"
  "lists_kept f lr (list_move_tail f gen lr)" "listed_at f gen (list_move_tail f gen lr)"
  by (simp_all add: list_move_def list_move_tail_def list_put_def list_del_def lists_kept_def
      pages_of_def listed_at_def count_removeAll)

lemma update_kept:
  assumes "0 \<le> old" "old < 4" "0 \<le> new" "new < 4"
  shows "lists_kept f lr (lru_gen_update_size f old new lr)"
proof -
  let ?lr = "add_nr_pages f new (uint (ff_pages f)) (add_nr_pages f old (- uint (ff_pages f)) lr)"
  have gens: "{0..3} = {0, 1, 2, 3 :: int}" by auto
  have "old \<in> {0, 1, 2, 3}" "new \<in> {0, 1, 2, 3}" using assms by auto
  then have "pages_of ?lr t z = pages_of lr t z" for t z
    by (auto simp: pages_of_def add_nr_pages_def gens)
  moreover have "lg_folios ?lr = lg_folios lr" "lg_min_seq ?lr = lg_min_seq lr" "lg_max_seq ?lr = lg_max_seq lr"
    "lg_unevictable ?lr = lg_unevictable lr"
    by (simp_all add: add_nr_pages_def)
  ultimately have "lists_kept f lr ?lr" by (simp add: lists_kept_def)
  moreover have "lists_kept f x (update_lru_size f a n y)" if "lists_kept f x y" for a n x y
    using that by (simp add: lists_kept_def update_lru_size_def pages_of_def)
  ultimately show ?thesis
    using assms unfolding lru_gen_update_size_def by (auto simp: Let_def)
qed

section \<open>The moves\<close>

lemma inc_flags_gen:
  assumes "layout_ok l" and "0 \<le> old" "old < 4"
  shows "parp_lru_gen_from_flags l (inc_gen_flags l ((old + 1) mod 4) reclaiming flags) = (old + 1) mod 4"
    and "0 \<le> (old + 1) mod 4" "(old + 1) mod 4 < 4" "(old + 1) mod 4 \<noteq> old"
proof -
  show new: "0 \<le> (old + 1) mod 4" "(old + 1) mod 4 < 4" by simp_all
  show "(old + 1) mod 4 \<noteq> old" using assms(2,3) by presburger
  show "parp_lru_gen_from_flags l (inc_gen_flags l ((old + 1) mod 4) reclaiming flags) = (old + 1) mod 4"
    by (rule inc_gen_flags_read(1) [OF assms(1) new])
qed

lemma inc_loop_gen:
  assumes "layout_ok l" and "0 \<le> old" "old < 4"
  shows "gen_valid l flags \<Longrightarrow> (\<forall>change \<in> set others. \<forall>x. gen_valid l x \<longrightarrow> gen_valid l (change x)) \<Longrightarrow>
    inc_gen_loop l old reclaiming others flags = (gen, moved, flags') \<Longrightarrow>
    gen = parp_lru_gen_from_flags l flags' \<and> gen_valid l flags' \<and> gen \<noteq> old \<and>
    (moved \<longrightarrow> gen = (old + 1) mod 4)"
proof (induction others arbitrary: flags)
  case Nil
  then show ?case
    using inc_flags_gen [OF assms]
    by (auto simp: inc_gen_loop.simps [of l old reclaiming] gen_valid_def Let_def split: if_splits)
next
  case (Cons change rest)
  show ?case
  proof (cases "parp_lru_gen_from_flags l flags = old \<and> change flags \<noteq> flags")
    case True
    have "inc_gen_loop l old reclaiming rest (change flags) = (gen, moved, flags')"
      using True Cons.prems(3) by (simp add: inc_gen_loop.simps [of l old reclaiming "change # rest"] Let_def)
    moreover have "gen_valid l (change flags)" "\<forall>change \<in> set rest. \<forall>x. gen_valid l x \<longrightarrow> gen_valid l (change x)"
      using Cons.prems(1,2) by simp_all
    ultimately show ?thesis by (intro Cons.IH)
  next
    case False
    then show ?thesis
      using Cons.prems inc_flags_gen [OF assms]
      by (auto simp: inc_gen_loop.simps [of l old reclaiming "change # rest"] gen_valid_def Let_def
          split: if_splits)
  qed
qed

lemma oldest_bounds: "0 \<le> oldest_gen t lr" "oldest_gen t lr < 4"
  by (simp_all add: oldest_gen_def gen_of_seq_def)

lemma folio_inc_gen_kept:
  assumes "layout_ok l" and "gen_valid l flags"
    and "\<forall>change \<in> set others. \<forall>x. gen_valid l x \<longrightarrow> gen_valid l (change x)"
    and "folio_inc_gen l others f reclaiming (flags, lr) = (gen, moved, flags', lr')"
  shows "gen = parp_lru_gen_from_flags l flags'" "gen_valid l flags'" "gen \<noteq> oldest_gen (ff_type f) lr"
    "lists_kept f lr lr'"
proof -
  let ?old = "oldest_gen (ff_type f) lr"
  have loop: "inc_gen_loop l ?old reclaiming others flags = (gen, moved, flags')"
    and lr': "lr' = (if moved then lru_gen_update_size f ?old gen lr else lr)"
    using assms(4) by (auto simp: folio_inc_gen_def Let_def split: prod.splits)
  note gen = inc_loop_gen [OF assms(1) oldest_bounds assms(2,3) loop]
  then show "gen = parp_lru_gen_from_flags l flags'" "gen_valid l flags'" "gen \<noteq> ?old" by simp_all
  show "lists_kept f lr lr'"
    using gen kept_refl by (auto simp: lr' gen_valid_def intro!: update_kept oldest_bounds)
qed

text \<open>
  \<open>sorted_ok e s r s'\<close>: a step of the function from \<open>s\<close> to \<open>s'\<close> with result \<open>r\<close> that is as it should be.
\<close>

definition sorted_ok :: "tier_env \<Rightarrow> sort_state \<Rightarrow> bool \<Rightarrow> sort_state \<Rightarrow> bool" where
  "sorted_ok e s r s' \<longleftrightarrow>
     (let l = se_layout e; f = se_folio e; gen = parp_lru_gen_from_flags l (nt_flags s')
      in gen_valid l (nt_flags s') \<and> lists_kept f (nt_lru s) (nt_lru s') \<and>
         (if r then listed_at f gen (nt_lru s') \<and> gen \<noteq> oldest_gen (ff_type f) (nt_lru s)
          else nt_lru s' = nt_lru s))"

lemma sorted_start:
  "nt_lru s1 = nt_lru s \<Longrightarrow> sorted_ok e s1 r s' \<Longrightarrow> sorted_ok e s r s'"
  by (auto simp: sorted_ok_def Let_def)

lemma others_look:
  "others_ok e \<Longrightarrow> gen_valid (se_layout e) (nt_flags s) \<Longrightarrow> gen_valid (se_layout e) (nt_flags (look e k s))"
  by (simp add: others_ok_def look_def)

lemma look_lru [simp]: "nt_lru (look e k s) = nt_lru s"
  by (simp add: look_def)

lemma inc_gen_kept:
  assumes "layout_ok (se_layout e)" "others_ok e" "gen_valid (se_layout e) (nt_flags s)"
    and "inc_gen e (note_move e) event reclaiming k s = (gen, s1)"
  shows "gen = parp_lru_gen_from_flags (se_layout e) (nt_flags s1)"
    "gen_valid (se_layout e) (nt_flags s1)" "gen \<noteq> oldest_gen (ff_type (se_folio e)) (nt_lru s)"
    "lists_kept (se_folio e) (nt_lru s) (nt_lru s1)"
proof -
  obtain moved flags lr where inc: "folio_inc_gen (se_layout e) (se_races e k) (se_folio e) reclaiming
      (nt_flags (look e k s), nt_lru s) = (gen, moved, flags, lr)"
    and s1: "nt_flags s1 = flags" "nt_lru s1 = lr"
    using assms(4) by (auto simp: inc_gen_def Let_def split: prod.splits)
  have "\<forall>change \<in> set (se_races e k). \<forall>x. gen_valid (se_layout e) x \<longrightarrow> gen_valid (se_layout e) (change x)"
    using assms(2) by (simp add: others_ok_def)
  note kept = folio_inc_gen_kept [OF assms(1) others_look [OF assms(2,3)] this inc]
  then show "gen = parp_lru_gen_from_flags (se_layout e) (nt_flags s1)"
    "gen_valid (se_layout e) (nt_flags s1)" "gen \<noteq> oldest_gen (ff_type (se_folio e)) (nt_lru s)"
    "lists_kept (se_folio e) (nt_lru s) (nt_lru s1)"
    by (simp_all add: s1)
qed

lemma moved_ok:
  assumes "inc_gen e (note_move e) event reclaiming k s = (gen, s1)"
    and "layout_ok (se_layout e)" "others_ok e" "gen_valid (se_layout e) (nt_flags s)"
  shows "sorted_ok e s True (move_front e gen s1)" "sorted_ok e s True (move_tail e gen s1)"
  using inc_gen_kept [OF assms(2-4,1)] move_kept kept_trans
  by (auto simp: sorted_ok_def move_front_def move_tail_def Let_def)

lemma count_ok: "sorted_ok e s r s' \<Longrightarrow> r \<Longrightarrow> sorted_ok e s r (count_protected e tier s')"
  by (simp add: sorted_ok_def count_protected_def Let_def lists_kept_def listed_at_def pages_of_def)

lemma protect_ok:
  assumes "layout_ok (se_layout e)" "others_ok e" "gen_valid (se_layout e) (nt_flags s)"
  shows "sorted_ok e s True (native_protect e (note_move e) tier special s)"
  using moved_ok(1) [OF _ assms] count_ok
  by (auto simp: native_protect_def Let_def split: prod.splits)

lemma rest_ok:
  assumes "layout_ok (se_layout e)" "others_ok e" "gen_valid (se_layout e) (nt_flags s)"
    and "sort_rest e (note_move e) s = (r, s')"
  shows "sorted_ok e s r s'"
proof -
  let ?f = "se_folio e" and ?l = "se_layout e" and ?s1 = "look e 5 s"
  let ?dirty = "nt_flags s AND flag_bit (fl_dirty ?l) \<noteq> 0"
  let ?writeback = "nt_flags ?s1 AND flag_bit (fl_writeback ?l) \<noteq> 0"
  define s2 where "s2 = (if ff_type ?f \<and> ?dirty
    then ?s1 \<lparr> nt_file_taken := nt_file_taken ?s1 + ucast (ff_pages ?f), nt_unqueued_dirty :=
           nt_unqueued_dirty ?s1 + (if ?writeback then 0 else ucast (ff_pages ?f)) \<rparr> else ?s1)"
  have s2: "nt_lru s2 = nt_lru s" "gen_valid ?l (nt_flags s2)"
    using others_look [OF assms(2,3), of 5] by (simp_all add: s2_def)
  show ?thesis
  proof (cases "se_reclaim_idx e < ff_zone ?f")
    case True
    then show ?thesis
      using assms(4) moved_ok(2) [OF _ assms(1-3)] by (auto simp: sort_rest_def split: prod.splits)
  next
    case False
    have "sort_rest e (note_move e) s = (if ?writeback \<or> ff_type ?f \<and> ?dirty
        then let (gen, s3) = inc_gen e (note_move e) PARP_NATIVE_GENERATION_MOVE True 6 s2
             in (True, move_front e gen s3) else (False, s2))"
      unfolding sort_rest_def s2_def Let_def by (simp only: False if_False)
    note res = this [unfolded assms(4)]
    show ?thesis
    proof (cases "?writeback \<or> ff_type ?f \<and> ?dirty")
      case True
      then show ?thesis
        using res moved_ok(1) [OF _ assms(1,2) s2(2)] sorted_start [OF s2(1)]
        by (auto split: prod.splits)
    next
      case False
      then have "s' = s2" "\<not> r" using res by auto
      then show ?thesis using s2 kept_refl by (auto simp: sorted_ok_def Let_def)
    qed
  qed
qed

lemma raced_move_ok:
  assumes "gen_valid (se_layout e) (nt_flags s)"
    and "parp_lru_gen_from_flags (se_layout e) (nt_flags s) \<noteq> oldest_gen (ff_type (se_folio e)) (nt_lru s)"
  shows "sorted_ok e s True
    (note_move e event gen' (move_front e (parp_lru_gen_from_flags (se_layout e) (nt_flags s)) s))"
    "sorted_ok e s True (move_front e (parp_lru_gen_from_flags (se_layout e) (nt_flags s)) s)"
  using assms move_kept by (simp_all add: sorted_ok_def move_front_def Let_def)

lemma policy_ok:
  assumes "layout_ok (se_layout e)" "others_ok e" "gen_valid (se_layout e) (nt_flags s)"
    and "policy_protect e d s = (r, s', d')"
  shows "sorted_ok e s r s'"
proof -
  let ?l = "se_layout e" and ?f = "se_folio e" and ?s1 = "look e 2 s"
  let ?old = "oldest_gen (ff_type ?f) (nt_lru s)"
  have v1: "gen_valid ?l (nt_flags ?s1)" by (rule others_look [OF assms(2,3)])
  obtain moved flags lr where inc: "parp_policy_inc_gen ?l (te_policy_race e) ?f (nt_flags ?s1, nt_lru s) =
      (moved, flags, lr)" by (metis prod_cases3)
  let ?s2 = "?s1 \<lparr> nt_flags := flags, nt_lru := lr \<rparr>" and ?s3 = "look e 3 (?s1 \<lparr> nt_flags := flags, nt_lru := lr \<rparr>)"
  show ?thesis
  proof (cases moved)
    case (Some gen)
    have nextg: "parp_effective_tier_next_generation ?old = Inr ((?old + 1) mod 4)"
      using oldest_bounds [of "ff_type ?f" "nt_lru s"] by (simp add: parp_effective_tier_next_generation_def)
    have gen: "gen = (?old + 1) mod 4" "0 \<le> gen" "gen < 4" "gen \<noteq> ?old"
      "flags = parp_effective_tier_policy_flags (fl_gen_pgoff ?l) (nt_flags ?s1) gen"
      "lr = lru_gen_update_size ?f ?old gen (nt_lru s)"
      using inc Some nextg inc_flags_gen(4) [OF assms(1) oldest_bounds, of "ff_type ?f" "nt_lru s"]
      by (auto simp: parp_policy_inc_gen_def Let_def split: if_splits)
    have "lists_kept ?f (nt_lru s) lr" unfolding gen(6) by (rule update_kept [OF oldest_bounds gen(2,3)])
    then have "lists_kept ?f (nt_lru s) (list_move ?f gen lr)" by (rule kept_trans [OF _ move_kept(1)])
    moreover have "r" "nt_lru s' = list_move ?f gen lr" "nt_flags s' = flags"
      using assms(4) inc Some by (auto simp: policy_protect_def Let_def move_front_def)
    ultimately show ?thesis
      using policy_flags_read(1) [OF assms(1) gen(2,3), of "nt_flags ?s1"] move_kept(2) gen
      by (simp add: sorted_ok_def gen_valid_def)
  next
    case None
    have lr: "lr = nt_lru s" and fl: "gen_valid ?l flags"
      using inc None v1 assms(2)
      by (auto simp: parp_policy_inc_gen_def Let_def others_ok_def split: if_splits sum.splits)
    have v3: "gen_valid ?l (nt_flags ?s3)" using fl by (intro others_look [OF assms(2)]) simp
    have l3: "nt_lru ?s3 = nt_lru s" by (simp add: lr)
    have ge: "0 \<le> parp_lru_gen_from_flags ?l (nt_flags ?s3)" using v3 by (simp add: gen_valid_def)
    define tier where "tier = flags_tier ?l (nt_flags ?s3)"
    define special where "special = flags_special ?l (nt_flags ?s3)"
    define d1 where "d1 = parp_tier_native_fallback tier (se_tier_idx e) special
      PARP_TIER_BYPASS_GENERATION_RACE d"
    have res: "(r, s') =
        (if parp_lru_gen_from_flags ?l (nt_flags ?s3) \<noteq> oldest_gen (ff_type ?f) (nt_lru ?s3)
         then (True, note_move e PARP_OTHER_MOVE (parp_lru_gen_from_flags ?l (nt_flags ?s3))
                 (move_front e (parp_lru_gen_from_flags ?l (nt_flags ?s3)) ?s3))
         else if d_actual_tier_protect d1 then (True, native_protect e (note_move e) tier special ?s3)
         else sort_rest e (note_move e) ?s3)"
      using assms(4) inc None ge
      by (auto simp: policy_protect_def Let_def tier_def special_def d1_def split: if_splits prod.splits)
    have "sorted_ok e ?s3 r s'"
    proof (cases "parp_lru_gen_from_flags ?l (nt_flags ?s3) \<noteq> oldest_gen (ff_type ?f) (nt_lru ?s3)")
      case True
      then show ?thesis using res raced_move_ok(1) [OF v3 True] by simp
    next
      case False
      then show ?thesis
        using res protect_ok [OF assms(1,2) v3, of tier special] rest_ok [OF assms(1,2) v3, of r s']
        by (auto split: if_splits)
    qed
    then show ?thesis by (rule sorted_start [OF l3])
  qed
qed

lemma apply_ok:
  assumes "layout_ok (se_layout e)" "others_ok e" "gen_valid (se_layout e) (nt_flags s)"
    and "sort_apply e tier special actual d s = (r, s', d')"
  shows "sorted_ok e s r s'"
  using assms(4) rest_ok [OF assms(1-3)] policy_ok [OF assms(1-3)] protect_ok [OF assms(1-3)]
  by (auto simp: sort_apply_def split: if_splits prod.splits)

lemma decided_ok:
  assumes "layout_ok (se_layout e)" "others_ok e" "gen_valid (se_layout e) (nt_flags s)"
    and "sort_decided e flags tier special d s = (r, s', d')"
  shows "sorted_ok e s r s'"
proof -
  let ?s1 = "snd (sort_revalidate e flags d s)"
  have s1: "nt_lru ?s1 = nt_lru s" "gen_valid (se_layout e) (nt_flags ?s1)"
    using others_look [OF assms(2,3), of 1] by (simp_all add: revalidate_state)
  have app: "sorted_ok e s r s'" if "sort_apply e tier' special' actual d1 ?s1 = (r, s', d')"
    for tier' special' actual d1
    using apply_ok [OF assms(1,2) s1(2) that] by (rule sorted_start [OF s1(1)])
  have raced: "sorted_ok e s r s'" if r: "upgrade_raced e d ?s1 = (r, s', d')"
  proof (cases "parp_lru_gen_from_flags (se_layout e) (nt_flags ?s1) \<noteq>
      oldest_gen (ff_type (se_folio e)) (nt_lru ?s1)")
    case True
    then show ?thesis
      using r sorted_start [OF s1(1) raced_move_ok(1) [OF s1(2) True]]
      by (auto simp: upgrade_raced_def Let_def)
  next
    case False
    then show ?thesis using r app by (simp add: upgrade_raced_def Let_def)
  qed
  show ?thesis
    using assms(4) app raced apply_ok [OF assms(1-3)]
    by (auto simp: sort_decided_def Let_def split: if_splits prod.splits)
qed

lemma sort_folio_accounts:
  fixes e :: tier_env and s :: sort_state
  assumes "layout_ok (se_layout e)" and "others_ok e" and "gen_valid (se_layout e) (nt_flags s)"
    and "ff_evictable (se_folio e)" and "sort_folio e s = (r, s', d)"
  shows "sorted_ok e s r s'"
proof (cases "parp_lru_gen_from_flags (se_layout e) (nt_flags s) =
    oldest_gen (ff_type (se_folio e)) (nt_lru s)")
  case True
  obtain w d0 where dec: "sort_decide e (flags_tier (se_layout e) (nt_flags s))
      (flags_special (se_layout e) (nt_flags s)) (so_tier s) = (w, d0)" by fastforce
  let ?s = "s \<lparr> so_tier := w \<rparr>"
  have "sort_decided e (nt_flags s) (flags_tier (se_layout e) (nt_flags s))
      (flags_special (se_layout e) (nt_flags s)) d0 ?s = (r, s', d)"
    using assms(4,5) True dec by (simp add: sort_folio_def Let_def)
  then have "sorted_ok e ?s r s'"
    using decided_ok [OF assms(1,2), of ?s] assms(3) by simp
  then show ?thesis by (rule sorted_start [rotated]) simp
next
  case False
  then show ?thesis
    using assms(4,5) raced_move_ok(2) [OF assms(3) False] by (auto simp: sort_folio_def Let_def)
qed

text \<open>C11. Whatever the policy decides and whatever other CPUs do to the flags meanwhile, an evictable folio
  is accounted for: no other folio moves, the pages counted per type and zone stay the same; a folio that
  is reported as sorted is in exactly one list, that of the generation in its flags, and has left the
  oldest generation; for a folio left to be isolated the lists are untouched.\<close>

theorem parp_sort_folio_accounts:
  fixes e :: tier_env and s :: sort_state
  assumes "layout_ok (se_layout e)" and "others_ok e" and "gen_valid (se_layout e) (nt_flags s)"
    and "ff_evictable (se_folio e)" and "sort_folio e s = (r, s', d)"
  shows "sorted_ok e s r s'"
  by (rule sort_folio_accounts [OF assms])

text \<open>Witness of C11: the sample folio, with the policy on.\<close>

theorem parp_sort_folio_accounts_witness:
  "\<exists>r s' d. sort_folio (sample_sort_env sample_later) (sample_state sample_world) = (r, s', d) \<and>
     sorted_ok (sample_sort_env sample_later) (sample_state sample_world) r s'"
proof -
  let ?e = "sample_sort_env sample_later" and ?s = "sample_state sample_world"
  obtain r s' d where run: "sort_folio ?e ?s = (r, s', d)" by (metis prod_cases3)
  have "sorted_ok ?e ?s r s'"
    using parp_sort_folio_accounts [OF _ _ _ _ run] sample_hyps
    by (simp add: sample_sort_env_def sample_facts_def sample_state_def others_ok_def gen_valid_def)
  then show ?thesis using run by blast
qed

end
