(* ===== verification/Scan_Folios.thy ===== *)
theory Scan_Folios
  imports Sort_Invariant Frontier_Score Reclaim_Adapter
begin

text \<open>
  A batch of native reclaim with every hook in it: \<open>scan_folios\<close> and \<open>isolate_folio\<close> of \<open>mm/vmscan.c\<close>. It walks
  the oldest generation of one type from the tail of each zone's list, asks the evidence adapter, the
  effective tier and the frontier scorer about every folio, and collects the folios to reclaim.

  The native state is a record of its own, with the whole lruvec and the flags of all folios; the state of
  the hooks extends it. The two loops take one turn as an argument, so the patched function and the
  unpatched one share them. Turns are numbered downwards by \<open>remaining\<close>; the environment of a turn is what
  the hooks read from outside and what other CPUs do during it. The callers scan at least one page, so
  \<open>remaining\<close> starts above zero. The event counters of the kernel are not modelled.
\<close>

section \<open>State and environment\<close>

abbreviation MIN_NR_GENS :: u64 where "MIN_NR_GENS \<equiv> 2"
abbreviation MAX_LRU_BATCH :: u64 where "MAX_LRU_BATCH \<equiv> 4096"

record native_batch =
  nb_lru :: lru_gen_folio
  nb_flags :: "nat \<Rightarrow> u64"
  nb_file_taken :: u32
  nb_unqueued_dirty :: u32
  nb_culled :: u64
  nb_list :: "nat list"
  nb_moved :: "nat list"
  nb_scanned :: int
  nb_sorted :: int
  nb_isolated :: int
  nb_skipped :: int
  nb_skipped_zone :: int

text \<open>\<open>ba_meta\<close> and \<open>ba_ext\<close> are the two page extensions of every folio.\<close>

record batch_state = native_batch +
  ba_tier :: parp_tier_world
  ba_meta :: "nat \<Rightarrow> page"
  ba_frontier :: parp_frontier_world
  ba_frontier_ctx :: parp_frontier_scan_ctx
  ba_ext :: "nat \<Rightarrow> parp_folio_ext option"
  ba_reclaim :: parp_reclaim_world
  ba_reclaim_ctx :: parp_reclaim_ctx
  ba_run_epoch :: u8

text \<open>
  One turn: the environment of \<open>sort_folio\<close>, what the adapter and the frontier scorer read, what others do to
  the flags before \<open>isolate_folio\<close> and inside \<open>lru_gen_del_folio\<close>, whether the folio is anonymous and not in
  the swap cache, whether \<open>folio_try_get\<close> and \<open>folio_test_clear_lru\<close> succeed, the interference of \<open>finish\<close>.
\<close>

record turn_env =
  tu_sort :: tier_env
  tu_page :: reclaim_folio
  tu_now :: u64
  tu_lookup_now :: u64
  tu_candidate :: frontier_candidate
  tu_isolate_look :: "u64 \<Rightarrow> u64"
  tu_isolate_del :: "u64 \<Rightarrow> u64"
  tu_anon_unswapped :: bool
  tu_get :: bool
  tu_clear_lru :: bool
  tu_cancel :: interference
  tu_pending :: interference
  tu_trace :: bool

record batch_env =
  be_layout :: flag_layout
  be_facts :: "nat \<Rightarrow> folio_facts"
  be_type :: bool
  be_tier_idx :: int
  be_reclaim_idx :: nat
  be_gfp_io :: bool
  be_turn :: "nat \<Rightarrow> turn_env"
  be_engine :: "parp_snapshot option \<Rightarrow> parp_page_sample \<Rightarrow> parp_decision"
  be_account :: "parp_decision \<Rightarrow> parp_stats \<Rightarrow> parp_stats"
  be_domain_id :: u64
  be_frontier :: frontier_request
  be_prepare :: parp_prepare_request
  be_trace :: bool

definition pages_int :: "batch_env \<Rightarrow> nat \<Rightarrow> int" where
  "pages_int e f = uint (ff_pages (be_facts e f))"

definition turn_sort :: "batch_env \<Rightarrow> nat \<Rightarrow> nat \<Rightarrow> tier_env" where
  "turn_sort e k f = (tu_sort (be_turn e k)) \<lparr> se_layout := be_layout e, se_folio := be_facts e f,
     se_tier_idx := be_tier_idx e, se_reclaim_idx := be_reclaim_idx e \<rparr>"

section \<open>The native loop\<close>

definition get_nr_gens :: "lru_gen_folio \<Rightarrow> bool \<Rightarrow> u64" where
  "get_nr_gens lr lru_type = lg_max_seq lr - lg_min_seq lr lru_type + 1"

definition isolate_folio ::
  "batch_env \<Rightarrow> nat \<Rightarrow> nat \<Rightarrow> 's native_batch_scheme \<Rightarrow> bool \<times> 's native_batch_scheme" where
  "isolate_folio e k f s0 =
     (let l = be_layout e; t = be_turn e k; flags = tu_isolate_look t (nb_flags s0 f);
          s = s0 \<lparr> nb_flags := (nb_flags s0) (f := flags) \<rparr>
      in if \<not> be_gfp_io e \<and> (flags AND flag_bit (fl_dirty l) \<noteq> 0 \<or> tu_anon_unswapped t) then (False, s)
         else if \<not> tu_get t \<or> \<not> tu_clear_lru t then (False, s)
         else
           let flags1 = (if flags AND flag_bit (fl_referenced l) = 0
                         then flags AND NOT (LRU_REFS_MASK l) else flags);
               (success, flags2, lr) = lru_gen_del_folio l (tu_isolate_del t) (be_facts e f)
                 (flags1 AND NOT (flag_bit (fl_reclaim l)), nb_lru s)
           in (True, s \<lparr> nb_flags := (nb_flags s) (f := flags2), nb_lru := lr \<rparr>))"

definition take_folio ::
  "batch_env \<Rightarrow> nat \<Rightarrow> bool \<Rightarrow> 's native_batch_scheme \<Rightarrow> 's native_batch_scheme" where
  "take_folio e f isolated s =
     (if isolated
      then s \<lparr> nb_list := f # nb_list s, nb_isolated := nb_isolated s + pages_int e f \<rparr>
      else s \<lparr> nb_lru := list_del f (nb_lru s), nb_moved := f # nb_moved s,
               nb_skipped_zone := nb_skipped_zone s + pages_int e f \<rparr>)"

text \<open>The folio at hand, as \<open>sort_folio\<close> sees it.\<close>

definition native_view :: "nat \<Rightarrow> 's native_batch_scheme \<Rightarrow> native_state" where
  "native_view f s = \<lparr> nt_lru = nb_lru s, nt_flags = nb_flags s f, nt_file_taken = nb_file_taken s,
     nt_unqueued_dirty = nb_unqueued_dirty s, nt_culled = nb_culled s \<rparr>"

definition native_leave ::
  "nat \<Rightarrow> 't native_state_scheme \<Rightarrow> 's native_batch_scheme \<Rightarrow> 's native_batch_scheme" where
  "native_leave f so s = s \<lparr> nb_lru := nt_lru so, nb_flags := (nb_flags s) (f := nt_flags so),
     nb_file_taken := nt_file_taken so, nb_unqueued_dirty := nt_unqueued_dirty so,
     nb_culled := nt_culled so \<rparr>"

definition native_turn :: "batch_env \<Rightarrow> nat \<Rightarrow> nat \<Rightarrow> native_batch \<Rightarrow> native_batch" where
  "native_turn e k f s0 =
     (let s1 = s0 \<lparr> nb_scanned := nb_scanned s0 + pages_int e f \<rparr>;
          (r, so) = native_sort_folio (turn_sort e k f) (native_view f s1);
          s2 = native_leave f so s1
      in if r then s2 \<lparr> nb_sorted := nb_sorted s2 + pages_int e f \<rparr>
         else let (isolated, s3) = isolate_folio e k f s2 in take_folio e f isolated s3)"

fun scan_zone ::
  "(nat \<Rightarrow> nat \<Rightarrow> 's native_batch_scheme \<Rightarrow> 's native_batch_scheme) \<Rightarrow> int \<Rightarrow> bool \<Rightarrow> nat \<Rightarrow> nat \<Rightarrow>
   's native_batch_scheme \<Rightarrow> nat \<times> 's native_batch_scheme" where
  "scan_zone turn gen lru_type zone 0 s = (0, s)"
| "scan_zone turn gen lru_type zone (Suc n) s =
     (let head = lg_folios (nb_lru s) gen lru_type zone
      in if head = [] then (Suc n, s)
         else let s1 = turn (Suc n) (last head) s
              in if n = 0 \<or> max (nb_isolated s1) (nb_skipped_zone s1) \<ge> uint MIN_LRU_BATCH then (n, s1)
                 else scan_zone turn gen lru_type zone n s1)"

definition splice_moved ::
  "int \<Rightarrow> bool \<Rightarrow> nat \<Rightarrow> 's native_batch_scheme \<Rightarrow> 's native_batch_scheme" where
  "splice_moved gen lru_type zone s =
     (if nb_skipped_zone s = 0 then s
      else s \<lparr> nb_lru := (nb_lru s) \<lparr> lg_folios := (\<lambda>g t z.
             if g = gen \<and> t = lru_type \<and> z = zone then nb_moved s @ lg_folios (nb_lru s) g t z
             else lg_folios (nb_lru s) g t z) \<rparr>,
           nb_moved := [], nb_skipped := nb_skipped s + nb_skipped_zone s \<rparr>)"

fun scan_zones ::
  "(nat \<Rightarrow> nat \<Rightarrow> 's native_batch_scheme \<Rightarrow> 's native_batch_scheme) \<Rightarrow> int \<Rightarrow> bool \<Rightarrow> nat list \<Rightarrow> nat \<Rightarrow>
   's native_batch_scheme \<Rightarrow> nat \<times> 's native_batch_scheme" where
  "scan_zones turn gen lru_type [] n s = (n, s)"
| "scan_zones turn gen lru_type (zone # zones) n s =
     (let (n1, s1) = scan_zone turn gen lru_type zone n (s \<lparr> nb_moved := [], nb_skipped_zone := 0 \<rparr>);
          s2 = splice_moved gen lru_type zone s1
      in if n1 = 0 \<or> nb_isolated s2 \<ge> uint MIN_LRU_BATCH then (n1, s2)
         else scan_zones turn gen lru_type zones n1 s2)"

definition zone_order :: "batch_env \<Rightarrow> nat list" where
  "zone_order e = map (\<lambda>i. (be_reclaim_idx e + i) mod MAX_NR_ZONES) [5, 4, 3, 2, 1]"

definition scan_start :: "'s native_batch_scheme \<Rightarrow> 's native_batch_scheme" where
  "scan_start s = s \<lparr> nb_scanned := 0, nb_sorted := 0, nb_isolated := 0, nb_skipped := 0 \<rparr>"

definition scan_loop ::
  "(nat \<Rightarrow> nat \<Rightarrow> 's native_batch_scheme \<Rightarrow> 's native_batch_scheme) \<Rightarrow> batch_env \<Rightarrow> u64 \<Rightarrow>
   's native_batch_scheme \<Rightarrow> nat \<times> 's native_batch_scheme" where
  "scan_loop turn e nr_to_scan s =
     (let (n, s1) = scan_zones turn (oldest_gen (be_type e) (nb_lru s)) (be_type e) (zone_order e)
            (unat (min nr_to_scan MAX_LRU_BATCH)) (scan_start s)
      in (n, if be_type e
             then s1 \<lparr> nb_file_taken := nb_file_taken s1 + word_of_int (nb_isolated s1) \<rparr> else s1))"

definition scan_result :: "nat \<Rightarrow> 's native_batch_scheme \<Rightarrow> int" where
  "scan_result n s = (if nb_isolated s \<noteq> 0 \<or> n = 0 then nb_scanned s else 0)"

text \<open>\<open>scan_folios\<close> before the patch.\<close>

definition native_scan_folios :: "batch_env \<Rightarrow> u64 \<Rightarrow> native_batch \<Rightarrow> int \<times> native_batch" where
  "native_scan_folios e nr_to_scan s =
     (if get_nr_gens (nb_lru s) (be_type e) = MIN_NR_GENS then (0, s)
      else let (n, s1) = scan_loop (native_turn e) e nr_to_scan s in (scan_result n s1, s1))"

section \<open>The hooks in it\<close>

definition tier_enter :: "nat \<Rightarrow> batch_state \<Rightarrow> sort_state" where
  "tier_enter f s = \<lparr> nt_lru = nb_lru s, nt_flags = nb_flags s f, nt_file_taken = nb_file_taken s,
     nt_unqueued_dirty = nb_unqueued_dirty s, nt_culled = nb_culled s,
     so_tier = (ba_tier s) \<lparr> w_page := ba_meta s f \<rparr> \<rparr>"

definition set_world :: "nat \<Rightarrow> parp_tier_world \<Rightarrow> batch_state \<Rightarrow> batch_state" where
  "set_world f w s = s \<lparr> ba_tier := w, ba_meta := (ba_meta s) (f := w_page w) \<rparr>"

text \<open>The inline wrapper of \<open>finish\<close>.\<close>

definition tier_finish ::
  "turn_env \<Rightarrow> nat \<Rightarrow> parp_tier_decision \<Rightarrow> bool \<Rightarrow> bool \<Rightarrow> batch_state \<Rightarrow> batch_state" where
  "tier_finish t f d sort_result isolated s =
     (if d_evaluated d
      then set_world f (fst (parp_effective_tier_finish (tu_cancel t) (tu_pending t) (tu_trace t)
             sort_result isolated ((ba_tier s) \<lparr> w_page := ba_meta s f \<rparr>, d))) s
      else s)"

definition tier_ctx_update ::
  "(parp_tier_scan_ctx \<Rightarrow> parp_tier_scan_ctx) \<Rightarrow> batch_state \<Rightarrow> batch_state" where
  "tier_ctx_update h s = s \<lparr> ba_tier := (ba_tier s) \<lparr> w_ctx := h (w_ctx (ba_tier s)) \<rparr> \<rparr>"

text \<open>The frontier scorer looks at the lruvec as native code has it.\<close>

definition frontier_view :: "lru_gen_folio \<Rightarrow> parp_frontier_world \<Rightarrow> parp_frontier_world" where
  "frontier_view lr w = w \<lparr> fw_lru := (fw_lru w) \<lparr> fl_max_seq := lg_max_seq lr,
     fl_min_seq := lg_min_seq lr, fl_nr_pages := (\<lambda>g t z. lg_nr_pages lr (uint g) t z) \<rparr> \<rparr>"

definition adapter_turn :: "batch_env \<Rightarrow> nat \<Rightarrow> int \<Rightarrow> batch_state \<Rightarrow> batch_state" where
  "adapter_turn e k gen s =
     (let t = be_turn e k;
          (decision, w) = parp_adapter_score_folio (be_engine e) (be_account e) (tu_now t) (tu_lookup_now t)
            (ba_reclaim_ctx s) (tu_page t) (be_type e) (word_of_int gen) (ba_reclaim s);
          applied = parp_adapter_apply_decision decision
      in s \<lparr> ba_reclaim := w \<rparr>)"

definition frontier_turn :: "batch_env \<Rightarrow> nat \<Rightarrow> nat \<Rightarrow> batch_state \<Rightarrow> batch_state" where
  "frontier_turn e k f s =
     (let (ext, ctx, w) = parp_frontier_consider (tu_candidate (be_turn e k)) (ba_ext s f)
            (ba_frontier_ctx s) (frontier_view (nb_lru s) (ba_frontier s))
      in s \<lparr> ba_ext := (ba_ext s) (f := ext), ba_frontier_ctx := ctx, ba_frontier := w \<rparr>)"

definition scan_turn :: "batch_env \<Rightarrow> int \<Rightarrow> nat \<Rightarrow> nat \<Rightarrow> batch_state \<Rightarrow> batch_state" where
  "scan_turn e gen k f s0 =
     (let t = be_turn e k; pages = ff_pages (be_facts e f);
          s1 = adapter_turn e k gen
            (tier_ctx_update (\<lambda>c. c \<lparr> s_batch_scanned_pages := s_batch_scanned_pages c + pages \<rparr>)
              (s0 \<lparr> nb_scanned := nb_scanned s0 + pages_int e f \<rparr>));
          (r, so, d) = sort_folio (turn_sort e k f) (tier_enter f s1);
          s2 = set_world f (so_tier so) (native_leave f so s1)
      in if r
         then tier_finish t f d True False (s2 \<lparr> nb_sorted := nb_sorted s2 + pages_int e f \<rparr>)
         else
           let (isolated, s3) = isolate_folio e k f (frontier_turn e k f s2);
               s4 = take_folio e f isolated (tier_finish t f d False isolated s3)
           in if isolated
              then tier_ctx_update
                (\<lambda>c. c \<lparr> s_batch_isolated_pages := s_batch_isolated_pages c + pages \<rparr>) s4
              else s4)"

text \<open>The inline wrapper of \<open>prepare\<close>, and what \<open>scan_folios\<close> adds.\<close>

definition tier_open :: "batch_env \<Rightarrow> batch_state \<Rightarrow> batch_state" where
  "tier_open e s =
     (let w = ba_tier s; r = (be_prepare e) \<lparr> r_min_seq := lg_min_seq (nb_lru s) (be_type e) \<rparr>;
          w1 = (if k_enabled (w_globals w) then parp_effective_tier_prepare (be_type e) r w
                else w \<lparr> w_ctx := (w_ctx w) \<lparr> s_enabled := False \<rparr> \<rparr>);
          s1 = s \<lparr> ba_tier := w1 \<rparr>
      in if s_enabled (w_ctx w1)
         then (tier_ctx_update (\<lambda>c. c \<lparr> s_reclaim_context :=
                 sort_reclaim_context (r_is_kswapd r) (r_proactive r) (r_is_memcg r) \<rparr>) s1)
              \<lparr> ba_run_epoch := s_run_epoch (w_ctx w1) \<rparr>
         else s1)"

definition scan_open :: "batch_env \<Rightarrow> batch_state \<Rightarrow> batch_state" where
  "scan_open e s =
     (let (ctx, w) = parp_adapter_prepare (be_domain_id e) (ba_reclaim s);
          (fctx, fw) = parp_frontier_prepare ((be_frontier e) \<lparr> fr_type := be_type e \<rparr>)
            (ba_frontier_ctx s) (frontier_view (nb_lru s) (ba_frontier s))
      in tier_open e (s \<lparr> ba_reclaim_ctx := ctx, ba_reclaim := w, ba_frontier_ctx := fctx, ba_frontier := fw \<rparr>))"

definition scan_close :: "batch_env \<Rightarrow> batch_state \<Rightarrow> batch_state" where
  "scan_close e s =
     (let s1 = (if s_enabled (w_ctx (ba_tier s))
                then s \<lparr> ba_tier := parp_effective_tier_batch_finish (be_trace e) (ba_tier s) \<rparr> else s);
          (ctx, w) = parp_adapter_finish (ba_reclaim_ctx s1, ba_reclaim s1)
      in s1 \<lparr> ba_reclaim_ctx := ctx, ba_reclaim := w \<rparr>)"

definition scan_folios :: "batch_env \<Rightarrow> u64 \<Rightarrow> batch_state \<Rightarrow> int \<times> batch_state" where
  "scan_folios e nr_to_scan s =
     (if get_nr_gens (nb_lru s) (be_type e) = MIN_NR_GENS then (0, s)
      else let gen = oldest_gen (be_type e) (nb_lru s);
               (n, s1) = scan_loop (scan_turn e gen) e nr_to_scan (scan_open e s)
           in (scan_result n s1, scan_close e s1))"

end
