(* ===== verification/Scan_Hooks.thy ===== *)
theory Scan_Hooks
  imports Scan_Folios
begin

text \<open>
  What the loops of \<open>scan_folios\<close> preserve. The contract \<open>hook_invariant\<close> lists the steps that the hooks of one
  turn make on the world of the effective tier; whatever survives them survives the whole batch. It is
  interpreted on the ledgers of the gate and on the worlds that only observe. The second half relates the
  patched batch to the unpatched one.
\<close>

section \<open>Invariants of the loops\<close>

lemma scan_zone_inv:
  assumes "\<And>k s. P s \<Longrightarrow> lg_folios (nb_lru s) gen lru_type zone \<noteq> [] \<Longrightarrow>
      P (turn k (last (lg_folios (nb_lru s) gen lru_type zone)) s)"
  shows "P s \<Longrightarrow> P (snd (scan_zone turn gen lru_type zone n s))"
  by (induction n arbitrary: s) (auto simp: Let_def assms)

lemma scan_zones_inv:
  assumes turn: "\<And>k s zone. P s \<Longrightarrow> lg_folios (nb_lru s) gen lru_type zone \<noteq> [] \<Longrightarrow>
      P (turn k (last (lg_folios (nb_lru s) gen lru_type zone)) s)"
    and start: "\<And>s. P s \<Longrightarrow> P (s \<lparr> nb_moved := [], nb_skipped_zone := 0 \<rparr>)"
    and splice: "\<And>s zone. P s \<Longrightarrow> P (splice_moved gen lru_type zone s)"
  shows "P s \<Longrightarrow> P (snd (scan_zones turn gen lru_type zones n s))"
proof (induction zones arbitrary: n s)
  case (Cons zone zones)
  let ?z = "scan_zone turn gen lru_type zone n (s \<lparr> nb_moved := [], nb_skipped_zone := 0 \<rparr>)"
  have "P (snd ?z)"
    by (rule scan_zone_inv [of P gen lru_type zone turn]) (simp_all add: turn start Cons.prems)
  then have "P (splice_moved gen lru_type zone (snd ?z))" by (rule splice)
  then show ?case using Cons.IH by (cases ?z) (auto simp: Let_def)
qed simp

text \<open>Two loops whose turns correspond.\<close>

lemma scan_zone_sim:
  assumes "\<And>k f s. Q s \<Longrightarrow> proj (turn k f s) = turn' k f (proj s)" and "\<And>k f s. Q s \<Longrightarrow> Q (turn k f s)"
    and "\<And>s. nb_lru (proj s) = nb_lru s" "\<And>s. nb_isolated (proj s) = nb_isolated s"
    "\<And>s. nb_skipped_zone (proj s) = nb_skipped_zone s"
  shows "Q s \<Longrightarrow> scan_zone turn' gen lru_type zone n (proj s) =
    map_prod id proj (scan_zone turn gen lru_type zone n s)"
proof (induction n arbitrary: s)
  case (Suc n)
  then show ?case using assms by (simp add: Let_def assms(1) [symmetric])
qed simp

section \<open>The contract of the hooks\<close>

lemma tier_enter_world: "so_tier (tier_enter f s) = (ba_tier s) \<lparr> w_page := ba_meta s f \<rparr>"
  by (simp add: tier_enter_def)

locale hook_invariant =
  fixes allowed :: "tier_env \<Rightarrow> bool" and P :: "parp_tier_world \<Rightarrow> bool"
  assumes move: "P w \<Longrightarrow>
      parp_effective_tier_note_move env trace_on now_ms event gen (w_globals w, w_page w) = (g, p) \<Longrightarrow>
      P (w \<lparr> w_globals := g, w_page := p \<rparr>)"
    and control: "allowed e \<Longrightarrow> P w \<Longrightarrow>
      P (w \<lparr> w_globals := te_control e (w_globals w), w_page := te_page e (w_page w) \<rparr>)"
    and decide: "P w \<Longrightarrow> P (fst (parp_effective_tier_decide f nt idx sp w))"
    and finish: "P w \<Longrightarrow> P (fst (parp_effective_tier_finish env1 env2 trace_on sort_result isolated (w, d)))"
    and page: "P w \<Longrightarrow> P (w \<lparr> w_page := p \<rparr>)"
    and scanned: "P w \<Longrightarrow> P (w \<lparr> w_ctx := (w_ctx w) \<lparr> s_batch_scanned_pages := n \<rparr> \<rparr>)"
    and isolated: "P w \<Longrightarrow> P (w \<lparr> w_ctx := (w_ctx w) \<lparr> s_batch_isolated_pages := n \<rparr> \<rparr>)"
begin

lemma note_keeps: "P (so_tier s) \<Longrightarrow> P (so_tier (note_move e event gen s))"
  by (auto simp: note_move_def Let_def intro: move split: prod.splits)

lemma steps_keep:
  "so_tier (look e k s) = so_tier s" "so_tier (move_front e gen s) = so_tier s"
  "so_tier (move_tail e gen s) = so_tier s" "so_tier (count_protected e tier s) = so_tier s"
  "so_tier (make_unevictable e s) = so_tier s"
  by (simp_all add: look_def move_front_def move_tail_def count_protected_def make_unevictable_def Let_def
      split: prod.splits)

lemma inc_gen_keeps:
  "P (so_tier s) \<Longrightarrow> inc_gen e (note_move e) event reclaiming k s = (gen, s') \<Longrightarrow> P (so_tier s')"
  by (auto simp: inc_gen_def look_def Let_def intro!: note_keeps split: prod.splits if_splits)

lemma rest_keeps:
  "P (so_tier s) \<Longrightarrow> sort_rest e (note_move e) s = (r, s') \<Longrightarrow> P (so_tier s')"
  by (auto simp: sort_rest_def Let_def steps_keep dest: inc_gen_keeps [rotated] split: prod.splits if_splits)

lemma protect_keeps: "P (so_tier s) \<Longrightarrow> P (so_tier (native_protect e (note_move e) tier special s))"
  by (auto simp: native_protect_def Let_def steps_keep dest: inc_gen_keeps [rotated] split: prod.splits)

lemma policy_keeps:
  "P (so_tier s) \<Longrightarrow> policy_protect e d s = (r, s', d') \<Longrightarrow> P (so_tier s')"
  by (auto simp: policy_protect_def Let_def steps_keep intro!: note_keeps protect_keeps dest!: rest_keeps [rotated]
      split: prod.splits if_splits option.splits)

lemma apply_keeps:
  "P (so_tier s) \<Longrightarrow> sort_apply e tier special actual d s = (r, s', d') \<Longrightarrow> P (so_tier s')"
  by (auto simp: sort_apply_def intro: protect_keeps policy_keeps rest_keeps split: prod.splits if_splits)

lemma raced_keeps:
  "P (so_tier s) \<Longrightarrow> upgrade_raced e d s = (r, s', d') \<Longrightarrow> P (so_tier s')"
  by (auto simp: upgrade_raced_def Let_def steps_keep intro: note_keeps dest!: apply_keeps [rotated]
      split: if_splits)

lemma decided_keeps:
  assumes "allowed e" and "P (so_tier s)" and "sort_decided e flags tier special d s = (r, s', d')"
  shows "P (so_tier s')"
proof -
  have "P (so_tier (snd (sort_revalidate e flags d s)))"
    using control [OF assms(1,2)] by (simp add: revalidate_state)
  then show ?thesis
    using assms(2,3) by (auto simp: sort_decided_def Let_def intro: apply_keeps raced_keeps
        split: prod.splits if_splits)
qed

lemma sort_keeps:
  assumes "allowed e" and "P (so_tier s)" and "sort_folio e s = (r, s', d)"
  shows "P (so_tier s')"
proof -
  let ?l = "se_layout e"
  obtain w d0 where dec: "sort_decide e (flags_tier ?l (nt_flags s)) (flags_special ?l (nt_flags s))
      (so_tier s) = (w, d0)" by fastforce
  have "w = (if s_enabled (w_ctx (so_tier s))
      then fst (parp_effective_tier_decide (te_view e) (flags_tier ?l (nt_flags s)) (se_tier_idx e)
             (flags_special ?l (nt_flags s)) (so_tier s)) else so_tier s)"
    using dec by (auto simp: sort_decide_def split: if_splits)
  then have w: "P w" using decide [OF assms(2)] assms(2) by simp
  have "P (so_tier s')" if "sort_decided e (nt_flags s) (flags_tier ?l (nt_flags s))
      (flags_special ?l (nt_flags s)) d0 (s \<lparr> so_tier := w \<rparr>) = (r, s', d)"
    by (rule decided_keeps [OF assms(1) _ that]) (simp add: w)
  then show ?thesis
    using assms(2,3) by (auto simp: sort_folio_def Let_def steps_keep dec split: if_splits)
qed

lemma turn_world:
  assumes "allowed (turn_sort e k f)" and "P (ba_tier s)"
  shows "P (ba_tier (scan_turn e gen k f s))"
proof -
  define s1 where "s1 = adapter_turn e k gen (tier_ctx_update
    (\<lambda>c. c \<lparr> s_batch_scanned_pages := s_batch_scanned_pages c + ff_pages (be_facts e f) \<rparr>)
    (s \<lparr> nb_scanned := nb_scanned s + pages_int e f \<rparr>))"
  have s1: "P (ba_tier s1)"
    using scanned [OF assms(2)] by (simp add: s1_def adapter_turn_def tier_ctx_update_def Let_def split_beta)
  obtain r so d where sort: "sort_folio (turn_sort e k f) (tier_enter f s1) = (r, so, d)"
    by (metis prod_cases3)
  have so: "P (so_tier so)"
    by (rule sort_keeps [OF assms(1) _ sort], unfold tier_enter_world) (rule page [OF s1])
  have fin: "P (ba_tier (tier_finish t f d x y s'))" if "P (ba_tier s')" for t x y s'
    using finish [OF page [OF that]] that by (simp add: tier_finish_def set_world_def)
  have iso: "ba_tier (snd (isolate_folio e k f s')) = ba_tier s'" for s' :: batch_state
    by (simp add: isolate_folio_def Let_def split_beta)
  have take: "ba_tier (take_folio e f x s') = ba_tier s'" for x and s' :: batch_state
    by (simp add: take_folio_def)
  have front: "ba_tier (frontier_turn e k f s') = ba_tier s'" for s'
    by (simp add: frontier_turn_def split_beta)
  have upd: "P (ba_tier (tier_ctx_update (\<lambda>c. c \<lparr> s_batch_isolated_pages := s_batch_isolated_pages c + n \<rparr>) s'))"
    if "P (ba_tier s')" for n s'
    using isolated [OF that] by (simp add: tier_ctx_update_def)
  let ?s2 = "set_world f (so_tier so) (native_leave f so s1)"
  have s2: "P (ba_tier ?s2)" using so by (simp add: set_world_def)
  obtain isolated s3 where s3: "isolate_folio e k f (frontier_turn e k f ?s2) = (isolated, s3)" by fastforce
  have "ba_tier s3 = ba_tier ?s2" using iso [of "frontier_turn e k f ?s2"] by (simp add: s3 front)
  then have t3: "P (ba_tier s3)" using s2 by simp
  let ?s4 = "take_folio e f isolated (tier_finish (be_turn e k) f d False isolated s3)"
  have s4: "P (ba_tier ?s4)" using fin [OF t3] by (simp add: take)
  have "scan_turn e gen k f s =
      (if r then tier_finish (be_turn e k) f d True False (?s2 \<lparr> nb_sorted := nb_sorted ?s2 + pages_int e f \<rparr>)
       else if isolated then tier_ctx_update (\<lambda>c. c \<lparr> s_batch_isolated_pages :=
         s_batch_isolated_pages c + ff_pages (be_facts e f) \<rparr>) ?s4 else ?s4)"
    unfolding scan_turn_def Let_def s1_def [symmetric] sort prod.case s3 ..
  moreover have "P (ba_tier (?s2 \<lparr> nb_sorted := n \<rparr>))" for n using s2 by simp
  ultimately show ?thesis using fin upd [OF s4] s4 by (cases r; cases isolated) simp_all
qed

lemma scan_loop_world:
  assumes "\<And>k f. allowed (turn_sort e k f)" and "P (ba_tier s)"
  shows "P (ba_tier (snd (scan_loop (scan_turn e gen) e nr_to_scan s)))"
proof -
  let ?r = "scan_zones (scan_turn e gen) (oldest_gen (be_type e) (nb_lru s)) (be_type e) (zone_order e)
    (unat (min nr_to_scan MAX_LRU_BATCH)) (scan_start s)"
  have "P (ba_tier (snd ?r))"
    by (rule scan_zones_inv [where P = "\<lambda>s. P (ba_tier s)"])
      (simp_all add: turn_world [OF assms(1)] splice_moved_def scan_start_def assms(2))
  then show ?thesis by (cases "be_type e") (simp_all add: scan_loop_def split_beta Let_def)
qed

end

section \<open>Its interpretations\<close>

lemma note_move_globals:
  assumes "parp_effective_tier_note_move env trace_on now_ms event gen (g0, p0) = (g, p)"
  shows "g_config g = g_config g0 \<and> g_mode g = g_mode g0 \<and> g_state_epoch g = g_state_epoch g0 \<and>
    k_enabled g = k_enabled g0"
  using assms by (auto simp: parp_effective_tier_note_move_def parp_count_move_def parp_count_access_def
      parp_emit_access_def parp_set_state_fault_def parp_count_unstable_def Let_def
      split: if_splits option.splits prod.splits)

text \<open>What may happen to the globals while a batch is open: a fault, or a switch to OFF.\<close>

definition batch_control :: "bool \<Rightarrow> tier_env \<Rightarrow> bool" where
  "batch_control apply_built e \<longleftrightarrow> te_control e \<in> {\<lambda>g. g, parp_set_state_fault,
     \<lambda>g. snd (parp_effective_tier_set_mode apply_built PARP_EFFECTIVE_TIER_OFF g)}"

lemma gate_ok_page: "gate_ok b w \<Longrightarrow> gate_ok b (w \<lparr> w_page := p \<rparr>)"
  by (simp add: gate_ok_def Let_def)

lemma gate_ok_counters:
  assumes "gate_ok b w"
  shows "gate_ok b (w \<lparr> w_ctx := (w_ctx w) \<lparr> s_batch_scanned_pages := n \<rparr> \<rparr>)"
    "gate_ok b (w \<lparr> w_ctx := (w_ctx w) \<lparr> s_batch_isolated_pages := n \<rparr> \<rparr>)"
  by (rule gate_frame_ok [OF _ assms], simp add: gate_frame_def ctx_used_def)+

interpretation gate: hook_invariant "batch_control apply_built" "gate_ok apply_built"
proof
  fix w :: parp_tier_world and g p env trace_on now_ms event gen
  assume "gate_ok apply_built w"
    and "parp_effective_tier_note_move env trace_on now_ms event gen (w_globals w, w_page w) = (g, p)"
  then show "gate_ok apply_built (w \<lparr> w_globals := g, w_page := p \<rparr>)"
    using note_move_globals by (intro gate_frame_ok [OF frame_globals]) metis+
next
  fix e :: tier_env and w :: parp_tier_world
  assume "batch_control apply_built e" and w: "gate_ok apply_built w"
  then consider "te_control e = (\<lambda>g. g)" | "te_control e = parp_set_state_fault" |
    "te_control e = (\<lambda>g. snd (parp_effective_tier_set_mode apply_built PARP_EFFECTIVE_TIER_OFF g))"
    by (auto simp: batch_control_def)
  then have "gate_ok apply_built (w \<lparr> w_globals := te_control e (w_globals w) \<rparr>)"
    using w gate_switch_off_ok [OF w] gate_step_ok [OF parp_gate_step.fault w] by cases simp_all
  from gate_ok_page [OF this]
  show "gate_ok apply_built (w \<lparr> w_globals := te_control e (w_globals w), w_page := te_page e (w_page w) \<rparr>)"
    by simp
next
  fix w :: parp_tier_world and f nt idx sp
  assume "gate_ok apply_built w"
  then show "gate_ok apply_built (fst (parp_effective_tier_decide f nt idx sp w))"
    using frame_decide gate_frame_ok by (metis prod.collapse)
next
  fix w :: parp_tier_world and env1 env2 trace_on sort_result isolated d
  assume "gate_ok apply_built w"
  then show "gate_ok apply_built
      (fst (parp_effective_tier_finish env1 env2 trace_on sort_result isolated (w, d)))"
    by (rule gate_frame_ok [OF frame_finish])
qed (rule gate_ok_page gate_ok_counters, assumption)+

text \<open>A batch that only observes, if it is enabled at all.\<close>

definition observing :: "parp_tier_world \<Rightarrow> bool" where
  "observing w \<longleftrightarrow>
     (s_enabled (w_ctx w) \<longrightarrow> s_mode (w_ctx w) \<in> {PARP_EFFECTIVE_TIER_OFF, PARP_EFFECTIVE_TIER_SHADOW})"

lemma decide_ctx:
  "s_mode (w_ctx (fst (parp_effective_tier_decide f nt idx sp w))) = s_mode (w_ctx w)"
  "s_enabled (w_ctx (fst (parp_effective_tier_decide f nt idx sp w))) = s_enabled (w_ctx w)"
proof -
  obtain w' d where dec: "parp_effective_tier_decide f nt idx sp w = (w', d)" by fastforce
  obtain wb db where b: "body_ok f nt idx sp (parp_decide_count (v_pages f) w) wb db"
    "w_ctx w' = w_ctx wb" by (rule decide_result [OF dec])
  then show "s_mode (w_ctx (fst (parp_effective_tier_decide f nt idx sp w))) = s_mode (w_ctx w)"
    "s_enabled (w_ctx (fst (parp_effective_tier_decide f nt idx sp w))) = s_enabled (w_ctx w)"
    using body_frame(2,3) [OF b(1)] by (simp_all add: dec count_simps)
qed

lemma finish_ctx:
  "s_mode (w_ctx (fst (parp_effective_tier_finish env1 env2 trace_on r i (w, d)))) = s_mode (w_ctx w)"
  "s_enabled (w_ctx (fst (parp_effective_tier_finish env1 env2 trace_on r i (w, d)))) = s_enabled (w_ctx w)"
  by (auto simp: parp_effective_tier_finish_def parp_effective_tier_cancel_reservation_def
      parp_finish_trace_def Let_def split_beta)

interpretation observed: hook_invariant "\<lambda>_. True" observing
  by unfold_locales (simp_all add: observing_def decide_ctx finish_ctx)

end
