(* ===== verification/Scan_Properties.thy ===== *)
theory Scan_Properties
  imports Scan_Hooks
begin

text \<open>
  What a whole batch of reclaim does with the hooks in it: it is the unpatched batch as long as the policy
  only observes; it stays within the budgets and closes what it opens in every reachable state.
\<close>

section \<open>The native part of a batch\<close>

definition batch_native :: "batch_state \<Rightarrow> native_batch" where
  "batch_native s = \<lparr> nb_lru = nb_lru s, nb_flags = nb_flags s, nb_file_taken = nb_file_taken s,
     nb_unqueued_dirty = nb_unqueued_dirty s, nb_culled = nb_culled s, nb_list = nb_list s,
     nb_moved = nb_moved s, nb_scanned = nb_scanned s, nb_sorted = nb_sorted s,
     nb_isolated = nb_isolated s, nb_skipped = nb_skipped s, nb_skipped_zone = nb_skipped_zone s \<rparr>"

lemma batch_native_sel [simp]:
  "nb_lru (batch_native s) = nb_lru s" "nb_flags (batch_native s) = nb_flags s"
  "nb_isolated (batch_native s) = nb_isolated s" "nb_skipped_zone (batch_native s) = nb_skipped_zone s"
  "nb_scanned (batch_native s) = nb_scanned s" "nb_file_taken (batch_native s) = nb_file_taken s"
  "nb_sorted (batch_native s) = nb_sorted s"
  by (simp_all add: batch_native_def)

text \<open>The hooks touch their own part of the state.\<close>

lemma batch_native_hooks [simp]:
  "batch_native (adapter_turn e k gen s) = batch_native s" "batch_native (tier_ctx_update h s) = batch_native s"
  "batch_native (set_world f w s) = batch_native s" "batch_native (tier_finish t f d x y s) = batch_native s"
  "batch_native (frontier_turn e k f s) = batch_native s" "batch_native (scan_open e s) = batch_native s"
  "batch_native (scan_close e s) = batch_native s"
  by (simp_all add: batch_native_def adapter_turn_def tier_ctx_update_def set_world_def tier_finish_def
      frontier_turn_def scan_open_def tier_open_def scan_close_def Let_def split_beta)

lemma batch_native_steps:
  "batch_native (s \<lparr> nb_scanned := n \<rparr>) = (batch_native s) \<lparr> nb_scanned := n \<rparr>"
  "batch_native (s \<lparr> nb_sorted := n \<rparr>) = (batch_native s) \<lparr> nb_sorted := n \<rparr>"
  "batch_native (s \<lparr> nb_file_taken := m \<rparr>) = (batch_native s) \<lparr> nb_file_taken := m \<rparr>"
  "batch_native (s \<lparr> nb_moved := xs, nb_skipped_zone := n \<rparr>) =
     (batch_native s) \<lparr> nb_moved := xs, nb_skipped_zone := n \<rparr>"
  "batch_native (native_leave f so s) = native_leave f (native_part so) (batch_native s)"
  "batch_native (take_folio e f x s) = take_folio e f x (batch_native s)"
  "batch_native (splice_moved gen t z s) = splice_moved gen t z (batch_native s)"
  "batch_native (scan_start s) = scan_start (batch_native s)"
  "isolate_folio e k f (batch_native s) = map_prod id batch_native (isolate_folio e k f s)"
  "native_part (tier_enter f s) = native_view f (batch_native s)"
  by (simp_all add: batch_native_def native_leave_def take_folio_def splice_moved_def scan_start_def
      isolate_folio_def native_part_def tier_enter_def native_view_def Let_def split_beta cong: if_cong)

lemma leave_sorted:
  "nb_sorted (set_world f w s) = nb_sorted s" "nb_sorted (native_leave f so s') = nb_sorted s'"
  by (simp_all add: set_world_def native_leave_def)

lemma turn_native:
  assumes "layout_ok (be_layout e)" and "0 \<le> be_tier_idx e" "be_tier_idx e \<le> 3" and "observing (ba_tier s)"
  shows "batch_native (scan_turn e gen k f s) = native_turn e k f (batch_native s)"
proof -
  define s1 where "s1 = adapter_turn e k gen (tier_ctx_update
    (\<lambda>c. c \<lparr> s_batch_scanned_pages := s_batch_scanned_pages c + ff_pages (be_facts e f) \<rparr>)
    (s \<lparr> nb_scanned := nb_scanned s + pages_int e f \<rparr>))"
  have n1: "batch_native s1 = (batch_native s) \<lparr> nb_scanned := nb_scanned s + pages_int e f \<rparr>"
    by (simp add: s1_def batch_native_steps)
  have ctx: "s_enabled (w_ctx (ba_tier s1)) = s_enabled (w_ctx (ba_tier s))"
    "s_mode (w_ctx (ba_tier s1)) = s_mode (w_ctx (ba_tier s))"
    by (simp_all add: s1_def adapter_turn_def tier_ctx_update_def Let_def split_beta)
  obtain r so d where sort: "sort_folio (turn_sort e k f) (tier_enter f s1) = (r, so, d)" by (metis prod_cases3)
  have "native_result (sort_folio (turn_sort e k f) (tier_enter f s1)) =
      native_sort_folio (turn_sort e k f) (native_part (tier_enter f s1))"
  proof (rule sort_folio_native)
    let ?w = "so_tier (tier_enter f s1)"
    show "\<not> (s_enabled (w_ctx ?w) \<and> parp_effective_tier_action_applies (s_mode (w_ctx ?w)) act)" for act
      using assms(4) by (auto simp: tier_enter_world ctx observing_def parp_effective_tier_action_applies_def)
  qed (use assms in \<open>simp_all add: turn_sort_def\<close>)
  then have nat: "native_sort_folio (turn_sort e k f) (native_view f (batch_native s1)) = (r, native_part so)"
    by (simp add: sort native_result_def batch_native_steps)
  have "scan_turn e gen k f s =
      (let s2 = set_world f (so_tier so) (native_leave f so s1)
       in if r then tier_finish (be_turn e k) f d True False (s2 \<lparr> nb_sorted := nb_sorted s2 + pages_int e f \<rparr>)
          else let (isolated, s3) = isolate_folio e k f (frontier_turn e k f s2);
                   s4 = take_folio e f isolated (tier_finish (be_turn e k) f d False isolated s3)
               in if isolated then tier_ctx_update (\<lambda>c. c \<lparr> s_batch_isolated_pages :=
                    s_batch_isolated_pages c + ff_pages (be_facts e f) \<rparr>) s4 else s4)"
    unfolding scan_turn_def Let_def s1_def [symmetric] sort prod.case ..
  moreover have "isolate_folio e k f (native_leave f (native_part so) (batch_native s1)) =
      map_prod id batch_native (isolate_folio e k f (frontier_turn e k f (set_world f (so_tier so)
        (native_leave f so s1))))"
    by (simp flip: batch_native_steps(9) add: batch_native_steps(5))
  ultimately show ?thesis
    unfolding native_turn_def Let_def
    by (simp add: n1 [symmetric] nat batch_native_steps split_beta leave_sorted)
qed

lemma observing_splice: "ba_tier (splice_moved gen t z s) = ba_tier s"
  by (simp add: splice_moved_def)

lemma zone_native:
  assumes "layout_ok (be_layout e)" and "0 \<le> be_tier_idx e" "be_tier_idx e \<le> 3" and "observing (ba_tier s)"
  shows "scan_zone (native_turn e) gen t zone n (batch_native s) =
      map_prod id batch_native (scan_zone (scan_turn e gen') gen t zone n s)"
    and "observing (ba_tier (snd (scan_zone (scan_turn e gen') gen t zone n s)))"
proof -
  show "scan_zone (native_turn e) gen t zone n (batch_native s) =
      map_prod id batch_native (scan_zone (scan_turn e gen') gen t zone n s)"
    by (rule scan_zone_sim [where Q = "\<lambda>s. observing (ba_tier s)"])
      (simp_all add: turn_native [OF assms(1-3)] observed.turn_world assms(4))
  show "observing (ba_tier (snd (scan_zone (scan_turn e gen') gen t zone n s)))"
    by (rule scan_zone_inv [where P = "\<lambda>s. observing (ba_tier s)"]) (simp_all add: observed.turn_world assms(4))
qed

lemma zones_native:
  assumes "layout_ok (be_layout e)" and "0 \<le> be_tier_idx e" "be_tier_idx e \<le> 3"
  shows "observing (ba_tier s) \<Longrightarrow> scan_zones (native_turn e) gen t zones n (batch_native s) =
      map_prod id batch_native (scan_zones (scan_turn e gen') gen t zones n s)"
proof (induction zones arbitrary: n s)
  case (Cons zone zones)
  let ?s = "s \<lparr> nb_moved := [], nb_skipped_zone := 0 \<rparr>"
  obtain n1 s1 where z: "scan_zone (scan_turn e gen') gen t zone n ?s = (n1, s1)" by fastforce
  have obs: "observing (ba_tier ?s)" using Cons.prems by simp
  have "observing (ba_tier s1)" using zone_native(2) [OF assms obs, of gen' gen t zone n] by (simp add: z)
  then have "observing (ba_tier (splice_moved gen t zone s1))" by (simp add: observing_splice)
  note ih = Cons.IH [OF this, of n1]
  have "scan_zone (native_turn e) gen t zone n ((batch_native s) \<lparr> nb_moved := [], nb_skipped_zone := 0 \<rparr>) =
      (n1, batch_native s1)"
    using zone_native(1) [OF assms obs, of gen t zone n gen'] by (simp add: z batch_native_steps)
  then show ?case
    using ih by (simp add: z Let_def batch_native_steps flip: batch_native_sel(3))
qed simp

lemma loop_native:
  assumes "layout_ok (be_layout e)" and "0 \<le> be_tier_idx e" "be_tier_idx e \<le> 3" and "observing (ba_tier s)"
  shows "scan_loop (native_turn e) e nr_to_scan (batch_native s) =
    map_prod id batch_native (scan_loop (scan_turn e gen') e nr_to_scan s)"
proof -
  have "observing (ba_tier (scan_start s))" using assms(4) by (simp add: scan_start_def)
  note z = zones_native [OF assms(1-3) this, of "oldest_gen (be_type e) (nb_lru s)" "be_type e" "zone_order e"
    "unat (min nr_to_scan MAX_LRU_BATCH)" gen']
  show ?thesis
    unfolding scan_loop_def batch_native_sel batch_native_steps(8) [symmetric] z
    by (simp add: split_beta batch_native_steps)
qed

lemma open_observes:
  assumes "\<not> k_enabled (w_globals (ba_tier s)) \<or>
      g_mode (w_globals (ba_tier s)) \<in> {PARP_EFFECTIVE_TIER_OFF, PARP_EFFECTIVE_TIER_SHADOW}"
  shows "observing (ba_tier (scan_open e s))"
  using assms by (auto simp: scan_open_def tier_open_def tier_ctx_update_def observing_def
      parp_effective_tier_prepare_def scan_ctx_zero_def Let_def split_beta split: option.splits if_splits)

lemma scan_folios_native:
  assumes "layout_ok (be_layout e)" and "0 \<le> be_tier_idx e" and "be_tier_idx e \<le> 3"
    and "\<not> k_enabled (w_globals (ba_tier s)) \<or>
      g_mode (w_globals (ba_tier s)) \<in> {PARP_EFFECTIVE_TIER_OFF, PARP_EFFECTIVE_TIER_SHADOW}"
  shows "map_prod id batch_native (scan_folios e nr_to_scan s) =
    native_scan_folios e nr_to_scan (batch_native s)"
proof (cases "get_nr_gens (nb_lru s) (be_type e) = MIN_NR_GENS")
  case False
  let ?gen = "oldest_gen (be_type e) (nb_lru s)"
  have "scan_loop (native_turn e) e nr_to_scan (batch_native s) =
      map_prod id batch_native (scan_loop (scan_turn e ?gen) e nr_to_scan (scan_open e s))"
    using loop_native [OF assms(1-3) open_observes [OF assms(4), of e], of nr_to_scan ?gen] by simp
  then show ?thesis
    using False by (simp add: scan_folios_def native_scan_folios_def Let_def split_beta scan_result_def)
qed (simp add: scan_folios_def native_scan_folios_def)

text \<open>C4. While the effective tier is off or only observes, a whole batch of reclaim with the evidence
  adapter, the frontier scorer and the tier hook in it scans, sorts and isolates exactly what the batch
  before the patch does, in the same order and with the same result: lists, sizes, flags of every folio,
  the list of isolated folios and all counts agree, whatever the states of the policies and for any
  interference of other CPUs.\<close>

theorem parp_scan_folios_native:
  assumes "layout_ok (be_layout e)" and "0 \<le> be_tier_idx e" and "be_tier_idx e \<le> 3"
    and "\<not> k_enabled (w_globals (ba_tier s)) \<or>
      g_mode (w_globals (ba_tier s)) \<in> {PARP_EFFECTIVE_TIER_OFF, PARP_EFFECTIVE_TIER_SHADOW}"
  shows "map_prod id batch_native (scan_folios e nr_to_scan s) =
    native_scan_folios e nr_to_scan (batch_native s)"
  by (rule scan_folios_native [OF assms])

section \<open>Batches in any order\<close>

text \<open>
  The states between batches, since boot: any batch for any folios and environment, the accounting after
  \<open>shrink_folio_list\<close>, writes to the control files, and anything that leaves the tier's ledgers and the
  nesting of read-side sections alone, such as the rest of native reclaim.
\<close>

inductive batch_reach :: "bool \<Rightarrow> batch_state \<Rightarrow> bool" for apply_built where
  boot: "ba_tier s = parp_gate_boot \<Longrightarrow> rw_rcu_depth (ba_reclaim s) = 0 \<Longrightarrow> batch_reach apply_built s"
| scan: "batch_reach apply_built s \<Longrightarrow> (\<And>k f. batch_control apply_built (turn_sort e k f)) \<Longrightarrow>
    batch_reach apply_built (snd (scan_folios e nr_to_scan s))"
| reclaimed: "batch_reach apply_built s \<Longrightarrow> batch_reach apply_built
    (s \<lparr> ba_tier := parp_effective_tier_batch_reclaim trace_on n (ba_tier s) \<rparr>)"
| feedback: "batch_reach apply_built s \<Longrightarrow> batch_reach apply_built
    (s \<lparr> ba_tier := parp_effective_tier_feedback lru_type run_epoch isolated n (ba_tier s) \<rparr>)"
| control: "batch_reach apply_built s \<Longrightarrow> parp_control_step apply_built (w_globals (ba_tier s)) g \<Longrightarrow>
    batch_reach apply_built (s \<lparr> ba_tier := (ba_tier s) \<lparr> w_globals := g \<rparr> \<rparr>)"
| native: "batch_reach apply_built s \<Longrightarrow> ba_tier s' = ba_tier s \<Longrightarrow>
    rw_rcu_depth (ba_reclaim s') = rw_rcu_depth (ba_reclaim s) \<Longrightarrow> batch_reach apply_built s'"

definition section_held :: "parp_tier_world \<Rightarrow> bool" where
  "section_held w \<longleftrightarrow> (s_rcu_held (w_ctx w) \<longleftrightarrow> s_enabled (w_ctx w))"

lemma decide_rcu:
  "s_rcu_held (w_ctx (fst (parp_effective_tier_decide f nt idx sp w))) = s_rcu_held (w_ctx w)"
proof -
  obtain w' d where dec: "parp_effective_tier_decide f nt idx sp w = (w', d)" by fastforce
  obtain wb db where b: "body_ok f nt idx sp (parp_decide_count (v_pages f) w) wb db"
    "w_ctx w' = w_ctx wb" by (rule decide_result [OF dec])
  then show ?thesis using body_frame(4) [OF b(1)] by (simp add: dec count_simps)
qed

lemma finish_rcu:
  "s_rcu_held (w_ctx (fst (parp_effective_tier_finish env1 env2 trace_on r i (w, d)))) = s_rcu_held (w_ctx w)"
  by (auto simp: parp_effective_tier_finish_def parp_effective_tier_cancel_reservation_def
      parp_finish_trace_def Let_def split_beta)

interpretation held: hook_invariant "\<lambda>_. True" section_held
  by unfold_locales (simp_all add: section_held_def decide_ctx decide_rcu finish_ctx finish_rcu)

text \<open>The adapter's read-side section is open exactly during the batch.\<close>

definition depth_ok :: "batch_state \<Rightarrow> bool" where
  "depth_ok s \<longleftrightarrow> rw_rcu_depth (ba_reclaim s) = of_bool (rc_rcu_held (ba_reclaim_ctx s))"

lemma adapter_depth:
  "ba_reclaim_ctx (adapter_turn e k gen s) = ba_reclaim_ctx s"
  "rw_rcu_depth (ba_reclaim (adapter_turn e k gen s)) = rw_rcu_depth (ba_reclaim s)"
  using score_folio_depth by (auto simp: adapter_turn_def Let_def split_beta) (metis prod.collapse)

lemma steps_depth:
  "ba_reclaim_ctx (tier_finish t f d x y s) = ba_reclaim_ctx s" "ba_reclaim (tier_finish t f d x y s) = ba_reclaim s"
  "ba_reclaim_ctx (tier_ctx_update h s) = ba_reclaim_ctx s" "ba_reclaim (tier_ctx_update h s) = ba_reclaim s"
  "ba_reclaim_ctx (set_world f w s) = ba_reclaim_ctx s" "ba_reclaim (set_world f w s) = ba_reclaim s"
  "ba_reclaim_ctx (native_leave f so s) = ba_reclaim_ctx s" "ba_reclaim (native_leave f so s) = ba_reclaim s"
  "ba_reclaim_ctx (frontier_turn e k f s) = ba_reclaim_ctx s" "ba_reclaim (frontier_turn e k f s) = ba_reclaim s"
  "ba_reclaim_ctx (take_folio e f b s) = ba_reclaim_ctx s" "ba_reclaim (take_folio e f b s) = ba_reclaim s"
  "ba_reclaim_ctx (snd (isolate_folio e k f s)) = ba_reclaim_ctx s"
  "ba_reclaim (snd (isolate_folio e k f s)) = ba_reclaim s"
  by (simp_all add: tier_finish_def tier_ctx_update_def set_world_def native_leave_def frontier_turn_def
      take_folio_def isolate_folio_def Let_def split_beta)

lemma turn_depth: "depth_ok s \<Longrightarrow> depth_ok (scan_turn e gen k f s)"
  by (simp add: depth_ok_def scan_turn_def Let_def split_beta steps_depth adapter_depth)

lemma loop_depth: "depth_ok s \<Longrightarrow> depth_ok (snd (scan_loop (scan_turn e gen) e nr_to_scan s))"
proof -
  assume s: "depth_ok s"
  let ?r = "scan_zones (scan_turn e gen) (oldest_gen (be_type e) (nb_lru s)) (be_type e) (zone_order e)
    (unat (min nr_to_scan MAX_LRU_BATCH)) (scan_start s)"
  have frame: "depth_ok (s' \<lparr> nb_moved := xs, nb_skipped_zone := n \<rparr>) = depth_ok s'"
    "depth_ok (splice_moved g t z s') = depth_ok s'" "depth_ok (scan_start s') = depth_ok s'" for s' g t z xs n
    by (simp_all add: depth_ok_def scan_start_def splice_moved_def)
  have "depth_ok (snd ?r)"
    by (rule scan_zones_inv [where P = depth_ok]) (simp_all add: turn_depth frame s)
  then show "depth_ok (snd (scan_loop (scan_turn e gen) e nr_to_scan s))"
    by (cases "be_type e") (simp_all add: scan_loop_def depth_ok_def split_beta Let_def)
qed

definition batch_between :: "bool \<Rightarrow> batch_state \<Rightarrow> bool" where
  "batch_between b s \<longleftrightarrow> gate_ok b (ba_tier s) \<and> \<not> s_rcu_held (w_ctx (ba_tier s)) \<and>
     rw_rcu_depth (ba_reclaim s) = 0"

lemma gate_ok_ctx:
  assumes "gate_ok b w" and "\<not> s_rcu_held (w_ctx w)"
  shows "gate_ok b (w \<lparr> w_ctx := (w_ctx w) \<lparr> s_enabled := False \<rparr> \<rparr>)"
  using assms by (simp add: gate_ok_def Let_def)

lemma gate_ok_reclaim_context:
  assumes "gate_ok b w"
  shows "gate_ok b (w \<lparr> w_ctx := (w_ctx w) \<lparr> s_reclaim_context := c \<rparr> \<rparr>)"
  by (rule gate_frame_ok [OF _ assms]) (simp add: gate_frame_def ctx_used_def)

lemma prepare_held: "section_held (parp_effective_tier_prepare lru_type r w)"
  by (auto simp: section_held_def parp_effective_tier_prepare_def scan_ctx_zero_def Let_def split: option.split)

lemma open_ok:
  assumes "batch_between b s"
  shows "gate_ok b (ba_tier (scan_open e s))" "section_held (ba_tier (scan_open e s))" "depth_ok (scan_open e s)"
proof -
  let ?w = "ba_tier s"
  have w: "gate_ok b ?w" "\<not> s_rcu_held (w_ctx ?w)" "rw_rcu_depth (ba_reclaim s) = 0"
    using assms by (simp_all add: batch_between_def)
  have tier: "gate_ok b (ba_tier (tier_open e s'))" "section_held (ba_tier (tier_open e s'))"
    if "ba_tier s' = ?w" for s'
    using gate_prepare_ok [OF w(1,2)] gate_ok_ctx [OF w(1,2)] w(2) that prepare_held
    by (auto simp: tier_open_def Let_def tier_ctx_update_def section_held_def intro!: gate_ok_reclaim_context)
  show "gate_ok b (ba_tier (scan_open e s))" "section_held (ba_tier (scan_open e s))"
    unfolding scan_open_def Let_def split_beta by (rule tier, simp)+
  have "ba_reclaim (tier_open e s') = ba_reclaim s'" "ba_reclaim_ctx (tier_open e s') = ba_reclaim_ctx s'" for s'
    by (simp_all add: tier_open_def tier_ctx_update_def Let_def)
  then show "depth_ok (scan_open e s)"
    using w(3) by (simp add: scan_open_def depth_ok_def parp_adapter_prepare_def Let_def split_beta)
qed

lemma scanned_ok:
  assumes "batch_between b s" and "\<And>k f. batch_control b (turn_sort e k f)"
    and "s1 = snd (scan_loop (scan_turn e gen) e nr_to_scan (scan_open e s))"
  shows "gate_ok b (ba_tier s1)" "section_held (ba_tier s1)" "depth_ok s1"
  using gate.scan_loop_world [OF assms(2) open_ok(1) [OF assms(1)]]
    held.scan_loop_world [OF _ open_ok(2) [OF assms(1)]] loop_depth [OF open_ok(3) [OF assms(1)]]
  by (simp_all add: assms(3))

lemma close_ok:
  assumes "gate_ok b (ba_tier s)" "section_held (ba_tier s)" "depth_ok s"
  shows "batch_between b (scan_close e s)"
proof -
  have "gate_ok b (ba_tier (scan_close e s))"
    using assms(1) gate_frame_ok [OF frame_batch(1) assms(1)] by (simp add: scan_close_def Let_def split_beta)
  moreover have "\<not> s_rcu_held (w_ctx (ba_tier (scan_close e s)))"
    using assms(2) by (auto simp: scan_close_def Let_def split_beta section_held_def
        parp_effective_tier_batch_finish_def)
  moreover have "rw_rcu_depth (ba_reclaim (scan_close e s)) = 0"
    using assms(3) by (simp add: scan_close_def parp_adapter_finish_def depth_ok_def Let_def split_beta)
  ultimately show ?thesis by (simp add: batch_between_def)
qed

lemma scan_ok:
  assumes "batch_between b s" and "\<And>k f. batch_control b (turn_sort e k f)"
  shows "batch_between b (snd (scan_folios e nr_to_scan s))"
  using assms(1) close_ok [OF scanned_ok [OF assms refl]]
  by (simp add: scan_folios_def Let_def split_beta)

lemma batch_reach_ok: "batch_reach b s \<Longrightarrow> batch_between b s"
proof (induction rule: batch_reach.induct)
  case (boot s)
  then show ?case using gate_boot_ok by (simp add: batch_between_def parp_gate_boot_def scan_ctx_zero_def)
next
  case (scan s e nr_to_scan)
  then show ?case by (intro scan_ok) auto
next
  case (reclaimed s trace_on n)
  then show ?case using gate_frame_ok [OF frame_batch(2)]
    by (simp add: batch_between_def parp_effective_tier_batch_reclaim_def Let_def)
next
  case (feedback s lru_type run_epoch isolated n)
  then show ?case using gate_frame_ok [OF frame_batch(3)]
    by (simp add: batch_between_def parp_effective_tier_feedback_def Let_def)
next
  case (control s g)
  then show ?case using gate_control_ok by (simp add: batch_between_def)
qed (simp add: batch_between_def)

interpretation enabled: hook_invariant "\<lambda>_. True" "\<lambda>w. s_enabled (w_ctx w)"
  by unfold_locales (simp_all add: decide_ctx finish_ctx)

lemma gate_ok_budgets:
  assumes "gate_ok b w"
  shows "g_mode (w_globals w) \<noteq> PARP_EFFECTIVE_TIER_OFF \<or> s_rcu_held (w_ctx w) \<Longrightarrow>
      l_state_epoch (w_lru w t) = g_state_epoch (w_globals w) \<Longrightarrow>
      l_upgrade_pages (w_lru w t) \<le> c_upgrade_epoch_pages (g_config (w_globals w)) \<and>
      l_downgrade_pages (w_lru w t) \<le> c_downgrade_epoch_pages (g_config (w_globals w))"
    and "s_rcu_held (w_ctx w) \<Longrightarrow> l_state_epoch (w_lru w (s_type (w_ctx w))) = g_state_epoch (w_globals w) \<and>
      s_upgrade_pages (w_ctx w) \<le> c_upgrade_batch_pages (g_config (w_globals w)) \<and>
      s_downgrade_pages (w_ctx w) \<le> c_downgrade_batch_pages (g_config (w_globals w))"
proof -
  have lru: "lru_used up (w_lru w t) \<le> epoch_limit up (g_config (w_globals w))"
    if "g_mode (w_globals w) \<noteq> PARP_EFFECTIVE_TIER_OFF \<or> s_rcu_held (w_ctx w)"
      "l_state_epoch (w_lru w t) = g_state_epoch (w_globals w)" for up
    using assms that unfolding gate_ok_def Let_def by blast
  have ctx: "ctx_used up (w_ctx w) \<le> batch_limit up (g_config (w_globals w))" if "s_rcu_held (w_ctx w)" for up
    using assms that by (simp add: gate_ok_def Let_def)
  show "l_upgrade_pages (w_lru w t) \<le> c_upgrade_epoch_pages (g_config (w_globals w)) \<and>
      l_downgrade_pages (w_lru w t) \<le> c_downgrade_epoch_pages (g_config (w_globals w))"
    if "g_mode (w_globals w) \<noteq> PARP_EFFECTIVE_TIER_OFF \<or> s_rcu_held (w_ctx w)"
      "l_state_epoch (w_lru w t) = g_state_epoch (w_globals w)"
    using lru [of True, OF that] lru [of False, OF that] by (simp add: lru_used_def epoch_limit_def)
  show "l_state_epoch (w_lru w (s_type (w_ctx w))) = g_state_epoch (w_globals w) \<and>
      s_upgrade_pages (w_ctx w) \<le> c_upgrade_batch_pages (g_config (w_globals w)) \<and>
      s_downgrade_pages (w_ctx w) \<le> c_downgrade_batch_pages (g_config (w_globals w))"
    if held: "s_rcu_held (w_ctx w)"
    using assms held ctx [of True] ctx [of False] by (simp add: gate_ok_def Let_def ctx_used_def batch_limit_def)
qed

text \<open>C2. In any order of batches, control writes, faults, accounting and feedback since boot: an enabled
  batch, also one during which the mode is switched off or a fault is raised, never moves more pages than
  its configuration allows for a batch and for an epoch, whatever it scans; when it ends, both read-side
  sections are closed and the ledgers of both types are still within the epoch limits.\<close>

theorem parp_batch_budgets_hold:
  assumes "batch_reach apply_built s" and "\<forall>k f. batch_control apply_built (turn_sort e k f)"
    and "s_enabled (w_ctx (ba_tier (scan_open e s)))"
    and "s1 = snd (scan_loop (scan_turn e gen) e nr_to_scan (scan_open e s))"
    and "w = ba_tier s1" and "s' = scan_close e s1" and "w' = ba_tier s'"
  shows "s_upgrade_pages (w_ctx w) \<le> c_upgrade_batch_pages (g_config (w_globals w)) \<and>
    s_downgrade_pages (w_ctx w) \<le> c_downgrade_batch_pages (g_config (w_globals w)) \<and>
    l_upgrade_pages (w_lru w (s_type (w_ctx w))) \<le> c_upgrade_epoch_pages (g_config (w_globals w)) \<and>
    l_downgrade_pages (w_lru w (s_type (w_ctx w))) \<le> c_downgrade_epoch_pages (g_config (w_globals w)) \<and>
    \<not> s_rcu_held (w_ctx w') \<and> rw_rcu_depth (ba_reclaim s') = 0 \<and>
    (g_mode (w_globals w') \<noteq> PARP_EFFECTIVE_TIER_OFF \<longrightarrow>
       (\<forall>t. l_state_epoch (w_lru w' t) = g_state_epoch (w_globals w') \<longrightarrow>
          l_upgrade_pages (w_lru w' t) \<le> c_upgrade_epoch_pages (g_config (w_globals w')) \<and>
          l_downgrade_pages (w_lru w' t) \<le> c_downgrade_epoch_pages (g_config (w_globals w'))))"
proof -
  have "batch_control apply_built (turn_sort e k f)" for k f using assms(2) by blast
  note ok = scanned_ok [OF batch_reach_ok [OF assms(1)] this assms(4)]
  have "s_enabled (w_ctx w)"
    using enabled.scan_loop_world [OF _ assms(3)] by (simp add: assms(4,5))
  then have held: "s_rcu_held (w_ctx w)" using ok(2) by (simp add: section_held_def assms(5))
  have w: "gate_ok apply_built w" using ok(1) by (simp add: assms(5))
  have end': "batch_between apply_built s'" unfolding assms(6) by (rule close_ok [OF ok])
  then have w': "gate_ok apply_built w'" by (simp add: batch_between_def assms(7))
  show ?thesis
    using end' gate_ok_budgets(1) [OF w'] gate_ok_budgets(1) [OF w disjI2 [OF held]] gate_ok_budgets(2) [OF w held]
    unfolding batch_between_def assms(7) by blast
qed

section \<open>A sample batch\<close>

definition sample_turn :: turn_env where
  "sample_turn = \<lparr> tu_sort = sample_sort_env sample_later, tu_page = sample_reclaim_folio, tu_now = 3000,
     tu_lookup_now = 3000, tu_candidate = sample_candidate, tu_isolate_look = (\<lambda>x. x),
     tu_isolate_del = (\<lambda>x. x), tu_anon_unswapped = False, tu_get = True, tu_clear_lru = True,
     tu_cancel = quiet, tu_pending = quiet, tu_trace = False \<rparr>"

text \<open>The first folio at the tail cannot be isolated, the second one can.\<close>

definition sample_batch_env :: batch_env where
  "sample_batch_env = \<lparr> be_layout = sample_layout, be_facts = (\<lambda>f. sample_facts \<lparr> ff_id := f \<rparr>),
     be_type = True, be_tier_idx = 1, be_reclaim_idx = 4, be_gfp_io = True,
     be_turn = (\<lambda>k. sample_turn \<lparr> tu_get := k \<noteq> 32 \<rparr>), be_engine = eager_engine,
     be_account = (\<lambda>_ st. st), be_domain_id = 5,
     be_frontier = \<lparr> fr_active = None, fr_now = 0, fr_memcg = None, fr_nid = 0, fr_target_memcg = True,
       fr_type = True, fr_priority = 12, fr_reclaim_idx = 4, fr_demand = 32 \<rparr>,
     be_prepare = sample_request, be_trace = False \<rparr>"

definition sample_batch :: "parp_effective_tier_mode \<Rightarrow> batch_state" where
  "sample_batch mode = \<lparr> nb_lru = sample_lru, nb_flags = (\<lambda>_. 0x400), nb_file_taken = 0,
     nb_unqueued_dirty = 0, nb_culled = 0, nb_list = [], nb_moved = [], nb_scanned = 0, nb_sorted = 0,
     nb_isolated = 0, nb_skipped = 0, nb_skipped_zone = 0,
     ba_tier = parp_gate_boot \<lparr> w_globals := snd (parp_effective_tier_set_mode True mode
       (parp_effective_tier_page_ext_init parp_tier_boot)) \<rparr>,
     ba_meta = (\<lambda>_. Some sample_page), ba_frontier = sample_frontier_world,
     ba_frontier_ctx = frontier_ctx_zero, ba_ext = (\<lambda>_. Some sample_history),
     ba_reclaim = sample_reclaim_world sample_published, ba_reclaim_ctx = sample_reclaim_ctx,
     ba_run_epoch = 0 \<rparr>"

lemma sample_shadow:
  "layout_ok (be_layout sample_batch_env)"
  "g_mode (w_globals (ba_tier (sample_batch PARP_EFFECTIVE_TIER_SHADOW))) = PARP_EFFECTIVE_TIER_SHADOW"
  by code_simp+

lemma sample_native:
  "case native_scan_folios sample_batch_env 32 (batch_native (sample_batch PARP_EFFECTIVE_TIER_SHADOW)) of (r, s) \<Rightarrow>
     r = 2 \<and> nb_list s = [3] \<and> lg_folios (nb_lru s) 0 True 0 = [7] \<and> nb_skipped s = 1"
  by code_simp

text \<open>Witness of C4: in SHADOW mode the sample batch isolates one folio of two and skips the other.\<close>

theorem parp_scan_folios_native_witness:
  "\<exists>r s'. scan_folios sample_batch_env 32 (sample_batch PARP_EFFECTIVE_TIER_SHADOW) = (r, s') \<and>
     r = 2 \<and> nb_list s' = [3] \<and> lg_folios (nb_lru s') 0 True 0 = [7]"
proof -
  let ?s = "sample_batch PARP_EFFECTIVE_TIER_SHADOW"
  obtain r s' where run: "scan_folios sample_batch_env 32 ?s = (r, s')" by fastforce
  have "map_prod id batch_native (scan_folios sample_batch_env 32 ?s) =
      native_scan_folios sample_batch_env 32 (batch_native ?s)"
    using sample_shadow by (intro parp_scan_folios_native) (simp_all add: sample_batch_env_def)
  then have "native_scan_folios sample_batch_env 32 (batch_native ?s) = (r, batch_native s')"
    by (simp add: run)
  moreover have "nb_list (batch_native s') = nb_list s'" by (simp add: batch_native_def)
  ultimately show ?thesis using sample_native run by simp
qed

text \<open>Witness of C2: BIDIRECTIONAL is switched on after boot and the sample batch runs.\<close>

theorem parp_batch_budgets_hold_witness:
  "let s = sample_batch PARP_EFFECTIVE_TIER_BIDIRECTIONAL;
       s1 = snd (scan_loop (scan_turn sample_batch_env 0) sample_batch_env 32 (scan_open sample_batch_env s));
       w = ba_tier s1; s' = scan_close sample_batch_env s1
   in batch_reach True s \<and> s_enabled (w_ctx (ba_tier (scan_open sample_batch_env s))) \<and>
      s_upgrade_pages (w_ctx w) \<le> c_upgrade_batch_pages (g_config (w_globals w)) \<and>
      \<not> s_rcu_held (w_ctx (ba_tier s')) \<and> rw_rcu_depth (ba_reclaim s') = 0"
proof -
  let ?m = PARP_EFFECTIVE_TIER_BIDIRECTIONAL
  let ?g = "parp_effective_tier_page_ext_init parp_tier_boot"
  define s0 where "s0 = (sample_batch ?m) \<lparr> ba_tier := parp_gate_boot \<rparr>"
  define s1 where "s1 = s0 \<lparr> ba_tier := (ba_tier s0) \<lparr> w_globals := ?g \<rparr> \<rparr>"
  have "batch_reach True s0"
    by (rule batch_reach.boot) (simp_all add: s0_def sample_batch_def sample_reclaim_world_def)
  then have "batch_reach True s1"
    unfolding s1_def
    using parp_control_step.ready [of True parp_tier_boot]
    by (intro batch_reach.control) (simp_all add: s0_def parp_gate_boot_def)
  then have "batch_reach True (s1 \<lparr> ba_tier := (ba_tier s1) \<lparr> w_globals :=
      snd (parp_effective_tier_set_mode True ?m ?g) \<rparr> \<rparr>)"
    using parp_control_step.mode [of True ?g ?m] by (intro batch_reach.control) (simp_all add: s1_def)
  moreover have "s1 \<lparr> ba_tier := (ba_tier s1) \<lparr> w_globals := snd (parp_effective_tier_set_mode True ?m ?g) \<rparr> \<rparr> =
      sample_batch ?m"
    by (simp add: s1_def s0_def sample_batch_def)
  ultimately have reach: "batch_reach True (sample_batch ?m)" by simp
  have "k_enabled (w_globals (ba_tier (sample_batch ?m)))"
    "s_enabled (w_ctx (parp_effective_tier_prepare True (sample_request \<lparr> r_min_seq := 8 \<rparr>)
       (ba_tier (sample_batch ?m))))"
    by code_simp+
  moreover have "be_prepare sample_batch_env = sample_request" "be_type sample_batch_env"
    "lg_min_seq (nb_lru (sample_batch ?m)) = (\<lambda>_. 8)"
    by (simp_all add: sample_batch_env_def sample_batch_def sample_lru_def)
  ultimately have on: "s_enabled (w_ctx (ba_tier (scan_open sample_batch_env (sample_batch ?m))))"
    by (simp add: scan_open_def tier_open_def tier_ctx_update_def Let_def split_beta)
  have control: "\<forall>k f. batch_control True (turn_sort sample_batch_env k f)"
    by (simp add: batch_control_def turn_sort_def sample_batch_env_def sample_turn_def sample_sort_env_def)
  show ?thesis
    using parp_batch_budgets_hold [OF reach control on refl refl refl refl, of 0 32] reach on
    by (simp add: Let_def)
qed

end
