(* ===== verification/Scan_Accounts.thy ===== *)
theory Scan_Accounts
  imports Scan_Properties
begin

text \<open>
  Where the folios of a lruvec are while \<open>scan_folios\<close> runs: in one list of one generation, among the isolated
  ones, culled as unevictable, or on the list of skipped ones that goes back to its zone. The invariant holds whatever the policies
  decide and whatever races with the scan.
\<close>

section \<open>Places\<close>

definition listed :: "lru_gen_folio \<Rightarrow> nat set" where
  "listed lr = {x. \<exists>g t z. x \<in> set (lg_folios lr g t z)}"

definition pages_in :: "batch_env \<Rightarrow> nat list \<Rightarrow> int" where
  "pages_in e xs = (\<Sum>x\<leftarrow>xs. pages_int e x)"

definition pages_at :: "batch_env \<Rightarrow> bool \<Rightarrow> nat \<Rightarrow> nat list \<Rightarrow> int" where
  "pages_at e t z xs = pages_in e (filter (\<lambda>x. ff_type (be_facts e x) = t \<and> ff_zone (be_facts e x) = z) xs)"

definition everything :: "'s native_batch_scheme \<Rightarrow> nat set" where
  "everything s = listed (nb_lru s) \<union> set (nb_moved s) \<union> set (nb_list s)"

text \<open>What native code guarantees about the lists and the folios on them.\<close>

definition folio_ok :: "batch_env \<Rightarrow> 's native_batch_scheme \<Rightarrow> nat \<Rightarrow> bool" where
  "folio_ok e s x \<longleftrightarrow> ff_id (be_facts e x) = x \<and> ff_pages (be_facts e x) \<noteq> 0 \<and>
     gen_valid (be_layout e) (nb_flags s x)"

definition lists_ok :: "batch_env \<Rightarrow> 's native_batch_scheme \<Rightarrow> bool" where
  "lists_ok e s \<longleftrightarrow> (\<forall>g t z x. x \<in> set (lg_folios (nb_lru s) g t z) \<longrightarrow>
     0 \<le> g \<and> g < 4 \<and> t = ff_type (be_facts e x) \<and> z = ff_zone (be_facts e x) \<and> folio_ok e s x \<and>
     listed_at (be_facts e x) g (nb_lru s))"

text \<open>The invariant of the scan of one zone, relative to the state at its start.\<close>

definition batch_ok ::
  "batch_env \<Rightarrow> nat set \<Rightarrow> (bool \<Rightarrow> nat \<Rightarrow> int) \<Rightarrow> bool \<Rightarrow> nat \<Rightarrow> 's native_batch_scheme \<Rightarrow> bool" where
  "batch_ok e folios pages t z s \<longleftrightarrow> lists_ok e s \<and> everything s = folios \<and>
     distinct (nb_list s) \<and> distinct (nb_moved s) \<and> set (nb_list s) \<inter> set (nb_moved s) = {} \<and>
     listed (nb_lru s) \<inter> (set (nb_list s) \<union> set (nb_moved s)) = {} \<and>
     (\<forall>x \<in> set (nb_moved s). t = ff_type (be_facts e x) \<and> z = ff_zone (be_facts e x) \<and> folio_ok e s x) \<and>
     nb_isolated s = pages_in e (nb_list s) \<and> nb_skipped_zone s = pages_in e (nb_moved s) \<and>
     (\<forall>t z. pages_of (nb_lru s) t z + pages_at e t z (nb_list s) = pages t z)"

text \<open>Other CPUs keep the folio on the lists, also around its isolation.\<close>

definition turns_ok :: "batch_env \<Rightarrow> bool" where
  "turns_ok e \<longleftrightarrow> (\<forall>k f. others_ok (turn_sort e k f) \<and>
     (\<forall>flags. gen_valid (be_layout e) flags \<longrightarrow>
        gen_valid (be_layout e) (tu_isolate_look (be_turn e k) flags) \<and>
        gen_valid (be_layout e) (tu_isolate_del (be_turn e k) flags)))"

lemma removeAll_mem: "removeAll f xs = removeAll f ys \<Longrightarrow> x \<noteq> f \<Longrightarrow> x \<in> set xs \<longleftrightarrow> x \<in> set ys"
  by (metis Diff_iff empty_iff insert_iff set_removeAll)

lemma removeAll_count: "removeAll f xs = removeAll f ys \<Longrightarrow> x \<noteq> f \<Longrightarrow> count_list xs x = count_list ys x"
  by (metis count_removeAll)

lemma listed_at_other:
  assumes "\<And>g t z. removeAll f (lg_folios lr' g t z) = removeAll f (lg_folios lr g t z)" and "ff_id fx \<noteq> f"
  shows "listed_at fx g lr' \<longleftrightarrow> listed_at fx g lr"
  using removeAll_count [OF assms(1) assms(2)] by (simp add: listed_at_def)

lemma listed_at_member: "listed_at f g lr \<Longrightarrow>
   ff_id f \<in> set (lg_folios lr g' t z) \<longleftrightarrow> g' = g \<and> t = ff_type f \<and> z = ff_zone f"
  unfolding listed_at_def by (metis count_list_0_iff one_neq_zero)

text \<open>A folio that moved to another generation.\<close>

lemma sorted_lists:
  assumes ok: "batch_ok e folios pages t z s" and f: "f \<in> listed (nb_lru s)"
    and kept: "lists_kept (be_facts e f) (nb_lru s) lr" and at: "listed_at (be_facts e f) gen lr"
    and gen: "gen_valid (be_layout e) flags" "0 \<le> gen" "gen < 4"
    and s': "nb_lru s' = lr" "nb_flags s' = (nb_flags s) (f := flags)" "nb_list s' = nb_list s"
      "nb_moved s' = nb_moved s" "nb_isolated s' = nb_isolated s" "nb_skipped_zone s' = nb_skipped_zone s"
  shows "batch_ok e folios pages t z s'"
proof -
  have lo: "lists_ok e s" using ok by (simp add: batch_ok_def)
  have fo: "folio_ok e s f" using f lo by (auto simp: listed_def lists_ok_def)
  then have id: "ff_id (be_facts e f) = f" by (simp add: folio_ok_def)
  have rem: "removeAll f (lg_folios lr g t z) = removeAll f (lg_folios (nb_lru s) g t z)" for g t z
    using kept by (simp add: lists_kept_def id)
  have mem: "x \<in> set (lg_folios lr g t z) \<longleftrightarrow> x \<in> set (lg_folios (nb_lru s) g t z)" if "x \<noteq> f" for x g t z
    by (rule removeAll_mem [OF rem that])
  have fm: "f \<in> set (lg_folios lr g' t z) \<longleftrightarrow> g' = gen \<and> t = ff_type (be_facts e f) \<and> z = ff_zone (be_facts e f)"
    for g' t z using listed_at_member [OF at] by (simp add: id)
  have fo': "folio_ok e s' x" if "folio_ok e s x" for x
    using that gen by (simp add: folio_ok_def s')
  have "lists_ok e s'"
    unfolding lists_ok_def s'
  proof (intro allI impI)
    fix g t z x assume x: "x \<in> set (lg_folios lr g t z)"
    show "0 \<le> g \<and> g < 4 \<and> t = ff_type (be_facts e x) \<and> z = ff_zone (be_facts e x) \<and> folio_ok e s' x \<and>
        listed_at (be_facts e x) g lr"
    proof (cases "x = f")
      case True
      then show ?thesis using x fm gen at fo' [OF fo] by auto
    next
      case False
      then have old: "0 \<le> g \<and> g < 4 \<and> t = ff_type (be_facts e x) \<and> z = ff_zone (be_facts e x) \<and>
          folio_ok e s x \<and> listed_at (be_facts e x) g (nb_lru s)"
        using x mem lo unfolding lists_ok_def by blast
      then have "ff_id (be_facts e x) \<noteq> f" using False by (simp add: folio_ok_def)
      then show ?thesis using old fo' listed_at_other [OF rem] by blast
    qed
  qed
  moreover have listed: "listed lr = listed (nb_lru s)"
  proof (rule set_eqI)
    fix x show "x \<in> listed lr \<longleftrightarrow> x \<in> listed (nb_lru s)"
    proof (cases "x = f")
      case True
      have "f \<in> listed lr" unfolding listed_def using fm by blast
      then show ?thesis using True f by simp
    next
      case False
      then show ?thesis by (simp add: listed_def mem)
    qed
  qed
  moreover have pages: "pages_of lr t z = pages_of (nb_lru s) t z" for t z
    using kept by (simp add: lists_kept_def)
  moreover have "\<forall>x \<in> set (nb_moved s). t = ff_type (be_facts e x) \<and> z = ff_zone (be_facts e x) \<and> folio_ok e s' x"
    using ok fo' unfolding batch_ok_def by blast
  ultimately show ?thesis
    using ok unfolding batch_ok_def everything_def s' listed pages by blast
qed

section \<open>Taking a folio off the lists\<close>

lemma removed_lists:
  assumes lo: "lists_ok e s" and id: "ff_id (be_facts e f) = f"
    and lr: "\<And>g t z. lg_folios lr g t z = removeAll f (lg_folios (nb_lru s) g t z)"
    and s': "nb_lru s' = lr" "\<And>x. x \<noteq> f \<Longrightarrow> nb_flags s' x = nb_flags s x"
  shows "lists_ok e s'" and "listed lr = listed (nb_lru s) - {f}"
proof -
  have rem: "removeAll f (lg_folios lr g t z) = removeAll f (lg_folios (nb_lru s) g t z)" for g t z
    by (simp add: lr removeAll_filter_not_eq)
  show "listed lr = listed (nb_lru s) - {f}" by (auto simp: listed_def lr)
  show "lists_ok e s'"
    unfolding lists_ok_def s'(1)
  proof (intro allI impI)
    fix g t z x assume "x \<in> set (lg_folios lr g t z)"
    then have x: "x \<noteq> f" "x \<in> set (lg_folios (nb_lru s) g t z)" by (simp_all add: lr)
    then have old: "0 \<le> g \<and> g < 4 \<and> t = ff_type (be_facts e x) \<and> z = ff_zone (be_facts e x) \<and>
        folio_ok e s x \<and> listed_at (be_facts e x) g (nb_lru s)"
      using lo unfolding lists_ok_def by blast
    then have "ff_id (be_facts e x) \<noteq> f" "folio_ok e s' x" using x(1) s'(2) by (simp_all add: folio_ok_def)
    then show "0 \<le> g \<and> g < 4 \<and> t = ff_type (be_facts e x) \<and> z = ff_zone (be_facts e x) \<and> folio_ok e s' x \<and>
        listed_at (be_facts e x) g lr"
      using old listed_at_other [OF rem] by blast
  qed
qed

lemma pages_at_Cons:
  "pages_at e t z (f # xs) =
     (if ff_type (be_facts e f) = t \<and> ff_zone (be_facts e f) = z then pages_int e f else 0) + pages_at e t z xs"
  by (simp add: pages_at_def pages_in_def)

lemma del_pages:
  assumes "0 \<le> gen" "gen < 4"
  shows "pages_of (list_del x (lru_gen_update_size f gen (- 1) lr)) t z =
    pages_of lr t z - (if t = ff_type f \<and> z = ff_zone f then uint (ff_pages f) else 0)"
proof -
  have gens: "{0..3} = {0, 1, 2, 3 :: int}" by auto
  have "gen \<in> {0, 1, 2, 3}" using assms by auto
  then have "pages_of (add_nr_pages f gen (- uint (ff_pages f)) lr) t z =
      pages_of lr t z - (if t = ff_type f \<and> z = ff_zone f then uint (ff_pages f) else 0)"
    by (auto simp: pages_of_def add_nr_pages_def gens)
  moreover have "pages_of (list_del x (update_lru_size f a n r)) t z = pages_of r t z" for a n r
    by (simp add: pages_of_def list_del_def update_lru_size_def)
  ultimately show ?thesis using assms by (simp add: lru_gen_update_size_def Let_def)
qed

lemma del_lists:
  "lg_folios (list_del x (lru_gen_update_size f gen new lr)) g t z = removeAll x (lg_folios lr g t z)"
  by (simp add: list_del_def lru_gen_update_size_def update_lru_size_def add_nr_pages_def Let_def)

lemma cleared_gen:
  assumes "layout_ok l" and "gen_valid l flags"
  shows "gen_valid l ((if flags AND flag_bit (fl_referenced l) = 0 then flags AND NOT (LRU_REFS_MASK l) else flags)
     AND NOT (flag_bit (fl_reclaim l)))"
proof -
  have keep: "(x AND NOT m) AND gen_mask l = x AND gen_mask l" if "m AND gen_mask l = 0" for x m :: u64
  proof (rule bit_word_eqI)
    fix n assume "n < LENGTH(64)"
    moreover have "bit (m AND gen_mask l) n = False" by (simp add: that)
    ultimately show "bit ((x AND NOT m) AND gen_mask l) n = bit (x AND gen_mask l) n"
      by (auto simp: bit_and_iff bit_not_iff)
  qed
  note refs = keep [OF refs_not_gen(2) [OF assms(1)]] and rec = keep [OF refs_not_gen(7) [OF assms(1)]]
  show ?thesis
    using assms(2) unfolding gen_valid_def parp_lru_gen_from_flags_def rec
    by (cases "flags AND flag_bit (fl_referenced l) = 0") (simp_all only: refs if_True if_False simp_thms)
qed

text \<open>The invariant, spelled out for one folio of the zone that is off the lists.\<close>

lemma batch_okD:
  assumes "batch_ok e folios pages t z s"
  shows "lists_ok e s" "listed (nb_lru s) \<union> set (nb_moved s) \<union> set (nb_list s) = folios"
    "distinct (nb_list s)" "distinct (nb_moved s)" "set (nb_list s) \<inter> set (nb_moved s) = {}"
    "listed (nb_lru s) \<inter> (set (nb_list s) \<union> set (nb_moved s)) = {}"
    "x \<in> set (nb_moved s) \<Longrightarrow> t = ff_type (be_facts e x) \<and> z = ff_zone (be_facts e x) \<and> folio_ok e s x"
    "nb_isolated s = pages_in e (nb_list s)" "nb_skipped_zone s = pages_in e (nb_moved s)"
    "pages_of (nb_lru s) t' z' + pages_at e t' z' (nb_list s) = pages t' z'"
  using assms by (simp_all add: batch_ok_def everything_def)

lemma taken_listed:
  assumes ok: "batch_ok e folios pages t z s" and f: "f \<in> listed (nb_lru s)"
  shows "folio_ok e s f" "ff_id (be_facts e f) = f" "f \<notin> set (nb_list s)" "f \<notin> set (nb_moved s)"
proof -
  show fo: "folio_ok e s f" using f batch_okD(1) [OF ok] unfolding listed_def lists_ok_def by blast
  then show "ff_id (be_facts e f) = f" by (simp add: folio_ok_def)
  show "f \<notin> set (nb_list s)" "f \<notin> set (nb_moved s)" using f batch_okD(6) [OF ok] by blast+
qed

lemma set_aside_ok:
  assumes ok: "batch_ok e folios pages t z s" and f: "f \<in> listed (nb_lru s)"
    and at: "t = ff_type (be_facts e f)" "z = ff_zone (be_facts e f)" and flags: "gen_valid (be_layout e) flags"
    and s': "nb_lru s' = list_del f (nb_lru s)" "nb_flags s' = (nb_flags s) (f := flags)"
      "nb_list s' = nb_list s" "nb_moved s' = f # nb_moved s" "nb_isolated s' = nb_isolated s"
      "nb_skipped_zone s' = nb_skipped_zone s + pages_int e f"
  shows "batch_ok e folios pages t z s'"
proof -
  note old = batch_okD [OF ok] and new = taken_listed [OF ok f]
  have "lg_folios (nb_lru s') g t z = removeAll f (lg_folios (nb_lru s) g t z)" for g t z
    by (simp add: s' list_del_def)
  note rem = removed_lists [OF old(1) new(2) this refl]
  have lo: "lists_ok e s'" by (rule rem(1)) (simp add: s')
  have li: "listed (nb_lru s') = listed (nb_lru s) - {f}" by (rule rem(2)) (simp add: s')
  have fo: "folio_ok e s' x" if "folio_ok e s x" for x
    using that flags by (simp add: s' folio_ok_def)
  have every: "everything s' = folios"
    using old(2) f unfolding everything_def li s'(3,4) by auto
  have pages: "pages_of (nb_lru s') t z + pages_at e t z (nb_list s') = pages t z" for t z
    using old(10) by (simp add: s' list_del_def pages_of_def)
  have disj: "set (nb_list s') \<inter> set (nb_moved s') = {}"
    "listed (nb_lru s') \<inter> (set (nb_list s') \<union> set (nb_moved s')) = {}"
    using old(5,6) new(3,4) unfolding li s'(3,4) by auto
  have moved: "\<forall>x \<in> set (nb_moved s'). t = ff_type (be_facts e x) \<and> z = ff_zone (be_facts e x) \<and> folio_ok e s' x"
    using old(7) fo new(1) at unfolding s' by auto
  have "distinct (nb_list s')" "distinct (nb_moved s')"
    "nb_isolated s' = pages_in e (nb_list s')" "nb_skipped_zone s' = pages_in e (nb_moved s')"
    using old(3,4,8,9) new(3,4) by (simp_all add: s' pages_in_def)
  then show ?thesis using lo every disj moved pages unfolding batch_ok_def by blast
qed

lemma isolated_ok:
  assumes ok: "batch_ok e folios pages t z s" and f: "f \<in> listed (nb_lru s)" and gen: "0 \<le> gen" "gen < 4"
    and s': "nb_lru s' = list_del f (lru_gen_update_size (be_facts e f) gen (- 1) (nb_lru s))"
      "\<And>x. x \<noteq> f \<Longrightarrow> nb_flags s' x = nb_flags s x" "nb_list s' = f # nb_list s" "nb_moved s' = nb_moved s"
      "nb_isolated s' = nb_isolated s + pages_int e f" "nb_skipped_zone s' = nb_skipped_zone s"
  shows "batch_ok e folios pages t z s'"
proof -
  note old = batch_okD [OF ok] and new = taken_listed [OF ok f]
  have "lg_folios (nb_lru s') g t z = removeAll f (lg_folios (nb_lru s) g t z)" for g t z
    by (simp add: s' del_lists)
  note rem = removed_lists [OF old(1) new(2) this refl]
  have lo: "lists_ok e s'" by (rule rem(1)) (rule s'(2))
  have li: "listed (nb_lru s') = listed (nb_lru s) - {f}" by (rule rem(2)) (rule s'(2))
  have fo: "folio_ok e s' x" if "folio_ok e s x" "x \<noteq> f" for x
    using that by (simp add: s'(2) folio_ok_def)
  have every: "everything s' = folios"
    using old(2) f unfolding everything_def li s'(3,4) by auto
  have pages: "pages_of (nb_lru s') t z + pages_at e t z (nb_list s') = pages t z" for t z
    using old(10) [of t z] by (simp add: s' del_pages [OF gen] pages_at_Cons pages_int_def)
  have disj: "set (nb_list s') \<inter> set (nb_moved s') = {}"
    "listed (nb_lru s') \<inter> (set (nb_list s') \<union> set (nb_moved s')) = {}"
    using old(5,6) new(3,4) unfolding li s'(3,4) by auto
  have moved: "\<forall>x \<in> set (nb_moved s'). t = ff_type (be_facts e x) \<and> z = ff_zone (be_facts e x) \<and> folio_ok e s' x"
    using old(7) fo new(4) unfolding s' by auto
  have "distinct (nb_list s')" "distinct (nb_moved s')"
    "nb_isolated s' = pages_in e (nb_list s')" "nb_skipped_zone s' = pages_in e (nb_moved s')"
    using old(3,4,8,9) new(3,4) by (simp_all add: s' pages_in_def)
  then show ?thesis using lo every disj moved pages unfolding batch_ok_def by blast
qed

text \<open>What \<open>isolate_folio\<close> leaves in both cases.\<close>

lemma isolate_cases:
  assumes "layout_ok (be_layout e)" "turns_ok e" "gen_valid (be_layout e) (nb_flags s f)" "ff_id (be_facts e f) = f"
    and iso: "isolate_folio e k f s = (isolated, s')"
  obtains (kept) flags where "\<not> isolated" "gen_valid (be_layout e) flags"
      "s' = s \<lparr> nb_flags := (nb_flags s) (f := flags) \<rparr>"
    | (taken) gen flags where "isolated" "0 \<le> gen" "gen < 4"
      "s' = s \<lparr> nb_flags := (nb_flags s) (f := flags),
        nb_lru := list_del f (lru_gen_update_size (be_facts e f) gen (- 1) (nb_lru s)) \<rparr>"
proof -
  let ?l = "be_layout e" and ?t = "be_turn e k"
  let ?look = "tu_isolate_look ?t (nb_flags s f)"
  let ?fl = "(if ?look AND flag_bit (fl_referenced ?l) = 0 then ?look AND NOT (LRU_REFS_MASK ?l) else ?look)
    AND NOT (flag_bit (fl_reclaim ?l))"
  have v: "gen_valid ?l ?look" using assms(2,3) by (simp add: turns_ok_def)
  have w: "gen_valid ?l ?fl" by (rule cleared_gen [OF assms(1) v])
  then have x: "gen_valid ?l (tu_isolate_del ?t ?fl)" using assms(2) by (simp add: turns_ok_def)
  show thesis
  proof (cases isolated)
    case False
    then have "s' = s \<lparr> nb_flags := (nb_flags s) (f := ?look) \<rparr>"
      using iso by (simp add: isolate_folio_def Let_def split: if_splits prod.splits)
    then show thesis using kept False v by blast
  next
    case True
    obtain ok flags lr where del: "lru_gen_del_folio ?l (tu_isolate_del ?t) (be_facts e f) (?fl, nb_lru s) =
        (ok, flags, lr)" by (metis prod_cases3)
    have "s' = s \<lparr> nb_flags := (nb_flags s) (f := flags), nb_lru := lr \<rparr>"
      using iso True del by (simp add: isolate_folio_def Let_def split: if_splits)
    moreover have "lr = list_del f (lru_gen_update_size (be_facts e f)
        (parp_lru_gen_from_flags ?l (tu_isolate_del ?t ?fl)) (- 1) (nb_lru s))"
      using del w assms(4) unfolding lru_gen_del_folio_def gen_valid_def by (simp add: Let_def split: if_splits)
    ultimately show thesis using taken True x unfolding gen_valid_def by blast
  qed
qed

lemma taken_ok:
  assumes "layout_ok (be_layout e)" "turns_ok e"
    and ok: "batch_ok e folios pages t z s" and f: "f \<in> listed (nb_lru s)"
    and at: "t = ff_type (be_facts e f)" "z = ff_zone (be_facts e f)"
    and iso: "isolate_folio e k f s = (isolated, s1)"
  shows "batch_ok e folios pages t z (take_folio e f isolated s1)"
proof -
  note new = taken_listed [OF ok f]
  have valid: "gen_valid (be_layout e) (nb_flags s f)" using new(1) by (simp add: folio_ok_def)
  show ?thesis
  proof (rule isolate_cases [OF assms(1,2) valid new(2) iso])
    fix flags assume kept: "\<not> isolated" "gen_valid (be_layout e) flags"
      "s1 = s \<lparr> nb_flags := (nb_flags s) (f := flags) \<rparr>"
    show ?thesis by (rule set_aside_ok [OF ok f at kept(2)]) (simp_all add: kept(1,3) take_folio_def)
  next
    fix gen flags assume taken: "isolated" "0 \<le> gen" "gen < 4"
      "s1 = s \<lparr> nb_flags := (nb_flags s) (f := flags),
        nb_lru := list_del f (lru_gen_update_size (be_facts e f) gen (- 1) (nb_lru s)) \<rparr>"
    show ?thesis by (rule isolated_ok [OF ok f taken(2,3)]) (simp_all add: taken(1,4) take_folio_def)
  qed
qed

section \<open>One turn\<close>

lemma batch_ok_same:
  assumes "nb_lru s' = nb_lru s" "nb_flags s' = nb_flags s" "nb_list s' = nb_list s" "nb_moved s' = nb_moved s"
    "nb_isolated s' = nb_isolated s" "nb_skipped_zone s' = nb_skipped_zone s"
  shows "batch_ok e folios pages t z s' \<longleftrightarrow> batch_ok e folios pages t z s"
  by (simp add: batch_ok_def lists_ok_def folio_ok_def everything_def assms)

lemma batch_ok_native:
  "batch_ok e folios pages t z (batch_native s) \<longleftrightarrow> batch_ok e folios pages t z s"
  by (rule batch_ok_same) (simp_all add: batch_native_def)

lemma batch_ok_hooks:
  assumes "batch_native s' = batch_native s"
  shows "batch_ok e folios pages t z s' \<longleftrightarrow> batch_ok e folios pages t z s"
  using batch_ok_native [of e folios pages t z s'] batch_ok_native [of e folios pages t z s]
  by (simp add: assms)

lemma sort_turn_ok:
  assumes "layout_ok (be_layout e)" "turns_ok e"
    and ok: "batch_ok e folios pages t z s" and f: "f \<in> listed (nb_lru s)"
    and ev: "ff_evictable (be_facts e f)"
    and sort: "sort_folio (turn_sort e k f) (tier_enter f s) = (r, so, d)"
  shows "batch_ok e folios pages t z (native_leave f so s)"
    and "lg_unevictable (nb_lru (native_leave f so s)) = lg_unevictable (nb_lru s)"
    and "\<not> r \<Longrightarrow> nb_lru (native_leave f so s) = nb_lru s"
proof -
  let ?te = "turn_sort e k f" and ?gen = "parp_lru_gen_from_flags (be_layout e) (nt_flags so)"
  note new = taken_listed [OF ok f]
  have "sorted_ok ?te (tier_enter f s) r so"
    by (rule sort_folio_accounts [OF _ _ _ _ sort])
      (use assms(1,2) new(1) ev in \<open>simp_all add: turns_ok_def turn_sort_def tier_enter_def folio_ok_def\<close>)
  then have so: "gen_valid (be_layout e) (nt_flags so)" "lists_kept (be_facts e f) (nb_lru s) (nt_lru so)"
    "r \<Longrightarrow> listed_at (be_facts e f) ?gen (nt_lru so)" "\<not> r \<Longrightarrow> nt_lru so = nb_lru s"
    by (auto simp: sorted_ok_def Let_def turn_sort_def tier_enter_def split: if_splits)
  show "\<not> r \<Longrightarrow> nb_lru (native_leave f so s) = nb_lru s" using so(4) by (simp add: native_leave_def)
  show "lg_unevictable (nb_lru (native_leave f so s)) = lg_unevictable (nb_lru s)"
    using so(2) by (simp add: native_leave_def lists_kept_def)
  obtain g where g: "0 \<le> g" "g < 4" "listed_at (be_facts e f) g (nb_lru s)"
    using f batch_okD(1) [OF ok] unfolding listed_def lists_ok_def by blast
  obtain gen where gen: "0 \<le> gen" "gen < 4" "listed_at (be_facts e f) gen (nt_lru so)"
    using so g by (cases r) (auto simp: gen_valid_def)
  show "batch_ok e folios pages t z (native_leave f so s)"
    by (rule sorted_lists [OF ok f so(2) gen(3) so(1) gen(1,2)]) (simp_all add: native_leave_def)
qed

text \<open>The native part of a turn: the folio is sorted, or it is left to be isolated.\<close>

lemma turn_cases:
  obtains (sorted) s1 so d where "batch_native s1 = (batch_native s) \<lparr> nb_scanned := nb_scanned s + pages_int e f \<rparr>"
      "sort_folio (turn_sort e k f) (tier_enter f s1) = (True, so, d)"
      "\<exists>n. batch_native (scan_turn e gen k f s) = (batch_native (native_leave f so s1)) \<lparr> nb_sorted := n \<rparr>"
    | (left) s1 so d isolated s3 where
      "batch_native s1 = (batch_native s) \<lparr> nb_scanned := nb_scanned s + pages_int e f \<rparr>"
      "sort_folio (turn_sort e k f) (tier_enter f s1) = (False, so, d)"
      "isolate_folio e k f (batch_native (native_leave f so s1)) = (isolated, s3)"
      "batch_native (scan_turn e gen k f s) = take_folio e f isolated s3"
proof -
  define s1 where "s1 = adapter_turn e k gen (tier_ctx_update
    (\<lambda>c. c \<lparr> s_batch_scanned_pages := s_batch_scanned_pages c + ff_pages (be_facts e f) \<rparr>)
    (s \<lparr> nb_scanned := nb_scanned s + pages_int e f \<rparr>))"
  have n1: "batch_native s1 = (batch_native s) \<lparr> nb_scanned := nb_scanned s + pages_int e f \<rparr>"
    by (simp add: s1_def batch_native_steps)
  obtain r so d where sort: "sort_folio (turn_sort e k f) (tier_enter f s1) = (r, so, d)" by (metis prod_cases3)
  define s2 where "s2 = set_world f (so_tier so) (native_leave f so s1)"
  have n2: "batch_native s2 = batch_native (native_leave f so s1)" by (simp add: s2_def)
  obtain isolated s3 where s3: "isolate_folio e k f (frontier_turn e k f s2) = (isolated, s3)" by fastforce
  let ?fin = "\<lambda>x. tier_finish (be_turn e k) f d False x s3"
  have step: "scan_turn e gen k f s =
      (if r then tier_finish (be_turn e k) f d True False (s2 \<lparr> nb_sorted := nb_sorted s2 + pages_int e f \<rparr>)
       else if isolated then tier_ctx_update (\<lambda>c. c \<lparr> s_batch_isolated_pages :=
         s_batch_isolated_pages c + ff_pages (be_facts e f) \<rparr>) (take_folio e f isolated (?fin isolated))
       else take_folio e f isolated (?fin isolated))"
    unfolding scan_turn_def Let_def s1_def [symmetric] sort prod.case s2_def [symmetric] s3 ..
  show thesis
  proof (cases r)
    case True
    then have "batch_native (scan_turn e gen k f s) =
        (batch_native (native_leave f so s1)) \<lparr> nb_sorted := nb_sorted s2 + pages_int e f \<rparr>"
      by (simp add: step batch_native_steps(2) n2)
    moreover have "sort_folio (turn_sort e k f) (tier_enter f s1) = (True, so, d)" using sort True by simp
    ultimately show thesis using sorted [OF n1] by blast
  next
    case False
    have "isolate_folio e k f (batch_native (frontier_turn e k f s2)) = (isolated, batch_native s3)"
      unfolding batch_native_steps(9) by (simp add: s3)
    then have iso: "isolate_folio e k f (batch_native (native_leave f so s1)) = (isolated, batch_native s3)"
      by (simp add: n2)
    have "batch_native (scan_turn e gen k f s) = take_folio e f isolated (batch_native s3)"
      using False by (cases isolated) (simp_all add: step batch_native_steps(6))
    moreover have "sort_folio (turn_sort e k f) (tier_enter f s1) = (False, so, d)" using sort False by simp
    ultimately show thesis using left [OF n1 _ iso] by blast
  qed
qed

lemma scanned_start:
  assumes "batch_native s1 = (batch_native s) \<lparr> nb_scanned := n \<rparr>"
  shows "batch_ok e folios pages t z s1 \<longleftrightarrow> batch_ok e folios pages t z s" "nb_lru s1 = nb_lru s"
    "nb_list s1 = nb_list s" "nb_flags s1 = nb_flags s" "nb_moved s1 = nb_moved s"
    "nb_isolated s1 = nb_isolated s" "nb_skipped_zone s1 = nb_skipped_zone s"
proof -
  show eqs: "nb_lru s1 = nb_lru s" "nb_list s1 = nb_list s" "nb_flags s1 = nb_flags s" "nb_moved s1 = nb_moved s"
    "nb_isolated s1 = nb_isolated s" "nb_skipped_zone s1 = nb_skipped_zone s"
    using assms by (simp_all add: batch_native_def)
  show "batch_ok e folios pages t z s1 \<longleftrightarrow> batch_ok e folios pages t z s" by (rule batch_ok_same) (rule eqs)+
qed

lemma isolate_unevictable:
  assumes "isolate_folio e k f s = (isolated, s')"
  shows "lg_unevictable (nb_lru s') = lg_unevictable (nb_lru s)" "nb_list s' = nb_list s"
  using assms
  by (auto simp: isolate_folio_def lru_gen_del_folio_def list_del_def lru_gen_update_size_def update_lru_size_def
      add_nr_pages_def Let_def split: if_splits prod.splits)

lemma take_unevictable:
  "lg_unevictable (nb_lru (take_folio e f b s)) = lg_unevictable (nb_lru s)"
  "nb_list (take_folio e f b s) = (if b then f # nb_list s else nb_list s)"
  by (simp_all add: take_folio_def list_del_def)

lemma turn_ok:
  assumes "layout_ok (be_layout e)" "turns_ok e"
    and ok: "batch_ok e folios pages t z s" and f: "f \<in> listed (nb_lru s)"
    and at: "t = ff_type (be_facts e f)" "z = ff_zone (be_facts e f)" and ev: "ff_evictable (be_facts e f)"
  shows "batch_ok e folios pages t z (scan_turn e gen k f s)"
    and "lg_unevictable (nb_lru (scan_turn e gen k f s)) = lg_unevictable (nb_lru s)"
    and "set (nb_list (scan_turn e gen k f s)) \<subseteq> insert f (set (nb_list s))"
proof -
  let ?s' = "scan_turn e gen k f s"
  have "batch_ok e folios pages t z (batch_native ?s') \<and> lg_unevictable (nb_lru (batch_native ?s')) = lg_unevictable (nb_lru s) \<and>
    set (nb_list (batch_native ?s')) \<subseteq> insert f (set (nb_list s))"
  proof (cases rule: turn_cases [of s e f k gen])
    case (sorted s1 so d)
    note start = scanned_start [OF sorted(1)]
    have f1: "f \<in> listed (nb_lru s1)" by (simp add: start f)
    note sort = sort_turn_ok [OF assms(1,2) start(1) [THEN iffD2, OF ok] f1 ev sorted(2)]
    have "batch_ok e folios pages t z ((batch_native (native_leave f so s1)) \<lparr> nb_sorted := n \<rparr>)" for n
      using sort(1) batch_ok_same [of "(batch_native (native_leave f so s1)) \<lparr> nb_sorted := n \<rparr>"
          "batch_native (native_leave f so s1)"]
      by (simp add: batch_ok_native)
    moreover have "nb_list (batch_native (native_leave f so s1)) = nb_list s"
      by (simp add: batch_native_def native_leave_def start)
    moreover obtain n where n: "batch_native ?s' = (batch_native (native_leave f so s1)) \<lparr> nb_sorted := n \<rparr>"
      using sorted(3) by blast
    ultimately show ?thesis unfolding n using sort(2) start(2) by auto
  next
    case (left s1 so d isolated s3)
    note start = scanned_start [OF left(1)]
    have f1: "f \<in> listed (nb_lru s1)" by (simp add: start f)
    note sort = sort_turn_ok [OF assms(1,2) start(1) [THEN iffD2, OF ok] f1 ev left(2)]
    let ?n = "batch_native (native_leave f so s1)"
    have lru: "nb_lru ?n = nb_lru s" using sort(3) start(2) by simp
    have list: "nb_list ?n = nb_list s" by (simp add: batch_native_def native_leave_def start)
    have "batch_ok e folios pages t z (take_folio e f isolated s3)"
    proof (rule taken_ok [OF assms(1,2) _ _ at left(3)])
      show "batch_ok e folios pages t z ?n" using sort(1) by (simp add: batch_ok_native)
      show "f \<in> listed (nb_lru ?n)" using f lru by simp
    qed
    then show ?thesis
      using isolate_unevictable [OF left(3)] sort(2) start(2) by (auto simp: left(4) take_unevictable list)
  qed
  moreover have "nb_list (batch_native ?s') = nb_list ?s'" by (simp add: batch_native_def)
  ultimately show "batch_ok e folios pages t z ?s'" "lg_unevictable (nb_lru ?s') = lg_unevictable (nb_lru s)"
    "set (nb_list ?s') \<subseteq> insert f (set (nb_list s))"
    by (simp_all add: batch_ok_native)
qed

section \<open>An unevictable folio\<close>

text \<open>
  \<open>sort_folio\<close> takes a folio that became unevictable off the generation lists; the unevictable list is a
  size. The folios culled so far and what they did to that size are \<open>culled_ok\<close>, relative to the lruvec at
  the start of the batch.
\<close>

definition culled_ok ::
  "batch_env \<Rightarrow> lru_gen_folio \<Rightarrow> nat list \<Rightarrow> 's native_batch_scheme \<Rightarrow> bool" where
  "culled_ok e lr0 culled s \<longleftrightarrow> distinct culled \<and> set culled \<subseteq> listed lr0 \<and>
     (\<forall>x \<in> set culled. \<not> ff_evictable (be_facts e x)) \<and>
     (\<forall>x \<in> set (nb_list s). ff_evictable (be_facts e x)) \<and>
     (\<forall>z. lg_unevictable (nb_lru s) z = lg_unevictable lr0 z + pages_at e True z culled + pages_at e False z culled)"

abbreviation left_folios :: "lru_gen_folio \<Rightarrow> nat list \<Rightarrow> nat set" where
  "left_folios lr0 culled \<equiv> listed lr0 - set culled"

abbreviation left_pages :: "batch_env \<Rightarrow> lru_gen_folio \<Rightarrow> nat list \<Rightarrow> bool \<Rightarrow> nat \<Rightarrow> int" where
  "left_pages e lr0 culled \<equiv> (\<lambda>t z. pages_of lr0 t z - pages_at e t z culled)"

definition accounted :: "batch_env \<Rightarrow> lru_gen_folio \<Rightarrow> bool \<Rightarrow> nat \<Rightarrow> 's native_batch_scheme \<Rightarrow> bool" where
  "accounted e lr0 t z s \<longleftrightarrow> (\<exists>culled. culled_ok e lr0 culled s \<and>
     batch_ok e (left_folios lr0 culled) (left_pages e lr0 culled) t z s)"

lemma culled_step:
  assumes ok: "batch_ok e folios pages t z s" and f: "f \<in> listed (nb_lru s)" and gen: "0 \<le> gen" "gen < 4"
    and s': "nb_lru s' = (list_del f (lru_gen_update_size (be_facts e f) gen (- 1) (nb_lru s))) \<lparr> lg_unevictable := u \<rparr>"
      "\<And>x. x \<noteq> f \<Longrightarrow> nb_flags s' x = nb_flags s x" "nb_list s' = nb_list s" "nb_moved s' = nb_moved s"
      "nb_isolated s' = nb_isolated s" "nb_skipped_zone s' = nb_skipped_zone s"
  shows "batch_ok e (folios - {f}) (\<lambda>t z. pages t z - pages_at e t z [f]) t z s'"
proof -
  note old = batch_okD [OF ok] and new = taken_listed [OF ok f]
  have "lg_folios (nb_lru s') g t z = removeAll f (lg_folios (nb_lru s) g t z)" for g t z
    by (simp add: s' del_lists)
  note rem = removed_lists [OF old(1) new(2) this refl]
  have lo: "lists_ok e s'" by (rule rem(1)) (rule s'(2))
  have li: "listed (nb_lru s') = listed (nb_lru s) - {f}" by (rule rem(2)) (rule s'(2))
  have fo: "folio_ok e s' x" if "folio_ok e s x" "x \<noteq> f" for x
    using that by (simp add: s'(2) folio_ok_def)
  have every: "everything s' = folios - {f}"
    using old(2) f new(3,4) unfolding everything_def li s'(3,4) by auto
  have drop: "pages_of (r \<lparr> lg_unevictable := u \<rparr>) t z = pages_of r t z" for r t z by (simp add: pages_of_def)
  have pages: "pages_of (nb_lru s') t z + pages_at e t z (nb_list s') = pages t z - pages_at e t z [f]" for t z
    using old(10) [of t z]
    by (simp add: s' drop del_pages [OF gen] pages_at_Cons pages_int_def) (simp add: pages_at_def pages_in_def)
  have disj: "set (nb_list s') \<inter> set (nb_moved s') = {}"
    "listed (nb_lru s') \<inter> (set (nb_list s') \<union> set (nb_moved s')) = {}"
    using old(5,6) unfolding li s'(3,4) by auto
  have moved: "\<forall>x \<in> set (nb_moved s'). t = ff_type (be_facts e x) \<and> z = ff_zone (be_facts e x) \<and> folio_ok e s' x"
    using old(7) fo new(4) unfolding s'(3,4) by auto
  have "distinct (nb_list s')" "distinct (nb_moved s')"
    "nb_isolated s' = pages_in e (nb_list s')" "nb_skipped_zone s' = pages_in e (nb_moved s')"
    using old(3,4,8,9) by (simp_all add: s')
  then show ?thesis using lo every disj moved pages unfolding batch_ok_def by blast
qed

lemma unevictable_turn:
  assumes "layout_ok (be_layout e)" "turns_ok e"
    and fo: "folio_ok e s f" and ev: "\<not> ff_evictable (be_facts e f)"
    and sort: "sort_folio (turn_sort e k f) (tier_enter f s) = (r, so, d)"
  obtains gen flags where "r" "0 \<le> gen" "gen < 4" "nt_flags so = flags"
    "nt_lru so = (list_del f (lru_gen_update_size (be_facts e f) gen (- 1) (nb_lru s)))
       \<lparr> lg_unevictable := (lg_unevictable (nb_lru s)) (ff_zone (be_facts e f) :=
           lg_unevictable (nb_lru s) (ff_zone (be_facts e f)) + pages_int e f) \<rparr>"
proof -
  let ?l = "be_layout e" and ?te = "turn_sort e k f"
  have id: "ff_id (be_facts e f) = f" and valid: "gen_valid ?l (nb_flags s f)" using fo by (simp_all add: folio_ok_def)
  let ?flags = "se_look ?te 0 (nb_flags s f)"
  have "others_ok ?te" using assms(2) by (simp add: turns_ok_def)
  then have valid': "gen_valid ?l ?flags" using valid unfolding others_ok_def by (simp add: turn_sort_def)
  let ?gen = "parp_lru_gen_from_flags ?l ?flags"
  have same: "lg_unevictable (list_del f (lru_gen_update_size (be_facts e f) ?gen (- 1) (nb_lru s))) =
      lg_unevictable (nb_lru s)"
    by (simp add: list_del_def lru_gen_update_size_def update_lru_size_def add_nr_pages_def Let_def)
  have te: "se_layout ?te = ?l" "se_folio ?te = be_facts e f" by (simp_all add: turn_sort_def)
  have so: "r" "so = make_unevictable ?te (tier_enter f s)"
    using sort ev by (simp_all add: sort_folio_def te Let_def)
  have "\<not> parp_lru_gen_from_flags ?l (nb_flags s f) < 0" using valid by (simp add: gen_valid_def)
  then have "nt_lru so = (list_del f (lru_gen_update_size (be_facts e f) ?gen (- 1) (nb_lru s)))
       \<lparr> lg_unevictable := (lg_unevictable (nb_lru s)) (ff_zone (be_facts e f) :=
           lg_unevictable (nb_lru s) (ff_zone (be_facts e f)) + pages_int e f) \<rparr>"
    unfolding so(2) make_unevictable_def lru_gen_del_folio_def lru_add_unevictable_def Let_def
    by (simp add: te id tier_enter_def same pages_int_def)
  then show thesis using that so(1) valid' unfolding gen_valid_def by blast
qed

lemma turn_accounted:
  assumes "layout_ok (be_layout e)" "turns_ok e" and ok: "accounted e lr0 t z s" and f: "f \<in> listed (nb_lru s)"
    and at: "t = ff_type (be_facts e f)" "z = ff_zone (be_facts e f)"
  shows "accounted e lr0 t z (scan_turn e gen k f s)"
proof -
  let ?s' = "scan_turn e gen k f s"
  obtain culled where c: "culled_ok e lr0 culled s"
    and b: "batch_ok e (left_folios lr0 culled) (left_pages e lr0 culled) t z s"
    using ok by (auto simp: accounted_def)
  note new = taken_listed [OF b f]
  show ?thesis
  proof (cases "ff_evictable (be_facts e f)")
    case True
    note turn = turn_ok [OF assms(1,2) b f at True, of gen k]
    have "culled_ok e lr0 culled ?s'" using c turn(2,3) True unfolding culled_ok_def by auto
    then show ?thesis using turn(1) unfolding accounted_def by blast
  next
    case False
    show ?thesis
    proof (cases rule: turn_cases [of s e f k gen])
      case (left s1 so d isolated s3)
      have "folio_ok e s1 f" using new(1) scanned_start [OF left(1)] by (simp add: folio_ok_def)
      then show ?thesis using unevictable_turn [OF assms(1,2) _ False left(2)] by blast
    next
      case (sorted s1 so d)
      note start = scanned_start [OF sorted(1)]
      have "folio_ok e s1 f" using new(1) start by (simp add: folio_ok_def)
      from unevictable_turn [OF assms(1,2) this False sorted(2)]
      obtain gen1 flags where so: "0 \<le> gen1" "gen1 < 4"
        "nt_lru so = (list_del f (lru_gen_update_size (be_facts e f) gen1 (- 1) (nb_lru s1)))
          \<lparr> lg_unevictable := (lg_unevictable (nb_lru s1)) (ff_zone (be_facts e f) :=
              lg_unevictable (nb_lru s1) (ff_zone (be_facts e f)) + pages_int e f) \<rparr>"
        by blast
      obtain n where n: "batch_native ?s' = (batch_native (native_leave f so s1)) \<lparr> nb_sorted := n \<rparr>"
        using sorted(3) by blast
      have s': "nb_lru ?s' = nt_lru so" "nb_flags ?s' = (nb_flags s) (f := nt_flags so)" "nb_list ?s' = nb_list s"
        "nb_moved ?s' = nb_moved s" "nb_isolated ?s' = nb_isolated s" "nb_skipped_zone ?s' = nb_skipped_zone s"
        using n start by (simp_all add: batch_native_def native_leave_def)
      have "batch_ok e (left_folios lr0 culled - {f})
          (\<lambda>t z. left_pages e lr0 culled t z - pages_at e t z [f]) t z ?s'"
        by (rule culled_step [OF b f so(1,2)]) (simp_all add: s' so(3) start)
      moreover have "left_folios lr0 culled - {f} = left_folios lr0 (f # culled)" by auto
      moreover have "(\<lambda>t z. left_pages e lr0 culled t z - pages_at e t z [f]) = left_pages e lr0 (f # culled)"
        by (simp add: fun_eq_iff pages_at_def pages_in_def)
      ultimately have "batch_ok e (left_folios lr0 (f # culled)) (left_pages e lr0 (f # culled)) t z ?s'" by simp
      moreover have "culled_ok e lr0 (f # culled) ?s'"
      proof -
        have "f \<in> left_folios lr0 culled" using f batch_okD(2) [OF b] by blast
        then have "distinct (f # culled)" "set (f # culled) \<subseteq> listed lr0"
          using c by (auto simp: culled_ok_def)
        moreover have "lg_unevictable (nb_lru ?s') z = lg_unevictable lr0 z + pages_at e True z (f # culled) +
            pages_at e False z (f # culled)" for z
          using c by (cases "ff_type (be_facts e f)") (auto simp: culled_ok_def s' so(3) start pages_at_Cons)
        ultimately show ?thesis using c False unfolding culled_ok_def s'(3) by auto
      qed
      ultimately show ?thesis unfolding accounted_def by blast
    qed
  qed
qed

section \<open>The loops\<close>

lemma zone_ok:
  assumes "layout_ok (be_layout e)" "turns_ok e" and "accounted e lr0 t z s"
  shows "accounted e lr0 t z (snd (scan_zone (scan_turn e gen') gen t z n s))"
proof (rule scan_zone_inv [where P = "accounted e lr0 t z"])
  fix k and s :: batch_state
  assume ok: "accounted e lr0 t z s" and "lg_folios (nb_lru s) gen t z \<noteq> []"
  then have f: "last (lg_folios (nb_lru s) gen t z) \<in> set (lg_folios (nb_lru s) gen t z)" by simp
  then have "last (lg_folios (nb_lru s) gen t z) \<in> listed (nb_lru s)" unfolding listed_def by blast
  moreover have "lists_ok e s" using ok by (auto simp: accounted_def batch_ok_def)
  ultimately show "accounted e lr0 t z (scan_turn e gen' k (last (lg_folios (nb_lru s) gen t z)) s)"
    using f unfolding lists_ok_def by (intro turn_accounted [OF assms(1,2) ok]) blast+
qed (rule assms(3))

lemma pages_nonneg: "0 \<le> pages_in e xs"
  by (induction xs) (simp_all add: pages_in_def pages_int_def)

lemma moved_pages:
  assumes "batch_ok e folios pages t z s" and "nb_skipped_zone s = 0"
  shows "nb_moved s = []"
proof (cases "nb_moved s")
  case (Cons f xs)
  then have "ff_pages (be_facts e f) \<noteq> 0"
    using batch_okD(7) [OF assms(1), of f] by (simp add: folio_ok_def)
  then have "0 < pages_int e f" by (simp add: pages_int_def word_neq_0_conv word_less_def)
  moreover have "pages_int e f + pages_in e xs = 0"
    using batch_okD(9) [OF assms(1)] assms(2) Cons by (simp add: pages_in_def)
  ultimately show ?thesis using pages_nonneg [of e xs] by linarith
qed

lemma count_distinct: "distinct xs \<Longrightarrow> x \<in> set xs \<Longrightarrow> count_list xs x = 1"
  by (induction xs) (auto simp: count_list_0_iff)

text \<open>Between two zones nothing is set aside.\<close>

definition batch_rest ::
  "batch_env \<Rightarrow> nat set \<Rightarrow> (bool \<Rightarrow> nat \<Rightarrow> int) \<Rightarrow> 's native_batch_scheme \<Rightarrow> bool" where
  "batch_rest e folios pages s \<longleftrightarrow> nb_moved s = [] \<and> lists_ok e s \<and>
     listed (nb_lru s) \<union> set (nb_list s) = folios \<and> distinct (nb_list s) \<and>
     listed (nb_lru s) \<inter> set (nb_list s) = {} \<and> nb_isolated s = pages_in e (nb_list s) \<and>
     (\<forall>t z. pages_of (nb_lru s) t z + pages_at e t z (nb_list s) = pages t z)"

lemma rest_start:
  assumes "batch_rest e folios pages s"
  shows "batch_ok e folios pages t z (s \<lparr> nb_moved := [], nb_skipped_zone := 0 \<rparr>)"
  using assms
  by (simp add: batch_rest_def batch_ok_def lists_ok_def folio_ok_def everything_def pages_in_def)

lemma rest_end:
  assumes "batch_ok e folios pages t z s" and "nb_moved s = []"
  shows "batch_rest e folios pages s"
  using assms by (simp add: batch_rest_def batch_ok_def everything_def)

lemma spliced_ok:
  assumes ok: "batch_ok e folios pages t z s" and gen: "0 \<le> gen" "gen < 4"
  shows "batch_rest e folios pages (splice_moved gen t z s)"
proof (cases "nb_skipped_zone s = 0")
  case True
  then show ?thesis using rest_end [OF ok moved_pages [OF ok True]] by (simp add: splice_moved_def)
next
  case False
  define s' where "s' = splice_moved gen t z s"
  note old = batch_okD [OF ok]
  have lists: "lg_folios (nb_lru s') g t' z' =
      (if g = gen \<and> t' = t \<and> z' = z then nb_moved s else []) @ lg_folios (nb_lru s) g t' z'" for g t' z'
    using False by (simp add: s'_def splice_moved_def)
  have s': "nb_moved s' = []" "nb_list s' = nb_list s" "nb_flags s' = nb_flags s" "nb_isolated s' = nb_isolated s"
    "pages_of (nb_lru s') = pages_of (nb_lru s)"
    using False by (simp_all add: s'_def splice_moved_def pages_of_def fun_eq_iff)
  have fo: "folio_ok e s' x = folio_ok e s x" for x by (simp add: folio_ok_def s')
  have lo: "lists_ok e s'"
    unfolding lists_ok_def
  proof (intro allI impI)
    fix g t' z' x assume x: "x \<in> set (lg_folios (nb_lru s') g t' z')"
    show "0 \<le> g \<and> g < 4 \<and> t' = ff_type (be_facts e x) \<and> z' = ff_zone (be_facts e x) \<and> folio_ok e s' x \<and>
        listed_at (be_facts e x) g (nb_lru s')"
    proof (cases "x \<in> set (nb_moved s)")
      case True
      then have "x \<notin> listed (nb_lru s)" using old(6) by blast
      then have out: "count_list (lg_folios (nb_lru s) g t z) x = 0" for g t z
        unfolding count_list_0_iff listed_def by blast
      then have at: "g = gen \<and> t' = t \<and> z' = z" using x by (auto simp: lists count_list_0_iff split: if_splits)
      have "count_list (nb_moved s) x = 1" by (rule count_distinct [OF old(4) True])
      then show ?thesis
        using at gen old(7) [OF True] out s'(3)
        by (simp add: listed_at_def lists folio_ok_def)
    next
      case False
      then have "x \<in> set (lg_folios (nb_lru s) g t' z')" using x by (auto simp: lists split: if_splits)
      then have o: "0 \<le> g \<and> g < 4 \<and> t' = ff_type (be_facts e x) \<and> z' = ff_zone (be_facts e x) \<and> folio_ok e s x \<and>
          listed_at (be_facts e x) g (nb_lru s)"
        using old(1) unfolding lists_ok_def by blast
      have "count_list (nb_moved s) x = 0" using False by (simp add: count_list_0_iff)
      then have same: "count_list (lg_folios (nb_lru s') g t z) x = count_list (lg_folios (nb_lru s) g t z) x" for g t z
        by (simp add: lists)
      have "ff_id (be_facts e x) = x" using o by (simp add: folio_ok_def)
      then have "listed_at (be_facts e x) g (nb_lru s')"
        using o unfolding listed_at_def \<open>ff_id (be_facts e x) = x\<close> same by blast
      then show ?thesis using o fo by blast
    qed
  qed
  have li: "listed (nb_lru s') = listed (nb_lru s) \<union> set (nb_moved s)"
  proof (rule set_eqI)
    fix x
    have "\<exists>g t z. x \<in> set (lg_folios (nb_lru s') g t z)" if "x \<in> set (nb_moved s)"
      using that by (intro exI [of _ gen] exI [of _ t] exI [of _ z]) (simp add: lists)
    then show "x \<in> listed (nb_lru s') \<longleftrightarrow> x \<in> listed (nb_lru s) \<union> set (nb_moved s)"
      by (auto simp: listed_def lists split: if_splits)
  qed
  have "listed (nb_lru s') \<union> set (nb_list s') = folios" "listed (nb_lru s') \<inter> set (nb_list s') = {}"
    using old(2,5,6) unfolding li s'(2) by blast+
  then show ?thesis
    using lo old(3,8,10) unfolding s'_def [symmetric] batch_rest_def s' by blast
qed

definition rest_accounted :: "batch_env \<Rightarrow> lru_gen_folio \<Rightarrow> 's native_batch_scheme \<Rightarrow> bool" where
  "rest_accounted e lr0 s \<longleftrightarrow> (\<exists>culled. culled_ok e lr0 culled s \<and>
     batch_rest e (left_folios lr0 culled) (left_pages e lr0 culled) s)"

lemma zone_rest:
  assumes "layout_ok (be_layout e)" "turns_ok e" and gen: "0 \<le> gen" "gen < 4" and ok: "rest_accounted e lr0 s"
  shows "rest_accounted e lr0 (splice_moved gen t z (snd (scan_zone (scan_turn e gen') gen t z n
    (s \<lparr> nb_moved := [], nb_skipped_zone := 0 \<rparr>))))"
proof -
  let ?s0 = "s \<lparr> nb_moved := [], nb_skipped_zone := 0 \<rparr>"
  have "culled_ok e lr0 culled ?s0" if "culled_ok e lr0 culled s" for culled using that by (simp add: culled_ok_def)
  then have "accounted e lr0 t z ?s0"
    using ok rest_start unfolding rest_accounted_def accounted_def by blast
  from zone_ok [OF assms(1,2) this, of gen' gen n]
  obtain s1 culled where s1: "s1 = snd (scan_zone (scan_turn e gen') gen t z n ?s0)"
    and c: "culled_ok e lr0 culled s1" and b: "batch_ok e (left_folios lr0 culled) (left_pages e lr0 culled) t z s1"
    unfolding accounted_def by blast
  have "culled_ok e lr0 culled (splice_moved gen t z s1)" using c by (simp add: culled_ok_def splice_moved_def)
  then show ?thesis using spliced_ok [OF b gen] unfolding rest_accounted_def s1 by blast
qed

lemma zones_ok:
  assumes "layout_ok (be_layout e)" "turns_ok e" and gen: "0 \<le> gen" "gen < 4"
  shows "rest_accounted e lr0 s \<Longrightarrow> rest_accounted e lr0 (snd (scan_zones (scan_turn e gen') gen t zones n s))"
proof (induction zones arbitrary: n s)
  case (Cons zone zones)
  let ?z = "scan_zone (scan_turn e gen') gen t zone n (s \<lparr> nb_moved := [], nb_skipped_zone := 0 \<rparr>)"
  have "rest_accounted e lr0 (splice_moved gen t zone (snd ?z))"
    by (rule zone_rest [OF assms Cons.prems])
  then show ?case using Cons.IH by (cases ?z) (auto simp: Let_def)
qed simp

lemma rest_same:
  assumes "nb_lru s' = nb_lru s" "nb_list s' = nb_list s" "nb_moved s' = nb_moved s" "nb_isolated s' = nb_isolated s"
    "nb_flags s' = nb_flags s"
  shows "rest_accounted e lr0 s' \<longleftrightarrow> rest_accounted e lr0 s"
  by (simp add: rest_accounted_def culled_ok_def batch_rest_def lists_ok_def folio_ok_def assms)

text \<open>The state of a batch that nothing has been taken for.\<close>

lemma rest_boot:
  assumes "lists_ok e s" and "nb_list s = []" "nb_moved s = []"
  shows "rest_accounted e (nb_lru s) (scan_start (scan_open e s))"
proof -
  let ?s = "scan_start (scan_open e s)"
  have nat: "batch_native ?s = scan_start (batch_native s)" by (simp add: batch_native_steps)
  have same: "nb_lru ?s = nb_lru s" "nb_list ?s = nb_list s" "nb_moved ?s = nb_moved s" "nb_isolated ?s = 0"
    "nb_flags ?s = nb_flags s"
    using arg_cong [OF nat, of nb_lru] arg_cong [OF nat, of nb_list] arg_cong [OF nat, of nb_moved]
      arg_cong [OF nat, of nb_flags]
    by (simp_all add: batch_native_def scan_start_def)
  have "culled_ok e (nb_lru s) [] ?s" by (simp add: culled_ok_def same assms(2) pages_at_def pages_in_def)
  moreover have "batch_rest e (left_folios (nb_lru s) []) (left_pages e (nb_lru s) []) ?s"
    using assms by (simp add: batch_rest_def lists_ok_def folio_ok_def pages_in_def pages_at_def same)
  ultimately show ?thesis unfolding rest_accounted_def by blast
qed

lemma rest_close: "rest_accounted e lr0 (scan_close e' s) \<longleftrightarrow> rest_accounted e lr0 s"
  by (rule rest_same) (simp_all add: scan_close_def Let_def split_beta)

lemma scan_folios_rest:
  assumes "layout_ok (be_layout e)" "turns_ok e" and "lists_ok e s" "nb_list s = []" "nb_moved s = []"
    and "get_nr_gens (nb_lru s) (be_type e) \<noteq> MIN_NR_GENS"
  shows "rest_accounted e (nb_lru s) (snd (scan_folios e nr_to_scan s))"
proof -
  let ?gen = "oldest_gen (be_type e) (nb_lru s)" and ?open = "scan_open e s"
  have "0 \<le> oldest_gen t lr" "oldest_gen t lr < 4" for t lr
    by (simp_all add: oldest_gen_def gen_of_seq_def)
  note z = zones_ok [OF assms(1,2) this rest_boot [OF assms(3-5)]]
  have taken: "rest_accounted e lr0 (s' \<lparr> nb_file_taken := n \<rparr>) = rest_accounted e lr0 s'" for lr0 n and s' :: batch_state
    by (rule rest_same) simp_all
  have "rest_accounted e (nb_lru s) (snd (scan_loop (scan_turn e ?gen) e nr_to_scan ?open))"
    using z unfolding scan_loop_def Let_def split_beta snd_conv
    by (cases "be_type e") (simp_all only: taken if_True if_False)
  then show ?thesis
    using rest_close assms(6) by (simp add: scan_folios_def Let_def split_beta)
qed

text \<open>C1. A whole batch with every hook in it loses no folio and no page, whatever the policies decide and
  whatever other CPUs do to the flags meanwhile. There are the folios that \<open>sort_folio\<close> culled because
  they had become unevictable; afterwards every folio that was on the generation lists is on exactly one of
  them, that of its type and zone, or isolated, or culled, never two of these and never twice. Only
  evictable folios are isolated, only unevictable ones are culled, and nothing stays set aside. Per type and
  zone the pages counted on the lists, the isolated and the culled pages add up to what was counted before;
  the size of the unevictable list of each zone grew by the culled pages, and \<open>isolated\<close> is the number of
  isolated pages.\<close>

theorem parp_scan_folios_accounts:
  assumes "layout_ok (be_layout e)" and "turns_ok e"
    and "lists_ok e s" and "nb_list s = []" and "nb_moved s = []"
    and "get_nr_gens (nb_lru s) (be_type e) \<noteq> MIN_NR_GENS"
    and "(result, s') = scan_folios e nr_to_scan s"
  shows "\<exists>culled. distinct culled \<and> distinct (nb_list s') \<and> nb_moved s' = [] \<and> lists_ok e s' \<and>
    listed (nb_lru s') \<union> set (nb_list s') \<union> set culled = listed (nb_lru s) \<and>
    listed (nb_lru s') \<inter> set (nb_list s') = {} \<and> (listed (nb_lru s') \<union> set (nb_list s')) \<inter> set culled = {} \<and>
    set (nb_list s') \<subseteq> {x. ff_evictable (be_facts e x)} \<and> set culled \<subseteq> {x. \<not> ff_evictable (be_facts e x)} \<and>
    nb_isolated s' = pages_in e (nb_list s') \<and>
    (\<forall>t z. pages_of (nb_lru s') t z + pages_at e t z (nb_list s') + pages_at e t z culled = pages_of (nb_lru s) t z) \<and>
    (\<forall>z. lg_unevictable (nb_lru s') z =
       lg_unevictable (nb_lru s) z + pages_at e True z culled + pages_at e False z culled)"
proof -
  have "s' = snd (scan_folios e nr_to_scan s)" using assms(7) by (metis snd_conv)
  then have "rest_accounted e (nb_lru s) s'" using scan_folios_rest [OF assms(1-6)] by simp
  then obtain culled where c: "culled_ok e (nb_lru s) culled s'"
    and b: "batch_rest e (left_folios (nb_lru s) culled) (left_pages e (nb_lru s) culled) s'"
    unfolding rest_accounted_def by blast
  have "set culled \<subseteq> listed (nb_lru s)" and
    all: "listed (nb_lru s') \<union> set (nb_list s') = listed (nb_lru s) - set culled"
    using c b by (simp_all add: culled_ok_def batch_rest_def)
  then have "listed (nb_lru s') \<union> set (nb_list s') \<union> set culled = listed (nb_lru s)"
    "(listed (nb_lru s') \<union> set (nb_list s')) \<inter> set culled = {}" by blast+
  moreover have "set (nb_list s') \<subseteq> {x. ff_evictable (be_facts e x)}" "set culled \<subseteq> {x. \<not> ff_evictable (be_facts e x)}"
    using c by (auto simp: culled_ok_def)
  moreover have "pages_of (nb_lru s') t z + pages_at e t z (nb_list s') + pages_at e t z culled = pages_of (nb_lru s) t z"
    for t z
  proof -
    have "pages_of (nb_lru s') t z + pages_at e t z (nb_list s') = pages_of (nb_lru s) t z - pages_at e t z culled"
      using b by (simp add: batch_rest_def)
    then show ?thesis by linarith
  qed
  moreover have "distinct culled" "\<forall>z. lg_unevictable (nb_lru s') z =
       lg_unevictable (nb_lru s) z + pages_at e True z culled + pages_at e False z culled"
    using c by (simp_all add: culled_ok_def)
  moreover have "distinct (nb_list s')" "nb_moved s' = []" "lists_ok e s'"
    "listed (nb_lru s') \<inter> set (nb_list s') = {}" "nb_isolated s' = pages_in e (nb_list s')"
    using b by (simp_all add: batch_rest_def)
  ultimately show ?thesis by blast
qed

text \<open>Witness of C1: the sample batch with the policy switched on; folio 3 has become unevictable.\<close>

definition sample_culling_env :: batch_env where
  "sample_culling_env = sample_batch_env \<lparr> be_facts := (\<lambda>f. sample_facts \<lparr> ff_id := f, ff_evictable := f \<noteq> 3 \<rparr>) \<rparr>"

lemma sample_batch_lists:
  "lists_ok sample_culling_env (sample_batch mode)" "turns_ok sample_culling_env"
proof -
  have flags: "gen_valid sample_layout 0x400" using sample_hyps(4) by (simp add: gen_valid_def)
  have "listed_at (sample_facts \<lparr> ff_id := x, ff_evictable := b \<rparr>) 0 sample_lru" if "x \<in> {3, 7}" for x b
    using that by (auto simp: listed_at_def sample_lru_def sample_facts_def)
  then show "lists_ok sample_culling_env (sample_batch mode)"
    using flags unfolding lists_ok_def
    by (auto simp: sample_culling_env_def sample_batch_env_def sample_batch_def folio_ok_def sample_facts_def
        sample_lru_def split: if_splits)
  show "turns_ok sample_culling_env"
    by (simp add: turns_ok_def others_ok_def turn_sort_def sample_culling_env_def sample_batch_env_def
        sample_turn_def sample_sort_env_def)
qed

theorem parp_scan_folios_accounts_witness:
  "\<exists>r s' culled. (r, s') = scan_folios sample_culling_env 32 (sample_batch PARP_EFFECTIVE_TIER_BIDIRECTIONAL) \<and>
     listed (nb_lru s') \<union> set (nb_list s') \<union> set culled = listed sample_lru \<and> distinct (nb_list s') \<and>
     set culled \<subseteq> {3} \<and> 3 \<notin> set (nb_list s') \<and> nb_isolated s' = pages_in sample_culling_env (nb_list s')"
proof -
  let ?s = "sample_batch PARP_EFFECTIVE_TIER_BIDIRECTIONAL" and ?e = sample_culling_env
  obtain r s' where run: "(r, s') = scan_folios ?e 32 ?s" by (metis prod.collapse)
  have "nb_lru ?s = sample_lru" "nb_list ?s = []" "nb_moved ?s = []" "be_type ?e" "layout_ok (be_layout ?e)"
    "{x. \<not> ff_evictable (be_facts ?e x)} = {3}" "{x. ff_evictable (be_facts ?e x)} = - {3}"
    using sample_hyps(1) by (auto simp: sample_batch_def sample_culling_env_def sample_batch_env_def)
  moreover have "get_nr_gens sample_lru True \<noteq> MIN_NR_GENS" by code_simp
  ultimately show ?thesis
    using parp_scan_folios_accounts [OF _ sample_batch_lists(2,1) _ _ _ run] run
    by (simp add: subset_Compl_singleton) blast
qed

end
