(* ===== verification/Spec2Isabelle.thy ===== *)
theory Spec2Isabelle
  imports Tier_Score Tier_State Tier_Config Tier_Gate Tier_Batch Tier_Seqlock
    App_Snapshot Scan_Budget Watermark Frontier_Score Region_Map Evidence Evidence_Table
    Evidence_Invariant Evidence_Properties Damon_Adapter Damon_Properties Domain_Mode
    Memcg_Bins Reclaim_Adapter Sort_Invariant Scan_Accounts
begin

text \<open>
  \<^bold>\<open>PARP: predictive reclaim policies for the multi-generational LRU.\<close> The repository patches Linux with
  policies that predict which pages an application will use again and adjust page reclaim within hard
  budgets, falling back to native behaviour whenever their evidence is missing or stale. This
  development models the core of the patch, the C files under
  \<open>src/lzx/xty/newkernel_0812/source/overlay/mm/parp/\<close> (written \<open>mm/parp/\<close> below) with the structures
  of \<open>include/linux/parp.h\<close>, \<open>parp_tier2.h\<close>, \<open>mmzone.h\<close> and \<open>mm/parp/internal.h\<close>, and its hooks in
  \<open>mm/vmscan.c\<close> of the same directory.

  \<^bold>\<open>Parts, and the theories that model them.\<close>
  \<^item> \<^theory_text>\<open>Parp_Prelude\<close>: machine integers, the kernel's arithmetic helpers (\<open>mul_u64_u32_div\<close> with its
    divide fault, saturating addition, \<open>fls64\<close>, \<open>FIELD_GET\<close>/\<open>FIELD_PREP\<close>), error numbers, and the three
    contracts shared by the components: \<open>smoothing\<close>, \<open>spending\<close> and \<open>mode_switch\<close>. They are interpreted
    on the reuse-interval and headroom averages and the page history, on the action budgets, and on
    the mode switches.
  \<^item> The effective tier (\<open>core/effective_tier.c\<close>), a bounded correction of the native tier comparison:
    \<^item> \<^theory_text>\<open>Tier_Types\<close>: its enumerations and structures.
    \<^item> \<^theory_text>\<open>Tier_Score\<close>: the pure functions; feature binning, the linear score, score to tier delta,
      classification into actions, pressure scaling, the budget test, the matched random baseline.
    \<^item> \<^theory_text>\<open>Tier_State\<close>: the 24-byte page extension, its sequence-locked state word, access and candidate
      updates, revalidation, epoch claims, outcomes. Other CPUs are an explicit interference between
      the steps of a writer.
    \<^item> \<^theory_text>\<open>Tier_Seqlock\<close>: the same state word at the level of single memory accesses, for any number of
      CPUs: mutual exclusion, consistent snapshots, no writer shut out.
    \<^item> \<^theory_text>\<open>Tier_Config\<close>: mode switch, fault latch, configuration, lock measurement.
    \<^item> \<^theory_text>\<open>Tier_Gate\<close>, \<^theory_text>\<open>Tier_Batch\<close>: prepare, decide, cancel, finish, feedback with the batch and epoch
      ledgers; the state machine of their interleavings and its invariant.
  \<^item> The hooks in native reclaim (\<open>mm/vmscan.c\<close>):
    \<^item> \<^theory_text>\<open>Mglru\<close>: the generation lists of a lruvec, the flags of a folio and the ways its generation changes
      (\<open>folio_update_gen\<close>, \<open>folio_inc_gen\<close>, \<open>parp_policy_inc_gen\<close>), and the list operations of
      \<open>include/linux/mm_inline.h\<close>.
    \<^item> \<^theory_text>\<open>Sort_Folio\<close>: \<open>sort_folio\<close> with every branch, beside the function before the patch
      (\<open>native_sort_folio\<close>); \<^theory_text>\<open>Sort_Invariant\<close> what it does to the lists.
    \<^item> \<^theory_text>\<open>Scan_Folios\<close>: \<open>scan_folios\<close> and \<open>isolate_folio\<close>, again with and without the hooks;
      \<^theory_text>\<open>Scan_Hooks\<close> the contract \<open>hook_invariant\<close> of what a whole batch preserves (interpreted on the
      ledgers of the gate, on observing worlds, on the open section and on the enabled batch);
      \<^theory_text>\<open>Scan_Properties\<close> the batch against the native one and the budgets of interleaved batches;
      \<^theory_text>\<open>Scan_Accounts\<close> where every folio and page is afterwards.
    \<^item> \<^theory_text>\<open>Memcg_Bins\<close>: the bin a cgroup is put in (\<open>parp_memcg_reclaim_bin\<close>), the order in which
      \<open>shrink_many\<close> comes to the bins, and the memcg LRU of a node (online, offline, release, rotate).
  \<^item> \<^theory_text>\<open>App_Snapshot\<close> (\<open>core/snapshot.c\<close>): the published table of domain bindings and application
    priors, its updates and its readers; \<open>keyed_table\<close> is the contract both tables provide.
  \<^item> \<^theory_text>\<open>Scan_Budget\<close> (\<open>core/scan_budget.c\<close>, \<open>adapter/scan_budget_adapter.c\<close>): validation, multipliers,
    limits, the circuit breaker (refining a finite map) and the accounting of a scan-count change.
  \<^item> \<^theory_text>\<open>Watermark\<close> (\<open>core/watermark.c\<close>): the per-cgroup headroom predictor and its delayed reclaim.
  \<^item> \<^theory_text>\<open>Frontier_Score\<close> (\<open>core/frontier_score.c\<close>): the older observing scorer at the reclaim frontier.
  \<^item> \<^theory_text>\<open>Domain_Mode\<close> (\<open>core/domain.c\<close>): the switches of the whole policy and of the evidence.
  \<^item> \<^theory_text>\<open>Region_Map\<close> (\<open>mapping/\<close>): alignment of monitored address ranges and their translation to file and
    anonymous regions.
  \<^item> The evidence of monitored regions (\<open>core/evidence.c\<close>): \<^theory_text>\<open>Evidence\<close> holds its state and operations and
    what the lookup finds; \<^theory_text>\<open>Evidence_Table\<close> the windows of a ring of 60 one-second buckets and the
    removal of entries; \<^theory_text>\<open>Evidence_Invariant\<close> the well-formed bounded table, once for both observation
    types (locale \<open>observed_regions\<close>), and the published snapshot; \<^theory_text>\<open>Evidence_Properties\<close> the reachable
    states, refused and evicted samples, domains taken offline and the summary of a domain.
  \<^item> \<^theory_text>\<open>Damon_Adapter\<close> (\<open>adapter/damon_adapter.c\<close>) feeds it: the queue of samples, their attribution to an
    application, the cutting of a region along the mappings; \<^theory_text>\<open>Damon_Properties\<close> its properties.
  \<^item> \<^theory_text>\<open>Reclaim_Adapter\<close> (\<open>adapter/mglru_adapter.c\<close>, \<open>file_adapter.c\<close>, \<open>anon_adapter.c\<close>) reads it: what
    native reclaim asks about a folio.

  They interact through the snapshot (\<open>parp_context_lookup\<close> feeds the frontier, the attribution of samples and
  the publication of evidence, \<open>parp_snapshot_fill_scan_budget_input\<close> the scan budget and the bin of a
  cgroup), through the evidence (written by the work items of the monitor, read by the adapters), through
  the page metadata (the gate claims epochs in it), through the per-lruvec ledgers, and through
  \<open>scan_folios\<close>, which calls the adapter, the effective tier and the frontier scorer for every folio.

  \<^bold>\<open>Reading the model.\<close> Unsigned values are words of their C width and wrap; signed values are \<open>int\<close>
  with theorems that bound them. A structure is a record with a prefix per structure, an enumeration a
  datatype. A call that returns \<open>0\<close> or an error returns \<open>errno option\<close> (\<open>None\<close> is \<open>0\<close>) and the new
  state; a division that may fault returns \<open>None\<close>. File-scope state is a record that is passed and
  returned. Clock readings, tracing switches, allocation results, \<open>sort\<close> and hash functions are arguments.

  Step relations interleave the operations; their reachable states carry the invariants. A step is what one
  lock holds together or one atomic operation does; work that is half done is a multiset of tasks.
  \<^item> \<open>parp_tier2_step\<close>: the locked sections of the watermarks, with the timer calls made after the unlock as
    steps of their own. \<open>parp_scan_step\<close>: tests and stores of the setters, decision, sequence number and
    counters of a query. \<open>damon_step\<close>: the atomic operations on the queue of samples.
  \<^item> \<open>seq_step\<close>: single accesses to the state word. \<open>parp_gate_step\<close>: the operations of a
    batch and the control writes between them. \<open>batch_reach\<close>: whole batches, the reports that follow them,
    control writes. \<open>frontier_step\<close>: the calls of the scorer from any number of reclaim contexts.
  \<^item> \<open>parp_snapshot_step\<close>, \<open>parp_control_step\<close>, \<open>evidence_reach\<close>, \<open>memcg_reach\<close>: whole operations, each under the
    one lock of its component.

  \<^bold>\<open>What the lemmas show.\<close> Safety: every deviation from native reclaim is backed by current evidence
  and a reservation, and all ledgers stay within their limits through every interleaving. Conservation: a
  batch loses no folio and no page, every byte of a monitored region is accounted for once, a round of the
  memcg LRU loses no cgroup. Error behaviour: a failed write changes nothing, and when the bin of a cgroup
  faults. Round trips: what was written is read back, what was reserved and cancelled is gone. Exactness: the
  scaled scan count, the predictor, the frontier, the evidence windows and the matched random selection
  equal their closed forms. Equivalence and refinement: hooks that only observe leave the batch a native
  one; the two readers of the snapshot agree; the breaker table is a finite map. Termination and
  progress: the retry loops end and a writer can always finish. Where the code does not keep what it seems to
  promise, a lemma shows a run: \<open>parp_tier2_timer_race\<close>, \<open>parp_scan_apply_without_domain\<close>,
  \<open>parp_evidence_lookup_misses_overlap\<close>.

  \<^bold>\<open>Bounds.\<close> A writer of the state word tries \<open>PARP_TIER_STATE_TRIES\<close> = 4 times, as the source does; the
  loop is structural. A snapshot is consistent if fewer than 1024 sections complete while it is read:
  the sequence has 11 bits and steps by two. The retry loops of \<open>score_time_loop\<close>, \<open>high_water_loop\<close>,
  \<open>folio_update_gen_loop\<close> and \<open>inc_gen_loop\<close> need no fuel: they have a measure, or recurse on the list of
  interferences they meet. A region is cut at
  most 64 times, as in the source, and \<open>shrink_many_walk\<close> comes to \<open>MEMCG_NR_BINS\<close> = 8 bins.

  \<^bold>\<open>Not modelled.\<close> Parsing and printing of the control files (I/O; the setters and counters behind them
  are modelled) and the trace records; RCU reclamation of old snapshots, allocation, memory ordering (steps
  are sequentially consistent); in \<open>mm/vmscan.c\<close> aging, the page-table walk, the PID control of the tiers,
  the tail of \<open>evict_folios\<close>, the walk of \<open>shrink_many\<close> within a bin and the kernel's event counters, all
  native code; the scoring engine \<open>parp_engine_score\<close> and the counting of its decisions, whose sources are
  missing from the repository (arguments of \<^theory_text>\<open>Reclaim_Adapter\<close>); the unit tests; the experiment copy
  \<open>kernel_r11\<close>; the vendored kernel and the user-space tools.
\<close>

end
